(* ===== verification/Prelude.thy ===== *)
theory Prelude
  imports Main "HOL-Library.List_Lexorder" "HOL-Library.Char_ord" "HOL-Library.Multiset"
begin

text \<open>
  Shared vocabulary of the development: the result type of fallible Go functions, Go maps
  with string keys, SQL tables as lists of rows, and comparison sorts. Every other theory
  imports this one.
\<close>

named_theorems table_simps \<open>reading a table after an insert or an update\<close>
named_theorems gomap_simps \<open>reading a Go map after an assignment or a delete\<close>

section \<open>Results of fallible functions\<close>

text \<open>
  A Go function that returns \<open>(T, error)\<close> is a function into \<open>'e + 'a\<close>: \<open>Inl\<close> is the
  non-nil error, \<open>Inr\<close> the value returned with a nil error.
\<close>

definition bindE :: "'e + 'a \<Rightarrow> ('a \<Rightarrow> 'e + 'b) \<Rightarrow> 'e + 'b" where
  "bindE r f = (case r of Inl e \<Rightarrow> Inl e | Inr x \<Rightarrow> f x)"

lemma bindE_simps [simp]:
  "bindE (Inl e) f = Inl e"
  "bindE (Inr x) f = f x"
  by (simp_all add: bindE_def)

lemma bindE_eq_Inr: "bindE r f = Inr y \<longleftrightarrow> (\<exists>x. r = Inr x \<and> f x = Inr y)"
  by (cases r) auto

lemma bindE_Inr_elim [elim!]:
  assumes "bindE r f = Inr y"
  obtains x where "r = Inr x" "f x = Inr y"
  using assms by (auto simp: bindE_eq_Inr)

lemma bindE_cong [fundef_cong]:
  "r = r' \<Longrightarrow> (\<And>x. r' = Inr x \<Longrightarrow> f x = f' x) \<Longrightarrow> bindE r f = bindE r' f'"
  by (cases r') auto

lemma bindE_assoc: "bindE (bindE r f) g = bindE r (\<lambda>x. bindE (f x) g)"
  by (cases r) auto

text \<open>A guard \<open>if cond { return err }\<close>.\<close>

definition guardE :: "bool \<Rightarrow> 'e \<Rightarrow> 'e + unit" where
  "guardE bad e = (if bad then Inl e else Inr ())"

lemma guardE_simps [simp]:
  "guardE True e = Inl e"
  "guardE False e = Inr ()"
  "guardE c e = Inr u \<longleftrightarrow> \<not> c"
  "guardE c e = Inl e' \<longleftrightarrow> c \<and> e' = e"
  by (auto simp: guardE_def)

text \<open>
  A transaction body works on a copy of the database; \<open>defer tx.Rollback()\<close> throws the copy
  away on every error return, and \<open>tx.Commit()\<close> installs it.
\<close>

definition transaction :: "('db \<Rightarrow> 'e + 'a \<times> 'db) \<Rightarrow> 'db \<Rightarrow> ('e + 'a) \<times> 'db" where
  "transaction body db =
     (case body db of Inl e \<Rightarrow> (Inl e, db) | Inr (x, db') \<Rightarrow> (Inr x, db'))"

lemma transaction_Inr [simp]:
  "transaction body db = (Inr x, db') \<longleftrightarrow> body db = Inr (x, db')"
  by (auto simp: transaction_def split: sum.splits)

lemma transaction_Inl:
  "transaction body db = (Inl e, db') \<longleftrightarrow> body db = Inl e \<and> db' = db"
  by (auto simp: transaction_def split: sum.splits)

lemma transaction_rollback: "fst (transaction body db) = Inl e \<Longrightarrow> snd (transaction body db) = db"
  by (auto simp: transaction_def split: sum.splits)

lemma transaction_cases:
  obtains (err) e where "body db = Inl e" "transaction body db = (Inl e, db)"
  | (ok) x db' where "body db = Inr (x, db')" "transaction body db = (Inr x, db')"
  by (cases "body db") (auto simp: transaction_def)

section \<open>Go maps with string keys\<close>

text \<open>
  A \<open>map[string]V\<close> is the list of its entries in ascending key order, so that two maps with
  the same entries are the same list. \<open>map_of m k\<close> reads, \<open>put\<close> assigns, \<open>del\<close>
  deletes, \<open>length\<close> is \<open>len\<close>. The order of the list is the one \<open>encoding/json\<close> and
  \<open>sort.Strings\<close> impose; it is not the order of a Go \<open>range\<close>.
\<close>

type_synonym 'v gomap = "(string \<times> 'v) list"

definition wf_map :: "'v gomap \<Rightarrow> bool" where
  "wf_map m \<longleftrightarrow> sorted_wrt (<) (map fst m)"

fun put :: "string \<Rightarrow> 'v \<Rightarrow> 'v gomap \<Rightarrow> 'v gomap" where
  "put k v [] = [(k, v)]"
| "put k v ((k', v') # m) =
     (if k < k' then (k, v) # (k', v') # m
      else if k = k' then (k, v) # m
      else (k', v') # put k v m)"

definition del :: "string \<Rightarrow> 'v gomap \<Rightarrow> 'v gomap" where
  "del k m = filter (\<lambda>e. fst e \<noteq> k) m"

definition has :: "'v gomap \<Rightarrow> string \<Rightarrow> bool" where
  "has m k \<longleftrightarrow> map_of m k \<noteq> None"

lemma map_of_put [gomap_simps, simp]: "map_of (put k v m) = (map_of m)(k \<mapsto> v)"
  by (induction k v m rule: put.induct) auto

lemma set_keys_put [gomap_simps]: "fst ` set (put k v m) = insert k (fst ` set m)"
  by (induction k v m rule: put.induct) auto

lemma set_put: "e \<in> set (put k v m) \<Longrightarrow> e = (k, v) \<or> e \<in> set m"
  by (induction k v m rule: put.induct) (auto split: if_splits)

lemma put_in_set: "(k, v) \<in> set (put k v m)"
  by (induction k v m rule: put.induct) auto

lemma wf_map_Nil [simp]: "wf_map []"
  by (simp add: wf_map_def)

lemma wf_map_Cons: "wf_map ((k, v) # m) \<longleftrightarrow> (\<forall>k' \<in> fst ` set m. k < k') \<and> wf_map m"
  by (auto simp: wf_map_def)

lemma wf_map_put [gomap_simps]: "wf_map m \<Longrightarrow> wf_map (put k v m)"
  by (induction k v m rule: put.induct) (auto simp: wf_map_Cons set_keys_put)

lemma wf_map_distinct: "wf_map m \<Longrightarrow> distinct (map fst m)"
  by (simp add: wf_map_def strict_sorted_iff)

lemma map_of_eq_Some_iff_wf: "wf_map m \<Longrightarrow> map_of m k = Some v \<longleftrightarrow> (k, v) \<in> set m"
  by (simp add: wf_map_distinct map_of_eq_Some_iff)

lemma length_put: "wf_map m \<Longrightarrow> length (put k v m) = (if has m k then length m else Suc (length m))"
proof (induction k v m rule: put.induct)
  case (2 k v k' v' m)
  have "map_of m k = None" if "k < k'"
    using that 2(2) by (auto simp: wf_map_Cons map_of_eq_None_iff)
  with 2 show ?case by (auto simp: has_def wf_map_Cons)
qed (simp add: has_def)

lemma put_put [gomap_simps]: "put k v (put k w m) = put k v m"
  by (induction k w m rule: put.induct) auto

lemma map_of_del [gomap_simps, simp]: "map_of (del k m) = (map_of m)(k := None)"
  by (induction m) (auto simp: del_def fun_eq_iff)

lemma wf_map_del [gomap_simps]: "wf_map m \<Longrightarrow> wf_map (del k m)"
  by (induction m) (auto simp: del_def wf_map_Cons)

text \<open>Two well-formed maps with the same entries are the same list.\<close>

lemma wf_map_set_eq: "wf_map m \<Longrightarrow> wf_map m' \<Longrightarrow> set m = set m' \<Longrightarrow> m = m'"
proof (induction m arbitrary: m')
  case (Cons e m)
  obtain e' n where m': "m' = e' # n"
    using Cons.prems by (cases m') auto
  obtain k v k' v' where kv: "e = (k, v)" "e' = (k', v')"
    by (cases e, cases e') auto
  have lt: "\<forall>x \<in> fst ` set m. k < x" "\<forall>x \<in> fst ` set n. k' < x"
    using Cons.prems kv m' by (auto simp: wf_map_Cons)
  have in_n: "e \<in> set (e' # n)" and in_m: "e' \<in> set (e # m)"
    using Cons.prems m' by auto
  have "e = e'"
  proof (rule ccontr)
    assume "e \<noteq> e'"
    then have "e \<in> set n" "e' \<in> set m"
      using in_n in_m by auto
    then have "k' < k" "k < k'"
      using lt kv by force+
    then show False by simp
  qed
  moreover have "set m = set n"
  proof -
    have "e \<notin> set m" "e' \<notin> set n"
      using lt kv by force+
    with Cons.prems(3) m' \<open>e = e'\<close> show ?thesis by auto
  qed
  ultimately show ?case
    using Cons m' kv by (auto simp: wf_map_Cons)
qed simp

lemma map_of_put_same: "wf_map m \<Longrightarrow> map_of m k = Some v \<Longrightarrow> put k v m = m"
proof (induction k v m rule: put.induct)
  case (2 k v k' v' m)
  show ?case
  proof (cases "k < k'")
    case True
    with 2 have "k \<notin> fst ` set ((k', v') # m)"
      by (force simp: wf_map_Cons)
    then have "map_of ((k', v') # m) k = None"
      by (simp only: map_of_eq_None_iff not_False_eq_True)
    with 2 show ?thesis by simp
  next
    case False
    with 2 show ?thesis by (auto simp: wf_map_Cons)
  qed
qed simp

definition vals :: "'v gomap \<Rightarrow> 'v list" where
  "vals m = map snd m"

definition map_vals :: "('v \<Rightarrow> 'w) \<Rightarrow> 'v gomap \<Rightarrow> 'w gomap" where
  "map_vals f m = map (\<lambda>(k, v). (k, f v)) m"

lemma map_of_map_vals [gomap_simps, simp]: "map_of (map_vals f m) k = map_option f (map_of m k)"
  by (simp add: map_vals_def map_of_map)

lemma keys_map_vals [gomap_simps, simp]: "map fst (map_vals f m) = map fst m"
  by (auto simp: map_vals_def)

lemma wf_map_map_vals [gomap_simps, simp]: "wf_map (map_vals f m) = wf_map m"
  by (simp add: wf_map_def)

lemma map_vals_put [gomap_simps]: "map_vals f (put k v m) = put k (f v) (map_vals f m)"
  by (induction k v m rule: put.induct) (auto simp: map_vals_def)

lemma set_map_vals: "(k, v) \<in> set (map_vals f m) \<longleftrightarrow> (\<exists>w. (k, w) \<in> set m \<and> v = f w)"
  by (force simp: map_vals_def)

lemma ball_map_vals: "(\<forall>(k, v) \<in> set (map_vals f m). P k v) \<longleftrightarrow> (\<forall>(k, v) \<in> set m. P k (f v))"
  by (force simp: map_vals_def)

lemma map_snd_map_vals: "map (g \<circ> snd) (map_vals f m) = map (g \<circ> f \<circ> snd) m"
  by (auto simp: map_vals_def)

lemma map_vals_comp: "map_vals f (map_vals g m) = map_vals (f \<circ> g) m"
  by (auto simp: map_vals_def)

lemma length_map_vals [simp]: "length (map_vals f m) = length m"
  by (simp add: map_vals_def)

lemma map_vals_cong [fundef_cong]:
  "m = m' \<Longrightarrow> (\<And>k v. (k, v) \<in> set m' \<Longrightarrow> f v = g v) \<Longrightarrow> map_vals f m = map_vals g m'"
  by (auto simp: map_vals_def)

lemma map_vals_idI: "(\<And>k v. (k, v) \<in> set m \<Longrightarrow> f v = v) \<Longrightarrow> map_vals f m = m"
  by (auto simp: map_vals_def intro!: map_idI)

section \<open>Sorting with a comparison function\<close>

text \<open>
  \<open>sort.Slice\<close> sorts with a \<open>less\<close> function and promises a sorted permutation, not a
  stable one. When \<open>less\<close> is a strict total order on the elements there is exactly one
  sorted permutation, so \<open>sort_by\<close> computes what Go computes.
\<close>

fun insert_by :: "('a \<Rightarrow> 'a \<Rightarrow> bool) \<Rightarrow> 'a \<Rightarrow> 'a list \<Rightarrow> 'a list" where
  "insert_by lt x [] = [x]"
| "insert_by lt x (y # ys) = (if lt x y then x # y # ys else y # insert_by lt x ys)"

fun sort_by :: "('a \<Rightarrow> 'a \<Rightarrow> bool) \<Rightarrow> 'a list \<Rightarrow> 'a list" where
  "sort_by lt [] = []"
| "sort_by lt (x # xs) = insert_by lt x (sort_by lt xs)"

lemma mset_insert_by [simp]: "mset (insert_by lt x xs) = add_mset x (mset xs)"
  by (induction xs) auto

lemma mset_sort_by [simp]: "mset (sort_by lt xs) = mset xs"
  by (induction xs) auto

lemma set_insert_by [simp]: "set (insert_by lt x xs) = insert x (set xs)"
  by (induction xs) auto

lemma set_sort_by [simp]: "set (sort_by lt xs) = set xs"
  by (induction xs) auto

lemma length_sort_by [simp]: "length (sort_by lt xs) = length xs"
  by (metis mset_sort_by size_mset)

lemma distinct_sort_by [simp]: "distinct (sort_by lt xs) = distinct xs"
  by (metis mset_sort_by mset_eq_imp_distinct_iff)

locale strict_order_on =
  fixes lt :: "'a \<Rightarrow> 'a \<Rightarrow> bool" and dom_of :: "'a \<Rightarrow> bool"
  assumes irrefl: "dom_of x \<Longrightarrow> \<not> lt x x"
    and trans: "dom_of x \<Longrightarrow> dom_of y \<Longrightarrow> dom_of z \<Longrightarrow> lt x y \<Longrightarrow> lt y z \<Longrightarrow> lt x z"
    and total: "dom_of x \<Longrightarrow> dom_of y \<Longrightarrow> x \<noteq> y \<Longrightarrow> lt x y \<or> lt y x"
begin

lemma sorted_insert_by:
  assumes "dom_of x" "\<forall>y \<in> set ys. dom_of y" "x \<notin> set ys" "sorted_wrt lt ys"
  shows "sorted_wrt lt (insert_by lt x ys)"
  using assms
proof (induction ys)
  case (Cons y ys)
  then show ?case
    by (auto intro: trans dest: total)
qed simp

lemma sorted_sort_by:
  assumes "\<forall>x \<in> set xs. dom_of x" "distinct xs"
  shows "sorted_wrt lt (sort_by lt xs)"
  using assms by (induction xs) (auto intro: sorted_insert_by)

lemma sorted_unique:
  assumes "\<forall>x \<in> set xs. dom_of x" "set xs = set ys"
    and "sorted_wrt lt xs" "sorted_wrt lt ys"
  shows "xs = ys"
  using assms
proof (induction xs arbitrary: ys)
  case (Cons x xs)
  obtain y ys' where ys: "ys = y # ys'"
    using Cons.prems(2) by (cases ys) auto
  have dom_ys: "\<forall>z \<in> set ys. dom_of z"
    using Cons.prems by auto
  have "x = y"
  proof (rule ccontr)
    assume "x \<noteq> y"
    then have "x \<in> set ys'" "y \<in> set xs"
      using Cons.prems(2) ys by auto
    then have "lt y x" "lt x y"
      using Cons.prems ys by auto
    then show False
      using irrefl trans Cons.prems(1) dom_ys ys by (metis list.set_intros(1))
  qed
  moreover have "x \<notin> set xs" "y \<notin> set ys'"
    using Cons.prems dom_ys ys irrefl by auto
  ultimately have "set xs = set ys'"
    using Cons.prems(2) ys by auto
  then have "xs = ys'"
    using Cons.prems ys by (intro Cons.IH) auto
  with \<open>x = y\<close> ys show ?case by simp
qed simp

lemma sort_by_unique:
  assumes "\<forall>x \<in> set xs. dom_of x" "distinct xs" "set ys = set xs" "sorted_wrt lt ys"
  shows "ys = sort_by lt xs"
  using assms sorted_sort_by by (intro sorted_unique) auto

lemma sort_by_perm:
  assumes "\<forall>x \<in> set xs. dom_of x" "distinct xs" "distinct ys" "set ys = set xs"
  shows "sort_by lt ys = sort_by lt xs"
  using assms sorted_sort_by by (intro sorted_unique) auto

end

lemma filter_insert_by_distinct:
  "sorted_wrt lt (insert_by lt x ys) \<Longrightarrow> sorted_wrt lt (filter P (insert_by lt x ys))"
  by (simp add: sorted_wrt_filter)

section \<open>Tables\<close>

text \<open>
  A SQL table is the list of its rows in insertion order. \<open>find_row\<close> is a \<open>SELECT\<close> with at
  most one row expected, \<open>update_where\<close> an \<open>UPDATE ... WHERE\<close>, \<open>affected\<close> its
  \<open>RowsAffected\<close>.
\<close>

definition find_row :: "('r \<Rightarrow> bool) \<Rightarrow> 'r list \<Rightarrow> 'r option" where
  "find_row p t = List.find p t"

definition update_where :: "('r \<Rightarrow> bool) \<Rightarrow> ('r \<Rightarrow> 'r) \<Rightarrow> 'r list \<Rightarrow> 'r list" where
  "update_where p f t = map (\<lambda>r. if p r then f r else r) t"

definition affected :: "('r \<Rightarrow> bool) \<Rightarrow> 'r list \<Rightarrow> nat" where
  "affected p t = length (filter p t)"

definition row_exists :: "('r \<Rightarrow> bool) \<Rightarrow> 'r list \<Rightarrow> bool" where
  "row_exists p t \<longleftrightarrow> (\<exists>r \<in> set t. p r)"

lemma find_row_Some: "find_row p t = Some r \<Longrightarrow> r \<in> set t \<and> p r"
  by (auto simp: find_row_def find_Some_iff)

lemma find_row_None: "find_row p t = None \<longleftrightarrow> \<not> row_exists p t"
  by (auto simp: find_row_def find_None_iff row_exists_def)

lemma find_row_append [table_simps]:
  "find_row p (t @ u) = (case find_row p t of None \<Rightarrow> find_row p u | Some r \<Rightarrow> Some r)"
  by (induction t) (auto simp: find_row_def)

lemma find_row_simps [simp]:
  "find_row p [] = None"
  "find_row p (r # t) = (if p r then Some r else find_row p t)"
  by (auto simp: find_row_def)

lemma find_row_update_same [table_simps]:
  assumes "\<And>r. p (f r) = p r"
  shows "find_row p (update_where p f t) = map_option f (find_row p t)"
  using assms by (induction t) (auto simp: update_where_def)

lemma find_row_update_other [table_simps]:
  assumes "\<And>r. p r \<Longrightarrow> q (f r) = q r" "\<And>r. p r \<Longrightarrow> \<not> q r"
  shows "find_row q (update_where p f t) = find_row q t"
  using assms by (induction t) (auto simp: update_where_def)

lemma find_row_distinct:
  assumes "distinct (map key t)" "r \<in> set t"
  shows "find_row (\<lambda>r'. key r' = key r) t = Some r"
  using assms by (induction t) (auto simp: image_iff)

lemma map_update_where:
  assumes "\<And>r. key (f r) = key r"
  shows "map key (update_where p f t) = map key t"
  using assms by (auto simp: update_where_def)

lemma length_update_where [simp]: "length (update_where p f t) = length t"
  by (simp add: update_where_def)

lemma affected_pos: "find_row p t = Some r \<Longrightarrow> 0 < affected p t"
  by (auto simp: affected_def filter_empty_conv dest!: find_row_Some)

lemma affected_unique:
  assumes "distinct (map key t)" "find_row (\<lambda>r'. key r' = k) t = Some r"
  shows "affected (\<lambda>r'. key r' = k) t = 1"
  using assms
proof (induction t)
  case (Cons x t)
  show ?case
  proof (cases "key x = k")
    case True
    then have "filter (\<lambda>r'. key r' = k) t = []"
      using Cons.prems(1) by (force simp: filter_empty_conv image_iff)
    with True show ?thesis by (simp add: affected_def)
  next
    case False
    with Cons show ?thesis by (simp add: affected_def)
  qed
qed simp

section \<open>Transition systems\<close>

text \<open>
  The components that keep a database are transition systems: one step is one operation, and
  a run is a sequence of them. Three contracts recur: an invariant of every run, a ledger that
  only grows, and a part of the state that the steps of a run leave alone.
\<close>

locale run_invariant =
  fixes step :: "'s \<Rightarrow> 's \<Rightarrow> bool" and inv :: "'s \<Rightarrow> bool"
  assumes inv_step: "step s t \<Longrightarrow> inv s \<Longrightarrow> inv t"
begin

lemma inv_run: "step\<^sup>*\<^sup>* s t \<Longrightarrow> inv s \<Longrightarrow> inv t"
  by (induction rule: rtranclp_induct) (auto intro: inv_step)

end

locale run_ledger =
  fixes step :: "'s \<Rightarrow> 's \<Rightarrow> bool" and ledger :: "'s \<Rightarrow> 'e list"
  assumes ledger_step: "step s t \<Longrightarrow> \<exists>es. ledger t = ledger s @ es"
begin

lemma ledger_run: "step\<^sup>*\<^sup>* s t \<Longrightarrow> \<exists>es. ledger t = ledger s @ es"
proof (induction rule: rtranclp_induct)
  case (step t u)
  then show ?case using ledger_step [of t u] by (metis append.assoc)
qed simp

lemma ledger_length: "step\<^sup>*\<^sup>* s t \<Longrightarrow> length (ledger s) \<le> length (ledger t)"
  using ledger_run by fastforce

end

locale run_frame =
  fixes step :: "'s \<Rightarrow> 's \<Rightarrow> bool" and view :: "'s \<Rightarrow> 'v"
  assumes view_step: "step s t \<Longrightarrow> view t = view s"
begin

lemma view_run: "step\<^sup>*\<^sup>* s t \<Longrightarrow> view t = view s"
  by (induction rule: rtranclp_induct) (auto simp: view_step)

end

end
