(* ===== verification/Go_Time.thy ===== *)
theory Go_Time
  imports Prelude "HOL-Library.Monad_Syntax"
begin

text \<open>
  The part of Go's \<open>time\<close> package the program uses: instants in UTC with nanosecond
  resolution, \<open>Format(time.RFC3339Nano)\<close> and \<open>time.Parse(time.RFC3339Nano, _)\<close>.
  An instant is the number of nanoseconds since 0000-01-01T00:00:00Z; \<open>After\<close>,
  \<open>Before\<close>, \<open>Equal\<close> and \<open>Sub\<close> are the order and the difference of integers.
  (\<open>Sub\<close> saturates at 292 years in Go; the program only compares it with ten years.)
\<close>

section \<open>Decimal digits\<close>

definition digit :: "int \<Rightarrow> char" where
  "digit d = char_of (48 + nat d)"

definition is_digit :: "char \<Rightarrow> bool" where
  "is_digit c \<longleftrightarrow> 48 \<le> (of_char c :: nat) \<and> (of_char c :: nat) \<le> 57"

definition digit_val :: "char \<Rightarrow> int" where
  "digit_val c = int (of_char c) - 48"

lemma is_digit_digit [simp]: "0 \<le> d \<Longrightarrow> d < 10 \<Longrightarrow> is_digit (digit d)"
  by (auto simp: is_digit_def digit_def nat_less_iff)

lemma digit_val_digit [simp]: "0 \<le> d \<Longrightarrow> d < 10 \<Longrightarrow> digit_val (digit d) = d"
  by (simp add: digit_val_def digit_def nat_less_iff)

text \<open>The \<open>n\<close> low decimal digits of a number, most significant first.\<close>

fun pad :: "nat \<Rightarrow> int \<Rightarrow> string" where
  "pad 0 x = []"
| "pad (Suc n) x = pad n (x div 10) @ [digit (x mod 10)]"

text \<open>\<open>strconv.Itoa\<close> of a number that is not negative.\<close>

function dec :: "int \<Rightarrow> string" where
  "dec x = (if x < 10 then [digit x] else dec (x div 10) @ [digit (x mod 10)])"
  by pat_completeness auto
termination
  by (relation "measure nat") auto

declare dec.simps [simp del]

definition num_of :: "string \<Rightarrow> int" where
  "num_of s = foldl (\<lambda>a c. 10 * a + digit_val c) 0 s"

lemma num_of_snoc [simp]: "num_of (s @ [c]) = 10 * num_of s + digit_val c"
  by (simp add: num_of_def)

lemma num_of_Nil [simp]: "num_of [] = 0"
  by (simp add: num_of_def)

lemma length_pad [simp]: "length (pad n x) = n"
  by (induction n arbitrary: x) auto

lemma digits_pad: "c \<in> set (pad n x) \<Longrightarrow> is_digit c"
  by (induction n arbitrary: x) auto

lemma num_of_pad: "0 \<le> x \<Longrightarrow> x < 10 ^ n \<Longrightarrow> num_of (pad n x) = x"
proof (induction n arbitrary: x)
  case (Suc n)
  then have "x div 10 < 10 ^ n" by (simp add: div_less_iff_less_mult)
  with Suc show ?case by simp
qed simp

lemma num_of_dec [simp]: "0 \<le> x \<Longrightarrow> num_of (dec x) = x"
proof (induction x rule: dec.induct)
  case (1 x)
  then show ?case
    by (subst dec.simps) (auto simp: num_of_def)
qed

lemma digits_dec: "c \<in> set (dec x) \<Longrightarrow> 0 \<le> x \<Longrightarrow> is_digit c"
proof (induction x rule: dec.induct)
  case (1 x)
  then show ?case
    by (auto simp: dec.simps [of x] split: if_splits)
qed

lemma dec_nonempty: "dec x \<noteq> []"
  by (subst dec.simps) auto

lemma dec_inject: "0 \<le> x \<Longrightarrow> 0 \<le> y \<Longrightarrow> dec x = dec y \<longleftrightarrow> x = y"
  by (metis num_of_dec)

definition dec_int :: "int \<Rightarrow> string" where
  "dec_int i = (if i < 0 then CHR ''-'' # dec (- i) else dec i)"

lemma not_digit_simps [simp]: "\<not> is_digit CHR ''-''" "\<not> is_digit CHR ''.''" "\<not> is_digit CHR ''Z''"
  "\<not> is_digit CHR '':''" "\<not> is_digit CHR ''+''" "\<not> is_digit CHR '',''" "\<not> is_digit CHR ''T''"
  by (simp_all add: is_digit_def)

lemma dec_no_minus: "0 \<le> x \<Longrightarrow> dec x \<noteq> CHR ''-'' # s"
  using digits_dec [of "CHR ''-''" x] by auto

lemma dec_int_inject: "dec_int i = dec_int j \<longleftrightarrow> i = j"
  using dec_no_minus [of i "dec (- j)"] dec_no_minus [of j "dec (- i)"]
  by (auto simp: dec_int_def dec_inject)

section \<open>The proleptic Gregorian calendar\<close>

definition leap :: "int \<Rightarrow> bool" where
  "leap y \<longleftrightarrow> y mod 4 = 0 \<and> (y mod 100 \<noteq> 0 \<or> y mod 400 = 0)"

text \<open>Days from 0000-01-01 to the first day of year \<open>y\<close>.\<close>

definition year_start :: "int \<Rightarrow> int" where
  "year_start y = 365 * y + (y + 3) div 4 - (y + 99) div 100 + (y + 399) div 400"

definition year_len :: "int \<Rightarrow> int" where
  "year_len y = (if leap y then 366 else 365)"

definition month_lens :: "bool \<Rightarrow> int list" where
  "month_lens l = [31, if l then 29 else 28, 31, 30, 31, 30, 31, 31, 30, 31, 30, 31]"

definition year_of :: "int \<Rightarrow> int" where
  "year_of d =
     (let y = 400 * d div 146097
      in if year_start (y + 1) \<le> d then y + 1 else if d < year_start y then y - 1 else y)"

fun month_day :: "int list \<Rightarrow> int \<Rightarrow> int \<Rightarrow> int \<times> int" where
  "month_day [] m d = (m, d + 1)"
| "month_day (l # ls) m d = (if d < l then (m, d + 1) else month_day ls (m + 1) (d - l))"

definition date_of :: "int \<Rightarrow> int \<times> int \<times> int" where
  "date_of d =
     (let y = year_of d; (m, dd) = month_day (month_lens (leap y)) 1 (d - year_start y)
      in (y, m, dd))"

definition day_number :: "int \<Rightarrow> int \<Rightarrow> int \<Rightarrow> int" where
  "day_number y m d = year_start y + sum_list (take (nat (m - 1)) (month_lens (leap y))) + d - 1"

definition days_in :: "int \<Rightarrow> int \<Rightarrow> int" where
  "days_in y m = month_lens (leap y) ! nat (m - 1)"

lemma ceil_div_Suc:
  fixes y k n :: int
  assumes "0 < k" and n: "n = k - 1"
  shows "(y + 1 + n) div k = (y + n) div k + (if y mod k = 0 then 1 else 0)"
proof -
  define q r where "q = y div k" and "r = y mod k"
  have y: "y = q * k + r" and r: "0 \<le> r" "r < k"
    using assms by (simp_all add: q_def r_def)
  have "y + 1 + n = r + (q + 1) * k" by (simp add: y n algebra_simps)
  then have "(y + 1 + n) div k = q + 1 + r div k"
    using assms by (simp only: div_mult_self1)
  then have "(y + 1 + n) div k = q + 1"
    using r by (simp add: div_pos_pos_trivial)
  moreover have "(y + n) div k = q + (if r = 0 then 0 else 1)"
  proof (cases "r = 0")
    case True
    then have "y + n = n + q * k" by (simp add: y)
    then have "(y + n) div k = q + n div k"
      using assms by (simp only: div_mult_self1)
    then show ?thesis using assms True by (simp add: div_pos_pos_trivial)
  next
    case False
    have "y + n = (r - 1) + (q + 1) * k" by (simp add: y n algebra_simps)
    then have "(y + n) div k = q + 1 + (r - 1) div k"
      using assms by (simp only: div_mult_self1)
    then show ?thesis using False r by (simp add: div_pos_pos_trivial)
  qed
  ultimately show ?thesis by (simp add: r_def)
qed

lemma ceil_div_bounds:
  fixes y k :: int
  assumes "0 < k"
  shows "k * ((y + (k - 1)) div k) \<le> y + (k - 1)" "y \<le> k * ((y + (k - 1)) div k)"
proof -
  have "k * ((y + (k - 1)) div k) = y + (k - 1) - (y + (k - 1)) mod k"
    by (simp add: minus_mod_eq_mult_div)
  moreover have "0 \<le> (y + (k - 1)) mod k" "(y + (k - 1)) mod k < k"
    using assms by simp_all
  ultimately show "k * ((y + (k - 1)) div k) \<le> y + (k - 1)" "y \<le> k * ((y + (k - 1)) div k)"
    by linarith+
qed

lemma leap_count:
  assumes "c400 \<Longrightarrow> c100" "c100 \<Longrightarrow> c4"
  shows "(if c4 \<and> (\<not> c100 \<or> c400) then 366 else 365 :: int) =
    365 + (if c4 then 1 else 0) - (if c100 then 1 else 0) + (if c400 then 1 else 0)"
  using assms by (cases c4; cases c100; cases c400) simp_all

lemma year_start_Suc: "year_start (y + 1) = year_start y + year_len y"
proof -
  define i4 i100 i400 :: int where
    "i4 = (if y mod 4 = 0 then 1 else 0)" and "i100 = (if y mod 100 = 0 then 1 else 0)" and
    "i400 = (if y mod 400 = 0 then 1 else 0)"
  have step: "(y + 1 + 3) div 4 = (y + 3) div 4 + i4" "(y + 1 + 99) div 100 = (y + 99) div 100 + i100"
    "(y + 1 + 399) div 400 = (y + 399) div 400 + i400"
    unfolding i4_def i100_def i400_def by (rule ceil_div_Suc; simp)+
  have "y mod 400 = 0 \<Longrightarrow> y mod 100 = 0" "y mod 100 = 0 \<Longrightarrow> y mod 4 = 0"
    using mod_mod_cancel [of 100 400 y] mod_mod_cancel [of 4 100 y] by auto
  then have "year_len y = 365 + i4 - i100 + i400"
    unfolding year_len_def leap_def i4_def i100_def i400_def by (rule leap_count)
  moreover have "year_start (y + 1) = 365 * y + 365 + ((y + 3) div 4 + i4) - ((y + 99) div 100 + i100) +
      ((y + 399) div 400 + i400)"
    unfolding year_start_def step by simp
  ultimately show ?thesis
    unfolding year_start_def by linarith
qed

lemma year_start_bounds:
  "400 * year_start y \<le> 146097 * y + 700"
  "146097 * y - 400 < 400 * year_start y"
  using ceil_div_bounds [of 4 y] ceil_div_bounds [of 100 y] ceil_div_bounds [of 400 y]
  by (simp_all add: year_start_def)

lemma year_of_bounds: "year_start (year_of d) \<le> d \<and> d < year_start (year_of d + 1)"
proof -
  define y where "y = 400 * d div 146097"
  have y: "146097 * y \<le> 400 * d" "400 * d < 146097 * y + 146097"
    using minus_mod_eq_mult_div [of "400 * d" 146097] pos_mod_bound [of 146097 "400 * d"]
      pos_mod_sign [of 146097 "400 * d"] unfolding y_def by linarith+
  have "year_start (y - 1) \<le> d"
    using year_start_bounds(1) [of "y - 1"] y by simp
  moreover have "d < year_start (y + 1 + 1)"
    using year_start_bounds(2) [of "y + 1 + 1"] y by simp
  ultimately show ?thesis
    unfolding year_of_def Let_def y_def [symmetric] by simp
qed

lemma year_start_strict_mono: "y < z \<Longrightarrow> year_start y < year_start z"
proof (induction z rule: int_gr_induct [where k = y])
  case base
  show ?case by (simp add: year_start_Suc year_len_def)
next
  case (step z)
  then show ?case by (simp add: year_start_Suc year_len_def)
qed

lemma year_of_unique: "year_start y \<le> d \<Longrightarrow> d < year_start (y + 1) \<Longrightarrow> year_of d = y"
proof (rule ccontr)
  assume d: "year_start y \<le> d" "d < year_start (y + 1)" and "year_of d \<noteq> y"
  then consider "year_of d + 1 \<le> y" | "y + 1 \<le> year_of d" by linarith
  then show False
  proof cases
    case 1
    then have "year_start (year_of d + 1) \<le> year_start y"
      using year_start_strict_mono by (cases "year_of d + 1 = y") (auto simp: order.order_iff_strict)
    with d year_of_bounds [of d] show False by linarith
  next
    case 2
    then have "year_start (y + 1) \<le> year_start (year_of d)"
      using year_start_strict_mono by (cases "y + 1 = year_of d") (auto simp: order.order_iff_strict)
    with d year_of_bounds [of d] show False by linarith
  qed
qed

lemma month_day_sound:
  assumes "month_day ls m d = (m', dd)" "0 \<le> d" "d < sum_list ls" "\<forall>l \<in> set ls. 0 < l"
  shows "m \<le> m' \<and> m' < m + int (length ls) \<and> 1 \<le> dd \<and> dd \<le> ls ! nat (m' - m) \<and>
    d = sum_list (take (nat (m' - m)) ls) + dd - 1"
  using assms
proof (induction ls m d rule: month_day.induct)
  case (2 l ls m d)
  show ?case
  proof (cases "d < l")
    case True
    with 2 show ?thesis by auto
  next
    case False
    with 2 have "m + 1 \<le> m' \<and> m' < m + 1 + int (length ls) \<and> 1 \<le> dd \<and> dd \<le> ls ! nat (m' - (m + 1)) \<and>
        d - l = sum_list (take (nat (m' - (m + 1))) ls) + dd - 1"
      by auto
    moreover from this have "nat (m' - m) = Suc (nat (m' - (m + 1)))" by arith
    ultimately show ?thesis by auto
  qed
qed simp

lemma sum_month_lens [simp]: "sum_list (month_lens l) = (if l then 366 else 365)"
  by (simp add: month_lens_def)

lemma length_month_lens [simp]: "length (month_lens l) = 12"
  by (simp add: month_lens_def)

lemma month_lens_pos: "\<forall>l \<in> set (month_lens b). 0 < l \<and> l \<le> 31"
  by (simp add: month_lens_def)

text \<open>The calendar date of a day, and that its day number is the day again.\<close>

lemma date_of_sound:
  assumes "date_of d = (y, m, dd)"
  shows "y = year_of d \<and> 1 \<le> m \<and> m \<le> 12 \<and> 1 \<le> dd \<and> dd \<le> days_in y m \<and> dd \<le> 31 \<and> day_number y m dd = d"
proof -
  let ?y = "year_of d"
  have b: "0 \<le> d - year_start ?y" "d - year_start ?y < sum_list (month_lens (leap ?y))"
    using year_of_bounds [of d] by (auto simp: year_start_Suc year_len_def)
  obtain m' dd' where md: "month_day (month_lens (leap ?y)) 1 (d - year_start ?y) = (m', dd')"
    by fastforce
  have s: "1 \<le> m' \<and> m' < 1 + int 12 \<and> 1 \<le> dd' \<and> dd' \<le> month_lens (leap ?y) ! nat (m' - 1) \<and>
    d - year_start ?y = sum_list (take (nat (m' - 1)) (month_lens (leap ?y))) + dd' - 1"
    using month_day_sound [OF md b] month_lens_pos by auto
  moreover have "month_lens (leap ?y) ! nat (m' - 1) \<le> 31"
    using s month_lens_pos [of "leap ?y"] by (auto simp: nth_mem)
  ultimately show ?thesis
    using assms md by (auto simp: date_of_def Let_def days_in_def day_number_def)
qed

section \<open>Format\<close>

type_synonym instant = int

definition second :: int where "second = 1000000000"
definition hour_ns :: int where "hour_ns = 3600 * second"
definition day_ns :: int where "day_ns = 86400 * second"

definition year_text :: "int \<Rightarrow> string" where
  "year_text y =
     (let width4 = (\<lambda>n. if n < 10000 then pad 4 n else dec n)
      in if y < 0 then CHR ''-'' # width4 (- y) else width4 y)"

definition strip_zeros :: "string \<Rightarrow> string" where
  "strip_zeros s = rev (dropWhile (\<lambda>c. c = CHR ''0'') (rev s))"

definition frac_text :: "int \<Rightarrow> string" where
  "frac_text ns = (if ns = 0 then [] else CHR ''.'' # strip_zeros (pad 9 ns))"

text \<open>\<open>t.UTC().Format(time.RFC3339Nano)\<close>.\<close>

definition format_nano :: "instant \<Rightarrow> string" where
  "format_nano t =
     (let (y, m, d) = date_of (t div day_ns);
          ns = t mod day_ns;
          secs = ns div 1000000000
      in year_text y @ [CHR ''-''] @ pad 2 m @ [CHR ''-''] @ pad 2 d @ [CHR ''T''] @
         pad 2 (secs div 3600) @ [CHR '':''] @ pad 2 (secs div 60 mod 60) @ [CHR '':''] @
         pad 2 (secs mod 60) @ frac_text (ns mod 1000000000) @ [CHR ''Z''])"

section \<open>Parse\<close>

definition fixed :: "nat \<Rightarrow> string \<Rightarrow> (int \<times> string) option" where
  "fixed n s =
     (if n \<le> length s \<and> list_all is_digit (take n s) then Some (num_of (take n s), drop n s) else None)"

text \<open>The layout's \<open>15\<close> takes one or two digits.\<close>

definition hour_field :: "string \<Rightarrow> (int \<times> string) option" where
  "hour_field s = (case fixed 2 s of None \<Rightarrow> fixed 1 s | Some r \<Rightarrow> Some r)"

fun lit :: "char \<Rightarrow> string \<Rightarrow> string option" where
  "lit c [] = None"
| "lit c (x # s) = (if x = c then Some s else None)"

definition frac_field :: "string \<Rightarrow> int \<times> string" where
  "frac_field s =
     (case s of
        p # d # r \<Rightarrow>
          if (p = CHR ''.'' \<or> p = CHR '','') \<and> is_digit d then
            let ds = takeWhile is_digit (d # r); used = take 9 ds
            in (num_of used * 10 ^ (9 - length used), dropWhile is_digit (d # r))
          else (0, s)
      | _ \<Rightarrow> (0, s))"

text \<open>The zone field: the offset in seconds, whether the location is \<open>time.UTC\<close>, the rest.\<close>

definition zone_field :: "string \<Rightarrow> (int \<times> bool \<times> string) option" where
  "zone_field s =
     (case lit (CHR ''Z'') s of
        Some r \<Rightarrow> Some (0, True, r)
      | None \<Rightarrow>
          (case s of
             [] \<Rightarrow> None
           | sign # s1 \<Rightarrow>
               do {
                 (hh, s2) \<leftarrow> fixed 2 s1;
                 s3 \<leftarrow> lit (CHR '':'') s2;
                 (mm, s4) \<leftarrow> fixed 2 s3;
                 if hh > 24 \<or> mm > 60 then None
                 else if sign = CHR ''+'' then Some ((hh * 60 + mm) * 60, False, s4)
                 else if sign = CHR ''-'' then Some (- ((hh * 60 + mm) * 60), False, s4)
                 else None
               }))"

text \<open>
  \<open>time.Parse(time.RFC3339Nano, s)\<close>: the instant and whether its \<open>Location()\<close> is
  \<open>time.UTC\<close>. \<open>None\<close> is a parse error.
\<close>

definition parse_nano :: "string \<Rightarrow> (instant \<times> bool) option" where
  "parse_nano s0 =
     do {
       (y, s1) \<leftarrow> fixed 4 s0;
       s2 \<leftarrow> lit (CHR ''-'') s1;
       (m, s3) \<leftarrow> fixed 2 s2;
       s4 \<leftarrow> lit (CHR ''-'') s3;
       (d, s5) \<leftarrow> fixed 2 s4;
       s6 \<leftarrow> lit (CHR ''T'') s5;
       (hh, s7) \<leftarrow> hour_field s6;
       s8 \<leftarrow> lit (CHR '':'') s7;
       (mi, s9) \<leftarrow> fixed 2 s8;
       s10 \<leftarrow> lit (CHR '':'') s9;
       (ss, s11) \<leftarrow> fixed 2 s10;
       let (ns, s12) = frac_field s11;
       (off, utc, s13) \<leftarrow> zone_field s12;
       if s13 \<noteq> [] \<or> m < 1 \<or> 12 < m \<or> 24 \<le> hh \<or> 60 \<le> mi \<or> 60 \<le> ss \<or>
          d < 1 \<or> days_in y m < d then None
       else Some (day_number y m d * day_ns + (hh * 3600 + mi * 60 + ss - off) * second + ns, utc)
     }"

lemma fixed_pad [simp]: "0 \<le> x \<Longrightarrow> x < 10 ^ n \<Longrightarrow> fixed n (pad n x @ s) = Some (x, s)"
  by (auto simp: fixed_def num_of_pad list_all_iff dest: digits_pad)

lemma hour_field_pad [simp]: "0 \<le> x \<Longrightarrow> x < 100 \<Longrightarrow> hour_field (pad 2 x @ s) = Some (x, s)"
  using fixed_pad [of x 2 s] by (simp add: hour_field_def)

lemma strip_zeros_split: "\<exists>k. s = strip_zeros s @ replicate k (CHR ''0'')"
proof -
  let ?z = "takeWhile (\<lambda>c. c = CHR ''0'') (rev s)"
  have "rev s = ?z @ rev (strip_zeros s)"
    by (simp add: strip_zeros_def)
  then have "s = strip_zeros s @ rev ?z"
    by (metis rev_append rev_rev_ident)
  moreover have "rev ?z = replicate (length ?z) (CHR ''0'')"
    by (intro replicate_eqI) (auto dest: set_takeWhileD)
  ultimately show ?thesis by metis
qed

lemma num_of_append_zeros: "num_of (s @ replicate k (CHR ''0'')) = num_of s * 10 ^ k"
proof (induction k)
  case (Suc k)
  have "num_of (s @ replicate (Suc k) (CHR ''0'')) = num_of ((s @ replicate k (CHR ''0'')) @ [CHR ''0''])"
    by (simp add: replicate_append_same)
  also have "\<dots> = 10 * (num_of s * 10 ^ k)"
    by (simp only: num_of_snoc Suc.IH) (simp add: digit_val_def)
  finally show ?case by simp
qed simp

lemma frac_field_text:
  assumes "0 \<le> ns" "ns < 10 ^ 9"
  shows "frac_field (frac_text ns @ CHR ''Z'' # r) = (ns, CHR ''Z'' # r)"
proof (cases "ns = 0")
  case True
  then show ?thesis by (simp add: frac_text_def frac_field_def split: list.splits)
next
  case False
  obtain k where k: "pad 9 ns = strip_zeros (pad 9 ns) @ replicate k (CHR ''0'')"
    using strip_zeros_split by blast
  define u where "u = strip_zeros (pad 9 ns)"
  have num: "num_of u * 10 ^ k = ns"
    using num_of_pad [OF assms] k num_of_append_zeros unfolding u_def by metis
  have len: "length u + k = 9"
    using arg_cong [OF k, of length] by (simp add: u_def)
  have dig: "\<forall>c \<in> set u. is_digit c"
    using k digits_pad unfolding u_def by (metis Un_iff set_append)
  have "u \<noteq> []"
    using num False by auto
  then obtain d v where u: "u = d # v" by (cases u) auto
  have tw: "takeWhile is_digit (u @ CHR ''Z'' # r) = u" "dropWhile is_digit (u @ CHR ''Z'' # r) = CHR ''Z'' # r"
    using dig by (simp_all add: takeWhile_append2 dropWhile_append2)
  have "frac_field (CHR ''.'' # u @ CHR ''Z'' # r) = (num_of u * 10 ^ (9 - length u), CHR ''Z'' # r)"
    using dig tw len by (simp add: frac_field_def u Let_def)
  moreover have "9 - length u = k" using len by simp
  ultimately show ?thesis
    using num False by (simp add: frac_text_def u_def [symmetric])
qed

text \<open>Formatting an instant of the years 0 to 9999 and parsing the text gives the instant back.\<close>

definition max_instant :: instant where
  "max_instant = year_start 10000 * day_ns"

lemma year_start_0 [simp]: "year_start 0 = 0"
  by (simp add: year_start_def)

lemma year_of_range:
  assumes "0 \<le> d" "d < year_start 10000"
  shows "0 \<le> year_of d \<and> year_of d < 10000"
proof -
  have "\<not> year_of d + 1 \<le> 0"
    using year_start_strict_mono [of "year_of d + 1" 0] year_of_bounds [of d] assms(1)
    by (cases "year_of d + 1 = 0") auto
  moreover have "\<not> 10000 \<le> year_of d"
    using year_start_strict_mono [of 10000 "year_of d"] year_of_bounds [of d] assms(2)
    by (cases "year_of d = 10000") auto
  ultimately show ?thesis by linarith
qed

lemma clock_split:
  fixes n :: int
  shows "n div 3600 * 3600 + n div 60 mod 60 * 60 + n mod 60 = n"
proof -
  have "n div 60 = n div 3600 * 60 + n div 60 mod 60"
    using zdiv_zmult2_eq [of 60 n 60] div_mult_mod_eq [of "n div 60" 60] by simp
  moreover have "n = n div 60 * 60 + n mod 60" by (simp only: div_mult_mod_eq)
  ultimately show ?thesis by linarith
qed

lemma parse_fields:
  assumes "0 \<le> y" "y < 10000" "1 \<le> m" "m \<le> 12" "1 \<le> d" "d \<le> days_in y m" "d \<le> 31"
    and "0 \<le> hh" "hh < 24" "0 \<le> mi" "mi < 60" "0 \<le> ss" "ss < 60" "0 \<le> ns" "ns < 10 ^ 9"
  shows "parse_nano (pad 4 y @ [CHR ''-''] @ pad 2 m @ [CHR ''-''] @ pad 2 d @ [CHR ''T''] @
         pad 2 hh @ [CHR '':''] @ pad 2 mi @ [CHR '':''] @ pad 2 ss @ frac_text ns @ [CHR ''Z'']) =
      Some (day_number y m d * day_ns + (hh * 3600 + mi * 60 + ss) * second + ns, True)"
proof -
  have fx: "fixed 4 (pad 4 y @ r) = Some (y, r)" "fixed 2 (pad 2 m @ r) = Some (m, r)"
    "fixed 2 (pad 2 d @ r) = Some (d, r)" "hour_field (pad 2 hh @ r) = Some (hh, r)"
    "fixed 2 (pad 2 mi @ r) = Some (mi, r)" "fixed 2 (pad 2 ss @ r) = Some (ss, r)" for r
    using assms by (auto simp del: pad.simps)
  have fr: "frac_field (frac_text ns @ [CHR ''Z'']) = (ns, [CHR ''Z''])"
    using frac_field_text [of ns "[]"] assms by simp
  have z: "zone_field [CHR ''Z''] = Some (0, True, [])"
    by (simp add: zone_field_def)
  show ?thesis
    unfolding parse_nano_def append_Cons append_Nil fx bind.bind_lunit case_prod_conv lit.simps
      simp_thms if_True fr z Let_def
    using assms by simp
qed

lemma parse_format:
  assumes "0 \<le> t" "t < max_instant"
  shows "parse_nano (format_nano t) = Some (t, True)"
proof -
  define dn ns where "dn = t div day_ns" and "ns = t mod day_ns"
  define secs where "secs = ns div 1000000000"
  obtain y m d where date: "date_of dn = (y, m, d)" by (cases "date_of dn") auto
  note ds = date_of_sound [OF date]
  have pos: "0 < day_ns" by (simp add: day_ns_def second_def)
  have dn0: "0 \<le> dn"
    using assms(1) pos by (simp add: dn_def pos_imp_zdiv_nonneg_iff)
  have split: "t = dn * day_ns + ns"
    by (simp add: dn_def ns_def)
  have ns0: "0 \<le> ns" using pos by (simp add: ns_def)
  have dn1: "dn < year_start 10000"
  proof (rule ccontr)
    assume "\<not> dn < year_start 10000"
    then have "max_instant \<le> dn * day_ns"
      using pos by (simp add: max_instant_def mult_right_mono)
    with split ns0 assms(2) show False by linarith
  qed
  have ns: "ns < 86400 * 1000000000"
    using pos_mod_bound [OF pos, of t] by (simp add: ns_def day_ns_def second_def)
  have secs: "0 \<le> secs" "secs < 86400"
    using ns ns0 unfolding secs_def by (simp_all add: div_less_iff_less_mult pos_imp_zdiv_nonneg_iff)
  have y: "0 \<le> y" "y < 10000"
    using year_of_range [OF dn0 dn1] ds by auto
  have rendered: "format_nano t = pad 4 y @ [CHR ''-''] @ pad 2 m @ [CHR ''-''] @ pad 2 d @ [CHR ''T''] @
         pad 2 (secs div 3600) @ [CHR '':''] @ pad 2 (secs div 60 mod 60) @ [CHR '':''] @ pad 2 (secs mod 60) @
         frac_text (ns mod 1000000000) @ [CHR ''Z'']"
    unfolding format_nano_def dn_def [symmetric] ns_def [symmetric] date
    using y by (simp add: Let_def year_text_def secs_def del: pad.simps)
  have clock: "0 \<le> secs div 3600" "secs div 3600 < 24" "0 \<le> secs div 60 mod 60" "secs div 60 mod 60 < 60"
    "0 \<le> secs mod 60" "secs mod 60 < 60" "0 \<le> ns mod 1000000000" "ns mod 1000000000 < 10 ^ 9"
    using secs by (simp_all add: div_less_iff_less_mult pos_imp_zdiv_nonneg_iff)
  have date_ok: "1 \<le> m" "m \<le> 12" "1 \<le> d" "d \<le> days_in y m" "d \<le> 31"
    using ds by auto
  have "parse_nano (format_nano t) =
      Some (day_number y m d * day_ns +
        (secs div 3600 * 3600 + secs div 60 mod 60 * 60 + secs mod 60) * second + ns mod 1000000000, True)"
    unfolding rendered by (rule parse_fields [OF y date_ok clock])
  then have "parse_nano (format_nano t) =
      Some (day_number y m d * day_ns + (secs * second + ns mod 1000000000), True)"
    unfolding clock_split by (simp only: add.assoc)
  moreover have "day_number y m d = dn"
    using ds by auto
  moreover have "secs * second + ns mod 1000000000 = ns"
    unfolding secs_def second_def by (rule div_mult_mod_eq)
  ultimately show ?thesis
    using split by simp
qed

lemma parse_nano_format_inject:
  assumes "0 \<le> t" "t < max_instant" "0 \<le> u" "u < max_instant"
  shows "format_nano t = format_nano u \<longleftrightarrow> t = u"
  by (metis parse_format [OF assms(1,2)] parse_format [OF assms(3,4)] option.inject prod.inject)

end
