(* ===== verification/Sha256.thy ===== *)
theory Sha256
  imports Prelude "HOL-Library.Word"
begin

unbundle bit_operations_syntax

text \<open>
  Go's \<open>crypto/sha256.Sum256\<close> (FIPS 180-4) and \<open>encoding/hex\<close>, on byte strings. The
  program uses them for digests and for the entropy stream.
\<close>

type_synonym u32 = "32 word"

definition sha_K :: "u32 list" where
  "sha_K = [
   1116352408, 1899447441, 3049323471, 3921009573, 961987163, 1508970993, 2453635748, 2870763221,
   3624381080, 310598401, 607225278, 1426881987, 1925078388, 2162078206, 2614888103, 3248222580,
   3835390401, 4022224774, 264347078, 604807628, 770255983, 1249150122, 1555081692, 1996064986,
   2554220882, 2821834349, 2952996808, 3210313671, 3336571891, 3584528711, 113926993, 338241895,
   666307205, 773529912, 1294757372, 1396182291, 1695183700, 1986661051, 2177026350, 2456956037,
   2730485921, 2820302411, 3259730800, 3345764771, 3516065817, 3600352804, 4094571909, 275423344,
   430227734, 506948616, 659060556, 883997877, 958139571, 1322822218, 1537002063, 1747873779,
   1955562222, 2024104815, 2227730452, 2361852424, 2428436474, 2756734187, 3204031479, 3329325298]"

definition sha_H0 :: "u32 list" where
  "sha_H0 = [1779033703, 3144134277, 1013904242, 2773480762, 1359893119, 2600822924, 528734635, 1541459225]"

definition rotr :: "nat \<Rightarrow> u32 \<Rightarrow> u32" where
  "rotr n x = drop_bit n x OR push_bit (32 - n) x"

definition bsig0 :: "u32 \<Rightarrow> u32" where "bsig0 x = rotr 2 x XOR rotr 13 x XOR rotr 22 x"
definition bsig1 :: "u32 \<Rightarrow> u32" where "bsig1 x = rotr 6 x XOR rotr 11 x XOR rotr 25 x"
definition ssig0 :: "u32 \<Rightarrow> u32" where "ssig0 x = rotr 7 x XOR rotr 18 x XOR drop_bit 3 x"
definition ssig1 :: "u32 \<Rightarrow> u32" where "ssig1 x = rotr 17 x XOR rotr 19 x XOR drop_bit 10 x"

definition Ch :: "u32 \<Rightarrow> u32 \<Rightarrow> u32 \<Rightarrow> u32" where "Ch x y z = (x AND y) XOR (NOT x AND z)"
definition Maj :: "u32 \<Rightarrow> u32 \<Rightarrow> u32 \<Rightarrow> u32" where "Maj x y z = (x AND y) XOR (x AND z) XOR (y AND z)"

text \<open>Big-endian bytes of a number, and the padded message.\<close>

fun be_bytes :: "nat \<Rightarrow> int \<Rightarrow> int list" where
  "be_bytes 0 x = []"
| "be_bytes (Suc n) x = be_bytes n (x div 256) @ [x mod 256]"

definition byte_of :: "char \<Rightarrow> int" where
  "byte_of c = int (of_char c)"

definition sha_pad :: "int list \<Rightarrow> int list" where
  "sha_pad m = m @ [128] @ replicate ((119 - length m mod 64) mod 64) 0 @ be_bytes 8 (8 * int (length m))"

fun be_words :: "int list \<Rightarrow> u32 list" where
  "be_words (a # b # c # d # r) = word_of_int (((a * 256 + b) * 256 + c) * 256 + d) # be_words r"
| "be_words _ = []"

text \<open>The message schedule, newest word first.\<close>

fun sha_schedule :: "nat \<Rightarrow> u32 list \<Rightarrow> u32 list" where
  "sha_schedule 0 ws = ws"
| "sha_schedule (Suc n) ws =
     sha_schedule n ((ssig1 (ws ! 1) + ws ! 6 + ssig0 (ws ! 14) + ws ! 15) # ws)"

fun sha_round :: "u32 list \<Rightarrow> u32 \<times> u32 \<Rightarrow> u32 list" where
  "sha_round [a, b, c, d, e, f, g, h] (k, w) =
     (let t1 = h + bsig1 e + Ch e f g + k + w; t2 = bsig0 a + Maj a b c
      in [t1 + t2, a, b, c, d + t1, e, f, g])"
| "sha_round hs _ = hs"

definition sha_block :: "u32 list \<Rightarrow> u32 list \<Rightarrow> u32 list" where
  "sha_block hs ws =
     map2 (+) hs (foldl sha_round hs (zip sha_K (rev (sha_schedule 48 (rev ws)))))"

function sha_blocks :: "u32 list \<Rightarrow> u32 list \<Rightarrow> u32 list" where
  "sha_blocks hs ws = (if length ws < 16 then hs else sha_blocks (sha_block hs (take 16 ws)) (drop 16 ws))"
  by pat_completeness auto
termination
  by (relation "measure (\<lambda>(hs, ws). length ws)") auto

declare sha_blocks.simps [simp del]

definition sha256_words :: "int list \<Rightarrow> u32 list" where
  "sha256_words m = sha_blocks sha_H0 (be_words (sha_pad m))"

text \<open>The 32 bytes of the digest and \<open>hex.EncodeToString\<close>.\<close>

definition sha256 :: "int list \<Rightarrow> int list" where
  "sha256 m = concat (map (\<lambda>w. be_bytes 4 (uint w)) (sha256_words m))"

definition hex_digit :: "int \<Rightarrow> char" where
  "hex_digit d = char_of (if d < 10 then 48 + nat d else 87 + nat d)"

definition hex :: "int list \<Rightarrow> string" where
  "hex bs = concat (map (\<lambda>b. [hex_digit (b div 16), hex_digit (b mod 16)]) bs)"

definition sha256_hex :: "string \<Rightarrow> string" where
  "sha256_hex s = hex (sha256 (map byte_of s))"

lemma length_be_bytes [simp]: "length (be_bytes n x) = n"
  by (induction n arbitrary: x) auto

lemma be_bytes_range: "b \<in> set (be_bytes n x) \<Longrightarrow> 0 \<le> b \<and> b < 256"
  by (induction n arbitrary: x) auto

lemma length_sha_round: "length hs = 8 \<Longrightarrow> length (sha_round hs kw) = 8"
  by (cases "(hs, kw)" rule: sha_round.cases) (auto simp: Let_def)

lemma length_sha_rounds: "length hs = 8 \<Longrightarrow> length (foldl sha_round hs kws) = 8"
  by (induction kws arbitrary: hs) (auto simp: length_sha_round)

lemma length_sha_block: "length hs = 8 \<Longrightarrow> length (sha_block hs ws) = 8"
  by (simp add: sha_block_def length_sha_rounds)

lemma length_sha_blocks: "length hs = 8 \<Longrightarrow> length (sha_blocks hs ws) = 8"
proof (induction hs ws rule: sha_blocks.induct)
  case (1 hs ws)
  then show ?case by (auto simp: sha_blocks.simps [of hs ws] length_sha_block)
qed

lemma length_sha256 [simp]: "length (sha256 m) = 32"
proof -
  have "length (sha256_words m) = 8"
    unfolding sha256_words_def by (rule length_sha_blocks) (simp add: sha_H0_def)
  then have "sum_list (map (\<lambda>w. 4 :: nat) (sha256_words m)) = 32"
    by (simp add: sum_list_triv)
  then show ?thesis by (simp add: sha256_def length_concat comp_def)
qed

lemma length_hex [simp]: "length (hex bs) = 2 * length bs"
  by (induction bs) (auto simp: hex_def)

definition is_hex :: "char \<Rightarrow> bool" where
  "is_hex c \<longleftrightarrow> (let n = of_char c :: nat in (48 \<le> n \<and> n \<le> 57) \<or> (97 \<le> n \<and> n \<le> 102))"

lemma hex_digit_is_hex:
  assumes "0 \<le> d" "d < 16"
  shows "is_hex (hex_digit d)"
  using assms by (auto simp: is_hex_def hex_digit_def Let_def nat_less_iff)

lemma sha256_bytes: "b \<in> set (sha256 m) \<Longrightarrow> 0 \<le> b \<and> b < 256"
  by (auto simp: sha256_def dest: be_bytes_range)

lemma nibbles: "0 \<le> b \<Longrightarrow> b < (256 :: int) \<Longrightarrow> 0 \<le> b div 16 \<and> b div 16 < 16"
  by (simp add: pos_imp_zdiv_nonneg_iff div_less_iff_less_mult)

lemma hex_chars: "\<forall>b \<in> set bs. 0 \<le> b \<and> b < 256 \<Longrightarrow> c \<in> set (hex bs) \<Longrightarrow> is_hex c"
  by (auto simp: hex_def nibbles intro!: hex_digit_is_hex)

lemma sha256_hex_shape: "length (sha256_hex s) = 64 \<and> (\<forall>c \<in> set (sha256_hex s). is_hex c)"
  using hex_chars [of "sha256 (map byte_of s)"] sha256_bytes by (auto simp: sha256_hex_def)

end
