(* ===== verification/Canonical.thy ===== *)
theory Canonical
  imports Go_Time Sha256
begin

text \<open>
  \<open>internal/canonical/json.go\<close> and the parts of \<open>encoding/json\<close> it rests on: JSON
  values, their canonical text (object keys in ascending order, Go's string escapes), and
  \<open>Digest\<close>. Strings are valid UTF-8 byte strings; numbers are integers of fewer than 22
  digits, the range in which \<open>encoding/json\<close> writes plain decimals.
\<close>

section \<open>JSON values\<close>

datatype json =
    JNull
  | JBool bool
  | JNum int
  | JStr string
  | JArr "json list"
  | JObj "(string \<times> json) list"

text \<open>
  \<open>json.Unmarshal\<close> into a map and \<open>json.Marshal\<close> of the map: keys sorted, the last
  of equal keys kept.
\<close>

definition to_gomap :: "(string \<times> 'v) list \<Rightarrow> 'v gomap" where
  "to_gomap kvs = foldl (\<lambda>m (k, v). put k v m) [] kvs"

primrec canon :: "json \<Rightarrow> json" where
  "canon JNull = JNull"
| "canon (JBool b) = JBool b"
| "canon (JNum n) = JNum n"
| "canon (JStr s) = JStr s"
| "canon (JArr xs) = JArr (map canon xs)"
| "canon (JObj kvs) = JObj (to_gomap (map (map_prod id canon) kvs))"

definition u00 :: "nat \<Rightarrow> string" where
  "u00 n = [CHR 0x5C] @ ''u00'' @ [hex_digit (int n div 16), hex_digit (int n mod 16)]"

text \<open>Go's escape of one byte: the HTML-sensitive characters and the control characters.\<close>

definition escape_char :: "char \<Rightarrow> string" where
  "escape_char c =
     (let n = of_char c :: nat in
      if n = 34 \<or> n = 92 then [CHR 0x5C, c]
      else if n = 8 then [CHR 0x5C, CHR ''b'']
      else if n = 12 then [CHR 0x5C, CHR ''f'']
      else if n = 10 then [CHR 0x5C, CHR ''n'']
      else if n = 13 then [CHR 0x5C, CHR ''r'']
      else if n = 9 then [CHR 0x5C, CHR ''t'']
      else if n < 32 \<or> n = 60 \<or> n = 62 \<or> n = 38 then u00 n
      else [c])"

text \<open>
  \<open>utf8.DecodeRune\<close>: the code point at the start of a byte string and its length; an invalid
  encoding is U+FFFD of length 1.
\<close>

definition byte_at :: "string \<Rightarrow> nat \<Rightarrow> int" where
  "byte_at s i = (if i < length s then of_char (s ! i) else 0)"

definition continuation :: "int \<Rightarrow> bool" where
  "continuation b \<longleftrightarrow> 0x80 \<le> b \<and> b \<le> 0xBF"

definition decode_rune :: "string \<Rightarrow> int \<times> nat" where
  "decode_rune s =
     (let b0 = byte_at s 0; b1 = byte_at s 1; b2 = byte_at s 2; b3 = byte_at s 3
      in if b0 < 0x80 then (b0, 1)
         else if 0xC2 \<le> b0 \<and> b0 \<le> 0xDF \<and> continuation b1 then ((b0 mod 32) * 64 + b1 mod 64, 2)
         else if 0xE0 \<le> b0 \<and> b0 \<le> 0xEF \<and> continuation b1 \<and> continuation b2 \<and> (b0 = 0xE0 \<longrightarrow> 0xA0 \<le> b1) \<and> (b0 = 0xED \<longrightarrow> b1 \<le> 0x9F)
         then ((b0 mod 16) * 4096 + (b1 mod 64) * 64 + b2 mod 64, 3)
         else if 0xF0 \<le> b0 \<and> b0 \<le> 0xF4 \<and> continuation b1 \<and> continuation b2 \<and> continuation b3 \<and> (b0 = 0xF0 \<longrightarrow> 0x90 \<le> b1) \<and> (b0 = 0xF4 \<longrightarrow> b1 \<le> 0x8F)
         then ((b0 mod 8) * 262144 + (b1 mod 64) * 4096 + (b2 mod 64) * 64 + b3 mod 64, 4)
         else (0xFFFD, 1))"

text \<open>
  The body of a string literal: an invalid byte becomes the escape of U+FFFD, the line separators
  U+2028 and U+2029 are escaped, every other character beyond ASCII is written as it is.
\<close>

function escape_text :: "string \<Rightarrow> string" where
  "escape_text [] = []"
| "escape_text (c # cs) =
     (let (r, n) = decode_rune (c # cs)
      in if n = 1
         then (if r < 0x80 then escape_char c else [CHR 0x5C] @ ''ufffd'') @ escape_text cs
         else (if r = 0x2028 then [CHR 0x5C] @ ''u2028'' else if r = 0x2029 then [CHR 0x5C] @ ''u2029'' else take n (c # cs)) @
              escape_text (drop (n - 1) cs))"
  by pat_completeness auto

termination by (relation "measure length") (auto simp: less_Suc_eq_le)

definition quote :: "string \<Rightarrow> string" where
  "quote s = [CHR 34] @ escape_text s @ [CHR 34]"

fun commas :: "string list \<Rightarrow> string" where
  "commas [] = []"
| "commas [s] = s"
| "commas (s # t # ts) = s @ [CHR '',''] @ commas (t # ts)"

primrec json_text :: "json \<Rightarrow> string" where
  "json_text JNull = ''null''"
| "json_text (JBool b) = (if b then ''true'' else ''false'')"
| "json_text (JNum n) = dec_int n"
| "json_text (JStr s) = quote s"
| "json_text (JArr xs) = ''['' @ commas (map json_text xs) @ '']''"
| "json_text (JObj kvs) =
     ''{'' @ commas (map (\<lambda>(k, s). quote k @ '':'' @ s) (map (map_prod id json_text) kvs)) @ ''}''"

text \<open>\<open>canonical.JSON\<close> and \<open>canonical.Digest\<close>.\<close>

definition canonical_JSON :: "json \<Rightarrow> string" where
  "canonical_JSON v = json_text (canon v)"

definition canonical_Digest :: "json \<Rightarrow> string" where
  "canonical_Digest v = ''sha256:'' @ sha256_hex (canonical_JSON v)"

lemma length_digest [simp]: "length (canonical_Digest v) = 71"
  using sha256_hex_shape by (simp add: canonical_Digest_def)

lemma digest_nonempty [simp]: "canonical_Digest v \<noteq> []"
  by (simp add: canonical_Digest_def)

text \<open>Canonical form is a normal form: it does not depend on the order of object members.\<close>

lemma wf_foldl_put: "wf_map m \<Longrightarrow> wf_map (foldl (\<lambda>m (k, v). put k v m) m kvs)"
  by (induction kvs arbitrary: m) (auto simp: wf_map_put)

lemma wf_to_gomap [simp]: "wf_map (to_gomap kvs)"
  by (simp add: to_gomap_def wf_foldl_put)

lemma foldl_put_map_of:
  "map_of (foldl (\<lambda>m (k, v). put k v m) m kvs) k = (case map_of (rev kvs) k of Some v \<Rightarrow> Some v | None \<Rightarrow> map_of m k)"
  by (induction kvs arbitrary: m) (auto split: option.splits)

lemma map_of_to_gomap: "map_of (to_gomap kvs) = map_of (rev kvs)"
  by (auto simp: to_gomap_def foldl_put_map_of fun_eq_iff split: option.splits)

lemma wf_map_eqI:
  assumes "wf_map m" "wf_map m'" "map_of m = map_of m'"
  shows "m = m'"
  using assms by (intro wf_map_set_eq) (auto simp flip: map_of_eq_Some_iff_wf)

lemma map_of_same_set:
  assumes "distinct (map fst xs)" "distinct (map fst ys)" "set xs = set ys"
  shows "map_of xs = map_of ys"
proof
  fix k
  have "map_of xs k = Some v \<longleftrightarrow> map_of ys k = Some v" for v
    using assms by (simp add: map_of_eq_Some_iff)
  then show "map_of xs k = map_of ys k"
    by (metis not_Some_eq)
qed

lemma map_of_rev: "distinct (map fst kvs) \<Longrightarrow> map_of (rev kvs) = map_of kvs"
  by (rule map_of_same_set) (auto simp flip: rev_map)

lemma to_gomap_wf: "wf_map m \<Longrightarrow> to_gomap m = m"
  by (intro wf_map_eqI) (auto simp: map_of_to_gomap map_of_rev wf_map_distinct)

lemma to_gomap_perm:
  assumes "distinct (map fst kvs)" "mset kvs = mset kvs'"
  shows "to_gomap kvs = to_gomap kvs'"
proof -
  have "distinct (map fst kvs')"
    using assms by (metis mset_eq_imp_distinct_iff mset_map)
  moreover have "set kvs = set kvs'"
    using assms(2) by (rule mset_eq_setD)
  ultimately have "map_of kvs = map_of kvs'"
    using assms(1) \<open>distinct (map fst kvs')\<close> by (intro map_of_same_set)
  then show ?thesis
    using assms \<open>distinct (map fst kvs')\<close>
    by (intro wf_map_eqI) (auto simp: map_of_to_gomap map_of_rev)
qed

lemma map_prod_id_keys: "map fst (map (map_prod id f) kvs) = map fst kvs"
  by (induction kvs) auto

lemma set_foldl_put: "x \<in> set (foldl (\<lambda>m (k, v). put k v m) m kvs) \<Longrightarrow> x \<in> set m \<or> x \<in> set kvs"
  by (induction kvs arbitrary: m) (auto dest!: set_put)

lemma set_to_gomap: "x \<in> set (to_gomap kvs) \<Longrightarrow> x \<in> set kvs"
  using set_foldl_put [of x "[]"] by (auto simp: to_gomap_def)

lemma canon_idem [simp]: "canon (canon v) = canon v"
proof (induction v)
  case (JObj kvs)
  let ?m = "to_gomap (map (map_prod id canon) kvs)"
  have "canon w = w" if "(k, w) \<in> set ?m" for k w
    using set_to_gomap [OF that] JObj by fastforce
  then have "map (map_prod id canon) ?m = ?m"
    by (intro map_idI) auto
  then show ?case by (simp add: to_gomap_wf)
qed auto

lemma canonical_JSON_canon [simp]: "canonical_JSON (canon v) = canonical_JSON v"
  by (simp add: canonical_JSON_def)

section \<open>Numbers read back as \<open>float64\<close>\<close>

text \<open>
  \<open>json.Unmarshal\<close> into an \<open>any\<close> without \<open>UseNumber\<close> reads every number as a
  \<open>float64\<close>, and \<open>json.Marshal\<close> writes the shortest decimal that reads back as the same
  \<open>float64\<close>. \<open>renum\<close> is the effect of the two on a number.
\<close>

function bitlen :: "int \<Rightarrow> nat" where
  "bitlen n = (if n \<le> 0 then 0 else Suc (bitlen (n div 2)))"
  by pat_completeness auto
termination
  by (relation "measure nat") auto

declare bitlen.simps [simp del]

text \<open>The nearest \<open>float64\<close> of a non-negative integer: 53 significant bits, ties to even.\<close>

definition float64_of_nat :: "int \<Rightarrow> int" where
  "float64_of_nat m =
     (if m \<le> 2 ^ 53 then m
      else let k = bitlen m - 53; q = m div 2 ^ k; r = m mod 2 ^ k; half = 2 ^ (k - 1)
           in (if r > half \<or> (r = half \<and> odd q) then q + 1 else q) * 2 ^ k)"

text \<open>
  The shortest decimal of a \<open>float64\<close> that is an integer: drop as many digits as the
  \<open>float64\<close> allows, rounding down or up, whichever is nearer.
\<close>

definition short_at :: "int \<Rightarrow> nat \<Rightarrow> int option" where
  "short_at v k =
     (let down = v div 10 ^ k * 10 ^ k; up = down + 10 ^ k;
          okdown = (float64_of_nat down = v); okup = (float64_of_nat up = v)
      in if okdown \<and> okup then
           Some (if up - v < v - down \<or> (up - v = v - down \<and> odd (v div 10 ^ k)) then up else down)
         else if okdown then Some down
         else if okup then Some up
         else None)"

fun shortest :: "int \<Rightarrow> nat \<Rightarrow> int" where
  "shortest v 0 = v"
| "shortest v (Suc k) = (case short_at v (Suc k) of Some s \<Rightarrow> s | None \<Rightarrow> shortest v k)"

definition renum :: "int \<Rightarrow> int" where
  "renum n =
     (let m = \<bar>n\<bar> in if m \<le> 2 ^ 53 then n else sgn n * shortest (float64_of_nat m) 22)"

lemma renum_exact: "\<bar>n\<bar> \<le> 2 ^ 53 \<Longrightarrow> renum n = n"
  by (simp add: renum_def)

primrec renum_json :: "json \<Rightarrow> json" where
  "renum_json JNull = JNull"
| "renum_json (JBool b) = JBool b"
| "renum_json (JNum n) = JNum (renum n)"
| "renum_json (JStr s) = JStr s"
| "renum_json (JArr xs) = JArr (map renum_json xs)"
| "renum_json (JObj kvs) = JObj (map (map_prod id renum_json) kvs)"

text \<open>Every number of the value is exact as a \<open>float64\<close>.\<close>

primrec exact_json :: "json \<Rightarrow> bool" where
  "exact_json JNull = True"
| "exact_json (JBool b) = True"
| "exact_json (JNum n) = (\<bar>n\<bar> \<le> 2 ^ 53)"
| "exact_json (JStr s) = True"
| "exact_json (JArr xs) = list_all exact_json xs"
| "exact_json (JObj kvs) = list_all snd (map (map_prod id exact_json) kvs)"

lemma renum_json_exact: "exact_json v \<Longrightarrow> renum_json v = v"
proof (induction v)
  case (JArr xs)
  then show ?case by (auto simp: list_all_iff intro!: map_idI)
next
  case (JObj kvs)
  then show ?case by (fastforce simp: list_all_iff intro!: map_idI)
qed (auto simp: renum_exact)

end
