(* ===== verification/Limit_Profile.thy ===== *)
theory Limit_Profile
  imports Canonical
begin

text \<open>
  \<open>internal/limits/profile.go\<close>: the resource profile and the bounded JSON domain. The
  constants keep the names of the source.
\<close>

section \<open>The resource profile\<close>

definition limits_Format :: string where "limits_Format = ''statetwin.dev/resource-profile/v1alpha1''"
definition limits_Version :: string where "limits_Version = ''local-preview-v7''"

abbreviation (input) MaxSpecBytes :: nat where "MaxSpecBytes \<equiv> 1048576"
abbreviation (input) MaxToolCount :: nat where "MaxToolCount \<equiv> 256"
abbreviation (input) MaxEntityTypeCount :: nat where "MaxEntityTypeCount \<equiv> 256"
abbreviation (input) MaxEntitiesPerBranch :: nat where "MaxEntitiesPerBranch \<equiv> 100000"
abbreviation (input) MaxStateBytes :: nat where "MaxStateBytes \<equiv> 16777216"
abbreviation (input) MaxInputBytes :: nat where "MaxInputBytes \<equiv> 1048576"
abbreviation (input) MaxOutputBytes :: nat where "MaxOutputBytes \<equiv> 1048576"
abbreviation (input) MaxJSONDepth :: nat where "MaxJSONDepth \<equiv> 64"
abbreviation (input) MaxJSONMembers :: nat where "MaxJSONMembers \<equiv> 1000000"
abbreviation (input) MaxSchemaBytes :: nat where "MaxSchemaBytes \<equiv> 262144"
abbreviation (input) MaxSchemaDepth :: nat where "MaxSchemaDepth \<equiv> 32"
abbreviation (input) MaxExpressionBytes :: nat where "MaxExpressionBytes \<equiv> 4096"
abbreviation (input) MaxExpressionCost :: nat where "MaxExpressionCost \<equiv> 10000"
abbreviation (input) MaxEffectsPerCall :: nat where "MaxEffectsPerCall \<equiv> 128"
abbreviation (input) MaxQueryResultItems :: nat where "MaxQueryResultItems \<equiv> 10000"
abbreviation (input) MaxDiffEntries :: nat where "MaxDiffEntries \<equiv> 10000"
abbreviation (input) MaxDiffBytes :: nat where "MaxDiffBytes \<equiv> 8388608"
abbreviation (input) MaxAuditEventBytes :: nat where "MaxAuditEventBytes \<equiv> 2097152"
abbreviation (input) MaxReportBytes :: nat where "MaxReportBytes \<equiv> 33554432"
abbreviation (input) MaxScenarioSteps :: nat where "MaxScenarioSteps \<equiv> 256"
abbreviation (input) MaxFaultRules :: nat where "MaxFaultRules \<equiv> 128"
abbreviation (input) MaxForks :: nat where "MaxForks \<equiv> 1024"
abbreviation (input) MaxSnapshots :: nat where "MaxSnapshots \<equiv> 1024"
abbreviation (input) MaxConcurrentCalls :: nat where "MaxConcurrentCalls \<equiv> 1"
abbreviation (input) MaxBundleFiles :: nat where "MaxBundleFiles \<equiv> 128"
abbreviation (input) MaxBundleCompressed :: nat where "MaxBundleCompressed \<equiv> 33554432"
abbreviation (input) MaxBundleExtracted :: nat where "MaxBundleExtracted \<equiv> 67108864"
abbreviation (input) MaxBundleMember :: nat where "MaxBundleMember \<equiv> 16777216"
abbreviation (input) MaxEpisodeRecords :: nat where "MaxEpisodeRecords \<equiv> 10000"
abbreviation (input) MaxEpisodeAttempts :: nat where "MaxEpisodeAttempts \<equiv> 16"
abbreviation (input) MaxLeaseSeconds :: nat where "MaxLeaseSeconds \<equiv> 3600"
abbreviation (input) MaxCassetteBytes :: nat where "MaxCassetteBytes \<equiv> 0"
abbreviation (input) MaxScheduledEvents :: nat where "MaxScheduledEvents \<equiv> 1024"
abbreviation (input) MaxScheduledDelivery :: nat where "MaxScheduledDelivery \<equiv> 256"
abbreviation (input) MaxScheduledAtInstant :: nat where "MaxScheduledAtInstant \<equiv> 256"
abbreviation (input) MaxScheduledActions :: nat where "MaxScheduledActions \<equiv> 32"
abbreviation (input) MaxScheduledAttempts :: nat where "MaxScheduledAttempts \<equiv> 1"
abbreviation (input) MaxScheduledCascade :: nat where "MaxScheduledCascade \<equiv> 0"
abbreviation (input) MaxSchedulerPageSize :: nat where "MaxSchedulerPageSize \<equiv> 256"
abbreviation (input) DefaultSchedulerPage :: nat where "DefaultSchedulerPage \<equiv> 100"
abbreviation (input) MaxSchedulerCursor :: nat where "MaxSchedulerCursor \<equiv> 2048"
abbreviation (input) MaxEntropyStreams :: nat where "MaxEntropyStreams \<equiv> 64"
abbreviation (input) MaxEntropyBytes :: nat where "MaxEntropyBytes \<equiv> 32"
abbreviation (input) FutureMaxTaskCount :: nat where "FutureMaxTaskCount \<equiv> 0"

text \<open>\<open>Default()\<close> as the JSON object its struct tags give, and the profile digest.\<close>

definition limits_Default :: json where
  "limits_Default = JObj [
     (''format'', JStr limits_Format),
     (''version'', JStr limits_Version),
     (''maxSpecBytes'', JNum (int MaxSpecBytes)),
     (''maxToolCount'', JNum (int MaxToolCount)),
     (''maxEntityTypeCount'', JNum (int MaxEntityTypeCount)),
     (''maxEntitiesPerBranch'', JNum (int MaxEntitiesPerBranch)),
     (''maxStateBytes'', JNum (int MaxStateBytes)),
     (''maxInputBytes'', JNum (int MaxInputBytes)),
     (''maxOutputBytes'', JNum (int MaxOutputBytes)),
     (''maxJSONDepth'', JNum (int MaxJSONDepth)),
     (''maxJSONMembers'', JNum (int MaxJSONMembers)),
     (''maxSchemaBytes'', JNum (int MaxSchemaBytes)),
     (''maxSchemaDepth'', JNum (int MaxSchemaDepth)),
     (''maxExpressionBytes'', JNum (int MaxExpressionBytes)),
     (''maxExpressionCost'', JNum (int MaxExpressionCost)),
     (''maxEffectsPerCall'', JNum (int MaxEffectsPerCall)),
     (''maxQueryResultItems'', JNum (int MaxQueryResultItems)),
     (''maxDiffEntries'', JNum (int MaxDiffEntries)),
     (''maxDiffBytes'', JNum (int MaxDiffBytes)),
     (''maxAuditEventBytes'', JNum (int MaxAuditEventBytes)),
     (''maxReportBytes'', JNum (int MaxReportBytes)),
     (''maxScenarioSteps'', JNum (int MaxScenarioSteps)),
     (''maxScheduledEvents'', JNum (int MaxScheduledEvents)),
     (''maxScheduledDeliveriesPerAdvance'', JNum (int MaxScheduledDelivery)),
     (''maxScheduledEventsPerInstant'', JNum (int MaxScheduledAtInstant)),
     (''maxScheduledActionsPerStep'', JNum (int MaxScheduledActions)),
     (''maxScheduledAttempts'', JNum (int MaxScheduledAttempts)),
     (''maxScheduledCascadeDepth'', JNum (int MaxScheduledCascade)),
     (''maxSchedulerPageSize'', JNum (int MaxSchedulerPageSize)),
     (''defaultSchedulerPageSize'', JNum (int DefaultSchedulerPage)),
     (''maxSchedulerCursorBytes'', JNum (int MaxSchedulerCursor)),
     (''maxEntropyStreams'', JNum (int MaxEntropyStreams)),
     (''maxEntropyBytesPerDraw'', JNum (int MaxEntropyBytes)),
     (''maxFaultRules'', JNum (int MaxFaultRules)),
     (''maxForks'', JNum (int MaxForks)),
     (''maxSnapshots'', JNum (int MaxSnapshots)),
     (''maxConcurrentCalls'', JNum (int MaxConcurrentCalls)),
     (''maxCassetteBytes'', JNum (int MaxCassetteBytes)),
     (''maxBundleFiles'', JNum (int MaxBundleFiles)),
     (''maxBundleCompressedBytes'', JNum (int MaxBundleCompressed)),
     (''maxBundleExtractedBytes'', JNum (int MaxBundleExtracted)),
     (''maxBundleMemberBytes'', JNum (int MaxBundleMember)),
     (''maxEpisodeRecords'', JNum (int MaxEpisodeRecords)),
     (''maxEpisodeAttempts'', JNum (int MaxEpisodeAttempts)),
     (''maxLeaseSeconds'', JNum (int MaxLeaseSeconds)),
     (''futureMaxTaskCount'', JNum (int FutureMaxTaskCount))]"

definition limits_Digest :: string where
  "limits_Digest = canonical_Digest limits_Default"

section \<open>Bounded JSON\<close>

datatype limit_error = BytesExceeded | DepthExceeded | MembersExceeded

text \<open>The children of a value are visited in turn, threading the member count.\<close>

fun walk_seq :: "(nat \<Rightarrow> nat \<Rightarrow> limit_error + nat) list \<Rightarrow> nat \<Rightarrow> nat \<Rightarrow> limit_error + nat" where
  "walk_seq [] depth members = Inr members"
| "walk_seq (w # ws) depth members =
     (case w depth members of Inl e \<Rightarrow> Inl e | Inr members' \<Rightarrow> walk_seq ws depth members')"

primrec walk :: "json \<Rightarrow> nat \<Rightarrow> nat \<Rightarrow> limit_error + nat" where
  "walk JNull depth members = (if depth > MaxJSONDepth then Inl DepthExceeded else Inr members)"
| "walk (JBool b) depth members = (if depth > MaxJSONDepth then Inl DepthExceeded else Inr members)"
| "walk (JNum n) depth members = (if depth > MaxJSONDepth then Inl DepthExceeded else Inr members)"
| "walk (JStr s) depth members = (if depth > MaxJSONDepth then Inl DepthExceeded else Inr members)"
| "walk (JArr xs) depth members =
     (if depth > MaxJSONDepth then Inl DepthExceeded
      else if members + length xs > MaxJSONMembers then Inl MembersExceeded
      else walk_seq (map walk xs) (depth + 1) (members + length xs))"
| "walk (JObj kvs) depth members =
     (if depth > MaxJSONDepth then Inl DepthExceeded
      else if members + length kvs > MaxJSONMembers then Inl MembersExceeded
      else walk_seq (map snd (map (map_prod id walk) kvs)) (depth + 1) (members + length kvs))"

definition ValidateJSON :: "json \<Rightarrow> nat \<Rightarrow> limit_error + unit" where
  "ValidateJSON value maxBytes =
     (if length (canonical_JSON value) > maxBytes then Inl BytesExceeded
      else case walk value 0 0 of Inl e \<Rightarrow> Inl e | Inr _ \<Rightarrow> Inr ())"

text \<open>
  The reference: nesting depth and number of members of a value, without any traversal order.
\<close>

primrec json_depth :: "json \<Rightarrow> nat" where
  "json_depth JNull = 0"
| "json_depth (JBool b) = 0"
| "json_depth (JNum n) = 0"
| "json_depth (JStr s) = 0"
| "json_depth (JArr xs) = foldr (\<lambda>d a. max (Suc d) a) (map json_depth xs) 0"
| "json_depth (JObj kvs) = foldr (\<lambda>d a. max (Suc d) a) (map snd (map (map_prod id json_depth) kvs)) 0"

primrec json_members :: "json \<Rightarrow> nat" where
  "json_members JNull = 0"
| "json_members (JBool b) = 0"
| "json_members (JNum n) = 0"
| "json_members (JStr s) = 0"
| "json_members (JArr xs) = length xs + sum_list (map json_members xs)"
| "json_members (JObj kvs) = length kvs + sum_list (map snd (map (map_prod id json_members) kvs))"

lemma walk_seq_iff:
  assumes "\<And>v m r. v \<in> set vs \<Longrightarrow> m \<le> MaxJSONMembers \<Longrightarrow>
      walk v depth m = Inr r \<longleftrightarrow> depth + json_depth v \<le> MaxJSONDepth \<and> r = m + json_members v \<and> r \<le> MaxJSONMembers"
    and "m \<le> MaxJSONMembers"
  shows "walk_seq (map walk vs) depth m = Inr r \<longleftrightarrow>
    (\<forall>v \<in> set vs. depth + json_depth v \<le> MaxJSONDepth) \<and>
    r = m + sum_list (map json_members vs) \<and> r \<le> MaxJSONMembers"
  using assms
proof (induction vs arbitrary: m)
  case (Cons v vs)
  show ?case
  proof (cases "walk v depth m")
    case (Inl e)
    then have "\<not> (depth + json_depth v \<le> MaxJSONDepth \<and> m + json_members v \<le> MaxJSONMembers)"
      using Cons.prems(1) [of v m "m + json_members v"] Cons.prems(2) by auto
    with Inl show ?thesis by auto
  next
    case (Inr m')
    then have v: "depth + json_depth v \<le> MaxJSONDepth" "m' = m + json_members v" "m' \<le> MaxJSONMembers"
      using Cons.prems(1) [of v m m'] Cons.prems(2) by auto
    have "walk_seq (map walk vs) depth m' = Inr r \<longleftrightarrow>
        (\<forall>v \<in> set vs. depth + json_depth v \<le> MaxJSONDepth) \<and>
        r = m' + sum_list (map json_members vs) \<and> r \<le> MaxJSONMembers"
      using Cons.prems v(3) by (intro Cons.IH) auto
    with Inr v show ?thesis by auto
  qed
qed auto

lemma foldr_max_Suc_le: "foldr (\<lambda>d a. max (Suc d) a) ds 0 \<le> n \<longleftrightarrow> (\<forall>d \<in> set ds. Suc d \<le> n)"
  by (induction ds) auto

lemma depth_shift: "depth + foldr (\<lambda>d a. max (Suc d) a) ds 0 \<le> MaxJSONDepth \<longleftrightarrow>
    depth \<le> MaxJSONDepth \<and> (\<forall>d \<in> set ds. Suc depth + d \<le> MaxJSONDepth)"
proof -
  have "depth + foldr (\<lambda>d a. max (Suc d) a) ds 0 \<le> MaxJSONDepth \<longleftrightarrow>
      depth \<le> MaxJSONDepth \<and> foldr (\<lambda>d a. max (Suc d) a) ds 0 \<le> MaxJSONDepth - depth"
    by linarith
  also have "\<dots> \<longleftrightarrow> depth \<le> MaxJSONDepth \<and> (\<forall>d \<in> set ds. Suc depth + d \<le> MaxJSONDepth)"
    unfolding foldr_max_Suc_le by (intro conj_cong refl ball_cong) auto
  finally show ?thesis .
qed

lemma walk_iff:
  "m \<le> MaxJSONMembers \<Longrightarrow> walk v depth m = Inr r \<longleftrightarrow>
     depth + json_depth v \<le> MaxJSONDepth \<and> r = m + json_members v \<and> r \<le> MaxJSONMembers"
proof (induction v arbitrary: depth m r)
  case (JArr xs)
  then show ?case
    by (auto simp: walk_seq_iff depth_shift simp del: foldr.simps)
next
  case (JObj kvs)
  have vals: "map snd (map (map_prod id f) kvs) = map f (map snd kvs)" for f :: "json \<Rightarrow> 'z"
    by auto
  have IH: "walk v d m' = Inr r' \<longleftrightarrow> d + json_depth v \<le> MaxJSONDepth \<and> r' = m' + json_members v \<and> r' \<le> MaxJSONMembers"
    if "v \<in> set (map snd kvs)" "m' \<le> MaxJSONMembers" for v d m' r'
    using that JObj.IH by fastforce
  have seq: "walk_seq (map walk (map snd kvs)) (Suc depth) (m + length kvs) = Inr r \<longleftrightarrow>
      (\<forall>v \<in> set (map snd kvs). Suc depth + json_depth v \<le> MaxJSONDepth) \<and>
      r = m + length kvs + sum_list (map json_members (map snd kvs)) \<and> r \<le> MaxJSONMembers"
    if "m + length kvs \<le> MaxJSONMembers"
    using IH that by (rule walk_seq_iff)
  show ?case
    unfolding walk.simps json_depth.simps json_members.simps vals depth_shift
    using seq by (cases "m + length kvs \<le> MaxJSONMembers") (auto simp del: map_map)
qed auto

lemma ValidateJSON_iff:
  "ValidateJSON v n = Inr () \<longleftrightarrow>
     length (canonical_JSON v) \<le> n \<and> json_depth v \<le> MaxJSONDepth \<and> json_members v \<le> MaxJSONMembers"
proof -
  have "(\<exists>r. walk v 0 0 = Inr r) \<longleftrightarrow> json_depth v \<le> MaxJSONDepth \<and> json_members v \<le> MaxJSONMembers"
    by (simp add: walk_iff)
  then show ?thesis
    by (auto simp: ValidateJSON_def split: sum.splits)
qed

end
