(* ===== verification/Go_Text.thy ===== *)
theory Go_Text
  imports Canonical
begin

text \<open>
  The functions of the packages \<open>strings\<close> and \<open>unicode/utf8\<close> that the program calls, on
  byte strings: a string is cut into the encodings of its code points, an invalid byte being a
  chunk of its own.
\<close>

function chunks :: "string \<Rightarrow> string list" where
  "chunks [] = []"
| "chunks (c # cs) =
     (let n = snd (decode_rune (c # cs)) in take n (c # cs) # chunks (drop (n - 1) cs))"
  by pat_completeness auto

termination by (relation "measure length") (auto simp: less_Suc_eq_le)

text \<open>\<open>utf8.Valid\<close>: every chunk that is a single byte is ASCII.\<close>

definition valid_chunk :: "string \<Rightarrow> bool" where
  "valid_chunk s \<longleftrightarrow> length s \<noteq> 1 \<or> byte_at s 0 < 0x80"

definition utf8_Valid :: "string \<Rightarrow> bool" where
  "utf8_Valid s \<longleftrightarrow> list_all valid_chunk (chunks s)"

text \<open>\<open>unicode.IsSpace\<close> and \<open>strings.TrimSpace\<close>.\<close>

definition space_rune :: "int \<Rightarrow> bool" where
  "space_rune r \<longleftrightarrow>
     (9 \<le> r \<and> r \<le> 13) \<or> r = 0x20 \<or> r = 0x85 \<or> r = 0xA0 \<or> r = 0x1680 \<or> (0x2000 \<le> r \<and> r \<le> 0x200A) \<or>
     r = 0x2028 \<or> r = 0x2029 \<or> r = 0x202F \<or> r = 0x205F \<or> r = 0x3000"

definition space_chunk :: "string \<Rightarrow> bool" where
  "space_chunk s = space_rune (fst (decode_rune s))"

definition TrimSpace :: "string \<Rightarrow> string" where
  "TrimSpace s = concat (rev (dropWhile space_chunk (rev (dropWhile space_chunk (chunks s)))))"

text \<open>
  \<open>strings.ToLower\<close>. Beyond ASCII only the two letters whose lower case is ASCII are mapped (U+0130
  and the Kelvin sign U+212A): every result is compared with ASCII text, from which any other
  letter differs before and after.
\<close>

definition lower_char :: "char \<Rightarrow> char" where
  "lower_char c = (let n = of_char c :: int in if 65 \<le> n \<and> n \<le> 90 then char_of (n + 32) else c)"

definition upper_char :: "char \<Rightarrow> char" where
  "upper_char c = (let n = of_char c :: int in if 97 \<le> n \<and> n \<le> 122 then char_of (n - 32) else c)"

definition lower_chunk :: "string \<Rightarrow> string" where
  "lower_chunk s =
     (let r = fst (decode_rune s) in if r = 0x130 then ''i'' else if r = 0x212A then ''k'' else map lower_char s)"

definition ToLower :: "string \<Rightarrow> string" where
  "ToLower s = concat (map lower_chunk (chunks s))"

text \<open>
  The key under which \<open>encoding/json\<close> finds the field of a struct: letters that differ only in
  case are one letter, and so are the Kelvin sign and k, the long s U+017F and s.
\<close>

definition fold_chunk :: "string \<Rightarrow> string" where
  "fold_chunk s =
     (let r = fst (decode_rune s) in if r = 0x17F then ''S'' else if r = 0x212A then ''K'' else map upper_char s)"

definition foldName :: "string \<Rightarrow> string" where
  "foldName s = concat (map fold_chunk (chunks s))"

text \<open>\<open>string(rune(n))\<close>: the UTF-8 text of a code point, U+FFFD for an invalid one.\<close>

definition valid_rune :: "int \<Rightarrow> int" where
  "valid_rune n = (if 0 \<le> n \<and> n < 0x110000 \<and> \<not> (0xD800 \<le> n \<and> n < 0xE000) then n else 0xFFFD)"

definition utf8_bytes :: "int \<Rightarrow> int list" where
  "utf8_bytes r =
     (if r < 0x80 then [r]
      else if r < 0x800 then [0xC0 + r div 64, 0x80 + r mod 64]
      else if r < 0x10000 then [0xE0 + r div 4096, 0x80 + r div 64 mod 64, 0x80 + r mod 64]
      else [0xF0 + r div 262144, 0x80 + r div 4096 mod 64, 0x80 + r div 64 mod 64, 0x80 + r mod 64])"

definition utf8_rune :: "int \<Rightarrow> string" where
  "utf8_rune n = map char_of (utf8_bytes (valid_rune n))"

text \<open>\<open>strings.HasPrefix\<close> and \<open>strings.Contains\<close>.\<close>

definition HasPrefix :: "string \<Rightarrow> string \<Rightarrow> bool" where
  "HasPrefix s p = (take (length p) s = p)"

fun Contains :: "string \<Rightarrow> string \<Rightarrow> bool" where
  "Contains [] p = (p = [])"
| "Contains (c # cs) p = (HasPrefix (c # cs) p \<or> Contains cs p)"

section \<open>Facts\<close>

lemma concat_chunks: "concat (chunks s) = s"
proof (induction s rule: chunks.induct)
  case (2 c cs)
  let ?n = "snd (decode_rune (c # cs))"
  have "0 < ?n" by (simp add: decode_rune_def Let_def)
  then have "take ?n (c # cs) @ drop (?n - 1) cs = c # cs" by (cases ?n) simp_all
  with 2 show ?case by (simp add: Let_def)
qed simp

lemma Contains_iff: "Contains s p \<longleftrightarrow> (\<exists>a b. s = a @ p @ b)"
proof (induction s)
  case (Cons c cs)
  have prefix: "HasPrefix s p \<longleftrightarrow> (\<exists>b. s = p @ b)" for s p :: string
    by (metis HasPrefix_def append_eq_conv_conj append_take_drop_id)
  show ?case
  proof
    assume "Contains (c # cs) p"
    then consider b where "c # cs = p @ b" | a b where "cs = a @ p @ b" using Cons prefix by auto
    then show "\<exists>a b. c # cs = a @ p @ b"
    proof cases
      case 1 then show ?thesis by (metis append_Nil)
    next
      case 2 then show ?thesis by (metis append_Cons)
    qed
  next
    assume "\<exists>a b. c # cs = a @ p @ b"
    then obtain a b where ab: "c # cs = a @ p @ b" by blast
    show "Contains (c # cs) p"
    proof (cases a)
      case Nil
      then have "HasPrefix (c # cs) p" using ab unfolding prefix by auto
      then show ?thesis by simp
    next
      case (Cons x a')
      then have "\<exists>a b. cs = a @ p @ b" using ab by auto
      then show ?thesis using Cons.IH by simp
    qed
  qed
qed simp

lemma ascii_chunk:
  assumes "of_char c < (0x80 :: int)"
  shows "chunks (c # cs) = [c] # chunks cs"
  using assms by (simp add: decode_rune_def byte_at_def Let_def)

lemma chunks_ascii: "\<forall>c \<in> set s. of_char c < (0x80 :: int) \<Longrightarrow> chunks s = map (\<lambda>c. [c]) s"
  by (induction s) (simp_all add: ascii_chunk del: chunks.simps(2))

end
