(* ===== verification/World.thy ===== *)
theory World
  imports Limit_Profile Go_Text
begin

text \<open>
  \<open>internal/world/state.go\<close>: the modeled world state, its scheduler queue, the resource
  budget and the validation of the queue. Go maps are ascending entry lists (\<open>gomap\<close>); the nil
  maps of \<open>State\<close>, which \<open>Normalize\<close> replaces by empty ones before any other use, are
  empty lists. A record (a \<open>map[string]any\<close>) and an action input may be a nil map, which
  \<open>None\<close> stands for.
\<close>

section \<open>Identifier patterns\<close>

definition is_lower :: "char \<Rightarrow> bool" where
  "is_lower c \<longleftrightarrow> 97 \<le> (of_char c :: nat) \<and> (of_char c :: nat) \<le> 122"

definition is_upper :: "char \<Rightarrow> bool" where
  "is_upper c \<longleftrightarrow> 65 \<le> (of_char c :: nat) \<and> (of_char c :: nat) \<le> 90"

definition is_alnum :: "char \<Rightarrow> bool" where
  "is_alnum c \<longleftrightarrow> is_lower c \<or> is_upper c \<or> is_digit c"

text \<open>\<open>^[A-Za-z0-9][A-Za-z0-9._-]{0,127}$\<close>\<close>

fun controlIDPattern :: "string \<Rightarrow> bool" where
  "controlIDPattern [] = False"
| "controlIDPattern (c # s) \<longleftrightarrow>
     is_alnum c \<and> length s \<le> 127 \<and>
     list_all (\<lambda>d. is_alnum d \<or> d = CHR ''.'' \<or> d = CHR ''_'' \<or> d = CHR ''-'') s"

text \<open>\<open>^[a-z][a-z0-9]*(?:[-_][a-z0-9]+)*$\<close>; the flag says that the last character was not a separator.\<close>

fun kebab_tail :: "bool \<Rightarrow> string \<Rightarrow> bool" where
  "kebab_tail ok [] = ok"
| "kebab_tail ok (c # s) =
     (if is_lower c \<or> is_digit c then kebab_tail True s
      else if ok \<and> (c = CHR ''-'' \<or> c = CHR ''_'') then kebab_tail False s
      else False)"

fun toolNamePattern :: "string \<Rightarrow> bool" where
  "toolNamePattern [] = False"
| "toolNamePattern (c # s) \<longleftrightarrow> is_lower c \<and> kebab_tail True s"

text \<open>\<open>^sha256:[0-9a-f]{64}$\<close>\<close>

definition digestPattern :: "string \<Rightarrow> bool" where
  "digestPattern s \<longleftrightarrow> take 7 s = ''sha256:'' \<and> length s = 71 \<and> list_all is_hex (drop 7 s)"

lemma digestPattern_Digest [simp]: "digestPattern (canonical_Digest v)"
  using sha256_hex_shape by (auto simp: digestPattern_def canonical_Digest_def list_all_iff)

section \<open>State\<close>

record scheduled_action =
  act_tool :: string
  act_input :: "json gomap option"
  act_specDigest :: string

record action_outcome =
  out_callIndex :: int
  out_result :: json
  out_errorClass :: string
  out_effectCommitted :: bool
  out_faultID :: string
  out_faultPhase :: string

record scheduled_event =
  ev_id :: string
  ev_dueAt :: string
  ev_priority :: int
  ev_seq :: int
  ev_kind :: string
  ev_payload :: json
  ev_action :: "scheduled_action option"
  ev_outcome :: "action_outcome option"
  ev_attempts :: int
  ev_status :: string
  ev_deliveredAt :: string
  ev_finishedAt :: string
  ev_canceledAt :: string

record scheduler_state =
  nextCreationSequence :: int
  events :: "scheduled_event gomap"

type_synonym entity_record = "json gomap option"

record world_state =
  Entities :: "entity_record gomap gomap"
  Sequences :: "int gomap"
  Entropy :: "int gomap"
  Scheduler :: "scheduler_state option"

abbreviation (input) KindSignal :: string where "KindSignal \<equiv> ''signal''"
abbreviation (input) KindAction :: string where "KindAction \<equiv> ''tool-call''"
abbreviation (input) Pending :: string where "Pending \<equiv> ''pending''"
abbreviation (input) Delivered :: string where "Delivered \<equiv> ''delivered''"
abbreviation (input) Canceled :: string where "Canceled \<equiv> ''canceled''"
abbreviation (input) Completed :: string where "Completed \<equiv> ''completed''"
abbreviation (input) Failed :: string where "Failed \<equiv> ''failed''"
abbreviation (input) PhaseBefore :: string where "PhaseBefore \<equiv> ''before-validation''"
abbreviation (input) PhaseAfter :: string where "PhaseAfter \<equiv> ''after-commit-before-response''"

definition New :: world_state where
  "New = \<lparr>Entities = [], Sequences = [], Entropy = [], Scheduler = None\<rparr>"

definition EnsureScheduler :: "world_state \<Rightarrow> scheduler_state" where
  "EnsureScheduler s =
     (case Scheduler s of None \<Rightarrow> \<lparr>nextCreationSequence = 0, events = []\<rparr> | Some sc \<Rightarrow> sc)"

definition DueTime :: "scheduled_event \<Rightarrow> instant option" where
  "DueTime event = map_option fst (parse_nano (ev_dueAt event))"

section \<open>JSON form\<close>

text \<open>The JSON objects that the struct tags give; \<open>omitempty\<close> members are left out.\<close>

definition str_field :: "string \<Rightarrow> string \<Rightarrow> (string \<times> json) list" where
  "str_field k s = (if s = [] then [] else [(k, JStr s)])"

definition record_json :: "entity_record \<Rightarrow> json" where
  "record_json r = (case r of None \<Rightarrow> JNull | Some m \<Rightarrow> JObj m)"

definition action_json :: "scheduled_action \<Rightarrow> json" where
  "action_json a =
     JObj [(''tool'', JStr (act_tool a)), (''input'', record_json (act_input a)), (''specDigest'', JStr (act_specDigest a))]"

definition outcome_json :: "action_outcome \<Rightarrow> json" where
  "outcome_json out =
     JObj ([(''callIndex'', JNum (out_callIndex out)), (''result'', out_result out)] @
           str_field ''errorClass'' (out_errorClass out) @
           [(''effectCommitted'', JBool (out_effectCommitted out))] @
           str_field ''faultId'' (out_faultID out) @
           str_field ''faultPhase'' (out_faultPhase out))"

definition event_json :: "scheduled_event \<Rightarrow> json" where
  "event_json e =
     JObj ([(''id'', JStr (ev_id e)), (''dueAt'', JStr (ev_dueAt e)), (''priority'', JNum (ev_priority e)),
            (''creationSequence'', JNum (ev_seq e)), (''kind'', JStr (ev_kind e)), (''payload'', ev_payload e)] @
           (case ev_action e of None \<Rightarrow> [] | Some a \<Rightarrow> [(''action'', action_json a)]) @
           (case ev_outcome e of None \<Rightarrow> [] | Some out \<Rightarrow> [(''outcome'', outcome_json out)]) @
           (if ev_attempts e = 0 then [] else [(''attemptCount'', JNum (ev_attempts e))]) @
           [(''status'', JStr (ev_status e))] @
           str_field ''deliveredAt'' (ev_deliveredAt e) @
           str_field ''finishedAt'' (ev_finishedAt e) @
           str_field ''canceledAt'' (ev_canceledAt e))"

definition scheduler_json :: "scheduler_state \<Rightarrow> json" where
  "scheduler_json sc =
     JObj [(''nextCreationSequence'', JNum (nextCreationSequence sc)),
           (''events'', JObj (map_vals event_json (events sc)))]"

definition state_json :: "world_state \<Rightarrow> json" where
  "state_json s =
     JObj ([(''entities'', JObj (map_vals (\<lambda>recs. JObj (map_vals record_json recs)) (Entities s))),
            (''sequences'', JObj (map_vals JNum (Sequences s)))] @
           (if Entropy s = [] then [] else [(''entropy'', JObj (map_vals JNum (Entropy s)))]) @
           (case Scheduler s of None \<Rightarrow> [] | Some sc \<Rightarrow> [(''scheduler'', scheduler_json sc)]))"

text \<open>
  \<open>json.Marshal\<close> followed by \<open>json.Unmarshal\<close> into a \<open>State\<close>: typed fields come back
  as they were, numbers inside \<open>any\<close> values come back as \<open>float64\<close>.
\<close>

definition reread_record :: "entity_record \<Rightarrow> entity_record" where
  "reread_record r = map_option (map_vals renum_json) r"

definition reread_action :: "scheduled_action \<Rightarrow> scheduled_action" where
  "reread_action a = a\<lparr>act_input := reread_record (act_input a)\<rparr>"

definition reread_outcome :: "action_outcome \<Rightarrow> action_outcome" where
  "reread_outcome out = out\<lparr>out_result := renum_json (out_result out)\<rparr>"

definition reread_event :: "scheduled_event \<Rightarrow> scheduled_event" where
  "reread_event e = e\<lparr>ev_payload := renum_json (ev_payload e),
     ev_action := map_option reread_action (ev_action e),
     ev_outcome := map_option reread_outcome (ev_outcome e)\<rparr>"

definition reread_scheduler :: "scheduler_state \<Rightarrow> scheduler_state" where
  "reread_scheduler sc = sc\<lparr>events := map_vals reread_event (events sc)\<rparr>"

definition Clone :: "world_state \<Rightarrow> world_state" where
  "Clone s = s\<lparr>Entities := map_vals (map_vals reread_record) (Entities s),
               Scheduler := map_option reread_scheduler (Scheduler s)\<rparr>"

text \<open>What a CEL expression sees: entities and sequences, not the entropy or the queue.\<close>

definition CELValue :: "world_state \<Rightarrow> json" where
  "CELValue s =
     JObj [(''entities'', JObj (map_vals (\<lambda>recs. JObj (map_vals record_json recs)) (Entities s))),
           (''sequences'', JObj (map_vals JNum (Sequences s)))]"

section \<open>Validation\<close>

datatype world_error =
    EntityRecordsExceeded
  | EntropyStreamsExceeded
  | ScheduledEventsExceeded
  | InvalidEntropyStream string
  | NegativeCreationSequence
  | InvalidEventKey string string
  | InvalidEventSequence string
  | SharedEventSequence string string
  | InvalidEventPriority string
  | NonCanonicalDueAt string
  | InvalidEventKind string
  | InvalidLifecycle string
  | StateJSON limit_error

definition validateCanceledAt :: "scheduled_event \<Rightarrow> bool" where
  "validateCanceledAt event \<longleftrightarrow>
     (case parse_nano (ev_canceledAt event) of
        None \<Rightarrow> False
      | Some (t, utc) \<Rightarrow> utc \<and> format_nano t = ev_canceledAt event)"

definition validateSignalLifecycle :: "scheduled_event \<Rightarrow> world_error + unit" where
  "validateSignalLifecycle event =
     (let bad = Inl (InvalidLifecycle (ev_id event)) in
      if ev_action event \<noteq> None \<or> ev_outcome event \<noteq> None \<or> ev_attempts event \<noteq> 0 \<or> ev_finishedAt event \<noteq> [] then bad
      else if ev_status event = Pending then
        (if ev_deliveredAt event \<noteq> [] \<or> ev_canceledAt event \<noteq> [] then bad else Inr ())
      else if ev_status event = Delivered then
        (if ev_deliveredAt event \<noteq> ev_dueAt event \<or> ev_canceledAt event \<noteq> [] then bad else Inr ())
      else if ev_status event = Canceled then
        (if \<not> validateCanceledAt event \<or> ev_deliveredAt event \<noteq> [] then bad else Inr ())
      else bad)"

definition validOutcomeFault :: "action_outcome \<Rightarrow> bool" where
  "validOutcomeFault out \<longleftrightarrow>
     (out_faultID out = []) = (out_faultPhase out = []) \<and>
     (out_faultID out \<noteq> [] \<longrightarrow>
        controlIDPattern (out_faultID out) \<and> (out_faultPhase out = PhaseBefore \<or> out_faultPhase out = PhaseAfter)) \<and>
     (out_faultPhase out = PhaseAfter \<longrightarrow> out_effectCommitted out)"

definition validCompleted :: "scheduled_event \<Rightarrow> bool" where
  "validCompleted event \<longleftrightarrow>
     (case ev_outcome event of
        None \<Rightarrow> False
      | Some out \<Rightarrow>
          ev_attempts event = int MaxScheduledAttempts \<and> ev_finishedAt event = ev_dueAt event \<and> ev_canceledAt event = [] \<and>
          1 \<le> out_callIndex out \<and> out_errorClass out = [] \<and> out_effectCommitted out \<and>
          out_faultID out = [] \<and> out_faultPhase out = [])"

definition validFailed :: "scheduled_event \<Rightarrow> bool" where
  "validFailed event \<longleftrightarrow>
     (case ev_outcome event of
        None \<Rightarrow> False
      | Some out \<Rightarrow>
          ev_attempts event = int MaxScheduledAttempts \<and> ev_finishedAt event = ev_dueAt event \<and> ev_canceledAt event = [] \<and>
          1 \<le> out_callIndex out \<and> controlIDPattern (out_errorClass out) \<and>
          \<not> (out_effectCommitted out \<and> out_faultPhase out \<noteq> PhaseAfter))"

definition validateActionLifecycle :: "scheduled_event \<Rightarrow> world_error + unit" where
  "validateActionLifecycle event =
     (let bad = Inl (InvalidLifecycle (ev_id event));
          faults = (case ev_outcome event of
                      None \<Rightarrow> Inr ()
                    | Some out \<Rightarrow> if validOutcomeFault out then Inr () else bad)
      in case ev_action event of
           None \<Rightarrow> bad
         | Some a \<Rightarrow>
             if ev_payload event \<noteq> JNull \<or> \<not> toolNamePattern (act_tool a) \<or> act_input a = None \<or>
                \<not> digestPattern (act_specDigest a) \<or> ev_deliveredAt event \<noteq> [] then bad
             else if ev_status event = Pending then
               (if ev_outcome event \<noteq> None \<or> ev_attempts event \<noteq> 0 \<or> ev_finishedAt event \<noteq> [] \<or> ev_canceledAt event \<noteq> []
                then bad else faults)
             else if ev_status event = Canceled then
               (if ev_outcome event \<noteq> None \<or> ev_attempts event \<noteq> 0 \<or> ev_finishedAt event \<noteq> [] \<or> \<not> validateCanceledAt event
                then bad else faults)
             else if ev_status event = Completed then (if validCompleted event then faults else bad)
             else if ev_status event = Failed then (if validFailed event then faults else bad)
             else bad)"

definition canonicalDueAt :: "scheduled_event \<Rightarrow> bool" where
  "canonicalDueAt event \<longleftrightarrow>
     (case parse_nano (ev_dueAt event) of
        None \<Rightarrow> False
      | Some (t, utc) \<Rightarrow> utc \<and> format_nano t = ev_dueAt event)"

fun validateEvents :: "int \<Rightarrow> (int \<times> string) list \<Rightarrow> (string \<times> scheduled_event) list \<Rightarrow> world_error + unit" where
  "validateEvents nextSeq sequences [] = Inr ()"
| "validateEvents nextSeq sequences ((key, event) # rest) =
     (if key \<noteq> ev_id event \<or> \<not> controlIDPattern (ev_id event) then Inl (InvalidEventKey key (ev_id event))
      else if ev_seq event < 1 \<or> nextSeq < ev_seq event then Inl (InvalidEventSequence (ev_id event))
      else case map_of sequences (ev_seq event) of
        Some previous \<Rightarrow> Inl (SharedEventSequence previous (ev_id event))
      | None \<Rightarrow>
          if ev_priority event < -1000 \<or> 1000 < ev_priority event then Inl (InvalidEventPriority (ev_id event))
          else if \<not> canonicalDueAt event then Inl (NonCanonicalDueAt (ev_id event))
          else bindE
            (if ev_kind event = KindSignal then validateSignalLifecycle event
             else if ev_kind event = KindAction then validateActionLifecycle event
             else Inl (InvalidEventKind (ev_id event)))
            (\<lambda>_. validateEvents nextSeq ((ev_seq event, ev_id event) # sequences) rest))"

fun validateStreams :: "string list \<Rightarrow> world_error + unit" where
  "validateStreams [] = Inr ()"
| "validateStreams (stream # rest) =
     (if \<not> toolNamePattern stream then Inl (InvalidEntropyStream stream) else validateStreams rest)"

definition validateInternalState :: "world_state \<Rightarrow> world_error + unit" where
  "validateInternalState s =
     bindE (validateStreams (map fst (Entropy s))) (\<lambda>_.
       case Scheduler s of
         None \<Rightarrow> Inr ()
       | Some sc \<Rightarrow>
           if nextCreationSequence sc < 0 then Inl NegativeCreationSequence
           else validateEvents (nextCreationSequence sc) [] (events sc))"

fun countRecords :: "nat \<Rightarrow> (string \<times> entity_record gomap) list \<Rightarrow> world_error + nat" where
  "countRecords records [] = Inr records"
| "countRecords records ((_, entities) # rest) =
     (if records + length entities > MaxEntitiesPerBranch then Inl EntityRecordsExceeded
      else countRecords (records + length entities) rest)"

definition ValidateBudget :: "world_state \<Rightarrow> world_error + unit" where
  "ValidateBudget s =
     bindE (countRecords 0 (Entities s)) (\<lambda>_.
       if length (Entropy s) > MaxEntropyStreams then Inl EntropyStreamsExceeded
       else if (case Scheduler s of None \<Rightarrow> False | Some sc \<Rightarrow> length (events sc) > MaxScheduledEvents)
         then Inl ScheduledEventsExceeded
       else bindE (validateInternalState s) (\<lambda>_.
         case ValidateJSON (state_json s) MaxStateBytes of
           Inl e \<Rightarrow> Inl (StateJSON e)
         | Inr _ \<Rightarrow> Inr ()))"

section \<open>What validation guarantees\<close>

definition valid_event :: "int \<Rightarrow> string \<Rightarrow> scheduled_event \<Rightarrow> bool" where
  "valid_event nextSeq key e \<longleftrightarrow>
     key = ev_id e \<and> controlIDPattern (ev_id e) \<and> 1 \<le> ev_seq e \<and> ev_seq e \<le> nextSeq \<and>
     -1000 \<le> ev_priority e \<and> ev_priority e \<le> 1000 \<and> canonicalDueAt e \<and>
     ((ev_kind e = KindSignal \<and> validateSignalLifecycle e = Inr ()) \<or>
      (ev_kind e = KindAction \<and> validateActionLifecycle e = Inr ()))"

lemma validateEvents_iff:
  "validateEvents nextSeq seen evs = Inr () \<longleftrightarrow>
     (\<forall>(k, e) \<in> set evs. valid_event nextSeq k e) \<and> distinct (map (ev_seq \<circ> snd) evs) \<and>
     (\<forall>(k, e) \<in> set evs. map_of seen (ev_seq e) = None)"
proof (induction evs arbitrary: seen)
  case (Cons ke rest)
  obtain key event where ke: "ke = (key, event)" by fastforce
  show ?case
  proof (cases "valid_event nextSeq key event \<and> map_of seen (ev_seq event) = None")
    case True
    then have "validateEvents nextSeq seen (ke # rest) =
        validateEvents nextSeq ((ev_seq event, ev_id event) # seen) rest"
      by (auto simp: valid_event_def ke)
    also have "\<dots> = Inr () \<longleftrightarrow> (\<forall>(k, e) \<in> set rest. valid_event nextSeq k e) \<and> distinct (map (ev_seq \<circ> snd) rest) \<and>
        (\<forall>(k, e) \<in> set rest. ev_seq e \<noteq> ev_seq event \<and> map_of seen (ev_seq e) = None)"
      unfolding Cons.IH by (simp add: split_def) metis
    also have "\<dots> \<longleftrightarrow> (\<forall>(k, e) \<in> set rest. valid_event nextSeq k e) \<and> distinct (map (ev_seq \<circ> snd) (ke # rest)) \<and>
        (\<forall>(k, e) \<in> set rest. map_of seen (ev_seq e) = None)"
      by (auto simp: ke image_iff)
    finally have eq: "validateEvents nextSeq seen (ke # rest) = Inr () \<longleftrightarrow>
        (\<forall>(k, e) \<in> set rest. valid_event nextSeq k e) \<and> distinct (map (ev_seq \<circ> snd) (ke # rest)) \<and>
        (\<forall>(k, e) \<in> set rest. map_of seen (ev_seq e) = None)" .
    show ?thesis
      unfolding eq list.set ball_simps using True by (simp add: ke comp_def)
  next
    case False
    then have "validateEvents nextSeq seen (ke # rest) \<noteq> Inr ()"
      by (auto simp: valid_event_def ke bindE_eq_Inr split: option.splits if_splits)
    with False show ?thesis by (auto simp: ke)
  qed
qed simp

lemma countRecords_iff:
  "countRecords n es = Inr r \<longleftrightarrow>
     r = n + sum_list (map (length \<circ> snd) es) \<and> (es = [] \<or> r \<le> MaxEntitiesPerBranch)"
proof (induction n es rule: countRecords.induct)
  case (2 records k entities rest)
  then show ?case
    by (cases rest) (auto split: if_splits)
qed auto

lemma validateStreams_iff: "validateStreams ks = Inr () \<longleftrightarrow> (\<forall>k \<in> set ks. toolNamePattern k)"
  by (induction ks) auto

definition events_of :: "world_state \<Rightarrow> scheduled_event gomap" where
  "events_of s = (case Scheduler s of None \<Rightarrow> [] | Some sc \<Rightarrow> events sc)"

text \<open>
  \<open>ValidateBudget\<close> without its traversal: a conjunction that does not depend on the order in
  which Go ranges over the maps.
\<close>

definition within_budget :: "world_state \<Rightarrow> bool" where
  "within_budget s \<longleftrightarrow>
     sum_list (map (length \<circ> snd) (Entities s)) \<le> MaxEntitiesPerBranch \<and>
     length (Entropy s) \<le> MaxEntropyStreams \<and>
     length (events_of s) \<le> MaxScheduledEvents \<and>
     (\<forall>k \<in> fst ` set (Entropy s). toolNamePattern k) \<and>
     (\<forall>sc. Scheduler s = Some sc \<longrightarrow> 0 \<le> nextCreationSequence sc \<and>
        (\<forall>(k, e) \<in> set (events sc). valid_event (nextCreationSequence sc) k e) \<and>
        distinct (map (ev_seq \<circ> snd) (events sc))) \<and>
     length (canonical_JSON (state_json s)) \<le> MaxStateBytes \<and>
     json_depth (state_json s) \<le> MaxJSONDepth \<and> json_members (state_json s) \<le> MaxJSONMembers"

lemma validateInternalState_iff:
  "validateInternalState s = Inr () \<longleftrightarrow>
     (\<forall>k \<in> fst ` set (Entropy s). toolNamePattern k) \<and>
     (\<forall>sc. Scheduler s = Some sc \<longrightarrow> 0 \<le> nextCreationSequence sc \<and>
        (\<forall>(k, e) \<in> set (events sc). valid_event (nextCreationSequence sc) k e) \<and>
        distinct (map (ev_seq \<circ> snd) (events sc)))"
  by (auto simp: validateInternalState_def bindE_eq_Inr validateStreams_iff validateEvents_iff
      split: option.splits if_splits)

lemma ValidateBudget_iff: "ValidateBudget s = Inr () \<longleftrightarrow> within_budget s"
proof -
  have json: "(case ValidateJSON (state_json s) MaxStateBytes of Inl e \<Rightarrow> Inl (StateJSON e) | Inr _ \<Rightarrow> Inr ()) = Inr () \<longleftrightarrow>
      ValidateJSON (state_json s) MaxStateBytes = Inr ()"
    by (auto split: sum.splits)
  show ?thesis
    unfolding ValidateBudget_def bindE_eq_Inr countRecords_iff within_budget_def events_of_def
    by (cases "Scheduler s") (auto simp: json ValidateJSON_iff bindE_eq_Inr validateInternalState_iff split: if_splits)
qed

text \<open>The lifecycle of a validated event: which fields each status may carry.\<close>

lemma validSignal_pending: "validateSignalLifecycle e = Inr () \<Longrightarrow> ev_status e = Pending \<Longrightarrow>
    ev_deliveredAt e = [] \<and> ev_canceledAt e = [] \<and> ev_finishedAt e = [] \<and> ev_outcome e = None"
  by (auto simp: validateSignalLifecycle_def Let_def split: if_splits)

lemma validAction_pending: "validateActionLifecycle e = Inr () \<Longrightarrow> ev_status e = Pending \<Longrightarrow>
    ev_deliveredAt e = [] \<and> ev_canceledAt e = [] \<and> ev_finishedAt e = [] \<and> ev_outcome e = None"
  by (auto simp: validateActionLifecycle_def Let_def split: if_splits option.splits)

lemma valid_event_pending: "valid_event n k e \<Longrightarrow> ev_status e = Pending \<Longrightarrow>
    ev_deliveredAt e = [] \<and> ev_canceledAt e = [] \<and> ev_finishedAt e = [] \<and> ev_outcome e = None"
  unfolding valid_event_def using validSignal_pending validAction_pending by blast

section \<open>Reading a state back\<close>

lemma renum_json_JNull [simp]: "renum_json v = JNull \<longleftrightarrow> v = JNull"
  by (cases v) auto

lemma reread_record_None [simp]: "reread_record r = None \<longleftrightarrow> r = None"
  by (simp add: reread_record_def)

lemma reread_event_simps [simp]:
  "ev_id (reread_event e) = ev_id e" "ev_dueAt (reread_event e) = ev_dueAt e"
  "ev_priority (reread_event e) = ev_priority e" "ev_seq (reread_event e) = ev_seq e"
  "ev_kind (reread_event e) = ev_kind e" "ev_status (reread_event e) = ev_status e"
  "ev_attempts (reread_event e) = ev_attempts e" "ev_deliveredAt (reread_event e) = ev_deliveredAt e"
  "ev_finishedAt (reread_event e) = ev_finishedAt e" "ev_canceledAt (reread_event e) = ev_canceledAt e"
  "ev_payload (reread_event e) = renum_json (ev_payload e)"
  "ev_action (reread_event e) = map_option reread_action (ev_action e)"
  "ev_outcome (reread_event e) = map_option reread_outcome (ev_outcome e)"
  by (simp_all add: reread_event_def)

lemma reread_event_valid [simp]: "valid_event n k (reread_event e) = valid_event n k e"
proof -
  have "validateSignalLifecycle (reread_event e) = validateSignalLifecycle e"
    unfolding validateSignalLifecycle_def validateCanceledAt_def reread_event_simps by simp
  moreover have "validateActionLifecycle (reread_event e) = validateActionLifecycle e"
    unfolding validateActionLifecycle_def validateCanceledAt_def validCompleted_def validFailed_def validOutcomeFault_def
      reread_event_simps
    by (cases "ev_action e"; cases "ev_outcome e")
       (simp_all add: reread_action_def reread_outcome_def Let_def cong: if_cong option.case_cong)
  ultimately show ?thesis
    unfolding valid_event_def canonicalDueAt_def reread_event_simps by simp
qed

lemma Clone_simps [simp]:
  "Sequences (Clone s) = Sequences s" "Entropy (Clone s) = Entropy s"
  "events_of (Clone s) = map_vals reread_event (events_of s)"
  by (auto simp: Clone_def events_of_def reread_scheduler_def map_vals_def split: option.splits)

lemma ev_seq_reread: "ev_seq \<circ> reread_event = ev_seq"
  by (simp add: fun_eq_iff)

lemma validateInternalState_Clone: "validateInternalState (Clone s) = Inr () \<longleftrightarrow> validateInternalState s = Inr ()"
  unfolding validateInternalState_iff
  by (cases "Scheduler s") (simp_all add: Clone_def reread_scheduler_def ball_map_vals map_snd_map_vals ev_seq_reread)

text \<open>A state all of whose free-form numbers are exact as \<open>float64\<close> reads back unchanged.\<close>

definition exact_record :: "entity_record \<Rightarrow> bool" where
  "exact_record r = (case r of None \<Rightarrow> True | Some m \<Rightarrow> \<forall>(k, v) \<in> set m. exact_json v)"

definition exact_event :: "scheduled_event \<Rightarrow> bool" where
  "exact_event e \<longleftrightarrow> exact_json (ev_payload e) \<and>
     (case ev_action e of None \<Rightarrow> True | Some a \<Rightarrow> exact_record (act_input a)) \<and>
     (case ev_outcome e of None \<Rightarrow> True | Some out \<Rightarrow> exact_json (out_result out))"

definition exact_state :: "world_state \<Rightarrow> bool" where
  "exact_state s \<longleftrightarrow>
     (\<forall>(n, recs) \<in> set (Entities s). \<forall>(k, r) \<in> set recs. exact_record r) \<and>
     (\<forall>(k, e) \<in> set (events_of s). exact_event e)"

lemma reread_record_exact: "exact_record r \<Longrightarrow> reread_record r = r"
  by (cases r) (auto simp: exact_record_def reread_record_def intro!: map_vals_idI renum_json_exact)

lemma reread_event_exact: "exact_event e \<Longrightarrow> reread_event e = e"
  by (cases "ev_action e"; cases "ev_outcome e")
     (auto simp: exact_event_def reread_event_def reread_action_def reread_outcome_def
        reread_record_exact renum_json_exact)

lemma Clone_exact: "exact_state s \<Longrightarrow> Clone s = s"
proof -
  assume s: "exact_state s"
  have "map_vals (map_vals reread_record) (Entities s) = Entities s"
    using s by (intro map_vals_idI reread_record_exact) (force simp: exact_state_def)
  moreover have "map_option reread_scheduler (Scheduler s) = Scheduler s"
  proof (cases "Scheduler s")
    case (Some sc)
    then have "map_vals reread_event (events sc) = events sc"
      using s by (intro map_vals_idI reread_event_exact) (force simp: exact_state_def events_of_def)
    with Some show ?thesis by (simp add: reread_scheduler_def)
  qed simp
  ultimately show ?thesis by (simp add: Clone_def)
qed

lemma CELValue_hides_scheduler: "CELValue (s\<lparr>Scheduler := x, Entropy := y\<rparr>) = CELValue s"
  by (simp add: CELValue_def)

definition wf_state :: "world_state \<Rightarrow> bool" where
  "wf_state s \<longleftrightarrow>
     wf_map (Entities s) \<and> (\<forall>(k, recs) \<in> set (Entities s). wf_map recs) \<and>
     wf_map (Sequences s) \<and> wf_map (Entropy s) \<and> wf_map (events_of s)"

lemma wf_state_New [simp]: "wf_state New"
  by (simp add: wf_state_def New_def events_of_def)

lemma wf_state_Clone: "wf_state s \<Longrightarrow> wf_state (Clone s)"
  unfolding wf_state_def Clone_simps by (force simp: Clone_def set_map_vals)

end
