(* ===== verification/Store.thy ===== *)
theory Store
  imports World
begin

text \<open>
  \<open>internal/store/store.go\<close>: the SQLite world store. A database is the list of rows of each
  table; an operation is a transaction body that returns an error (and then \<open>defer
  tx.Rollback()\<close> discards its copy) or a result with the database to commit. The store has one
  connection, so transactions do not overlap. The \<open>state_json\<close> column is the state whose
  canonical JSON it holds, and reading it is \<open>Clone\<close> (\<open>json.Unmarshal\<close> after
  \<open>json.Marshal\<close>). The \<open>created_at\<close> columns, which are wall-clock times that no
  operation reads, are left out, and so are I/O errors of the SQL driver.
\<close>

section \<open>Tables\<close>

datatype error =
    ErrBranchNotFound
  | ErrSnapshotNotFound
  | ErrBranchConflict
  | ErrClockRegression
  | ErrClockLimit
  | ErrFaultNotFound
  | ErrFaultInvalid
  | ErrResourceLimit
  | ErrSchedulerNotFound
  | ErrSchedulerInvalid
  | ErrSchedulerConflict
  | ErrSchedulerEmpty
  | ErrSchedulerCursor
  | ErrSchedulerAction
  | ErrInvalidID string
  | ErrSpecDrift string string
  | ErrSQL string
  | ErrClock
  | ErrState world_error
  | ErrOther string
  | ErrPanic string

record branch_row =
  br_id :: string
  br_spec :: string
  br_state :: world_state
  br_digest :: string
  br_clock :: string
  br_calls :: int
  br_head :: int

record snapshot_row =
  sn_id :: string
  sn_name :: string
  sn_spec :: string
  sn_state :: world_state
  sn_digest :: string
  sn_clock :: string
  sn_sourceHead :: int
  sn_schema :: int

record audit_row =
  au_branch :: string
  au_callIndex :: int
  au_tool :: string
  au_input :: string
  au_result :: string
  au_errorClass :: string
  au_before :: string
  au_after :: string

record control_row =
  ca_operation :: string
  ca_branch :: string
  ca_snapshot :: string
  ca_before :: string
  ca_after :: string

record fault_plan =
  fp_id :: string
  fp_branch :: string
  fp_tool :: string
  fp_phase :: string
  fp_errorClass :: string
  fp_message :: string
  fp_remaining :: int
  fp_fired :: int

record fault_event =
  fe_branch :: string
  fe_fault :: string
  fe_callIndex :: int
  fe_phase :: string
  fe_errorClass :: string
  fe_before :: string
  fe_after :: string

record db =
  branches :: "branch_row list"
  snapshots :: "snapshot_row list"
  audit :: "audit_row list"
  control_audit :: "control_row list"
  fault_plans :: "fault_plan list"
  fault_events :: "fault_event list"

definition empty_db :: db where
  "empty_db = \<lparr>branches = [], snapshots = [], audit = [], control_audit = [], fault_plans = [], fault_events = []\<rparr>"

text \<open>The structs the operations return.\<close>

record branch =
  b_id :: string
  b_spec :: string
  b_state :: world_state
  b_digest :: string
  b_clock :: instant
  b_calls :: int
  b_head :: int

record snapshot =
  s_id :: string
  s_name :: string
  s_spec :: string
  s_state :: world_state
  s_digest :: string
  s_clock :: instant
  s_sourceHead :: int
  s_schema :: int

record call_outcome =
  oc_result :: json
  oc_errorClass :: string
  oc_commit :: bool

record apply_result =
  ar_result :: json
  ar_errorClass :: string
  ar_before :: string
  ar_after :: string
  ar_callIndex :: int
  ar_faultID :: string
  ar_faultPhase :: string

definition schemaVersion :: int where "schemaVersion = 4"

definition MaxClockAdvance :: int where "MaxClockAdvance = 10 * 365 * 24 * hour_ns"

abbreviation (input) MaxFaultPlans :: nat where "MaxFaultPlans \<equiv> MaxFaultRules"
abbreviation (input) MaxFaultRepeats :: int where "MaxFaultRepeats \<equiv> 1000"
abbreviation (input) MaxFaultMessage :: nat where "MaxFaultMessage \<equiv> 4096"

definition state_digest :: "world_state \<Rightarrow> string" where
  "state_digest s = canonical_Digest (state_json s)"

definition validateID :: "string \<Rightarrow> string \<Rightarrow> error + unit" where
  "validateID kind v = (if controlIDPattern v then Inr () else Inl (ErrInvalidID kind))"

definition budgetE :: "world_state \<Rightarrow> error + unit" where
  "budgetE s = (case ValidateBudget s of Inl e \<Rightarrow> Inl ErrResourceLimit | Inr _ \<Rightarrow> Inr ())"

text \<open>\<open>%w: ...\<close> around another error: the outer sentinel is what \<open>errors.Is\<close> sees.\<close>

definition wrapE :: "error \<Rightarrow> error + 'a \<Rightarrow> error + 'a" where
  "wrapE e r = (case r of Inl _ \<Rightarrow> Inl e | Inr x \<Rightarrow> Inr x)"

definition appendControlAudit :: "string \<Rightarrow> string \<Rightarrow> string \<Rightarrow> string \<Rightarrow> string \<Rightarrow> db \<Rightarrow> db" where
  "appendControlAudit operation branchID snapshotName beforeDigest afterDigest d =
     d\<lparr>control_audit := control_audit d @
        [\<lparr>ca_operation = operation, ca_branch = branchID, ca_snapshot = snapshotName,
          ca_before = beforeDigest, ca_after = afterDigest\<rparr>]\<rparr>"

text \<open>\<open>UPDATE branches SET ... WHERE id = ? AND head_version = ?\<close> and its row count.\<close>

definition casBranch :: "string \<Rightarrow> int \<Rightarrow> (branch_row \<Rightarrow> branch_row) \<Rightarrow> db \<Rightarrow> nat \<times> db" where
  "casBranch bid head f d =
     (let p = (\<lambda>r. br_id r = bid \<and> br_head r = head)
      in (affected p (branches d),
          d\<lparr>branches := update_where p (\<lambda>r. (f r)\<lparr>br_head := br_head r + 1\<rparr>) (branches d)\<rparr>))"

section \<open>Branches\<close>

definition scanBranch :: "branch_row option \<Rightarrow> error + branch" where
  "scanBranch row =
     (case row of
        None \<Rightarrow> Inl ErrBranchNotFound
      | Some r \<Rightarrow>
          (case parse_nano (br_clock r) of
             None \<Rightarrow> Inl ErrClock
           | Some (clock, _) \<Rightarrow>
               let state = Clone (br_state r) in
               (case ValidateBudget state of
                  Inl e \<Rightarrow> Inl (ErrState e)
                | Inr _ \<Rightarrow> Inr \<lparr>b_id = br_id r, b_spec = br_spec r, b_state = state, b_digest = br_digest r,
                                 b_clock = clock, b_calls = br_calls r, b_head = br_head r\<rparr>)))"

definition branch_where :: "string \<Rightarrow> db \<Rightarrow> branch_row option" where
  "branch_where bid d = find_row (\<lambda>r. br_id r = bid) (branches d)"

definition Branch :: "string \<Rightarrow> db \<Rightarrow> error + branch" where
  "Branch bid d = scanBranch (branch_where bid d)"

definition InitializeBranch :: "string \<Rightarrow> string \<Rightarrow> world_state \<Rightarrow> instant \<Rightarrow> db \<Rightarrow> (error + unit) \<times> db" where
  "InitializeBranch bid specDigest state clock = transaction (\<lambda>d.
     bindE (validateID ''branch ID'' bid) (\<lambda>_.
     bindE (budgetE state) (\<lambda>_.
     if row_exists (\<lambda>r. br_id r = bid) (branches d) then Inr ((), d)
     else if length (branches d) \<ge> MaxForks then Inl ErrResourceLimit
     else Inr ((), d\<lparr>branches := branches d @
            [\<lparr>br_id = bid, br_spec = specDigest, br_state = state, br_digest = state_digest state,
              br_clock = format_nano clock, br_calls = 0, br_head = 0\<rparr>]\<rparr>))))"

text \<open>The optional optimistic check of the caller's \<open>expectedHeadVersion\<close>.\<close>

definition expectHead :: "int option \<Rightarrow> branch \<Rightarrow> error + unit" where
  "expectHead expected b =
     (case expected of None \<Rightarrow> Inr () | Some h \<Rightarrow> if h \<noteq> b_head b then Inl ErrBranchConflict else Inr ())"

section \<open>Fault plans\<close>

definition blank :: "string \<Rightarrow> bool" where
  "blank s \<longleftrightarrow> TrimSpace s = []"

definition validateFaultPlan :: "fault_plan \<Rightarrow> error + unit" where
  "validateFaultPlan plan =
     bindE (wrapE ErrFaultInvalid (validateID ''fault ID'' (fp_id plan))) (\<lambda>_.
     bindE (wrapE ErrFaultInvalid (validateID ''branch ID'' (fp_branch plan))) (\<lambda>_.
     bindE (wrapE ErrFaultInvalid (validateID ''tool name'' (fp_tool plan))) (\<lambda>_.
     if fp_phase plan \<notin> {PhaseBefore, PhaseAfter} then Inl ErrFaultInvalid
     else if fp_errorClass plan \<notin> {''RATE_LIMITED'', ''TIMEOUT_BEFORE_EFFECT'', ''TIMEOUT_AFTER_EFFECT''} then Inl ErrFaultInvalid
     else if fp_phase plan = PhaseBefore \<and> fp_errorClass plan = ''TIMEOUT_AFTER_EFFECT'' then Inl ErrFaultInvalid
     else if fp_phase plan = PhaseAfter \<and> fp_errorClass plan \<noteq> ''TIMEOUT_AFTER_EFFECT'' then Inl ErrFaultInvalid
     else if fp_remaining plan < 1 \<or> fp_remaining plan > MaxFaultRepeats then Inl ErrFaultInvalid
     else if blank (fp_message plan) \<or> length (fp_message plan) > MaxFaultMessage then Inl ErrFaultInvalid
     else Inr ())))"

text \<open>The \<open>CHECK\<close> constraints of table \<open>fault_plans\<close>.\<close>

definition faultRowChecks :: "fault_plan \<Rightarrow> bool" where
  "faultRowChecks r \<longleftrightarrow>
     0 \<le> fp_remaining r \<and> fp_remaining r \<le> 1000 \<and> 0 \<le> fp_fired r \<and> fp_fired r \<le> 1000 \<and>
     1 \<le> fp_remaining r + fp_fired r \<and> fp_remaining r + fp_fired r \<le> 1000 \<and>
     fp_phase r \<in> {PhaseBefore, PhaseAfter} \<and>
     ((fp_phase r = PhaseAfter \<and> fp_errorClass r = ''TIMEOUT_AFTER_EFFECT'') \<or>
      (fp_phase r = PhaseBefore \<and> fp_errorClass r \<in> {''RATE_LIMITED'', ''TIMEOUT_BEFORE_EFFECT''}))"

definition InstallFault :: "fault_plan \<Rightarrow> int option \<Rightarrow> db \<Rightarrow> (error + fault_plan) \<times> db" where
  "InstallFault plan expectedHead = transaction (\<lambda>d.
     bindE (validateFaultPlan plan) (\<lambda>_.
     bindE (scanBranch (branch_where (fp_branch plan) d)) (\<lambda>b.
     bindE (expectHead expectedHead b) (\<lambda>_.
     if affected (\<lambda>r. fp_branch r = fp_branch plan) (fault_plans d) \<ge> MaxFaultPlans then Inl ErrFaultInvalid
     else if row_exists (\<lambda>r. fp_branch r = fp_branch plan \<and> fp_id r = fp_id plan) (fault_plans d) then Inl ErrFaultInvalid
     else
       let row = plan\<lparr>fp_fired := 0\<rparr> in
       if \<not> faultRowChecks row then Inl (ErrSQL ''install fault plan'')
       else
         let d1 = d\<lparr>fault_plans := fault_plans d @ [row]\<rparr>;
             (rows, d2) = casBranch (fp_branch plan) (b_head b) id d1
         in if rows \<noteq> 1 then Inl ErrBranchConflict
            else Inr (plan, appendControlAudit ''fault.install'' (fp_branch plan) (fp_id plan) (b_digest b) (b_digest b) d2)))))"

definition RemoveFault :: "string \<Rightarrow> string \<Rightarrow> int option \<Rightarrow> db \<Rightarrow> (error + unit) \<times> db" where
  "RemoveFault branchID faultID expectedHead = transaction (\<lambda>d.
     bindE (validateID ''branch ID'' branchID) (\<lambda>_.
     bindE (validateID ''fault ID'' faultID) (\<lambda>_.
     bindE (scanBranch (branch_where branchID d)) (\<lambda>b.
     bindE (expectHead expectedHead b) (\<lambda>_.
       let p = (\<lambda>r. fp_branch r = branchID \<and> fp_id r = faultID);
           removed = affected p (fault_plans d);
           d1 = d\<lparr>fault_plans := filter (\<lambda>r. \<not> p r) (fault_plans d)\<rparr>
       in if removed \<noteq> 1 then Inl ErrFaultNotFound
          else
            let (updated, d2) = casBranch branchID (b_head b) id d1
            in if updated \<noteq> 1 then Inl ErrBranchConflict
               else Inr ((), appendControlAudit ''fault.remove'' branchID faultID (b_digest b) (b_digest b) d2))))))"

definition FaultPlans :: "string \<Rightarrow> db \<Rightarrow> error + fault_plan list" where
  "FaultPlans branchID d =
     bindE (Branch branchID d) (\<lambda>_.
       Inr (sort_key fp_id (filter (\<lambda>r. fp_branch r = branchID) (fault_plans d))))"

definition FaultPlanDigest :: "string \<Rightarrow> db \<Rightarrow> error + string" where
  "FaultPlanDigest branchID d =
     bindE (FaultPlans branchID d) (\<lambda>plans.
       Inr (canonical_Digest (JObj [
         (''format'', JStr ''statetwin.dev/fault-plan/v1alpha1''),
         (''plans'', JArr (map (\<lambda>plan. JObj [
             (''id'', JStr (fp_id plan)), (''toolName'', JStr (fp_tool plan)), (''phase'', JStr (fp_phase plan)),
             (''errorClass'', JStr (fp_errorClass plan)), (''message'', JStr (fp_message plan)),
             (''repeatCount'', JNum (fp_remaining plan + fp_fired plan))]) plans))])))"

definition FaultEvents :: "string \<Rightarrow> db \<Rightarrow> error + fault_event list" where
  "FaultEvents branchID d =
     bindE (Branch branchID d) (\<lambda>_. Inr (filter (\<lambda>e. fe_branch e = branchID) (fault_events d)))"

text \<open>\<open>SET remaining_count = remaining_count - 1, fired_count = fired_count + 1\<close>, and its \<open>WHERE\<close>.\<close>

definition spend :: "fault_plan \<Rightarrow> fault_plan" where
  "spend r = r\<lparr>fp_remaining := fp_remaining r - 1, fp_fired := fp_fired r + 1\<rparr>"

definition is_plan :: "fault_plan \<Rightarrow> fault_plan \<Rightarrow> bool" where
  "is_plan p r \<longleftrightarrow> fp_branch r = fp_branch p \<and> fp_id r = fp_id p \<and> fp_remaining r = fp_remaining p"

definition armedFaults :: "string \<Rightarrow> string \<Rightarrow> string \<Rightarrow> db \<Rightarrow> fault_plan list" where
  "armedFaults branchID toolName phase d =
     sort_key fp_id (filter (\<lambda>r. fp_branch r = branchID \<and> fp_tool r = toolName \<and> fp_phase r = phase \<and> fp_remaining r > 0)
       (fault_plans d))"

definition takeFault :: "string \<Rightarrow> string \<Rightarrow> string \<Rightarrow> db \<Rightarrow> error + fault_plan option \<times> db" where
  "takeFault branchID toolName phase d =
     (case armedFaults branchID toolName phase d of
        [] \<Rightarrow> Inr (None, d)
      | plan # _ \<Rightarrow>
          if affected (is_plan plan) (fault_plans d) \<noteq> 1 then Inl (ErrOther ''consume fault plan atomically'')
          else Inr (Some (spend plan), d\<lparr>fault_plans := update_where (is_plan plan) spend (fault_plans d)\<rparr>))"

definition error_json :: "string \<Rightarrow> string \<Rightarrow> json" where
  "error_json code message = JObj [(''error'', JObj [(''code'', JStr code), (''message'', JStr message)])]"

definition faultOutcome :: "fault_plan \<Rightarrow> bool \<Rightarrow> call_outcome" where
  "faultOutcome plan commit =
     \<lparr>oc_result = error_json (fp_errorClass plan) (fp_message plan), oc_errorClass = fp_errorClass plan, oc_commit = commit\<rparr>"

section \<open>Tool calls\<close>

text \<open>
  The runtime's callback: from the cloned state, the branch clock and the call index to the
  state it leaves behind and the outcome, or an error.
\<close>

type_synonym call_apply = "world_state \<Rightarrow> instant \<Rightarrow> int \<Rightarrow> error + world_state \<times> call_outcome"

text \<open>
  The fault protocol around the callback: a plan of the first phase replaces the call, a plan
  of the second phase replaces the response of a call that succeeded.
\<close>

definition faultedApply ::
  "string \<Rightarrow> string \<Rightarrow> world_state \<Rightarrow> (world_state \<Rightarrow> error + world_state \<times> call_outcome) \<Rightarrow> db \<Rightarrow>
     error + (world_state \<times> call_outcome \<times> fault_plan option) \<times> db" where
  "faultedApply branchID toolName working apply_fn d =
     bindE (takeFault branchID toolName PhaseBefore d) (\<lambda>(fired, d1).
       case fired of
         Some f \<Rightarrow> Inr ((working, faultOutcome f False, Some f), d1)
       | None \<Rightarrow>
           bindE (apply_fn working) (\<lambda>(working', outcome).
             if oc_errorClass outcome = [] then
               bindE (takeFault branchID toolName PhaseAfter d1) (\<lambda>(fired', d2).
                 case fired' of
                   Some f \<Rightarrow> Inr ((working', faultOutcome f True, Some f), d2)
                 | None \<Rightarrow> Inr ((working', outcome, None), d2))
             else Inr ((working', outcome, None), d1)))"

definition appendToolAudit ::
  "string \<Rightarrow> int \<Rightarrow> string \<Rightarrow> json \<Rightarrow> call_outcome \<Rightarrow> string \<Rightarrow> string \<Rightarrow> db \<Rightarrow> error + db" where
  "appendToolAudit branchID callIndex toolName input outcome beforeDigest afterDigest d =
     (let resultJSON = canonical_JSON (oc_result outcome); inputJSON = canonical_JSON input
      in if length inputJSON + length resultJSON > MaxAuditEventBytes then Inl ErrResourceLimit
         else Inr (d\<lparr>audit := audit d @
           [\<lparr>au_branch = branchID, au_callIndex = callIndex, au_tool = toolName, au_input = inputJSON,
             au_result = resultJSON, au_errorClass = oc_errorClass outcome,
             au_before = beforeDigest, au_after = afterDigest\<rparr>]\<rparr>))"

definition appendFaultEvent :: "string \<Rightarrow> int \<Rightarrow> fault_plan \<Rightarrow> string \<Rightarrow> string \<Rightarrow> db \<Rightarrow> db" where
  "appendFaultEvent branchID callIndex fired beforeDigest afterDigest d =
     d\<lparr>fault_events := fault_events d @
        [\<lparr>fe_branch = branchID, fe_fault = fp_id fired, fe_callIndex = callIndex, fe_phase = fp_phase fired,
          fe_errorClass = fp_errorClass fired, fe_before = beforeDigest, fe_after = afterDigest\<rparr>]\<rparr>"

definition ApplyCall ::
  "string \<Rightarrow> string \<Rightarrow> string \<Rightarrow> json \<Rightarrow> call_apply \<Rightarrow> db \<Rightarrow> (error + apply_result) \<times> db" where
  "ApplyCall branchID expectedSpecDigest toolName input apply_fn = transaction (\<lambda>d.
     bindE (case ValidateJSON input MaxInputBytes of Inl _ \<Rightarrow> Inl ErrResourceLimit | Inr _ \<Rightarrow> Inr ()) (\<lambda>_.
     bindE (scanBranch (branch_where branchID d)) (\<lambda>b.
     if b_spec b \<noteq> expectedSpecDigest then Inl (ErrSpecDrift (b_spec b) expectedSpecDigest)
     else
       let callIndex = b_calls b + 1 in
       bindE (faultedApply branchID toolName (Clone (b_state b)) (\<lambda>w. apply_fn w (b_clock b) callIndex) d)
         (\<lambda>((working', outcome, fired), d1).
       let working = (if oc_commit outcome then working' else b_state b) in
       bindE (budgetE working) (\<lambda>_.
       let afterDigest = state_digest working in
       bindE (appendToolAudit branchID callIndex toolName input outcome (b_digest b) afterDigest d1) (\<lambda>d2.
       let (updated, d3) = casBranch branchID (b_head b)
             (\<lambda>r. r\<lparr>br_state := working, br_digest := afterDigest, br_calls := callIndex\<rparr>) d2
       in if updated \<noteq> 1 then Inl ErrBranchConflict
          else Inr (\<lparr>ar_result = oc_result outcome, ar_errorClass = oc_errorClass outcome,
                     ar_before = b_digest b, ar_after = afterDigest, ar_callIndex = callIndex,
                     ar_faultID = (case fired of None \<Rightarrow> [] | Some f \<Rightarrow> fp_id f),
                     ar_faultPhase = (case fired of None \<Rightarrow> [] | Some f \<Rightarrow> fp_phase f)\<rparr>,
                    (case fired of None \<Rightarrow> d3
                     | Some f \<Rightarrow> appendFaultEvent branchID callIndex f (b_digest b) afterDigest d3))))))))"

section \<open>Snapshots\<close>

definition snapshot_where :: "string \<Rightarrow> db \<Rightarrow> snapshot_row option" where
  "snapshot_where name d = find_row (\<lambda>r. sn_name r = name) (snapshots d)"

definition scanSnapshot :: "snapshot_row option \<Rightarrow> error + snapshot" where
  "scanSnapshot row =
     (case row of
        None \<Rightarrow> Inl ErrSnapshotNotFound
      | Some r \<Rightarrow>
          (case parse_nano (sn_clock r) of
             None \<Rightarrow> Inl ErrClock
           | Some (clock, _) \<Rightarrow>
               let state = Clone (sn_state r) in
               (case ValidateBudget state of
                  Inl e \<Rightarrow> Inl (ErrState e)
                | Inr _ \<Rightarrow> Inr \<lparr>s_id = sn_id r, s_name = sn_name r, s_spec = sn_spec r, s_state = state,
                                 s_digest = sn_digest r, s_clock = clock, s_sourceHead = sn_sourceHead r,
                                 s_schema = sn_schema r\<rparr>)))"

definition snapshot_id :: "string \<Rightarrow> branch \<Rightarrow> string" where
  "snapshot_id name b = canonical_Digest (JObj [
     (''name'', JStr name), (''specDigest'', JStr (b_spec b)), (''stateDigest'', JStr (b_digest b)),
     (''clock'', JStr (format_nano (b_clock b))), (''sourceHeadVersion'', JNum (b_head b)),
     (''storageSchemaVersion'', JNum schemaVersion)])"

definition CreateSnapshot :: "string \<Rightarrow> string \<Rightarrow> db \<Rightarrow> (error + snapshot) \<times> db" where
  "CreateSnapshot name branchID = transaction (\<lambda>d.
     bindE (validateID ''snapshot name'' name) (\<lambda>_.
     if length (snapshots d) \<ge> MaxSnapshots then Inl ErrResourceLimit
     else
     bindE (scanBranch (branch_where branchID d)) (\<lambda>b.
       let sid = snapshot_id name b in
       if row_exists (\<lambda>r. sn_id r = sid \<or> sn_name r = name) (snapshots d) then Inl (ErrSQL ''create snapshot'')
       else
         let d1 = d\<lparr>snapshots := snapshots d @
               [\<lparr>sn_id = sid, sn_name = name, sn_spec = b_spec b, sn_state = b_state b, sn_digest = b_digest b,
                 sn_clock = format_nano (b_clock b), sn_sourceHead = b_head b, sn_schema = schemaVersion\<rparr>]\<rparr>
         in Inr (\<lparr>s_id = sid, s_name = name, s_spec = b_spec b, s_state = b_state b, s_digest = b_digest b,
                  s_clock = b_clock b, s_sourceHead = b_head b, s_schema = schemaVersion\<rparr>,
                 appendControlAudit ''snapshot.create'' branchID name (b_digest b) (b_digest b) d1))))"

definition Fork :: "string \<Rightarrow> string \<Rightarrow> db \<Rightarrow> (error + unit) \<times> db" where
  "Fork snapshotName branchID = transaction (\<lambda>d.
     bindE (validateID ''branch ID'' branchID) (\<lambda>_.
     if length (branches d) \<ge> MaxForks then Inl ErrResourceLimit
     else
     bindE (scanSnapshot (snapshot_where snapshotName d)) (\<lambda>s.
       if row_exists (\<lambda>r. br_id r = branchID) (branches d) then Inl (ErrSQL ''fork snapshot'')
       else
         let d1 = d\<lparr>branches := branches d @
               [\<lparr>br_id = branchID, br_spec = s_spec s, br_state = s_state s, br_digest = s_digest s,
                 br_clock = format_nano (s_clock s), br_calls = 0, br_head = 0\<rparr>]\<rparr>
         in Inr ((), appendControlAudit ''branch.fork'' branchID snapshotName [] (s_digest s) d1))))"

definition Reset :: "string \<Rightarrow> string \<Rightarrow> db \<Rightarrow> (error + unit) \<times> db" where
  "Reset snapshotName branchID = transaction (\<lambda>d.
     bindE (validateID ''branch ID'' branchID) (\<lambda>_.
     bindE (scanSnapshot (snapshot_where snapshotName d)) (\<lambda>s.
     bindE (scanBranch (branch_where branchID d)) (\<lambda>b.
       let (count, d1) = casBranch branchID (b_head b)
             (\<lambda>r. r\<lparr>br_spec := s_spec s, br_state := s_state s, br_digest := s_digest s,
                    br_clock := format_nano (s_clock s), br_calls := 0\<rparr>) d
       in if count = 0 then Inl ErrBranchConflict
          else Inr ((), appendControlAudit ''branch.reset'' branchID snapshotName (b_digest b) (s_digest s) d1)))))"

definition ControlAudit :: "db \<Rightarrow> (nat \<times> control_row) list" where
  "ControlAudit d = zip [1..<Suc (length (control_audit d))] (control_audit d)"

section \<open>The operations change only what they say\<close>

text \<open>What the bookkeeping helpers leave alone.\<close>

lemma appendControlAudit_simps [simp]:
  "branches (appendControlAudit o1 b n x y d) = branches d"
  "snapshots (appendControlAudit o1 b n x y d) = snapshots d"
  "audit (appendControlAudit o1 b n x y d) = audit d"
  "fault_plans (appendControlAudit o1 b n x y d) = fault_plans d"
  "fault_events (appendControlAudit o1 b n x y d) = fault_events d"
  "control_audit (appendControlAudit o1 b n x y d) = control_audit d @
     [\<lparr>ca_operation = o1, ca_branch = b, ca_snapshot = n, ca_before = x, ca_after = y\<rparr>]"
  by (simp_all add: appendControlAudit_def)

lemma appendFaultEvent_simps [simp]:
  "branches (appendFaultEvent b c f x y d) = branches d"
  "snapshots (appendFaultEvent b c f x y d) = snapshots d"
  "audit (appendFaultEvent b c f x y d) = audit d"
  "fault_plans (appendFaultEvent b c f x y d) = fault_plans d"
  "control_audit (appendFaultEvent b c f x y d) = control_audit d"
  "fault_events (appendFaultEvent b c f x y d) = fault_events d @
     [\<lparr>fe_branch = b, fe_fault = fp_id f, fe_callIndex = c, fe_phase = fp_phase f,
       fe_errorClass = fp_errorClass f, fe_before = x, fe_after = y\<rparr>]"
  by (simp_all add: appendFaultEvent_def)

lemma appendToolAudit_Inr:
  assumes "appendToolAudit b c t i out x y d = Inr d'"
  shows "d' = d\<lparr>audit := audit d @
     [\<lparr>au_branch = b, au_callIndex = c, au_tool = t, au_input = canonical_JSON i,
       au_result = canonical_JSON (oc_result out), au_errorClass = oc_errorClass out, au_before = x, au_after = y\<rparr>]\<rparr>"
    "length (canonical_JSON i) + length (canonical_JSON (oc_result out)) \<le> MaxAuditEventBytes"
  using assms by (auto simp: appendToolAudit_def Let_def split: if_splits)

lemma scanBranch_Inr:
  assumes "scanBranch row = Inr b"
  obtains r t u where "row = Some r" "parse_nano (br_clock r) = Some (t, u)" "within_budget (Clone (br_state r))"
    "b = \<lparr>b_id = br_id r, b_spec = br_spec r, b_state = Clone (br_state r), b_digest = br_digest r,
          b_clock = t, b_calls = br_calls r, b_head = br_head r\<rparr>"
  using assms unfolding scanBranch_def Let_def ValidateBudget_iff [symmetric]
  by (auto split: option.splits sum.splits prod.splits)

lemma scanSnapshot_Inr:
  assumes "scanSnapshot row = Inr s"
  obtains r t u where "row = Some r" "parse_nano (sn_clock r) = Some (t, u)" "within_budget (Clone (sn_state r))"
    "s = \<lparr>s_id = sn_id r, s_name = sn_name r, s_spec = sn_spec r, s_state = Clone (sn_state r),
          s_digest = sn_digest r, s_clock = t, s_sourceHead = sn_sourceHead r, s_schema = sn_schema r\<rparr>"
  using assms unfolding scanSnapshot_def Let_def ValidateBudget_iff [symmetric]
  by (auto split: option.splits sum.splits prod.splits)

lemma casBranch_simps [simp]:
  "snapshots (snd (casBranch i h f d)) = snapshots d"
  "audit (snd (casBranch i h f d)) = audit d"
  "control_audit (snd (casBranch i h f d)) = control_audit d"
  "fault_plans (snd (casBranch i h f d)) = fault_plans d"
  "fault_events (snd (casBranch i h f d)) = fault_events d"
  by (simp_all add: casBranch_def Let_def)

lemma set_armedFaults: "r \<in> set (armedFaults b t ph d) \<longleftrightarrow>
    r \<in> set (fault_plans d) \<and> fp_branch r = b \<and> fp_tool r = t \<and> fp_phase r = ph \<and> 0 < fp_remaining r"
  by (auto simp: armedFaults_def)

lemma takeFault_Inr:
  assumes "takeFault b t ph d = Inr (res, d')"
  obtains (none) "res = None" "d' = d" "armedFaults b t ph d = []"
  | (fired) plan ps where "armedFaults b t ph d = plan # ps" "res = Some (spend plan)"
      "affected (is_plan plan) (fault_plans d) = 1"
      "d' = d\<lparr>fault_plans := update_where (is_plan plan) spend (fault_plans d)\<rparr>"
proof (cases "armedFaults b t ph d")
  case Nil
  then show ?thesis using assms none by (simp add: takeFault_def)
next
  case (Cons plan ps)
  then have eq: "takeFault b t ph d =
      (if affected (is_plan plan) (fault_plans d) \<noteq> 1 then Inl (ErrOther ''consume fault plan atomically'')
       else Inr (Some (spend plan), d\<lparr>fault_plans := update_where (is_plan plan) spend (fault_plans d)\<rparr>))"
    unfolding takeFault_def by simp
  have "affected (is_plan plan) (fault_plans d) = 1"
  proof (rule ccontr)
    assume "affected (is_plan plan) (fault_plans d) \<noteq> 1"
    with eq assms show False by simp
  qed
  then show ?thesis
    using eq assms Cons by (intro fired [of plan ps]) simp_all
qed

end
