(* ===== verification/Scheduler.thy ===== *)
theory Scheduler
  imports Store
begin

text \<open>
  \<open>internal/store/scheduler.go\<close> and the clock operations of \<open>store.go\<close>: the
  deterministic queue, its delivery order, paging, cancellation and the two ways the virtual
  clock moves. A page cursor is the decoded structure; its base64url text is left out.
\<close>

section \<open>Order of the queue\<close>

definition event_less :: "scheduled_event \<Rightarrow> scheduled_event \<Rightarrow> bool" where
  "event_less e1 e2 =
     (if ev_dueAt e1 \<noteq> ev_dueAt e2 then
        (case (DueTime e1, DueTime e2) of
           (Some l, Some r) \<Rightarrow> if l \<noteq> r then l < r else ev_dueAt e1 < ev_dueAt e2
         | _ \<Rightarrow> ev_dueAt e1 < ev_dueAt e2)
      else if ev_priority e1 \<noteq> ev_priority e2 then ev_priority e1 > ev_priority e2
      else if ev_seq e1 \<noteq> ev_seq e2 then ev_seq e1 < ev_seq e2
      else ev_id e1 < ev_id e2)"

definition scheduledEvents :: "world_state \<Rightarrow> scheduled_event list" where
  "scheduledEvents s = sort_by event_less (vals (events_of s))"

definition pendingScheduledEvents :: "world_state \<Rightarrow> scheduled_event list" where
  "pendingScheduledEvents s = filter (\<lambda>e. ev_status e = Pending) (scheduledEvents s)"

fun batch_loop :: "string \<Rightarrow> nat \<Rightarrow> nat \<Rightarrow> scheduled_event list \<Rightarrow> nat \<times> nat" where
  "batch_loop dueAt n actions [] = (n, actions)"
| "batch_loop dueAt n actions (e # es) =
     (if ev_dueAt e = dueAt \<and> n < MaxScheduledDelivery then
        if ev_kind e = KindAction then
          if actions \<ge> MaxScheduledActions then (n, actions)
          else batch_loop dueAt (n + 1) (actions + 1) es
        else batch_loop dueAt (n + 1) actions es
      else (n, actions))"

definition scheduledBatchSize :: "scheduled_event list \<Rightarrow> nat \<times> nat" where
  "scheduledBatchSize pending =
     (case pending of [] \<Rightarrow> (0, 0) | e # _ \<Rightarrow> batch_loop (ev_dueAt e) 0 0 pending)"

definition schedulerDigest :: "world_state \<Rightarrow> string" where
  "schedulerDigest s = canonical_Digest (JObj (
     [(''format'', JStr ''statetwin.dev/scheduler-state/v1alpha1''), (''policy'', JStr ''deterministic-queue-v2'')] @
     (case Scheduler s of None \<Rightarrow> [] | Some sc \<Rightarrow> [(''state'', scheduler_json sc)])))"

definition set_event :: "scheduled_event \<Rightarrow> world_state \<Rightarrow> world_state" where
  "set_event e s = (let sc = EnsureScheduler s in s\<lparr>Scheduler := Some (sc\<lparr>events := put (ev_id e) e (events sc)\<rparr>)\<rparr>)"

section \<open>Scheduling and cancelling\<close>

record schedule_request =
  rq_id :: string
  rq_branch :: string
  rq_dueAt :: string
  rq_priority :: int
  rq_kind :: string
  rq_payload :: json
  rq_action :: "scheduled_action option"

definition jsonE :: "error \<Rightarrow> json \<Rightarrow> nat \<Rightarrow> error + unit" where
  "jsonE e v n = (case ValidateJSON v n of Inl _ \<Rightarrow> Inl e | Inr _ \<Rightarrow> Inr ())"

text \<open>The checks of a request that do not need the branch.\<close>

definition validateRequest :: "schedule_request \<Rightarrow> error + instant" where
  "validateRequest request =
     bindE (wrapE ErrSchedulerInvalid (validateID ''scheduled event id'' (rq_id request))) (\<lambda>_.
     bindE (wrapE ErrSchedulerInvalid (validateID ''branch id'' (rq_branch request))) (\<lambda>_.
     bindE
       (if rq_kind request = KindSignal then
          guardE (rq_action request \<noteq> None) ErrSchedulerInvalid
        else if rq_kind request = KindAction then
          (case rq_action request of
             None \<Rightarrow> Inl ErrSchedulerInvalid
           | Some a \<Rightarrow>
               if rq_payload request \<noteq> JNull \<or> \<not> toolNamePattern (act_tool a) \<or> act_input a = None \<or>
                  \<not> digestPattern (act_specDigest a) then Inl ErrSchedulerInvalid
               else jsonE ErrSchedulerInvalid (record_json (act_input a)) MaxInputBytes)
        else Inl ErrSchedulerInvalid) (\<lambda>_.
     bindE (guardE (rq_priority request < -1000 \<or> rq_priority request > 1000) ErrSchedulerInvalid) (\<lambda>_.
     bindE (jsonE ErrSchedulerInvalid (rq_payload request) MaxInputBytes) (\<lambda>_.
     case parse_nano (rq_dueAt request) of
       None \<Rightarrow> Inl ErrSchedulerInvalid
     | Some (dueAt, _) \<Rightarrow> Inr dueAt)))))"

definition saveState :: "string \<Rightarrow> string \<Rightarrow> branch \<Rightarrow> world_state \<Rightarrow> db \<Rightarrow> error + db" where
  "saveState operation branchID b state d =
     (let (updated, d1) = casBranch branchID (b_head b) (\<lambda>r. r\<lparr>br_state := state, br_digest := state_digest state\<rparr>) d
      in if updated \<noteq> 1 then Inl ErrBranchConflict
         else Inr (appendControlAudit operation branchID [] (b_digest b) (state_digest state) d1))"

definition maxInt64 :: int where "maxInt64 = 2 ^ 63 - 1"

definition ScheduleEvent :: "schedule_request \<Rightarrow> int option \<Rightarrow> db \<Rightarrow> (error + scheduled_event) \<times> db" where
  "ScheduleEvent request expectedHead = transaction (\<lambda>d.
     bindE (validateRequest request) (\<lambda>dueAt.
     bindE (scanBranch (branch_where (rq_branch request) d)) (\<lambda>b.
     bindE (expectHead expectedHead b) (\<lambda>_.
     bindE (guardE (rq_kind request = KindAction \<and> map_option act_specDigest (rq_action request) \<noteq> Some (b_spec b)) ErrSchedulerConflict) (\<lambda>_.
     bindE (guardE (\<not> b_clock b < dueAt) ErrSchedulerInvalid) (\<lambda>_.
     bindE (guardE (dueAt - b_clock b > MaxClockAdvance) ErrSchedulerInvalid) (\<lambda>_.
     let scheduler = EnsureScheduler (b_state b); due = format_nano dueAt in
     bindE (guardE (has (events scheduler) (rq_id request)) ErrSchedulerConflict) (\<lambda>_.
     bindE (guardE (length (events scheduler) \<ge> MaxScheduledEvents) ErrResourceLimit) (\<lambda>_.
     bindE (guardE (length (filter (\<lambda>e. ev_status e = Pending \<and> ev_dueAt e = due) (vals (events scheduler))) \<ge> MaxScheduledAtInstant) ErrResourceLimit) (\<lambda>_.
     bindE (guardE (nextCreationSequence scheduler = maxInt64) ErrSchedulerInvalid) (\<lambda>_.
     let next = nextCreationSequence scheduler + 1;
         event = \<lparr>ev_id = rq_id request, ev_dueAt = due, ev_priority = rq_priority request, ev_seq = next,
                  ev_kind = rq_kind request, ev_payload = rq_payload request, ev_action = rq_action request,
                  ev_outcome = None, ev_attempts = 0, ev_status = Pending, ev_deliveredAt = [],
                  ev_finishedAt = [], ev_canceledAt = []\<rparr>;
         state = (b_state b)\<lparr>Scheduler := Some \<lparr>nextCreationSequence = next, events = put (rq_id request) event (events scheduler)\<rparr>\<rparr>
     in
     bindE (budgetE state) (\<lambda>_.
     bindE (saveState ''scheduler.event.create'' (rq_branch request) b state d) (\<lambda>d1.
     Inr (event, d1))))))))))))))"

definition CancelScheduledEvent :: "string \<Rightarrow> string \<Rightarrow> int option \<Rightarrow> db \<Rightarrow> (error + scheduled_event) \<times> db" where
  "CancelScheduledEvent branchID eventID expectedHead = transaction (\<lambda>d.
     bindE (wrapE ErrSchedulerInvalid (validateID ''branch id'' branchID)) (\<lambda>_.
     bindE (wrapE ErrSchedulerInvalid (validateID ''scheduled event id'' eventID)) (\<lambda>_.
     bindE (scanBranch (branch_where branchID d)) (\<lambda>b.
     bindE (expectHead expectedHead b) (\<lambda>_.
     case map_of (events_of (b_state b)) eventID of
       None \<Rightarrow> Inl ErrSchedulerNotFound
     | Some event \<Rightarrow>
         if ev_status event \<noteq> Pending then Inl ErrSchedulerConflict
         else
           let event' = event\<lparr>ev_status := Canceled, ev_canceledAt := format_nano (b_clock b)\<rparr>;
               sc = EnsureScheduler (b_state b);
               state = (b_state b)\<lparr>Scheduler := Some (sc\<lparr>events := put eventID event' (events sc)\<rparr>)\<rparr>
           in bindE (saveState ''scheduler.event.cancel'' branchID b state d) (\<lambda>d1. Inr (event', d1)))))))"

section \<open>Paging\<close>

record scheduler_cursor =
  cu_branch :: string
  cu_head :: int
  cu_digest :: string
  cu_status :: string
  cu_dueAt :: string
  cu_priority :: int
  cu_seq :: int
  cu_id :: string

record event_query =
  q_branch :: string
  q_status :: string
  q_limit :: int
  q_cursor :: "scheduler_cursor option"

record event_page =
  pg_branch :: string
  pg_head :: int
  pg_digest :: string
  pg_status :: string
  pg_events :: "scheduled_event list"
  pg_next :: "scheduler_cursor option"

definition validSchedulerStatusFilter :: "string \<Rightarrow> bool" where
  "validSchedulerStatusFilter status \<longleftrightarrow> status \<in> {[], Pending, Delivered, Canceled, Completed, Failed}"

definition schedulerCursorForEvent :: "string \<Rightarrow> int \<Rightarrow> string \<Rightarrow> string \<Rightarrow> scheduled_event \<Rightarrow> scheduler_cursor" where
  "schedulerCursorForEvent branchID head digest status event =
     \<lparr>cu_branch = branchID, cu_head = head, cu_digest = digest, cu_status = status, cu_dueAt = ev_dueAt event,
      cu_priority = ev_priority event, cu_seq = ev_seq event, cu_id = ev_id event\<rparr>"

definition cursorMatchesEvent :: "scheduler_cursor \<Rightarrow> scheduled_event \<Rightarrow> bool" where
  "cursorMatchesEvent c e \<longleftrightarrow>
     cu_dueAt c = ev_dueAt e \<and> cu_priority c = ev_priority e \<and> cu_seq c = ev_seq e \<and> cu_id c = ev_id e"

fun find_boundary :: "scheduler_cursor \<Rightarrow> nat \<Rightarrow> scheduled_event list \<Rightarrow> nat option" where
  "find_boundary c index [] = None"
| "find_boundary c index (e # es) = (if cursorMatchesEvent c e then Some (index + 1) else find_boundary c (index + 1) es)"

definition ScheduledEventPage :: "event_query \<Rightarrow> db \<Rightarrow> error + event_page" where
  "ScheduledEventPage query d =
     bindE (wrapE ErrSchedulerInvalid (validateID ''branch id'' (q_branch query))) (\<lambda>_.
     bindE (guardE (\<not> validSchedulerStatusFilter (q_status query)) ErrSchedulerInvalid) (\<lambda>_.
     bindE (guardE (q_limit query < 1 \<or> q_limit query > int MaxSchedulerPageSize) ErrSchedulerInvalid) (\<lambda>_.
     bindE (Branch (q_branch query) d) (\<lambda>b.
     let digest = schedulerDigest (b_state b);
         filtered = filter (\<lambda>e. q_status query = [] \<or> ev_status e = q_status query) (scheduledEvents (b_state b))
     in
     bindE
       (case q_cursor query of
          None \<Rightarrow> Inr 0
        | Some c \<Rightarrow>
            if cu_branch c \<noteq> q_branch query \<or> cu_head c \<noteq> b_head b \<or> cu_digest c \<noteq> digest \<or> cu_status c \<noteq> q_status query
            then Inl ErrSchedulerConflict
            else (case find_boundary c 0 filtered of None \<Rightarrow> Inl ErrSchedulerConflict | Some i \<Rightarrow> Inr i)) (\<lambda>start.
     let end' = min (start + nat (q_limit query)) (length filtered);
         pageEvents = take (end' - start) (drop start filtered)
     in Inr \<lparr>pg_branch = q_branch query, pg_head = b_head b, pg_digest = digest, pg_status = q_status query,
             pg_events = pageEvents,
             pg_next = (if end' < length filtered
                        then Some (schedulerCursorForEvent (q_branch query) (b_head b) digest (q_status query) (last pageEvents))
                        else None)\<rparr>)))))"

record next_due_batch =
  nd_clock :: string
  nd_head :: int
  nd_digest :: string
  nd_dueAt :: string
  nd_pendingAtDueAt :: nat
  nd_pendingActions :: nat
  nd_batchSize :: nat
  nd_batchActions :: nat
  nd_requiresDrain :: bool

definition NextDueBatch :: "string \<Rightarrow> db \<Rightarrow> error + next_due_batch" where
  "NextDueBatch branchID d =
     bindE (wrapE ErrSchedulerInvalid (validateID ''branch id'' branchID)) (\<lambda>_.
     bindE (Branch branchID d) (\<lambda>b.
     case pendingScheduledEvents (b_state b) of
       [] \<Rightarrow> Inl ErrSchedulerEmpty
     | e # es \<Rightarrow>
         let due = takeWhile (\<lambda>x. ev_dueAt x = ev_dueAt e) (e # es);
             (batchSize, batchActions) = scheduledBatchSize (e # es)
         in Inr \<lparr>nd_clock = format_nano (b_clock b), nd_head = b_head b, nd_digest = schedulerDigest (b_state b),
                 nd_dueAt = ev_dueAt e, nd_pendingAtDueAt = length due,
                 nd_pendingActions = length (filter (\<lambda>x. ev_kind x = KindAction) due),
                 nd_batchSize = batchSize, nd_batchActions = batchActions,
                 nd_requiresDrain = (length due > batchSize)\<rparr>))"

section \<open>Moving the clock\<close>

text \<open>
  \<open>AdvanceClock\<close> jumps to a target instant and delivers every signal due by then. The loop
  over the sorted queue stops with an error at the first due action.
\<close>

fun collectDue :: "instant \<Rightarrow> scheduled_event list \<Rightarrow> error + scheduled_event list" where
  "collectDue target [] = Inr []"
| "collectDue target (e # es) =
     (if ev_status e \<noteq> Pending then collectDue target es
      else case DueTime e of
        None \<Rightarrow> Inl ErrSchedulerInvalid
      | Some dueAt \<Rightarrow>
          if target < dueAt then collectDue target es
          else if ev_kind e = KindAction then Inl ErrSchedulerAction
          else bindE (collectDue target es) (\<lambda>rest. Inr (e # rest)))"

definition deliver :: "scheduled_event \<Rightarrow> scheduled_event" where
  "deliver e = e\<lparr>ev_status := Delivered, ev_deliveredAt := ev_dueAt e\<rparr>"

record clock_advance_result =
  cr_branch :: string
  cr_clock :: string
  cr_head :: int
  cr_delivered :: "scheduled_event list"
  cr_digest :: string

definition AdvanceClock :: "string \<Rightarrow> instant \<Rightarrow> int option \<Rightarrow> db \<Rightarrow> (error + clock_advance_result) \<times> db" where
  "AdvanceClock branchID target expectedHead = transaction (\<lambda>d.
     bindE (scanBranch (branch_where branchID d)) (\<lambda>b.
     bindE (expectHead expectedHead b) (\<lambda>_.
     bindE (guardE (\<not> b_clock b < target) ErrClockRegression) (\<lambda>_.
     bindE (guardE (target - b_clock b > MaxClockAdvance) ErrClockLimit) (\<lambda>_.
     bindE (collectDue target (scheduledEvents (b_state b))) (\<lambda>due.
     bindE (guardE (length due > MaxScheduledDelivery) ErrResourceLimit) (\<lambda>_.
     let delivered = map deliver due;
         state = fold set_event delivered (b_state b)
     in
     bindE (budgetE state) (\<lambda>_.
     let afterDigest = state_digest state;
         (updated, d1) = casBranch branchID (b_head b)
           (\<lambda>r. r\<lparr>br_clock := format_nano target, br_state := state, br_digest := afterDigest\<rparr>) d
     in if updated \<noteq> 1 then Inl ErrBranchConflict
        else Inr (\<lparr>cr_branch = branchID, cr_clock = format_nano target, cr_head = b_head b + 1,
                   cr_delivered = delivered, cr_digest = schedulerDigest state\<rparr>,
                  appendControlAudit ''clock.advance'' branchID [] (b_digest b) afterDigest d1)))))))))"

text \<open>
  \<open>AdvanceClockToNext\<close> processes a bounded prefix of the earliest instant: signals are
  delivered, actions run through the runtime's callback under the same fault protocol as a
  call. The callback receives the cloned state, the target instant, the call index, the tool
  and its input.
\<close>

type_synonym action_apply =
  "world_state \<Rightarrow> instant \<Rightarrow> int \<Rightarrow> string \<Rightarrow> json gomap option \<Rightarrow> error + world_state \<times> call_outcome"

record step_state =
  st_working :: world_state
  st_calls :: int
  st_processed :: "scheduled_event list"
  st_delivered :: "scheduled_event list"
  st_executed :: nat

definition zero_event :: scheduled_event where
  "zero_event = \<lparr>ev_id = [], ev_dueAt = [], ev_priority = 0, ev_seq = 0, ev_kind = [], ev_payload = JNull,
     ev_action = None, ev_outcome = None, ev_attempts = 0, ev_status = [], ev_deliveredAt = [],
     ev_finishedAt = [], ev_canceledAt = []\<rparr>"

definition event_at :: "string \<Rightarrow> scheduled_event gomap \<Rightarrow> scheduled_event" where
  "event_at k m = (case map_of m k of None \<Rightarrow> zero_event | Some e \<Rightarrow> e)"

definition signalStep :: "scheduled_event \<Rightarrow> step_state \<Rightarrow> step_state" where
  "signalStep selected st =
     (let event = deliver (event_at (ev_id selected) (events_of (st_working st)))
      in st\<lparr>st_working := set_event event (st_working st),
            st_processed := st_processed st @ [event], st_delivered := st_delivered st @ [event]\<rparr>)"

text \<open>The checks on what the callback reported.\<close>

definition checkOutcome :: "call_outcome \<Rightarrow> fault_plan option \<Rightarrow> error + unit" where
  "checkOutcome outcome fired =
     (if oc_errorClass outcome = [] \<and> \<not> oc_commit outcome then Inl (ErrOther ''success without committing state'')
      else if oc_errorClass outcome \<noteq> [] \<and> \<not> controlIDPattern (oc_errorClass outcome) then Inl ErrSchedulerInvalid
      else if oc_errorClass outcome \<noteq> [] \<and> oc_commit outcome \<and>
              (case fired of None \<Rightarrow> True | Some f \<Rightarrow> fp_phase f \<noteq> PhaseAfter) then Inl ErrSchedulerInvalid
      else jsonE ErrResourceLimit (oc_result outcome) MaxOutputBytes)"

definition finishEvent :: "int \<Rightarrow> call_outcome \<Rightarrow> fault_plan option \<Rightarrow> scheduled_event \<Rightarrow> scheduled_event" where
  "finishEvent callIndex outcome fired e = e\<lparr>
     ev_attempts := int MaxScheduledAttempts, ev_finishedAt := ev_dueAt e,
     ev_outcome := Some \<lparr>out_callIndex = callIndex, out_result = oc_result outcome,
       out_errorClass = oc_errorClass outcome, out_effectCommitted = oc_commit outcome,
       out_faultID = (case fired of None \<Rightarrow> [] | Some f \<Rightarrow> fp_id f),
       out_faultPhase = (case fired of None \<Rightarrow> [] | Some f \<Rightarrow> fp_phase f)\<rparr>,
     ev_status := (if oc_errorClass outcome = [] then Completed else Failed)\<rparr>"

definition actionStep ::
  "branch \<Rightarrow> instant \<Rightarrow> action_apply \<Rightarrow> scheduled_event \<Rightarrow> step_state \<Rightarrow> db \<Rightarrow> error + step_state \<times> db" where
  "actionStep b target apply_fn selected st d =
     (case ev_action selected of
        None \<Rightarrow> Inl ErrSchedulerConflict
      | Some a \<Rightarrow>
          if act_specDigest a \<noteq> b_spec b then Inl ErrSchedulerConflict
          else
            let working = st_working st; callIndex = st_calls st + 1 in
            bindE (faultedApply (b_id b) (act_tool a) (Clone working)
                (\<lambda>w. apply_fn w target callIndex (act_tool a) (act_input a)) d)
              (\<lambda>((candidate, outcome, fired), d1).
            if schedulerDigest candidate \<noteq> schedulerDigest working then Inl ErrSchedulerInvalid
            else
            bindE (checkOutcome outcome fired) (\<lambda>_.
            let kept = (if oc_commit outcome then candidate else Clone working) in
            if Scheduler kept = None then Inl (ErrPanic ''nil scheduler'')
            else
            let event = finishEvent callIndex outcome fired (event_at (ev_id selected) (events_of kept));
                after = set_event event kept
            in
            bindE (budgetE after) (\<lambda>_.
            bindE (appendToolAudit (b_id b) callIndex (act_tool a) (record_json (act_input a)) outcome
                     (state_digest working) (state_digest after) d1) (\<lambda>d2.
            Inr (st\<lparr>st_working := after, st_calls := callIndex,
                    st_processed := st_processed st @ [event], st_executed := st_executed st + 1\<rparr>,
                 (case fired of None \<Rightarrow> d2
                  | Some f \<Rightarrow> appendFaultEvent (b_id b) callIndex f (state_digest working) (state_digest after) d2)))))))"

fun stepLoop ::
  "branch \<Rightarrow> instant \<Rightarrow> action_apply \<Rightarrow> scheduled_event list \<Rightarrow> step_state \<Rightarrow> db \<Rightarrow> error + step_state \<times> db" where
  "stepLoop b target apply_fn [] st d = Inr (st, d)"
| "stepLoop b target apply_fn (e # es) st d =
     (if ev_kind e = KindSignal then stepLoop b target apply_fn es (signalStep e st) d
      else if ev_kind e = KindAction then
        bindE (actionStep b target apply_fn e st d) (\<lambda>(st', d'). stepLoop b target apply_fn es st' d')
      else Inl ErrSchedulerInvalid)"

record scheduler_step_result =
  sr_branch :: string
  sr_clock :: string
  sr_clockAdvanced :: bool
  sr_head :: int
  sr_delivered :: "scheduled_event list"
  sr_processed :: "scheduled_event list"
  sr_executedActions :: nat
  sr_moreAtInstant :: bool
  sr_nextDueAt :: string
  sr_digest :: string

text \<open>
  \<open>apply\<close> is \<open>None\<close> where the Go callback is nil; an expected digest of \<open>[]\<close> is not
  checked.
\<close>

definition advanceClockToNext ::
  "string \<Rightarrow> int option \<Rightarrow> string \<Rightarrow> action_apply option \<Rightarrow> db \<Rightarrow> (error + scheduler_step_result) \<times> db" where
  "advanceClockToNext branchID expectedHead expectedSpecDigest apply_fn = transaction (\<lambda>d.
     bindE (wrapE ErrSchedulerInvalid (validateID ''branch id'' branchID)) (\<lambda>_.
     bindE (scanBranch (branch_where branchID d)) (\<lambda>b.
     bindE (expectHead expectedHead b) (\<lambda>_.
     bindE (guardE (expectedSpecDigest \<noteq> [] \<and> b_spec b \<noteq> expectedSpecDigest) (ErrSpecDrift (b_spec b) expectedSpecDigest)) (\<lambda>_.
     case pendingScheduledEvents (b_state b) of
       [] \<Rightarrow> Inl ErrSchedulerEmpty
     | first # others \<Rightarrow>
     (case DueTime first of
       None \<Rightarrow> Inl ErrSchedulerInvalid
     | Some dueAt \<Rightarrow>
     let clockAdvanced = b_clock b < dueAt;
         target = (if clockAdvanced then dueAt else b_clock b)
     in
     bindE (guardE (target - b_clock b > MaxClockAdvance) ErrClockLimit) (\<lambda>_.
     let (batchEnd, batchActions) = scheduledBatchSize (first # others) in
     bindE (guardE (batchEnd = 0) ErrResourceLimit) (\<lambda>_.
     bindE (guardE (batchActions > 0 \<and> apply_fn = None) ErrSchedulerAction) (\<lambda>_.
     bindE (stepLoop b target (case apply_fn of None \<Rightarrow> \<lambda>_ _ _ _ _. Inl (ErrPanic ''nil callback'') | Some f \<Rightarrow> f)
              (take batchEnd (first # others))
              \<lparr>st_working = b_state b, st_calls = b_calls b, st_processed = [], st_delivered = [], st_executed = 0\<rparr> d)
       (\<lambda>(st, d1).
     let state = st_working st in
     bindE (budgetE state) (\<lambda>_.
     let afterDigest = state_digest state;
         (updated, d2) = casBranch branchID (b_head b)
           (\<lambda>r. r\<lparr>br_clock := format_nano target, br_state := state, br_digest := afterDigest, br_calls := st_calls st\<rparr>) d1
     in if updated \<noteq> 1 then Inl ErrBranchConflict
        else
          let remaining = pendingScheduledEvents state;
              nextDueAt = (case remaining of [] \<Rightarrow> [] | e # _ \<Rightarrow> ev_dueAt e)
          in Inr (\<lparr>sr_branch = branchID, sr_clock = format_nano target, sr_clockAdvanced = clockAdvanced,
                   sr_head = b_head b + 1, sr_delivered = st_delivered st, sr_processed = st_processed st,
                   sr_executedActions = st_executed st,
                   sr_moreAtInstant = (remaining \<noteq> [] \<and> nextDueAt = ev_dueAt first),
                   sr_nextDueAt = nextDueAt,
                   sr_digest = schedulerDigest state\<rparr>,
                  appendControlAudit ''scheduler.advance.next'' branchID [] (b_digest b) afterDigest d2))))))))))))"

definition AdvanceClockToNext :: "string \<Rightarrow> int option \<Rightarrow> db \<Rightarrow> (error + scheduler_step_result) \<times> db" where
  "AdvanceClockToNext branchID expectedHead = advanceClockToNext branchID expectedHead [] None"

definition AdvanceClockToNextWithActions ::
  "string \<Rightarrow> int option \<Rightarrow> string \<Rightarrow> action_apply option \<Rightarrow> db \<Rightarrow> (error + scheduler_step_result) \<times> db" where
  "AdvanceClockToNextWithActions branchID expectedHead expectedSpecDigest apply_fn d =
     (if \<not> digestPattern expectedSpecDigest \<or> apply_fn = None then (Inl ErrSchedulerAction, d)
      else advanceClockToNext branchID expectedHead expectedSpecDigest apply_fn d)"

end
