(* ===== verification/Store_Facts.thy ===== *)
theory Store_Facts
  imports Scheduler
begin

text \<open>
  Inversion of the store operations: what each of them has read, checked and written when it
  returns without an error. The properties of the store rest on these lemmas and do not unfold
  an operation again.
\<close>

section \<open>Small results\<close>

lemma budgetE_Inr [simp]: "budgetE s = Inr u \<longleftrightarrow> within_budget s"
  by (auto simp: budgetE_def ValidateBudget_iff [symmetric] split: sum.splits)

lemma validateID_Inr [simp]: "validateID k v = Inr u \<longleftrightarrow> controlIDPattern v"
  by (simp add: validateID_def)

lemma wrapE_Inr [simp]: "wrapE e r = Inr x \<longleftrightarrow> r = Inr x"
  by (auto simp: wrapE_def split: sum.splits)

lemma jsonE_Inr [simp]: "jsonE e v n = Inr u \<longleftrightarrow> ValidateJSON v n = Inr ()"
  by (auto simp: jsonE_def split: sum.splits)

lemma expectHead_Inr: "expectHead h b = Inr u \<longleftrightarrow> h = None \<or> h = Some (b_head b)"
  by (auto simp: expectHead_def split: option.splits)

lemma filter_update_where:
  assumes "\<And>r. p r \<Longrightarrow> \<not> q r" "\<And>r. p r \<Longrightarrow> \<not> q (f r)"
  shows "filter q (update_where p f t) = filter q t"
  using assms by (induction t) (auto simp: update_where_def)

section \<open>Inversion\<close>

lemma InitializeBranch_Inr:
  assumes "InitializeBranch bid sp s c d = (Inr u, d')"
  obtains (exists) "row_exists (\<lambda>r. br_id r = bid) (branches d)" "d' = d"
  | (created) "\<not> row_exists (\<lambda>r. br_id r = bid) (branches d)" "length (branches d) < MaxForks"
      "controlIDPattern bid" "within_budget s"
      "d' = d\<lparr>branches := branches d @
        [\<lparr>br_id = bid, br_spec = sp, br_state = s, br_digest = state_digest s,
          br_clock = format_nano c, br_calls = 0, br_head = 0\<rparr>]\<rparr>"
  using assms unfolding InitializeBranch_def transaction_Inr by (auto split: if_splits)

lemma InstallFault_Inr:
  assumes "InstallFault plan h d = (Inr r, d')"
  obtains b d2 where
    "validateFaultPlan plan = Inr ()" "scanBranch (branch_where (fp_branch plan) d) = Inr b" "expectHead h b = Inr ()"
    "affected (\<lambda>r. fp_branch r = fp_branch plan) (fault_plans d) < MaxFaultPlans"
    "\<not> row_exists (\<lambda>r. fp_branch r = fp_branch plan \<and> fp_id r = fp_id plan) (fault_plans d)"
    "faultRowChecks (plan\<lparr>fp_fired := 0\<rparr>)"
    "casBranch (fp_branch plan) (b_head b) id (d\<lparr>fault_plans := fault_plans d @ [plan\<lparr>fp_fired := 0\<rparr>]\<rparr>) = (1, d2)"
    "d' = appendControlAudit ''fault.install'' (fp_branch plan) (fp_id plan) (b_digest b) (b_digest b) d2" "r = plan"
proof -
  let ?row = "plan\<lparr>fp_fired := 0\<rparr>"
  from assms show ?thesis
    unfolding InstallFault_def transaction_Inr Let_def
  proof (elim bindE_Inr_elim, goal_cases)
    case (1 u1 b u2)
    obtain n d2 where cas: "casBranch (fp_branch plan) (b_head b) id (d\<lparr>fault_plans := fault_plans d @ [?row]\<rparr>) = (n, d2)"
      by (cases "casBranch (fp_branch plan) (b_head b) id (d\<lparr>fault_plans := fault_plans d @ [?row]\<rparr>)")
    have ok: "affected (\<lambda>r. fp_branch r = fp_branch plan) (fault_plans d) < MaxFaultPlans"
      "\<not> row_exists (\<lambda>r. fp_branch r = fp_branch plan \<and> fp_id r = fp_id plan) (fault_plans d)"
      "faultRowChecks ?row" "n = 1"
      using 1(4) unfolding cas prod.case by (simp_all only: split: if_split_asm) auto
    have res: "d' = appendControlAudit ''fault.install'' (fp_branch plan) (fp_id plan) (b_digest b) (b_digest b) d2" "r = plan"
      using 1(4) ok unfolding cas by auto
    show ?case
      by (rule that [of b d2]) (use 1 ok cas res in simp_all)
  qed
qed

lemma RemoveFault_Inr:
  assumes "RemoveFault bid fid h d = (Inr r, d')"
  obtains b d2 where
    "scanBranch (branch_where bid d) = Inr b" "expectHead h b = Inr ()"
    "affected (\<lambda>r. fp_branch r = bid \<and> fp_id r = fid) (fault_plans d) = 1"
    "casBranch bid (b_head b) id
       (d\<lparr>fault_plans := filter (\<lambda>r. \<not> (fp_branch r = bid \<and> fp_id r = fid)) (fault_plans d)\<rparr>) = (1, d2)"
    "d' = appendControlAudit ''fault.remove'' bid fid (b_digest b) (b_digest b) d2"
  using assms unfolding RemoveFault_def transaction_Inr Let_def
  by (auto split: prod.splits if_split_asm)

lemma ApplyCall_Inr:
  assumes "ApplyCall bid sp t i f d = (Inr r, d')"
  obtains b working' outcome fired d1 working d2 d3 where
    "scanBranch (branch_where bid d) = Inr b" "b_spec b = sp" "ValidateJSON i MaxInputBytes = Inr ()"
    "faultedApply bid t (Clone (b_state b)) (\<lambda>w. f w (b_clock b) (b_calls b + 1)) d = Inr ((working', outcome, fired), d1)"
    "working = (if oc_commit outcome then working' else b_state b)" "within_budget working"
    "appendToolAudit bid (b_calls b + 1) t i outcome (b_digest b) (state_digest working) d1 = Inr d2"
    "casBranch bid (b_head b) (\<lambda>r. r\<lparr>br_state := working, br_digest := state_digest working, br_calls := b_calls b + 1\<rparr>) d2 = (1, d3)"
    "r = \<lparr>ar_result = oc_result outcome, ar_errorClass = oc_errorClass outcome,
          ar_before = b_digest b, ar_after = state_digest working, ar_callIndex = b_calls b + 1,
          ar_faultID = (case fired of None \<Rightarrow> [] | Some f \<Rightarrow> fp_id f),
          ar_faultPhase = (case fired of None \<Rightarrow> [] | Some f \<Rightarrow> fp_phase f)\<rparr>"
    "d' = (case fired of None \<Rightarrow> d3
           | Some f \<Rightarrow> appendFaultEvent bid (b_calls b + 1) f (b_digest b) (state_digest working) d3)"
  using assms unfolding ApplyCall_def transaction_Inr Let_def
  by (auto split: prod.splits if_split_asm sum.splits)

lemma CreateSnapshot_Inr:
  assumes "CreateSnapshot name bid d = (Inr s, d')"
  obtains b where
    "controlIDPattern name" "scanBranch (branch_where bid d) = Inr b" "length (snapshots d) < MaxSnapshots"
    "\<not> row_exists (\<lambda>r. sn_id r = snapshot_id name b \<or> sn_name r = name) (snapshots d)"
    "s = \<lparr>s_id = snapshot_id name b, s_name = name, s_spec = b_spec b, s_state = b_state b, s_digest = b_digest b,
          s_clock = b_clock b, s_sourceHead = b_head b, s_schema = schemaVersion\<rparr>"
    "d' = appendControlAudit ''snapshot.create'' bid name (b_digest b) (b_digest b) (d\<lparr>snapshots := snapshots d @
       [\<lparr>sn_id = snapshot_id name b, sn_name = name, sn_spec = b_spec b, sn_state = b_state b, sn_digest = b_digest b,
         sn_clock = format_nano (b_clock b), sn_sourceHead = b_head b, sn_schema = schemaVersion\<rparr>]\<rparr>)"
  using assms unfolding CreateSnapshot_def transaction_Inr Let_def by (auto split: if_split_asm)

lemma Fork_Inr:
  assumes "Fork name bid d = (Inr u, d')"
  obtains s where
    "controlIDPattern bid" "length (branches d) < MaxForks" "scanSnapshot (snapshot_where name d) = Inr s"
    "\<not> row_exists (\<lambda>r. br_id r = bid) (branches d)"
    "d' = appendControlAudit ''branch.fork'' bid name [] (s_digest s) (d\<lparr>branches := branches d @
       [\<lparr>br_id = bid, br_spec = s_spec s, br_state = s_state s, br_digest = s_digest s,
         br_clock = format_nano (s_clock s), br_calls = 0, br_head = 0\<rparr>]\<rparr>)"
  using assms unfolding Fork_def transaction_Inr Let_def by (auto split: if_split_asm)

lemma Reset_Inr:
  assumes "Reset name bid d = (Inr u, d')"
  obtains s b n d1 where
    "scanSnapshot (snapshot_where name d) = Inr s" "scanBranch (branch_where bid d) = Inr b"
    "casBranch bid (b_head b) (\<lambda>r. r\<lparr>br_spec := s_spec s, br_state := s_state s, br_digest := s_digest s,
       br_clock := format_nano (s_clock s), br_calls := 0\<rparr>) d = (n, d1)" "n \<noteq> 0"
    "d' = appendControlAudit ''branch.reset'' bid name (b_digest b) (s_digest s) d1"
  using assms unfolding Reset_def transaction_Inr Let_def by (auto split: prod.splits if_split_asm)

lemma saveState_Inr:
  assumes "saveState op bid b s d = Inr d'"
  obtains d1 where
    "casBranch bid (b_head b) (\<lambda>r. r\<lparr>br_state := s, br_digest := state_digest s\<rparr>) d = (1, d1)"
    "d' = appendControlAudit op bid [] (b_digest b) (state_digest s) d1"
  using assms unfolding saveState_def by (auto split: prod.splits if_split_asm)

definition scheduled :: "schedule_request \<Rightarrow> instant \<Rightarrow> world_state \<Rightarrow> scheduled_event" where
  "scheduled request dueAt s =
     \<lparr>ev_id = rq_id request, ev_dueAt = format_nano dueAt, ev_priority = rq_priority request,
      ev_seq = nextCreationSequence (EnsureScheduler s) + 1,
      ev_kind = rq_kind request, ev_payload = rq_payload request, ev_action = rq_action request,
      ev_outcome = None, ev_attempts = 0, ev_status = Pending, ev_deliveredAt = [],
      ev_finishedAt = [], ev_canceledAt = []\<rparr>"

lemma ScheduleEvent_Inr:
  assumes "ScheduleEvent request h d = (Inr e, d')"
  obtains dueAt b s where
    "validateRequest request = Inr dueAt" "scanBranch (branch_where (rq_branch request) d) = Inr b"
    "expectHead h b = Inr ()" "b_clock b < dueAt" "dueAt - b_clock b \<le> MaxClockAdvance"
    "\<not> has (events_of (b_state b)) (rq_id request)" "length (events_of (b_state b)) < MaxScheduledEvents"
    "length (filter (\<lambda>e. ev_status e = Pending \<and> ev_dueAt e = format_nano dueAt) (vals (events_of (b_state b)))) < MaxScheduledAtInstant"
    "e = scheduled request dueAt (b_state b)"
    "s = (b_state b)\<lparr>Scheduler := Some \<lparr>nextCreationSequence = nextCreationSequence (EnsureScheduler (b_state b)) + 1,
       events = put (rq_id request) e (events_of (b_state b))\<rparr>\<rparr>"
    "within_budget s" "saveState ''scheduler.event.create'' (rq_branch request) b s d = Inr d'"
proof -
  have ev: "events (EnsureScheduler s) = events_of s" for s
    by (simp add: EnsureScheduler_def events_of_def split: option.splits)
  from assms show ?thesis
    unfolding ScheduleEvent_def transaction_Inr Let_def ev
    by (elim bindE_Inr_elim) (rule that, auto simp: scheduled_def)
qed

lemma CancelScheduledEvent_Inr:
  assumes "CancelScheduledEvent bid eid h d = (Inr e', d')"
  obtains b e sc s where
    "scanBranch (branch_where bid d) = Inr b" "expectHead h b = Inr ()"
    "map_of (events_of (b_state b)) eid = Some e" "ev_status e = Pending" "Scheduler (b_state b) = Some sc"
    "e' = e\<lparr>ev_status := Canceled, ev_canceledAt := format_nano (b_clock b)\<rparr>"
    "s = (b_state b)\<lparr>Scheduler := Some (sc\<lparr>events := put eid e' (events sc)\<rparr>)\<rparr>"
    "saveState ''scheduler.event.cancel'' bid b s d = Inr d'"
proof -
  from assms show ?thesis
    unfolding CancelScheduledEvent_def transaction_Inr Let_def
  proof (elim bindE_Inr_elim, goal_cases)
    case (1 x1 x2 b x4)
    then obtain e where e: "map_of (events_of (b_state b)) eid = Some e" "ev_status e = Pending"
      by (auto split: option.splits if_split_asm)
    then obtain sc where sc: "Scheduler (b_state b) = Some sc"
      by (auto simp: events_of_def split: option.splits)
    show ?case
      using 1 e sc by (intro that [of b e sc]) (auto simp: EnsureScheduler_def)
  qed
qed

lemma AdvanceClock_Inr:
  assumes "AdvanceClock bid target h d = (Inr r, d')"
  obtains b due s d1 where
    "scanBranch (branch_where bid d) = Inr b" "expectHead h b = Inr ()" "b_clock b < target" "target - b_clock b \<le> MaxClockAdvance"
    "collectDue target (scheduledEvents (b_state b)) = Inr due" "length due \<le> MaxScheduledDelivery"
    "s = fold set_event (map deliver due) (b_state b)" "within_budget s"
    "casBranch bid (b_head b) (\<lambda>r. r\<lparr>br_clock := format_nano target, br_state := s, br_digest := state_digest s\<rparr>) d = (1, d1)"
    "r = \<lparr>cr_branch = bid, cr_clock = format_nano target, cr_head = b_head b + 1,
          cr_delivered = map deliver due, cr_digest = schedulerDigest s\<rparr>"
    "d' = appendControlAudit ''clock.advance'' bid [] (b_digest b) (state_digest s) d1"
  using assms unfolding AdvanceClock_def transaction_Inr Let_def
  by (auto split: prod.splits if_split_asm)

lemma advanceClockToNext_Inr:
  assumes "advanceClockToNext bid h sp f d = (Inr r, d')"
  obtains b first others dueAt target n a st d1 d2 where
    "scanBranch (branch_where bid d) = Inr b" "expectHead h b = Inr ()" "sp \<noteq> [] \<longrightarrow> b_spec b = sp"
    "pendingScheduledEvents (b_state b) = first # others" "DueTime first = Some dueAt"
    "target = (if b_clock b < dueAt then dueAt else b_clock b)" "target - b_clock b \<le> MaxClockAdvance"
    "scheduledBatchSize (first # others) = (n, a)" "n \<noteq> 0" "a = 0 \<or> f \<noteq> None"
    "stepLoop b target (case f of None \<Rightarrow> \<lambda>_ _ _ _ _. Inl (ErrPanic ''nil callback'') | Some f \<Rightarrow> f)
       (take n (first # others))
       \<lparr>st_working = b_state b, st_calls = b_calls b, st_processed = [], st_delivered = [], st_executed = 0\<rparr> d = Inr (st, d1)"
    "within_budget (st_working st)"
    "casBranch bid (b_head b) (\<lambda>r. r\<lparr>br_clock := format_nano target, br_state := st_working st,
       br_digest := state_digest (st_working st), br_calls := st_calls st\<rparr>) d1 = (1, d2)"
    "sr_clock r = format_nano target" "sr_head r = b_head b + 1" "sr_processed r = st_processed st"
    "sr_delivered r = st_delivered st" "sr_executedActions r = st_executed st"
    "d' = appendControlAudit ''scheduler.advance.next'' bid [] (b_digest b) (state_digest (st_working st)) d2"
proof -
  from assms show ?thesis
    unfolding advanceClockToNext_def transaction_Inr
  proof (elim bindE_Inr_elim, goal_cases)
    case outer: (1 u b u2 u3)
    then obtain first others where p: "pendingScheduledEvents (b_state b) = first # others"
      by (auto split: list.splits)
    with outer obtain dueAt where due: "DueTime first = Some dueAt"
      by (auto split: option.splits)
    obtain n a where na: "scheduledBatchSize (first # others) = (n, a)" by fastforce
    show ?case
      using outer(5) unfolding p list.case due option.case Let_def na prod.case
    proof (elim bindE_Inr_elim, goal_cases)
      case mid: (1 u4 u5 u6 std)
      obtain st d1 where std: "std = (st, d1)" by fastforce
      show ?case
        using mid(5) unfolding std prod.case
      proof (elim bindE_Inr_elim, goal_cases)
        case inner: (1 u7)
        let ?target = "if b_clock b < dueAt then dueAt else b_clock b"
        obtain k d2 where cas: "casBranch bid (b_head b) (\<lambda>r. r\<lparr>br_clock := format_nano ?target, br_state := st_working st,
             br_digest := state_digest (st_working st), br_calls := st_calls st\<rparr>) d1 = (k, d2)"
          by fastforce
        have k: "k = 1" "d' = appendControlAudit ''scheduler.advance.next'' bid [] (b_digest b) (state_digest (st_working st)) d2"
          and r: "sr_clock r = format_nano ?target" "sr_head r = b_head b + 1" "sr_processed r = st_processed st"
            "sr_delivered r = st_delivered st" "sr_executedActions r = st_executed st"
          using inner(2) unfolding cas prod.case by (simp_all split: if_split_asm) auto
        show ?case
          by (rule that [of b first others dueAt ?target n a st d1 d2])
             (use outer(2-4) mid(1-4) inner(1) p due na cas k r std in \<open>simp_all add: disj_imp\<close>)
      qed
    qed
  qed
qed

lemma actionStep_Inr:
  assumes "actionStep b target f e st d = Inr (st', d')"
  obtains a candidate outcome fired d1 kept event after d2 where
    "ev_action e = Some a" "act_specDigest a = b_spec b"
    "faultedApply (b_id b) (act_tool a) (Clone (st_working st))
       (\<lambda>w. f w target (st_calls st + 1) (act_tool a) (act_input a)) d = Inr ((candidate, outcome, fired), d1)"
    "schedulerDigest candidate = schedulerDigest (st_working st)" "checkOutcome outcome fired = Inr ()"
    "kept = (if oc_commit outcome then candidate else Clone (st_working st))" "Scheduler kept \<noteq> None"
    "event = finishEvent (st_calls st + 1) outcome fired (event_at (ev_id e) (events_of kept))"
    "after = set_event event kept" "within_budget after"
    "appendToolAudit (b_id b) (st_calls st + 1) (act_tool a) (record_json (act_input a)) outcome
       (state_digest (st_working st)) (state_digest after) d1 = Inr d2"
    "st' = st\<lparr>st_working := after, st_calls := st_calls st + 1,
              st_processed := st_processed st @ [event], st_executed := st_executed st + 1\<rparr>"
    "d' = (case fired of None \<Rightarrow> d2
           | Some f \<Rightarrow> appendFaultEvent (b_id b) (st_calls st + 1) f (state_digest (st_working st)) (state_digest after) d2)"
proof -
  obtain a where a: "ev_action e = Some a"
    using assms by (cases "ev_action e") (auto simp: actionStep_def)
  have spec: "act_specDigest a = b_spec b"
    using assms by (auto simp: actionStep_def a split: if_split_asm)
  from assms obtain candidate outcome fired d1 where
    fa: "faultedApply (b_id b) (act_tool a) (Clone (st_working st))
       (\<lambda>w. f w target (st_calls st + 1) (act_tool a) (act_input a)) d = Inr ((candidate, outcome, fired), d1)"
    unfolding actionStep_def a option.case Let_def spec by auto
  define kept where "kept = (if oc_commit outcome then candidate else Clone (st_working st))"
  define event where "event = finishEvent (st_calls st + 1) outcome fired (event_at (ev_id e) (events_of kept))"
  define after where "after = set_event event kept"
  from assms obtain d2 where
    d2: "appendToolAudit (b_id b) (st_calls st + 1) (act_tool a) (record_json (act_input a)) outcome
       (state_digest (st_working st)) (state_digest after) d1 = Inr d2"
    and rest: "schedulerDigest candidate = schedulerDigest (st_working st)" "checkOutcome outcome fired = Inr ()"
      "Scheduler kept \<noteq> None" "within_budget after"
      "st' = st\<lparr>st_working := after, st_calls := st_calls st + 1,
              st_processed := st_processed st @ [event], st_executed := st_executed st + 1\<rparr>"
      "d' = (case fired of None \<Rightarrow> d2
           | Some f \<Rightarrow> appendFaultEvent (b_id b) (st_calls st + 1) f (state_digest (st_working st)) (state_digest after) d2)"
    unfolding actionStep_def a option.case Let_def spec fa bindE_simps prod.case kept_def [symmetric] event_def [symmetric]
      after_def [symmetric]
    by (auto split: if_split_asm)
  show ?thesis
    by (rule that [OF a spec fa rest(1,2) kept_def rest(3) event_def after_def rest(4) d2 rest(5,6)])
qed

end
