(* ===== verification/Store_Run.thy ===== *)
theory Store_Run
  imports Store_Facts
begin

text \<open>
  Frames and ledgers of the store: an operation changes only the branch it names, the audit
  tables and the snapshot table only grow, and a compare-and-swap on a branch read in the same
  transaction succeeds.
\<close>

section \<open>What an operation on a branch may touch\<close>

text \<open>
  Every operation names one branch. It leaves the rows, fault plans and ledger entries of all
  other branches as they are, and the ledgers and the snapshot table only grow.
\<close>

definition touches :: "string \<Rightarrow> db \<Rightarrow> db \<Rightarrow> bool" where
  "touches bid d d' \<longleftrightarrow>
     filter (\<lambda>r. br_id r \<noteq> bid) (branches d') = filter (\<lambda>r. br_id r \<noteq> bid) (branches d) \<and>
     filter (\<lambda>r. fp_branch r \<noteq> bid) (fault_plans d') = filter (\<lambda>r. fp_branch r \<noteq> bid) (fault_plans d) \<and>
     (\<exists>us. audit d' = audit d @ us \<and> (\<forall>u \<in> set us. au_branch u = bid)) \<and>
     (\<exists>us. control_audit d' = control_audit d @ us \<and> (\<forall>u \<in> set us. ca_branch u = bid)) \<and>
     (\<exists>us. fault_events d' = fault_events d @ us \<and> (\<forall>u \<in> set us. fe_branch u = bid)) \<and>
     (\<exists>us. snapshots d' = snapshots d @ us)"

lemma touches_refl [simp]: "touches bid d d"
  by (simp add: touches_def)

lemma touches_trans [trans]: "touches bid d d' \<Longrightarrow> touches bid d' d'' \<Longrightarrow> touches bid d d''"
  unfolding touches_def by (elim conjE exE) (auto 0 3)

lemma touches_appendControlAudit [simp]: "touches bid d (appendControlAudit o1 bid n x y d)"
  by (simp add: touches_def)

lemma touches_control: "touches bid d d' \<Longrightarrow> touches bid d (appendControlAudit o1 bid n x y d')"
  using touches_trans touches_appendControlAudit by blast

lemma touches_casBranch:
  assumes "casBranch bid h f d = (n, d')" "\<And>r. br_id (f r) = br_id r"
  shows "touches bid d d'"
  using assms by (auto simp: touches_def casBranch_def Let_def intro!: filter_update_where)

lemma spend_simps [simp]:
  "fp_id (spend p) = fp_id p" "fp_branch (spend p) = fp_branch p" "fp_tool (spend p) = fp_tool p"
  "fp_phase (spend p) = fp_phase p" "fp_errorClass (spend p) = fp_errorClass p" "fp_message (spend p) = fp_message p"
  "fp_remaining (spend p) = fp_remaining p - 1" "fp_fired (spend p) = fp_fired p + 1"
  by (simp_all add: spend_def)

lemma armed_head: "armedFaults bid t ph d = p # ps \<Longrightarrow>
    p \<in> set (fault_plans d) \<and> fp_branch p = bid \<and> fp_tool p = t \<and> fp_phase p = ph \<and> 0 < fp_remaining p"
  using set_armedFaults [of p bid t ph d] by simp

lemma touches_takeFault: "takeFault bid t ph d = Inr (res, d') \<Longrightarrow> touches bid d d'"
  by (erule takeFault_Inr)
     (auto simp: touches_def is_plan_def dest!: armed_head intro!: filter_update_where)

lemma touches_faultedApply: "faultedApply bid t w f d = Inr (res, d') \<Longrightarrow> touches bid d d'"
  unfolding faultedApply_def
  by (auto split: prod.splits option.splits if_splits dest!: touches_takeFault) (erule (1) touches_trans)+

lemma touches_appendToolAudit: "appendToolAudit bid c t i out x y d = Inr d' \<Longrightarrow> touches bid d d'"
  by (drule appendToolAudit_Inr(1)) (simp add: touches_def)

lemma touches_appendFaultEvent:
  "touches bid d d' \<Longrightarrow> touches bid d (case fired of None \<Rightarrow> d' | Some f \<Rightarrow> appendFaultEvent bid c f x y d')"
  by (auto simp: touches_def split: option.splits)

lemma touches_append:
  "touches (br_id r) d (d\<lparr>branches := branches d @ [r]\<rparr>)"
  "touches bid d (d\<lparr>snapshots := snapshots d @ ss\<rparr>)"
  "touches (fp_branch p) d (d\<lparr>fault_plans := fault_plans d @ [p]\<rparr>)"
  "touches bid d (d\<lparr>fault_plans := filter (\<lambda>r. \<not> (fp_branch r = bid \<and> fp_id r = fid)) (fault_plans d)\<rparr>)"
  by (auto simp: touches_def intro!: filter_cong)

lemma touches_saveState: "saveState op bid b s d = Inr d' \<Longrightarrow> touches bid d d'"
  by (erule saveState_Inr) (auto dest!: touches_casBranch intro: touches_control)

lemma touches_actionStep:
  assumes "actionStep b target f e st d = Inr (st', d')"
  shows "touches (b_id b) d d'"
  using assms unfolding actionStep_def Let_def
  by (auto split: prod.splits option.splits if_split_asm dest!: touches_faultedApply touches_appendToolAudit
      intro!: touches_appendFaultEvent intro: touches_trans)

lemma touches_stepLoop: "stepLoop b target f es st d = Inr (st', d') \<Longrightarrow> touches (b_id b) d d'"
proof (induction es arbitrary: st d)
  case (Cons e es)
  from Cons.prems show ?case
    by (auto split: if_split_asm prod.splits dest!: touches_actionStep Cons.IH intro: touches_trans)
qed simp

section \<open>Steps of the store\<close>

text \<open>A committed operation of the store on the branch it names.\<close>

inductive store_step :: "string \<Rightarrow> db \<Rightarrow> db \<Rightarrow> bool" where
  initialize: "InitializeBranch bid sp s c d = (Inr u, d') \<Longrightarrow> store_step bid d d'"
| call: "ApplyCall bid sp t i f d = (Inr ar, d') \<Longrightarrow> store_step bid d d'"
| install: "InstallFault plan h d = (Inr p, d') \<Longrightarrow> store_step (fp_branch plan) d d'"
| remove: "RemoveFault bid fid h d = (Inr u, d') \<Longrightarrow> store_step bid d d'"
| snapshot: "CreateSnapshot name bid d = (Inr sn, d') \<Longrightarrow> store_step bid d d'"
| fork: "Fork name bid d = (Inr u, d') \<Longrightarrow> store_step bid d d'"
| reset: "Reset name bid d = (Inr u, d') \<Longrightarrow> store_step bid d d'"
| schedule: "ScheduleEvent rq h d = (Inr e, d') \<Longrightarrow> store_step (rq_branch rq) d d'"
| cancel: "CancelScheduledEvent bid eid h d = (Inr e, d') \<Longrightarrow> store_step bid d d'"
| advance: "AdvanceClock bid target h d = (Inr cr, d') \<Longrightarrow> store_step bid d d'"
| advance_next: "advanceClockToNext bid h sp g d = (Inr sr, d') \<Longrightarrow> store_step bid d d'"

lemma b_id_scan: "scanBranch (branch_where bid d) = Inr b \<Longrightarrow> b_id b = bid"
  by (erule scanBranch_Inr) (auto simp: branch_where_def dest: find_row_Some)

lemma touches_advance_next: "advanceClockToNext bid h sp g d = (Inr sr, d') \<Longrightarrow> touches bid d d'"
  by (erule advanceClockToNext_Inr)
     (auto dest!: touches_stepLoop touches_casBranch b_id_scan intro!: touches_control intro: touches_trans)

lemma store_step_touches: "store_step bid d d' \<Longrightarrow> touches bid d d'"
proof (induction rule: store_step.induct)
  case (initialize bid sp s c d u d')
  then show ?case
    by (cases rule: InitializeBranch_Inr) (auto intro: touches_append(1) [of "branch_row.make x1 x2 x3 x4 x5 x6 x7" for x1 x2 x3 x4 x5 x6 x7, unfolded branch_row.defs, simplified])
next
  case (call bid sp t i f d ar d')
  then show ?case
    by (elim ApplyCall_Inr)
       (auto dest!: touches_faultedApply touches_appendToolAudit touches_casBranch intro!: touches_appendFaultEvent intro: touches_trans)
next
  case (install plan h d p d')
  then show ?case
    apply (elim InstallFault_Inr) 
    using touches_append(3)[of "plan\<lparr>fp_fired := 0\<rparr>"]
    by (auto dest!: touches_casBranch intro!: touches_control intro: touches_trans)
next
  case (remove bid fid h d u d')
  then show ?case
    by (elim RemoveFault_Inr) (auto dest!: touches_casBranch intro!: touches_control intro: touches_trans touches_append(4))
next
  case (snapshot name bid d sn d')
  then show ?case
    by (elim CreateSnapshot_Inr) (auto intro!: touches_control touches_append)
next
  case (fork name bid d u d')
  then show ?case
    by (elim Fork_Inr) (auto intro!: touches_control intro: touches_append(1) [of "branch_row.make x1 x2 x3 x4 x5 x6 x7" for x1 x2 x3 x4 x5 x6 x7, unfolded branch_row.defs, simplified])
next
  case (reset name bid d u d')
  then show ?case
    by (elim Reset_Inr) (auto dest!: touches_casBranch intro!: touches_control)
next
  case (schedule rq h d e d')
  then show ?case by (elim ScheduleEvent_Inr) (auto dest: touches_saveState)
next
  case (cancel bid eid h d e d')
  then show ?case by (elim CancelScheduledEvent_Inr) (auto dest: touches_saveState)
next
  case (advance bid target h d cr d')
  then show ?case by (elim AdvanceClock_Inr) (auto dest!: touches_casBranch intro!: touches_control)
next
  case (advance_next bid h sp g d sr d')
  then show ?case by (rule touches_advance_next)
qed

abbreviation any_step :: "db \<Rightarrow> db \<Rightarrow> bool" where
  "any_step d d' \<equiv> \<exists>bid. store_step bid d d'"

section \<open>Isolation and ledgers\<close>

definition branch_view :: "string \<Rightarrow> db \<Rightarrow>
    branch_row list \<times> fault_plan list \<times> audit_row list \<times> control_row list \<times> fault_event list" where
  "branch_view bid d =
     (filter (\<lambda>r. br_id r = bid) (branches d), filter (\<lambda>r. fp_branch r = bid) (fault_plans d),
      filter (\<lambda>r. au_branch r = bid) (audit d), filter (\<lambda>r. ca_branch r = bid) (control_audit d),
      filter (\<lambda>r. fe_branch r = bid) (fault_events d))"

lemma filter_other: "bid \<noteq> k \<Longrightarrow> filter (\<lambda>r. key r = k) xs = filter (\<lambda>r. key r = k) (filter (\<lambda>r. key r \<noteq> bid) xs)"
  by (auto intro!: filter_cong)

lemma filter_other_eq:
  assumes "filter (\<lambda>r. key r \<noteq> bid) xs = filter (\<lambda>r. key r \<noteq> bid) ys" "bid \<noteq> k"
  shows "filter (\<lambda>r. key r = k) xs = filter (\<lambda>r. key r = k) ys"
  using filter_other [OF assms(2), of key xs] filter_other [OF assms(2), of key ys] assms(1) by simp

lemma filter_appended:
  assumes "\<exists>us. xs = ys @ us \<and> (\<forall>u \<in> set us. key u = bid)" "bid \<noteq> k"
  shows "filter (\<lambda>r. key r = k) xs = filter (\<lambda>r. key r = k) ys"
  using assms by (auto simp: filter_empty_conv)

lemma touches_view:
  assumes "touches bid d d'" "bid \<noteq> k"
  shows "branch_view k d' = branch_view k d"
  using assms(1) unfolding touches_def branch_view_def prod.inject
  by (intro conjI; elim conjE) (erule filter_other_eq [OF _ assms(2)] filter_appended [OF _ assms(2)])+

lemma store_step_view: "store_step bid d d' \<Longrightarrow> bid \<noteq> k \<Longrightarrow> branch_view k d' = branch_view k d"
  by (rule touches_view [OF store_step_touches])

interpretation isolation: run_frame "\<lambda>d d'. \<exists>bid. bid \<noteq> k \<and> store_step bid d d'" "branch_view k" for k
  by unfold_locales (auto dest: store_step_view)

interpretation audit_log: run_ledger any_step audit
  by unfold_locales (auto dest!: store_step_touches simp: touches_def)

interpretation control_log: run_ledger any_step control_audit
  by unfold_locales (auto dest!: store_step_touches simp: touches_def)

interpretation fault_log: run_ledger any_step fault_events
  by unfold_locales (auto dest!: store_step_touches simp: touches_def)

interpretation snapshot_log: run_ledger any_step snapshots
  by unfold_locales (auto dest!: store_step_touches simp: touches_def)

text \<open>A branch's row is part of its view.\<close>

lemma find_row_filter: "find_row p (filter p t) = find_row p t"
  by (induction t) auto

lemma branch_where_view: "branch_view k d' = branch_view k d \<Longrightarrow> branch_where k d' = branch_where k d"
  unfolding branch_view_def branch_where_def
  using find_row_filter [of "\<lambda>r. br_id r = k"] by (metis prod.inject)

lemma snapshot_where_stable:
  "any_step\<^sup>*\<^sup>* d d' \<Longrightarrow> snapshot_where name d = Some r \<Longrightarrow> snapshot_where name d' = Some r"
  using snapshot_log.ledger_run [of d d'] by (auto simp: snapshot_where_def find_row_append)

section \<open>Optimistic concurrency\<close>

lemma branch_where_id: "branch_where bid d = Some r \<Longrightarrow> br_id r = bid"
  by (auto simp: branch_where_def dest: find_row_Some)

lemma casBranch_hit:
  assumes "distinct (map br_id (branches d))" "branch_where bid d = Some r" "br_head r = h" "\<And>r. br_id (f r) = br_id r"
  shows "fst (casBranch bid h f d) = 1"
    and "branch_where bid (snd (casBranch bid h f d)) = Some ((f r)\<lparr>br_head := h + 1\<rparr>)"
proof -
  have r: "r \<in> set (branches d)" "br_id r = bid"
    using assms(2) by (auto simp: branch_where_def dest: find_row_Some)
  have only: "r' \<in> set (branches d) \<Longrightarrow> br_id r' = bid \<Longrightarrow> r' = r" for r'
    using assms(1) r by (auto simp: distinct_map inj_on_def)
  then have eq: "r' \<in> set (branches d) \<Longrightarrow> (br_id r' = bid \<and> br_head r' = h) = (br_id r' = bid)" for r'
    using assms(3) by auto
  have "affected (\<lambda>r. br_id r = bid \<and> br_head r = h) (branches d) = affected (\<lambda>r. br_id r = bid) (branches d)"
    unfolding affected_def using eq by (metis (mono_tags, lifting) filter_cong)
  also have "\<dots> = 1"
    using affected_unique [OF assms(1)] assms(2) by (simp add: branch_where_def)
  finally show "fst (casBranch bid h f d) = 1"
    by (simp add: casBranch_def Let_def)
  have "update_where (\<lambda>r. br_id r = bid \<and> br_head r = h) (\<lambda>r. (f r)\<lparr>br_head := br_head r + 1\<rparr>) (branches d) =
      update_where (\<lambda>r. br_id r = bid) (\<lambda>r. (f r)\<lparr>br_head := br_head r + 1\<rparr>) (branches d)"
    unfolding update_where_def using eq by (intro map_cong) auto
  then show "branch_where bid (snd (casBranch bid h f d)) = Some ((f r)\<lparr>br_head := h + 1\<rparr>)"
    using assms(2-4) by (simp add: casBranch_def Let_def branch_where_def find_row_update_same)
qed

text \<open>A compare-and-swap that read the branch in the same transaction always wins.\<close>

lemma casBranch_ok:
  assumes "distinct (map br_id (branches d))" "scanBranch (branch_where bid d) = Inr b"
    and "branches d1 = branches d" "\<And>r. br_id (f r) = br_id r"
  shows "fst (casBranch bid (b_head b) f d1) = 1"
proof -
  obtain r where "branch_where bid d = Some r" "br_head r = b_head b"
    using assms(2) by (auto elim!: scanBranch_Inr)
  then show ?thesis
    using assms by (intro casBranch_hit(1)) (simp_all add: branch_where_def)
qed

lemma casBranch_row:
  assumes "casBranch bid (b_head b) f d1 = (1, d2)" "scanBranch (branch_where bid d) = Inr b" "branches d1 = branches d"
    "\<And>r. br_id (f r) = br_id r"  "distinct (map br_id (branches d))"
  obtains r where "branch_where bid d = Some r" "branch_where bid d2 = Some ((f r)\<lparr>br_head := br_head r + 1\<rparr>)"
    "b_head b = br_head r"
proof -
  obtain r where r: "branch_where bid d = Some r" "br_head r = b_head b"
    using assms(2) by (auto elim!: scanBranch_Inr)
  then have "branch_where bid (snd (casBranch bid (b_head b) f d1)) = Some ((f r)\<lparr>br_head := b_head b + 1\<rparr>)"
    using assms(3-5) by (intro casBranch_hit(2)) (simp_all add: branch_where_def)
  then show ?thesis using r assms(1) by (intro that [of r]) simp_all
qed

lemma faultedApply_branches:
  "takeFault bid t ph d = Inr (res, d') \<Longrightarrow> branches d' = branches d"
  "faultedApply bid t w f d = Inr (res', d') \<Longrightarrow> branches d' = branches d"
proof -
  show take: "takeFault bid t ph d = Inr (res, d') \<Longrightarrow> branches d' = branches d" for ph d res d'
    by (erule takeFault_Inr) auto
  show "faultedApply bid t w f d = Inr (res', d') \<Longrightarrow> branches d' = branches d"
    unfolding faultedApply_def by (auto split: prod.splits option.splits if_splits dest!: take)
qed

lemma actionStep_branches: "actionStep b target f e st d = Inr (st', d') \<Longrightarrow> branches d' = branches d"
  unfolding actionStep_def Let_def
  by (auto split: prod.splits option.splits if_split_asm dest!: faultedApply_branches appendToolAudit_Inr(1))

lemma stepLoop_branches: "stepLoop b target f es st d = Inr (st', d') \<Longrightarrow> branches d' = branches d"
proof (induction es arbitrary: st d)
  case (Cons e es)
  from Cons.prems show ?case
    by (auto split: if_split_asm prod.splits dest!: actionStep_branches Cons.IH)
qed simp

end
