(* ===== verification/Store_Inv.thy ===== *)
theory Store_Inv
  imports Store_Run
begin

text \<open>
  The invariant of the database: unique keys, the \<open>CHECK\<close> constraints of the schema, row
  limits, and in every row a well-formed world state with a valid queue, a canonical clock
  and a digest. Every operation of the store keeps it.
\<close>

section \<open>The database invariant\<close>

definition canonical_clock :: "string \<Rightarrow> bool" where
  "canonical_clock c \<longleftrightarrow> (\<exists>t. parse_nano c = Some (t, True) \<and> format_nano t = c)"

definition state_ok :: "world_state \<Rightarrow> bool" where
  "state_ok s \<longleftrightarrow> wf_state s \<and> validateInternalState s = Inr ()"

definition row_ok :: "branch_row \<Rightarrow> bool" where
  "row_ok r \<longleftrightarrow> controlIDPattern (br_id r) \<and> state_ok (br_state r) \<and> canonical_clock (br_clock r) \<and>
     digestPattern (br_digest r) \<and> 0 \<le> br_calls r \<and> 0 \<le> br_head r"

definition snap_ok :: "snapshot_row \<Rightarrow> bool" where
  "snap_ok r \<longleftrightarrow> controlIDPattern (sn_name r) \<and> digestPattern (sn_id r) \<and> state_ok (sn_state r) \<and>
     canonical_clock (sn_clock r) \<and> digestPattern (sn_digest r) \<and> sn_schema r = schemaVersion"

definition plan_key :: "fault_plan \<Rightarrow> string \<times> string" where
  "plan_key p = (fp_branch p, fp_id p)"

definition plans_ok :: "fault_plan list \<Rightarrow> bool" where
  "plans_ok ps \<longleftrightarrow> distinct (map plan_key ps) \<and> (\<forall>p \<in> set ps. faultRowChecks p) \<and>
     (\<forall>bid. length (filter (\<lambda>p. fp_branch p = bid) ps) \<le> MaxFaultPlans)"

definition audit_ok :: "audit_row \<Rightarrow> bool" where
  "audit_ok u \<longleftrightarrow> length (au_input u) + length (au_result u) \<le> MaxAuditEventBytes"

definition db_ok :: "db \<Rightarrow> bool" where
  "db_ok d \<longleftrightarrow>
     distinct (map br_id (branches d)) \<and> length (branches d) \<le> MaxForks \<and> (\<forall>r \<in> set (branches d). row_ok r) \<and>
     distinct (map sn_id (snapshots d)) \<and> distinct (map sn_name (snapshots d)) \<and>
     length (snapshots d) \<le> MaxSnapshots \<and> (\<forall>r \<in> set (snapshots d). snap_ok r) \<and>
     plans_ok (fault_plans d) \<and> (\<forall>u \<in> set (audit d). audit_ok u)"

lemma within_budget_internal: "within_budget s \<Longrightarrow> validateInternalState s = Inr ()"
  by (simp add: within_budget_def validateInternalState_iff)

lemma state_ok_Clone: "state_ok s \<Longrightarrow> state_ok (Clone s)"
  by (simp add: state_ok_def wf_state_Clone validateInternalState_Clone)

lemma canonical_clock_parse: "canonical_clock c \<Longrightarrow> parse_nano c = Some (t, u) \<Longrightarrow> u \<and> format_nano t = c"
  by (auto simp: canonical_clock_def)

lemma canonical_clock_reformat: "canonical_clock c \<Longrightarrow> parse_nano c = Some (t, u) \<Longrightarrow> canonical_clock (format_nano t)"
  by (auto simp: canonical_clock_def)

lemma canonical_clock_format: "0 \<le> t \<Longrightarrow> t < max_instant \<Longrightarrow> canonical_clock (format_nano t)"
  using parse_format [of t] by (auto simp: canonical_clock_def)

lemma scan_row_ok:
  assumes "scanBranch (branch_where bid d) = Inr b" "\<forall>r \<in> set (branches d). row_ok r"
  shows "state_ok (b_state b)" "canonical_clock (format_nano (b_clock b))" "digestPattern (b_digest b)" "0 \<le> b_calls b"
    "0 \<le> b_head b" "controlIDPattern bid"
proof -
  obtain r where "branch_where bid d = Some r" "row_ok r" "br_id r = bid"
    using assms by (auto elim!: scanBranch_Inr simp: branch_where_def dest: find_row_Some)
  then show "state_ok (b_state b)" "canonical_clock (format_nano (b_clock b))" "digestPattern (b_digest b)" "0 \<le> b_calls b"
    "0 \<le> b_head b" "controlIDPattern bid"
    using assms(1) by (auto elim!: scanBranch_Inr simp: row_ok_def state_ok_Clone dest: canonical_clock_reformat)
qed

lemma scan_snap_ok:
  assumes "scanSnapshot (snapshot_where name d) = Inr s" "\<forall>r \<in> set (snapshots d). snap_ok r"
  shows "state_ok (s_state s)" "canonical_clock (format_nano (s_clock s))" "digestPattern (s_digest s)"
proof -
  obtain r where "snapshot_where name d = Some r" "snap_ok r"
    using assms by (auto elim!: scanSnapshot_Inr simp: snapshot_where_def dest: find_row_Some)
  then show "state_ok (s_state s)" "canonical_clock (format_nano (s_clock s))" "digestPattern (s_digest s)"
    using assms(1) by (auto elim!: scanSnapshot_Inr simp: snap_ok_def state_ok_Clone dest: canonical_clock_reformat)
qed

lemma ball_update_where:
  assumes "\<forall>r \<in> set t. P r" "\<And>r. r \<in> set t \<Longrightarrow> P r \<Longrightarrow> p r \<Longrightarrow> P (f r)"
  shows "\<forall>r \<in> set (update_where p f t). P r"
  using assms by (auto simp: update_where_def)

text \<open>The part of the invariant a compare-and-swap of one branch has to re-establish.\<close>

lemma db_ok_cas:
  assumes "db_ok d" "casBranch bid h f d = (n, d')"
    and "\<And>r. br_id (f r) = br_id r" "\<And>r. row_ok r \<Longrightarrow> row_ok (f r)" "\<And>r. br_head (f r) = br_head r"
  shows "db_ok d'"
proof -
  let ?p = "\<lambda>r. br_id r = bid \<and> br_head r = h" and ?f = "\<lambda>r. (f r)\<lparr>br_head := br_head r + 1\<rparr>"
  have d': "d' = d\<lparr>branches := update_where ?p ?f (branches d)\<rparr>"
    using assms(2) by (simp add: casBranch_def Let_def)
  have "\<forall>r \<in> set (update_where ?p ?f (branches d)). row_ok r"
  proof (rule ball_update_where)
    show "\<forall>r \<in> set (branches d). row_ok r" using assms(1) by (simp add: db_ok_def)
    fix r assume "row_ok r"
    then have "row_ok (f r)" "0 \<le> br_head r" using assms(4) by (simp_all add: row_ok_def)
    then show "row_ok (?f r)" by (simp add: row_ok_def)
  qed
  moreover have "map br_id (update_where ?p ?f (branches d)) = map br_id (branches d)"
    using assms(3) by (intro map_update_where) simp
  ultimately show ?thesis
    using assms(1) unfolding db_ok_def d' by simp
qed

lemma db_ok_simps [simp]:
  "db_ok (appendControlAudit o1 bid n x y d) = db_ok d"
  "db_ok (appendFaultEvent bid c f x y d) = db_ok d"
  by (simp_all add: db_ok_def)

lemma db_ok_appendToolAudit: "appendToolAudit bid c t i out x y d = Inr d' \<Longrightarrow> db_ok d \<Longrightarrow> db_ok d'"
  by (frule appendToolAudit_Inr(1), drule appendToolAudit_Inr(2)) (auto simp: db_ok_def audit_ok_def)

lemma plans_ok_spend:
  assumes "plans_ok ps" "p \<in> set ps" "0 < fp_remaining p"
  shows "plans_ok (update_where (is_plan p) spend ps)"
proof -
  have "map plan_key (update_where (is_plan p) spend ps) = map plan_key ps"
    by (intro map_update_where) (simp add: plan_key_def)
  moreover have "map fp_branch (update_where (is_plan p) spend ps) = map fp_branch ps"
    by (intro map_update_where) simp
  then have "length (filter (\<lambda>q. fp_branch q = bid) (update_where (is_plan p) spend ps)) =
      length (filter (\<lambda>q. fp_branch q = bid) ps)" for bid
    by (simp add: update_where_def filter_map comp_def if_distrib cong: if_cong)
  moreover have "\<forall>q \<in> set (update_where (is_plan p) spend ps). faultRowChecks q"
  proof (rule ball_update_where)
    show "\<forall>q \<in> set ps. faultRowChecks q" using assms(1) by (simp add: plans_ok_def)
    fix q assume "faultRowChecks q" "is_plan p q"
    then show "faultRowChecks (spend q)"
      using assms(3) by (auto simp: faultRowChecks_def is_plan_def)
  qed
  ultimately show ?thesis using assms(1) by (simp add: plans_ok_def)
qed

lemma db_ok_takeFault: "takeFault bid t ph d = Inr (res, d') \<Longrightarrow> db_ok d \<Longrightarrow> db_ok d'"
  by (erule takeFault_Inr) (auto simp: db_ok_def intro!: plans_ok_spend dest: armed_head)

lemma db_ok_faultedApply: "faultedApply bid t w f d = Inr (res, d') \<Longrightarrow> db_ok d \<Longrightarrow> db_ok d'"
  unfolding faultedApply_def
  by (auto split: prod.splits option.splits if_splits dest!: db_ok_takeFault)

text \<open>A callback whose result is a state again: its Go maps have distinct keys.\<close>

definition keeps_maps :: "(world_state \<Rightarrow> error + world_state \<times> call_outcome) \<Rightarrow> bool" where
  "keeps_maps f \<longleftrightarrow> (\<forall>w w' out. wf_state w \<longrightarrow> f w = Inr (w', out) \<longrightarrow> wf_state w')"

lemma faultedApply_wf:
  assumes "faultedApply bid t w f d = Inr ((w', out, fired), d')" "wf_state w" "keeps_maps f"
  shows "wf_state w'"
  using assms unfolding faultedApply_def keeps_maps_def
  by (auto split: prod.splits option.splits if_splits)

lemma events_of_set_event: "events_of (set_event e s) = put (ev_id e) e (events_of s)"
  by (simp add: set_event_def events_of_def EnsureScheduler_def Let_def split: option.splits)

lemma set_event_other [simp]:
  "Entities (set_event e s) = Entities s" "Sequences (set_event e s) = Sequences s" "Entropy (set_event e s) = Entropy s"
  by (simp_all add: set_event_def Let_def)

lemma wf_state_set_event: "wf_state s \<Longrightarrow> wf_state (set_event e s)"
  by (simp add: wf_state_def events_of_set_event wf_map_put)

lemma wf_state_fold_set_event: "wf_state s \<Longrightarrow> wf_state (fold set_event es s)"
  by (induction es arbitrary: s) (auto intro: wf_state_set_event)

lemma actionStep_ok:
  assumes "actionStep b target f e st d = Inr (st', d')" "db_ok d" "wf_state (st_working st)" "0 \<le> st_calls st"
    and "\<And>c t i. keeps_maps (\<lambda>w. f w target c t i)"
  shows "db_ok d' \<and> wf_state (st_working st') \<and> 0 \<le> st_calls st'"
  using assms(1)
proof (rule actionStep_Inr)
  fix a candidate outcome fired d1 kept event after d2
  assume fa: "faultedApply (b_id b) (act_tool a) (Clone (st_working st))
       (\<lambda>w. f w target (st_calls st + 1) (act_tool a) (act_input a)) d = Inr ((candidate, outcome, fired), d1)"
    and kept: "kept = (if oc_commit outcome then candidate else Clone (st_working st))"
    and after: "after = set_event event kept"
    and d2: "appendToolAudit (b_id b) (st_calls st + 1) (act_tool a) (record_json (act_input a)) outcome
       (state_digest (st_working st)) (state_digest after) d1 = Inr d2"
    and st': "st' = st\<lparr>st_working := after, st_calls := st_calls st + 1,
              st_processed := st_processed st @ [event], st_executed := st_executed st + 1\<rparr>"
    and d': "d' = (case fired of None \<Rightarrow> d2
           | Some f \<Rightarrow> appendFaultEvent (b_id b) (st_calls st + 1) f (state_digest (st_working st)) (state_digest after) d2)"
  have "wf_state candidate"
    using fa wf_state_Clone [OF assms(3)] assms(5) by (rule faultedApply_wf)
  then have "wf_state after"
    using assms(3) by (simp add: after kept wf_state_set_event wf_state_Clone)
  moreover have "db_ok d2"
    using assms(2) fa d2 by (blast intro: db_ok_faultedApply db_ok_appendToolAudit)
  ultimately show ?thesis
    using assms(4) by (auto simp: st' d' split: option.splits)
qed

lemma stepLoop_ok:
  assumes "stepLoop b target f es st d = Inr (st', d')" "db_ok d" "wf_state (st_working st)" "0 \<le> st_calls st"
    and "\<And>c t i. keeps_maps (\<lambda>w. f w target c t i)"
  shows "db_ok d' \<and> wf_state (st_working st') \<and> 0 \<le> st_calls st'"
  using assms(1-4)
proof (induction es arbitrary: st d)
  case (Cons e es)
  show ?case
  proof (cases "ev_kind e = KindSignal")
    case True
    with Cons.prems show ?thesis
      by (intro Cons.IH [of "signalStep e st" d]) (simp_all add: signalStep_def Let_def wf_state_set_event)
  next
    case False
    with Cons.prems obtain st1 d1 where "actionStep b target f e st d = Inr (st1, d1)" "stepLoop b target f es st1 d1 = Inr (st', d')"
      by (auto split: if_split_asm)
    moreover from this(1) have "db_ok d1 \<and> wf_state (st_working st1) \<and> 0 \<le> st_calls st1"
      using Cons.prems(2-4) by (rule actionStep_ok) (rule assms(5))
    ultimately show ?thesis using Cons.IH by blast
  qed
qed simp

section \<open>Runs that keep the invariant\<close>

text \<open>
  The steps of \<open>store_step\<close> whose callers keep to the contract of the Go types: states and
  callback results are maps with distinct keys, and instants stay within the years 0 to 9999
  that RFC 3339 can write.
\<close>

inductive safe_step :: "db \<Rightarrow> db \<Rightarrow> bool" where
  "InitializeBranch bid sp s c d = (Inr u, d') \<Longrightarrow> wf_state s \<Longrightarrow> 0 \<le> c \<Longrightarrow> c < max_instant \<Longrightarrow> safe_step d d'"
| "ApplyCall bid sp t i f d = (Inr ar, d') \<Longrightarrow> (\<And>c n. keeps_maps (\<lambda>w. f w c n)) \<Longrightarrow> safe_step d d'"
| "InstallFault plan h d = (Inr p, d') \<Longrightarrow> safe_step d d'"
| "RemoveFault bid fid h d = (Inr u, d') \<Longrightarrow> safe_step d d'"
| "CreateSnapshot name bid d = (Inr sn, d') \<Longrightarrow> safe_step d d'"
| "Fork name bid d = (Inr u, d') \<Longrightarrow> safe_step d d'"
| "Reset name bid d = (Inr u, d') \<Longrightarrow> safe_step d d'"
| "ScheduleEvent rq h d = (Inr e, d') \<Longrightarrow> safe_step d d'"
| "CancelScheduledEvent bid eid h d = (Inr e, d') \<Longrightarrow> safe_step d d'"
| "AdvanceClock bid target h d = (Inr cr, d') \<Longrightarrow> 0 \<le> target \<Longrightarrow> target < max_instant \<Longrightarrow> safe_step d d'"
| "advanceClockToNext bid h sp g d = (Inr sr, d') \<Longrightarrow>
     (\<And>f c n t i. g = Some f \<Longrightarrow> keeps_maps (\<lambda>w. f w c n t i)) \<Longrightarrow> safe_step d d'"

lemma row_ok_update:
  "row_ok r \<Longrightarrow> state_ok s \<Longrightarrow> row_ok (r\<lparr>br_state := s, br_digest := state_digest s\<rparr>)"
  by (simp add: row_ok_def state_digest_def)

lemma db_ok_saveState: "saveState op bid b s d = Inr d' \<Longrightarrow> db_ok d \<Longrightarrow> state_ok s \<Longrightarrow> db_ok d'"
  by (erule saveState_Inr) (simp, erule db_ok_cas, assumption, simp_all add: row_ok_update)

lemma db_ok_InitializeBranch:
  "InitializeBranch bid sp s c d = (Inr u, d') \<Longrightarrow> wf_state s \<Longrightarrow> 0 \<le> c \<Longrightarrow> c < max_instant \<Longrightarrow> db_ok d \<Longrightarrow> db_ok d'"
  by (erule InitializeBranch_Inr)
     (auto simp: db_ok_def row_exists_def row_ok_def state_ok_def state_digest_def within_budget_internal canonical_clock_format)

lemma db_ok_ApplyCall:
  assumes "ApplyCall bid sp t i f d = (Inr ar, d')" "\<And>c n. keeps_maps (\<lambda>w. f w c n)" "db_ok d"
  shows "db_ok d'"
  using assms(1)
proof (rule ApplyCall_Inr)
  fix b working' outcome fired d1 working d2 d3
  assume b: "scanBranch (branch_where bid d) = Inr b"
    and fa: "faultedApply bid t (Clone (b_state b)) (\<lambda>w. f w (b_clock b) (b_calls b + 1)) d = Inr ((working', outcome, fired), d1)"
    and w: "working = (if oc_commit outcome then working' else b_state b)" "within_budget working"
    and d2: "appendToolAudit bid (b_calls b + 1) t i outcome (b_digest b) (state_digest working) d1 = Inr d2"
    and cas: "casBranch bid (b_head b) (\<lambda>r. r\<lparr>br_state := working, br_digest := state_digest working, br_calls := b_calls b + 1\<rparr>) d2 = (1, d3)"
    and d': "d' = (case fired of None \<Rightarrow> d3 | Some f \<Rightarrow> appendFaultEvent bid (b_calls b + 1) f (b_digest b) (state_digest working) d3)"
  have sb: "wf_state (b_state b)" "0 \<le> b_calls b"
    using scan_row_ok [OF b] assms(3) by (simp_all add: db_ok_def state_ok_def)
  then have "wf_state working'"
    using faultedApply_wf [OF fa] assms(2) by (simp add: wf_state_Clone)
  then have "state_ok working"
    using sb w by (simp add: state_ok_def within_budget_internal)
  moreover have "db_ok d2"
    using assms(3) fa d2 by (blast intro: db_ok_faultedApply db_ok_appendToolAudit)
  ultimately have "db_ok d3"
    by (intro db_ok_cas [OF _ cas]) (use sb in \<open>auto simp: row_ok_def state_digest_def\<close>)
  then show ?thesis by (simp add: d' split: option.splits)
qed

lemma db_ok_InstallFault:
  assumes "InstallFault plan h d = (Inr p, d')" "db_ok d"
  shows "db_ok d'"
  using assms(1)
proof (rule InstallFault_Inr)
  fix b d2
  let ?row = "plan\<lparr>fp_fired := 0\<rparr>"
  assume few: "affected (\<lambda>r. fp_branch r = fp_branch plan) (fault_plans d) < MaxFaultPlans"
    and new: "\<not> row_exists (\<lambda>r. fp_branch r = fp_branch plan \<and> fp_id r = fp_id plan) (fault_plans d)"
    and row: "faultRowChecks ?row"
    and cas: "casBranch (fp_branch plan) (b_head b) id (d\<lparr>fault_plans := fault_plans d @ [?row]\<rparr>) = (1, d2)"
    and d': "d' = appendControlAudit ''fault.install'' (fp_branch plan) (fp_id plan) (b_digest b) (b_digest b) d2"
  have "plans_ok (fault_plans d @ [?row])"
    using assms(2) few new row by (auto simp: db_ok_def plans_ok_def plan_key_def row_exists_def affected_def)
  then have "db_ok (d\<lparr>fault_plans := fault_plans d @ [?row]\<rparr>)"
    using assms(2) by (simp add: db_ok_def)
  then have "db_ok d2"
    by (rule db_ok_cas [OF _ cas]) simp_all
  then show ?thesis by (simp add: d')
qed

lemma plans_ok_filter: "plans_ok ps \<Longrightarrow> plans_ok (filter q ps)"
proof -
  assume ps: "plans_ok ps"
  have "length (filter (\<lambda>p. fp_branch p = bid) (filter q ps)) \<le> length (filter (\<lambda>p. fp_branch p = bid) ps)" for bid
    by (induction ps) auto
  with ps show ?thesis
    unfolding plans_ok_def by (auto intro: distinct_map_filter order_trans)
qed

lemma db_ok_RemoveFault:
  assumes "RemoveFault bid fid h d = (Inr u, d')" "db_ok d"
  shows "db_ok d'"
  using assms(1)
proof (rule RemoveFault_Inr)
  fix b d2
  let ?d1 = "d\<lparr>fault_plans := filter (\<lambda>r. \<not> (fp_branch r = bid \<and> fp_id r = fid)) (fault_plans d)\<rparr>"
  assume cas: "casBranch bid (b_head b) id ?d1 = (1, d2)"
    and d': "d' = appendControlAudit ''fault.remove'' bid fid (b_digest b) (b_digest b) d2"
  have "db_ok ?d1"
    using assms(2) plans_ok_filter [of "fault_plans d"] by (simp add: db_ok_def)
  then have "db_ok d2"
    by (rule db_ok_cas [OF _ cas]) simp_all
  then show ?thesis by (simp add: d')
qed

lemma db_ok_CreateSnapshot:
  assumes "CreateSnapshot name bid d = (Inr sn, d')" "db_ok d"
  shows "db_ok d'"
  using assms(1)
proof (rule CreateSnapshot_Inr)
  fix b
  assume b: "scanBranch (branch_where bid d) = Inr b" and new: "controlIDPattern name" "length (snapshots d) < MaxSnapshots"
      "\<not> row_exists (\<lambda>r. sn_id r = snapshot_id name b \<or> sn_name r = name) (snapshots d)"
    and d': "d' = appendControlAudit ''snapshot.create'' bid name (b_digest b) (b_digest b) (d\<lparr>snapshots := snapshots d @
       [\<lparr>sn_id = snapshot_id name b, sn_name = name, sn_spec = b_spec b, sn_state = b_state b, sn_digest = b_digest b,
         sn_clock = format_nano (b_clock b), sn_sourceHead = b_head b, sn_schema = schemaVersion\<rparr>]\<rparr>)"
  have "state_ok (b_state b)" "canonical_clock (format_nano (b_clock b))" "digestPattern (b_digest b)"
    using scan_row_ok [OF b] assms(2) by (simp_all add: db_ok_def)
  then show ?thesis
    using assms(2) new unfolding d' by (auto simp: db_ok_def snap_ok_def row_exists_def snapshot_id_def)
qed

lemma db_ok_Fork:
  assumes "Fork name bid d = (Inr u, d')" "db_ok d"
  shows "db_ok d'"
  using assms(1)
proof (rule Fork_Inr)
  fix s
  assume s: "scanSnapshot (snapshot_where name d) = Inr s" and new: "controlIDPattern bid" "length (branches d) < MaxForks"
      "\<not> row_exists (\<lambda>r. br_id r = bid) (branches d)"
    and d': "d' = appendControlAudit ''branch.fork'' bid name [] (s_digest s) (d\<lparr>branches := branches d @
       [\<lparr>br_id = bid, br_spec = s_spec s, br_state = s_state s, br_digest = s_digest s,
         br_clock = format_nano (s_clock s), br_calls = 0, br_head = 0\<rparr>]\<rparr>)"
  have "state_ok (s_state s)" "canonical_clock (format_nano (s_clock s))" "digestPattern (s_digest s)"
    using scan_snap_ok [OF s] assms(2) by (simp_all add: db_ok_def)
  then show ?thesis
    using assms(2) new unfolding d' by (auto simp: db_ok_def row_ok_def row_exists_def)
qed

lemma db_ok_Reset:
  assumes "Reset name bid d = (Inr u, d')" "db_ok d"
  shows "db_ok d'"
  using assms(1)
proof (rule Reset_Inr)
  fix s b n d1
  assume s: "scanSnapshot (snapshot_where name d) = Inr s"
    and cas: "casBranch bid (b_head b) (\<lambda>r. r\<lparr>br_spec := s_spec s, br_state := s_state s, br_digest := s_digest s,
       br_clock := format_nano (s_clock s), br_calls := 0\<rparr>) d = (n, d1)"
    and d': "d' = appendControlAudit ''branch.reset'' bid name (b_digest b) (s_digest s) d1"
  have "state_ok (s_state s)" "canonical_clock (format_nano (s_clock s))" "digestPattern (s_digest s)"
    using scan_snap_ok [OF s] assms(2) by (simp_all add: db_ok_def)
  then have "db_ok d1"
    by (intro db_ok_cas [OF assms(2) cas]) (simp_all add: row_ok_def)
  then show ?thesis by (simp add: d')
qed

text \<open>Replacing an event by one with the same sequence number.\<close>

lemma map_put_same:
  "wf_map m \<Longrightarrow> map_of m k = Some v \<Longrightarrow> g w = g v \<Longrightarrow> map (g \<circ> snd) (put k w m) = map (g \<circ> snd) m"
proof (induction k w m rule: put.induct)
  case (2 k w k' v' m)
  show ?case
  proof (cases "k < k'")
    case True
    with 2 have "k \<notin> fst ` set ((k', v') # m)"
      by (force simp: wf_map_Cons)
    then have "map_of ((k', v') # m) k = None"
      by (simp only: map_of_eq_None_iff not_False_eq_True)
    with 2 show ?thesis by simp
  next
    case False
    with 2 show ?thesis by (auto simp: wf_map_Cons)
  qed
qed simp

lemma state_ok_replace:
  assumes "state_ok s" "Scheduler s = Some sc" "map_of (events sc) k = Some e" "ev_seq e' = ev_seq e"
    and "valid_event (nextCreationSequence sc) k e'"
  shows "state_ok (s\<lparr>Scheduler := Some (sc\<lparr>events := put k e' (events sc)\<rparr>)\<rparr>)"
proof -
  have wf: "wf_map (events sc)"
    using assms(1,2) by (simp add: state_ok_def wf_state_def events_of_def)
  have "wf_state (s\<lparr>Scheduler := Some (sc\<lparr>events := put k e' (events sc)\<rparr>)\<rparr>)"
    using assms(1) wf by (simp add: state_ok_def wf_state_def events_of_def wf_map_put)
  moreover have "\<forall>(k', x) \<in> set (put k e' (events sc)). valid_event (nextCreationSequence sc) k' x"
    using assms(1,2,5) by (auto simp: state_ok_def validateInternalState_iff dest!: set_put)
  moreover have "distinct (map (ev_seq \<circ> snd) (put k e' (events sc)))"
    using map_put_same [OF wf assms(3), of ev_seq e'] assms(1,2,4) by (simp add: state_ok_def validateInternalState_iff)
  ultimately show ?thesis
    using assms(1,2) by (simp add: state_ok_def validateInternalState_iff)
qed

lemma valid_event_of: "state_ok s \<Longrightarrow> Scheduler s = Some sc \<Longrightarrow> map_of (events sc) k = Some e \<Longrightarrow>
    valid_event (nextCreationSequence sc) k e"
  by (auto simp: state_ok_def validateInternalState_iff dest!: map_of_SomeD)

lemma valid_event_cancel:
  assumes "valid_event n k e" "ev_status e = Pending" "canonical_clock c"
  shows "valid_event n k (e\<lparr>ev_status := Canceled, ev_canceledAt := c\<rparr>)"
proof -
  let ?e = "e\<lparr>ev_status := Canceled, ev_canceledAt := c\<rparr>"
  have c: "validateCanceledAt ?e"
    using assms(3) by (auto simp: validateCanceledAt_def canonical_clock_def)
  have "validateSignalLifecycle ?e = Inr ()" if "validateSignalLifecycle e = Inr ()"
    using that assms(2) c by (simp add: validateSignalLifecycle_def Let_def split: if_splits)
  moreover have "validateActionLifecycle ?e = Inr ()" if "validateActionLifecycle e = Inr ()"
    using that assms(2) c by (cases "ev_action e") (simp_all add: validateActionLifecycle_def Let_def split: if_splits)
  ultimately show ?thesis
    using assms(1) by (auto simp: valid_event_def canonicalDueAt_def cong: option.case_cong)
qed

lemma db_ok_CancelScheduledEvent:
  assumes "CancelScheduledEvent bid eid h d = (Inr e', d')" "db_ok d"
  shows "db_ok d'"
  using assms(1)
proof (rule CancelScheduledEvent_Inr)
  fix b e sc s
  assume b: "scanBranch (branch_where bid d) = Inr b" and e: "map_of (events_of (b_state b)) eid = Some e" "ev_status e = Pending"
    and sc: "Scheduler (b_state b) = Some sc"
    and e': "e' = e\<lparr>ev_status := Canceled, ev_canceledAt := format_nano (b_clock b)\<rparr>"
    and s: "s = (b_state b)\<lparr>Scheduler := Some (sc\<lparr>events := put eid e' (events sc)\<rparr>)\<rparr>"
    and save: "saveState ''scheduler.event.cancel'' bid b s d = Inr d'"
  have ok: "state_ok (b_state b)" "canonical_clock (format_nano (b_clock b))"
    using scan_row_ok [OF b] assms(2) by (simp_all add: db_ok_def)
  have me: "map_of (events sc) eid = Some e"
    using e(1) sc by (simp add: events_of_def)
  have "state_ok s"
    unfolding s e' using valid_event_cancel [OF valid_event_of [OF ok(1) sc me] e(2) ok(2)]
    by (intro state_ok_replace [OF ok(1) sc me]) simp_all
  with save assms(2) show ?thesis by (simp add: db_ok_saveState)
qed

lemma db_ok_ScheduleEvent:
  assumes "ScheduleEvent rq h d = (Inr e, d')" "db_ok d"
  shows "db_ok d'"
  using assms(1)
proof (rule ScheduleEvent_Inr)
  fix dueAt b s
  assume b: "scanBranch (branch_where (rq_branch rq) d) = Inr b"
    and s: "s = (b_state b)\<lparr>Scheduler := Some \<lparr>nextCreationSequence = nextCreationSequence (EnsureScheduler (b_state b)) + 1,
       events = put (rq_id rq) e (events_of (b_state b))\<rparr>\<rparr>"
    and budget: "within_budget s" and save: "saveState ''scheduler.event.create'' (rq_branch rq) b s d = Inr d'"
  have "wf_state (b_state b)"
    using scan_row_ok [OF b] assms(2) by (simp add: db_ok_def state_ok_def)
  then have "wf_state s"
    by (simp add: s wf_state_def events_of_def wf_map_put)
  then have "state_ok s"
    using budget by (simp add: state_ok_def within_budget_internal)
  with save assms(2) show ?thesis by (simp add: db_ok_saveState)
qed

lemma db_ok_AdvanceClock:
  assumes "AdvanceClock bid target h d = (Inr r, d')" "0 \<le> target" "target < max_instant" "db_ok d"
  shows "db_ok d'"
  using assms(1)
proof (rule AdvanceClock_Inr)
  fix b due s d1
  assume b: "scanBranch (branch_where bid d) = Inr b"
    and s: "s = fold set_event (map deliver due) (b_state b)" "within_budget s"
    and cas: "casBranch bid (b_head b) (\<lambda>r. r\<lparr>br_clock := format_nano target, br_state := s, br_digest := state_digest s\<rparr>) d = (1, d1)"
    and d': "d' = appendControlAudit ''clock.advance'' bid [] (b_digest b) (state_digest s) d1"
  have "wf_state (b_state b)"
    using scan_row_ok [OF b] assms(4) by (simp add: db_ok_def state_ok_def)
  then have "state_ok s"
    using s by (simp add: state_ok_def within_budget_internal wf_state_fold_set_event)
  then have "db_ok d1"
    by (intro db_ok_cas [OF assms(4) cas])
       (use assms(2,3) in \<open>simp_all add: row_ok_def state_digest_def canonical_clock_format\<close>)
  then show ?thesis by (simp add: d')
qed

lemma set_pending: "e \<in> set (pendingScheduledEvents s) \<longleftrightarrow> ev_status e = Pending \<and> e \<in> snd ` set (events_of s)"
  by (auto simp: pendingScheduledEvents_def scheduledEvents_def vals_def)

lemma valid_event_in: "validateInternalState s = Inr () \<Longrightarrow> e \<in> snd ` set (events_of s) \<Longrightarrow>
    \<exists>n. valid_event n (ev_id e) e"
  unfolding events_of_def validateInternalState_iff
  by (cases "Scheduler s") (auto simp: valid_event_def)

lemma canonical_due: "valid_event n k e \<Longrightarrow> DueTime e = Some t \<Longrightarrow> canonical_clock (format_nano t) \<and> format_nano t = ev_dueAt e"
  by (auto simp: valid_event_def canonicalDueAt_def DueTime_def canonical_clock_def split: option.splits)

lemma db_ok_advanceClockToNext:
  assumes "advanceClockToNext bid h sp g d = (Inr r, d')" "db_ok d"
    and "\<And>f c n t i. g = Some f \<Longrightarrow> keeps_maps (\<lambda>w. f w c n t i)"
  shows "db_ok d'"
  using assms(1)
proof (rule advanceClockToNext_Inr)
  fix b first others dueAt target n a st d1 d2
  let ?f = "case g of None \<Rightarrow> \<lambda>_ _ _ _ _. Inl (ErrPanic ''nil callback'') | Some f \<Rightarrow> f"
  assume b: "scanBranch (branch_where bid d) = Inr b" and p: "pendingScheduledEvents (b_state b) = first # others"
    and due: "DueTime first = Some dueAt" and target: "target = (if b_clock b < dueAt then dueAt else b_clock b)"
    and loop: "stepLoop b target ?f (take n (first # others))
       \<lparr>st_working = b_state b, st_calls = b_calls b, st_processed = [], st_delivered = [], st_executed = 0\<rparr> d = Inr (st, d1)"
    and budget: "within_budget (st_working st)"
    and cas: "casBranch bid (b_head b) (\<lambda>r. r\<lparr>br_clock := format_nano target, br_state := st_working st,
       br_digest := state_digest (st_working st), br_calls := st_calls st\<rparr>) d1 = (1, d2)"
    and d': "d' = appendControlAudit ''scheduler.advance.next'' bid [] (b_digest b) (state_digest (st_working st)) d2"
  have ok: "state_ok (b_state b)" "canonical_clock (format_nano (b_clock b))" "0 \<le> b_calls b"
    using scan_row_ok [OF b] assms(2) by (simp_all add: db_ok_def)
  obtain k where "valid_event k (ev_id first) first"
    using valid_event_in [of "b_state b" first] set_pending [of first "b_state b"] p ok(1) by (auto simp: state_ok_def)
  then have "canonical_clock (format_nano dueAt)"
    using canonical_due [OF _ due] by blast
  then have clock: "canonical_clock (format_nano target)"
    using ok(2) by (simp add: target)
  have "keeps_maps (\<lambda>w. ?f w target c t i)" for c t i
    using assms(3) by (cases g) (auto simp: keeps_maps_def)
  with loop assms(2) ok have st: "db_ok d1 \<and> wf_state (st_working st) \<and> 0 \<le> st_calls st"
    by (intro stepLoop_ok [OF loop]) (simp_all add: state_ok_def)
  then have "db_ok d2"
    by (intro db_ok_cas [OF _ cas])
       (use clock budget in \<open>simp_all add: row_ok_def state_digest_def state_ok_def within_budget_internal\<close>)
  then show ?thesis by (simp add: d')
qed

interpretation store: run_invariant safe_step db_ok
proof
  fix d d' assume "safe_step d d'" "db_ok d"
  then show "db_ok d'"
    by (induction rule: safe_step.induct)
       (blast intro: db_ok_InitializeBranch db_ok_ApplyCall db_ok_InstallFault db_ok_RemoveFault db_ok_CreateSnapshot
         db_ok_Fork db_ok_Reset db_ok_ScheduleEvent db_ok_CancelScheduledEvent db_ok_AdvanceClock db_ok_advanceClockToNext)+
qed

lemma db_ok_empty [simp]: "db_ok empty_db"
  by (simp add: db_ok_def empty_db_def plans_ok_def)

end
