(* ===== verification/Store_Time.thy ===== *)
theory Store_Time
  imports Store_Inv
begin

text \<open>
  Snapshots as time travel, the outcome of a call on each of its branches, and the fault
  protocol.
\<close>

section \<open>Reading a branch\<close>

lemma Branch_Inr:
  assumes "Branch bid d = Inr b" "db_ok d"
  obtains r where "branch_where bid d = Some r" "b_spec b = br_spec r" "b_state b = Clone (br_state r)"
    "b_digest b = br_digest r" "parse_nano (format_nano (b_clock b)) = Some (b_clock b, True)"
    "format_nano (b_clock b) = br_clock r" "b_calls b = br_calls r" "b_head b = br_head r" "within_budget (b_state b)"
proof -
  obtain r t u where r: "branch_where bid d = Some r" "parse_nano (br_clock r) = Some (t, u)" "within_budget (Clone (br_state r))"
    and b: "b = \<lparr>b_id = br_id r, b_spec = br_spec r, b_state = Clone (br_state r), b_digest = br_digest r,
          b_clock = t, b_calls = br_calls r, b_head = br_head r\<rparr>"
    using assms(1) unfolding Branch_def by (rule scanBranch_Inr)
  then have "canonical_clock (br_clock r)"
    using assms(2) by (auto simp: db_ok_def row_ok_def branch_where_def dest: find_row_Some)
  then have "format_nano t = br_clock r" "u"
    using r(2) by (auto dest: canonical_clock_parse)
  with r b show ?thesis by (intro that [of r]) auto
qed

lemma Branch_row:
  assumes "branch_where bid d = Some r" "parse_nano (br_clock r) = Some (t, u)" "within_budget (Clone (br_state r))"
  shows "Branch bid d = Inr \<lparr>b_id = br_id r, b_spec = br_spec r, b_state = Clone (br_state r), b_digest = br_digest r,
          b_clock = t, b_calls = br_calls r, b_head = br_head r\<rparr>"
  using assms by (simp add: Branch_def scanBranch_def Let_def flip: ValidateBudget_iff)

lemma branch_where_control [simp]:
  "branch_where bid (appendControlAudit o1 k n x y d) = branch_where bid d"
  "branch_where bid (appendFaultEvent k c f x y d) = branch_where bid d"
  by (simp_all add: branch_where_def)

text \<open>A branch with the content of another: what a reader of the world can tell of it.\<close>

definition same_world :: "branch \<Rightarrow> branch \<Rightarrow> bool" where
  "same_world b b' \<longleftrightarrow> b_spec b = b_spec b' \<and> b_state b = b_state b' \<and> b_digest b = b_digest b' \<and> b_clock b = b_clock b'"

section \<open>Snapshots\<close>

lemma snapshot_read:
  assumes "CreateSnapshot name bid d0 = (Inr sn, d1)" "Branch bid d0 = Inr b" "db_ok d0" "any_step\<^sup>*\<^sup>* d1 d2"
    and "scanSnapshot (snapshot_where name d2) = Inr s" "exact_state (b_state b)"
  shows "s_state s = b_state b" "s_spec s = b_spec b" "s_digest s = b_digest b" "s_clock s = b_clock b"
    "within_budget (b_state b)" "parse_nano (format_nano (b_clock b)) = Some (b_clock b, True)"
proof -
  let ?row = "\<lparr>sn_id = snapshot_id name b, sn_name = name, sn_spec = b_spec b, sn_state = b_state b, sn_digest = b_digest b,
         sn_clock = format_nano (b_clock b), sn_sourceHead = b_head b, sn_schema = schemaVersion\<rparr>"
  show clock: "parse_nano (format_nano (b_clock b)) = Some (b_clock b, True)" "within_budget (b_state b)"
    using assms(2,3) by (auto elim: Branch_Inr)
  have "snapshot_where name d1 = Some ?row"
    using assms(1)
  proof (rule CreateSnapshot_Inr)
    fix b'
    assume "scanBranch (branch_where bid d0) = Inr b'"
      and new: "\<not> row_exists (\<lambda>r. sn_id r = snapshot_id name b' \<or> sn_name r = name) (snapshots d0)"
      and d1: "d1 = appendControlAudit ''snapshot.create'' bid name (b_digest b') (b_digest b') (d0\<lparr>snapshots := snapshots d0 @
       [\<lparr>sn_id = snapshot_id name b', sn_name = name, sn_spec = b_spec b', sn_state = b_state b', sn_digest = b_digest b',
         sn_clock = format_nano (b_clock b'), sn_sourceHead = b_head b', sn_schema = schemaVersion\<rparr>]\<rparr>)"
    then have "b' = b" using assms(2) by (simp add: Branch_def)
    moreover have "find_row (\<lambda>r. sn_name r = name) (snapshots d0) = None"
      using new by (auto simp: find_row_None row_exists_def)
    ultimately show ?thesis by (simp add: d1 snapshot_where_def find_row_append)
  qed
  then have "snapshot_where name d2 = Some ?row"
    using assms(4) by (rule snapshot_where_stable [rotated])
  then show "s_state s = b_state b" "s_spec s = b_spec b" "s_digest s = b_digest b" "s_clock s = b_clock b"
    using assms(5) clock Clone_exact [OF assms(6)] by (auto elim!: scanSnapshot_Inr)
qed

lemma Reset_restores:
  assumes "CreateSnapshot name bid d0 = (Inr sn, d1)" "Branch bid d0 = Inr b" "db_ok d0" "exact_state (b_state b)"
    and "any_step\<^sup>*\<^sup>* d1 d2" "db_ok d2" "Reset name k d2 = (Inr u, d3)"
  shows "\<exists>b'. Branch k d3 = Inr b' \<and> same_world b' b \<and> b_calls b' = 0"
  using assms(7)
proof (rule Reset_Inr)
  fix s bk n d'
  assume s: "scanSnapshot (snapshot_where name d2) = Inr s" and bk: "scanBranch (branch_where k d2) = Inr bk"
    and cas: "casBranch k (b_head bk) (\<lambda>r. r\<lparr>br_spec := s_spec s, br_state := s_state s, br_digest := s_digest s,
       br_clock := format_nano (s_clock s), br_calls := 0\<rparr>) d2 = (n, d')"
    and d3: "d3 = appendControlAudit ''branch.reset'' k name (b_digest bk) (s_digest s) d'"
  have snap: "s_state s = b_state b" "s_spec s = b_spec b" "s_digest s = b_digest b" "s_clock s = b_clock b"
    "within_budget (b_state b)" "parse_nano (format_nano (b_clock b)) = Some (b_clock b, True)"
    using snapshot_read [OF assms(1-3,5) s assms(4)] by auto
  have dist: "distinct (map br_id (branches d2))"
    using assms(6) by (simp add: db_ok_def)
  have "fst (casBranch k (b_head bk) (\<lambda>r. r\<lparr>br_spec := s_spec s, br_state := s_state s, br_digest := s_digest s,
       br_clock := format_nano (s_clock s), br_calls := 0\<rparr>) d2) = 1"
    by (rule casBranch_ok [OF dist bk]) simp_all
  with cas have n: "n = 1" by simp
  obtain r where row: "branch_where k d' = Some ((r\<lparr>br_spec := s_spec s, br_state := s_state s, br_digest := s_digest s,
       br_clock := format_nano (s_clock s), br_calls := 0\<rparr>)\<lparr>br_head := br_head r + 1\<rparr>)"
    by (rule casBranch_row [OF cas [unfolded n] bk refl _ dist]) simp_all
  show ?thesis
    using snap Clone_exact [OF assms(4)] by (simp add: d3 Branch_row row same_world_def)
qed

lemma Fork_copies:
  assumes "CreateSnapshot name bid d0 = (Inr sn, d1)" "Branch bid d0 = Inr b" "db_ok d0" "exact_state (b_state b)"
    and "any_step\<^sup>*\<^sup>* d1 d2" "Fork name k d2 = (Inr u, d3)"
  shows "\<exists>b'. Branch k d3 = Inr b' \<and> same_world b' b \<and> b_calls b' = 0 \<and> b_head b' = 0"
  using assms(6)
proof (rule Fork_Inr)
  fix s
  assume s: "scanSnapshot (snapshot_where name d2) = Inr s" and new: "\<not> row_exists (\<lambda>r. br_id r = k) (branches d2)"
    and d3: "d3 = appendControlAudit ''branch.fork'' k name [] (s_digest s) (d2\<lparr>branches := branches d2 @
       [\<lparr>br_id = k, br_spec = s_spec s, br_state = s_state s, br_digest = s_digest s,
         br_clock = format_nano (s_clock s), br_calls = 0, br_head = 0\<rparr>]\<rparr>)"
  have snap: "s_state s = b_state b" "s_spec s = b_spec b" "s_digest s = b_digest b" "s_clock s = b_clock b"
    "within_budget (b_state b)" "parse_nano (format_nano (b_clock b)) = Some (b_clock b, True)"
    using snapshot_read [OF assms(1-3,5) s assms(4)] by auto
  have "find_row (\<lambda>r. br_id r = k) (branches d2) = None"
    using new by (simp add: find_row_None)
  then have "branch_where k d3 = Some \<lparr>br_id = k, br_spec = s_spec s, br_state = s_state s, br_digest = s_digest s,
         br_clock = format_nano (s_clock s), br_calls = 0, br_head = 0\<rparr>"
    by (simp add: d3 branch_where_def find_row_append)
  then show ?thesis
    using snap Clone_exact [OF assms(4)] by (simp add: Branch_row same_world_def)
qed

section \<open>Calls\<close>

text \<open>What a committed call leaves in the branch.\<close>

lemma ApplyCall_row:
  assumes "ApplyCall bid sp t i f d = (Inr r, d')" "db_ok d"
  obtains b working' outcome fired d1 working row where
    "Branch bid d = Inr b" "b_spec b = sp"
    "faultedApply bid t (Clone (b_state b)) (\<lambda>w. f w (b_clock b) (b_calls b + 1)) d = Inr ((working', outcome, fired), d1)"
    "working = (if oc_commit outcome then working' else b_state b)" "within_budget working"
    "branch_where bid d = Some row"
    "branch_where bid d' = Some (row\<lparr>br_state := working, br_digest := state_digest working, br_calls := br_calls row + 1,
       br_head := br_head row + 1\<rparr>)"
    "ar_result r = oc_result outcome" "ar_errorClass r = oc_errorClass outcome" "ar_after r = state_digest working"
    "ar_before r = b_digest b" "ar_callIndex r = b_calls b + 1"
    "ar_faultPhase r = (case fired of None \<Rightarrow> [] | Some f \<Rightarrow> fp_phase f)"
  using assms(1)
proof (rule ApplyCall_Inr)
  fix b working' outcome fired d1 working d2 d3
  assume b: "scanBranch (branch_where bid d) = Inr b" and sp: "b_spec b = sp"
    and fa: "faultedApply bid t (Clone (b_state b)) (\<lambda>w. f w (b_clock b) (b_calls b + 1)) d = Inr ((working', outcome, fired), d1)"
    and w: "working = (if oc_commit outcome then working' else b_state b)" "within_budget working"
    and d2: "appendToolAudit bid (b_calls b + 1) t i outcome (b_digest b) (state_digest working) d1 = Inr d2"
    and cas: "casBranch bid (b_head b) (\<lambda>r. r\<lparr>br_state := working, br_digest := state_digest working, br_calls := b_calls b + 1\<rparr>) d2 = (1, d3)"
    and r: "r = \<lparr>ar_result = oc_result outcome, ar_errorClass = oc_errorClass outcome,
          ar_before = b_digest b, ar_after = state_digest working, ar_callIndex = b_calls b + 1,
          ar_faultID = (case fired of None \<Rightarrow> [] | Some f \<Rightarrow> fp_id f),
          ar_faultPhase = (case fired of None \<Rightarrow> [] | Some f \<Rightarrow> fp_phase f)\<rparr>"
    and d': "d' = (case fired of None \<Rightarrow> d3
           | Some f \<Rightarrow> appendFaultEvent bid (b_calls b + 1) f (b_digest b) (state_digest working) d3)"
  have "branches d2 = branches d"
    using appendToolAudit_Inr(1) [OF d2] faultedApply_branches(2) [OF fa] by simp
  moreover have "distinct (map br_id (branches d))"
    using assms(2) by (simp add: db_ok_def)
  ultimately obtain row where row: "branch_where bid d = Some row"
    "branch_where bid d3 = Some ((row\<lparr>br_state := working, br_digest := state_digest working, br_calls := b_calls b + 1\<rparr>)\<lparr>br_head := br_head row + 1\<rparr>)"
    by (auto intro: casBranch_row [OF cas b])
  moreover have "b_calls b = br_calls row"
    using b row(1) by (auto elim!: scanBranch_Inr)
  ultimately show ?thesis
    using b sp fa w by (intro that [of b working' outcome fired d1 working row]) (simp_all add: Branch_def r d' split: option.splits)
qed

lemma faultedApply_Inr:
  assumes "faultedApply bid t w f d = Inr ((w', out, fired), d')"
  obtains (before) plan ps where "armedFaults bid t PhaseBefore d = plan # ps" "w' = w"
      "out = faultOutcome (spend plan) False" "fired = Some (spend plan)"
      "d' = d\<lparr>fault_plans := update_where (is_plan plan) spend (fault_plans d)\<rparr>" "affected (is_plan plan) (fault_plans d) = 1"
  | (plain) "armedFaults bid t PhaseBefore d = []" "f w = Inr (w', out)" "fired = None" "d' = d"
      "oc_errorClass out \<noteq> [] \<or> armedFaults bid t PhaseAfter d = []"
  | (after) plan ps out' where "armedFaults bid t PhaseBefore d = []" "f w = Inr (w', out')" "oc_errorClass out' = []"
      "armedFaults bid t PhaseAfter d = plan # ps" "out = faultOutcome (spend plan) True" "fired = Some (spend plan)"
      "d' = d\<lparr>fault_plans := update_where (is_plan plan) spend (fault_plans d)\<rparr>" "affected (is_plan plan) (fault_plans d) = 1"
proof -
  from assms obtain res d1 where take: "takeFault bid t PhaseBefore d = Inr (res, d1)"
    and rest: "(case res of
         Some f \<Rightarrow> Inr ((w, faultOutcome f False, Some f), d1)
       | None \<Rightarrow>
           bindE (f w) (\<lambda>(working', outcome).
             if oc_errorClass outcome = [] then
               bindE (takeFault bid t PhaseAfter d1) (\<lambda>(fired', d2).
                 case fired' of
                   Some f \<Rightarrow> Inr ((working', faultOutcome f True, Some f), d2)
                 | None \<Rightarrow> Inr ((working', outcome, None), d2))
             else Inr ((working', outcome, None), d1))) = Inr ((w', out, fired), d')"
    unfolding faultedApply_def by auto
  from take show ?thesis
  proof (cases rule: takeFault_Inr)
    case none
    with rest obtain out' where f: "f w = Inr (w', out')"
      by (auto split: if_split_asm option.splits prod.splits)
    show ?thesis
    proof (cases "oc_errorClass out' = []")
      case False
      with rest none f show ?thesis by (intro plain) auto
    next
      case True
      with rest none f obtain res' where take': "takeFault bid t PhaseAfter d = Inr (res', d')"
        and eq: "(case res' of Some f \<Rightarrow> Inr ((w', faultOutcome f True, Some f), d') | None \<Rightarrow> Inr ((w', out', None), d')) =
          (Inr ((w', out, fired), d') :: error + _)"
        by (auto split: option.splits)
      from take' show ?thesis
        by (cases rule: takeFault_Inr) (use eq f none True in \<open>auto intro: plain after\<close>)
    qed
  next
    case (fired plan ps)
    with rest show ?thesis by (intro before [of plan ps]) auto
  qed
qed

lemma armed_checks: "db_ok d \<Longrightarrow> armedFaults bid t ph d = plan # ps \<Longrightarrow> fp_errorClass plan \<noteq> []"
  by (drule armed_head) (auto simp: db_ok_def plans_ok_def faultRowChecks_def)

text \<open>
  The runtime's contract: a call that reports an error does not ask for its state to be kept.
\<close>

definition errors_roll_back :: "call_apply \<Rightarrow> bool" where
  "errors_roll_back f \<longleftrightarrow>
     (\<forall>w c n w' out. f w c n = Inr (w', out) \<longrightarrow> oc_commit out = (oc_errorClass out = []))"

lemma failed_call_keeps_world:
  assumes "ApplyCall bid sp t i f d = (Inr r, d')" "db_ok d" "errors_roll_back f" "Branch bid d = Inr b" "exact_state (b_state b)"
    and "ar_errorClass r \<noteq> []" "ar_faultPhase r \<noteq> PhaseAfter"
  shows "Branch bid d' = Inr (b\<lparr>b_digest := state_digest (b_state b), b_calls := b_calls b + 1, b_head := b_head b + 1\<rparr>)"
  using assms(1,2)
proof (rule ApplyCall_row)
  fix b' working' outcome fired d1 working row
  assume b': "Branch bid d = Inr b'"
    and fa: "faultedApply bid t (Clone (b_state b')) (\<lambda>w. f w (b_clock b') (b_calls b' + 1)) d = Inr ((working', outcome, fired), d1)"
    and w: "working = (if oc_commit outcome then working' else b_state b')" "within_budget working"
    and row: "branch_where bid d = Some row"
      "branch_where bid d' = Some (row\<lparr>br_state := working, br_digest := state_digest working, br_calls := br_calls row + 1,
       br_head := br_head row + 1\<rparr>)"
    and err: "ar_errorClass r = oc_errorClass outcome" "ar_faultPhase r = (case fired of None \<Rightarrow> [] | Some f \<Rightarrow> fp_phase f)"
  have [simp]: "b' = b" using b' assms(4) by simp
  have "working = b_state b"
    using fa
  proof (cases rule: faultedApply_Inr)
    case (before plan ps)
    then show ?thesis by (simp add: w faultOutcome_def)
  next
    case plain
    then have "\<not> oc_commit outcome"
      using assms(3,6) err(1) unfolding errors_roll_back_def by metis
    then show ?thesis by (simp add: w)
  next
    case (after plan ps out')
    then show ?thesis using assms(7) err(2) by (auto dest: armed_head)
  qed
  moreover obtain r' where "branch_where bid d = Some r'" "b_spec b = br_spec r'" "b_state b = Clone (br_state r')"
    "b_digest b = br_digest r'" "parse_nano (format_nano (b_clock b)) = Some (b_clock b, True)"
    "format_nano (b_clock b) = br_clock r'" "b_calls b = br_calls r'" "b_head b = br_head r'" "within_budget (b_state b)"
    by (rule Branch_Inr [OF assms(4,2)])
  moreover have "b_id b = bid" "br_id row = bid"
    using b_id_scan [OF assms(4) [unfolded Branch_def]] branch_where_id [OF row(1)] by simp_all
  ultimately show ?thesis
    using row Clone_exact [OF assms(5)] by (simp add: Branch_row)
qed

section \<open>Faults\<close>

text \<open>A plan of the first phase decides the call; the callback is not consulted.\<close>

lemma before_fault_skips_callback:
  assumes "armedFaults bid t PhaseBefore d \<noteq> []"
  shows "ApplyCall bid sp t i f d = ApplyCall bid sp t i g d"
proof -
  obtain F where "\<And>w f'. faultedApply bid t w f' d = F w"
  proof
    show "faultedApply bid t w f' d = faultedApply bid t w (\<lambda>_. Inl ErrClock) d" for w f'
      using assms unfolding faultedApply_def takeFault_def
      by (cases "armedFaults bid t PhaseBefore d") (auto split: if_splits)
  qed
  then show ?thesis
    by (simp only: ApplyCall_def transaction_def)
qed

text \<open>
  A call only moves repeats of a plan from \<open>remaining\<close> to \<open>fired\<close>: what a plan says and how
  often it fires in all stays the same.
\<close>

definition keeps_plan :: "(fault_plan \<Rightarrow> fault_plan) \<Rightarrow> bool" where
  "keeps_plan h \<longleftrightarrow> (\<forall>p. fp_id (h p) = fp_id p \<and> fp_branch (h p) = fp_branch p \<and> fp_tool (h p) = fp_tool p \<and>
     fp_phase (h p) = fp_phase p \<and> fp_errorClass (h p) = fp_errorClass p \<and> fp_message (h p) = fp_message p \<and>
     fp_remaining (h p) + fp_fired (h p) = fp_remaining p + fp_fired p)"

lemma keeps_plan_id: "keeps_plan (\<lambda>p. p)"
  by (simp add: keeps_plan_def)

lemma keeps_plan_comp: "keeps_plan h \<Longrightarrow> keeps_plan h' \<Longrightarrow> keeps_plan (h \<circ> h')"
  by (simp add: keeps_plan_def)

lemma keeps_plan_faultedApply:
  assumes "faultedApply bid t w f d = Inr (res, d')"
  shows "\<exists>h. keeps_plan h \<and> fault_plans d' = map h (fault_plans d)"
proof -
  have spend: "keeps_plan (\<lambda>p. if is_plan plan p then spend p else p)" for plan
    by (simp add: keeps_plan_def)
  obtain w' out fired where "res = (w', out, fired)" by (cases res)
  with assms have "faultedApply bid t w f d = Inr ((w', out, fired), d')" by simp
  then show ?thesis
    by (cases rule: faultedApply_Inr) (use spend keeps_plan_id in \<open>fastforce simp: update_where_def\<close>)+
qed

lemma fault_plans_cas: "casBranch bid h f d = (n, d') \<Longrightarrow> fault_plans d' = fault_plans d"
  by (auto simp: casBranch_def Let_def)

lemma keeps_plan_ApplyCall:
  assumes "ApplyCall bid sp t i f d = (Inr r, d')"
  shows "\<exists>h. keeps_plan h \<and> fault_plans d' = map h (fault_plans d)"
  using assms
proof (rule ApplyCall_Inr)
  fix b working' outcome fired d1 working d2 d3
  assume fa: "faultedApply bid t (Clone (b_state b)) (\<lambda>w. f w (b_clock b) (b_calls b + 1)) d = Inr ((working', outcome, fired), d1)"
    and d2: "appendToolAudit bid (b_calls b + 1) t i outcome (b_digest b) (state_digest working) d1 = Inr d2"
    and cas: "casBranch bid (b_head b) (\<lambda>r. r\<lparr>br_state := working, br_digest := state_digest working, br_calls := b_calls b + 1\<rparr>) d2 = (1, d3)"
    and d': "d' = (case fired of None \<Rightarrow> d3
           | Some f \<Rightarrow> appendFaultEvent bid (b_calls b + 1) f (b_digest b) (state_digest working) d3)"
  have "fault_plans d' = fault_plans d1"
    using appendToolAudit_Inr(1) [OF d2] fault_plans_cas [OF cas] by (simp add: d' split: option.splits)
  with keeps_plan_faultedApply [OF fa] show ?thesis by simp
qed

lemma sort_key_map: "(\<And>x. k (h x) = k x) \<Longrightarrow> sort_key k (map h xs) = map h (sort_key k xs)"
proof -
  assume h: "\<And>x. k (h x) = k x"
  have "insort_key k (h x) (map h ys) = map h (insort_key k x ys)" for x ys
    by (induction ys) (simp_all add: h)
  then show ?thesis by (induction xs) simp_all
qed

text \<open>The digest of the fault plans of a branch identifies the experiment: calls do not change it.\<close>

lemma FaultPlanDigest_keeps:
  assumes "keeps_plan h" "fault_plans d' = map h (fault_plans d)" "Branch k d = Inr b" "Branch k d' = Inr b'"
  shows "FaultPlanDigest k d' = FaultPlanDigest k d"
proof -
  have h: "fp_id (h p) = fp_id p" "fp_branch (h p) = fp_branch p" "fp_tool (h p) = fp_tool p"
     "fp_phase (h p) = fp_phase p" "fp_errorClass (h p) = fp_errorClass p" "fp_message (h p) = fp_message p"
     "fp_remaining (h p) + fp_fired (h p) = fp_remaining p + fp_fired p" for p
    using assms(1) by (simp_all add: keeps_plan_def)
  show ?thesis
    unfolding FaultPlanDigest_def FaultPlans_def assms
    by (simp add: filter_map comp_def sort_key_map h)
qed

lemma FaultPlanDigest_ApplyCall:
  assumes "ApplyCall bid sp t i f d = (Inr r, d')" "Branch k d = Inr b" "Branch k d' = Inr b'"
  shows "FaultPlanDigest k d' = FaultPlanDigest k d"
  using keeps_plan_ApplyCall [OF assms(1)] FaultPlanDigest_keeps assms(2,3) by blast

end
