(* ===== verification/Queue.thy ===== *)
theory Queue
  imports Store_Time
begin

text \<open>
  The deterministic queue: its order is a strict total order on the events of a validated
  state, so the queue does not depend on Go's map iteration; a batch is a bounded prefix of one
  instant; moving the clock delivers exactly what is due; pages enumerate the queue.
\<close>

section \<open>Delivery order\<close>

definition queued :: "world_state \<Rightarrow> scheduled_event \<Rightarrow> bool" where
  "queued s e \<longleftrightarrow> state_ok s \<and> e \<in> set (vals (events_of s))"

lemma queued_valid: "queued s e \<Longrightarrow> \<exists>n. valid_event n (ev_id e) e"
  using valid_event_in [of s e] by (simp add: queued_def state_ok_def vals_def)

lemma queued_due: "queued s e \<Longrightarrow> \<exists>t. DueTime e = Some t \<and> format_nano t = ev_dueAt e"
  using queued_valid by (fastforce simp: valid_event_def canonicalDueAt_def DueTime_def split: option.splits)

lemma event_key: "state_ok s \<Longrightarrow> (k, e) \<in> set (events_of s) \<Longrightarrow> k = ev_id e"
  unfolding state_ok_def validateInternalState_iff
  by (cases "Scheduler s") (auto simp: events_of_def valid_event_def)

lemma queued_id:
  assumes "queued s e"
  shows "map_of (events_of s) (ev_id e) = Some e"
proof -
  obtain k where k: "(k, e) \<in> set (events_of s)" and s: "state_ok s"
    using assms by (auto simp: queued_def vals_def)
  moreover have "wf_map (events_of s)"
    using s by (simp add: state_ok_def wf_state_def)
  ultimately show ?thesis
    using event_key [OF s k] by (simp add: map_of_eq_Some_iff_wf)
qed

lemma queued_eq: "queued s e \<Longrightarrow> queued s e' \<Longrightarrow> ev_id e = ev_id e' \<Longrightarrow> e = e'"
  using queued_id by (metis option.inject)

lemma event_less_iff:
  assumes "DueTime e1 = Some t1" "DueTime e2 = Some t2" "format_nano t1 = ev_dueAt e1" "format_nano t2 = ev_dueAt e2"
  shows "event_less e1 e2 \<longleftrightarrow> t1 < t2 \<or> t1 = t2 \<and>
    (ev_priority e2 < ev_priority e1 \<or> ev_priority e1 = ev_priority e2 \<and>
      (ev_seq e1 < ev_seq e2 \<or> ev_seq e1 = ev_seq e2 \<and> ev_id e1 < ev_id e2))"
proof -
  have "ev_dueAt e1 = ev_dueAt e2 \<longleftrightarrow> t1 = t2"
    using assms by (auto simp: DueTime_def)
  then show ?thesis
    using assms(1,2) by (auto simp: event_less_def)
qed

interpretation queue: strict_order_on event_less "queued s" for s
proof
  fix x y z
  assume x: "queued s x"
  then obtain t where t: "DueTime x = Some t" "format_nano t = ev_dueAt x" using queued_due by blast
  then show "\<not> event_less x x" by (simp add: event_less_iff)
  assume y: "queued s y"
  then obtain u where u: "DueTime y = Some u" "format_nano u = ev_dueAt y" using queued_due by blast
  show "x \<noteq> y \<Longrightarrow> event_less x y \<or> event_less y x"
    using queued_eq [OF x y] t u linorder_less_linear [of "ev_id x" "ev_id y"] by (auto simp: event_less_iff)
  assume "queued s z" "event_less x y" "event_less y z"
  moreover from this(1) obtain v where "DueTime z = Some v" "format_nano v = ev_dueAt z" using queued_due by blast
  ultimately show "event_less x z"
    using t u by (auto simp: event_less_iff)
qed

lemma distinct_events: "state_ok s \<Longrightarrow> distinct (vals (events_of s))"
proof -
  assume s: "state_ok s"
  have "inj_on snd (set (events_of s))"
  proof (rule inj_onI)
    fix a b assume "a \<in> set (events_of s)" "b \<in> set (events_of s)" "snd a = snd b"
    then show "a = b"
      using event_key [OF s] by (metis prod.collapse)
  qed
  moreover have "distinct (events_of s)"
    using s wf_map_distinct [of "events_of s"] by (auto simp: state_ok_def wf_state_def distinct_map)
  ultimately show ?thesis by (simp add: vals_def distinct_map)
qed

lemma scheduledEvents_deterministic:
  assumes "state_ok s" "set es = set (vals (events_of s))" "distinct es"
  shows "sort_by event_less es = scheduledEvents s" "sorted_wrt event_less (scheduledEvents s)"
proof -
  have q: "\<forall>e \<in> set (vals (events_of s)). queued s e"
    using assms(1) by (simp add: queued_def)
  show "sort_by event_less es = scheduledEvents s" "sorted_wrt event_less (scheduledEvents s)"
    unfolding scheduledEvents_def
    using queue.sort_by_perm [OF q distinct_events [OF assms(1)] assms(3,2)]
      queue.sorted_sort_by [OF q distinct_events [OF assms(1)]] by auto
qed

lemma pending_sorted: "state_ok s \<Longrightarrow> sorted_wrt event_less (pendingScheduledEvents s)"
  using scheduledEvents_deterministic(2) [of s "vals (events_of s)"] distinct_events
  by (simp add: pendingScheduledEvents_def sorted_wrt_filter)

section \<open>Batches\<close>

definition is_action :: "scheduled_event \<Rightarrow> bool" where
  "is_action e \<longleftrightarrow> ev_kind e = KindAction"

definition batch_stop :: "string \<Rightarrow> nat \<Rightarrow> nat \<Rightarrow> scheduled_event list \<Rightarrow> bool" where
  "batch_stop due n a rest = (case rest of [] \<Rightarrow> True
     | e # _ \<Rightarrow> ev_dueAt e \<noteq> due \<or> n = MaxScheduledDelivery \<or> is_action e \<and> a = MaxScheduledActions)"

lemma batch_loop_step: "batch_loop due n a (e # es) =
    (if ev_dueAt e = due \<and> n < MaxScheduledDelivery \<and> \<not> (is_action e \<and> a \<ge> MaxScheduledActions)
     then batch_loop due (n + 1) (if is_action e then a + 1 else a) es else (n, a))"
  by (simp add: is_action_def)

lemma batch_loop_spec:
  assumes "batch_loop due n a es = (n', a')" "n \<le> MaxScheduledDelivery" "a \<le> MaxScheduledActions"
  shows "\<exists>k. n' = n + k \<and> n' \<le> MaxScheduledDelivery \<and> a' \<le> MaxScheduledActions \<and> k \<le> length es \<and>
    (\<forall>e \<in> set (take k es). ev_dueAt e = due) \<and> a' = a + length (filter is_action (take k es)) \<and>
    batch_stop due n' a' (drop k es)"
  using assms
proof (induction es arbitrary: n a)
  case Nil
  then show ?case by (simp add: batch_stop_def)
next
  case (Cons e es)
  show ?case
  proof (cases "ev_dueAt e = due \<and> n < MaxScheduledDelivery \<and> \<not> (is_action e \<and> a \<ge> MaxScheduledActions)")
    case False
    then have "batch_loop due n a (e # es) = (n, a)" by (simp only: batch_loop_step if_False)
    with Cons.prems False show ?thesis
      by (intro exI [of _ 0]) (auto simp: batch_stop_def)
  next
    case True
    let ?a = "if is_action e then a + 1 else a"
    have "batch_loop due (n + 1) ?a es = (n', a')"
      using Cons.prems(1) unfolding batch_loop_step if_P [OF True] .
    moreover have "n + 1 \<le> MaxScheduledDelivery" "?a \<le> MaxScheduledActions"
      using True Cons.prems(3) by auto
    ultimately obtain k where "n' = n + 1 + k" "n' \<le> MaxScheduledDelivery" "a' \<le> MaxScheduledActions" "k \<le> length es"
      "\<forall>e \<in> set (take k es). ev_dueAt e = due" "a' = ?a + length (filter is_action (take k es))"
      "batch_stop due n' a' (drop k es)"
      using Cons.IH by blast
    with True show ?thesis by (intro exI [of _ "Suc k"]) auto
  qed
qed

lemma scheduledBatchSize_spec:
  assumes "scheduledBatchSize (first # others) = (n, a)"
  shows "1 \<le> n \<and> n \<le> MaxScheduledDelivery \<and> n \<le> length (first # others) \<and> a \<le> MaxScheduledActions \<and>
    (\<forall>e \<in> set (take n (first # others)). ev_dueAt e = ev_dueAt first) \<and>
    a = length (filter is_action (take n (first # others))) \<and>
    batch_stop (ev_dueAt first) n a (drop n (first # others))"
proof -
  have loop: "batch_loop (ev_dueAt first) 0 0 (first # others) = (n, a)"
    using assms by (simp add: scheduledBatchSize_def)
  then obtain k where "n = 0 + k" and k: "n \<le> MaxScheduledDelivery" "a \<le> MaxScheduledActions" "k \<le> length (first # others)"
    "\<forall>e \<in> set (take k (first # others)). ev_dueAt e = ev_dueAt first" "a = 0 + length (filter is_action (take k (first # others)))"
    "batch_stop (ev_dueAt first) n a (drop k (first # others))"
    using batch_loop_spec [OF loop] by auto
  then have "k = n" by simp
  note k = k [unfolded this]
  have "n \<noteq> 0"
  proof
    assume n: "n = 0"
    with k(5) have "a = 0" by simp
    with k(6) n show False by (simp add: batch_stop_def)
  qed
  with k show ?thesis by (intro conjI) (simp_all only: add_0 less_eq_Suc_le [symmetric] One_nat_def neq0_conv)
qed

section \<open>Advancing the clock\<close>

lemma collectDue_Inr:
  assumes "collectDue target es = Inr due" "\<forall>e \<in> set es. DueTime e \<noteq> None"
  shows "due = filter (\<lambda>e. ev_status e = Pending \<and> the (DueTime e) \<le> target) es" "\<forall>e \<in> set due. ev_kind e \<noteq> KindAction"
proof -
  have "due = filter (\<lambda>e. ev_status e = Pending \<and> the (DueTime e) \<le> target) es \<and> (\<forall>e \<in> set due. ev_kind e \<noteq> KindAction)"
    using assms
  proof (induction es arbitrary: due)
    case (Cons e es)
    then show ?case by (fastforce split: if_split_asm option.splits)
  qed simp
  then show "due = filter (\<lambda>e. ev_status e = Pending \<and> the (DueTime e) \<le> target) es" "\<forall>e \<in> set due. ev_kind e \<noteq> KindAction"
    by auto
qed

lemma deliver_simps [simp]:
  "ev_id (deliver e) = ev_id e" "ev_status (deliver e) = Delivered" "ev_dueAt (deliver e) = ev_dueAt e"
  by (simp_all add: deliver_def)

lemma map_of_fold_set_event:
  assumes "distinct (map ev_id es)"
  shows "map_of (events_of (fold set_event (map deliver es) s)) k =
    (case List.find (\<lambda>e. ev_id e = k) es of None \<Rightarrow> map_of (events_of s) k | Some e \<Rightarrow> Some (deliver e))"
  using assms
proof (induction es arbitrary: s)
  case (Cons e es)
  have "List.find (\<lambda>x. ev_id x = ev_id e) es = None"
    using Cons.prems unfolding find_None_iff by (metis distinct.simps(2) image_eqI list.set_map list.simps(9))
  with Cons show ?case
    by (auto simp: events_of_set_event split: option.splits)
qed simp

text \<open>
  What the clock operation promises: exactly the pending events due by the target are
  delivered, in queue order, everything else in the world stays, and nothing that is due is
  left pending.
\<close>

definition due_by :: "instant \<Rightarrow> scheduled_event \<Rightarrow> bool" where
  "due_by target e \<longleftrightarrow> ev_status e = Pending \<and> (\<exists>t. DueTime e = Some t \<and> t \<le> target)"

lemma set_scheduledEvents [simp]: "set (scheduledEvents s) = set (vals (events_of s))"
  by (simp add: scheduledEvents_def)

lemma distinct_ids_scheduled: "state_ok s \<Longrightarrow> distinct (map ev_id (scheduledEvents s))"
proof -
  assume s: "state_ok s"
  have "inj_on ev_id (set (scheduledEvents s))"
    using s queued_eq [of s] by (auto simp: inj_on_def queued_def)
  moreover have "distinct (scheduledEvents s)"
    using distinct_events [OF s] by (simp add: scheduledEvents_def)
  ultimately show ?thesis by (simp add: distinct_map)
qed

lemma fold_set_event_frame:
  "Entities (fold set_event es s) = Entities s" "Sequences (fold set_event es s) = Sequences s"
  "Entropy (fold set_event es s) = Entropy s"
  by (induction es arbitrary: s) simp_all

lemma find_filter_id:
  assumes "distinct (map key xs)" "x \<in> set xs"
  shows "List.find (\<lambda>y. key y = key x) (filter p xs) = (if p x then Some x else None)"
  using assms by (induction xs) (auto simp: find_None_iff image_iff)

lemma AdvanceClock_delivers:
  assumes "AdvanceClock bid target h d = (Inr r, d')" "db_ok d" "Branch bid d = Inr b"
  obtains s where
    "cr_delivered r = map deliver (filter (due_by target) (scheduledEvents (b_state b)))"
    "\<And>k. map_of (events_of s) k =
       map_option (\<lambda>e. if due_by target e then deliver e else e) (map_of (events_of (b_state b)) k)"
    "Entities s = Entities (b_state b)" "Sequences s = Sequences (b_state b)" "Entropy s = Entropy (b_state b)"
    "\<exists>row. branch_where bid d' = Some row \<and> br_state row = s \<and> br_clock row = format_nano target \<and>
       br_calls row = b_calls b \<and> br_head row = b_head b + 1"
  using assms(1)
proof (rule AdvanceClock_Inr)
  fix b' due s d1
  let ?f = "\<lambda>r. r\<lparr>br_clock := format_nano target, br_state := s, br_digest := state_digest s\<rparr>"
  assume scan: "scanBranch (branch_where bid d) = Inr b'"
    and due: "collectDue target (scheduledEvents (b_state b')) = Inr due"
    and s: "s = fold set_event (map deliver due) (b_state b')"
    and cas: "casBranch bid (b_head b') ?f d = (1, d1)"
    and r: "r = \<lparr>cr_branch = bid, cr_clock = format_nano target, cr_head = b_head b' + 1,
          cr_delivered = map deliver due, cr_digest = schedulerDigest s\<rparr>"
    and d': "d' = appendControlAudit ''clock.advance'' bid [] (b_digest b') (state_digest s) d1"
  have b': "b' = b" using scan assms(3) by (simp add: Branch_def)
  have ok: "state_ok (b_state b)" and dist: "distinct (map br_id (branches d))"
    using scan_row_ok [OF scan] assms(2) by (simp_all add: db_ok_def b')
  have some: "\<forall>e \<in> set (scheduledEvents (b_state b)). DueTime e \<noteq> None"
    using queued_due ok by (fastforce simp: queued_def)
  have "due = filter (\<lambda>e. ev_status e = Pending \<and> the (DueTime e) \<le> target) (scheduledEvents (b_state b))"
    using collectDue_Inr(1) [OF due] some by (simp add: b')
  also have "\<dots> = filter (due_by target) (scheduledEvents (b_state b))"
    using some by (intro filter_cong) (auto simp: due_by_def)
  finally have due: "due = filter (due_by target) (scheduledEvents (b_state b))" .
  have ids: "distinct (map ev_id due)"
    unfolding due by (rule distinct_map_filter [OF distinct_ids_scheduled [OF ok]])
  have "map_of (events_of s) k = map_option (\<lambda>e. if due_by target e then deliver e else e) (map_of (events_of (b_state b)) k)" for k
  proof (cases "map_of (events_of (b_state b)) k")
    case None
    have "ev_id e \<noteq> k" if "e \<in> set due" for e
      using that queued_id [of "b_state b" e] None ok by (auto simp: due queued_def)
    then have "List.find (\<lambda>e. ev_id e = k) due = None" by (auto simp: find_None_iff)
    then show ?thesis using None by (simp add: s b' map_of_fold_set_event [OF ids])
  next
    case (Some e)
    then have "(k, e) \<in> set (events_of (b_state b))" by (rule map_of_SomeD)
    then have k: "k = ev_id e" "e \<in> set (scheduledEvents (b_state b))"
      using event_key [OF ok] by (auto simp: vals_def intro: image_eqI [of _ snd "(k, e)"])
    then have "List.find (\<lambda>x. ev_id x = k) due = (if due_by target e then Some e else None)"
      unfolding due using find_filter_id [OF distinct_ids_scheduled [OF ok], of e] by simp
    then show ?thesis using Some by (simp add: s b' map_of_fold_set_event [OF ids])
  qed
  moreover obtain row where "branch_where bid d = Some row" "branch_where bid d1 = Some ((?f row)\<lparr>br_head := br_head row + 1\<rparr>)"
    "b_head b = br_head row"
    using casBranch_row [OF cas scan refl _ dist] b' by auto
  moreover have "b_calls b = br_calls row"
    using scan \<open>branch_where bid d = Some row\<close> by (auto simp: b' elim!: scanBranch_Inr)
  ultimately show ?thesis
    by (intro that [of s]) (simp_all add: r due s b' fold_set_event_frame d')
qed

end
