(* ===== verification/Store_Heads.thy ===== *)
theory Store_Heads
  imports Store_Time
begin

text \<open>
  The head version of a branch: it counts the committed operations, so that a reader that
  finds the version it remembers finds the row it remembers, and a conflict is reported for a
  stale version only.
\<close>

lemma safe_step_any: "safe_step d d' \<Longrightarrow> any_step d d'"
  by (induction rule: safe_step.induct) (blast intro: store_step.intros)+

text \<open>One operation: the row of its branch is left alone or moves to the next version.\<close>

definition next_row :: "branch_row \<Rightarrow> branch_row \<Rightarrow> bool" where
  "next_row r r' \<longleftrightarrow> r' = r \<or> br_head r' = br_head r + 1"

lemma next_row_cas:
  assumes "casBranch bid (b_head b) f d1 = (1, d2)" "scanBranch (branch_where bid d) = Inr b" "branches d1 = branches d"
    "\<And>r. br_id (f r) = br_id r" "distinct (map br_id (branches d))" "branch_where bid d = Some r" "branches d' = branches d2"
  shows "\<exists>r'. branch_where bid d' = Some r' \<and> next_row r r'"
proof -
  obtain r0 where "branch_where bid d = Some r0" "branch_where bid d2 = Some ((f r0)\<lparr>br_head := br_head r0 + 1\<rparr>)"
    by (rule casBranch_row [OF assms(1-5)])
  with assms(6,7) show ?thesis by (auto simp: next_row_def branch_where_def)
qed

lemma next_row_same: "branches d' = branches d \<Longrightarrow> branch_where bid d = Some r \<Longrightarrow> \<exists>r'. branch_where bid d' = Some r' \<and> next_row r r'"
  by (auto simp: next_row_def branch_where_def)

lemma next_row_append: "branches d' = branches d @ rs \<Longrightarrow> branch_where bid d = Some r \<Longrightarrow> \<exists>r'. branch_where bid d' = Some r' \<and> next_row r r'"
  by (auto simp: next_row_def branch_where_def find_row_append)

lemma next_row_save:
  assumes "saveState op bid b s d = Inr d'" "scanBranch (branch_where bid d) = Inr b"
    "distinct (map br_id (branches d))" "branch_where bid d = Some r"
  shows "\<exists>r'. branch_where bid d' = Some r' \<and> next_row r r'"
  using assms(1)
proof (rule saveState_Inr)
  fix d1
  assume cas: "casBranch bid (b_head b) (\<lambda>r. r\<lparr>br_state := s, br_digest := state_digest s\<rparr>) d = (1, d1)"
    and "d' = appendControlAudit op bid [] (b_digest b) (state_digest s) d1"
  then show ?thesis
    by (intro next_row_cas [OF cas assms(2) _ _ assms(3,4)]) simp_all
qed

lemma store_step_row:
  assumes "store_step bid d d'" "distinct (map br_id (branches d))" "branch_where bid d = Some r"
  shows "\<exists>r'. branch_where bid d' = Some r' \<and> next_row r r'"
  using assms
proof (induction rule: store_step.induct)
  case (initialize bid sp s c d u d')
  then show ?case
    by (elim InitializeBranch_Inr) (auto simp: next_row_def branch_where_def find_row_append)
next
  case (call bid sp t i f d ar d')
  show ?case
    using call(1)
  proof (rule ApplyCall_Inr)
    fix b working' outcome fired d1 working d2 d3
    assume b: "scanBranch (branch_where bid d) = Inr b"
      and fa: "faultedApply bid t (Clone (b_state b)) (\<lambda>w. f w (b_clock b) (b_calls b + 1)) d = Inr ((working', outcome, fired), d1)"
      and d2: "appendToolAudit bid (b_calls b + 1) t i outcome (b_digest b) (state_digest working) d1 = Inr d2"
      and cas: "casBranch bid (b_head b) (\<lambda>r. r\<lparr>br_state := working, br_digest := state_digest working, br_calls := b_calls b + 1\<rparr>) d2 = (1, d3)"
      and d': "d' = (case fired of None \<Rightarrow> d3 | Some f \<Rightarrow> appendFaultEvent bid (b_calls b + 1) f (b_digest b) (state_digest working) d3)"
    have "branches d2 = branches d"
      using appendToolAudit_Inr(1) [OF d2] faultedApply_branches(2) [OF fa] by simp
    then show ?thesis
      by (rule next_row_cas [OF cas b _ _ call(2,3)]) (simp_all add: d' split: option.splits)
  qed
next
  case (install plan h d p d')
  from install(1) show ?case
    by (rule InstallFault_Inr) (rule next_row_cas [OF _ _ _ _ install(2,3)], assumption+, simp_all)
next
  case (remove bid fid h d u d')
  from remove(1) show ?case
    by (rule RemoveFault_Inr) (rule next_row_cas [OF _ _ _ _ remove(2,3)], assumption+, simp_all)
next
  case (snapshot name bid d sn d')
  then show ?case by (elim CreateSnapshot_Inr) (simp add: next_row_same)
next
  case (fork name bid d u d')
  then show ?case by (elim Fork_Inr) (simp add: next_row_append)
next
  case (reset name bid d u d')
  show ?case
    using reset(1)
  proof (rule Reset_Inr)
    fix s b n d1
    let ?f = "\<lambda>r. r\<lparr>br_spec := s_spec s, br_state := s_state s, br_digest := s_digest s,
       br_clock := format_nano (s_clock s), br_calls := 0\<rparr>"
    assume b: "scanBranch (branch_where bid d) = Inr b" and cas: "casBranch bid (b_head b) ?f d = (n, d1)"
      and d': "d' = appendControlAudit ''branch.reset'' bid name (b_digest b) (s_digest s) d1"
    have "fst (casBranch bid (b_head b) ?f d) = 1"
      by (rule casBranch_ok [OF reset(2) b]) simp_all
    with cas have "casBranch bid (b_head b) ?f d = (1, d1)" by simp
    then show ?thesis
      by (rule next_row_cas [OF _ b _ _ reset(2,3)]) (simp_all add: d')
  qed
next
  case (schedule rq h d e d')
  from schedule(1) show ?case
    by (rule ScheduleEvent_Inr) (rule next_row_save [OF _ _ schedule(2,3)])
next
  case (cancel bid eid h d e d')
  from cancel(1) show ?case
    by (rule CancelScheduledEvent_Inr) (rule next_row_save [OF _ _ cancel(2,3)])
next
  case (advance bid target h d cr d')
  from advance(1) show ?case
    by (rule AdvanceClock_Inr) (rule next_row_cas [OF _ _ _ _ advance(2,3)], assumption+, simp_all)
next
  case (advance_next bid h sp g d sr d')
  show ?case
    using advance_next(1)
  proof (rule advanceClockToNext_Inr)
    fix b first others dueAt target n a st d1 d2
    assume b: "scanBranch (branch_where bid d) = Inr b"
      and loop: "stepLoop b target (case g of None \<Rightarrow> \<lambda>_ _ _ _ _. Inl (ErrPanic ''nil callback'') | Some f \<Rightarrow> f)
       (take n (first # others))
       \<lparr>st_working = b_state b, st_calls = b_calls b, st_processed = [], st_delivered = [], st_executed = 0\<rparr> d = Inr (st, d1)"
      and cas: "casBranch bid (b_head b) (\<lambda>r. r\<lparr>br_clock := format_nano target, br_state := st_working st,
       br_digest := state_digest (st_working st), br_calls := st_calls st\<rparr>) d1 = (1, d2)"
      and d': "d' = appendControlAudit ''scheduler.advance.next'' bid [] (b_digest b) (state_digest (st_working st)) d2"
    show ?thesis
      by (rule next_row_cas [OF cas b stepLoop_branches [OF loop] _ advance_next(2,3)]) (simp_all add: d')
  qed
qed

lemma store_step_any_row:
  assumes "store_step bid d d'" "distinct (map br_id (branches d))" "branch_where k d = Some r"
  shows "\<exists>r'. branch_where k d' = Some r' \<and> next_row r r'"
proof (cases "bid = k")
  case True
  with assms show ?thesis by (simp add: store_step_row)
next
  case False
  then have "branch_where k d' = branch_where k d"
    using assms(1) by (intro branch_where_view store_step_view)
  with assms(3) show ?thesis by (simp add: next_row_def)
qed

lemma head_identifies_row:
  assumes "safe_step\<^sup>*\<^sup>* d d'" "db_ok d" "branch_where k d = Some r"
  shows "\<exists>r'. branch_where k d' = Some r' \<and> br_head r \<le> br_head r' \<and> (br_head r' = br_head r \<longrightarrow> r' = r)"
  using assms(1)
proof (induction rule: rtranclp_induct)
  case base
  then show ?case using assms(3) by simp
next
  case (step e e')
  then obtain r' where r': "branch_where k e = Some r'" "br_head r \<le> br_head r'" "br_head r' = br_head r \<longrightarrow> r' = r"
    by blast
  have "distinct (map br_id (branches e))"
    using store.inv_run [OF step(1) assms(2)] by (simp add: db_ok_def)
  then obtain r'' where "branch_where k e' = Some r''" "next_row r' r''"
    using safe_step_any [OF step(2)] store_step_any_row r'(1) by blast
  with r' show ?case by (auto simp: next_row_def)
qed

section \<open>Conflicts\<close>

lemma collectDue_Inl: "collectDue target es = Inl e \<Longrightarrow> e = ErrSchedulerInvalid \<or> e = ErrSchedulerAction"
proof (induction es)
  case (Cons x es)
  then show ?case
    by (auto split: if_split_asm option.splits simp: bindE_def sum.case_eq_if split: sum.splits)
qed simp

lemma scanBranch_Inl: "scanBranch row = Inl e \<Longrightarrow> e = ErrBranchNotFound \<or> e = ErrClock \<or> (\<exists>x. e = ErrState x)"
  by (auto simp: scanBranch_def Let_def split: option.splits prod.splits sum.splits)

lemma AdvanceClock_conflict_iff:
  assumes "db_ok d"
  shows "fst (AdvanceClock bid target h d) = Inl ErrBranchConflict \<longleftrightarrow>
    (\<exists>b v. Branch bid d = Inr b \<and> h = Some v \<and> v \<noteq> b_head b)"
proof (cases "scanBranch (branch_where bid d)")
  case (Inl e)
  then show ?thesis
    using scanBranch_Inl [OF Inl] by (auto simp: AdvanceClock_def transaction_def Branch_def)
next
  case (Inr b)
  have dist: "distinct (map br_id (branches d))" using assms by (simp add: db_ok_def)
  have cas: "n = 1" if "casBranch bid (b_head b) (\<lambda>r. r\<lparr>br_clock := format_nano target, br_state := s, br_digest := x\<rparr>) d = (n, d')"
    for s x n d'
    using casBranch_ok [OF dist Inr refl, of "\<lambda>r. r\<lparr>br_clock := format_nano target, br_state := s, br_digest := x\<rparr>"] that
    by simp
  show ?thesis
  proof (cases "expectHead h b")
    case (Inl e)
    then show ?thesis
      using Inr by (auto simp: AdvanceClock_def transaction_def Branch_def expectHead_def split: option.splits if_splits)
  next
    case (Inr u)
    then have "\<not> (\<exists>v. h = Some v \<and> v \<noteq> b_head b)"
      by (auto simp: expectHead_Inr)
    moreover have "fst (AdvanceClock bid target h d) \<noteq> Inl ErrBranchConflict"
    proof
      assume "fst (AdvanceClock bid target h d) = Inl ErrBranchConflict"
      then show False
        using \<open>scanBranch (branch_where bid d) = Inr b\<close> Inr cas
        by (auto simp: AdvanceClock_def transaction_def Let_def bindE_def guardE_def budgetE_def split: sum.splits if_split_asm prod.splits dest!: collectDue_Inl cas)
    qed
    ultimately show ?thesis
      using \<open>scanBranch (branch_where bid d) = Inr b\<close> by (auto simp: Branch_def)
  qed
qed

end
