(* ===== verification/Store_Example.thy ===== *)
theory Store_Example
  imports Queue Store_Heads
begin

text \<open>
  A small concrete world: one branch with one sequence, a callback that draws the next number,
  a snapshot, a fault plan and a signal. The witnesses of the store's properties run on it.
\<close>

definition ex_spec :: string where
  "ex_spec = canonical_Digest JNull"

definition ex_state :: "int \<Rightarrow> world_state" where
  "ex_state n = New\<lparr>Sequences := [(''order'', n)]\<rparr>"

definition ex_apply :: call_apply where
  "ex_apply w clock n = Inr (w\<lparr>Sequences := put ''order'' (n + 1) (Sequences w)\<rparr>,
     \<lparr>oc_result = JNum (n + 1), oc_errorClass = [], oc_commit = True\<rparr>)"

definition ex_row :: "int \<Rightarrow> int \<Rightarrow> int \<Rightarrow> branch_row" where
  "ex_row n calls head = \<lparr>br_id = ''main'', br_spec = ex_spec, br_state = ex_state n, br_digest = state_digest (ex_state n),
     br_clock = format_nano 0, br_calls = calls, br_head = head\<rparr>"

definition ex_branch :: "int \<Rightarrow> int \<Rightarrow> int \<Rightarrow> branch" where
  "ex_branch n calls head = \<lparr>b_id = ''main'', b_spec = ex_spec, b_state = ex_state n, b_digest = state_digest (ex_state n),
     b_clock = 0, b_calls = calls, b_head = head\<rparr>"

definition db0 :: db where
  "db0 = empty_db\<lparr>branches := [ex_row 1 0 0]\<rparr>"

lemma ex_state_json [simp]: "canonical_JSON (state_json (ex_state 1)) = ''{\"entities\":{},\"sequences\":{\"order\":1}}''"
  "canonical_JSON (state_json (ex_state 2)) = ''{\"entities\":{},\"sequences\":{\"order\":2}}''"
  by code_simp+

lemma ex_state_simps [simp]:
  "Clone (ex_state n) = ex_state n" "exact_state (ex_state n)" "wf_state (ex_state n)" "events_of (ex_state n) = []"
  "Scheduler (ex_state n) = None"
  by (simp_all add: Clone_def ex_state_def New_def exact_state_def events_of_def wf_state_def map_vals_def wf_map_Cons)

lemma within_budget_ex_state [simp]: "within_budget (ex_state 1)" "within_budget (ex_state 2)"
  unfolding within_budget_def ex_state_json
  by (simp_all add: New_def ex_state_def events_of_def state_json_def map_vals_def)

lemma budget_ok [simp]: "within_budget s \<Longrightarrow> budgetE s = Inr ()" "within_budget s \<Longrightarrow> ValidateBudget s = Inr ()"
  by (simp_all add: ValidateBudget_iff)

lemma validateID_main [simp]: "validateID k ''main'' = Inr ()"
  unfolding validateID_Inr by code_simp

lemma parse_zero [simp]: "parse_nano (format_nano 0) = Some (0, True)"
  by (rule parse_format) (simp_all add: max_instant_def year_start_def day_ns_def hour_ns_def second_def)

lemma initialize_db0: "InitializeBranch ''main'' ex_spec (ex_state 1) 0 empty_db = (Inr (), db0)"
  by (simp add: InitializeBranch_def transaction_def empty_db_def row_exists_def db0_def ex_row_def)

lemma safe_db0: "safe_step empty_db db0"
  by (rule safe_step.intros(1) [OF initialize_db0]) (simp_all add: max_instant_def year_start_def day_ns_def hour_ns_def second_def)

lemma db_ok_db0 [simp]: "db_ok db0"
  using store.inv_step [OF safe_db0] by simp

lemma scan_ex_row [simp]: "scanBranch (Some (ex_row 1 c h)) = Inr (ex_branch 1 c h)" "scanBranch (Some (ex_row 2 c h)) = Inr (ex_branch 2 c h)"
  by (simp_all add: scanBranch_def ex_row_def ex_branch_def Let_def)

lemma db0_simps [simp]: "fault_plans db0 = []" "snapshots db0 = []" "audit db0 = []" "control_audit db0 = []"
  "fault_events db0 = []" "branches db0 = [ex_row 1 0 0]"
  by (simp_all add: db0_def empty_db_def)

lemma ex_branch_simps [simp]: "b_id (ex_branch n c h) = ''main''" "b_spec (ex_branch n c h) = ex_spec" "b_state (ex_branch n c h) = ex_state n"
  "b_digest (ex_branch n c h) = state_digest (ex_state n)" "b_clock (ex_branch n c h) = 0" "b_calls (ex_branch n c h) = c"
  "b_head (ex_branch n c h) = h"
  by (simp_all add: ex_branch_def)

lemma ex_row_simps [simp]: "br_id (ex_row n c h) = ''main''" "br_head (ex_row n c h) = h"
  by (simp_all add: ex_row_def)

lemma branch_db0 [simp]: "branch_where ''main'' db0 = Some (ex_row 1 0 0)" "Branch ''main'' db0 = Inr (ex_branch 1 0 0)"
  by (simp_all add: Branch_def branch_where_def)

text \<open>A call that succeeds.\<close>

definition db1 :: db where
  "db1 = db0\<lparr>branches := [ex_row 2 1 1], audit := [\<lparr>au_branch = ''main'', au_callIndex = 1, au_tool = ''draw'', au_input = ''{}'',
     au_result = ''2'', au_errorClass = [], au_before = state_digest (ex_state 1), au_after = state_digest (ex_state 2)\<rparr>]\<rparr>"

definition ex_result :: apply_result where
  "ex_result = \<lparr>ar_result = JNum 2, ar_errorClass = [], ar_before = state_digest (ex_state 1), ar_after = state_digest (ex_state 2),
     ar_callIndex = 1, ar_faultID = [], ar_faultPhase = []\<rparr>"

lemma ex_text [simp]: "canonical_JSON (JObj []) = ''{}''" "canonical_JSON (JNum 2) = ''2''"
  by code_simp+

lemma ex_input [simp]: "ValidateJSON (JObj []) MaxInputBytes = Inr ()"
  by (simp add: ValidateJSON_iff)

lemma ex_apply_state [simp]: "ex_apply (ex_state n) c 1 = Inr (ex_state 2, \<lparr>oc_result = JNum 2, oc_errorClass = [], oc_commit = True\<rparr>)"
  by (simp add: ex_apply_def ex_state_def New_def)

lemma call_db0: "ApplyCall ''main'' ex_spec ''draw'' (JObj []) ex_apply db0 = (Inr ex_result, db1)"
  unfolding ApplyCall_def transaction_Inr
  by (simp add: Let_def faultedApply_def takeFault_def armedFaults_def
      appendToolAudit_def casBranch_def affected_def update_where_def ex_result_def db1_def)
     (simp add: ex_row_def)

text \<open>A snapshot, a second call on top of it, a reset and a fork.\<close>

definition dbs :: db where "dbs = snd (CreateSnapshot ''main'' ''main'' db0)"

lemma snapshot_db0: "\<exists>sn. CreateSnapshot ''main'' ''main'' db0 = (Inr sn, dbs)"
  unfolding dbs_def by (simp add: CreateSnapshot_def transaction_def Let_def row_exists_def)

end
