(* ===== verification/Store_Props.thy ===== *)
theory Store_Props
  imports Store_Example
begin

text \<open>
  The properties of the world store, each with a run of the example world as its witness.
\<close>

section \<open>Runs of the store\<close>



text \<open>C2 Branch isolation: whatever operations run on other branches, the rows, fault plans,
  audit trail, control log and fault events of a branch, and what \<open>Branch\<close> reads of it,
  stay as they were.\<close>

theorem branch_isolation:
  assumes "(\<lambda>d d'. \<exists>bid. bid \<noteq> k \<and> store_step bid d d')\<^sup>*\<^sup>* d d'"
  shows "branch_view k d' = branch_view k d \<and> Branch k d' = Branch k d"
  using isolation.view_run [OF assms] branch_where_view [OF isolation.view_run [OF assms]] by (simp only: Branch_def simp_thms)

theorem branch_isolation_witness: "Branch ''other'' db1 = Branch ''other'' db0"
proof -
  have "(\<lambda>d d'. \<exists>bid. bid \<noteq> ''other'' \<and> store_step bid d d')\<^sup>*\<^sup>* db0 db1"
    by (rule r_into_rtranclp, rule exI [of _ "''main''"]) (simp add: store_step.call [OF call_db0])
  then show ?thesis by (rule branch_isolation [THEN conjunct2])
qed

text \<open>C4 The audit table, the control log, the fault events and the snapshots are append-only
  in every run: no operation rewrites or drops an entry.\<close>

theorem ledgers_append_only:
  assumes "any_step\<^sup>*\<^sup>* d d'"
  shows "(\<exists>us. audit d' = audit d @ us) \<and> (\<exists>us. control_audit d' = control_audit d @ us) \<and>
    (\<exists>us. fault_events d' = fault_events d @ us) \<and> (\<exists>us. snapshots d' = snapshots d @ us)"
  using audit_log.ledger_run [OF assms] control_log.ledger_run [OF assms] fault_log.ledger_run [OF assms]
    snapshot_log.ledger_run [OF assms] by blast

theorem ledgers_append_only_witness: "\<exists>us. audit db1 = audit db0 @ us"
proof -
  have "any_step\<^sup>*\<^sup>* db0 db1"
    using store_step.call [OF call_db0] by blast
  then show ?thesis using ledgers_append_only by blast
qed

text \<open>Optimistic concurrency: along a run a branch never disappears, its head version never
  decreases, and a reader that finds the version it remembers finds the row it remembers.\<close>

theorem head_version_identifies_row:
  assumes "safe_step\<^sup>*\<^sup>* d d'" "db_ok d" "branch_where k d = Some r"
  shows "\<exists>r'. branch_where k d' = Some r' \<and> br_head r \<le> br_head r' \<and> (br_head r' = br_head r \<longrightarrow> r' = r)"
  using assms by (rule head_identifies_row)

theorem head_version_identifies_row_witness: "\<exists>r'. branch_where ''main'' db0 = Some r' \<and> br_head (ex_row 1 0 0) \<le> br_head r'"
  using head_version_identifies_row [OF rtranclp.rtrancl_refl db_ok_db0 branch_db0(1)] by blast

text \<open>Moving the clock reports a conflict exactly when the caller named a head version
  and it is not the one the branch has.\<close>

theorem AdvanceClock_conflict:
  assumes "db_ok d"
  shows "fst (AdvanceClock bid target h d) = Inl ErrBranchConflict \<longleftrightarrow>
    (\<exists>b v. Branch bid d = Inr b \<and> h = Some v \<and> v \<noteq> b_head b)"
  using assms by (rule AdvanceClock_conflict_iff)

theorem AdvanceClock_conflict_witness: "fst (AdvanceClock ''main'' 5 (Some 7) db0) = Inl ErrBranchConflict"
  using AdvanceClock_conflict [OF db_ok_db0, of "''main''" 5 "Some 7"] by simp

section \<open>Snapshots\<close>

text \<open>C3 Time travel: take a snapshot of a branch, run any operations on any branches, and
  reset a branch to the snapshot. It then reads with the specification, state, digest and clock
  of the snapshotted branch and a call count of zero. (Numbers in the state are exact as
  \<open>float64\<close>, see \<open>Clone\<close>.)\<close>

theorem snapshot_reset_restores:
  assumes "CreateSnapshot name bid d0 = (Inr sn, d1)" "Branch bid d0 = Inr b" "db_ok d0" "exact_state (b_state b)"
    and "any_step\<^sup>*\<^sup>* d1 d2" "db_ok d2" "Reset name k d2 = (Inr u, d3)"
  shows "\<exists>b'. Branch k d3 = Inr b' \<and> same_world b' b \<and> b_calls b' = 0"
  using assms by (rule Reset_restores)

lemma dbs_simps [simp]: "branches dbs = [ex_row 1 0 0]" "fault_plans dbs = []" "audit dbs = []"
  "snapshots dbs = [\<lparr>sn_id = snapshot_id ''main'' (ex_branch 1 0 0), sn_name = ''main'', sn_spec = ex_spec, sn_state = ex_state 1,
     sn_digest = state_digest (ex_state 1), sn_clock = format_nano 0, sn_sourceHead = 0, sn_schema = schemaVersion\<rparr>]"
  by (simp_all add: dbs_def CreateSnapshot_def transaction_def Let_def row_exists_def)

lemma db_ok_dbs: "db_ok dbs"
  using snapshot_db0 db_ok_CreateSnapshot db_ok_db0 by blast

lemma scanSnapshot_dbs: "scanSnapshot (snapshot_where ''main'' dbs) = Inr \<lparr>s_id = snapshot_id ''main'' (ex_branch 1 0 0), s_name = ''main'',
   s_spec = ex_spec, s_state = ex_state 1, s_digest = state_digest (ex_state 1), s_clock = 0, s_sourceHead = 0, s_schema = schemaVersion\<rparr>"
  by (simp add: scanSnapshot_def snapshot_where_def Let_def)

lemma reset_dbs: "\<exists>d. Reset ''main'' ''main'' dbs = (Inr (), d)"
  by (simp add: Reset_def transaction_def Let_def scanSnapshot_dbs branch_where_def casBranch_def affected_def)

theorem snapshot_reset_restores_witness:
  "\<exists>d b'. Reset ''main'' ''main'' dbs = (Inr (), d) \<and> Branch ''main'' d = Inr b' \<and> same_world b' (ex_branch 1 0 0) \<and> b_calls b' = 0"
proof -
  obtain sn where sn: "CreateSnapshot ''main'' ''main'' db0 = (Inr sn, dbs)" using snapshot_db0 by blast
  obtain d where d: "Reset ''main'' ''main'' dbs = (Inr (), d)" using reset_dbs by blast
  show ?thesis
    using snapshot_reset_restores [OF sn branch_db0(2) db_ok_db0 _ rtranclp.rtrancl_refl db_ok_dbs d] d by auto
qed

text \<open>A fork of a snapshot, whenever it is taken, is a new branch with the world of the
  snapshotted branch, call count zero and head version zero.\<close>

theorem snapshot_fork_copies:
  assumes "CreateSnapshot name bid d0 = (Inr sn, d1)" "Branch bid d0 = Inr b" "db_ok d0" "exact_state (b_state b)"
    and "any_step\<^sup>*\<^sup>* d1 d2" "Fork name k d2 = (Inr u, d3)"
  shows "\<exists>b'. Branch k d3 = Inr b' \<and> same_world b' b \<and> b_calls b' = 0 \<and> b_head b' = 0"
  using assms by (rule Fork_copies)

lemma fork_dbs: "\<exists>d. Fork ''main'' ''copy'' dbs = (Inr (), d)"
proof -
  have "validateID k ''copy'' = Inr ()" for k unfolding validateID_Inr by code_simp
  note v = this
  show ?thesis
    by (simp add: v Fork_def transaction_def Let_def scanSnapshot_dbs row_exists_def)
qed

theorem snapshot_fork_copies_witness:
  "\<exists>d b'. Fork ''main'' ''copy'' dbs = (Inr (), d) \<and> Branch ''copy'' d = Inr b' \<and> same_world b' (ex_branch 1 0 0)"
proof -
  obtain sn where sn: "CreateSnapshot ''main'' ''main'' db0 = (Inr sn, dbs)" using snapshot_db0 by blast
  obtain d where d: "Fork ''main'' ''copy'' dbs = (Inr (), d)" using fork_dbs by blast
  show ?thesis
    using snapshot_fork_copies [OF sn branch_db0(2) db_ok_db0 _ rtranclp.rtrancl_refl d] d by auto
qed

section \<open>Calls and faults\<close>


definition ex_failing :: call_apply where
  "ex_failing w clock n = Inr (New, \<lparr>oc_result = JNull, oc_errorClass = ''NOT_FOUND'', oc_commit = False\<rparr>)"

lemma ex_null [simp]: "canonical_JSON JNull = ''null''"
  by code_simp


text \<open>A fault armed for the phase before validation decides the call by itself: whatever
  the tool would have done, the result and the database are the same.\<close>

theorem before_fault_decides:
  assumes "armedFaults bid t PhaseBefore d \<noteq> []"
  shows "ApplyCall bid sp t i f d = ApplyCall bid sp t i g d"
  using assms by (rule before_fault_skips_callback)

definition ex_plan :: fault_plan where
  "ex_plan = \<lparr>fp_id = ''f1'', fp_branch = ''main'', fp_tool = ''draw'', fp_phase = PhaseBefore, fp_errorClass = ''RATE_LIMITED'',
     fp_message = ''slow down'', fp_remaining = 2, fp_fired = 0\<rparr>"

theorem before_fault_decides_witness:
  "ApplyCall ''main'' ex_spec ''draw'' (JObj []) ex_apply (db0\<lparr>fault_plans := [ex_plan]\<rparr>) =
   ApplyCall ''main'' ex_spec ''draw'' (JObj []) ex_failing (db0\<lparr>fault_plans := [ex_plan]\<rparr>)"
  by (rule before_fault_decides) (simp add: armedFaults_def ex_plan_def)

text \<open>The digest of a branch's fault plans, which identifies an experiment, does not change
  when calls spend the plans: repeats only move from remaining to fired.\<close>

theorem FaultPlanDigest_stable:
  assumes "ApplyCall bid sp t i f d = (Inr r, d')" "Branch k d = Inr b" "Branch k d' = Inr b'"
  shows "FaultPlanDigest k d' = FaultPlanDigest k d"
  using assms by (rule FaultPlanDigest_ApplyCall)

theorem FaultPlanDigest_stable_witness: "FaultPlanDigest ''main'' db1 = FaultPlanDigest ''main'' db0"
proof -
  have "Branch ''main'' db1 = Inr (ex_branch 2 1 1)"
    by (simp add: Branch_def branch_where_def db1_def)
  then show ?thesis
    by (rule FaultPlanDigest_stable [OF call_db0 branch_db0(2)])
qed

end
