(* ===== verification/Twin_Spec.thy ===== *)
theory Twin_Spec
  imports Store
begin

text \<open>
  \<open>internal/spec/spec.go\<close>: the TwinSpec, its validation, its digest and the MCP tool surface.
  A nil \<open>map[string]any\<close> is \<open>None\<close>; so is a nil slice where its JSON form differs from an
  empty one. Decoding the YAML text is not modelled.
\<close>

section \<open>The specification\<close>

record condition =
  co_expr :: string
  co_code :: string
  co_message :: string

record effect =
  ef_op :: string
  ef_entity :: string
  ef_key :: string
  ef_value :: string
  ef_sequence :: string
  ef_as :: string
  ef_merge :: bool
  ef_stream :: string
  ef_bytes :: int

record query =
  qu_entity :: string
  qu_key :: string
  qu_where :: string
  qu_many :: bool
  qu_as :: string

record tool =
  to_name :: string
  to_description :: string
  to_inputSchema :: "json gomap option"
  to_outputSchema :: "json gomap option"
  to_modeled :: "bool option"
  to_preconditions :: "condition list"
  to_effects :: "effect list"
  to_query :: "query option"
  to_postconditions :: "condition list"
  to_result :: string

record upstream_meta =
  up_protocol :: string
  up_status :: string
  up_surfaceDigest :: string

record entropy_spec =
  en_algorithm :: string
  en_seed :: string

record invariant_spec =
  iv_id :: string
  iv_assert :: string

record twin_spec =
  tw_apiVersion :: string
  tw_kind :: string
  tw_name :: string
  tw_upstream :: upstream_meta
  tw_fidelityLevel :: string
  tw_fidelityStatus :: string
  tw_clockMode :: string
  tw_clockInitial :: string
  tw_entropy :: "entropy_spec option"
  tw_entities :: "string list option gomap"
  tw_invariants :: "invariant_spec list"
  tw_tools :: "tool list option"

definition tools_of :: "twin_spec \<Rightarrow> tool list" where
  "tools_of s = (case tw_tools s of None \<Rightarrow> [] | Some ts \<Rightarrow> ts)"

abbreviation (input) MaxInvariants :: nat where "MaxInvariants \<equiv> 512"
abbreviation (input) MaxDescriptionBytes :: nat where "MaxDescriptionBytes \<equiv> 32768"

definition errorClasses :: "string list" where
  "errorClasses = [''INVALID_INPUT'', ''PRECONDITION_FAILED'', ''NOT_FOUND'', ''CONFLICT'', ''INVARIANT_VIOLATION'',
     ''UNMODELED_BEHAVIOR'', ''RATE_LIMITED'', ''TIMEOUT_BEFORE_EFFECT'', ''TIMEOUT_AFTER_EFFECT'', ''RESOURCE_LIMIT'',
     ''INTERNAL_TWIN_ERROR'']"

definition IsCanonicalErrorClass :: "string \<Rightarrow> bool" where
  "IsCanonicalErrorClass v \<longleftrightarrow> v \<in> set errorClasses"

section \<open>JSON form and digests\<close>

definition opt_field :: "string \<Rightarrow> bool \<Rightarrow> json \<Rightarrow> (string \<times> json) list" where
  "opt_field k present v = (if present then [(k, v)] else [])"

definition schema_json :: "json gomap option \<Rightarrow> json" where
  "schema_json m = (case m of None \<Rightarrow> JNull | Some kvs \<Rightarrow> JObj kvs)"

definition condition_json :: "condition \<Rightarrow> json" where
  "condition_json c = JObj ([(''expr'', JStr (co_expr c))] @ str_field ''code'' (co_code c) @ str_field ''message'' (co_message c))"

definition effect_json :: "effect \<Rightarrow> json" where
  "effect_json e = JObj ([(''op'', JStr (ef_op e))] @ str_field ''entity'' (ef_entity e) @ str_field ''key'' (ef_key e) @
     str_field ''value'' (ef_value e) @ str_field ''sequence'' (ef_sequence e) @ str_field ''as'' (ef_as e) @
     opt_field ''merge'' (ef_merge e) (JBool True) @ str_field ''stream'' (ef_stream e) @
     opt_field ''bytes'' (ef_bytes e \<noteq> 0) (JNum (ef_bytes e)))"

definition query_json :: "query \<Rightarrow> json" where
  "query_json q = JObj ([(''entity'', JStr (qu_entity q))] @ str_field ''key'' (qu_key q) @ str_field ''where'' (qu_where q) @
     opt_field ''many'' (qu_many q) (JBool True) @ [(''as'', JStr (qu_as q))])"

definition list_field :: "string \<Rightarrow> ('a \<Rightarrow> json) \<Rightarrow> 'a list \<Rightarrow> (string \<times> json) list" where
  "list_field k f xs = opt_field k (xs \<noteq> []) (JArr (map f xs))"

definition output_field :: "json gomap option \<Rightarrow> (string \<times> json) list" where
  "output_field m = opt_field ''outputSchema'' (m \<noteq> None \<and> m \<noteq> Some []) (schema_json m)"

definition tool_json :: "tool \<Rightarrow> json" where
  "tool_json t = JObj ([(''name'', JStr (to_name t)), (''description'', JStr (to_description t)),
       (''inputSchema'', schema_json (to_inputSchema t))] @
     output_field (to_outputSchema t) @
     (case to_modeled t of None \<Rightarrow> [] | Some b \<Rightarrow> [(''modeled'', JBool b)]) @
     list_field ''preconditions'' condition_json (to_preconditions t) @
     list_field ''effects'' effect_json (to_effects t) @
     (case to_query t of None \<Rightarrow> [] | Some q \<Rightarrow> [(''query'', query_json q)]) @
     list_field ''postconditions'' condition_json (to_postconditions t) @
     str_field ''result'' (to_result t))"

definition twin_json :: "twin_spec \<Rightarrow> json" where
  "twin_json s = JObj ([
     (''apiVersion'', JStr (tw_apiVersion s)), (''kind'', JStr (tw_kind s)),
     (''metadata'', JObj [
        (''name'', JStr (tw_name s)),
        (''upstream'', JObj ([(''protocol'', JStr (up_protocol (tw_upstream s))), (''status'', JStr (up_status (tw_upstream s)))] @
           str_field ''surfaceDigest'' (up_surfaceDigest (tw_upstream s)))),
        (''fidelity'', JObj [(''level'', JStr (tw_fidelityLevel s)), (''status'', JStr (tw_fidelityStatus s))])]),
     (''clock'', JObj [(''mode'', JStr (tw_clockMode s)), (''initial'', JStr (tw_clockInitial s))])] @
     (case tw_entropy s of None \<Rightarrow> []
      | Some e \<Rightarrow> [(''entropy'', JObj (str_field ''algorithm'' (en_algorithm e) @ str_field ''seed'' (en_seed e)))]) @
     [(''state'', JObj [(''entities'', JObj (map_vals (\<lambda>k. JObj [(''key'',
        (case k of None \<Rightarrow> JNull | Some ks \<Rightarrow> JArr (map JStr ks)))]) (tw_entities s)))])] @
     list_field ''invariants'' (\<lambda>i. JObj [(''id'', JStr (iv_id i)), (''assert'', JStr (iv_assert i))]) (tw_invariants s) @
     [(''tools'', (case tw_tools s of None \<Rightarrow> JNull | Some ts \<Rightarrow> JArr (map tool_json ts)))])"

definition spec_Digest :: "twin_spec \<Rightarrow> string" where
  "spec_Digest s = canonical_Digest (twin_json s)"

record surface_annotations =
  an_readOnly :: bool
  an_destructive :: bool
  an_openWorld :: bool

definition ToolAnnotations :: "tool \<Rightarrow> surface_annotations" where
  "ToolAnnotations t =
     \<lparr>an_readOnly = (to_effects t = []),
      an_destructive = (\<exists>e \<in> set (to_effects t). ef_op e = ''update'' \<or> ef_op e = ''delete''),
      an_openWorld = False\<rparr>"

text \<open>The tools of the surface, in the order of their names.\<close>

definition Surface :: "twin_spec \<Rightarrow> json" where
  "Surface s = JObj [(''format'', JStr ''statetwin.dev/mcp-tool-surface/v1alpha1''),
     (''tools'', JArr (map (\<lambda>t. JObj ([(''name'', JStr (to_name t)), (''description'', JStr (to_description t)),
         (''inputSchema'', schema_json (to_inputSchema t))] @ output_field (to_outputSchema t) @
         [(''annotations'', JObj [(''readOnly'', JBool (an_readOnly (ToolAnnotations t))),
            (''destructive'', JBool (an_destructive (ToolAnnotations t))), (''openWorld'', JBool (an_openWorld (ToolAnnotations t)))])]))
       (sort_key to_name (tools_of s))))]"

definition SurfaceDigest :: "twin_spec \<Rightarrow> string" where
  "SurfaceDigest s = canonical_Digest (Surface s)"

section \<open>Validation\<close>

text \<open>The nesting depth of a schema, counted from \<open>depth\<close>.\<close>

primrec schemaDepth :: "json \<Rightarrow> nat \<Rightarrow> nat" where
  "schemaDepth JNull depth = depth"
| "schemaDepth (JBool b) depth = depth"
| "schemaDepth (JNum n) depth = depth"
| "schemaDepth (JStr s) depth = depth"
| "schemaDepth (JArr xs) depth = foldr (\<lambda>f m. max (f (depth + 1)) m) (map schemaDepth xs) depth"
| "schemaDepth (JObj kvs) depth = foldr (\<lambda>f m. max (f (depth + 1)) m) (map snd (map (map_prod id schemaDepth) kvs)) depth"

definition validateSchemaBudget :: "json gomap \<Rightarrow> string option" where
  "validateSchemaBudget schema =
     (if length (canonical_JSON (JObj schema)) > MaxSchemaBytes then Some (''exceeds canonical size limit '' @ dec_int (int MaxSchemaBytes))
      else if schemaDepth (JObj schema) 0 > MaxSchemaDepth then Some (''exceeds nesting limit '' @ dec_int (int MaxSchemaDepth))
      else None)"

text \<open>One message per violated rule: \<open>problem c m\<close> is \<open>if c { problems = append(problems, m) }\<close>.\<close>

definition problem :: "bool \<Rightarrow> string \<Rightarrow> string list" where
  "problem c m = (if c then [m] else [])"

definition at_index :: "string \<Rightarrow> nat \<Rightarrow> string" where
  "at_index s i = s @ ''['' @ dec_int (int i) @ '']''"

definition codeProblems :: "string \<Rightarrow> condition list \<Rightarrow> string list" where
  "codeProblems p cs = concat (map (\<lambda>(j, c).
     problem (co_code c \<noteq> [] \<and> \<not> IsCanonicalErrorClass (co_code c)) (at_index p j @ ''.code is not a canonical error class''))
     (zip [0..<length cs] cs))"

definition effectProblems :: "twin_spec \<Rightarrow> string \<Rightarrow> effect \<Rightarrow> string list" where
  "effectProblems s ep e =
     (if ef_op e = ''allocate'' then
        problem (ef_sequence e = [] \<or> ef_as e = []) (ep @ '' allocate requires sequence and as'')
      else if ef_op e = ''entropy'' then
        problem (case tw_entropy s of None \<Rightarrow> True | Some en \<Rightarrow> en_algorithm en = []) (ep @ '' requires a configured entropy profile'') @
        problem (\<not> toolNamePattern (ef_stream e) \<or> \<not> toolNamePattern (ef_as e)) (ep @ '' entropy requires a valid stream and as'') @
        problem (ef_bytes e < 1 \<or> ef_bytes e > int MaxEntropyBytes) (ep @ '' entropy bytes must be 1..'' @ dec_int (int MaxEntropyBytes)) @
        problem (ef_entity e \<noteq> [] \<or> ef_key e \<noteq> [] \<or> ef_value e \<noteq> [] \<or> ef_sequence e \<noteq> [] \<or> ef_merge e)
          (ep @ '' entropy contains fields from another effect operation'')
      else if ef_op e = ''insert'' \<or> ef_op e = ''update'' \<or> ef_op e = ''delete'' then
        problem (\<not> has (tw_entities s) (ef_entity e)) (ep @ '' references unknown entity '' @ ef_entity e) @
        problem (ef_key e = []) (ep @ '' requires key expression'') @
        problem (ef_op e \<noteq> ''delete'' \<and> ef_value e = []) (ep @ '' requires value expression'')
      else [ep @ '' has unsupported op '' @ ef_op e])"

definition schemaProblems :: "string \<Rightarrow> json gomap option \<Rightarrow> string list" where
  "schemaProblems p m = (case m of None \<Rightarrow> [] | Some schema \<Rightarrow>
     (case validateSchemaBudget schema of None \<Rightarrow> [] | Some e \<Rightarrow> [p @ e]))"

definition toolProblems :: "twin_spec \<Rightarrow> string list \<Rightarrow> string \<Rightarrow> tool \<Rightarrow> string list" where
  "toolProblems s seen prefix t =
     problem (\<not> toolNamePattern (to_name t)) (prefix @ ''.name is invalid'') @
     problem (to_name t \<in> set seen) (prefix @ ''.name is duplicated'') @
     (if blank (to_description t) then [prefix @ ''.description is required'']
      else problem (length (to_description t) > MaxDescriptionBytes) (prefix @ ''.description exceeds limit '' @ dec_int (int MaxDescriptionBytes))) @
     problem (to_inputSchema t = None) (prefix @ ''.inputSchema is required'') @
     schemaProblems (prefix @ ''.inputSchema '') (to_inputSchema t) @
     schemaProblems (prefix @ ''.outputSchema '') (to_outputSchema t) @
     problem (length (to_effects t) > MaxEffectsPerCall) (prefix @ ''.effects exceeds limit '' @ dec_int (int MaxEffectsPerCall)) @
     codeProblems (prefix @ ''.preconditions'') (to_preconditions t) @
     codeProblems (prefix @ ''.postconditions'') (to_postconditions t) @
     concat (map (\<lambda>(j, e). effectProblems s (at_index (prefix @ ''.effects'') j) e) (zip [0..<length (to_effects t)] (to_effects t))) @
     (case to_query t of None \<Rightarrow> [] | Some q \<Rightarrow>
        problem (\<not> has (tw_entities s) (qu_entity q)) (prefix @ ''.query references unknown entity '' @ qu_entity q) @
        problem (qu_as q = []) (prefix @ ''.query.as is required''))"

fun toolsProblems :: "twin_spec \<Rightarrow> string list \<Rightarrow> nat \<Rightarrow> tool list \<Rightarrow> string list" where
  "toolsProblems s seen i [] = []"
| "toolsProblems s seen i (t # ts) =
     toolProblems s seen (at_index ''tools'' i) t @ toolsProblems s (to_name t # seen) (i + 1) ts"

fun invariantProblems :: "string list \<Rightarrow> invariant_spec list \<Rightarrow> string list" where
  "invariantProblems seen [] = []"
| "invariantProblems seen (i # is) =
     problem (iv_id i = [] \<or> iv_assert i = []) ''every invariant requires id and assert'' @
     problem (iv_id i \<in> set seen) (''duplicate invariant id '' @ iv_id i) @
     invariantProblems (iv_id i # seen) is"

definition upstreamProblems :: "upstream_meta \<Rightarrow> string list" where
  "upstreamProblems u =
     problem (up_protocol u \<noteq> ''mcp'') ''metadata.upstream.protocol must be mcp'' @
     (if up_status u \<in> {''current'', ''drifted'', ''unknown''} then
        (if blank (up_surfaceDigest u) then [''metadata.upstream.surfaceDigest is required unless status is unbound'']
         else problem (\<not> digestPattern (up_surfaceDigest u)) ''metadata.upstream.surfaceDigest must be a lowercase sha256 digest'')
      else if up_status u = ''unbound'' then
        problem (\<not> blank (up_surfaceDigest u)) ''metadata.upstream.surfaceDigest must be empty when status is unbound''
      else [''metadata.upstream.status must be current, drifted, unknown, or unbound''])"

definition squote :: "string \<Rightarrow> string" where
  "squote s = [CHR 39] @ s @ [CHR 39]"

definition headProblems :: "twin_spec \<Rightarrow> string list" where
  "headProblems s =
     problem (tw_apiVersion s \<noteq> ''statetwin.dev/v1alpha1'') (''apiVersion must be '' @ [CHR 34] @ ''statetwin.dev/v1alpha1'' @ [CHR 34]) @
     problem (tw_kind s \<noteq> ''Twin'') (''kind must be '' @ [CHR 34] @ ''Twin'' @ [CHR 34]) @
     problem (\<not> toolNamePattern (tw_name s)) (''metadata.name must use lowercase letters, digits, '' @ squote ''-'' @ '' or '' @ squote ''_'') @
     upstreamProblems (tw_upstream s) @
     problem (tw_fidelityLevel s \<notin> {''L0'', ''L1'', ''L2'', ''L3''}) ''metadata.fidelity.level must be L0, L1, L2, or L3'' @
     problem (tw_fidelityStatus s \<notin> {''unverified'', ''verified''}) ''metadata.fidelity.status must be unverified or verified'' @
     problem (tw_fidelityLevel s \<in> {''L0'', ''L1''} \<and> tw_fidelityStatus s = ''verified'') ''L0/L1 artifacts cannot claim verified status'' @
     problem (tw_clockMode s \<noteq> ''virtual'') ''clock.mode must be virtual'' @
     problem (blank (tw_clockInitial s)) ''clock.initial is required'' @
     (case tw_entropy s of None \<Rightarrow> [] | Some e \<Rightarrow>
        problem (en_algorithm e \<noteq> ''sha256-ctr-v1'') ''entropy.algorithm must be sha256-ctr-v1'' @
        problem (\<not> digestPattern (en_seed e)) ''entropy.seed must be a lowercase sha256 digest'') @
     problem (tw_entities s = []) ''state.entities must not be empty'' @
     problem (length (tw_entities s) > MaxEntityTypeCount) (''state.entities exceeds limit '' @ dec_int (int MaxEntityTypeCount)) @
     problem (length (tools_of s) > MaxToolCount) (''tools exceeds limit '' @ dec_int (int MaxToolCount)) @
     problem (length (tw_invariants s) > MaxInvariants) (''invariants exceeds limit '' @ dec_int (int MaxInvariants))"

definition Validate :: "twin_spec \<Rightarrow> string list" where
  "Validate s = headProblems s @ toolsProblems s [] 0 (tools_of s) @ invariantProblems [] (tw_invariants s)"

section \<open>What validation means\<close>

lemma problem_Nil [simp]: "problem c m = [] \<longleftrightarrow> \<not> c"
  by (simp add: problem_def)

lemma foldr_depth: "foldr (\<lambda>f m. max (f (d + 1)) m) (map (\<lambda>v n. n + json_depth v) vs) d =
    d + foldr (\<lambda>x a. max (Suc x) a) (map json_depth vs) 0"
  by (induction vs) auto

text \<open>The recursive depth of a schema is the nesting depth of the resource profile, shifted.\<close>

lemma schemaDepth_eq: "schemaDepth v = (\<lambda>d. d + json_depth v)"
proof (induction v)
  case (JArr xs)
  then have "map schemaDepth xs = map (\<lambda>v n. n + json_depth v) xs" by simp
  then show ?case by (simp only: schemaDepth.simps json_depth.simps foldr_depth fun_eq_iff) simp
next
  case (JObj kvs)
  have vals: "map snd (map (map_prod id f) kvs) = map f (map snd kvs)" for f :: "json \<Rightarrow> 'z"
    by auto
  have "map schemaDepth (map snd kvs) = map (\<lambda>v n. n + json_depth v) (map snd kvs)"
    using JObj by fastforce
  then show ?case
    unfolding schemaDepth.simps json_depth.simps vals by (simp only: foldr_depth fun_eq_iff) simp
qed (simp_all add: fun_eq_iff)

definition good_schema :: "json gomap \<Rightarrow> bool" where
  "good_schema m \<longleftrightarrow> length (canonical_JSON (JObj m)) \<le> MaxSchemaBytes \<and> json_depth (JObj m) \<le> MaxSchemaDepth"

lemma validateSchemaBudget_None: "validateSchemaBudget m = None \<longleftrightarrow> good_schema m"
  by (simp add: validateSchemaBudget_def good_schema_def schemaDepth_eq del: json_depth.simps)

definition good_effect :: "twin_spec \<Rightarrow> effect \<Rightarrow> bool" where
  "good_effect s e \<longleftrightarrow>
     (ef_op e = ''allocate'' \<and> ef_sequence e \<noteq> [] \<and> ef_as e \<noteq> []) \<or>
     (ef_op e = ''entropy'' \<and> (\<exists>en. tw_entropy s = Some en \<and> en_algorithm en \<noteq> []) \<and>
        toolNamePattern (ef_stream e) \<and> toolNamePattern (ef_as e) \<and> 1 \<le> ef_bytes e \<and> ef_bytes e \<le> int MaxEntropyBytes \<and>
        ef_entity e = [] \<and> ef_key e = [] \<and> ef_value e = [] \<and> ef_sequence e = [] \<and> \<not> ef_merge e) \<or>
     (ef_op e \<in> {''insert'', ''update'', ''delete''} \<and> has (tw_entities s) (ef_entity e) \<and> ef_key e \<noteq> [] \<and>
        (ef_value e \<noteq> [] \<or> ef_op e = ''delete''))"

lemma effectProblems_Nil: "effectProblems s p e = [] \<longleftrightarrow> good_effect s e"
  by (auto simp: effectProblems_def good_effect_def split: option.splits)

definition good_tool :: "twin_spec \<Rightarrow> tool \<Rightarrow> bool" where
  "good_tool s t \<longleftrightarrow> toolNamePattern (to_name t) \<and> \<not> blank (to_description t) \<and> length (to_description t) \<le> MaxDescriptionBytes \<and>
     (\<exists>m. to_inputSchema t = Some m \<and> good_schema m) \<and> (\<forall>m. to_outputSchema t = Some m \<longrightarrow> good_schema m) \<and>
     length (to_effects t) \<le> MaxEffectsPerCall \<and>
     (\<forall>c \<in> set (to_preconditions t) \<union> set (to_postconditions t). co_code c = [] \<or> IsCanonicalErrorClass (co_code c)) \<and>
     (\<forall>e \<in> set (to_effects t). good_effect s e) \<and>
     (\<forall>q. to_query t = Some q \<longrightarrow> has (tw_entities s) (qu_entity q) \<and> qu_as q \<noteq> [])"

lemma set_zip_snd: "(\<forall>(j, x) \<in> set (zip [0..<length xs] xs). P x) \<longleftrightarrow> (\<forall>x \<in> set xs. P x)"
proof -
  have "snd ` set (zip [0..<length xs] xs) = set xs"
    by (metis length_upt map_snd_zip minus_nat.diff_0 set_map)
  then show ?thesis by (metis (mono_tags, lifting) case_prod_beta image_iff)
qed

lemma codeProblems_Nil: "codeProblems p cs = [] \<longleftrightarrow> (\<forall>c \<in> set cs. co_code c = [] \<or> IsCanonicalErrorClass (co_code c))"
proof -
  have "codeProblems p cs = [] \<longleftrightarrow> (\<forall>(j, c) \<in> set (zip [0..<length cs] cs). co_code c = [] \<or> IsCanonicalErrorClass (co_code c))"
    by (auto simp: codeProblems_def)
  then show ?thesis by (simp only: set_zip_snd)
qed

lemma toolProblems_Nil: "toolProblems s seen p t = [] \<longleftrightarrow> good_tool s t \<and> to_name t \<notin> set seen"
proof -
  have eff: "concat (map (\<lambda>(j, e). effectProblems s (at_index q j) e) (zip [0..<length es] es)) = [] \<longleftrightarrow>
      (\<forall>e \<in> set es. good_effect s e)" for q es
  proof -
    have "concat (map (\<lambda>(j, e). effectProblems s (at_index q j) e) (zip [0..<length es] es)) = [] \<longleftrightarrow>
        (\<forall>(j, e) \<in> set (zip [0..<length es] es). good_effect s e)"
      by (auto simp: effectProblems_Nil)
    then show ?thesis by (simp only: set_zip_snd)
  qed
  have sch: "schemaProblems q m = [] \<longleftrightarrow> (\<forall>x. m = Some x \<longrightarrow> good_schema x)" for q m
    by (auto simp: schemaProblems_def validateSchemaBudget_None [symmetric] split: option.splits)
  show ?thesis
    unfolding toolProblems_def append_is_Nil_conv problem_Nil eff sch codeProblems_Nil good_tool_def
    by (auto split: option.splits)
qed

lemma toolsProblems_Nil: "toolsProblems s seen i ts = [] \<longleftrightarrow>
    (\<forall>t \<in> set ts. good_tool s t \<and> to_name t \<notin> set seen) \<and> distinct (map to_name ts)"
  by (induction ts arbitrary: seen i) (auto simp: toolProblems_Nil intro: rev_image_eqI)

lemma invariantProblems_Nil: "invariantProblems seen is = [] \<longleftrightarrow>
    (\<forall>i \<in> set is. iv_id i \<noteq> [] \<and> iv_assert i \<noteq> [] \<and> iv_id i \<notin> set seen) \<and> distinct (map iv_id is)"
  by (induction "is" arbitrary: seen) (auto intro: rev_image_eqI)

definition good_upstream :: "upstream_meta \<Rightarrow> bool" where
  "good_upstream u \<longleftrightarrow> up_protocol u = ''mcp'' \<and>
     (up_status u \<in> {''current'', ''drifted'', ''unknown''} \<and> digestPattern (up_surfaceDigest u) \<and> \<not> blank (up_surfaceDigest u) \<or>
      up_status u = ''unbound'' \<and> blank (up_surfaceDigest u))"

lemma upstreamProblems_Nil: "upstreamProblems u = [] \<longleftrightarrow> good_upstream u"
  by (auto simp: upstreamProblems_def good_upstream_def)

text \<open>A valid TwinSpec, without indices or the order of the checks.\<close>

definition valid_twin :: "twin_spec \<Rightarrow> bool" where
  "valid_twin s \<longleftrightarrow>
     tw_apiVersion s = ''statetwin.dev/v1alpha1'' \<and> tw_kind s = ''Twin'' \<and> toolNamePattern (tw_name s) \<and> good_upstream (tw_upstream s) \<and>
     tw_fidelityLevel s \<in> {''L0'', ''L1'', ''L2'', ''L3''} \<and> tw_fidelityStatus s \<in> {''unverified'', ''verified''} \<and>
     (tw_fidelityStatus s = ''verified'' \<longrightarrow> tw_fidelityLevel s \<in> {''L2'', ''L3''}) \<and>
     tw_clockMode s = ''virtual'' \<and> \<not> blank (tw_clockInitial s) \<and>
     (\<forall>e. tw_entropy s = Some e \<longrightarrow> en_algorithm e = ''sha256-ctr-v1'' \<and> digestPattern (en_seed e)) \<and>
     1 \<le> length (tw_entities s) \<and> length (tw_entities s) \<le> MaxEntityTypeCount \<and>
     length (tools_of s) \<le> MaxToolCount \<and> length (tw_invariants s) \<le> MaxInvariants \<and>
     (\<forall>t \<in> set (tools_of s). good_tool s t) \<and> distinct (map to_name (tools_of s)) \<and>
     (\<forall>i \<in> set (tw_invariants s). iv_id i \<noteq> [] \<and> iv_assert i \<noteq> []) \<and> distinct (map iv_id (tw_invariants s))"

lemma headProblems_Nil: "headProblems s = [] \<longleftrightarrow>
     tw_apiVersion s = ''statetwin.dev/v1alpha1'' \<and> tw_kind s = ''Twin'' \<and> toolNamePattern (tw_name s) \<and> good_upstream (tw_upstream s) \<and>
     tw_fidelityLevel s \<in> {''L0'', ''L1'', ''L2'', ''L3''} \<and> tw_fidelityStatus s \<in> {''unverified'', ''verified''} \<and>
     (tw_fidelityStatus s = ''verified'' \<longrightarrow> tw_fidelityLevel s \<in> {''L2'', ''L3''}) \<and>
     tw_clockMode s = ''virtual'' \<and> \<not> blank (tw_clockInitial s) \<and>
     (\<forall>e. tw_entropy s = Some e \<longrightarrow> en_algorithm e = ''sha256-ctr-v1'' \<and> digestPattern (en_seed e)) \<and>
     1 \<le> length (tw_entities s) \<and> length (tw_entities s) \<le> MaxEntityTypeCount \<and>
     length (tools_of s) \<le> MaxToolCount \<and> length (tw_invariants s) \<le> MaxInvariants"
proof -
  have ent: "(case tw_entropy s of None \<Rightarrow> [] | Some e \<Rightarrow>
        problem (en_algorithm e \<noteq> ''sha256-ctr-v1'') ''entropy.algorithm must be sha256-ctr-v1'' @
        problem (\<not> digestPattern (en_seed e)) ''entropy.seed must be a lowercase sha256 digest'') = [] \<longleftrightarrow>
     (\<forall>e. tw_entropy s = Some e \<longrightarrow> en_algorithm e = ''sha256-ctr-v1'' \<and> digestPattern (en_seed e))"
    by (auto split: option.splits)
  show ?thesis
    unfolding headProblems_def append_is_Nil_conv problem_Nil ent upstreamProblems_Nil by (auto simp: Suc_le_eq)
qed

lemma Validate_Nil: "Validate s = [] \<longleftrightarrow> valid_twin s"
  unfolding Validate_def append_is_Nil_conv headProblems_Nil toolsProblems_Nil invariantProblems_Nil valid_twin_def
  by auto

text \<open>The surface forgets the order of the tools and all behaviour behind them.\<close>

definition surface_of :: "tool \<Rightarrow> string \<times> string \<times> json gomap option \<times> json gomap option \<times> surface_annotations" where
  "surface_of t = (to_name t, to_description t, to_inputSchema t, to_outputSchema t, ToolAnnotations t)"

lemma Surface_cong:
  assumes "map surface_of (sort_key to_name (tools_of s)) = map surface_of (sort_key to_name (tools_of s'))"
  shows "Surface s = Surface s'"
proof -
  define F where "F = (\<lambda>(n, de, i, out, an :: surface_annotations). JObj ([(''name'', JStr n), (''description'', JStr de),
         (''inputSchema'', schema_json i)] @ output_field out @
         [(''annotations'', JObj [(''readOnly'', JBool (an_readOnly an)),
            (''destructive'', JBool (an_destructive an)), (''openWorld'', JBool (an_openWorld an))])]))"
  have "Surface s = JObj [(''format'', JStr ''statetwin.dev/mcp-tool-surface/v1alpha1''),
     (''tools'', JArr (map F (map surface_of (sort_key to_name (tools_of s)))))]" for s
    by (simp add: Surface_def F_def surface_of_def comp_def)
  with assms show ?thesis by metis
qed

lemma sort_key_perm_map:
  fixes k :: "'a \<Rightarrow> 'b::linorder" and g :: "'a \<Rightarrow> 'c"
  assumes "distinct (map k xs)" "mset (map (\<lambda>x. (k x, g x)) xs) = mset (map (\<lambda>x. (k x, g x)) ys)"
  shows "map g (sort_key k xs) = map g (sort_key k ys)"
proof -
  let ?p = "\<lambda>x. (k x, g x)"
  have com: "sort_key fst (map ?p zs) = map ?p (sort_key k zs)" for zs
  proof -
    have "insort_key fst (?p z) (map ?p ws) = map ?p (insort_key k z ws)" for z ws
      by (induction ws) simp_all
    then show ?thesis by (induction zs) simp_all
  qed
  have "map fst (map ?p xs) = map k xs" by simp
  then have dx: "distinct (map fst (map ?p xs))" using assms(1) by (simp only:)
  have "map ?p (sort_key k xs) = map ?p (sort_key k ys)"
    unfolding com [symmetric]
  proof (rule map_sorted_distinct_set_unique [of fst])
    have set_eq: "set (map ?p xs) = set (map ?p ys)" by (rule mset_eq_setD [OF assms(2)])
    have "mset (map fst (map ?p xs)) = mset (map fst (map ?p ys))"
      using assms(2) by (simp only: mset_map)
    then have dy: "distinct (map fst (map ?p ys))"
      using dx mset_eq_imp_distinct_iff by blast
    have ds: "distinct (map fst (sort_key fst zs))" if "distinct (map fst zs)" for zs :: "('b \<times> 'c) list"
    proof -
      have "mset (map fst (sort_key fst zs)) = mset (map fst zs)" by (simp only: mset_map mset_sort)
      then show ?thesis using that mset_eq_imp_distinct_iff by blast
    qed
    show "distinct (map fst (sort_key fst (map ?p ys)))" "distinct (map fst (sort_key fst (map ?p xs)))"
      using ds [OF dy] ds [OF dx] .
    then show "inj_on fst (set (sort_key fst (map ?p xs)) \<union> set (sort_key fst (map ?p ys)))"
      using set_eq by (simp add: distinct_map)
    show "set (sort_key fst (map ?p xs)) = set (sort_key fst (map ?p ys))" using set_eq by simp
  qed simp_all
  then have "map snd (map ?p (sort_key k xs)) = map snd (map ?p (sort_key k ys))" by (simp only:)
  then show ?thesis by (simp add: comp_def)
qed

lemma SurfaceDigest_perm:
  assumes "distinct (map to_name (tools_of s))" "mset (map surface_of (tools_of s)) = mset (map surface_of (tools_of s'))"
  shows "SurfaceDigest s = SurfaceDigest s'"
proof -
  have "map (\<lambda>t. (to_name t, surface_of t)) ts = map (\<lambda>x. (fst x, x)) (map surface_of ts)" for ts
    by (simp add: surface_of_def)
  then have "mset (map (\<lambda>t. (to_name t, surface_of t)) (tools_of s)) = mset (map (\<lambda>t. (to_name t, surface_of t)) (tools_of s'))"
    using arg_cong [OF assms(2), of "image_mset (\<lambda>x. (fst x, x))"] unfolding mset_map [symmetric] by (simp only:)
  from Surface_cong [OF sort_key_perm_map [OF assms(1) this]] show ?thesis
    by (simp only: SurfaceDigest_def)
qed

end
