(* ===== verification/Engine.thy ===== *)
theory Engine
  imports Twin_Spec Store_Time
begin

text \<open>
  \<open>internal/engine/engine.go\<close> and \<open>schema.go\<close>: the runtime that executes a tool of a
  TwinSpec on a world state. The CEL compiler and evaluator and the JSON Schema validator are
  third-party code: they are the four functions of the record \<open>libs\<close>, about which nothing is
  assumed.
\<close>

section \<open>Third-party code\<close>

text \<open>A native Go value that a CEL evaluation converts to.\<close>

datatype native =
    NNull
  | NBadNull int
  | NBool bool
  | NInt int
  | NStr string
  | NList "native list"
  | NAnyMap "(native \<times> native) list"
  | NStrMap "(string \<times> native) list"

record activation =
  av_input :: json
  av_state :: json
  av_vars :: "json gomap"
  av_item :: json
  av_clock :: string
  av_call_index :: int

record libs =
  cel_compile :: "string \<Rightarrow> string option"
  cel_eval :: "string \<Rightarrow> activation \<Rightarrow> string + native"
  schema_compile :: "json gomap \<Rightarrow> string option"
  schema_validate :: "json gomap \<Rightarrow> json \<Rightarrow> string option"

text \<open>\<open>validateJSON\<close>: a tool without a schema accepts everything.\<close>

definition engine_validateJSON :: "libs \<Rightarrow> json \<Rightarrow> json gomap option \<Rightarrow> string option" where
  "engine_validateJSON l instance schema =
     (case schema of None \<Rightarrow> None | Some m \<Rightarrow>
        map_option (\<lambda>e. ''JSON Schema validation failed: '' @ e) (schema_validate l m instance))"

definition compileJSONSchema :: "libs \<Rightarrow> json gomap option \<Rightarrow> string option" where
  "compileJSONSchema l document = (case document of None \<Rightarrow> None | Some m \<Rightarrow> schema_compile l m)"

section \<open>Loading a TwinSpec\<close>

record runtime =
  rt_spec :: twin_spec
  rt_digest :: string
  rt_surface :: string
  rt_programs :: "string list"
  rt_tools :: "tool gomap"

datatype engine_error =
    TwinRequired
  | InvalidTwin "string list"
  | SurfaceMismatch string string
  | SurfaceStatus string
  | SchemaError string string
  | ExpressionError string

definition compile :: "libs \<Rightarrow> string \<Rightarrow> string list \<Rightarrow> engine_error + string list" where
  "compile l expression programs =
     (if length expression > MaxExpressionBytes then Inl (ExpressionError ''expression exceeds the byte limit'')
      else if expression \<in> set programs then Inr programs
      else (case cel_compile l expression of
              Some e \<Rightarrow> Inl (ExpressionError e)
            | None \<Rightarrow> Inr (programs @ [expression])))"

fun compileAll :: "libs \<Rightarrow> string list \<Rightarrow> string list \<Rightarrow> engine_error + string list" where
  "compileAll l [] programs = Inr programs"
| "compileAll l (e # es) programs = bindE (compile l e programs) (\<lambda>ps. compileAll l es ps)"

text \<open>The expressions of a tool in the order in which they are compiled.\<close>

definition nonempty :: "string list \<Rightarrow> string list" where
  "nonempty es = filter (\<lambda>e. e \<noteq> []) es"

definition tool_expressions :: "tool \<Rightarrow> string list" where
  "tool_expressions t =
     map co_expr (to_preconditions t) @
     concat (map (\<lambda>e. nonempty [ef_key e, ef_value e]) (to_effects t)) @
     (case to_query t of None \<Rightarrow> [] | Some q \<Rightarrow> nonempty [qu_key q, qu_where q]) @
     map co_expr (to_postconditions t) @
     nonempty [to_result t]"

fun compileTools :: "libs \<Rightarrow> tool list \<Rightarrow> string list \<Rightarrow> engine_error + string list" where
  "compileTools l [] programs = Inr programs"
| "compileTools l (t # ts) programs =
     (case compileJSONSchema l (to_inputSchema t) of
        Some e \<Rightarrow> Inl (SchemaError (to_name t) e)
      | None \<Rightarrow>
          (case compileJSONSchema l (to_outputSchema t) of
             Some e \<Rightarrow> Inl (SchemaError (to_name t) e)
           | None \<Rightarrow> bindE (compileAll l (tool_expressions t) programs) (\<lambda>ps. compileTools l ts ps)))"

definition checkSurface :: "twin_spec \<Rightarrow> engine_error + unit" where
  "checkSurface twin =
     (let status = up_status (tw_upstream twin); declared = up_surfaceDigest (tw_upstream twin) in
      if status = ''current'' then
        (if declared \<noteq> SurfaceDigest twin then Inl (SurfaceMismatch declared (SurfaceDigest twin)) else Inr ())
      else if status = ''drifted'' \<or> status = ''unknown'' then Inl (SurfaceStatus status)
      else Inr ())"

definition engine_New :: "libs \<Rightarrow> twin_spec option \<Rightarrow> engine_error + runtime" where
  "engine_New l twin_opt =
     (case twin_opt of
        None \<Rightarrow> Inl TwinRequired
      | Some twin \<Rightarrow>
          if Validate twin \<noteq> [] then Inl (InvalidTwin (Validate twin))
          else
          bindE (checkSurface twin) (\<lambda>_.
          bindE (compileTools l (tools_of twin) []) (\<lambda>ps.
          bindE (compileAll l (map iv_assert (tw_invariants twin)) ps) (\<lambda>programs.
          Inr \<lparr>rt_spec = twin, rt_digest = spec_Digest twin, rt_surface = SurfaceDigest twin, rt_programs = programs,
               rt_tools = to_gomap (map (\<lambda>t. (to_name t, t)) (tools_of twin))\<rparr>))))"

definition ToolNames :: "runtime \<Rightarrow> string list" where
  "ToolNames r = map fst (rt_tools r)"

definition ensureEntities :: "string list \<Rightarrow> world_state \<Rightarrow> world_state" where
  "ensureEntities names s =
     fold (\<lambda>n s. if has (Entities s) n then s else s\<lparr>Entities := put n [] (Entities s)\<rparr>) names s"

definition Initialize :: "runtime \<Rightarrow> string \<Rightarrow> world_state \<Rightarrow> db \<Rightarrow> (error + unit) \<times> db" where
  "Initialize r branchID initial d =
     (case parse_nano (tw_clockInitial (rt_spec r)) of
        None \<Rightarrow> (Inl ErrClock, d)
      | Some (clock, _) \<Rightarrow>
          InitializeBranch branchID (rt_digest r) (ensureEntities (map fst (tw_entities (rt_spec r))) initial) clock d)"

section \<open>Evaluating expressions\<close>

fun collect :: "(string + 'a) list \<Rightarrow> string + 'a list" where
  "collect [] = Inr []"
| "collect (r # rs) = bindE r (\<lambda>x. bindE (collect rs) (\<lambda>xs. Inr (x # xs)))"

function normalizeNative :: "native \<Rightarrow> string + json" where
  "normalizeNative NNull = Inr JNull"
| "normalizeNative (NBadNull n) = Inl (''invalid protobuf null value '' @ dec_int n)"
| "normalizeNative (NBool b) = Inr (JBool b)"
| "normalizeNative (NInt n) = Inr (JNum n)"
| "normalizeNative (NStr s) = Inr (JStr s)"
| "normalizeNative (NList xs) = bindE (collect (map normalizeNative xs)) (\<lambda>ys. Inr (JArr ys))"
| "normalizeNative (NAnyMap kvs) =
     bindE (collect (map (\<lambda>(k, v). case k of
         NStr s \<Rightarrow> bindE (normalizeNative v) (\<lambda>w. Inr (s, w))
       | _ \<Rightarrow> Inl ''object key must be string'') kvs))
       (\<lambda>es. Inr (JObj (to_gomap es)))"
| "normalizeNative (NStrMap kvs) =
     bindE (collect (map (\<lambda>(k, v). bindE (normalizeNative v) (\<lambda>w. Inr (k, w))) kvs)) (\<lambda>es. Inr (JObj (to_gomap es)))"
  by pat_completeness auto
termination
proof (relation "measure size")
  show "(v, NAnyMap kvs) \<in> measure size" if "(k, v) = kv" "kv \<in> set kvs" for k v kv kvs
    using that by (induction kvs) auto
next
  show "(v, NStrMap kvs) \<in> measure size" if "(k, v) = kv" "kv \<in> set kvs" for k v kv kvs
    using that by (induction kvs) auto
next
  show "(x, NList xs) \<in> measure size" if "x \<in> set xs" for x xs
    using that by (induction xs) auto
qed auto

definition eval :: "libs \<Rightarrow> runtime \<Rightarrow> string \<Rightarrow> activation \<Rightarrow> string + json" where
  "eval l r expression act =
     (if expression \<notin> set (rt_programs r) then Inl ''expression was not compiled''
      else bindE (cel_eval l expression act) normalizeNative)"

definition evalBool :: "libs \<Rightarrow> runtime \<Rightarrow> string \<Rightarrow> activation \<Rightarrow> string + bool" where
  "evalBool l r expression act = bindE (eval l r expression act) (\<lambda>v.
     case v of JBool b \<Rightarrow> Inr b | _ \<Rightarrow> Inl ''expression must return boolean'')"

definition evalMap :: "libs \<Rightarrow> runtime \<Rightarrow> string \<Rightarrow> activation \<Rightarrow> string + json gomap" where
  "evalMap l r expression act = bindE (eval l r expression act) (\<lambda>v.
     case v of JObj m \<Rightarrow> Inr m | _ \<Rightarrow> Inl ''expression must return object'')"

section \<open>Entropy\<close>

definition hex_val :: "char \<Rightarrow> int option" where
  "hex_val c = (let n = of_char c :: int in
     if 48 \<le> n \<and> n \<le> 57 then Some (n - 48)
     else if 97 \<le> n \<and> n \<le> 102 then Some (n - 87)
     else if 65 \<le> n \<and> n \<le> 70 then Some (n - 55)
     else None)"

fun hex_DecodeString :: "string \<Rightarrow> int list option" where
  "hex_DecodeString [] = Some []"
| "hex_DecodeString [c] = None"
| "hex_DecodeString (c # d # s) =
     (case (hex_val c, hex_val d, hex_DecodeString s) of
        (Some x, Some y, Some bs) \<Rightarrow> Some ((16 * x + y) # bs)
      | _ \<Rightarrow> None)"

definition TrimPrefix :: "string \<Rightarrow> string \<Rightarrow> string" where
  "TrimPrefix s p = (if take (length p) s = p then drop (length p) s else s)"

definition maxUint64 :: int where "maxUint64 = 2 ^ 64 - 1"

definition entropy_message :: "int list \<Rightarrow> string \<Rightarrow> int \<Rightarrow> int list" where
  "entropy_message seed stream counter =
     map byte_of ''statetwin.dev/entropy/sha256-ctr-v1'' @ [0] @ seed @ [0] @ map byte_of stream @ [0] @ be_bytes 8 counter"

text \<open>An error leaves the state as it was; a size the array slice cannot take is a panic.\<close>

datatype draw = DrawError string | DrawPanic | Drawn string world_state

definition drawEntropy :: "runtime \<Rightarrow> world_state \<Rightarrow> string \<Rightarrow> int \<Rightarrow> draw" where
  "drawEntropy r s stream size' =
     (case tw_entropy (rt_spec r) of
        None \<Rightarrow> DrawError ''unsupported entropy profile''
      | Some en \<Rightarrow>
          if en_algorithm en \<noteq> ''sha256-ctr-v1'' then DrawError ''unsupported entropy profile''
          else (case hex_DecodeString (TrimPrefix (en_seed en) ''sha256:'') of
             None \<Rightarrow> DrawError ''invalid entropy seed''
           | Some seed \<Rightarrow>
               if length seed \<noteq> 32 then DrawError ''invalid entropy seed''
               else if \<not> has (Entropy s) stream \<and> length (Entropy s) \<ge> MaxEntropyStreams then DrawError (''stream limit '' @ dec_int (int MaxEntropyStreams) @ '' exceeded'')
               else
                 let counter = (case map_of (Entropy s) stream of None \<Rightarrow> 0 | Some c \<Rightarrow> c) in
                 if counter = maxUint64 then DrawError ''stream counter exhausted''
                 else if size' < 0 \<or> size' > 32 then DrawPanic
                 else Drawn (hex (take (nat size') (sha256 (entropy_message seed stream counter))))
                        (s\<lparr>Entropy := put stream (counter + 1) (Entropy s)\<rparr>)))"

section \<open>Executing a tool\<close>

text \<open>
  A step of \<open>apply\<close> goes on, returns an outcome with the state as it is by then, or panics.
\<close>

datatype 'a flow = Next 'a | Ret world_state call_outcome | Panic string

fun bindF :: "'a flow \<Rightarrow> ('a \<Rightarrow> 'b flow) \<Rightarrow> 'b flow" where
  "bindF (Next x) f = f x"
| "bindF (Ret s out) f = Ret s out"
| "bindF (Panic m) f = Panic m"

definition failure :: "string \<Rightarrow> string \<Rightarrow> call_outcome" where
  "failure code message = \<lparr>oc_result = error_json code message, oc_errorClass = code, oc_commit = False\<rparr>"

definition INTERNAL :: string where "INTERNAL = ''INTERNAL_TWIN_ERROR''"

record call_env =
  ce_libs :: libs
  ce_runtime :: runtime
  ce_input :: json
  ce_clock :: instant
  ce_index :: int

definition activate :: "call_env \<Rightarrow> world_state \<Rightarrow> json gomap \<Rightarrow> json \<Rightarrow> activation" where
  "activate c s vars item =
     \<lparr>av_input = ce_input c, av_state = CELValue s, av_vars = vars, av_item = item,
      av_clock = format_nano (ce_clock c), av_call_index = ce_index c\<rparr>"

definition evalF :: "call_env \<Rightarrow> string \<Rightarrow> world_state \<Rightarrow> activation \<Rightarrow> string \<Rightarrow> json flow" where
  "evalF c expression s act context =
     (case eval (ce_libs c) (ce_runtime c) expression act of
        Inl e \<Rightarrow> Ret s (failure INTERNAL (context @ e)) | Inr v \<Rightarrow> Next v)"

definition evalMapF :: "call_env \<Rightarrow> string \<Rightarrow> world_state \<Rightarrow> activation \<Rightarrow> string \<Rightarrow> json gomap flow" where
  "evalMapF c expression s act context =
     (case evalMap (ce_libs c) (ce_runtime c) expression act of
        Inl e \<Rightarrow> Ret s (failure INTERNAL (context @ e)) | Inr v \<Rightarrow> Next v)"

definition evalBoolF :: "call_env \<Rightarrow> string \<Rightarrow> world_state \<Rightarrow> activation \<Rightarrow> string \<Rightarrow> bool flow" where
  "evalBoolF c expression s act context =
     (case evalBool (ce_libs c) (ce_runtime c) expression act of
        Inl e \<Rightarrow> Ret s (failure INTERNAL (context @ e)) | Inr v \<Rightarrow> Next v)"

definition default_to :: "string \<Rightarrow> string \<Rightarrow> string" where
  "default_to d s = (if s = [] then d else s)"

fun preconditions :: "call_env \<Rightarrow> world_state \<Rightarrow> condition list \<Rightarrow> unit flow" where
  "preconditions c s [] = Next ()"
| "preconditions c s (p # ps) =
     bindF (evalBoolF c (co_expr p) s (activate c s [] JNull) ''precondition evaluation failed: '') (\<lambda>ok.
     if ok then preconditions c s ps
     else Ret s (failure (default_to ''PRECONDITION_FAILED'' (co_code p)) (default_to ''declared precondition failed'' (co_message p))))"

text \<open>\<open>Sequences[k]++\<close> on \<open>int64\<close>.\<close>

definition wrap64 :: "int \<Rightarrow> int" where
  "wrap64 n = (n + 2 ^ 63) mod 2 ^ 64 - 2 ^ 63"

definition entities_at :: "string \<Rightarrow> world_state \<Rightarrow> entity_record gomap" where
  "entities_at entity s = (case map_of (Entities s) entity of None \<Rightarrow> [] | Some m \<Rightarrow> m)"

definition set_entities :: "string \<Rightarrow> entity_record gomap \<Rightarrow> world_state \<Rightarrow> world_state" where
  "set_entities entity m s = s\<lparr>Entities := put entity m (Entities s)\<rparr>"

text \<open>The three effects on entities, once the key is known; \<open>s\<close> has the entity's map.\<close>

definition insertEffect :: "call_env \<Rightarrow> effect \<Rightarrow> string \<Rightarrow> world_state \<Rightarrow> json gomap \<Rightarrow> (world_state \<times> json gomap) flow" where
  "insertEffect c e key s vars =
     (let entities = entities_at (ef_entity e) s in
      if has entities key then Ret s (failure ''CONFLICT'' (ef_entity e @ '' already exists''))
      else bindF (evalMapF c (ef_value e) s (activate c s vars JNull) ''insert value evaluation failed: '') (\<lambda>value.
        Next (set_entities (ef_entity e) (put key (Some value) entities) s, put (ef_entity e @ ''_key'') (JStr key) vars)))"

definition updateEffect :: "call_env \<Rightarrow> effect \<Rightarrow> string \<Rightarrow> world_state \<Rightarrow> json gomap \<Rightarrow> (world_state \<times> json gomap) flow" where
  "updateEffect c e key s vars =
     (let entities = entities_at (ef_entity e) s in
      case map_of entities key of
        None \<Rightarrow> Ret s (failure ''NOT_FOUND'' (ef_entity e @ '' does not exist''))
      | Some existing \<Rightarrow>
          bindF (evalMapF c (ef_value e) s (activate c s vars (record_json existing)) ''update value evaluation failed: '') (\<lambda>value.
            let done = (\<lambda>rec. Next (set_entities (ef_entity e) (put key rec entities) s, put (ef_entity e @ ''_key'') (JStr key) vars)) in
            if ef_merge e then
              (case existing of
                 Some m \<Rightarrow> done (Some (fold (\<lambda>(k, v) m. put k v m) value m))
               | None \<Rightarrow> if value = [] then done None else Panic ''assignment to entry in nil map'')
            else done (Some value)))"

definition deleteEffect :: "effect \<Rightarrow> string \<Rightarrow> world_state \<Rightarrow> json gomap \<Rightarrow> (world_state \<times> json gomap) flow" where
  "deleteEffect e key s vars =
     (let entities = entities_at (ef_entity e) s in
      if \<not> has entities key then Ret s (failure ''NOT_FOUND'' (ef_entity e @ '' does not exist''))
      else Next (set_entities (ef_entity e) (del key entities) s, vars))"

definition applyEffect :: "call_env \<Rightarrow> effect \<Rightarrow> world_state \<Rightarrow> json gomap \<Rightarrow> (world_state \<times> json gomap) flow" where
  "applyEffect c e s vars =
     (if ef_op e = ''allocate'' then
        let n = wrap64 ((case map_of (Sequences s) (ef_sequence e) of None \<Rightarrow> 0 | Some m \<Rightarrow> m) + 1)
        in Next (s\<lparr>Sequences := put (ef_sequence e) n (Sequences s)\<rparr>, put (ef_as e) (JNum n) vars)
      else if ef_op e = ''entropy'' then
        (case drawEntropy (ce_runtime c) s (ef_stream e) (ef_bytes e) of
           DrawError m \<Rightarrow> Ret s (failure INTERNAL (''entropy draw failed: '' @ m))
         | DrawPanic \<Rightarrow> Panic ''slice bounds out of range''
         | Drawn v s' \<Rightarrow> Next (s', put (ef_as e) (JStr v) vars))
      else if ef_op e \<in> {''insert'', ''update'', ''delete''} then
        bindF (evalF c (ef_key e) s (activate c s vars JNull) ''effect key evaluation failed: '') (\<lambda>keyValue.
          case keyValue of
            JStr key \<Rightarrow>
              if key = [] then Ret s (failure INTERNAL ''effect key must evaluate to a non-empty string'')
              else
                let s' = set_entities (ef_entity e) (entities_at (ef_entity e) s) s in
                if ef_op e = ''insert'' then insertEffect c e key s' vars
                else if ef_op e = ''update'' then updateEffect c e key s' vars
                else deleteEffect e key s' vars
          | _ \<Rightarrow> Ret s (failure INTERNAL ''effect key must evaluate to a non-empty string''))
      else Next (s, vars))"

fun effects :: "call_env \<Rightarrow> effect list \<Rightarrow> world_state \<times> json gomap \<Rightarrow> (world_state \<times> json gomap) flow" where
  "effects c [] sv = Next sv"
| "effects c (e # es) sv = bindF (applyEffect c e (fst sv) (snd sv)) (effects c es)"

fun queryMany :: "call_env \<Rightarrow> string \<Rightarrow> world_state \<Rightarrow> json gomap \<Rightarrow> json list \<Rightarrow> entity_record gomap \<Rightarrow> json list flow" where
  "queryMany c cond s vars items [] = Next items"
| "queryMany c cond s vars items ((key, item) # rest) =
     bindF (if cond = [] then Next True
            else evalBoolF c cond s (activate c s vars (record_json item)) ''query predicate failed: '') (\<lambda>ok.
       if \<not> ok then queryMany c cond s vars items rest
       else if length items + 1 > MaxQueryResultItems then Ret s (failure ''RESOURCE_LIMIT'' (''query results exceed limit '' @ dec_int (int MaxQueryResultItems)))
       else queryMany c cond s vars (items @ [record_json item]) rest)"

definition runQuery :: "call_env \<Rightarrow> query option \<Rightarrow> world_state \<Rightarrow> json gomap \<Rightarrow> json gomap flow" where
  "runQuery c q s vars =
     (case q of
        None \<Rightarrow> Next vars
      | Some q \<Rightarrow>
          let entities = entities_at (qu_entity q) s in
          if qu_many q then
            bindF (queryMany c (qu_where q) s vars [] entities) (\<lambda>items. Next (put (qu_as q) (JArr items) vars))
          else
            bindF (evalF c (qu_key q) s (activate c s vars JNull) ''query key failed: '') (\<lambda>keyValue.
              case keyValue of
                JStr key \<Rightarrow>
                  (case map_of entities key of
                     None \<Rightarrow> Ret s (failure ''NOT_FOUND'' (qu_entity q @ '' does not exist''))
                   | Some item \<Rightarrow> Next (put (qu_as q) (record_json item) vars))
              | _ \<Rightarrow> Ret s (failure INTERNAL ''query key must evaluate to string'')))"

text \<open>A condition that fails or cannot be evaluated is an invariant violation with this message.\<close>

definition require :: "call_env \<Rightarrow> string \<Rightarrow> string \<Rightarrow> world_state \<Rightarrow> json gomap \<Rightarrow> unit flow" where
  "require c expression message s vars =
     (case evalBool (ce_libs c) (ce_runtime c) expression (activate c s vars JNull) of
        Inl e \<Rightarrow> Ret s (failure ''INVARIANT_VIOLATION'' (message @ '': '' @ e))
      | Inr ok \<Rightarrow> if ok then Next () else Ret s (failure ''INVARIANT_VIOLATION'' message))"

fun postconditions :: "call_env \<Rightarrow> world_state \<Rightarrow> json gomap \<Rightarrow> condition list \<Rightarrow> unit flow" where
  "postconditions c s vars [] = Next ()"
| "postconditions c s vars (p # ps) =
     bindF (require c (co_expr p) (default_to ''declared postcondition failed'' (co_message p)) s vars) (\<lambda>_.
     postconditions c s vars ps)"

fun invariants :: "call_env \<Rightarrow> world_state \<Rightarrow> json gomap \<Rightarrow> invariant_spec list \<Rightarrow> unit flow" where
  "invariants c s vars [] = Next ()"
| "invariants c s vars (i # is) =
     bindF (require c (iv_assert i) (''global invariant failed: '' @ iv_id i) s vars) (\<lambda>_. invariants c s vars is)"

text \<open>
  The text of a budget error. The record count in the first message depends on the order in which
  Go visits the entity map, so the model leaves it out; an invalid event is named by its identifier.
\<close>

definition limit_error_text :: "limit_error \<Rightarrow> string" where
  "limit_error_text e = (case e of
     BytesExceeded \<Rightarrow> ''bytes exceed limit ''
   | DepthExceeded \<Rightarrow> ''JSON depth exceeds limit '' @ dec_int (int MaxJSONDepth)
   | MembersExceeded \<Rightarrow> ''JSON members exceed limit '' @ dec_int (int MaxJSONMembers))"

definition world_error_text :: "world_state \<Rightarrow> world_error \<Rightarrow> string" where
  "world_error_text s e = (case e of
     EntityRecordsExceeded \<Rightarrow> ''entity records exceed limit '' @ dec_int (int MaxEntitiesPerBranch)
   | EntropyStreamsExceeded \<Rightarrow>
       ''entropy streams '' @ dec_int (int (length (Entropy s))) @ '' exceed limit '' @ dec_int (int MaxEntropyStreams)
   | ScheduledEventsExceeded \<Rightarrow>
       ''scheduled events '' @ dec_int (int (length (events_of s))) @ '' exceed limit '' @ dec_int (int MaxScheduledEvents)
   | InvalidEntropyStream k \<Rightarrow> ''entropy stream '' @ quote k @ '' is invalid''
   | NegativeCreationSequence \<Rightarrow> ''scheduler creation sequence must not be negative''
   | InvalidEventKey k i \<Rightarrow> ''scheduled event key/id '' @ quote k @ ''/'' @ quote i @ '' is invalid''
   | InvalidEventSequence i \<Rightarrow> ''scheduled event '' @ i @ '' has invalid creation sequence''
   | SharedEventSequence i j \<Rightarrow> ''scheduled events '' @ i @ '' and '' @ j @ '' share creation sequence''
   | InvalidEventPriority i \<Rightarrow> ''scheduled event '' @ i @ '' has invalid priority''
   | NonCanonicalDueAt i \<Rightarrow> ''scheduled event '' @ i @ '' has non-canonical dueAt''
   | InvalidEventKind i \<Rightarrow> ''scheduled event '' @ i @ '' has invalid kind''
   | InvalidLifecycle i \<Rightarrow> ''scheduled event '' @ i @ '' has invalid lifecycle''
   | StateJSON l \<Rightarrow> ''world state: '' @ limit_error_text l)"

definition finish :: "call_env \<Rightarrow> tool \<Rightarrow> world_state \<Rightarrow> json gomap \<Rightarrow> (world_state \<times> call_outcome) flow" where
  "finish c t s vars =
     bindF (if to_result t = [] then Next (JObj [(''ok'', JBool True)])
            else evalF c (to_result t) s (activate c s vars JNull) ''result evaluation failed: '') (\<lambda>result.
       if length (canonical_JSON result) > MaxOutputBytes then Ret s (failure ''RESOURCE_LIMIT'' (''declared result exceeds '' @ dec_int (int MaxOutputBytes) @ '' bytes''))
       else (case engine_validateJSON (ce_libs c) result (to_outputSchema t) of
               Some e \<Rightarrow> Ret s (failure INTERNAL (''declared outputSchema rejected tool result: '' @ e))
             | None \<Rightarrow> Next (s, \<lparr>oc_result = result, oc_errorClass = [], oc_commit = True\<rparr>)))"

definition run_apply :: "call_env \<Rightarrow> tool \<Rightarrow> world_state \<Rightarrow> (world_state \<times> call_outcome) flow" where
  "run_apply c t s =
     (if to_modeled t = Some False then Ret s (failure ''UNMODELED_BEHAVIOR'' ''tool behavior is not modeled'')
      else (case engine_validateJSON (ce_libs c) (ce_input c) (to_inputSchema t) of
        Some e \<Rightarrow> Ret s (failure ''INVALID_INPUT'' e)
      | None \<Rightarrow>
          bindF (preconditions c s (to_preconditions t)) (\<lambda>_.
          bindF (effects c (to_effects t) (s, [])) (\<lambda>(s1, vars1).
          bindF (runQuery c (to_query t) s1 vars1) (\<lambda>vars.
          case ValidateBudget s1 of
            Inl e \<Rightarrow> Ret s1 (failure ''RESOURCE_LIMIT'' (world_error_text s1 e))
          | Inr _ \<Rightarrow>
              bindF (postconditions c s1 vars (to_postconditions t)) (\<lambda>_.
              bindF (invariants c s1 vars (tw_invariants (rt_spec (ce_runtime c)))) (\<lambda>_.
              finish c t s1 vars)))))))"

definition engine_apply :: "call_env \<Rightarrow> tool \<Rightarrow> world_state \<Rightarrow> error + world_state \<times> call_outcome" where
  "engine_apply c t s =
     (case run_apply c t s of Next r \<Rightarrow> Inr r | Ret s' out \<Rightarrow> Inr (s', out) | Panic m \<Rightarrow> Inl (ErrPanic m))"

definition mk_env :: "libs \<Rightarrow> runtime \<Rightarrow> json \<Rightarrow> instant \<Rightarrow> int \<Rightarrow> call_env" where
  "mk_env l r input clock idx = \<lparr>ce_libs = l, ce_runtime = r, ce_input = input, ce_clock = clock, ce_index = idx\<rparr>"

section \<open>The runtime's operations\<close>

definition engine_callback :: "libs \<Rightarrow> runtime \<Rightarrow> tool \<Rightarrow> json \<Rightarrow> call_apply" where
  "engine_callback l r t input s clock idx = engine_apply (mk_env l r input clock idx) t s"

definition engine_Call :: "libs \<Rightarrow> runtime \<Rightarrow> string \<Rightarrow> string \<Rightarrow> json gomap option \<Rightarrow> db \<Rightarrow> (error + apply_result) \<times> db" where
  "engine_Call l r branchID toolName input d =
     (case map_of (rt_tools r) toolName of
        None \<Rightarrow> (Inl (ErrOther (''unknown tool '' @ toolName)), d)
      | Some t \<Rightarrow>
          (case ValidateJSON (record_json input) MaxInputBytes of
             Inl _ \<Rightarrow> (Inl ErrResourceLimit, d)
           | Inr _ \<Rightarrow> ApplyCall branchID (rt_digest r) toolName (record_json input) (engine_callback l r t (record_json input)) d))"

definition ValidateScheduledAction :: "libs \<Rightarrow> runtime \<Rightarrow> string \<Rightarrow> json gomap option \<Rightarrow> string + unit" where
  "ValidateScheduledAction l r toolName input =
     (case map_of (rt_tools r) toolName of
        None \<Rightarrow> Inl ''unknown tool''
      | Some t \<Rightarrow>
          if to_modeled t = Some False then Inl ''tool is not modeled''
          else if input = None then Inl ''scheduled action input must be a JSON object''
          else if ValidateJSON (record_json input) MaxInputBytes \<noteq> Inr () then Inl ''RESOURCE_LIMIT: scheduled action input''
          else (case engine_validateJSON l (record_json input) (to_inputSchema t) of
                  Some e \<Rightarrow> Inl (''scheduled action input: '' @ e) | None \<Rightarrow> Inr ()))"

definition scheduled_callback :: "libs \<Rightarrow> runtime \<Rightarrow> action_apply" where
  "scheduled_callback l r s clock idx toolName input =
     (case map_of (rt_tools r) toolName of
        None \<Rightarrow> Inl (ErrOther ''scheduled action references unknown tool'')
      | Some t \<Rightarrow> engine_apply (mk_env l r (record_json input) clock idx) t s)"

definition engine_AdvanceClockToNext :: "libs \<Rightarrow> runtime \<Rightarrow> string \<Rightarrow> int option \<Rightarrow> db \<Rightarrow> (error + scheduler_step_result) \<times> db" where
  "engine_AdvanceClockToNext l r branchID expectedHead =
     AdvanceClockToNextWithActions branchID expectedHead (rt_digest r) (Some (scheduled_callback l r))"

definition IsDomainError :: "apply_result option \<Rightarrow> bool" where
  "IsDomainError res = (case res of None \<Rightarrow> False | Some r \<Rightarrow> \<not> blank (ar_errorClass r))"

end
