(* ===== verification/Engine_Facts.thy ===== *)
theory Engine_Facts
  imports Engine
begin

text \<open>A weakest-precondition calculus for the steps of \<open>apply\<close>.\<close>

fun holds :: "('a \<Rightarrow> bool) \<Rightarrow> (world_state \<Rightarrow> call_outcome \<Rightarrow> bool) \<Rightarrow> bool \<Rightarrow> 'a flow \<Rightarrow> bool" where
  "holds P R pn (Next x) = P x"
| "holds P R pn (Ret s out) = R s out"
| "holds P R pn (Panic m) = pn"

lemma holds_bind:
  assumes "holds Q R pn f" "\<And>x. Q x \<Longrightarrow> holds P R pn (g x)"
  shows "holds P R pn (bindF f g)"
  using assms by (cases f) auto

lemma holds_mono:
  assumes "holds Q R pn f" "\<And>x. Q x \<Longrightarrow> P x"
  shows "holds P R pn f"
  using assms by (cases f) auto

text \<open>A post-state relation: evaluations of expressions keep it, since they return the state they got.\<close>

definition fails :: "(world_state \<Rightarrow> bool) \<Rightarrow> world_state \<Rightarrow> call_outcome \<Rightarrow> bool" where
  "fails S s out \<longleftrightarrow> S s \<and> \<not> oc_commit out \<and> oc_errorClass out \<noteq> []"

lemma fails_failure [simp]: "fails S s (failure c m) \<longleftrightarrow> S s \<and> c \<noteq> []"
  by (simp add: fails_def failure_def)

lemma INTERNAL_nonempty [simp]: "INTERNAL \<noteq> []"
  by (simp add: INTERNAL_def)

lemma default_to_nonempty [simp]: "d \<noteq> [] \<Longrightarrow> default_to d s \<noteq> []"
  by (simp add: default_to_def)

lemma holds_evalF [intro]: "S s \<Longrightarrow> holds (\<lambda>_. True) (fails S) pn (evalF c ex s act m)"
  by (auto simp: evalF_def split: sum.splits)

lemma holds_evalMapF: "S s \<Longrightarrow> holds (\<lambda>_. True) (fails S) pn (evalMapF c ex s act m)"
  by (auto simp: evalMapF_def split: sum.splits)

lemma holds_evalBoolF: "S s \<Longrightarrow> holds (\<lambda>_. True) (fails S) pn (evalBoolF c ex s act m)"
  by (auto simp: evalBoolF_def split: sum.splits)

lemma holds_require: "S s \<Longrightarrow> holds (\<lambda>_. True) (fails S) pn (require c ex m s vars)"
  by (auto simp: require_def split: sum.splits)

lemma holds_preconditions: "S s \<Longrightarrow> holds (\<lambda>_. True) (fails S) pn (preconditions c s ps)"
  by (induction ps) (auto intro!: holds_bind [OF holds_evalBoolF])

lemma holds_postconditions: "S s \<Longrightarrow> holds (\<lambda>_. True) (fails S) pn (postconditions c s vars ps)"
  by (induction ps) (auto intro!: holds_bind [OF holds_require])

lemma holds_invariants: "S s \<Longrightarrow> holds (\<lambda>_. True) (fails S) pn (invariants c s vars is)"
  by (induction "is") (auto intro!: holds_bind [OF holds_require])

lemma holds_queryMany: "S s \<Longrightarrow> holds (\<lambda>_. True) (fails S) pn (queryMany c cond s vars items es)"
proof (induction es arbitrary: items)
  case (Cons e es)
  have "holds (\<lambda>_. True) (fails S) pn
    (if cond = [] then Next True else evalBoolF c cond s (activate c s vars (record_json (snd e))) ''query predicate failed: '')"
    using Cons.prems holds_evalBoolF by simp
  then show ?case
    using Cons by (cases e) (auto intro!: holds_bind [where Q = "\<lambda>_. True"])
qed simp

lemma holds_runQuery: "S s \<Longrightarrow> holds (\<lambda>_. True) (fails S) pn (runQuery c q s vars)"
  unfolding runQuery_def
  by (auto simp: Let_def split: option.splits json.splits
      intro!: holds_bind [OF holds_queryMany] holds_bind [OF holds_evalF])

lemma holds_finish: "S s \<Longrightarrow> holds (\<lambda>(s', out). s' = s \<and> oc_commit out \<and> oc_errorClass out = []) (fails S) pn (finish c t s vars)"
  unfolding finish_def
  by (rule holds_bind [where Q = "\<lambda>_. True"]) (auto split: option.splits)

text \<open>
  A property \<open>S\<close> of states that the effects keep is kept by a whole execution; an execution that
  fails reports an error class and does not ask for a commit.
\<close>

lemma holds_effects:
  assumes "\<And>e s vars. e \<in> set es \<Longrightarrow> S s \<Longrightarrow> holds (\<lambda>sv. S (fst sv)) (fails S) pn (applyEffect c e s vars)"
  shows "S (fst sv) \<Longrightarrow> holds (\<lambda>sv. S (fst sv)) (fails S) pn (effects c es sv)"
  using assms by (induction es arbitrary: sv) (auto intro!: holds_bind [where Q = "\<lambda>sv. S (fst sv)"])

lemma holds_run_apply:
  assumes "\<And>e s vars. e \<in> set (to_effects t) \<Longrightarrow> S s \<Longrightarrow> holds (\<lambda>sv. S (fst sv)) (fails S) pn (applyEffect c e s vars)"
    and "S s"
  shows "holds (\<lambda>(s', out). S s' \<and> oc_commit out \<and> oc_errorClass out = []) (fails S) pn (run_apply c t s)"
proof -
  have ef: "holds (\<lambda>sv. S (fst sv)) (fails S) pn (effects c (to_effects t) (s, []))"
    using holds_effects [OF assms(1)] assms(2) by simp
  have "holds (\<lambda>(s', out). S s' \<and> oc_commit out \<and> oc_errorClass out = []) (fails S) pn
     (bindF (postconditions c s1 vars ps) (\<lambda>_. bindF (invariants c s1 vars is) (\<lambda>_. finish c t s1 vars)))"
    if "S s1" for s1 vars ps "is"
    using that by (intro holds_bind [OF holds_postconditions] holds_bind [OF holds_invariants])
      (auto intro: holds_mono [OF holds_finish])
  then show ?thesis
    unfolding run_apply_def using assms(2)
    by (auto split: option.splits sum.splits intro!: holds_bind [OF holds_preconditions] holds_bind [OF ef] holds_bind [OF holds_runQuery])
qed


section \<open>What the effects keep\<close>

lemma wf_entities_at: "wf_state s \<Longrightarrow> wf_map (entities_at e s)"
  by (auto simp: entities_at_def wf_state_def split: option.splits dest!: map_of_SomeD)

lemma wf_set_entities: "wf_state s \<Longrightarrow> wf_map m \<Longrightarrow> wf_state (set_entities e m s)"
  by (auto simp: wf_state_def set_entities_def events_of_def wf_map_put dest!: set_put)

lemma set_entities_simps [simp]:
  "Scheduler (set_entities e m s) = Scheduler s" "Sequences (set_entities e m s) = Sequences s"
  "Entropy (set_entities e m s) = Entropy s" "entities_at e (set_entities e m s) = m"
  by (simp_all add: set_entities_def entities_at_def)

lemma drawEntropy_cases:
  assumes "drawEntropy r s stream n = Drawn v s'"
  shows "\<exists>en seed. tw_entropy (rt_spec r) = Some en \<and> en_algorithm en = ''sha256-ctr-v1'' \<and>
    hex_DecodeString (TrimPrefix (en_seed en) ''sha256:'') = Some seed \<and> length seed = 32 \<and>
    (has (Entropy s) stream \<or> length (Entropy s) < MaxEntropyStreams) \<and> 0 \<le> n \<and> n \<le> 32 \<and>
    (let counter = (case map_of (Entropy s) stream of None \<Rightarrow> 0 | Some c \<Rightarrow> c) in
       counter \<noteq> maxUint64 \<and> v = hex (take (nat n) (sha256 (entropy_message seed stream counter))) \<and>
       s' = s\<lparr>Entropy := put stream (counter + 1) (Entropy s)\<rparr>)"
  using assms unfolding drawEntropy_def Let_def by (auto split: option.splits if_splits)

text \<open>The queue of scheduled events and the well-formedness of the maps.\<close>

definition sane :: "world_state \<Rightarrow> world_state \<Rightarrow> bool" where
  "sane s0 s \<longleftrightarrow> (wf_state s0 \<longrightarrow> wf_state s) \<and> Scheduler s = Scheduler s0"

lemma sane_refl [simp]: "sane s s"
  by (simp add: sane_def)

lemma sane_set_entities: "sane s0 s \<Longrightarrow> wf_state s0 \<longrightarrow> wf_map m \<Longrightarrow> sane s0 (set_entities e m s)"
  by (auto simp: sane_def wf_set_entities)

lemma sane_entities_at: "sane s0 s \<Longrightarrow> wf_state s0 \<Longrightarrow> wf_map (entities_at e s)"
  by (auto simp: sane_def wf_entities_at)

lemma sane_insertEffect:
  "sane s0 s \<Longrightarrow> holds (\<lambda>sv. sane s0 (fst sv)) (fails (sane s0)) True (insertEffect c e key s vars)"
  unfolding insertEffect_def Let_def
  by (auto intro!: holds_bind [OF holds_evalMapF] sane_set_entities wf_map_put sane_entities_at)

lemma sane_updateEffect:
  "sane s0 s \<Longrightarrow> holds (\<lambda>sv. sane s0 (fst sv)) (fails (sane s0)) True (updateEffect c e key s vars)"
  unfolding updateEffect_def Let_def
  by (auto intro!: holds_bind [OF holds_evalMapF] sane_set_entities wf_map_put sane_entities_at split: option.splits)

lemma sane_deleteEffect:
  "sane s0 s \<Longrightarrow> holds (\<lambda>sv. sane s0 (fst sv)) (fails (sane s0)) True (deleteEffect e key s vars)"
  unfolding deleteEffect_def Let_def
  by (auto intro!: sane_set_entities wf_map_del sane_entities_at)

lemma sane_drawn: "drawEntropy r s st n = Drawn v s' \<Longrightarrow> sane s0 s \<Longrightarrow> sane s0 s'"
  by (drule drawEntropy_cases) (auto simp: Let_def sane_def wf_state_def events_of_def wf_map_put)

lemma sane_allocate: "sane s0 s \<Longrightarrow> sane s0 (s\<lparr>Sequences := put k n (Sequences s)\<rparr>)"
  by (simp add: sane_def wf_state_def events_of_def wf_map_put)

text \<open>An effect keeps a property of states when its four state changes do.\<close>

lemma holds_applyEffect:
  assumes "S s"
    and "\<And>n. ef_op e = ''allocate'' \<Longrightarrow> S (s\<lparr>Sequences := put (ef_sequence e) n (Sequences s)\<rparr>)"
    and "\<And>v s'. ef_op e = ''entropy'' \<Longrightarrow> drawEntropy (ce_runtime c) s (ef_stream e) (ef_bytes e) = Drawn v s' \<Longrightarrow> S s'"
    and "ef_op e = ''entropy'' \<Longrightarrow> drawEntropy (ce_runtime c) s (ef_stream e) (ef_bytes e) = DrawPanic \<Longrightarrow> pn"
    and "S (set_entities (ef_entity e) (entities_at (ef_entity e) s) s)"
    and "\<And>key s vars. S s \<Longrightarrow> holds (\<lambda>sv. S (fst sv)) (fails S) pn (insertEffect c e key s vars)"
    and "\<And>key s vars. S s \<Longrightarrow> holds (\<lambda>sv. S (fst sv)) (fails S) pn (updateEffect c e key s vars)"
    and "\<And>key s vars. S s \<Longrightarrow> holds (\<lambda>sv. S (fst sv)) (fails S) pn (deleteEffect e key s vars)"
  shows "holds (\<lambda>sv. S (fst sv)) (fails S) pn (applyEffect c e s vars)"
proof -
  have "holds (\<lambda>sv. S (fst sv)) (fails S) pn
    (bindF (evalF c (ef_key e) s (activate c s vars JNull) ''effect key evaluation failed: '') (\<lambda>keyValue.
          case keyValue of
            JStr key \<Rightarrow>
              if key = [] then Ret s (failure INTERNAL ''effect key must evaluate to a non-empty string'')
              else
                let s' = set_entities (ef_entity e) (entities_at (ef_entity e) s) s in
                if ef_op e = ''insert'' then insertEffect c e key s' vars
                else if ef_op e = ''update'' then updateEffect c e key s' vars
                else deleteEffect e key s' vars
          | _ \<Rightarrow> Ret s (failure INTERNAL ''effect key must evaluate to a non-empty string'')))"
    using assms(1,5-8) by (intro holds_bind [OF holds_evalF]) (simp_all add: Let_def split: json.splits)
  then show ?thesis
    unfolding applyEffect_def Let_def using assms(1-4) by (simp split: draw.splits)
qed

lemma sane_applyEffect:
  "sane s0 s \<Longrightarrow> holds (\<lambda>sv. sane s0 (fst sv)) (fails (sane s0)) True (applyEffect c e s vars)"
  by (rule holds_applyEffect)
     (simp_all add: sane_allocate sane_insertEffect sane_updateEffect sane_deleteEffect sane_set_entities sane_entities_at sane_drawn)

lemma run_apply_sane:
  "holds (\<lambda>(s', out). sane s s' \<and> oc_commit out \<and> oc_errorClass out = []) (fails (sane s)) True (run_apply c t s)"
  by (rule holds_run_apply) (simp_all add: sane_applyEffect)

text \<open>The contracts that the store asks of its callback.\<close>

lemma engine_apply_outcome:
  assumes "engine_apply c t s = Inr (s', out)"
  shows "sane s s' \<and> oc_commit out = (oc_errorClass out = [])"
  using run_apply_sane [of s c t] assms by (auto simp: engine_apply_def fails_def split: flow.splits)

lemma errors_roll_back_engine [simp]: "errors_roll_back (engine_callback l r t input)"
  unfolding errors_roll_back_def engine_callback_def using engine_apply_outcome by blast

lemma keeps_maps_engine [simp]: "keeps_maps (\<lambda>w. engine_callback l r t input w c n)"
  unfolding keeps_maps_def engine_callback_def using engine_apply_outcome by (metis sane_def)

lemma keeps_maps_scheduled [simp]: "keeps_maps (\<lambda>w. scheduled_callback l r w c n tn input)"
  unfolding keeps_maps_def scheduled_callback_def
  using engine_apply_outcome by (auto split: option.splits) (metis sane_def)

section \<open>A validated tool does not panic\<close>

definition no_nil :: "world_state \<Rightarrow> bool" where
  "no_nil s \<longleftrightarrow> (\<forall>k i. map_of (entities_at k s) i \<noteq> Some None)"

lemma no_nil_at: "no_nil s \<Longrightarrow> map_of (entities_at e s) i \<noteq> Some None"
  by (simp add: no_nil_def)

lemma entities_at_set_entities: "entities_at k (set_entities e m s) = (if k = e then m else entities_at k s)"
  by (simp add: entities_at_def set_entities_def)

lemma no_nil_set: "no_nil s \<Longrightarrow> (\<And>i. map_of m i \<noteq> Some None) \<Longrightarrow> no_nil (set_entities e m s)"
  by (simp add: no_nil_def entities_at_set_entities)

lemma no_nil_same: "no_nil s \<Longrightarrow> Entities s' = Entities s \<Longrightarrow> no_nil s'"
  by (simp add: no_nil_def entities_at_def)

lemma no_nil_insertEffect:
  "no_nil s \<Longrightarrow> holds (\<lambda>sv. no_nil (fst sv)) (fails no_nil) False (insertEffect c e key s vars)"
  unfolding insertEffect_def Let_def
  by (auto intro!: holds_bind [OF holds_evalMapF] no_nil_set simp: no_nil_at split: if_splits)

lemma no_nil_deleteEffect:
  "no_nil s \<Longrightarrow> holds (\<lambda>sv. no_nil (fst sv)) (fails no_nil) False (deleteEffect e key s vars)"
  unfolding deleteEffect_def Let_def
  by (auto intro!: no_nil_set simp: no_nil_at map_of_del split: if_splits)

lemma no_nil_updateEffect:
  assumes "no_nil s"
  shows "holds (\<lambda>sv. no_nil (fst sv)) (fails no_nil) False (updateEffect c e key s vars)"
proof (cases "map_of (entities_at (ef_entity e) s) key")
  case None
  with assms show ?thesis by (simp add: updateEffect_def)
next
  case (Some r)
  with no_nil_at [OF assms] obtain m where r: "r = Some m" by (cases r) auto
  have "no_nil (set_entities (ef_entity e) (put key (Some x) (entities_at (ef_entity e) s)) s)" for x
    using assms by (intro no_nil_set) (auto simp: no_nil_at split: if_splits)
  then show ?thesis
    using Some r assms by (auto simp: updateEffect_def Let_def intro!: holds_bind [OF holds_evalMapF])
qed

lemma no_nil_applyEffect:
  assumes "good_effect twin e" "no_nil s"
  shows "holds (\<lambda>sv. no_nil (fst sv)) (fails no_nil) False (applyEffect c e s vars)"
proof (rule holds_applyEffect)
  show "no_nil s'" if "drawEntropy (ce_runtime c) s (ef_stream e) (ef_bytes e) = Drawn v s'" for v s'
    using drawEntropy_cases [OF that] assms(2) by (auto simp: Let_def elim: no_nil_same)
  show False if "ef_op e = ''entropy''" "drawEntropy (ce_runtime c) s (ef_stream e) (ef_bytes e) = DrawPanic"
    using that assms(1) by (auto simp: good_effect_def drawEntropy_def Let_def split: option.splits if_splits)
  show "no_nil (s\<lparr>Sequences := put (ef_sequence e) n (Sequences s)\<rparr>)" for n
    using assms(2) by (rule no_nil_same) simp
  show "no_nil (set_entities (ef_entity e) (entities_at (ef_entity e) s) s)"
    using assms(2) by (rule no_nil_set) (rule no_nil_at [OF assms(2)])
qed (simp_all add: assms no_nil_insertEffect no_nil_updateEffect no_nil_deleteEffect)

lemma engine_apply_total:
  assumes "\<forall>e \<in> set (to_effects t). good_effect twin e" "no_nil s"
  shows "\<exists>s' out. engine_apply c t s = Inr (s', out) \<and> no_nil s'"
proof -
  have "holds (\<lambda>(s', out). no_nil s' \<and> oc_commit out \<and> oc_errorClass out = []) (fails no_nil) False (run_apply c t s)"
    using assms by (intro holds_run_apply no_nil_applyEffect) auto
  then show ?thesis
    by (cases "run_apply c t s") (auto simp: engine_apply_def fails_def)
qed

section \<open>Counters\<close>

definition counter :: "world_state \<Rightarrow> string \<Rightarrow> int" where
  "counter s k = (case map_of (Entropy s) k of None \<Rightarrow> 0 | Some c \<Rightarrow> c)"

definition seq_at :: "world_state \<Rightarrow> string \<Rightarrow> int" where
  "seq_at s k = (case map_of (Sequences s) k of None \<Rightarrow> 0 | Some c \<Rightarrow> c)"

fun after :: "'a flow \<Rightarrow> ('a \<Rightarrow> bool) \<Rightarrow> bool" where
  "after (Next x) P = P x"
| "after _ P = True"

lemma after_bind: "(\<And>x. f = Next x \<Longrightarrow> after (g x) P) \<Longrightarrow> after (bindF f g) P"
  by (cases f) auto

lemma after_mono: "after f Q \<Longrightarrow> (\<And>x. Q x \<Longrightarrow> P x) \<Longrightarrow> after f P"
  by (cases f) auto

lemma after_if: "after (if b then f else g) P \<longleftrightarrow> (if b then after f P else after g P)"
  by simp

definition draws :: "string \<Rightarrow> effect \<Rightarrow> bool" where
  "draws k e \<longleftrightarrow> ef_op e = ''entropy'' \<and> ef_stream e = k"

definition allocates :: "string \<Rightarrow> effect \<Rightarrow> bool" where
  "allocates k e \<longleftrightarrow> ef_op e = ''allocate'' \<and> ef_sequence e = k"

lemma counters_set_entities [simp]:
  "counter (set_entities e m s) k = counter s k" "seq_at (set_entities e m s) k = seq_at s k"
  by (simp_all add: counter_def seq_at_def)

lemma after_entity_effects:
  assumes "\<And>m. P (set_entities (ef_entity e) m s)"
  shows "after (insertEffect c e key s vars) (\<lambda>sv. P (fst sv))" "after (deleteEffect e key s vars) (\<lambda>sv. P (fst sv))"
    and "after (updateEffect c e key s vars) (\<lambda>sv. P (fst sv))"
  using assms unfolding insertEffect_def deleteEffect_def updateEffect_def Let_def
  by (auto intro!: after_bind split: option.splits)

lemma applyEffect_counters:
  "after (applyEffect c e s vars) (\<lambda>sv. counter (fst sv) k = counter s k + (if draws k e then 1 else 0) \<and>
      seq_at (fst sv) k = (if allocates k e then wrap64 (seq_at s k + 1) else seq_at s k))"
proof -
  have ent: "after (insertEffect c e key (set_entities (ef_entity e) m s) vars) (\<lambda>sv. counter (fst sv) k = counter s k \<and> seq_at (fst sv) k = seq_at s k)"
     "after (deleteEffect e key (set_entities (ef_entity e) m s) vars) (\<lambda>sv. counter (fst sv) k = counter s k \<and> seq_at (fst sv) k = seq_at s k)"
     "after (updateEffect c e key (set_entities (ef_entity e) m s) vars) (\<lambda>sv. counter (fst sv) k = counter s k \<and> seq_at (fst sv) k = seq_at s k)"
    for key m
    by (rule after_entity_effects, simp)+
  have drawn: "counter s' k = counter s k + (if ef_stream e = k then 1 else 0) \<and> seq_at s' k = seq_at s k"
    if "drawEntropy (ce_runtime c) s (ef_stream e) (ef_bytes e) = Drawn v s'" for v s'
    using drawEntropy_cases [OF that] by (auto simp: Let_def counter_def seq_at_def)
  show ?thesis
    unfolding applyEffect_def Let_def
    using ent drawn by (auto simp: draws_def allocates_def counter_def seq_at_def after_if split: draw.splits json.splits intro!: after_bind)
qed

lemma effects_counters:
  "after (effects c es sv) (\<lambda>sv'. counter (fst sv') k = counter (fst sv) k + int (length (filter (draws k) es)))"
proof (induction es arbitrary: sv)
  case (Cons e es)
  show ?case
    unfolding effects.simps
  proof (rule after_bind)
    fix sv1 assume "applyEffect c e (fst sv) (snd sv) = Next sv1"
    then have "counter (fst sv1) k = counter (fst sv) k + (if draws k e then 1 else 0)"
      using applyEffect_counters [of c e "fst sv" "snd sv" k] by simp
    then show "after (effects c es sv1) (\<lambda>sv'. counter (fst sv') k = counter (fst sv) k + int (length (filter (draws k) (e # es))))"
      using Cons [of sv1] by (auto elim!: after_mono)
  qed
qed simp

section \<open>What a committed call has checked\<close>

lemma bindF_Next [simp]: "bindF f g = Next y \<longleftrightarrow> (\<exists>x. f = Next x \<and> g x = Next y)"
  by (cases f) auto

definition holds_in :: "call_env \<Rightarrow> world_state \<Rightarrow> json gomap \<Rightarrow> string \<Rightarrow> bool" where
  "holds_in c s vars ex \<longleftrightarrow> evalBool (ce_libs c) (ce_runtime c) ex (activate c s vars JNull) = Inr True"

lemma evalBoolF_Next: "evalBoolF c ex s act m = Next b \<longleftrightarrow> evalBool (ce_libs c) (ce_runtime c) ex act = Inr b"
  by (simp add: evalBoolF_def split: sum.splits)

lemma require_Next: "require c ex m s vars = Next () \<longleftrightarrow> holds_in c s vars ex"
  by (auto simp: require_def holds_in_def split: sum.splits if_splits)

lemma preconditions_Next: "preconditions c s ps = Next () \<longleftrightarrow> (\<forall>p \<in> set ps. holds_in c s [] (co_expr p))"
  by (induction ps) (auto simp: evalBoolF_Next holds_in_def split: if_splits)

lemma postconditions_Next: "postconditions c s vars ps = Next () \<longleftrightarrow> (\<forall>p \<in> set ps. holds_in c s vars (co_expr p))"
  by (induction ps) (auto simp: require_Next)

lemma invariants_Next: "invariants c s vars is = Next () \<longleftrightarrow> (\<forall>i \<in> set is. holds_in c s vars (iv_assert i))"
  by (induction "is") (auto simp: require_Next)

lemma finish_Next:
  assumes "finish c t s vars = Next (s', out)"
  shows "s' = s \<and> length (canonical_JSON (oc_result out)) \<le> MaxOutputBytes \<and>
    engine_validateJSON (ce_libs c) (oc_result out) (to_outputSchema t) = None \<and> oc_errorClass out = [] \<and> oc_commit out"
  using assms unfolding finish_def by (auto split: if_splits option.splits)

lemma budget_case: "(case ValidateBudget s of Inl e \<Rightarrow> Ret s1 (f e) | Inr u \<Rightarrow> g) = Next x \<longleftrightarrow> ValidateBudget s = Inr () \<and> g = Next x"
  by (cases "ValidateBudget s") auto

lemma run_apply_Next:
  assumes "run_apply c t s = Next (s', out)"
  obtains vars sv where "to_modeled t \<noteq> Some False" "engine_validateJSON (ce_libs c) (ce_input c) (to_inputSchema t) = None"
    "\<forall>p \<in> set (to_preconditions t). holds_in c s [] (co_expr p)"
    "effects c (to_effects t) (s, []) = Next sv" "s' = fst sv" "runQuery c (to_query t) s' (snd sv) = Next vars"
    "within_budget s'"
    "\<forall>p \<in> set (to_postconditions t). holds_in c s' vars (co_expr p)"
    "\<forall>i \<in> set (tw_invariants (rt_spec (ce_runtime c))). holds_in c s' vars (iv_assert i)"
    "finish c t s' vars = Next (s', out)"
proof -
  from assms obtain s1 vars1 vars where
    1: "to_modeled t \<noteq> Some False" "engine_validateJSON (ce_libs c) (ce_input c) (to_inputSchema t) = None"
      "preconditions c s (to_preconditions t) = Next ()"
    and 2: "effects c (to_effects t) (s, []) = Next (s1, vars1)" "runQuery c (to_query t) s1 vars1 = Next vars"
    and 3: "ValidateBudget s1 = Inr ()" "postconditions c s1 vars (to_postconditions t) = Next ()"
      "invariants c s1 vars (tw_invariants (rt_spec (ce_runtime c))) = Next ()" "finish c t s1 vars = Next (s', out)"
    unfolding run_apply_def by (auto split: if_splits option.splits simp: budget_case)
  moreover have "s' = s1" using finish_Next [OF 3(4)] by simp
  ultimately show thesis
    by (intro that [of "(s1, vars1)" vars])
      (simp_all add: preconditions_Next postconditions_Next invariants_Next ValidateBudget_iff)
qed

lemma committed:
  assumes "engine_apply c t s = Inr (s', out)" "oc_errorClass out = []"
  shows "run_apply c t s = Next (s', out)"
  using assms run_apply_sane [of s c t] by (auto simp: engine_apply_def fails_def split: flow.splits)

section \<open>Loading\<close>

lemma compile_Inr: "compile l e ps = Inr ps' \<Longrightarrow> set ps' = insert e (set ps) \<and> length e \<le> MaxExpressionBytes"
  by (auto simp: compile_def split: if_splits option.splits)

lemma compileAll_Inr:
  "compileAll l es ps = Inr ps' \<Longrightarrow> set ps' = set es \<union> set ps \<and> (\<forall>e \<in> set es. length e \<le> MaxExpressionBytes)"
  by (induction es arbitrary: ps) (auto dest!: compile_Inr)

lemma compileTools_Inr:
  "compileTools l ts ps = Inr ps' \<Longrightarrow> set ps' = (\<Union>t \<in> set ts. set (tool_expressions t)) \<union> set ps \<and>
     (\<forall>t \<in> set ts. \<forall>e \<in> set (tool_expressions t). length e \<le> MaxExpressionBytes)"
  by (induction ts arbitrary: ps) (auto split: option.splits dest!: compileAll_Inr)

lemma engine_New_Inr:
  assumes "engine_New l (Some twin) = Inr r"
  shows "valid_twin twin \<and> rt_spec r = twin \<and> rt_digest r = spec_Digest twin \<and> rt_surface r = SurfaceDigest twin \<and>
    set (rt_programs r) = (\<Union>t \<in> set (tools_of twin). set (tool_expressions t)) \<union> iv_assert ` set (tw_invariants twin) \<and>
    (\<forall>e \<in> set (rt_programs r). length e \<le> MaxExpressionBytes) \<and>
    rt_tools r = to_gomap (map (\<lambda>t. (to_name t, t)) (tools_of twin)) \<and> checkSurface twin = Inr ()"
  using assms unfolding engine_New_def
  by (auto split: if_splits simp: Validate_Nil dest!: compileAll_Inr compileTools_Inr)

lemma checkSurface_Inr: "checkSurface twin = Inr () \<longleftrightarrow>
   up_status (tw_upstream twin) \<notin> {''drifted'', ''unknown''} \<and>
   (up_status (tw_upstream twin) = ''current'' \<longrightarrow> up_surfaceDigest (tw_upstream twin) = SurfaceDigest twin)"
  by (auto simp: checkSurface_def Let_def)

lemma rt_tools_lookup:
  assumes "rt_tools r = to_gomap (map (\<lambda>t. (to_name t, t)) ts)" "map_of (rt_tools r) n = Some t"
  shows "t \<in> set ts \<and> to_name t = n"
  using set_to_gomap [OF map_of_SomeD [OF assms(2) [unfolded assms(1)]]] by auto

text \<open>Every expression an execution evaluates has been compiled.\<close>

definition loaded :: "runtime \<Rightarrow> bool" where
  "loaded r \<longleftrightarrow> valid_twin (rt_spec r) \<and>
     (\<forall>n t. map_of (rt_tools r) n = Some t \<longrightarrow> t \<in> set (tools_of (rt_spec r)) \<and> to_name t = n \<and>
        set (tool_expressions t) \<subseteq> set (rt_programs r)) \<and>
     iv_assert ` set (tw_invariants (rt_spec r)) \<subseteq> set (rt_programs r)"

lemma loaded_New:
  assumes "engine_New l (Some twin) = Inr r"
  shows "loaded r"
proof -
  note new = engine_New_Inr [OF assms]
  have "t \<in> set (tools_of twin) \<and> to_name t = n" if "map_of (rt_tools r) n = Some t" for n t
    using rt_tools_lookup [of r "tools_of twin" n t] new that by simp
  with new show ?thesis
    unfolding loaded_def by blast
qed

lemma loaded_effects: "loaded r \<Longrightarrow> map_of (rt_tools r) n = Some t \<Longrightarrow> \<forall>e \<in> set (to_effects t). good_effect (rt_spec r) e"
  unfolding loaded_def valid_twin_def by (auto simp: good_tool_def)

end
