(* ===== verification/Engine_Props.thy ===== *)
theory Engine_Props
  imports Engine_Facts Store_Props
begin

text \<open>
  The properties of the engine, on a runtime with one tool that draws an order number and
  entropy, and one that inserts a user.
\<close>

section \<open>Calls through the engine\<close>

lemma engine_Call_Inr:
  assumes "engine_Call l r bid tool input d = (Inr res, d')"
  obtains t where "map_of (rt_tools r) tool = Some t" "ValidateJSON (record_json input) MaxInputBytes = Inr ()"
    "ApplyCall bid (rt_digest r) tool (record_json input) (engine_callback l r t (record_json input)) d = (Inr res, d')"
  using assms unfolding engine_Call_def by (cases "map_of (rt_tools r) tool") (auto split: sum.splits)

lemma plain_success:
  assumes "faultedApply bid t w f d = Inr ((w', out, fired), d')" "oc_errorClass out = []"
    and "(case fired of None \<Rightarrow> [] | Some f \<Rightarrow> fp_phase f) = []"
  shows "f w = Inr (w', out)"
  using assms(1)
proof (cases rule: faultedApply_Inr)
  case (before plan ps)
  then show ?thesis using assms(3) by (auto dest: armed_head)
next
  case (after plan ps out')
  then show ?thesis using assms(3) by (auto dest: armed_head)
qed simp

text \<open>What a successful call without faults has stored.\<close>

lemma engine_Call_success:
  assumes "engine_Call l r bid tool input d = (Inr res, d')" "db_ok d" "Branch bid d = Inr b"
    and "ar_errorClass res = []" "ar_faultPhase res = []"
  obtains t row out where "map_of (rt_tools r) tool = Some t" "b_spec b = rt_digest r" "branch_where bid d' = Some row"
    "run_apply (mk_env l r (record_json input) (b_clock b) (b_calls b + 1)) t (Clone (b_state b)) = Next (br_state row, out)"
    "ar_result res = oc_result out" "br_digest row = state_digest (br_state row)" "ar_after res = br_digest row"
  using assms(1)
proof (rule engine_Call_Inr)
  fix t
  let ?f = "engine_callback l r t (record_json input)"
  assume t: "map_of (rt_tools r) tool = Some t"
    and call: "ApplyCall bid (rt_digest r) tool (record_json input) ?f d = (Inr res, d')"
  from call assms(2) show thesis
  proof (rule ApplyCall_row)
    fix b' working' outcome fired d1 working row
    assume b': "Branch bid d = Inr b'" "b_spec b' = rt_digest r"
      and fa: "faultedApply bid tool (Clone (b_state b')) (\<lambda>w. ?f w (b_clock b') (b_calls b' + 1)) d = Inr ((working', outcome, fired), d1)"
      and w: "working = (if oc_commit outcome then working' else b_state b')"
      and row: "branch_where bid d' = Some (row\<lparr>br_state := working, br_digest := state_digest working, br_calls := br_calls row + 1,
         br_head := br_head row + 1\<rparr>)"
      and res: "ar_result res = oc_result outcome" "ar_errorClass res = oc_errorClass outcome" "ar_after res = state_digest working"
        "ar_faultPhase res = (case fired of None \<Rightarrow> [] | Some f \<Rightarrow> fp_phase f)"
    have [simp]: "b' = b" using b'(1) assms(3) by simp
    have "?f (Clone (b_state b)) (b_clock b) (b_calls b + 1) = Inr (working', outcome)"
      using plain_success [OF fa] res assms(4,5) by simp
    then have run: "run_apply (mk_env l r (record_json input) (b_clock b) (b_calls b + 1)) t (Clone (b_state b)) = Next (working', outcome)"
      unfolding engine_callback_def using res(2) assms(4) by (intro committed) simp_all
    moreover have "oc_commit outcome" using run_apply_Next [OF run] finish_Next by metis
    ultimately show thesis
      using that [OF t _ row, of outcome] w b'(2) res by simp
  qed
qed

section \<open>An example runtime\<close>

definition ex_libs :: libs where
  "ex_libs = \<lparr>cel_compile = (\<lambda>_. None), cel_eval = (\<lambda>e act. Inr (NBool (e = ''true''))),
     schema_compile = (\<lambda>_. None), schema_validate = (\<lambda>_ _. None)\<rparr>"

definition ex_allocate :: effect where
  "ex_allocate = \<lparr>ef_op = ''allocate'', ef_entity = [], ef_key = [], ef_value = [], ef_sequence = ''order'', ef_as = ''n'',
     ef_merge = False, ef_stream = [], ef_bytes = 0\<rparr>"

definition ex_entropy :: effect where
  "ex_entropy = \<lparr>ef_op = ''entropy'', ef_entity = [], ef_key = [], ef_value = [], ef_sequence = [], ef_as = ''token'',
     ef_merge = False, ef_stream = ''tokens'', ef_bytes = 2\<rparr>"

definition ex_tool :: "string \<Rightarrow> condition list \<Rightarrow> tool" where
  "ex_tool name pre = \<lparr>to_name = name, to_description = ''draws a number'', to_inputSchema = Some [], to_outputSchema = None,
     to_modeled = None, to_preconditions = pre, to_effects = [ex_allocate, ex_entropy], to_query = None,
     to_postconditions = [], to_result = []\<rparr>"

definition ex_draw :: tool where "ex_draw = ex_tool ''draw'' []"
definition ex_never :: tool where "ex_never = ex_tool ''never'' [\<lparr>co_expr = ''false'', co_code = ''NOT_FOUND'', co_message = ''no''\<rparr>]"

definition ex_seed :: string where
  "ex_seed = ''sha256:'' @ replicate 64 (CHR ''0'')"

definition ex_twin :: twin_spec where
  "ex_twin = \<lparr>tw_apiVersion = ''statetwin.dev/v1alpha1'', tw_kind = ''Twin'', tw_name = ''orders'',
     tw_upstream = \<lparr>up_protocol = ''mcp'', up_status = ''unbound'', up_surfaceDigest = []\<rparr>,
     tw_fidelityLevel = ''L1'', tw_fidelityStatus = ''unverified'', tw_clockMode = ''virtual'', tw_clockInitial = ''0000-01-01T00:00:00Z'',
     tw_entropy = Some \<lparr>en_algorithm = ''sha256-ctr-v1'', en_seed = ex_seed\<rparr>,
     tw_entities = [(''order'', None)], tw_invariants = [\<lparr>iv_id = ''ok'', iv_assert = ''true''\<rparr>],
     tw_tools = Some [ex_draw, ex_never]\<rparr>"

definition ex_rt :: runtime where
  "ex_rt = \<lparr>rt_spec = ex_twin, rt_digest = ex_spec, rt_surface = SurfaceDigest ex_twin, rt_programs = [''false'', ''true''],
     rt_tools = [(''draw'', ex_draw), (''never'', ex_never)]\<rparr>"

lemma ex_texts [simp]: "toolNamePattern ''orders''" "toolNamePattern ''draw''" "toolNamePattern ''never''"
  "toolNamePattern ''tokens''" "toolNamePattern ''token''" "IsCanonicalErrorClass ''NOT_FOUND''" "blank []" "\<not> blank ''draws a number''"
  "\<not> blank ''0000-01-01T00:00:00Z''" "digestPattern ex_seed"
  by code_simp+

lemma ex_seed_bytes: "map_option length (hex_DecodeString (TrimPrefix ex_seed ''sha256:'')) = Some 32"
  by code_simp

lemmas ex_defs = ex_twin_def ex_rt_def ex_draw_def ex_never_def ex_tool_def ex_allocate_def ex_entropy_def ex_libs_def

lemma valid_ex_twin: "valid_twin ex_twin"
  unfolding valid_twin_def ex_defs
  by (simp add: good_upstream_def good_tool_def good_schema_def good_effect_def tools_of_def has_def del: toolNamePattern.simps)

lemma loaded_ex_rt: "loaded ex_rt"
  unfolding loaded_def using valid_ex_twin by (auto simp: ex_rt_def ex_twin_def tools_of_def ex_draw_def ex_never_def ex_tool_def
    tool_expressions_def nonempty_def ex_allocate_def ex_entropy_def split: if_splits)

lemma New_ex_twin: "\<exists>r. engine_New ex_libs (Some ex_twin) = Inr r"
  using valid_ex_twin
  by (simp add: engine_New_def Validate_Nil checkSurface_def tools_of_def Let_def)
     (simp add: ex_defs compileJSONSchema_def tool_expressions_def nonempty_def compile_def)

definition ex_env :: call_env where
  "ex_env = mk_env ex_libs ex_rt (JObj []) 0 1"

definition ex_state2 :: world_state where
  "ex_state2 = (ex_state 2)\<lparr>Entropy := [(''tokens'', 1)]\<rparr>"

lemma ex_ok [simp]: "canonical_JSON (JObj [(''ok'', JBool True)]) = ''{\"ok\":true}''"
  "canonical_JSON (state_json ex_state2) = ''{\"entities\":{},\"entropy\":{\"tokens\":1},\"sequences\":{\"order\":2}}''"
  "canonical_JSON (error_json ''NOT_FOUND'' ''no'') = ''{\"error\":{\"code\":\"NOT_FOUND\",\"message\":\"no\"}}''"
  by code_simp+

lemma within_budget_ex_state2 [simp]: "within_budget ex_state2"
  unfolding within_budget_def ex_ok
  by (simp_all add: New_def ex_state2_def ex_state_def events_of_def state_json_def map_vals_def del: toolNamePattern.simps)

lemma drawn_ex: "\<exists>v. drawEntropy ex_rt ((ex_state 1)\<lparr>Sequences := [(''order'', 2)]\<rparr>) ''tokens'' 2 = Drawn v ex_state2"
  using ex_seed_bytes
  by (auto simp: drawEntropy_def ex_rt_def ex_twin_def Let_def has_def ex_state_def ex_state2_def New_def maxUint64_def split: option.splits)

lemma ex_draw_simps [simp]: "to_preconditions ex_draw = []" "to_effects ex_draw = [ex_allocate, ex_entropy]" "to_query ex_draw = None"
  "to_postconditions ex_draw = []" "to_result ex_draw = []" "to_modeled ex_draw = None" "to_outputSchema ex_draw = None"
  "to_inputSchema ex_draw = Some []"
  by (simp_all add: ex_draw_def ex_tool_def)

lemma ex_never_simps [simp]: "to_preconditions ex_never = [\<lparr>co_expr = ''false'', co_code = ''NOT_FOUND'', co_message = ''no''\<rparr>]"
  "to_modeled ex_never = None" "to_inputSchema ex_never = Some []"
  by (simp_all add: ex_never_def ex_tool_def)

lemma ex_env_simps [simp]: "ce_libs ex_env = ex_libs" "ce_runtime ex_env = ex_rt" "ce_input ex_env = JObj []"
  "tw_invariants (rt_spec ex_rt) = [\<lparr>iv_id = ''ok'', iv_assert = ''true''\<rparr>]"
  "map_of (rt_tools ex_rt) ''draw'' = Some ex_draw" "map_of (rt_tools ex_rt) ''never'' = Some ex_never" "rt_digest ex_rt = ex_spec"
  by (simp_all add: ex_env_def mk_env_def ex_rt_def ex_twin_def)

lemma ex_eval [simp]: "evalBool ex_libs ex_rt ''true'' act = Inr True" "evalBool ex_libs ex_rt ''false'' act = Inr False"
  "engine_validateJSON ex_libs x (Some m) = None" "engine_validateJSON ex_libs x None = None"
  by (simp_all add: evalBool_def eval_def ex_rt_def ex_libs_def engine_validateJSON_def)

lemma run_ex_draw: "run_apply ex_env ex_draw (ex_state 1) = Next (ex_state2, \<lparr>oc_result = JObj [(''ok'', JBool True)], oc_errorClass = [], oc_commit = True\<rparr>)"
proof -
  obtain v where v: "drawEntropy ex_rt ((ex_state 1)\<lparr>Sequences := [(''order'', 2)]\<rparr>) ''tokens'' 2 = Drawn v ex_state2"
    using drawn_ex by blast
  have eff: "effects ex_env [ex_allocate, ex_entropy] (ex_state 1, []) = Next (ex_state2, [(''n'', JNum 2), (''token'', JStr v)])"
    using v by (simp add: applyEffect_def) (simp add: ex_allocate_def ex_entropy_def ex_state_def New_def wrap64_def)
  show ?thesis
    by (simp add: run_apply_def eff runQuery_def require_def finish_def del: effects.simps)
qed

lemma run_ex_never: "run_apply ex_env ex_never (ex_state 1) = Ret (ex_state 1) (failure ''NOT_FOUND'' ''no'')"
  by (simp add: run_apply_def evalBoolF_def default_to_def)

lemma call_ex: "ex_env = mk_env ex_libs ex_rt (JObj []) 0 1" "record_json (Some []) = JObj []"
  by (simp_all add: ex_env_def record_json_def)

lemma call_draw: "\<exists>res d. engine_Call ex_libs ex_rt ''main'' ''draw'' (Some []) db0 = (Inr res, d) \<and> ar_errorClass res = [] \<and> ar_faultPhase res = []"
  by (simp add: engine_Call_def call_ex(2) ApplyCall_def transaction_Inr Let_def faultedApply_def takeFault_def armedFaults_def
      engine_callback_def engine_apply_def call_ex(1) [symmetric] run_ex_draw
      appendToolAudit_def casBranch_def affected_def update_where_def)

lemma call_never: "\<exists>res d. engine_Call ex_libs ex_rt ''main'' ''never'' (Some []) db0 = (Inr res, d) \<and> ar_errorClass res = ''NOT_FOUND'' \<and> ar_faultPhase res = []"
  by (simp add: engine_Call_def call_ex(2) ApplyCall_def transaction_Inr Let_def faultedApply_def takeFault_def armedFaults_def
      engine_callback_def engine_apply_def call_ex(1) [symmetric] run_ex_never failure_def
      appendToolAudit_def casBranch_def affected_def update_where_def)

section \<open>Properties\<close>

text \<open>C7 A tool that fails inside the engine changes nothing: when a call returns an error
  class and no after-effect fault fired, the branch keeps its state, specification and clock;
  only the call count and the head version go up by one.\<close>

theorem engine_failure_changes_nothing:
  assumes "engine_Call l r bid tool input d = (Inr res, d')" "db_ok d" "Branch bid d = Inr b" "exact_state (b_state b)"
    and "ar_errorClass res \<noteq> []" "ar_faultPhase res \<noteq> PhaseAfter"
  shows "Branch bid d' = Inr (b\<lparr>b_digest := state_digest (b_state b), b_calls := b_calls b + 1, b_head := b_head b + 1\<rparr>)"
  using assms(1) by (rule engine_Call_Inr) (rule failed_call_keeps_world [OF _ assms(2) errors_roll_back_engine assms(3-6)])

theorem engine_failure_changes_nothing_witness:
  "\<exists>res d. engine_Call ex_libs ex_rt ''main'' ''never'' (Some []) db0 = (Inr res, d) \<and> Branch ''main'' d = Inr (ex_branch 1 1 1)"
proof -
  obtain res d where call: "engine_Call ex_libs ex_rt ''main'' ''never'' (Some []) db0 = (Inr res, d)"
    and res: "ar_errorClass res = ''NOT_FOUND''" "ar_faultPhase res = []" using call_never by blast
  show ?thesis
    using engine_failure_changes_nothing [OF call db_ok_db0 branch_db0(2)] res call by (simp add: ex_branch_def)
qed

text \<open>C6 A tool call that succeeds without a fault was made under the runtime's own specification
  and stores a state that is within its budget and satisfies every global invariant of the
  specification, as the expression evaluator reads it at the branch clock and the new call index;
  its result obeys the output schema and the size limit.\<close>

theorem engine_success_establishes_invariants:
  assumes "engine_Call l r bid tool input d = (Inr res, d')" "db_ok d" "Branch bid d = Inr b"
    and "ar_errorClass res = []" "ar_faultPhase res = []"
  shows "\<exists>t row vars. map_of (rt_tools r) tool = Some t \<and> b_spec b = rt_digest r \<and> branch_where bid d' = Some row \<and>
    within_budget (br_state row) \<and> br_digest row = state_digest (br_state row) \<and>
    (\<forall>i \<in> set (tw_invariants (rt_spec r)).
       holds_in (mk_env l r (record_json input) (b_clock b) (b_calls b + 1)) (br_state row) vars (iv_assert i)) \<and>
    engine_validateJSON l (ar_result res) (to_outputSchema t) = None \<and>
    length (canonical_JSON (ar_result res)) \<le> MaxOutputBytes"
  using assms
proof (rule engine_Call_success)
  fix t row out
  let ?c = "mk_env l r (record_json input) (b_clock b) (b_calls b + 1)"
  assume t: "map_of (rt_tools r) tool = Some t" "b_spec b = rt_digest r" "branch_where bid d' = Some row"
    and run: "run_apply ?c t (Clone (b_state b)) = Next (br_state row, out)"
    and res: "ar_result res = oc_result out" "br_digest row = state_digest (br_state row)"
  from run show ?thesis
  proof (rule run_apply_Next)
    fix vars sv
    assume "within_budget (br_state row)" "finish ?c t (br_state row) vars = Next (br_state row, out)"
      and "\<forall>i \<in> set (tw_invariants (rt_spec (ce_runtime ?c))). holds_in ?c (br_state row) vars (iv_assert i)"
    then show ?thesis
      using t res finish_Next [of ?c t "br_state row" vars "br_state row" out]
      by (intro exI [of _ t] exI [of _ row] exI [of _ vars]) (simp add: mk_env_def)
  qed
qed

theorem engine_success_establishes_invariants_witness:
  "\<exists>d row. snd (engine_Call ex_libs ex_rt ''main'' ''draw'' (Some []) db0) = d \<and> branch_where ''main'' d = Some row \<and> within_budget (br_state row)"
proof -
  obtain res d where call: "engine_Call ex_libs ex_rt ''main'' ''draw'' (Some []) db0 = (Inr res, d)"
    and res: "ar_errorClass res = []" "ar_faultPhase res = []" using call_draw by blast
  show ?thesis
    using engine_success_establishes_invariants [OF call db_ok_db0 branch_db0(2) res] call by auto
qed

text \<open>Entropy is reproducible and never reused: a successful call moves the counter of every
  stream by the number of entropy effects of the tool on that stream, and moves no other stream.\<close>

theorem entropy_counters_advance:
  assumes "engine_Call l r bid tool input d = (Inr res, d')" "db_ok d" "Branch bid d = Inr b"
    and "ar_errorClass res = []" "ar_faultPhase res = []"
  shows "\<exists>t row. map_of (rt_tools r) tool = Some t \<and> branch_where bid d' = Some row \<and>
    (\<forall>k. counter (br_state row) k = counter (b_state b) k + int (length (filter (draws k) (to_effects t))))"
  using assms
proof (rule engine_Call_success)
  fix t row out
  let ?c = "mk_env l r (record_json input) (b_clock b) (b_calls b + 1)"
  assume t: "map_of (rt_tools r) tool = Some t" "branch_where bid d' = Some row"
    and run: "run_apply ?c t (Clone (b_state b)) = Next (br_state row, out)"
  have [simp]: "counter (Clone (b_state b)) k = counter (b_state b) k" for k
    by (simp add: counter_def Clone_def)
  from run show ?thesis
  proof (rule run_apply_Next)
    fix vars sv
    assume "effects ?c (to_effects t) (Clone (b_state b), []) = Next sv" "br_state row = fst sv"
    then have "counter (br_state row) k = counter (b_state b) k + int (length (filter (draws k) (to_effects t)))" for k
      using effects_counters [of ?c "to_effects t" "(Clone (b_state b), [])" k] by simp
    then show ?thesis using t by blast
  qed
qed

theorem entropy_counters_advance_witness:
  "\<exists>d row. snd (engine_Call ex_libs ex_rt ''main'' ''draw'' (Some []) db0) = d \<and> branch_where ''main'' d = Some row \<and>
    counter (br_state row) ''tokens'' = 1"
proof -
  obtain res d where call: "engine_Call ex_libs ex_rt ''main'' ''draw'' (Some []) db0 = (Inr res, d)"
    and res: "ar_errorClass res = []" "ar_faultPhase res = []" using call_draw by blast
  obtain t row where t: "map_of (rt_tools ex_rt) ''draw'' = Some t" "branch_where ''main'' d = Some row"
    and k: "\<forall>k. counter (br_state row) k = counter (b_state (ex_branch 1 0 0)) k + int (length (filter (draws k) (to_effects t)))"
    using entropy_counters_advance [OF call db_ok_db0 branch_db0(2) res] by blast
  have "counter (br_state row) ''tokens'' = 1"
    using k t(1) by (simp add: draws_def ex_allocate_def ex_entropy_def counter_def ex_state_def New_def)
  then show ?thesis using t(2) call by auto
qed

text \<open>A runtime that loads has a valid specification, has compiled every expression its tools
  and invariants evaluate, and refuses a surface that is declared current but does not match.\<close>

theorem engine_New_loads:
  assumes "engine_New l (Some twin) = Inr r"
  shows "loaded r \<and> rt_spec r = twin \<and> rt_digest r = spec_Digest twin \<and>
    (up_status (tw_upstream twin) = ''current'' \<longrightarrow> up_surfaceDigest (tw_upstream twin) = SurfaceDigest twin)"
  using loaded_New [OF assms] engine_New_Inr [OF assms] by (auto simp: checkSurface_Inr)

theorem engine_New_loads_witness: "\<exists>r. engine_New ex_libs (Some ex_twin) = Inr r \<and> loaded r"
  using New_ex_twin engine_New_loads by blast

text \<open>C10 A tool of a loaded runtime never panics on a state without null records, whatever the
  expressions evaluate to: it returns an outcome and a state without null records.\<close>

theorem engine_never_panics:
  assumes "loaded r" "map_of (rt_tools r) tool = Some t" "no_nil s"
  shows "\<exists>s' out. engine_callback l r t input s clock n = Inr (s', out) \<and> no_nil s'"
  unfolding engine_callback_def using loaded_effects [OF assms(1,2)] assms(3) by (rule engine_apply_total)

theorem engine_never_panics_witness: "\<exists>s' out. engine_callback ex_libs ex_rt ex_draw JNull (ex_state 1) 0 1 = Inr (s', out)"
proof -
  have "no_nil (ex_state 1)" by (simp add: no_nil_def entities_at_def ex_state_def New_def)
  then show ?thesis
    using engine_never_panics [OF loaded_ex_rt, of "''draw''" ex_draw "ex_state 1"] by fastforce
qed

end
