(* ===== verification/Diff.thy ===== *)
theory Diff
  imports Store_Time
begin

text \<open>
  \<open>internal/store/diff.go\<close>: the bounded structural difference of two branches. Both states
  are compared as \<open>json.Unmarshal\<close> into \<open>any\<close> reads them, so numbers are \<open>float64\<close>.
\<close>

record change =
  ch_path :: string
  ch_before :: json
  ch_after :: json

text \<open>\<open>omitempty\<close> on an \<open>any\<close> leaves out a nil.\<close>

definition change_json :: "change \<Rightarrow> json" where
  "change_json c = JObj (
     [(''path'', JStr (ch_path c))] @
     (if ch_before c = JNull then [] else [(''before'', ch_before c)]) @
     (if ch_after c = JNull then [] else [(''after'', ch_after c)]))"

definition escapePointer :: "string \<Rightarrow> string" where
  "escapePointer s = concat (map (\<lambda>c. if c = CHR ''~'' then ''~0'' else if c = CHR ''/'' then ''~1'' else [c]) s)"

type_synonym diff_acc = "change list \<times> nat"

definition appendChange :: "change \<Rightarrow> diff_acc \<Rightarrow> error + diff_acc" where
  "appendChange c acc =
     (let (changes, bytes) = acc; encoded = canonical_JSON (change_json c) in
      if length changes + 1 > MaxDiffEntries then Inl ErrResourceLimit
      else if bytes + length encoded > MaxDiffBytes then Inl ErrResourceLimit
      else Inr (changes @ [c], bytes + length encoded))"

definition child :: "string \<Rightarrow> string \<Rightarrow> string" where
  "child path key = path @ ''/'' @ escapePointer key"

text \<open>The sorted union of the keys of two objects.\<close>

definition ordered_keys :: "'v gomap \<Rightarrow> 'w gomap \<Rightarrow> string list" where
  "ordered_keys l r = map fst (to_gomap (map (\<lambda>k. (k, ())) (map fst l @ map fst r)))"

lemma size_map_of: "map_of l k = Some (v::json) \<Longrightarrow> size v < size_list (size_prod (\<lambda>_. 0) size) l"
  by (induction l) (auto split: if_splits)

function diffValue :: "string \<Rightarrow> json \<Rightarrow> json \<Rightarrow> diff_acc \<Rightarrow> error + diff_acc"
  and diffKeys :: "string \<Rightarrow> string list \<Rightarrow> json gomap \<Rightarrow> json gomap \<Rightarrow> diff_acc \<Rightarrow> error + diff_acc" where
  "diffValue path before after acc =
     (if before = after then Inr acc
      else case (before, after) of
        (JObj left, JObj right) \<Rightarrow> diffKeys path (ordered_keys left right) left right acc
      | _ \<Rightarrow> appendChange \<lparr>ch_path = (if path = [] then ''/'' else path), ch_before = before, ch_after = after\<rparr> acc)"
| "diffKeys path [] left right acc = Inr acc"
| "diffKeys path (key # keys) left right acc =
     bindE
       (case map_of left key of
          None \<Rightarrow> appendChange \<lparr>ch_path = child path key, ch_before = JNull,
                    ch_after = (case map_of right key of None \<Rightarrow> JNull | Some rv \<Rightarrow> rv)\<rparr> acc
        | Some lv \<Rightarrow>
            (case map_of right key of
               None \<Rightarrow> appendChange \<lparr>ch_path = child path key, ch_before = lv, ch_after = JNull\<rparr> acc
             | Some rv \<Rightarrow> diffValue (child path key) lv rv acc))
       (\<lambda>acc'. diffKeys path keys left right acc')"
  by pat_completeness auto
termination
  by (relation "inv_image (less_than <*lex*> less_than)
        (\<lambda>x. case x of Inl (_, before, _, _) \<Rightarrow> (size before, 0)
                     | Inr (_, keys, left, _, _) \<Rightarrow> (size_list (size_prod (\<lambda>_. 0) size) left, Suc (length keys)))")
     (auto simp: size_map_of)

declare diffValue.simps [simp del]

definition reread_any :: "world_state \<Rightarrow> json" where
  "reread_any s = canon (renum_json (state_json s))"

definition DiffBranches :: "string \<Rightarrow> string \<Rightarrow> db \<Rightarrow> error + change list" where
  "DiffBranches beforeID afterID d =
     bindE (Branch beforeID d) (\<lambda>before.
     bindE (Branch afterID d) (\<lambda>after.
     bindE (diffValue [] (reread_any (b_state before)) (reread_any (b_state after)) ([], 0)) (\<lambda>(changes, _).
     Inr (sort_key ch_path changes))))"

section \<open>Properties of a difference\<close>

lemma appendChange_Inr:
  "appendChange c (cs, n) = Inr (cs', n') \<Longrightarrow> cs' = cs @ [c] \<and> n' = n + length (canonical_JSON (change_json c)) \<and>
     length cs' \<le> MaxDiffEntries \<and> n' \<le> MaxDiffBytes"
  by (auto simp: appendChange_def Let_def split: if_split_asm)

definition diff_bytes :: "change list \<Rightarrow> nat" where
  "diff_bytes cs = sum_list (map (\<lambda>c. length (canonical_JSON (change_json c))) cs)"

lemma keys_foldl_put: "fst ` set (foldl (\<lambda>m (k, v). put k v m) m kvs) = fst ` set m \<union> fst ` set kvs"
  by (induction kvs arbitrary: m) (auto simp: set_keys_put split_def)

lemma set_ordered_keys: "set (ordered_keys l r) = fst ` set l \<union> fst ` set r"
  by (simp only: ordered_keys_def to_gomap_def set_map keys_foldl_put) (auto simp: image_image)

lemma canon_fixed:
  assumes "canon (JObj l) = JObj l"
  shows "wf_map l" "\<forall>v \<in> snd ` set l. canon v = v"
proof -
  have l: "to_gomap (map (map_prod id canon) l) = l"
    using assms by simp
  show wf: "wf_map l"
    using wf_to_gomap [of "map (map_prod id canon) l"] by (simp only: l)
  have "wf_map (map (map_prod id canon) l)"
    using wf by (simp add: wf_map_def map_prod_id_keys del: map_map)
  then have "map (map_prod id canon) l = l"
    using l by (simp only: to_gomap_wf)
  then have "\<forall>e \<in> set l. map_prod id canon e = e"
    using map_eq_conv [of "map_prod id canon" l id] by simp
  then show "\<forall>v \<in> snd ` set l. canon v = v" by force
qed

text \<open>What is appended: the bytes are counted, the limits hold, and nothing is appended only for equal values.\<close>

definition grows :: "diff_acc \<Rightarrow> diff_acc \<Rightarrow> bool" where
  "grows acc acc' \<longleftrightarrow> (\<exists>us. acc' = (fst acc @ us, snd acc + diff_bytes us) \<and>
     (us = [] \<or> length (fst acc') \<le> MaxDiffEntries \<and> snd acc' \<le> MaxDiffBytes))"

lemma diff_bytes_simps [simp]: "diff_bytes [] = 0" "diff_bytes (us @ vs) = diff_bytes us + diff_bytes vs"
  by (simp_all add: diff_bytes_def)

lemma grows_refl [simp]: "grows acc acc"
  unfolding grows_def by (rule exI [of _ "[]"]) simp

lemma grows_trans: "grows a b \<Longrightarrow> grows b c \<Longrightarrow> grows a c"
proof -
  assume "grows a b" "grows b c"
  then obtain us vs where "b = (fst a @ us, snd a + diff_bytes us)" "c = (fst b @ vs, snd b + diff_bytes vs)"
    "us = [] \<or> length (fst b) \<le> MaxDiffEntries \<and> snd b \<le> MaxDiffBytes"
    "vs = [] \<or> length (fst c) \<le> MaxDiffEntries \<and> snd c \<le> MaxDiffBytes"
    unfolding grows_def by blast
  then show ?thesis
    unfolding grows_def by (intro exI [of _ "us @ vs"]) auto
qed

lemma grows_antisym: "grows a b \<Longrightarrow> grows b a \<Longrightarrow> a = b"
proof -
  assume "grows a b" "grows b a"
  then obtain us vs where ab: "b = (fst a @ us, snd a + diff_bytes us)" "a = (fst b @ vs, snd b + diff_bytes vs)"
    unfolding grows_def by blast
  then have "fst a = fst a @ us @ vs" by (metis append.assoc fst_conv)
  then have "us = []" by simp
  with ab(1) show ?thesis by simp
qed

lemma appendChange_grows:
  assumes "appendChange c acc = Inr acc'"
  shows "grows acc acc' \<and> acc' \<noteq> acc"
proof -
  obtain cs n cs' n' where acc: "acc = (cs, n)" "acc' = (cs', n')" by (cases acc, cases acc')
  with appendChange_Inr assms have "cs' = cs @ [c]" "n' = n + diff_bytes [c]" "length cs' \<le> MaxDiffEntries" "n' \<le> MaxDiffBytes"
    by (fastforce simp: diff_bytes_def)+
  then show ?thesis
    unfolding grows_def acc by (intro conjI exI [of _ "[c]"]) simp_all
qed

lemma map_of_union_eqI:
  assumes "\<And>k. k \<in> fst ` set l \<union> fst ` set r \<Longrightarrow> map_of l k = map_of r k"
  shows "map_of l = map_of r"
proof
  fix k
  show "map_of l k = map_of r k"
  proof (cases "k \<in> fst ` set l \<union> fst ` set r")
    case False
    then have "map_of l k = None" "map_of r k = None" by (simp_all only: map_of_eq_None_iff Un_iff de_Morgan_disj not_False_eq_True)
    then show ?thesis by simp
  qed (rule assms)
qed

lemma diff_spec:
  "diffValue path before after acc = Inr acc' \<Longrightarrow>
     grows acc acc' \<and> (canon before = before \<longrightarrow> canon after = after \<longrightarrow> acc' = acc \<longrightarrow> before = after)"
  "diffKeys path keys left right acc = Inr acc' \<Longrightarrow>
     grows acc acc' \<and> ((\<forall>v \<in> snd ` set left \<union> snd ` set right. canon v = v) \<longrightarrow> acc' = acc \<longrightarrow>
       (\<forall>k \<in> set keys. map_of left k = map_of right k))"
proof (induction path before after acc and path keys left right acc arbitrary: acc' and acc' rule: diffValue_diffKeys.induct)
  case (1 path before after acc)
  show ?case
  proof (cases "before = after")
    case True
    with 1(2) show ?thesis by (simp add: diffValue.simps)
  next
    case False
    show ?thesis
    proof (cases "\<exists>l r. before = JObj l \<and> after = JObj r")
      case True
      then obtain l r where lr: "before = JObj l" "after = JObj r" by blast
      have keys: "diffKeys path (ordered_keys l r) l r acc = Inr acc'"
        using 1(2) False by (simp add: diffValue.simps lr)
      note IH = 1(1) [OF False _ lr keys, simplified lr, OF refl]
      have eq: "l = r" if "canon before = before" "canon after = after" "acc' = acc"
      proof (rule wf_map_eqI)
        have fixed: "canon (JObj l) = JObj l" "canon (JObj r) = JObj r" using that lr by simp_all
        show "wf_map l" "wf_map r" using canon_fixed fixed by blast+
        have all: "\<forall>k \<in> set (ordered_keys l r). map_of l k = map_of r k"
          using IH canon_fixed(2) [OF fixed(1)] canon_fixed(2) [OF fixed(2)] that(3) by blast
        have "map_of l k = map_of r k" if "k \<in> fst ` set l \<union> fst ` set r" for k
          by (rule bspec [OF all]) (unfold set_ordered_keys, rule that)
        then show "map_of l = map_of r" by (rule map_of_union_eqI)
      qed
      show ?thesis
        by (intro conjI impI, rule conjunct1 [OF IH]) (unfold lr, drule (2) eq [unfolded lr], simp only:)
    next
      case no: False
      then have "appendChange \<lparr>ch_path = (if path = [] then ''/'' else path), ch_before = before, ch_after = after\<rparr> acc = Inr acc'"
        using 1(2) False by (cases before; cases after) (simp_all add: diffValue.simps)
      then show ?thesis using appendChange_grows by blast
    qed
  qed
next
  case (2 path left right acc)
  then show ?case by simp
next
  case (3 path key keys left right acc)
  then obtain acc1 where
    first: "(case map_of left key of
          None \<Rightarrow> appendChange \<lparr>ch_path = child path key, ch_before = JNull,
                    ch_after = (case map_of right key of None \<Rightarrow> JNull | Some rv \<Rightarrow> rv)\<rparr> acc
        | Some lv \<Rightarrow>
            (case map_of right key of
               None \<Rightarrow> appendChange \<lparr>ch_path = child path key, ch_before = lv, ch_after = JNull\<rparr> acc
             | Some rv \<Rightarrow> diffValue (child path key) lv rv acc)) = Inr acc1"
    and rest: "diffKeys path keys left right acc1 = Inr acc'"
    by auto
  note IH2 = 3(2) [OF first rest]
  have head: "grows acc acc1 \<and> ((\<forall>v \<in> snd ` set left \<union> snd ` set right. canon v = v) \<longrightarrow> acc1 = acc \<longrightarrow> map_of left key = map_of right key)"
  proof (cases "\<exists>lv rv. map_of left key = Some lv \<and> map_of right key = Some rv")
    case True
    then obtain lv rv where lr: "map_of left key = Some lv" "map_of right key = Some rv" by blast
    then have "diffValue (child path key) lv rv acc = Inr acc1" using first by simp
    note IH = 3(1) [OF lr this]
    have "lv \<in> snd ` set left" "rv \<in> snd ` set right"
      using lr by (auto dest!: map_of_SomeD intro: image_eqI [rotated])
    with IH lr show ?thesis by auto
  next
    case False
    then have "\<exists>c. appendChange c acc = Inr acc1"
      using first by (auto split: option.splits)
    then show ?thesis using appendChange_grows by blast
  qed
  show ?case
  proof (intro conjI impI)
    show "grows acc acc'" using head IH2 grows_trans by blast
    assume fixed: "\<forall>v \<in> snd ` set left \<union> snd ` set right. canon v = v" and same: "acc' = acc"
    then have "acc1 = acc" using head IH2 grows_antisym by blast
    with head IH2 fixed same show "\<forall>k \<in> set (key # keys). map_of left k = map_of right k" by simp
  qed
qed

lemma sort_key_empty: "sort_key k xs = [] \<longleftrightarrow> xs = []"
  using length_sort [of k xs] by (metis length_0_conv)

text \<open>An empty difference means equal worlds, and an equal world has an empty difference.\<close>

lemma DiffBranches_bounds:
  assumes "DiffBranches a b d = Inr cs"
  shows "length cs \<le> MaxDiffEntries" "diff_bytes cs \<le> MaxDiffBytes" "sorted (map ch_path cs)"
    "cs = [] \<longleftrightarrow> (\<exists>x y. Branch a d = Inr x \<and> Branch b d = Inr y \<and> reread_any (b_state x) = reread_any (b_state y))"
proof -
  obtain x y cs0 n where xy: "Branch a d = Inr x" "Branch b d = Inr y"
    and diff: "diffValue [] (reread_any (b_state x)) (reread_any (b_state y)) ([], 0) = Inr (cs0, n)"
    and cs: "cs = sort_key ch_path cs0"
    using assms by (auto simp: DiffBranches_def)
  have spec: "grows ([], 0) (cs0, n)" "(cs0, n) = ([], 0) \<longrightarrow> reread_any (b_state x) = reread_any (b_state y)"
    using diff_spec(1) [OF diff] by (simp_all add: reread_any_def)
  have bytes: "diff_bytes (sort_key ch_path cs0) = diff_bytes cs0"
    unfolding diff_bytes_def sum_mset_sum_list [symmetric] mset_map mset_sort ..
  show "length cs \<le> MaxDiffEntries" "diff_bytes cs \<le> MaxDiffBytes" "sorted (map ch_path cs)"
    using spec(1) by (auto simp: grows_def cs bytes)
  have "cs0 = [] \<longleftrightarrow> reread_any (b_state x) = reread_any (b_state y)"
  proof
    assume "cs0 = []"
    moreover from this have "n = 0" using spec(1) by (auto simp: grows_def)
    ultimately show "reread_any (b_state x) = reread_any (b_state y)" using spec(2) by simp
  next
    assume "reread_any (b_state x) = reread_any (b_state y)"
    then show "cs0 = []" using diff by (simp add: diffValue.simps)
  qed
  then show "cs = [] \<longleftrightarrow> (\<exists>x y. Branch a d = Inr x \<and> Branch b d = Inr y \<and> reread_any (b_state x) = reread_any (b_state y))"
    unfolding cs xy by (simp add: sort_key_empty)
qed

end
