(* ===== verification/Scenario.thy ===== *)
theory Scenario
  imports Engine_Facts Diff
begin

text \<open>
  \<open>internal/scenario/scenario.go\<close>: scripted scenarios, their validation, JSON Pointer
  assertions, and the run of a scenario on a fresh in-memory store. Decoding the YAML text is
  not modelled. A nil \<open>any\<close> is \<open>JNull\<close>.
\<close>

section \<open>Scenarios\<close>

record assertion =
  as_path :: string
  as_operator :: string
  as_value :: json

record step =
  st_id :: string
  st_tool :: string
  st_input :: "json gomap option"
  st_errorClass :: string
  st_assertions :: "assertion list"

record scenario =
  sc_apiVersion :: string
  sc_kind :: string
  sc_name :: string
  sc_steps :: "step list"
  sc_final :: "assertion list"

definition assertion_json :: "assertion \<Rightarrow> json" where
  "assertion_json a = JObj (
     [(''path'', JStr (as_path a)), (''operator'', JStr (as_operator a))] @
     opt_field ''value'' (as_value a \<noteq> JNull) (as_value a))"

definition step_json :: "step \<Rightarrow> json" where
  "step_json s = JObj (
     [(''id'', JStr (st_id s)), (''tool'', JStr (st_tool s))] @
     (case st_input s of None \<Rightarrow> [] | Some m \<Rightarrow> opt_field ''input'' (m \<noteq> []) (JObj m)) @
     [(''expect'', JObj ([(''errorClass'', JStr (st_errorClass s))] @ list_field ''assertions'' assertion_json (st_assertions s)))])"

definition scenario_json :: "scenario \<Rightarrow> json" where
  "scenario_json s = JObj (
     [(''apiVersion'', JStr (sc_apiVersion s)), (''kind'', JStr (sc_kind s)),
      (''metadata'', JObj [(''name'', JStr (sc_name s))]),
      (''steps'', JArr (map step_json (sc_steps s)))] @
     list_field ''finalAssertions'' assertion_json (sc_final s))"

definition scenario_Digest :: "scenario \<Rightarrow> string" where
  "scenario_Digest s = canonical_Digest (scenario_json s)"

section \<open>JSON Pointers\<close>

text \<open>\<open>strings.Split\<close> at one character.\<close>

fun split_on :: "char \<Rightarrow> string \<Rightarrow> string list" where
  "split_on c [] = [[]]"
| "split_on c (x # xs) =
     (if x = c then [] # split_on c xs
      else case split_on c xs of [] \<Rightarrow> [[x]] | s # ss \<Rightarrow> (x # s) # ss)"

fun unescape :: "string \<Rightarrow> string option" where
  "unescape [] = Some []"
| "unescape [c] = (if c = CHR ''~'' then None else Some [c])"
| "unescape (c # d # s) =
     (if c \<noteq> CHR ''~'' then map_option ((#) c) (unescape (d # s))
      else if d = CHR ''0'' then map_option ((#) (CHR ''~'')) (unescape s)
      else if d = CHR ''1'' then map_option ((#) (CHR ''/'')) (unescape s)
      else None)"

fun unescape_all :: "string list \<Rightarrow> string list option" where
  "unescape_all [] = Some []"
| "unescape_all (s # ss) =
     (case unescape s of None \<Rightarrow> None | Some t \<Rightarrow> map_option ((#) t) (unescape_all ss))"

definition pointerSegments :: "string \<Rightarrow> string + string list" where
  "pointerSegments pointer =
     (case pointer of
        c # rest \<Rightarrow>
          if c = CHR ''/'' then
            (case unescape_all (split_on (CHR ''/'') rest) of
               None \<Rightarrow> Inl ''path contains invalid JSON Pointer escape'' | Some segments \<Rightarrow> Inr segments)
          else Inl ''path must start with /''
      | [] \<Rightarrow> Inl ''path must start with /'')"

text \<open>\<open>strconv.Atoi\<close>; a number too large for \<open>int\<close> is larger than any index, so both give no element.\<close>

definition digits_value :: "string \<Rightarrow> int option" where
  "digits_value s = (if s \<noteq> [] \<and> list_all is_digit s then Some (num_of s) else None)"

definition Atoi :: "string \<Rightarrow> int option" where
  "Atoi s = (case s of
      [] \<Rightarrow> None
    | c # cs \<Rightarrow>
        if c = CHR ''-'' then map_option uminus (digits_value cs)
        else if c = CHR ''+'' then digits_value cs
        else digits_value s)"

fun walk_pointer :: "json \<Rightarrow> string list \<Rightarrow> json option" where
  "walk_pointer v [] = Some v"
| "walk_pointer v (s # ss) =
     (case v of
        JObj m \<Rightarrow> (case map_of m s of None \<Rightarrow> None | Some w \<Rightarrow> walk_pointer w ss)
      | JArr xs \<Rightarrow>
          (case Atoi s of
             None \<Rightarrow> None
           | Some i \<Rightarrow> if i < 0 \<or> i \<ge> int (length xs) then None else walk_pointer (xs ! nat i) ss)
      | _ \<Rightarrow> None)"

definition resolvePointer :: "json \<Rightarrow> string \<Rightarrow> string + json option" where
  "resolvePointer root pointer = bindE (pointerSegments pointer) (\<lambda>segments. Inr (walk_pointer root segments))"

section \<open>Validation\<close>

primrec validateJSONValue :: "json \<Rightarrow> nat \<Rightarrow> bool" where
  "validateJSONValue JNull depth = (depth \<le> MaxJSONDepth)"
| "validateJSONValue (JBool b) depth = (depth \<le> MaxJSONDepth)"
| "validateJSONValue (JNum n) depth = (depth \<le> MaxJSONDepth)"
| "validateJSONValue (JStr s) depth = (depth \<le> MaxJSONDepth)"
| "validateJSONValue (JArr xs) depth =
     (depth \<le> MaxJSONDepth \<and> list_all (\<lambda>f. f (depth + 1)) (map validateJSONValue xs))"
| "validateJSONValue (JObj kvs) depth =
     (depth \<le> MaxJSONDepth \<and> list_all (\<lambda>f. f (depth + 1)) (map snd (map (map_prod id validateJSONValue) kvs)))"

definition depth_message :: string where
  "depth_message = ''exceeds JSON value depth limit '' @ dec_int (int MaxJSONDepth)"

definition validateAssertion :: "assertion \<Rightarrow> string option" where
  "validateAssertion a =
     (if as_path a = [] \<or> hd (as_path a) \<noteq> CHR ''/'' then Some ''path must be a non-empty JSON Pointer''
      else if length (split_on (CHR ''/'') (tl (as_path a))) > 64 then Some ''path exceeds depth limit 64''
      else case pointerSegments (as_path a) of
        Inl e \<Rightarrow> Some e
      | Inr _ \<Rightarrow>
          if as_operator a = ''equals'' then
            (if validateJSONValue (as_value a) 0 then None else Some (''value '' @ depth_message))
          else if as_operator a = ''exists'' \<or> as_operator a = ''absent'' then
            (if as_value a \<noteq> JNull then Some ''exists/absent assertions must not declare value'' else None)
          else Some ''operator must be equals, exists, or absent'')"

fun assertionProblems :: "string \<Rightarrow> nat \<Rightarrow> assertion list \<Rightarrow> string list" where
  "assertionProblems prefix j [] = []"
| "assertionProblems prefix j (a # as) =
     (case validateAssertion a of None \<Rightarrow> [] | Some e \<Rightarrow> [at_index prefix j @ '': '' @ e]) @
     assertionProblems prefix (Suc j) as"

definition input_of :: "step \<Rightarrow> json gomap" where
  "input_of s = (case st_input s of None \<Rightarrow> [] | Some m \<Rightarrow> m)"

definition stepProblems :: "string list \<Rightarrow> string \<Rightarrow> step \<Rightarrow> string list" where
  "stepProblems ids prefix s =
     (if \<not> toolNamePattern (st_id s) then [prefix @ ''.id is invalid'']
      else problem (st_id s \<in> set ids) (prefix @ ''.id must be unique'')) @
     problem (blank (st_tool s)) (prefix @ ''.tool is required'') @
     problem (st_errorClass s \<noteq> [] \<and> \<not> IsCanonicalErrorClass (st_errorClass s))
       (prefix @ ''.expect.errorClass is not a canonical error class'') @
     problem (\<not> validateJSONValue (JObj (input_of s)) 0) (prefix @ ''.input '' @ depth_message) @
     assertionProblems (prefix @ ''.expect.assertions'') 0 (st_assertions s)"

fun stepsProblems :: "string list \<Rightarrow> nat \<Rightarrow> step list \<Rightarrow> string list" where
  "stepsProblems ids i [] = []"
| "stepsProblems ids i (s # ss) =
     stepProblems ids (at_index ''steps'' i) s @ stepsProblems (st_id s # ids) (Suc i) ss"

definition assertionCount :: "scenario \<Rightarrow> nat" where
  "assertionCount s = length (sc_final s) + sum_list (map (\<lambda>t. length (st_assertions t)) (sc_steps s))"

text \<open>\<open>Validate\<close>: the problems, and the scenario with every nil input replaced by an empty object.\<close>

definition scenario_problems :: "scenario \<Rightarrow> string list" where
  "scenario_problems s =
     problem (sc_apiVersion s \<noteq> ''statetwin.dev/v1alpha1'') ''apiVersion must be statetwin.dev/v1alpha1'' @
     problem (sc_kind s \<noteq> ''Scenario'') ''kind must be Scenario'' @
     problem (\<not> toolNamePattern (sc_name s)) (''metadata.name must use lowercase letters, digits, '' @ squote ''-'' @ '' or '' @ squote ''_'') @
     problem (sc_steps s = []) ''steps must not be empty'' @
     problem (length (sc_steps s) > MaxScenarioSteps) (''steps exceeds limit '' @ dec_int (int MaxScenarioSteps)) @
     stepsProblems [] 0 (sc_steps s) @
     assertionProblems ''finalAssertions'' 0 (sc_final s) @
     problem (assertionCount s > 1024) ''assertions exceeds limit 1024''"

definition normalize_steps :: "scenario \<Rightarrow> scenario" where
  "normalize_steps s = s\<lparr>sc_steps := map (\<lambda>t. t\<lparr>st_input := Some (input_of t)\<rparr>) (sc_steps s)\<rparr>"

definition scenario_Validate :: "scenario \<Rightarrow> string list \<times> scenario" where
  "scenario_Validate s = (scenario_problems s, normalize_steps s)"

section \<open>The report\<close>

record environment =
  env_version :: string
  env_spec :: string
  env_surface :: string
  env_snapshot :: string
  env_scenario :: string
  env_clock :: string
  env_entropy :: string

record trace_entry =
  te_step :: string
  te_tool :: string
  te_input :: json
  te_result :: json
  te_errorClass :: string
  te_before :: string
  te_after :: string
  te_callIndex :: int

record assertion_result =
  ar_step :: string
  ar_path :: string
  ar_operator :: string
  ar_expected :: json
  ar_actual :: json
  ar_passed :: bool
  ar_message :: string

record report =
  rp_name :: string
  rp_passed :: bool
  rp_environment :: environment
  rp_environmentDigest :: string
  rp_initial :: string
  rp_terminal :: string
  rp_trace :: "trace_entry list"
  rp_diff :: "change list"
  rp_assertions :: "assertion_result list"
  rp_invariants :: "string list"
  rp_unsupported :: int
  rp_failures :: "string list"

definition environment_json :: "environment \<Rightarrow> json" where
  "environment_json e = JObj
     [(''format'', JStr ''statetwin.dev/environment/v1alpha1''), (''runtimeSemanticVersion'', JStr (env_version e)),
      (''specDigest'', JStr (env_spec e)), (''surfaceDigest'', JStr (env_surface e)), (''snapshotDigest'', JStr (env_snapshot e)),
      (''scenarioDigest'', JStr (env_scenario e)), (''seed'', JNum 0), (''clockInitial'', JStr (env_clock e)),
      (''entropyProfileDigest'', JStr (env_entropy e)), (''schedulerPolicy'', JStr ''deterministic-queue-v2''),
      (''faultProfile'', JStr ''none''), (''limitProfileDigest'', JStr limits_Digest)]"

definition trace_json :: "trace_entry \<Rightarrow> json" where
  "trace_json t = JObj (
     [(''stepId'', JStr (te_step t)), (''tool'', JStr (te_tool t)), (''input'', te_input t), (''result'', te_result t)] @
     str_field ''errorClass'' (te_errorClass t) @
     [(''beforeDigest'', JStr (te_before t)), (''afterDigest'', JStr (te_after t)), (''callIndex'', JNum (te_callIndex t))])"

definition result_json :: "assertion_result \<Rightarrow> json" where
  "result_json a = JObj (
     str_field ''stepId'' (ar_step a) @
     [(''path'', JStr (ar_path a)), (''operator'', JStr (ar_operator a)), (''expected'', ar_expected a),
      (''actual'', ar_actual a), (''passed'', JBool (ar_passed a))] @
     str_field ''message'' (ar_message a))"

definition report_json :: "report \<Rightarrow> json" where
  "report_json r = JObj
     [(''format'', JStr ''statetwin.dev/scenario-report/v1alpha1''), (''scenarioName'', JStr (rp_name r)),
      (''agentIdentity'', JStr ''scripted-scenario''), (''passed'', JBool (rp_passed r)),
      (''environment'', environment_json (rp_environment r)), (''environmentDigest'', JStr (rp_environmentDigest r)),
      (''initialStateDigest'', JStr (rp_initial r)), (''terminalStateDigest'', JStr (rp_terminal r)),
      (''orderedToolTrace'', JArr (map trace_json (rp_trace r))), (''stateDiff'', JArr (map change_json (rp_diff r))),
      (''assertions'', JArr (map result_json (rp_assertions r))), (''declaredInvariantIds'', JArr (map JStr (rp_invariants r))),
      (''configuredFaults'', JArr []), (''firedFaults'', JArr []), (''unsupportedBehaviors'', JNum (rp_unsupported r)),
      (''failures'', JArr (map JStr (rp_failures r)))]"

section \<open>Assertions\<close>

definition assertion_result :: "string \<Rightarrow> json \<Rightarrow> assertion \<Rightarrow> assertion_result" where
  "assertion_result stepID state a =
     (let mk = (\<lambda>actual passed message. \<lparr>ar_step = stepID, ar_path = as_path a, ar_operator = as_operator a,
            ar_expected = as_value a, ar_actual = actual, ar_passed = passed,
            ar_message = (if \<not> passed \<and> message = [] then ''assertion did not match'' else message)\<rparr>)
      in case resolvePointer state (as_path a) of
           Inl e \<Rightarrow> mk JNull False e
         | Inr found \<Rightarrow>
             let actual = (case found of None \<Rightarrow> JNull | Some v \<Rightarrow> v) in
             if as_operator a = ''exists'' then mk actual (found \<noteq> None) []
             else if as_operator a = ''absent'' then mk actual (found = None) []
             else if as_operator a = ''equals'' \<and> found \<noteq> None then
               mk actual (canonical_JSON actual = canonical_JSON (as_value a)) []
             else mk actual False ''path does not exist'')"

definition failure_text :: "assertion \<Rightarrow> string" where
  "failure_text a = ''assertion '' @ as_path a @ '' '' @ as_operator a @ '' failed''"

fun appendAssertions :: "string \<Rightarrow> json \<Rightarrow> assertion list \<Rightarrow> report \<Rightarrow> bool \<times> report" where
  "appendAssertions stepID state [] report = (True, report)"
| "appendAssertions stepID state (a # as) report =
     (let result = assertion_result stepID state a;
          failures = (if ar_passed result then rp_failures report else rp_failures report @ [failure_text a]);
          (ok, report') = appendAssertions stepID state as
             (report\<lparr>rp_failures := failures, rp_assertions := rp_assertions report @ [result]\<rparr>)
      in (ar_passed result \<and> ok, report'))"

section \<open>Running a scenario\<close>

datatype run_error =
    NoTwin
  | NoScenario
  | InvalidScenario "string list"
  | LoadFailed engine_error
  | StoreFailed error
  | StepFailed string error
  | TraceTooLarge
  | ReportTooLarge limit_error

definition store_result :: "(error + 'a) \<times> db \<Rightarrow> run_error + 'a \<times> db" where
  "store_result r = (case fst r of Inl e \<Rightarrow> Inl (StoreFailed e) | Inr x \<Rightarrow> Inr (x, snd r))"

definition read_branch :: "string \<Rightarrow> db \<Rightarrow> run_error + branch" where
  "read_branch bid d = (case Branch bid d of Inl e \<Rightarrow> Inl (StoreFailed e) | Inr b \<Rightarrow> Inr b)"

definition trace_entry_of :: "step \<Rightarrow> apply_result \<Rightarrow> trace_entry" where
  "trace_entry_of s r = \<lparr>te_step = st_id s, te_tool = st_tool s, te_input = record_json (st_input s), te_result = ar_result r,
     te_errorClass = ar_errorClass r, te_before = ar_before r, te_after = ar_after r, te_callIndex = ar_callIndex r\<rparr>"

definition record_call :: "step \<Rightarrow> apply_result \<Rightarrow> report \<Rightarrow> report" where
  "record_call s r report = report\<lparr>rp_trace := rp_trace report @ [trace_entry_of s r],
     rp_unsupported := rp_unsupported report + (if ar_errorClass r = ''UNMODELED_BEHAVIOR'' then 1 else 0)\<rparr>"

definition mismatch_text :: "step \<Rightarrow> string \<Rightarrow> string" where
  "mismatch_text s cls = ''step '' @ st_id s @ '': errorClass '' @ quote cls @ '', expected '' @ quote (st_errorClass s)"

fun run_steps :: "libs \<Rightarrow> runtime \<Rightarrow> step list \<Rightarrow> nat \<Rightarrow> report \<Rightarrow> db \<Rightarrow> run_error + report \<times> db" where
  "run_steps l r [] traceBytes report d = Inr (report, d)"
| "run_steps l r (s # ss) traceBytes report d =
     (case engine_Call l r ''scenario'' (st_tool s) (st_input s) d of
        (Inl e, _) \<Rightarrow> Inl (StepFailed (st_id s) e)
      | (Inr result, d1) \<Rightarrow>
          let traceBytes' = traceBytes + length (canonical_JSON (trace_json (trace_entry_of s result)));
              report1 = record_call s result report
          in if traceBytes' > 16777216 then Inl TraceTooLarge
             else if ar_errorClass result \<noteq> st_errorClass s then
               Inr (report1\<lparr>rp_passed := False,
                     rp_failures := rp_failures report1 @ [mismatch_text s (ar_errorClass result)]\<rparr>, d1)
             else bindE (read_branch ''scenario'' d1) (\<lambda>branch.
               let (ok, report2) = appendAssertions (st_id s) (CELValue (b_state branch)) (st_assertions s) report1
               in if ok then run_steps l r ss traceBytes' report2 d1
                  else Inr (report2\<lparr>rp_passed := False\<rparr>, d1)))"

definition entropy_digest :: "twin_spec \<Rightarrow> string" where
  "entropy_digest twin = (case tw_entropy twin of
     None \<Rightarrow> ''none''
   | Some e \<Rightarrow> canonical_Digest (JObj (str_field ''algorithm'' (en_algorithm e) @ str_field ''seed'' (en_seed e))))"

definition environment_of :: "runtime \<Rightarrow> snapshot \<Rightarrow> scenario \<Rightarrow> string \<Rightarrow> environment" where
  "environment_of r base s version =
     \<lparr>env_version = version, env_spec = rt_digest r, env_surface = rt_surface r, env_snapshot = s_id base,
      env_scenario = scenario_Digest s, env_clock = tw_clockInitial (rt_spec r), env_entropy = entropy_digest (rt_spec r)\<rparr>"

definition initial_report :: "runtime \<Rightarrow> snapshot \<Rightarrow> scenario \<Rightarrow> string \<Rightarrow> report" where
  "initial_report r base s version =
     (let env = environment_of r base s version in
      \<lparr>rp_name = sc_name s, rp_passed = True, rp_environment = env, rp_environmentDigest = canonical_Digest (environment_json env),
       rp_initial = s_digest base, rp_terminal = [], rp_trace = [], rp_diff = [], rp_assertions = [],
       rp_invariants = map iv_id (tw_invariants (rt_spec r)), rp_unsupported = 0, rp_failures = []\<rparr>)"

text \<open>The final assertions, checked only when no step has failed.\<close>

definition final_report :: "scenario \<Rightarrow> branch \<Rightarrow> report \<Rightarrow> report" where
  "final_report s terminal report =
     (if rp_passed report then
        (case appendAssertions [] (CELValue (b_state terminal)) (sc_final s) report of
           (ok, report') \<Rightarrow> if ok then report' else report'\<lparr>rp_passed := False\<rparr>)
      else report)"

definition finish_report :: "scenario \<Rightarrow> report \<Rightarrow> db \<Rightarrow> run_error + report" where
  "finish_report s report d =
     bindE (read_branch ''scenario'' d) (\<lambda>terminal.
       case DiffBranches ''scenario-baseline'' ''scenario'' d of
         Inl e \<Rightarrow> Inl (StoreFailed e)
       | Inr changes \<Rightarrow>
           let report' = (final_report s terminal report)\<lparr>rp_terminal := b_digest terminal, rp_diff := changes\<rparr>
           in (case ValidateJSON (report_json report') MaxReportBytes of
                 Inl e \<Rightarrow> Inl (ReportTooLarge e) | Inr _ \<Rightarrow> Inr report'))"

definition scenario_Run :: "libs \<Rightarrow> twin_spec option \<Rightarrow> world_state option \<Rightarrow> scenario option \<Rightarrow> string \<Rightarrow> run_error + report" where
  "scenario_Run l twin initial scenario version =
     (if twin = None then Inl NoTwin
      else case scenario of
        None \<Rightarrow> Inl NoScenario
      | Some s0 \<Rightarrow>
          let (problems, s) = scenario_Validate s0 in
          if problems \<noteq> [] then Inl (InvalidScenario problems)
          else case engine_New l twin of
            Inl e \<Rightarrow> Inl (LoadFailed e)
          | Inr r \<Rightarrow>
              let state = (case initial of None \<Rightarrow> New | Some w \<Rightarrow> Clone w) in
              bindE (store_result (Initialize r ''scenario'' state empty_db)) (\<lambda>(_, d1).
              bindE (store_result (CreateSnapshot ''scenario-base'' ''scenario'' d1)) (\<lambda>(base, d2).
              bindE (store_result (Fork ''scenario-base'' ''scenario-baseline'' d2)) (\<lambda>(_, d3).
              bindE (run_steps l r (sc_steps s) 0 (initial_report r base s version) d3) (\<lambda>(report, d4).
              finish_report s report d4)))))"

end
