(* ===== verification/Scenario_Facts.thy ===== *)
theory Scenario_Facts
  imports Engine_Props Scenario
begin

text \<open>
  What a scenario run guarantees: the pointers of a difference are read back, the trace is a chain
  of states, the verdict agrees with the failures; and a bound on the size of a JSON text.
\<close>

section \<open>Pointers\<close>

lemma split_on_append: "c \<notin> set xs \<Longrightarrow> split_on c (xs @ c # ys) = xs # split_on c ys"
  by (induction xs) auto

lemma split_on_none: "c \<notin> set xs \<Longrightarrow> split_on c xs = [xs]"
  by (induction xs) auto

lemma slash_escape: "CHR ''/'' \<notin> set (escapePointer k)"
  by (induction k) (auto simp: escapePointer_def)

lemma unescape_char: "c \<noteq> CHR ''~'' \<Longrightarrow> unescape (c # s) = map_option ((#) c) (unescape s)"
  by (cases s) auto

lemma unescape_escape: "unescape (escapePointer k) = Some k"
  by (induction k) (auto simp: escapePointer_def unescape_char)

definition pointer_of :: "string list \<Rightarrow> string" where
  "pointer_of ks = concat (map (\<lambda>k. CHR ''/'' # escapePointer k) ks)"

lemma pointer_of_child: "pointer_of (ks @ [k]) = child (pointer_of ks) k"
  by (simp add: pointer_of_def child_def)

lemma split_pointer: "split_on (CHR ''/'') (escapePointer k @ pointer_of ks) = escapePointer k # map escapePointer ks"
proof (induction ks arbitrary: k)
  case Nil
  then show ?case by (simp add: pointer_of_def split_on_none slash_escape)
next
  case (Cons k' ks)
  then show ?case
    using split_on_append [OF slash_escape, of k "escapePointer k' @ pointer_of ks"] by (simp add: pointer_of_def)
qed

lemma unescape_all_escape: "unescape_all (map escapePointer ks) = Some ks"
  by (induction ks) (auto simp: unescape_escape)

lemma pointerSegments_pointer_of: "ks \<noteq> [] \<Longrightarrow> pointerSegments (pointer_of ks) = Inr ks"
  using split_pointer [of "hd ks" "tl ks"] unescape_all_escape [of ks]
  by (cases ks) (auto simp: pointer_of_def pointerSegments_def)

lemma validateJSONValue_iff: "validateJSONValue v d \<longleftrightarrow> d + json_depth v \<le> MaxJSONDepth"
proof (induction v arbitrary: d)
  case (JArr xs)
  then show ?case
    unfolding validateJSONValue.simps json_depth.simps depth_shift by (auto simp: list_all_iff)
next
  case (JObj kvs)
  then show ?case
    unfolding validateJSONValue.simps json_depth.simps depth_shift by (fastforce simp: list_all_iff)
qed auto

section \<open>Assertions\<close>

lemma appendAssertions_spec:
  assumes "appendAssertions sid state as rep = (ok, rep')"
  shows "rp_assertions rep' = rp_assertions rep @ map (assertion_result sid state) as \<and>
    (ok \<longleftrightarrow> list_all (\<lambda>a. ar_passed (assertion_result sid state a)) as) \<and>
    rp_failures rep' = rp_failures rep @ map failure_text (filter (\<lambda>a. \<not> ar_passed (assertion_result sid state a)) as) \<and>
    rp_trace rep' = rp_trace rep \<and> rp_passed rep' = rp_passed rep \<and> rp_initial rep' = rp_initial rep"
  using assms
proof (induction as arbitrary: rep ok)
  case (Cons a as)
  let ?r = "assertion_result sid state a"
  let ?rep = "rep\<lparr>rp_failures := (if ar_passed ?r then rp_failures rep else rp_failures rep @ [failure_text a]),
     rp_assertions := rp_assertions rep @ [?r]\<rparr>"
  obtain ok1 where 1: "appendAssertions sid state as ?rep = (ok1, rep')" "ok = (ar_passed ?r \<and> ok1)"
    using Cons.prems by (auto simp: Let_def split: prod.splits)
  show ?case using Cons.IH [OF 1(1)] 1(2) by auto
qed auto

lemma failures_same: "appendAssertions sid state as rep = (ok, rep') \<Longrightarrow> ok \<longleftrightarrow> rp_failures rep' = rp_failures rep"
  by (drule appendAssertions_spec) (auto simp: list_all_iff filter_empty_conv)

section \<open>The trace is a chain\<close>

fun chained :: "string \<Rightarrow> trace_entry list \<Rightarrow> string \<Rightarrow> bool" where
  "chained d [] d' = (d = d')"
| "chained d (t # ts) d' = (te_before t = d \<and> chained (te_after t) ts d')"

lemma chained_snoc: "chained d (ts @ [t]) d' \<longleftrightarrow> chained d ts (te_before t) \<and> te_after t = d'"
  by (induction ts arbitrary: d) auto

definition run_inv :: "string \<Rightarrow> report \<Rightarrow> db \<Rightarrow> bool" where
  "run_inv init rep d \<longleftrightarrow> db_ok d \<and>
     (\<forall>b. Branch ''scenario'' d = Inr b \<longrightarrow> chained init (rp_trace rep) (b_digest b) \<and> b_calls b = int (length (rp_trace rep))) \<and>
     map te_callIndex (rp_trace rep) = map (\<lambda>i. int i + 1) [0..<length (rp_trace rep)]"

lemma run_inv_assertions:
  "run_inv init rep d \<Longrightarrow> appendAssertions sid state as rep = (ok, rep') \<Longrightarrow> run_inv init rep' d"
  by (drule appendAssertions_spec) (simp add: run_inv_def)

lemma run_inv_call:
  assumes "run_inv init rep d" "engine_Call l r ''scenario'' tool input d = (Inr res, d1)"
    and "te_before t = ar_before res" "te_after t = ar_after res" "te_callIndex t = ar_callIndex res"
  shows "run_inv init (rep\<lparr>rp_trace := rp_trace rep @ [t], rp_unsupported := u\<rparr>) d1"
  using assms(2)
proof (rule engine_Call_Inr)
  fix tl
  assume call: "ApplyCall ''scenario'' (rt_digest r) tool (record_json input) (engine_callback l r tl (record_json input)) d = (Inr res, d1)"
  have ok: "db_ok d" "db_ok d1"
    using assms(1) db_ok_ApplyCall [OF call] by (simp_all add: run_inv_def)
  from call ok(1) show ?thesis
  proof (rule ApplyCall_row)
    fix b working row
    assume b: "Branch ''scenario'' d = Inr b"
      and row: "branch_where ''scenario'' d = Some row" "branch_where ''scenario'' d1 = Some (row\<lparr>br_state := working,
         br_digest := state_digest working, br_calls := br_calls row + 1, br_head := br_head row + 1\<rparr>)"
      and res: "ar_after res = state_digest working" "ar_before res = b_digest b" "ar_callIndex res = b_calls b + 1"
    have calls: "br_calls row = b_calls b"
      by (rule Branch_Inr [OF b ok(1)]) (use row(1) in simp)
    have next_b: "b_digest b1 = state_digest working \<and> b_calls b1 = b_calls b + 1" if "Branch ''scenario'' d1 = Inr b1" for b1
      by (rule Branch_Inr [OF that ok(2)]) (use row(2) calls in simp)
    show ?thesis
      using assms(1,3-5) b res next_b ok(2) by (auto simp: run_inv_def chained_snoc)
  qed
qed

lemma run_steps_cases:
  assumes "run_steps l r (s # ss) n rep d = Inr (rep', d')"
  obtains (mismatch) res where "engine_Call l r ''scenario'' (st_tool s) (st_input s) d = (Inr res, d')"
      "ar_errorClass res \<noteq> st_errorClass s" "rep' = (record_call s res rep)\<lparr>rp_passed := False,
         rp_failures := rp_failures (record_call s res rep) @ [mismatch_text s (ar_errorClass res)]\<rparr>"
  | (failed) res b rep2 where "engine_Call l r ''scenario'' (st_tool s) (st_input s) d = (Inr res, d')"
      "ar_errorClass res = st_errorClass s" "Branch ''scenario'' d' = Inr b"
      "appendAssertions (st_id s) (CELValue (b_state b)) (st_assertions s) (record_call s res rep) = (False, rep2)"
      "rep' = rep2\<lparr>rp_passed := False\<rparr>"
  | (cont) res d1 b rep2 m where "engine_Call l r ''scenario'' (st_tool s) (st_input s) d = (Inr res, d1)"
      "ar_errorClass res = st_errorClass s" "Branch ''scenario'' d1 = Inr b"
      "appendAssertions (st_id s) (CELValue (b_state b)) (st_assertions s) (record_call s res rep) = (True, rep2)"
      "run_steps l r ss m rep2 d1 = Inr (rep', d')"
proof -
  obtain res d1 where call: "engine_Call l r ''scenario'' (st_tool s) (st_input s) d = (Inr res, d1)"
    using assms by (auto split: prod.splits sum.splits)
  show thesis
  proof (cases "ar_errorClass res = st_errorClass s")
    case False
    with assms call show thesis by (auto simp: Let_def split: if_splits intro: mismatch)
  next
    case True
    with assms call obtain b where b: "Branch ''scenario'' d1 = Inr b"
      by (auto simp: Let_def read_branch_def split: if_splits sum.splits)
    obtain ok rep2 where rep2: "appendAssertions (st_id s) (CELValue (b_state b)) (st_assertions s) (record_call s res rep) = (ok, rep2)"
      by (cases "appendAssertions (st_id s) (CELValue (b_state b)) (st_assertions s) (record_call s res rep)") auto
    show thesis
    proof (cases ok)
      case ok: True
      then show thesis using assms call True b rep2
        by (auto simp: Let_def read_branch_def split: if_splits intro: cont)
    next
      case nok: False
      then show thesis using assms call True b rep2
        by (auto simp: Let_def read_branch_def split: if_splits intro: failed)
    qed
  qed
qed

lemma run_inv_flags: "run_inv init (rep\<lparr>rp_passed := p\<rparr>) d = run_inv init rep d"
  "run_inv init (rep\<lparr>rp_passed := p, rp_failures := f\<rparr>) d = run_inv init rep d"
  by (simp_all add: run_inv_def)

lemma run_inv_record:
  "run_inv init rep d \<Longrightarrow> engine_Call l r ''scenario'' tool input d = (Inr res, d1) \<Longrightarrow> run_inv init (record_call s res rep) d1"
  unfolding record_call_def by (rule run_inv_call) (simp_all add: trace_entry_of_def)

lemma run_steps_inv:
  assumes "run_steps l r ss n rep d = Inr (rep', d')" "run_inv init rep d"
  shows "run_inv init rep' d'"
  using assms
proof (induction ss arbitrary: n rep d)
  case (Cons s ss)
  note rec = run_inv_record [OF Cons.prems(2)]
  from Cons.prems(1) show ?case
  proof (cases rule: run_steps_cases)
    case (mismatch res)
    then show ?thesis using rec by (simp only: run_inv_flags)
  next
    case (failed res b rep2)
    then show ?thesis using run_inv_assertions [OF rec failed(4)] by (simp only: run_inv_flags)
  next
    case (cont res d1 b rep2 m)
    then show ?thesis using run_inv_assertions [OF rec cont(4)] by (intro Cons.IH [OF cont(5)]) simp
  qed
qed simp

section \<open>The verdict\<close>

definition clean :: "report \<Rightarrow> bool" where
  "clean rep \<longleftrightarrow> rp_passed rep \<and> rp_failures rep = [] \<and> list_all ar_passed (rp_assertions rep)"

definition verdict_ok :: "report \<Rightarrow> bool" where
  "verdict_ok rep \<longleftrightarrow> (if rp_passed rep then clean rep else rp_failures rep \<noteq> [])"

lemma clean_assertions:
  assumes "appendAssertions sid state as rep = (ok, rep')" "clean rep"
  shows "if ok then clean rep' else rp_failures rep' \<noteq> []"
  using appendAssertions_spec [OF assms(1)] assms(2)
  by (auto simp: clean_def list_all_iff filter_empty_conv)

lemma run_steps_verdict:
  assumes "run_steps l r ss n rep d = Inr (rep', d')" "clean rep"
  shows "verdict_ok rep' \<and> (\<exists>ts. rp_trace rep' = rp_trace rep @ ts \<and> map te_step ts = map st_id (take (length ts) ss) \<and> length ts \<le> length ss \<and>
    (rp_passed rep' \<longrightarrow> map te_errorClass ts = map st_errorClass ss))"
  using assms
proof (induction ss arbitrary: n rep d)
  case (Cons s ss)
  have rec: "clean (record_call s res rep)" for res
    using Cons.prems(2) by (simp add: clean_def record_call_def)
  have tr: "rp_trace (record_call s res rep) = rp_trace rep @ [trace_entry_of s res]" for res
    by (simp add: record_call_def)
  from Cons.prems(1) show ?case
  proof (cases rule: run_steps_cases)
    case (mismatch res)
    then show ?thesis
      by (intro conjI exI [of _ "[trace_entry_of s res]"]) (simp_all add: verdict_ok_def tr trace_entry_of_def)
  next
    case (failed res b rep2)
    then show ?thesis
      using clean_assertions [OF failed(4) rec] appendAssertions_spec [OF failed(4)]
      by (intro conjI exI [of _ "[trace_entry_of s res]"]) (simp_all add: verdict_ok_def tr trace_entry_of_def)
  next
    case (cont res d1 b rep2 m)
    have "clean rep2" "rp_trace rep2 = rp_trace rep @ [trace_entry_of s res]"
      using clean_assertions [OF cont(4) rec] appendAssertions_spec [OF cont(4)] by (simp_all add: tr)
    moreover from Cons.IH [OF cont(5) this(1)] obtain ts where ts: "verdict_ok rep'" "rp_trace rep' = rp_trace rep2 @ ts"
      "map te_step ts = map st_id (take (length ts) ss)" "length ts \<le> length ss"
      "rp_passed rep' \<longrightarrow> map te_errorClass ts = map st_errorClass ss" by blast
    ultimately show ?thesis
      using cont(2) by (intro conjI exI [of _ "trace_entry_of s res # ts"]) (simp_all add: trace_entry_of_def)
  qed
qed (simp add: verdict_ok_def clean_def)

lemma finish_report_Inr:
  assumes "finish_report s rep d = Inr rep'"
  obtains b changes where "Branch ''scenario'' d = Inr b" "DiffBranches ''scenario-baseline'' ''scenario'' d = Inr changes"
    "rep' = (final_report s b rep)\<lparr>rp_terminal := b_digest b, rp_diff := changes\<rparr>"
    "ValidateJSON (report_json rep') MaxReportBytes = Inr ()"
  using assms unfolding finish_report_def read_branch_def Let_def
  by (auto split: sum.splits)

lemma final_report_cases:
  obtains (kept) "\<not> rp_passed rep" "final_report s b rep = rep"
  | (checked) ok rep2 where "rp_passed rep" "appendAssertions [] (CELValue (b_state b)) (sc_final s) rep = (ok, rep2)"
      "final_report s b rep = (if ok then rep2 else rep2\<lparr>rp_passed := False\<rparr>)"
  by (cases "appendAssertions [] (CELValue (b_state b)) (sc_final s) rep"; cases "rp_passed rep")
    (auto simp: final_report_def)

lemma final_report_verdict: "verdict_ok rep \<Longrightarrow> verdict_ok (final_report s b rep)"
proof (cases rule: final_report_cases [of rep s b])
  case (checked ok rep2)
  assume "verdict_ok rep"
  with checked clean_assertions [OF checked(2)] show ?thesis
    by (auto simp: verdict_ok_def clean_def)
qed simp

lemma final_report_trace: "rp_trace (final_report s b rep) = rp_trace rep" "rp_initial (final_report s b rep) = rp_initial rep"
  "rp_passed (final_report s b rep) \<Longrightarrow> rp_passed rep"
  by (cases rule: final_report_cases [of rep s b]; auto dest: appendAssertions_spec split: if_splits)+

section \<open>A run\<close>

lemma scenario_Run_Inr:
  assumes "scenario_Run l twin initial sc version = Inr rep"
  obtains tw s r u d1 base d2 u' d3 rep1 d4 where "twin = Some tw" "sc = Some s" "scenario_problems s = []" "engine_New l (Some tw) = Inr r"
    "Initialize r ''scenario'' (case initial of None \<Rightarrow> New | Some w \<Rightarrow> Clone w) empty_db = (Inr u, d1)"
    "CreateSnapshot ''scenario-base'' ''scenario'' d1 = (Inr base, d2)"
    "Fork ''scenario-base'' ''scenario-baseline'' d2 = (Inr u', d3)"
    "run_steps l r (sc_steps (normalize_steps s)) 0 (initial_report r base (normalize_steps s) version) d3 = Inr (rep1, d4)"
    "finish_report (normalize_steps s) rep1 d4 = Inr rep"
proof -
  obtain tw s r where 1: "twin = Some tw" "sc = Some s" "scenario_problems s = []" "engine_New l (Some tw) = Inr r"
    using assms unfolding scenario_Run_def by (auto split: if_splits option.splits sum.splits simp: scenario_Validate_def)
  have store: "store_result f = Inr y \<longleftrightarrow> f = (Inr (fst y), snd y)" for f :: "(error + 'a) \<times> db" and y
    by (cases f; cases y) (auto simp: store_result_def split: sum.splits)
  show thesis
    using assms 1 that [OF 1] unfolding scenario_Run_def scenario_Validate_def by (auto simp: store)
qed

lemma wf_ensureEntities: "wf_state s \<Longrightarrow> wf_state (ensureEntities ns s)"
proof (induction ns arbitrary: s)
  case (Cons n ns)
  have "wf_state (s\<lparr>Entities := put n [] (Entities s)\<rparr>)"
    using wf_set_entities [OF Cons.prems, of "[]" n] by (simp add: set_entities_def)
  then show ?case using Cons by (simp add: ensureEntities_def)
qed (simp add: ensureEntities_def)

lemma run_steps_initial: "run_steps l r ss n rep d = Inr (rep', d') \<Longrightarrow> rp_initial rep' = rp_initial rep"
proof (induction ss arbitrary: n rep d)
  case (Cons s ss)
  have rec: "rp_initial (record_call s res rep) = rp_initial rep" for res
    by (simp add: record_call_def)
  from Cons.prems show ?case
  proof (cases rule: run_steps_cases)
    case (cont res d1 b rep2 m)
    then show ?thesis using Cons.IH [OF cont(5)] appendAssertions_spec [OF cont(4)] rec by simp
  next
    case (failed res b rep2)
    then show ?thesis using appendAssertions_spec [OF failed(4)] rec by simp
  qed (simp add: rec)
qed simp

lemma scenario_Run_chain:
  assumes "scenario_Run l (Some tw) initial sc version = Inr rep"
    and "\<And>c z. parse_nano (tw_clockInitial tw) = Some (c, z) \<Longrightarrow> 0 \<le> c \<and> c < max_instant"
    and "\<And>w. initial = Some w \<Longrightarrow> wf_state w"
  shows "chained (rp_initial rep) (rp_trace rep) (rp_terminal rep) \<and>
    map te_callIndex (rp_trace rep) = map (\<lambda>i. int i + 1) [0..<length (rp_trace rep)]"
  using assms(1)
proof (rule scenario_Run_Inr)
  fix tw' s r u d1 base d2 u' d3 rep1 d4
  let ?state = "case initial of None \<Rightarrow> New | Some w \<Rightarrow> Clone w"
  let ?rep0 = "initial_report r base (normalize_steps s) version"
  assume tw: "Some tw = Some tw'" and new: "engine_New l (Some tw') = Inr r"
    and init: "Initialize r ''scenario'' ?state empty_db = (Inr u, d1)"
    and base: "CreateSnapshot ''scenario-base'' ''scenario'' d1 = (Inr base, d2)"
    and fork: "Fork ''scenario-base'' ''scenario-baseline'' d2 = (Inr u', d3)"
    and run: "run_steps l r (sc_steps (normalize_steps s)) 0 ?rep0 d3 = Inr (rep1, d4)"
    and fin: "finish_report (normalize_steps s) rep1 d4 = Inr rep"
  have [simp]: "rt_spec r = tw" using engine_New_Inr [OF new] tw by simp
  have wf: "wf_state ?state"
    using assms(3) by (auto split: option.splits intro: wf_state_Clone)
  obtain c z where c: "parse_nano (tw_clockInitial tw) = Some (c, z)"
    and ib: "InitializeBranch ''scenario'' (rt_digest r) (ensureEntities (map fst (tw_entities tw)) ?state) c empty_db = (Inr u, d1)"
    using init unfolding Initialize_def by (auto split: option.splits)
  have d1: "db_ok d1"
    using ib wf_ensureEntities [OF wf] assms(2) [OF c] by (intro db_ok_InitializeBranch [OF ib]) simp_all
  have d3: "db_ok d3"
    using db_ok_Fork [OF fork db_ok_CreateSnapshot [OF base d1]] .
  have row: "\<exists>row. branch_where ''scenario'' d1 = Some row \<and> br_calls row = 0"
    using ib by (rule InitializeBranch_Inr) (auto simp: empty_db_def row_exists_def branch_where_def)
  have kept: "branch_where ''scenario'' d3 = branch_where ''scenario'' d1"
  proof -
    have "branches d2 = branches d1"
      using base by (rule CreateSnapshot_Inr) simp
    moreover have "branch_where ''scenario'' d3 = branch_where ''scenario'' d2"
      using fork by (rule Fork_Inr) (simp add: branch_where_def find_row_append split: option.split)
    ultimately show ?thesis by (simp add: branch_where_def)
  qed
  obtain b where b: "Branch ''scenario'' d1 = Inr b" "s_digest base = b_digest b"
    using base by (rule CreateSnapshot_Inr) (simp add: Branch_def)
  have calls: "b_calls b = 0"
    using row by (rule exE) (rule Branch_Inr [OF b(1) d1], simp)
  have "run_inv (rp_initial ?rep0) ?rep0 d3"
    using d3 b calls kept by (simp add: run_inv_def Branch_def initial_report_def Let_def)
  then have inv: "run_inv (rp_initial ?rep0) rep1 d4"
    using run by (rule run_steps_inv [rotated])
  have initial: "rp_initial rep1 = rp_initial ?rep0"
    using run by (rule run_steps_initial)
  from fin show ?thesis
    by (rule finish_report_Inr) (use inv initial in \<open>simp add: run_inv_def final_report_trace\<close>)
qed

lemma scenario_Run_verdict:
  assumes "scenario_Run l tw initial (Some s) version = Inr rep"
  shows "map te_step (rp_trace rep) = map st_id (take (length (rp_trace rep)) (sc_steps s)) \<and>
    (rp_passed rep \<longleftrightarrow> rp_failures rep = []) \<and>
    (rp_passed rep \<longrightarrow> map te_errorClass (rp_trace rep) = map st_errorClass (sc_steps s) \<and> list_all ar_passed (rp_assertions rep))"
  using assms
proof (rule scenario_Run_Inr)
  fix tw' s' r u d1 base d2 u' d3 rep1 d4
  assume s: "Some s = Some s'"
    and run: "run_steps l r (sc_steps (normalize_steps s')) 0 (initial_report r base (normalize_steps s') version) d3 = Inr (rep1, d4)"
    and fin: "finish_report (normalize_steps s') rep1 d4 = Inr rep"
  have norm: "map st_id (sc_steps (normalize_steps s')) = map st_id (sc_steps s)"
    "map st_errorClass (sc_steps (normalize_steps s')) = map st_errorClass (sc_steps s)"
    using s by (simp_all add: normalize_steps_def)
  have norm3: "map st_id (take n (sc_steps (normalize_steps s'))) = map st_id (take n (sc_steps s))" for n
    unfolding take_map [symmetric] norm(1) ..
  have c0: "clean (initial_report r base (normalize_steps s') version)" "rp_trace (initial_report r base (normalize_steps s') version) = []"
    by (simp_all add: clean_def initial_report_def Let_def)
  obtain ts where 1: "verdict_ok rep1" "rp_trace rep1 = ts" "map te_step ts = map st_id (take (length ts) (sc_steps (normalize_steps s')))"
      "rp_passed rep1 \<longrightarrow> map te_errorClass ts = map st_errorClass (sc_steps (normalize_steps s'))"
    using run_steps_verdict [OF run c0(1)] c0(2) by auto
  from fin show ?thesis
  proof (rule finish_report_Inr)
    fix b changes
    assume rep: "rep = (final_report (normalize_steps s') b rep1)\<lparr>rp_terminal := b_digest b, rp_diff := changes\<rparr>"
    have "verdict_ok (final_report (normalize_steps s') b rep1)"
      using 1(1) by (rule final_report_verdict)
    then show ?thesis
      using 1(2-4) final_report_trace(3) [of "normalize_steps s'" b rep1] norm(2)
      by (auto simp: rep final_report_trace(1,2) norm3 verdict_ok_def clean_def split: if_splits)
  qed
qed

section \<open>The size of a text\<close>

primrec json_weight :: "json \<Rightarrow> nat" where
  "json_weight JNull = 4"
| "json_weight (JBool b) = 5"
| "json_weight (JNum n) = length (dec_int n)"
| "json_weight (JStr s) = 6 * length s + 2"
| "json_weight (JArr xs) = 2 + sum_list (map Suc (map json_weight xs))"
| "json_weight (JObj kvs) = 2 + sum_list (map (\<lambda>(k, w). 6 * length k + w + 4) (map (map_prod id json_weight) kvs))"

lemma length_escape_char: "length (escape_char c) \<le> 6"
  by (simp add: escape_char_def u00_def Let_def)

lemma length_escape_text: "length (escape_text s) \<le> 6 * length s"
proof (induction s rule: escape_text.induct)
  case (2 c cs)
  obtain r n where rn: "decode_rune (c # cs) = (r, n)" by force
  show ?case
  proof (cases "n = 1")
    case True
    have "length (escape_text cs) \<le> 6 * length cs" using 2(1) [OF rn [symmetric] refl True] .
    then show ?thesis using rn True length_escape_char [of c] by (auto simp: Let_def)
  next
    case False
    have ih: "length (escape_text (drop (n - 1) cs)) \<le> 6 * length (drop (n - 1) cs)"
      by (rule 2(2) [OF rn [symmetric] refl False])
    show ?thesis using ih rn False by (auto simp: Let_def min_def)
  qed
qed simp

lemma length_quote: "length (quote s) \<le> 6 * length s + 2"
  using length_escape_text [of s] by (simp add: quote_def)

lemma length_commas: "length (commas ss) \<le> sum_list (map (\<lambda>s. Suc (length s)) ss)"
  by (induction ss rule: commas.induct) auto

lemma length_json_text: "length (json_text v) \<le> json_weight v"
proof (induction v)
  case (JArr xs)
  have "sum_list (map (\<lambda>s. Suc (length s)) (map json_text xs)) \<le> sum_list (map Suc (map json_weight xs))"
    using JArr by (induction xs) (auto simp: add_mono)
  with length_commas [of "map json_text xs"] show ?case by simp
next
  case (JObj kvs)
  let ?f = "\<lambda>(k, s). quote k @ '':'' @ s"
  have "(\<Sum>kv\<leftarrow>kvs. Suc (length (quote (fst kv) @ '':'' @ json_text (snd kv)))) \<le> (\<Sum>kv\<leftarrow>kvs. 6 * length (fst kv) + json_weight (snd kv) + 4)"
  proof (rule sum_list_mono)
    fix kv assume "kv \<in> set kvs"
    then have "length (json_text (snd kv)) \<le> json_weight (snd kv)" by (rule JObj) (simp add: snds.simps prod_set_defs)
    then show "Suc (length (quote (fst kv) @ '':'' @ json_text (snd kv))) \<le> 6 * length (fst kv) + json_weight (snd kv) + 4"
      using length_quote [of "fst kv"] by simp
  qed
  then have "sum_list (map (\<lambda>s. Suc (length s)) (map ?f (map (map_prod id json_text) kvs)))
      \<le> sum_list (map (\<lambda>(k, w). 6 * length k + w + 4) (map (map_prod id json_weight) kvs))"
    by (simp add: comp_def split_def)
  with length_commas [of "map ?f (map (map_prod id json_text) kvs)"] show ?case by simp
qed (auto simp: length_quote [simplified])

lemma weight_put: "sum_list (map (\<lambda>(k, w). 6 * length k + f w + 4) (put k v m)) \<le>
    6 * length k + f v + 4 + sum_list (map (\<lambda>(k, w). 6 * length k + f w + (4::nat)) m)"
  by (induction k v m rule: put.induct) auto

lemma weight_to_gomap: "sum_list (map (\<lambda>(k, w). 6 * length k + f w + 4) (to_gomap kvs)) \<le> sum_list (map (\<lambda>(k, w). 6 * length k + f w + (4::nat)) kvs)"
proof -
  have "sum_list (map (\<lambda>(k, w). 6 * length k + f w + 4) (foldl (\<lambda>m (k, v). put k v m) m kvs)) \<le>
      sum_list (map (\<lambda>(k, w). 6 * length k + f w + (4::nat)) m) + sum_list (map (\<lambda>(k, w). 6 * length k + f w + 4) kvs)" for m
  proof (induction kvs arbitrary: m)
    case (Cons kv kvs)
    obtain k v where kv: "kv = (k, v)" by (cases kv)
    show ?case using Cons [of "put k v m"] weight_put [of f k v m] by (simp add: kv)
  qed simp
  from this [of "[]"] show ?thesis by (simp add: to_gomap_def)
qed

lemma weight_canon: "json_weight (canon v) \<le> json_weight v"
proof (induction v)
  case (JArr xs)
  then show ?case by (induction xs) (auto simp: add_mono)
next
  case (JObj kvs)
  have "sum_list (map (\<lambda>(k, w). 6 * length k + json_weight (canon w) + 4) kvs) \<le> sum_list (map (\<lambda>(k, w). 6 * length k + json_weight w + 4) kvs)"
    using JObj by (intro sum_list_mono) auto
  then show ?case
    using weight_to_gomap [of json_weight "map (map_prod id canon) kvs"]
    by (simp add: comp_def split_def)
qed auto

lemma length_canonical: "length (canonical_JSON v) \<le> json_weight v"
  unfolding canonical_JSON_def using length_json_text weight_canon le_trans by blast

end
