(* ===== verification/Scenario_Props.thy ===== *)
theory Scenario_Props
  imports Scenario_Facts
begin

text \<open>The properties of scenario runs, on a run of one step against the example runtime.\<close>

section \<open>An example run\<close>

definition ex_rt2 :: runtime where
  "ex_rt2 = ex_rt\<lparr>rt_digest := spec_Digest ex_twin\<rparr>"

text \<open>The state the run starts from.\<close>

definition ex_start :: world_state where
  "ex_start = New\<lparr>Entities := [(''order'', [])]\<rparr>"

definition ex_step :: step where
  "ex_step = \<lparr>st_id = ''one'', st_tool = ''never'', st_input = None, st_errorClass = ''NOT_FOUND'',
     st_assertions = [\<lparr>as_path = ''/entities/order'', as_operator = ''exists'', as_value = JNull\<rparr>]\<rparr>"

definition ex_scenario :: scenario where
  "ex_scenario = \<lparr>sc_apiVersion = ''statetwin.dev/v1alpha1'', sc_kind = ''Scenario'', sc_name = ''smoke'', sc_steps = [ex_step], sc_final = []\<rparr>"

lemma ex_scenario_ok: "scenario_problems ex_scenario = []"
  by code_simp

lemma New_ex_rt2: "engine_New ex_libs (Some ex_twin) = Inr ex_rt2"
  using valid_ex_twin
  by (simp add: engine_New_def Validate_Nil checkSurface_def tools_of_def Let_def ex_rt2_def ex_rt_def)
     (simp add: ex_defs compileJSONSchema_def tool_expressions_def nonempty_def compile_def to_gomap_def)

definition sc_row :: "string \<Rightarrow> int \<Rightarrow> branch_row" where
  "sc_row bid n = \<lparr>br_id = bid, br_spec = spec_Digest ex_twin, br_state = ex_start, br_digest = state_digest ex_start,
     br_clock = format_nano 0, br_calls = n, br_head = n\<rparr>"

definition sc_branch :: "string \<Rightarrow> int \<Rightarrow> branch" where
  "sc_branch bid n = \<lparr>b_id = bid, b_spec = spec_Digest ex_twin, b_state = ex_start, b_digest = state_digest ex_start,
     b_clock = 0, b_calls = n, b_head = n\<rparr>"

lemma ex_start_simps [simp]: "Clone ex_start = ex_start" "canonical_JSON (state_json ex_start) = ''{\"entities\":{\"order\":{}},\"sequences\":{}}''"
  by code_simp+

lemma within_budget_ex_start [simp]: "within_budget ex_start"
  unfolding within_budget_def ex_start_simps
  by (simp_all add: New_def ex_start_def events_of_def state_json_def map_vals_def)

lemma ids [simp]: "validateID k ''scenario'' = Inr ()" "validateID k ''scenario-base'' = Inr ()" "validateID k ''scenario-baseline'' = Inr ()"
  unfolding validateID_Inr by code_simp+

lemma scan_sc [simp]: "scanBranch (Some (sc_row bid n)) = Inr (sc_branch bid n)"
  by (simp add: scanBranch_def sc_row_def sc_branch_def Let_def)

lemma sc_sel [simp]: "br_id (sc_row bid n) = bid" "br_head (sc_row bid n) = n" "b_spec (sc_branch bid n) = spec_Digest ex_twin"
  "b_state (sc_branch bid n) = ex_start" "b_digest (sc_branch bid n) = state_digest ex_start" "b_clock (sc_branch bid n) = 0"
  "b_calls (sc_branch bid n) = n" "b_head (sc_branch bid n) = n"
  by (simp_all add: sc_row_def sc_branch_def)

lemma ex_clock: "parse_nano (tw_clockInitial ex_twin) = Some (0, True)"
proof -
  have "parse_nano ''0000-01-01T00:00:00Z'' = Some (0, True)" by code_simp
  then show ?thesis by (simp add: ex_twin_def)
qed

lemma ex_init: "Initialize ex_rt2 ''scenario'' New empty_db = (Inr (), empty_db\<lparr>branches := [sc_row ''scenario'' 0]\<rparr>)"
proof -
  have p: "parse_nano (tw_clockInitial (rt_spec ex_rt2)) = Some (0, True)"
    using ex_clock by (simp add: ex_rt2_def ex_rt_def)
  have e: "ensureEntities (map fst (tw_entities (rt_spec ex_rt2))) New = ex_start"
    by (simp add: ex_rt2_def ex_rt_def ex_twin_def ensureEntities_def ex_start_def New_def has_def)
  show ?thesis
    unfolding Initialize_def p option.case prod.case e
    by (simp add: InitializeBranch_def transaction_def empty_db_def row_exists_def sc_row_def ex_rt2_def)
qed

definition sc_db1 :: db where
  "sc_db1 = empty_db\<lparr>branches := [sc_row ''scenario'' 0]\<rparr>"

lemma ex_snapshot: "\<exists>base d. CreateSnapshot ''scenario-base'' ''scenario'' sc_db1 = (Inr base, d) \<and> s_digest base = state_digest ex_start \<and> length (s_id base) = 71 \<and>
   (\<exists>d'. Fork ''scenario-base'' ''scenario-baseline'' d = (Inr (), d') \<and>
     branches d' = [sc_row ''scenario'' 0, sc_row ''scenario-baseline'' 0] \<and> fault_plans d' = [] \<and> audit d' = [])"
  by (simp add: sc_db1_def CreateSnapshot_def transaction_def Let_def row_exists_def empty_db_def branch_where_def
      Fork_def snapshot_where_def scanSnapshot_def)
     (simp add: sc_row_def snapshot_id_def)

lemma ex_steps: "sc_steps (normalize_steps ex_scenario) = [ex_step\<lparr>st_input := Some []\<rparr>]"
  by (simp add: normalize_steps_def ex_scenario_def input_of_def ex_step_def)

lemma run_never2: "run_apply (mk_env ex_libs ex_rt2 (JObj []) 0 1) ex_never ex_start = Ret ex_start (failure ''NOT_FOUND'' ''no'')"
  by (simp add: run_apply_def evalBoolF_def default_to_def mk_env_def evalBool_def eval_def)
     (simp add: ex_rt2_def ex_rt_def ex_libs_def engine_validateJSON_def default_to_def)

lemma ex_call:
  assumes "branches d = [sc_row ''scenario'' 0, sc_row ''scenario-baseline'' 0]" "fault_plans d = []" "audit d = []"
  shows "\<exists>res d'. engine_Call ex_libs ex_rt2 ''scenario'' ''never'' (Some []) d = (Inr res, d') \<and> ar_errorClass res = ''NOT_FOUND'' \<and>
    ar_before res = state_digest ex_start \<and> ar_after res = state_digest ex_start \<and> ar_callIndex res = 1 \<and>
    ar_result res = error_json ''NOT_FOUND'' ''no'' \<and>
    branches d' = [sc_row ''scenario'' 1, sc_row ''scenario-baseline'' 0]"
proof -
  have t: "map_of (rt_tools ex_rt2) ''never'' = Some ex_never" "rt_digest ex_rt2 = spec_Digest ex_twin"
    by (simp_all add: ex_rt2_def ex_rt_def)
  show ?thesis
    by (simp add: assms t engine_Call_def call_ex(2) ApplyCall_def transaction_Inr Let_def faultedApply_def takeFault_def armedFaults_def
      engine_callback_def engine_apply_def run_never2 failure_def branch_where_def
      appendToolAudit_def casBranch_def affected_def update_where_def)
      (simp add: sc_row_def)
qed

lemma weight_le: "json_weight v \<le> n \<Longrightarrow> length (canonical_JSON v) \<le> n"
  using length_canonical le_trans by blast

lemma ex_resolve: "resolvePointer (CELValue ex_start) ''/entities/order'' = Inr (Some (JObj []))"
  by code_simp

lemma dec_small [simp]: "dec 0 = ''0''" "dec 1 = ''1''"
  by code_simp+

lemma trace_size:
  assumes "ar_before res = state_digest ex_start" "ar_after res = state_digest ex_start" "ar_callIndex res = 1"
    "ar_errorClass res = ''NOT_FOUND''" "ar_result res = error_json ''NOT_FOUND'' ''no''"
  shows "length (canonical_JSON (trace_json (trace_entry_of (ex_step\<lparr>st_input := Some []\<rparr>) res))) \<le> 16777216"
  by (rule weight_le)
    (simp add: assms trace_json_def trace_entry_of_def ex_step_def state_digest_def str_field_def error_json_def record_json_def dec_int_def)

lemma report_size:
  assumes "json_weight (environment_json (rp_environment r)) \<le> 10000 \<and> json_depth (environment_json (rp_environment r)) = 1 \<and>
      json_members (environment_json (rp_environment r)) = 12"
    and "json_weight (trace_json t) \<le> 10000 \<and> json_depth (trace_json t) \<le> 4 \<and> json_members (trace_json t) \<le> 20"
    and "json_weight (result_json a) \<le> 10000 \<and> json_depth (result_json a) = 1 \<and> json_members (result_json a) \<le> 20"
    and "rp_trace r = [t]" "rp_assertions r = [a]" "rp_diff r = []" "rp_failures r = []" "rp_unsupported r = 0"
    and "rp_invariants r = [''ok'']" "rp_name r = ''smoke''"
    and "length (rp_environmentDigest r) = 71" "length (rp_initial r) = 71" "length (rp_terminal r) = 71"
  shows "json_weight (report_json r) \<le> 100000 \<and> json_depth (report_json r) \<le> 8 \<and> json_members (report_json r) \<le> 200"
  using assms by (intro conjI) (simp_all add: report_json_def dec_int_def)

text \<open>The report of the run, with what later parts need of it.\<close>

definition small_report :: "report \<Rightarrow> bool" where
  "small_report r \<longleftrightarrow> (\<exists>t a. rp_trace r = [t] \<and> te_input t = JObj [] \<and> te_result t = error_json ''NOT_FOUND'' ''no'' \<and>
     rp_assertions r = [a] \<and> ar_expected a = JNull \<and> ar_actual a = JObj [] \<and> rp_diff r = []) \<and>
     json_weight (report_json r) \<le> 100000 \<and> json_depth (report_json r) \<le> 8 \<and> json_members (report_json r) \<le> 200"

lemma ex_run_report: "\<exists>rep. scenario_Run ex_libs (Some ex_twin) None (Some ex_scenario) ''1.0'' = Inr rep \<and> rp_passed rep \<and> length (rp_trace rep) = 1 \<and>
  small_report rep"
proof -
  obtain base d2 d3 where base: "CreateSnapshot ''scenario-base'' ''scenario'' sc_db1 = (Inr base, d2)" "s_digest base = state_digest ex_start"
    and base_id: "length (s_id base) = 71"
    and fork: "Fork ''scenario-base'' ''scenario-baseline'' d2 = (Inr (), d3)"
    and d3: "branches d3 = [sc_row ''scenario'' 0, sc_row ''scenario-baseline'' 0]" "fault_plans d3 = []" "audit d3 = []"
    using ex_snapshot by blast
  obtain res d4 where call: "engine_Call ex_libs ex_rt2 ''scenario'' ''never'' (Some []) d3 = (Inr res, d4)"
    and res: "ar_errorClass res = ''NOT_FOUND''" "ar_before res = state_digest ex_start" "ar_after res = state_digest ex_start"
      "ar_callIndex res = 1" "ar_result res = error_json ''NOT_FOUND'' ''no''"
    and d4: "branches d4 = [sc_row ''scenario'' 1, sc_row ''scenario-baseline'' 0]"
    using ex_call [OF d3] by blast
  have b4: "Branch ''scenario'' d4 = Inr (sc_branch ''scenario'' 1)" "Branch ''scenario-baseline'' d4 = Inr (sc_branch ''scenario-baseline'' 0)"
    by (simp_all add: Branch_def branch_where_def d4)
  let ?rep0 = "initial_report ex_rt2 base (normalize_steps ex_scenario) ''1.0''"
  let ?step = "ex_step\<lparr>st_input := Some []\<rparr>"
  let ?rep1 = "(record_call ?step res ?rep0)\<lparr>rp_failures := rp_failures (record_call ?step res ?rep0),
    rp_assertions := rp_assertions (record_call ?step res ?rep0) @ [assertion_result ''one'' (CELValue ex_start) \<lparr>as_path = ''/entities/order'', as_operator = ''exists'', as_value = JNull\<rparr>]\<rparr>"
  have passed: "ar_passed (assertion_result ''one'' (CELValue ex_start) \<lparr>as_path = ''/entities/order'', as_operator = ''exists'', as_value = JNull\<rparr>)"
    by (simp add: assertion_result_def ex_resolve)
  have step: "st_tool ?step = ''never''" "st_input ?step = Some []" "st_errorClass ?step = ''NOT_FOUND''" "st_id ?step = ''one''"
    "st_assertions ?step = [\<lparr>as_path = ''/entities/order'', as_operator = ''exists'', as_value = JNull\<rparr>]"
    by (simp_all add: ex_step_def)
  have run: "run_steps ex_libs ex_rt2 [?step] 0 ?rep0 d3 = Inr (?rep1, d4)"
    using trace_size [OF res(2-4,1,5)] by (simp add: step call res(1) read_branch_def b4 passed Let_def)
  let ?rep2 = "final_report (normalize_steps ex_scenario) (sc_branch ''scenario'' 1) ?rep1"
  let ?rep3 = "?rep2\<lparr>rp_terminal := state_digest ex_start, rp_diff := []\<rparr>"
  have rep2: "?rep2 = ?rep1"
    by (simp add: final_report_def record_call_def initial_report_def Let_def) (simp add: normalize_steps_def ex_scenario_def)
  have passed3: "rp_passed ?rep3" "length (rp_trace ?rep3) = 1"
    unfolding rep2 by (simp_all add: record_call_def initial_report_def Let_def)
  have diff: "DiffBranches ''scenario-baseline'' ''scenario'' d4 = Inr []"
    by (simp add: DiffBranches_def b4 diffValue.simps)
  have env: "json_weight (environment_json (rp_environment ?rep3)) \<le> 10000 \<and> json_depth (environment_json (rp_environment ?rep3)) = 1 \<and>
      json_members (environment_json (rp_environment ?rep3)) = 12"
    unfolding rep2 by (simp add: record_call_def initial_report_def Let_def environment_of_def environment_json_def limits_Digest_def
       scenario_Digest_def entropy_digest_def ex_rt2_def ex_rt_def spec_Digest_def SurfaceDigest_def ex_twin_def base_id dec_int_def)
  have trace: "json_weight (trace_json (trace_entry_of ?step res)) \<le> 10000 \<and> json_depth (trace_json (trace_entry_of ?step res)) \<le> 4 \<and>
      json_members (trace_json (trace_entry_of ?step res)) \<le> 20"
    by (simp add: res trace_json_def trace_entry_of_def ex_step_def state_digest_def str_field_def error_json_def record_json_def dec_int_def)
  have assertion: "json_weight (result_json x) \<le> 10000 \<and> json_depth (result_json x) = 1 \<and> json_members (result_json x) \<le> 20"
    if "x = assertion_result ''one'' (CELValue ex_start) \<lparr>as_path = ''/entities/order'', as_operator = ''exists'', as_value = JNull\<rparr>" for x
    unfolding that by (simp add: assertion_result_def ex_resolve result_json_def str_field_def)
  have size: "json_weight (report_json ?rep3) \<le> 100000 \<and> json_depth (report_json ?rep3) \<le> 8 \<and> json_members (report_json ?rep3) \<le> 200"
    by (rule report_size [OF env trace assertion [OF refl]], unfold rep2)
      (simp_all add: res(1) record_call_def initial_report_def Let_def base(2) state_digest_def ex_rt2_def ex_rt_def ex_twin_def
        normalize_steps_def ex_scenario_def)
  then have "ValidateJSON (report_json ?rep3) MaxReportBytes = Inr ()"
    unfolding ValidateJSON_iff by (intro conjI weight_le) simp_all
  then have "finish_report (normalize_steps ex_scenario) ?rep1 d4 = Inr ?rep3"
    by (simp add: finish_report_def read_branch_def b4 diff Let_def)
  then have run': "scenario_Run ex_libs (Some ex_twin) None (Some ex_scenario) ''1.0'' = Inr ?rep3"
    using run by (simp add: scenario_Run_def scenario_Validate_def ex_scenario_ok New_ex_rt2 store_result_def ex_init base(1) fork ex_steps
      sc_db1_def [symmetric])
  have "\<exists>t a. rp_trace ?rep3 = [t] \<and> te_input t = JObj [] \<and> te_result t = error_json ''NOT_FOUND'' ''no'' \<and>
     rp_assertions ?rep3 = [a] \<and> ar_expected a = JNull \<and> ar_actual a = JObj [] \<and> rp_diff ?rep3 = []"
    unfolding rep2 by (simp add: record_call_def initial_report_def Let_def trace_entry_of_def res(5) assertion_result_def ex_resolve record_json_def)
  then have "small_report ?rep3" unfolding small_report_def using size by blast
  with run' show ?thesis using passed3 by blast
qed

lemma ex_run: "\<exists>rep. scenario_Run ex_libs (Some ex_twin) None (Some ex_scenario) ''1.0'' = Inr rep \<and> rp_passed rep \<and> length (rp_trace rep) = 1"
  using ex_run_report by blast

section \<open>Properties\<close>

text \<open>C8 The trace of a scenario is a chain: the first call starts from the digest of the initial
  state, every call starts from the digest that the one before it left, the last one leaves the
  terminal digest of the report, and the calls are numbered from one.\<close>

theorem scenario_trace_is_chain:
  assumes "scenario_Run l (Some tw) initial sc version = Inr rep"
    and "\<And>c z. parse_nano (tw_clockInitial tw) = Some (c, z) \<Longrightarrow> 0 \<le> c \<and> c < max_instant"
    and "\<And>w. initial = Some w \<Longrightarrow> wf_state w"
  shows "chained (rp_initial rep) (rp_trace rep) (rp_terminal rep) \<and>
    map te_callIndex (rp_trace rep) = map (\<lambda>i. int i + 1) [0..<length (rp_trace rep)]"
  using scenario_Run_chain [OF assms] .

theorem scenario_trace_is_chain_witness:
  "\<exists>rep. scenario_Run ex_libs (Some ex_twin) None (Some ex_scenario) ''1.0'' = Inr rep \<and> chained (rp_initial rep) (rp_trace rep) (rp_terminal rep)"
proof -
  obtain rep where run: "scenario_Run ex_libs (Some ex_twin) None (Some ex_scenario) ''1.0'' = Inr rep" using ex_run by blast
  have "0 \<le> c \<and> c < max_instant" if "parse_nano (tw_clockInitial ex_twin) = Some (c, z)" for c z
    using that ex_clock by (simp add: max_instant_def year_start_def day_ns_def second_def)
  then show ?thesis using scenario_trace_is_chain [OF run] run by blast
qed



text \<open>The JSON Pointer that a difference writes for a path of keys is read back by an assertion
  as exactly these keys, whatever slashes and tildes they contain.\<close>

theorem pointer_roundtrip:
  assumes "ks \<noteq> []"
  shows "pointerSegments (concat (map (\<lambda>k. ''/'' @ escapePointer k) ks)) = Inr ks"
  using pointerSegments_pointer_of [OF assms] by (simp add: pointer_of_def)

theorem pointer_roundtrip_witness: "pointerSegments ''/a~1b/~0'' = Inr [''a/b'', ''~'']"
  using pointer_roundtrip [of "[''a/b'', ''~'']"] by (simp add: escapePointer_def)

end
