(* ===== verification/Episode.thy ===== *)
theory Episode
  imports Scenario
begin

text \<open>
  \<open>internal/episode/episode.go\<close>: the lifecycle of an episode, the execution of a bundled
  scenario and its evidence. A \<open>bundle.Artifact\<close> is its digest, the scenario paths of its
  manifest and what the YAML decoders make of its files (\<open>None\<close> where they fail). The
  transition observer works on a state \<open>'s\<close>, which is threaded through the run.
\<close>

section \<open>Lifecycle\<close>

datatype status = StatusCreated | StatusProvisioning | StatusReady | StatusRunning | StatusEvaluating
  | StatusSucceeded | StatusAssertionFailed | StatusRuntimeError | StatusCancelled

definition status_text :: "status \<Rightarrow> string" where
  "status_text s = (case s of
     StatusCreated \<Rightarrow> ''CREATED'' | StatusProvisioning \<Rightarrow> ''PROVISIONING'' | StatusReady \<Rightarrow> ''READY''
   | StatusRunning \<Rightarrow> ''RUNNING'' | StatusEvaluating \<Rightarrow> ''EVALUATING'' | StatusSucceeded \<Rightarrow> ''SUCCEEDED''
   | StatusAssertionFailed \<Rightarrow> ''ASSERTION_FAILED'' | StatusRuntimeError \<Rightarrow> ''RUNTIME_ERROR'' | StatusCancelled \<Rightarrow> ''CANCELLED'')"

text \<open>The empty \<open>From\<close> of the first event is \<open>None\<close>.\<close>

record event =
  lc_sequence :: int
  lc_from :: "status option"
  lc_to :: status

record lifecycle =
  lf_current :: status
  lf_events :: "event list"

definition NewLifecycle :: lifecycle where
  "NewLifecycle = \<lparr>lf_current = StatusCreated, lf_events = [\<lparr>lc_sequence = 0, lc_from = None, lc_to = StatusCreated\<rparr>]\<rparr>"

definition IsTerminal :: "status \<Rightarrow> bool" where
  "IsTerminal s \<longleftrightarrow> s \<in> {StatusSucceeded, StatusAssertionFailed, StatusRuntimeError, StatusCancelled}"

fun allowedTransition :: "status \<Rightarrow> status \<Rightarrow> bool" where
  "allowedTransition StatusCreated n = (n = StatusProvisioning \<or> n = StatusCancelled)"
| "allowedTransition StatusProvisioning n = (n = StatusReady \<or> n = StatusRuntimeError \<or> n = StatusCancelled)"
| "allowedTransition StatusReady n = (n = StatusRunning \<or> n = StatusCancelled)"
| "allowedTransition StatusRunning n = (n = StatusEvaluating \<or> n = StatusRuntimeError \<or> n = StatusCancelled)"
| "allowedTransition StatusEvaluating n = (n = StatusSucceeded \<or> n = StatusAssertionFailed \<or> n = StatusRuntimeError)"
| "allowedTransition _ n = False"

definition Transition :: "status \<Rightarrow> lifecycle \<Rightarrow> lifecycle option" where
  "Transition n l =
     (if \<not> allowedTransition (lf_current l) n then None
      else Some \<lparr>lf_current = n,
             lf_events = lf_events l @ [\<lparr>lc_sequence = int (length (lf_events l)), lc_from = Some (lf_current l), lc_to = n\<rparr>]\<rparr>)"

section \<open>Evidence\<close>

record evidence =
  ev_apiVersion :: string
  ev_doc :: string
  ev_format :: string
  ev_episodeID :: string
  ev_claimLevel :: string
  ev_bundle :: string
  ev_scenario :: string
  ev_version :: string
  ev_revision :: string
  ev_lifecycle :: lifecycle
  ev_outcome :: string
  ev_report :: "report option"

record envelope =
  vp_apiVersion :: string
  vp_kind :: string
  vp_evidence :: "evidence option"
  vp_digest :: string

definition event_doc :: "event \<Rightarrow> json" where
  "event_doc e = JObj (
     [(''sequence'', JNum (lc_sequence e))] @
     (case lc_from e of None \<Rightarrow> [] | Some s \<Rightarrow> [(''from'', JStr (status_text s))]) @
     [(''to'', JStr (status_text (lc_to e)))])"

definition evidence_json :: "evidence \<Rightarrow> json" where
  "evidence_json e = JObj
     [(''apiVersion'', JStr (ev_apiVersion e)), (''kind'', JStr (ev_doc e)), (''format'', JStr (ev_format e)),
      (''episodeId'', JStr (ev_episodeID e)), (''claimLevel'', JStr (ev_claimLevel e)), (''bundleDigest'', JStr (ev_bundle e)),
      (''scenarioPath'', JStr (ev_scenario e)),
      (''runtime'', JObj [(''version'', JStr (ev_version e)), (''revision'', JStr (ev_revision e))]),
      (''lifecycle'', JObj [(''current'', JStr (status_text (lf_current (ev_lifecycle e)))),
                            (''events'', JArr (map event_doc (lf_events (ev_lifecycle e))))]),
      (''outcome'', JStr (ev_outcome e)),
      (''report'', (case ev_report e of None \<Rightarrow> JNull | Some r \<Rightarrow> report_json r))]"

definition envelope_json :: "envelope \<Rightarrow> json" where
  "envelope_json v = JObj
     [(''apiVersion'', JStr (vp_apiVersion v)), (''kind'', JStr (vp_kind v)),
      (''evidence'', (case vp_evidence v of None \<Rightarrow> JNull | Some e \<Rightarrow> evidence_json e)),
      (''evidenceDigest'', JStr (vp_digest v))]"

definition evidence_Digest :: "evidence \<Rightarrow> string" where
  "evidence_Digest e = canonical_Digest (evidence_json e)"

section \<open>Errors and effects\<close>

datatype ep_error =
    ErrEpisodeNotFound
  | ErrEpisodeConflict
  | ErrEpisodeIncomplete
  | ErrEpisodeFailed
  | ErrNoClaimableEpisode
  | ErrStaleAttempt
  | ErrCancelRequested
  | ErrEpisodeLimit
  | ErrInvalid string
  | ErrRun run_error
  | ErrConstraint string
  | ErrConnectionBusy
  | ErrIndexPanic

text \<open>An operation on a state \<open>'s\<close>; its effects stay when it fails.\<close>

type_synonym ('s, 'a) op = "'s \<Rightarrow> (ep_error + 'a) \<times> 's"

definition returnS :: "'a \<Rightarrow> ('s, 'a) op" where
  "returnS x s = (Inr x, s)"

definition failS :: "ep_error \<Rightarrow> ('s, 'a) op" where
  "failS e s = (Inl e, s)"

definition bindS :: "('s, 'a) op \<Rightarrow> ('a \<Rightarrow> ('s, 'b) op) \<Rightarrow> ('s, 'b) op" where
  "bindS m f s = (case m s of (Inl e, s') \<Rightarrow> (Inl e, s') | (Inr x, s') \<Rightarrow> f x s')"

definition liftS :: "ep_error + 'a \<Rightarrow> ('s, 'a) op" where
  "liftS r s = (r, s)"

section \<open>Running an episode\<close>

record artifact =
  af_digest :: string
  af_scenarios :: "string list"
  af_spec :: "twin_spec option"
  af_fixture :: "world_state option"
  af_scenario :: "string \<Rightarrow> scenario option"

type_synonym 's observer = "event \<Rightarrow> ('s, unit) op"

definition transition :: "'s observer option \<Rightarrow> status \<Rightarrow> lifecycle \<Rightarrow> ('s, lifecycle) op" where
  "transition obs n l =
     (case Transition n l of
        None \<Rightarrow> failS (ErrInvalid ''invalid episode transition'')
      | Some l' \<Rightarrow>
          (case obs of
             None \<Rightarrow> returnS l'
           | Some f \<Rightarrow> bindS (f (last (lf_events l'))) (\<lambda>_. returnS l')))"

definition selectScenario :: "string list \<Rightarrow> string \<Rightarrow> ep_error + string" where
  "selectScenario scenarios requested =
     (if requested = [] then
        (case scenarios of [s] \<Rightarrow> Inr s | _ \<Rightarrow> Inl (ErrInvalid ''--scenario is required when a TwinBundle contains multiple scenarios''))
      else if requested \<in> set scenarios then Inr requested
      else Inl (ErrInvalid ''scenario is not declared by the TwinBundle''))"

definition require_decoded :: "string \<Rightarrow> 'a option \<Rightarrow> ep_error + 'a" where
  "require_decoded what v = (case v of None \<Rightarrow> Inl (ErrInvalid (''decode bundled '' @ what)) | Some x \<Rightarrow> Inr x)"

definition evidence_of :: "artifact \<Rightarrow> string \<Rightarrow> string \<Rightarrow> string \<Rightarrow> string \<Rightarrow> lifecycle \<Rightarrow> report \<Rightarrow> evidence" where
  "evidence_of a eid path version revision l rep =
     \<lparr>ev_apiVersion = ''statetwin.dev/v1alpha1'', ev_doc = ''EpisodeEvidence'', ev_format = ''statetwin.dev/episode-evidence/v1alpha1'',
      ev_episodeID = eid, ev_claimLevel = ''development'', ev_bundle = af_digest a, ev_scenario = path,
      ev_version = version, ev_revision = revision, ev_lifecycle = l,
      ev_outcome = (if rp_passed rep then ''succeeded'' else ''assertion_failed''), ev_report = Some rep\<rparr>"

definition envelope_of :: "evidence \<Rightarrow> envelope" where
  "envelope_of e = \<lparr>vp_apiVersion = ''statetwin.dev/v1alpha1'', vp_kind = ''EpisodeEvidenceEnvelope'',
     vp_evidence = Some e, vp_digest = evidence_Digest e\<rparr>"

definition revision_or_unknown :: "string \<Rightarrow> string" where
  "revision_or_unknown r = (if r = [] then ''unknown'' else r)"

text \<open>\<open>_ = transition(...)\<close>: the result is ignored, the effect stays.\<close>

definition ignoreS :: "('s, 'a) op \<Rightarrow> ('s, unit) op" where
  "ignoreS m s = (Inr (), snd (m s))"

definition episode_run ::
  "libs \<Rightarrow> 's observer option \<Rightarrow> artifact option \<Rightarrow> string \<Rightarrow> string \<Rightarrow> string \<Rightarrow> string \<Rightarrow> ('s, envelope) op" where
  "episode_run l obs artifact eid path version revision0 =
     (case artifact of
        None \<Rightarrow> failS (ErrInvalid ''TwinBundle artifact is required'')
      | Some a \<Rightarrow>
          if \<not> controlIDPattern eid then failS (ErrInvalid ''episode ID must match the pattern'')
          else if version = [] then failS (ErrInvalid ''runtime version is required'')
          else
            let revision = revision_or_unknown revision0 in
            bindS (liftS (selectScenario (af_scenarios a) path)) (\<lambda>selected.
            bindS (transition obs StatusProvisioning NewLifecycle) (\<lambda>l1.
            bindS (liftS (require_decoded ''TwinSpec'' (af_spec a))) (\<lambda>twin.
            bindS (liftS (require_decoded ''fixture'' (af_fixture a))) (\<lambda>initial.
            bindS (liftS (require_decoded ''Scenario'' (af_scenario a selected))) (\<lambda>testScenario.
            bindS (transition obs StatusReady l1) (\<lambda>l2.
            bindS (transition obs StatusRunning l2) (\<lambda>l3.
              case scenario_Run l (Some twin) (Some initial) (Some testScenario) version of
                Inl e \<Rightarrow> bindS (ignoreS (transition obs StatusRuntimeError l3)) (\<lambda>_. failS (ErrRun e))
              | Inr rep \<Rightarrow>
                  bindS (transition obs StatusEvaluating l3) (\<lambda>l4.
                  bindS (transition obs (if rp_passed rep then StatusSucceeded else StatusAssertionFailed) l4) (\<lambda>l5.
                    let ev = evidence_of a eid selected version revision l5 rep in
                    case ValidateJSON (evidence_json ev) MaxReportBytes of
                      Inl _ \<Rightarrow> failS ErrEpisodeLimit
                    | Inr _ \<Rightarrow> returnS (envelope_of ev)))))))))))"

definition Run :: "libs \<Rightarrow> artifact option \<Rightarrow> string \<Rightarrow> string \<Rightarrow> string \<Rightarrow> string \<Rightarrow> ep_error + envelope" where
  "Run l a eid path version revision = fst (episode_run l None a eid path version revision ())"

section \<open>What a run produces\<close>

lemma bindS_Inr: "bindS m f s = (Inr y, s'') \<longleftrightarrow> (\<exists>x s'. m s = (Inr x, s') \<and> f x s' = (Inr y, s''))"
  by (cases "m s"; cases "fst (m s)") (auto simp: bindS_def)

lemma not_Inl_unit [simp]: "(\<forall>e. (r :: 'e + unit) \<noteq> Inl e) \<longleftrightarrow> r = Inr ()"
  by (cases r) auto

lemma opS_simps [simp]:
  "returnS x s = (Inr y, s') \<longleftrightarrow> y = x \<and> s' = s" "failS e s \<noteq> (Inr y, s')" "liftS r s = (Inr y, s') \<longleftrightarrow> r = Inr y \<and> s' = s"
  by (auto simp: returnS_def failS_def liftS_def)

definition event_at_seq :: "int \<Rightarrow> status \<Rightarrow> status \<Rightarrow> event" where
  "event_at_seq n f t = \<lparr>lc_sequence = n, lc_from = Some f, lc_to = t\<rparr>"

text \<open>The six events of a finished run.\<close>

definition run_events :: "status \<Rightarrow> event list" where
  "run_events t =
     [\<lparr>lc_sequence = 0, lc_from = None, lc_to = StatusCreated\<rparr>, event_at_seq 1 StatusCreated StatusProvisioning,
      event_at_seq 2 StatusProvisioning StatusReady, event_at_seq 3 StatusReady StatusRunning,
      event_at_seq 4 StatusRunning StatusEvaluating, event_at_seq 5 StatusEvaluating t]"

lemma transition_Inr: "transition obs n l s = (Inr l', s') \<Longrightarrow> Transition n l = Some l'"
  by (auto simp: transition_def bindS_Inr split: option.splits)

lemma episode_run_Inr:
  assumes "episode_run l obs artifact eid path version revision s = (Inr env, s')"
  obtains a selected rep t twin initial sc where "artifact = Some a" "controlIDPattern eid" "version \<noteq> []"
    "selectScenario (af_scenarios a) path = Inr selected"
    "af_spec a = Some twin" "af_fixture a = Some initial" "af_scenario a selected = Some sc"
    "scenario_Run l (Some twin) (Some initial) (Some sc) version = Inr rep"
    "t = (if rp_passed rep then StatusSucceeded else StatusAssertionFailed)"
    "env = envelope_of (evidence_of a eid selected version (revision_or_unknown revision) \<lparr>lf_current = t, lf_events = run_events t\<rparr> rep)"
    "ValidateJSON (evidence_json (the (vp_evidence env))) MaxReportBytes = Inr ()"
proof -
  obtain a where a: "artifact = Some a" "controlIDPattern eid" "version \<noteq> []"
    using assms unfolding episode_run_def by (auto split: option.splits if_splits)
  obtain selected twin initial sc l1 l2 l3 s3 where
    1: "selectScenario (af_scenarios a) path = Inr selected" "af_spec a = Some twin" "af_fixture a = Some initial"
      "af_scenario a selected = Some sc"
    and l: "Transition StatusProvisioning NewLifecycle = Some l1" "Transition StatusReady l1 = Some l2" "Transition StatusRunning l2 = Some l3"
    and rest: "(case scenario_Run l (Some twin) (Some initial) (Some sc) version of
                Inl e \<Rightarrow> bindS (ignoreS (transition obs StatusRuntimeError l3)) (\<lambda>_. failS (ErrRun e))
              | Inr rep \<Rightarrow>
                  bindS (transition obs StatusEvaluating l3) (\<lambda>l4.
                  bindS (transition obs (if rp_passed rep then StatusSucceeded else StatusAssertionFailed) l4) (\<lambda>l5.
                    let ev = evidence_of a eid selected version (revision_or_unknown revision) l5 rep in
                    case ValidateJSON (evidence_json ev) MaxReportBytes of
                      Inl _ \<Rightarrow> failS ErrEpisodeLimit
                    | Inr _ \<Rightarrow> returnS (envelope_of ev)))) s3 = (Inr env, s')"
    using assms a unfolding episode_run_def Let_def
    by (auto simp: bindS_Inr require_decoded_def split: option.splits dest!: transition_Inr)
  obtain rep where rep: "scenario_Run l (Some twin) (Some initial) (Some sc) version = Inr rep"
    using rest by (cases "scenario_Run l (Some twin) (Some initial) (Some sc) version") (auto simp: bindS_Inr)
  let ?t = "if rp_passed rep then StatusSucceeded else StatusAssertionFailed"
  obtain l4 l5 where l': "Transition StatusEvaluating l3 = Some l4" "Transition ?t l4 = Some l5"
    and v: "ValidateJSON (evidence_json (evidence_of a eid selected version (revision_or_unknown revision) l5 rep)) MaxReportBytes = Inr ()"
    and env: "env = envelope_of (evidence_of a eid selected version (revision_or_unknown revision) l5 rep)"
    using rest rep by (auto simp: bindS_Inr Let_def split: sum.splits dest!: transition_Inr)
  have "l5 = \<lparr>lf_current = ?t, lf_events = run_events ?t\<rparr>"
    using l l' by (auto simp: Transition_def NewLifecycle_def run_events_def event_at_seq_def split: if_splits)
  then show thesis
    using that [OF a 1 rep refl] env v by (simp add: envelope_of_def)
qed

end
