(* ===== verification/Journal.thy ===== *)
theory Journal
  imports Episode
begin

text \<open>
  \<open>internal/episode/journal.go\<close>: the durable record of episodes. The SQLite tables are lists
  of rows; \<open>time.Now()\<close> is an argument. A \<open>[]byte\<close> of evidence is the envelope it encodes.
\<close>

section \<open>Tables\<close>

record episode_row =
  er_id :: string
  er_request :: string
  er_bundle :: string
  er_scenario :: string
  er_version :: string
  er_revision :: string
  er_status :: status
  er_sequence :: int
  er_outcome :: string
  er_evidence :: "envelope option"
  er_evidenceDigest :: string
  er_errorClass :: string
  er_created :: string
  er_updated :: string

record event_row =
  lr_episode :: string
  lr_event :: event

datatype effect_profile = EffectHermetic | EffectExternal

datatype task_state = TaskQueued | TaskLeased | TaskCompleted | TaskCancelled | TaskFailed | TaskCommitUnknown

datatype attempt_state = AttemptLeased | AttemptCompleted | AttemptFailed | AttemptCancelled | AttemptExpired | AttemptCommitUnknown

datatype commit_state = CommitNotStarted | CommitNoEffect | CommitCommitted | CommitUnknown

record task_row =
  tr_episode :: string
  tr_bundle :: string
  tr_profile :: effect_profile
  tr_max :: int
  tr_state :: task_state
  tr_attempts :: int
  tr_fence :: int
  tr_active :: string
  tr_cancel :: bool
  tr_final :: string
  tr_finalDigest :: string
  tr_created :: string
  tr_updated :: string

record attempt_row =
  at_id :: string
  at_episode :: string
  at_number :: int
  at_worker :: string
  at_fence :: int
  at_state :: attempt_state
  at_commit :: commit_state
  at_lease :: string
  at_errorClass :: string
  at_created :: string
  at_updated :: string

record jdb =
  episodes :: "episode_row list"
  ep_events :: "event_row list"
  tasks :: "task_row list"
  attempts :: "attempt_row list"

definition empty_jdb :: jdb where
  "empty_jdb = \<lparr>episodes = [], ep_events = [], tasks = [], attempts = []\<rparr>"

text \<open>Inserting an event fails on its primary key.\<close>

definition insertEvent :: "string \<Rightarrow> event \<Rightarrow> jdb \<Rightarrow> ep_error + jdb" where
  "insertEvent eid e d =
     (if row_exists (\<lambda>r. lr_episode r = eid \<and> lc_sequence (lr_event r) = lc_sequence e) (ep_events d)
      then Inl (ErrConstraint ''episode_events'')
      else Inr (d\<lparr>ep_events := ep_events d @ [\<lparr>lr_episode = eid, lr_event = e\<rparr>]\<rparr>))"

text \<open>
  A compare-and-swap \<open>UPDATE episodes SET ... WHERE ...\<close>; the \<open>id\<close> is the primary key, so at
  most one row changes.
\<close>

definition casEpisode :: "(episode_row \<Rightarrow> bool) \<Rightarrow> (episode_row \<Rightarrow> episode_row) \<Rightarrow> jdb \<Rightarrow> nat \<times> jdb" where
  "casEpisode p f d = (affected p (episodes d), d\<lparr>episodes := update_where p f (episodes d)\<rparr>)"

definition episode_where :: "string \<Rightarrow> jdb \<Rightarrow> episode_row option" where
  "episode_where eid d = find_row (\<lambda>r. er_id r = eid) (episodes d)"

section \<open>Requests\<close>

record request =
  jr_id :: string
  jr_bundle :: string
  jr_path :: string
  jr_version :: string
  jr_revision :: string

definition request_json :: "request \<Rightarrow> json" where
  "request_json r = JObj
     [(''format'', JStr ''statetwin.dev/episode-journal/v1alpha1''), (''episodeId'', JStr (jr_id r)),
      (''bundleDigest'', JStr (jr_bundle r)), (''scenarioPath'', JStr (jr_path r)),
      (''runtimeVersion'', JStr (jr_version r)), (''runtimeRevision'', JStr (jr_revision r))]"

definition request_Digest :: "request \<Rightarrow> string" where
  "request_Digest r = canonical_Digest (request_json r)"

definition resolveRequest :: "artifact option \<Rightarrow> string \<Rightarrow> string \<Rightarrow> string \<Rightarrow> string \<Rightarrow> ep_error + request" where
  "resolveRequest artifact eid path version revision =
     (case artifact of
        None \<Rightarrow> Inl (ErrInvalid ''TwinBundle artifact is required'')
      | Some a \<Rightarrow>
          if \<not> controlIDPattern eid then Inl (ErrInvalid ''episode ID must match the pattern'')
          else if version = [] then Inl (ErrInvalid ''runtime version is required'')
          else bindE (selectScenario (af_scenarios a) path) (\<lambda>selected.
            Inr \<lparr>jr_id = eid, jr_bundle = af_digest a, jr_path = selected, jr_version = version,
                 jr_revision = revision_or_unknown revision\<rparr>))"

section \<open>Reading a record\<close>

record episode_record =
  rc_id :: string
  rc_request :: string
  rc_bundle :: string
  rc_scenario :: string
  rc_version :: string
  rc_revision :: string
  rc_status :: status
  rc_sequence :: int
  rc_incomplete :: bool
  rc_outcome :: string
  rc_evidenceDigest :: string
  rc_evidence :: "envelope option"
  rc_errorClass :: string
  rc_created :: string
  rc_updated :: string
  rc_events :: "event list"

text \<open>
  \<open>json.Unmarshal\<close> of stored evidence: values of type \<open>any\<close> in the report are read back with
  numbers as \<open>float64\<close>; every other field is typed.
\<close>

definition reread_value :: "json \<Rightarrow> json" where
  "reread_value v = canon (renum_json v)"

definition reread_trace :: "trace_entry \<Rightarrow> trace_entry" where
  "reread_trace t = t\<lparr>te_input := reread_value (te_input t), te_result := reread_value (te_result t)\<rparr>"

definition reread_change :: "change \<Rightarrow> change" where
  "reread_change c = c\<lparr>ch_before := reread_value (ch_before c), ch_after := reread_value (ch_after c)\<rparr>"

definition reread_result :: "assertion_result \<Rightarrow> assertion_result" where
  "reread_result a = a\<lparr>ar_expected := reread_value (ar_expected a), ar_actual := reread_value (ar_actual a)\<rparr>"

definition reread_report :: "report \<Rightarrow> report" where
  "reread_report r = r\<lparr>rp_trace := map reread_trace (rp_trace r), rp_diff := map reread_change (rp_diff r),
     rp_assertions := map reread_result (rp_assertions r)\<rparr>"

definition reread_evidence :: "evidence \<Rightarrow> evidence" where
  "reread_evidence e = e\<lparr>ev_report := map_option reread_report (ev_report e)\<rparr>"

definition reread_envelope :: "envelope \<Rightarrow> envelope" where
  "reread_envelope v = v\<lparr>vp_evidence := map_option reread_evidence (vp_evidence v)\<rparr>"

definition timestamps_ok :: "string \<Rightarrow> string \<Rightarrow> ep_error + unit" where
  "timestamps_ok created updated =
     (case parse_nano created of
        None \<Rightarrow> Inl (ErrInvalid ''Episode createdAt is invalid'')
      | Some (c, _) \<Rightarrow>
          (case parse_nano updated of
             None \<Rightarrow> Inl (ErrInvalid ''Episode updatedAt is invalid'')
           | Some (u, _) \<Rightarrow> if u < c then Inl (ErrInvalid ''Episode operational timestamps are inconsistent'') else Inr ()))"

definition row_request :: "episode_row \<Rightarrow> request" where
  "row_request r = \<lparr>jr_id = er_id r, jr_bundle = er_bundle r, jr_path = er_scenario r, jr_version = er_version r,
     jr_revision = er_revision r\<rparr>"

definition check_evidence :: "episode_row \<Rightarrow> envelope \<Rightarrow> ep_error + unit" where
  "check_evidence r v =
     (case vp_evidence v of
        None \<Rightarrow> Inl (ErrInvalid ''Episode evidence identity mismatch'')
      | Some e \<Rightarrow>
          if vp_apiVersion v \<noteq> ''statetwin.dev/v1alpha1'' \<or> vp_kind v \<noteq> ''EpisodeEvidenceEnvelope'' \<or> vp_digest v \<noteq> er_evidenceDigest r
          then Inl (ErrInvalid ''Episode evidence identity mismatch'')
          else if ev_apiVersion e \<noteq> ''statetwin.dev/v1alpha1'' \<or> ev_doc e \<noteq> ''EpisodeEvidence'' \<or>
                  ev_format e \<noteq> ''statetwin.dev/episode-evidence/v1alpha1'' \<or> ev_episodeID e \<noteq> er_id r \<or> ev_bundle e \<noteq> er_bundle r \<or>
                  ev_scenario e \<noteq> er_scenario r \<or> ev_version e \<noteq> er_version r \<or> ev_revision e \<noteq> er_revision r \<or> ev_outcome e \<noteq> er_outcome r
          then Inl (ErrInvalid ''Episode evidence does not match Journal identity'')
          else if evidence_Digest e \<noteq> er_evidenceDigest r then Inl (ErrInvalid ''Episode evidence digest mismatch'')
          else if er_status r \<noteq> StatusSucceeded \<and> er_status r \<noteq> StatusAssertionFailed
          then Inl (ErrInvalid ''Episode status cannot carry terminal Evidence'')
          else if er_outcome r \<noteq> (if er_status r = StatusAssertionFailed then ''assertion_failed'' else ''succeeded'') \<or> er_errorClass r \<noteq> []
          then Inl (ErrInvalid ''Episode terminal outcome is inconsistent'')
          else Inr ())"

definition check_no_evidence :: "episode_row \<Rightarrow> ep_error + unit" where
  "check_no_evidence r =
     (if er_status r = StatusSucceeded \<or> er_status r = StatusAssertionFailed \<or> er_evidenceDigest r \<noteq> []
      then Inl (ErrInvalid ''terminal Episode record is missing Evidence'')
      else if er_outcome r \<noteq> [] then Inl (ErrInvalid ''Episode without Evidence cannot carry an outcome'')
      else if er_status r = StatusRuntimeError \<and> er_errorClass r \<noteq> ''RUNTIME_ERROR''
      then Inl (ErrInvalid ''runtime-error Episode is missing its typed error class'')
      else if \<not> IsTerminal (er_status r) \<and> er_errorClass r \<noteq> []
      then Inl (ErrInvalid ''incomplete Episode cannot carry an error class'')
      else Inr ())"

definition scanRecord :: "episode_row option \<Rightarrow> ep_error + episode_record" where
  "scanRecord row =
     (case row of
        None \<Rightarrow> Inl ErrEpisodeNotFound
      | Some r \<Rightarrow>
          bindE (timestamps_ok (er_created r) (er_updated r)) (\<lambda>_.
          if request_Digest (row_request r) \<noteq> er_request r then Inl (ErrInvalid ''Episode request digest mismatch'')
          else bindE (case map_option reread_envelope (er_evidence r) of
                        Some v \<Rightarrow> check_evidence r v | None \<Rightarrow> check_no_evidence r) (\<lambda>_.
            Inr \<lparr>rc_id = er_id r, rc_request = er_request r, rc_bundle = er_bundle r, rc_scenario = er_scenario r,
                 rc_version = er_version r, rc_revision = er_revision r, rc_status = er_status r, rc_sequence = er_sequence r,
                 rc_incomplete = (\<not> IsTerminal (er_status r)), rc_outcome = er_outcome r, rc_evidenceDigest = er_evidenceDigest r,
                 rc_evidence = map_option reread_envelope (er_evidence r), rc_errorClass = er_errorClass r,
                 rc_created = er_created r, rc_updated = er_updated r, rc_events = []\<rparr>)))"

definition events_where :: "string \<Rightarrow> jdb \<Rightarrow> event list" where
  "events_where eid d = sort_key lc_sequence (map lr_event (filter (\<lambda>r. lr_episode r = eid) (ep_events d)))"

text \<open>The chain check of \<open>loadEvents\<close> from position \<open>index\<close>, after an event that led to \<open>previous\<close>.\<close>

fun chain_ok :: "int \<Rightarrow> status \<Rightarrow> event list \<Rightarrow> ep_error + unit" where
  "chain_ok index previous [] = Inr ()"
| "chain_ok index previous (e # es) =
     (if lc_sequence e \<noteq> index then Inl (ErrInvalid ''Episode lifecycle sequence is inconsistent'')
      else if lc_from e \<noteq> Some previous \<or> \<not> allowedTransition previous (lc_to e)
      then Inl (ErrInvalid ''Episode lifecycle transition chain is invalid'')
      else chain_ok (index + 1) (lc_to e) es)"

definition check_chain :: "event list \<Rightarrow> ep_error + unit" where
  "check_chain es =
     (case es of
        [] \<Rightarrow> Inr ()
      | e # rest \<Rightarrow>
          if lc_sequence e \<noteq> 0 then Inl (ErrInvalid ''Episode lifecycle sequence is inconsistent'')
          else if lc_from e \<noteq> None \<or> lc_to e \<noteq> StatusCreated
          then Inl (ErrInvalid ''Episode lifecycle creation event is invalid'')
          else chain_ok 1 (lc_to e) rest)"

definition equalEvents :: "event list \<Rightarrow> event list \<Rightarrow> bool" where
  "equalEvents left right \<longleftrightarrow> length left = length right \<and> list_all (\<lambda>(l, r). l = r) (zip left right)"

definition loadEvents :: "episode_record \<Rightarrow> jdb \<Rightarrow> ep_error + episode_record" where
  "loadEvents record d =
     (let es = events_where (rc_id record) d in
      if int (length es) \<noteq> rc_sequence record + 1 \<or> es = [] \<or> lc_to (last es) \<noteq> rc_status record
      then Inl (ErrInvalid ''Episode lifecycle journal is inconsistent'')
      else bindE (check_chain es) (\<lambda>_.
        case rc_evidence record of
          Some v \<Rightarrow>
            (case vp_evidence v of
               Some e \<Rightarrow>
                 if lf_current (ev_lifecycle e) \<noteq> rc_status record \<or> \<not> equalEvents (lf_events (ev_lifecycle e)) es
                 then Inl (ErrInvalid ''Episode Evidence lifecycle does not match Journal'')
                 else Inr (record\<lparr>rc_events := es\<rparr>)
             | None \<Rightarrow> Inr (record\<lparr>rc_events := es\<rparr>))
        | None \<Rightarrow> Inr (record\<lparr>rc_events := es\<rparr>)))"

definition Get :: "string \<Rightarrow> jdb \<Rightarrow> ep_error + episode_record" where
  "Get eid d =
     (if \<not> controlIDPattern eid then Inl (ErrInvalid ''episode ID must match the pattern'')
      else bindE (scanRecord (episode_where eid d)) (\<lambda>record. loadEvents record d))"

section \<open>Writing\<close>

definition new_record :: "request \<Rightarrow> string \<Rightarrow> episode_record" where
  "new_record rq now = \<lparr>rc_id = jr_id rq, rc_request = request_Digest rq, rc_bundle = jr_bundle rq, rc_scenario = jr_path rq,
     rc_version = jr_version rq, rc_revision = jr_revision rq, rc_status = StatusCreated, rc_sequence = 0, rc_incomplete = True,
     rc_outcome = [], rc_evidenceDigest = [], rc_evidence = None, rc_errorClass = [], rc_created = now, rc_updated = now,
     rc_events = [\<lparr>lc_sequence = 0, lc_from = None, lc_to = StatusCreated\<rparr>]\<rparr>"

definition new_row :: "request \<Rightarrow> string \<Rightarrow> episode_row" where
  "new_row rq now = \<lparr>er_id = jr_id rq, er_request = request_Digest rq, er_bundle = jr_bundle rq, er_scenario = jr_path rq,
     er_version = jr_version rq, er_revision = jr_revision rq, er_status = StatusCreated, er_sequence = 0, er_outcome = [],
     er_evidence = None, er_evidenceDigest = [], er_errorClass = [], er_created = now, er_updated = now\<rparr>"

text \<open>The record and whether it was created.\<close>

definition createOrLoad :: "instant \<Rightarrow> request \<Rightarrow> jdb \<Rightarrow> (ep_error + episode_record \<times> bool) \<times> jdb" where
  "createOrLoad now rq = transaction (\<lambda>d.
     case scanRecord (episode_where (jr_id rq) d) of
       Inr record \<Rightarrow>
         if rc_request record \<noteq> request_Digest rq then Inl ErrEpisodeConflict
         else bindE (loadEvents record d) (\<lambda>record'. Inr ((record', False), d))
     | Inl e \<Rightarrow>
         if e \<noteq> ErrEpisodeNotFound then Inl e
         else if length (episodes d) \<ge> MaxEpisodeRecords then Inl ErrEpisodeLimit
         else
           let stamp = format_nano now; d1 = d\<lparr>episodes := episodes d @ [new_row rq stamp]\<rparr>
           in bindE (insertEvent (jr_id rq) \<lparr>lc_sequence = 0, lc_from = None, lc_to = StatusCreated\<rparr> d1) (\<lambda>d2.
              Inr ((new_record rq stamp, True), d2)))"

definition appendTransition :: "instant \<Rightarrow> request \<Rightarrow> int \<Rightarrow> event \<Rightarrow> jdb \<Rightarrow> (ep_error + unit) \<times> jdb" where
  "appendTransition now rq expectedSequence e = transaction (\<lambda>d.
     if lc_sequence e \<noteq> expectedSequence + 1 \<or> (case lc_from e of None \<Rightarrow> True | Some f \<Rightarrow> \<not> allowedTransition f (lc_to e)) \<or> IsTerminal (lc_to e)
     then Inl (ErrInvalid ''invalid durable Episode transition'')
     else
       let (changed, d1) = casEpisode
             (\<lambda>r. er_id r = jr_id rq \<and> er_request r = request_Digest rq \<and> Some (er_status r) = lc_from e \<and> er_sequence r = expectedSequence)
             (\<lambda>r. r\<lparr>er_status := lc_to e, er_sequence := lc_sequence e, er_updated := format_nano now\<rparr>) d
       in if changed \<noteq> 1 then Inl ErrEpisodeConflict
          else bindE (insertEvent (jr_id rq) e d1) (\<lambda>d2. Inr ((), d2)))"

definition check_completion :: "request \<Rightarrow> int \<Rightarrow> envelope \<Rightarrow> ep_error + evidence \<times> event" where
  "check_completion rq expectedSequence v =
     (case vp_evidence v of
        None \<Rightarrow> Inl (ErrInvalid ''completed Episode evidence is invalid'')
      | Some e \<Rightarrow>
          let terminal = lf_current (ev_lifecycle e) in
          if \<not> IsTerminal terminal \<or> terminal = StatusRuntimeError \<or> terminal = StatusCancelled
          then Inl (ErrInvalid ''completed Episode evidence is invalid'')
          else if ev_episodeID e \<noteq> jr_id rq \<or> ev_bundle e \<noteq> jr_bundle rq \<or> ev_scenario e \<noteq> jr_path rq
          then Inl (ErrInvalid ''completed Episode evidence identity mismatch'')
          else if evidence_Digest e \<noteq> vp_digest v then Inl (ErrInvalid ''completed Episode evidence digest mismatch'')
          else if length (canonical_JSON (envelope_json v)) > MaxReportBytes then Inl ErrEpisodeLimit
          else if lf_events (ev_lifecycle e) = [] then Inl ErrIndexPanic
          else
            let ev = last (lf_events (ev_lifecycle e)) in
            if lc_sequence ev \<noteq> expectedSequence + 1 \<or> lc_to ev \<noteq> terminal \<or> lc_from ev \<noteq> Some StatusEvaluating
            then Inl (ErrInvalid ''completed Episode lifecycle does not match durable journal'')
            else Inr (e, ev))"

definition complete :: "instant \<Rightarrow> request \<Rightarrow> int \<Rightarrow> envelope \<Rightarrow> jdb \<Rightarrow> (ep_error + unit) \<times> jdb" where
  "complete now rq expectedSequence v = transaction (\<lambda>d.
     bindE (check_completion rq expectedSequence v) (\<lambda>(e, ev).
       let (changed, d1) = casEpisode
             (\<lambda>r. er_id r = jr_id rq \<and> er_request r = request_Digest rq \<and> er_status r = StatusEvaluating \<and> er_sequence r = expectedSequence)
             (\<lambda>r. r\<lparr>er_status := lf_current (ev_lifecycle e), er_sequence := lc_sequence ev, er_outcome := ev_outcome e, er_evidence := Some v,
                    er_evidenceDigest := vp_digest v, er_updated := format_nano now\<rparr>) d
       in if changed \<noteq> 1 then Inl ErrEpisodeConflict
          else bindE (insertEvent (jr_id rq) ev d1) (\<lambda>d2. Inr ((), d2))))"

definition fail_episode :: "instant \<Rightarrow> request \<Rightarrow> int \<Rightarrow> string \<Rightarrow> jdb \<Rightarrow> (ep_error + unit) \<times> jdb" where
  "fail_episode now rq expectedSequence errorClass = transaction (\<lambda>d.
     case find_row (\<lambda>r. er_id r = jr_id rq \<and> er_request r = request_Digest rq) (episodes d) of
       None \<Rightarrow> Inl (ErrConstraint ''sql: no rows in result set'')
     | Some row \<Rightarrow>
         if er_sequence row \<noteq> expectedSequence \<or> IsTerminal (er_status row) \<or> \<not> allowedTransition (er_status row) StatusRuntimeError
         then Inr ((), d)
         else
           let (changed, d1) = casEpisode
                 (\<lambda>r. er_id r = jr_id rq \<and> er_request r = request_Digest rq \<and> er_status r = er_status row \<and> er_sequence r = er_sequence row)
                 (\<lambda>r. r\<lparr>er_status := StatusRuntimeError, er_sequence := er_sequence row + 1, er_errorClass := errorClass,
                        er_updated := format_nano now\<rparr>) d
           in if changed \<noteq> 1 then Inl ErrEpisodeConflict
              else bindE (insertEvent (jr_id rq) \<lparr>lc_sequence = er_sequence row + 1, lc_from = Some (er_status row), lc_to = StatusRuntimeError\<rparr> d1)
                (\<lambda>d2. Inr ((), d2)))"

section \<open>RunPersistent\<close>

text \<open>
  The observer keeps the last persisted sequence next to the journal. \<open>clock k\<close> is the wall clock
  at the write of transition \<open>k\<close>; 0 is the reservation.
\<close>

definition journal_observer :: "(int \<Rightarrow> instant) \<Rightarrow> request \<Rightarrow> (int \<times> jdb) observer" where
  "journal_observer clock rq e s =
     (if IsTerminal (lc_to e) then (Inr (), s)
      else case appendTransition (clock (lc_sequence e)) rq (fst s) e (snd s) of
        (Inl err, d) \<Rightarrow> (Inl err, (fst s, d))
      | (Inr _, d) \<Rightarrow> (Inr (), (lc_sequence e, d)))"

definition replay :: "episode_record \<Rightarrow> ep_error + envelope" where
  "replay record =
     (case rc_evidence record of
        Some v \<Rightarrow>
          if rc_status record = StatusSucceeded \<or> rc_status record = StatusAssertionFailed then Inr v
          else if \<not> IsTerminal (rc_status record) then Inl ErrEpisodeIncomplete
          else Inl ErrEpisodeFailed
      | None \<Rightarrow> if \<not> IsTerminal (rc_status record) then Inl ErrEpisodeIncomplete else Inl ErrEpisodeFailed)"

text \<open>The envelope and whether it was replayed.\<close>

definition RunPersistent ::
  "libs \<Rightarrow> (int \<Rightarrow> instant) \<Rightarrow> artifact option \<Rightarrow> string \<Rightarrow> string \<Rightarrow> string \<Rightarrow> string \<Rightarrow> jdb \<Rightarrow> (ep_error + envelope \<times> bool) \<times> jdb" where
  "RunPersistent l clock artifact eid path version revision d =
     (case resolveRequest artifact eid path version revision of
        Inl e \<Rightarrow> (Inl e, d)
      | Inr rq \<Rightarrow>
          (case createOrLoad (clock 0) rq d of
             (Inl e, d1) \<Rightarrow> (Inl e, d1)
           | (Inr (record, created), d1) \<Rightarrow>
               if \<not> created then (map_sum id (\<lambda>v. (v, True)) (replay record), d1)
               else
                 (case episode_run l (Some (journal_observer clock rq)) artifact (jr_id rq) (jr_path rq) (jr_version rq) (jr_revision rq) (0, d1) of
                    (Inl e, (sequence, d2)) \<Rightarrow> (Inl e, snd (fail_episode (clock (sequence + 1)) rq sequence ''RUNTIME_ERROR'' d2))
                  | (Inr v, (sequence, d2)) \<Rightarrow>
                      (case complete (clock (sequence + 1)) rq sequence v d2 of
                         (Inl e, d3) \<Rightarrow> (Inl e, d3)
                       | (Inr _, d3) \<Rightarrow> (Inr (v, False), d3)))))"

section \<open>Opening the file\<close>

text \<open>
  \<open>migrate\<close>: the file's \<open>application_id\<close>, \<open>user_version\<close> and table names. The hook may refuse at
  either stage; the transaction then leaves the file as it was.
\<close>

record journal_file =
  jf_application :: int
  jf_version :: int
  jf_tables :: "string list"

datatype migration_stage = SchemaApplied | MetadataSet

definition journalApplicationID :: int where "journalApplicationID = 0x45504a4c"

definition journalSchemaVersion :: int where "journalSchemaVersion = 2"

definition journal_tables :: "string list" where
  "journal_tables = [''episodes'', ''episode_events'', ''episode_tasks'', ''episode_attempts'']"

definition journal_migrate :: "(migration_stage \<Rightarrow> ep_error + unit) \<Rightarrow> journal_file \<Rightarrow> (ep_error + unit) \<times> journal_file" where
  "journal_migrate hook = transaction (\<lambda>f.
     if jf_application f \<noteq> 0 \<and> jf_application f \<noteq> journalApplicationID
     then Inl (ErrInvalid ''SQLite application_id does not belong to an Episode Journal'')
     else if jf_version f > journalSchemaVersion then Inl (ErrInvalid ''episode journal schema version is newer than supported'')
     else if jf_application f = 0 \<and> jf_tables f \<noteq> []
     then Inl (ErrInvalid ''unidentified non-empty SQLite database is not an Episode Journal'')
     else
       bindE (hook SchemaApplied) (\<lambda>_.
       bindE (hook MetadataSet) (\<lambda>_.
       Inr ((), \<lparr>jf_application = journalApplicationID, jf_version = journalSchemaVersion,
                 jf_tables = jf_tables f @ filter (\<lambda>t. t \<notin> set (jf_tables f)) journal_tables\<rparr>))))"

end
