(* ===== verification/Remote.thy ===== *)
theory Remote
  imports Journal
begin

text \<open>
  \<open>internal/episode/remote.go\<close>: episodes as tasks that remote workers claim under a lease, with a
  fencing token per claim. Time and the random attempt identifier are arguments; where a function
  reads the clock twice it takes two instants.
\<close>

definition task_where :: "string \<Rightarrow> jdb \<Rightarrow> task_row option" where
  "task_where eid d = find_row (\<lambda>t. tr_episode t = eid) (tasks d)"

definition attempts_where :: "string \<Rightarrow> jdb \<Rightarrow> attempt_row list" where
  "attempts_where eid d = sort_key at_number (filter (\<lambda>a. at_episode a = eid) (attempts d))"

definition casTask :: "(task_row \<Rightarrow> bool) \<Rightarrow> (task_row \<Rightarrow> task_row) \<Rightarrow> jdb \<Rightarrow> nat \<times> jdb" where
  "casTask p f d = (affected p (tasks d), d\<lparr>tasks := update_where p f (tasks d)\<rparr>)"

definition casAttempt :: "(attempt_row \<Rightarrow> bool) \<Rightarrow> (attempt_row \<Rightarrow> attempt_row) \<Rightarrow> jdb \<Rightarrow> nat \<times> jdb" where
  "casAttempt p f d = (affected p (attempts d), d\<lparr>attempts := update_where p f (attempts d)\<rparr>)"

definition requireOneRow :: "ep_error \<Rightarrow> nat \<times> jdb \<Rightarrow> ep_error + jdb" where
  "requireOneRow mismatch r = (if fst r \<noteq> 1 then Inl mismatch else Inr (snd r))"

section \<open>Reading a task\<close>

record task_record =
  tk_episode :: episode_record
  tk_row :: task_row
  tk_attempts :: "attempt_row list"

definition parsed :: "string \<Rightarrow> instant option" where
  "parsed s = map_option fst (parse_nano s)"

definition valid_lineage :: "task_record \<Rightarrow> instant \<Rightarrow> nat \<Rightarrow> attempt_row \<Rightarrow> ep_error + unit" where
  "valid_lineage task created index a =
     (if at_episode a \<noteq> rc_id (tk_episode task) \<or> at_number a \<noteq> int index + 1 \<or> at_fence a \<le> 0 \<or> at_fence a > tr_fence (tk_row task)
      then Inl (ErrInvalid ''Episode attempt lineage is invalid'')
      else case (parsed (at_created a), parsed (at_updated a)) of
        (Some c, Some u) \<Rightarrow>
          if u < c \<or> c < created then Inl (ErrInvalid ''Episode attempt timestamp lineage is invalid'') else Inr ()
      | _ \<Rightarrow> Inl (ErrInvalid ''Episode attempt timestamp lineage is invalid''))"

fun valid_lineages :: "task_record \<Rightarrow> instant \<Rightarrow> nat \<Rightarrow> attempt_row list \<Rightarrow> ep_error + unit" where
  "valid_lineages task created index [] = Inr ()"
| "valid_lineages task created index (a # as) =
     bindE (valid_lineage task created index a) (\<lambda>_. valid_lineages task created (Suc index) as)"

definition valid_task_state :: "task_record \<Rightarrow> ep_error + unit" where
  "valid_task_state task =
     (let t = tk_row task; as = tk_attempts task in
      case tr_state t of
        TaskQueued \<Rightarrow> guardE (tr_active t \<noteq> [] \<or> tr_final t \<noteq> [] \<or> tr_finalDigest t \<noteq> [])
          (ErrInvalid ''queued Episode task contains active or terminal identity'')
      | TaskLeased \<Rightarrow>
          if tr_active t = [] \<or> as = [] then Inl (ErrInvalid ''leased Episode task has no active attempt'')
          else guardE (at_id (last as) \<noteq> tr_active t \<or> at_state (last as) \<noteq> AttemptLeased \<or> at_fence (last as) \<noteq> tr_fence t)
            (ErrInvalid ''leased Episode task active attempt is inconsistent'')
      | TaskCompleted \<Rightarrow>
          if tr_active t \<noteq> [] \<or> tr_final t = [] \<or> tr_finalDigest t = [] \<or> rc_evidence (tk_episode task) = None \<or>
             rc_evidenceDigest (tk_episode task) \<noteq> tr_finalDigest t
          then Inl (ErrInvalid ''completed Episode task terminal evidence is inconsistent'')
          else if as = [] then Inl (ErrInvalid ''completed Episode task has no final attempt'')
          else guardE (at_id (last as) \<noteq> tr_final t \<or> at_state (last as) \<noteq> AttemptCompleted \<or> at_commit (last as) \<noteq> CommitCommitted)
            (ErrInvalid ''completed Episode task final attempt is inconsistent'')
      | _ \<Rightarrow> guardE (tr_active t \<noteq> [] \<or> tr_final t \<noteq> [] \<or> tr_finalDigest t \<noteq> [])
          (ErrInvalid ''terminal Episode task contains active or completed evidence identity''))"

definition validateTaskRecord :: "task_record \<Rightarrow> ep_error + unit" where
  "validateTaskRecord task =
     (let t = tk_row task in
      case parsed (tr_created t) of
        None \<Rightarrow> Inl (ErrInvalid ''Episode task creation timestamp is invalid'')
      | Some created \<Rightarrow>
          bindE (case parsed (tr_updated t) of
                   None \<Rightarrow> Inl (ErrInvalid ''Episode task update timestamp is invalid'')
                 | Some u \<Rightarrow> guardE (u < created) (ErrInvalid ''Episode task update timestamp is invalid'')) (\<lambda>_.
          if tr_attempts t \<noteq> int (length (tk_attempts task)) \<or> tr_attempts t < 0 \<or> tr_attempts t > tr_max t \<or> tr_max t < 1 \<or>
             tr_max t > int MaxEpisodeAttempts
          then Inl (ErrInvalid ''Episode task attempt accounting is invalid'')
          else bindE (valid_lineages task created 0 (tk_attempts task)) (\<lambda>_. valid_task_state task)))"

definition GetTask :: "string \<Rightarrow> jdb \<Rightarrow> ep_error + task_record" where
  "GetTask eid d =
     (if \<not> controlIDPattern eid then Inl (ErrInvalid ''episode ID is invalid'')
      else case task_where eid d of
        None \<Rightarrow> Inl ErrEpisodeNotFound
      | Some t \<Rightarrow>
          bindE (Get eid d) (\<lambda>record.
            let as = attempts_where eid d; task = \<lparr>tk_episode = record, tk_row = t, tk_attempts = as\<rparr> in
            if list_ex (\<lambda>a. parsed (at_lease a) = None) as then Inl (ErrInvalid ''Episode attempt lease timestamp is invalid'')
            else bindE (validateTaskRecord task) (\<lambda>_. Inr task)))"

section \<open>Submitting\<close>

text \<open>
  The bundle bytes are opened by \<open>bundle.OpenBytes\<close>, the argument \<open>openBytes\<close>. The reservation
  of the episode and the insertion of the task are two transactions. The result is the task and
  whether it was created. When the episode existed before but has no task, the second transaction
  reads the episode with \<open>j.Get\<close>, through the pool: the pool has a single connection
  (\<open>SetMaxOpenConns(1)\<close> in \<open>journal.go\<close>) and the transaction holds it, so the read waits until the
  context of the call ends and the call fails, which is \<open>ErrConnectionBusy\<close> here.
\<close>

definition new_task :: "string \<Rightarrow> string \<Rightarrow> effect_profile \<Rightarrow> int \<Rightarrow> string \<Rightarrow> task_row" where
  "new_task eid bytes profile maxAttempts now =
     \<lparr>tr_episode = eid, tr_bundle = bytes, tr_profile = profile, tr_max = maxAttempts, tr_state = TaskQueued, tr_attempts = 0,
      tr_fence = 0, tr_active = [], tr_cancel = False, tr_final = [], tr_finalDigest = [], tr_created = now, tr_updated = now\<rparr>"

definition submit_tx :: "instant \<Rightarrow> string \<Rightarrow> string \<Rightarrow> effect_profile \<Rightarrow> int \<Rightarrow> bool \<Rightarrow> jdb \<Rightarrow> (ep_error + bool) \<times> jdb" where
  "submit_tx now eid bytes profile maxAttempts episodeCreated = transaction (\<lambda>d.
     case task_where eid d of
       Some t \<Rightarrow> if tr_profile t \<noteq> profile \<or> tr_max t \<noteq> maxAttempts then Inl ErrEpisodeConflict else Inr (False, d)
     | None \<Rightarrow>
         bindE (if episodeCreated then Inr ()
                else Inl ErrConnectionBusy) (\<lambda>_.
         Inr (True, d\<lparr>tasks := tasks d @ [new_task eid bytes profile maxAttempts (format_nano now)]\<rparr>)))"

definition Submit ::
  "(string \<Rightarrow> artifact option) \<Rightarrow> instant \<Rightarrow> instant \<Rightarrow> string \<Rightarrow> string \<Rightarrow> string \<Rightarrow> string \<Rightarrow> string \<Rightarrow> effect_profile \<Rightarrow> int \<Rightarrow> jdb \<Rightarrow>
     (ep_error + task_record \<times> bool) \<times> jdb" where
  "Submit openBytes now1 now2 bytes eid path version revision profile maxAttempts d =
     (if maxAttempts < 1 \<or> maxAttempts > int MaxEpisodeAttempts then (Inl (ErrInvalid ''max attempts must be within 1..16''), d)
      else case openBytes bytes of
        None \<Rightarrow> (Inl (ErrInvalid ''bundle''), d)
      | Some a \<Rightarrow>
          (case resolveRequest (Some a) eid path version revision of
             Inl e \<Rightarrow> (Inl e, d)
           | Inr rq \<Rightarrow>
               (case createOrLoad now1 rq d of
                  (Inl e, d1) \<Rightarrow> (Inl e, d1)
                | (Inr (_, episodeCreated), d1) \<Rightarrow>
                    (case submit_tx now2 eid bytes profile maxAttempts episodeCreated d1 of
                       (Inl e, d2) \<Rightarrow> (Inl e, d2)
                     | (Inr created, d2) \<Rightarrow> (map_sum id (\<lambda>t. (t, created)) (GetTask eid d2), d2)))))"

section \<open>Leases\<close>

definition lease_ok :: "int \<Rightarrow> bool" where
  "lease_ok lease \<longleftrightarrow> 0 < lease \<and> lease \<le> int MaxLeaseSeconds * second"

definition cancelParentTx :: "string \<Rightarrow> string \<Rightarrow> jdb \<Rightarrow> ep_error + jdb" where
  "cancelParentTx eid now d =
     (let (changed, d1) = casEpisode (\<lambda>r. er_id r = eid \<and> er_status r = StatusCreated \<and> er_sequence r = 0)
            (\<lambda>r. r\<lparr>er_status := StatusCancelled, er_sequence := 1, er_errorClass := ''CANCELLED'', er_updated := now\<rparr>) d
      in if changed = 0 then
           (case episode_where eid d of
              None \<Rightarrow> Inl (ErrConstraint ''sql: no rows in result set'')
            | Some r \<Rightarrow> if er_status r = StatusCancelled then Inr d1 else Inl ErrEpisodeConflict)
         else insertEvent eid \<lparr>lc_sequence = 1, lc_from = Some StatusCreated, lc_to = StatusCancelled\<rparr> d1)"

text \<open>
  The rows of \<open>recoverExpiredTx\<close>: leased tasks whose active attempt has a lease text that is at
  most the text of the current instant (SQLite compares the two strings).
\<close>

definition active_attempt :: "jdb \<Rightarrow> task_row \<Rightarrow> attempt_row option" where
  "active_attempt d t = find_row (\<lambda>a. at_id a = tr_active t) (attempts d)"

definition expired_tasks :: "instant \<Rightarrow> jdb \<Rightarrow> task_row list" where
  "expired_tasks now d = filter (\<lambda>t. tr_state t = TaskLeased \<and>
     (case active_attempt d t of
        None \<Rightarrow> False
      | Some a \<Rightarrow> at_state a = AttemptLeased \<and> at_lease a \<le> format_nano now)) (tasks d)"

definition expiry_outcome :: "task_row \<Rightarrow> attempt_state \<times> commit_state \<times> task_state" where
  "expiry_outcome t =
     (if tr_profile t = EffectExternal then (AttemptCommitUnknown, CommitUnknown, TaskCommitUnknown)
      else if tr_cancel t then (AttemptCancelled, CommitNoEffect, TaskCancelled)
      else (AttemptExpired, CommitNoEffect, if tr_attempts t < tr_max t then TaskQueued else TaskFailed))"

definition release_task :: "string \<Rightarrow> string \<Rightarrow> int \<Rightarrow> task_state \<Rightarrow> string \<Rightarrow> jdb \<Rightarrow> ep_error + jdb" where
  "release_task eid attemptID fence taskState stamp d =
     requireOneRow ErrStaleAttempt (casTask
       (\<lambda>t. tr_episode t = eid \<and> tr_active t = attemptID \<and> tr_fence t = fence \<and> tr_state t = TaskLeased)
       (\<lambda>t. t\<lparr>tr_state := taskState, tr_active := [], tr_updated := stamp\<rparr>) d)"

definition finish_attempt :: "string \<Rightarrow> int \<Rightarrow> attempt_state \<Rightarrow> commit_state \<Rightarrow> string \<Rightarrow> string \<Rightarrow> jdb \<Rightarrow> ep_error + jdb" where
  "finish_attempt attemptID fence attemptState commitState errorClass stamp d =
     requireOneRow ErrStaleAttempt (casAttempt
       (\<lambda>a. at_id a = attemptID \<and> at_state a = AttemptLeased \<and> at_fence a = fence)
       (\<lambda>a. a\<lparr>at_state := attemptState, at_commit := commitState, at_errorClass := errorClass, at_updated := stamp\<rparr>) d)"

definition expire_one :: "string \<Rightarrow> task_row \<Rightarrow> jdb \<Rightarrow> ep_error + jdb" where
  "expire_one stamp t d =
     (let (attemptState, commitState, taskState) = expiry_outcome t in
      bindE (finish_attempt (tr_active t) (tr_fence t) attemptState commitState ''LEASE_EXPIRED'' stamp d) (\<lambda>d1.
      bindE (release_task (tr_episode t) (tr_active t) (tr_fence t) taskState stamp d1) (\<lambda>d2.
      if taskState = TaskCancelled then cancelParentTx (tr_episode t) stamp d2 else Inr d2)))"

fun expire_all :: "string \<Rightarrow> task_row list \<Rightarrow> jdb \<Rightarrow> ep_error + jdb" where
  "expire_all stamp [] d = Inr d"
| "expire_all stamp (t # ts) d = bindE (expire_one stamp t d) (expire_all stamp ts)"

definition recoverExpiredTx :: "instant \<Rightarrow> jdb \<Rightarrow> ep_error + nat \<times> jdb" where
  "recoverExpiredTx now d =
     bindE (expire_all (format_nano now) (expired_tasks now d) d) (\<lambda>d'. Inr (length (expired_tasks now d), d'))"

definition RecoverExpired :: "instant \<Rightarrow> jdb \<Rightarrow> (ep_error + nat) \<times> jdb" where
  "RecoverExpired now = transaction (recoverExpiredTx now)"

record claim =
  cl_episode :: string
  cl_attempt :: string
  cl_number :: int
  cl_fence :: int
  cl_lease :: string
  cl_bundle :: string
  cl_bundleDigest :: string
  cl_scenario :: string
  cl_version :: string
  cl_revision :: string
  cl_profile :: effect_profile

text \<open>The queue order: creation time text, then the episode identifier; an absent profile takes any task.\<close>

definition claim_before :: "task_row \<Rightarrow> task_row \<Rightarrow> bool" where
  "claim_before s t \<longleftrightarrow> tr_created s < tr_created t \<or> (tr_created s = tr_created t \<and> tr_episode s < tr_episode t)"

definition claimable :: "effect_profile option \<Rightarrow> jdb \<Rightarrow> task_row list" where
  "claimable profile d = sort_by claim_before (filter (\<lambda>t. tr_state t = TaskQueued \<and> \<not> tr_cancel t \<and>
     (case profile of None \<Rightarrow> True | Some p \<Rightarrow> tr_profile t = p) \<and> episode_where (tr_episode t) d \<noteq> None) (tasks d))"

definition ClaimProfile :: "instant \<Rightarrow> string \<Rightarrow> string \<Rightarrow> int \<Rightarrow> effect_profile option \<Rightarrow> jdb \<Rightarrow> (ep_error + claim) \<times> jdb" where
  "ClaimProfile now attemptID workerID lease profile = transaction (\<lambda>d.
     if \<not> controlIDPattern workerID then Inl (ErrInvalid ''worker ID must match the pattern'')
     else if \<not> lease_ok lease then Inl (ErrInvalid ''lease must be within 1s..3600s'')
     else
       bindE (recoverExpiredTx now d) (\<lambda>(_, d1).
       case claimable profile d1 of
         [] \<Rightarrow> Inl ErrNoClaimableEpisode
       | t # _ \<Rightarrow>
           (case episode_where (tr_episode t) d1 of
              None \<Rightarrow> Inl ErrNoClaimableEpisode
            | Some e \<Rightarrow>
                let number = tr_attempts t + 1; fence = tr_fence t + 1; stamp = format_nano now;
                    c = \<lparr>cl_episode = tr_episode t, cl_attempt = attemptID, cl_number = number, cl_fence = fence,
                         cl_lease = format_nano (now + lease), cl_bundle = tr_bundle t, cl_bundleDigest = er_bundle e,
                         cl_scenario = er_scenario e, cl_version = er_version e, cl_revision = er_revision e, cl_profile = tr_profile t\<rparr>
                in bindE (requireOneRow ErrNoClaimableEpisode (casTask
                         (\<lambda>r. tr_episode r = tr_episode t \<and> tr_state r = TaskQueued)
                         (\<lambda>r. r\<lparr>tr_state := TaskLeased, tr_attempts := number, tr_fence := fence, tr_active := attemptID, tr_updated := stamp\<rparr>) d1)) (\<lambda>d2.
                   if row_exists (\<lambda>a. at_id a = attemptID) (attempts d2) \<or>
                      row_exists (\<lambda>a. at_episode a = tr_episode t \<and> at_number a = number) (attempts d2)
                   then Inl (ErrConstraint ''episode_attempts'')
                   else if number > int MaxEpisodeAttempts then Inl (ErrConstraint ''episode_attempts'')
                   else Inr (c, d2\<lparr>attempts := attempts d2 @
                     [\<lparr>at_id = attemptID, at_episode = tr_episode t, at_number = number, at_worker = workerID, at_fence = fence,
                       at_state = AttemptLeased, at_commit = CommitNotStarted, at_lease = cl_lease c, at_errorClass = [],
                       at_created = stamp, at_updated = stamp\<rparr>]\<rparr>)))))"

definition Claim :: "instant \<Rightarrow> string \<Rightarrow> string \<Rightarrow> int \<Rightarrow> jdb \<Rightarrow> (ep_error + claim) \<times> jdb" where
  "Claim now attemptID workerID lease = ClaimProfile now attemptID workerID lease None"

section \<open>Working on a claim\<close>

record heartbeat_result =
  hb_lease :: string
  hb_cancel :: bool

text \<open>A lease text that cannot be parsed counts as expired.\<close>

definition lease_alive :: "instant \<Rightarrow> string \<Rightarrow> bool" where
  "lease_alive now lease = (case parsed lease of None \<Rightarrow> False | Some t \<Rightarrow> now < t)"

definition Heartbeat :: "instant \<Rightarrow> string \<Rightarrow> string \<Rightarrow> int \<Rightarrow> int \<Rightarrow> jdb \<Rightarrow> (ep_error + heartbeat_result) \<times> jdb" where
  "Heartbeat now eid attemptID fence lease = transaction (\<lambda>d.
     if \<not> lease_ok lease then Inl (ErrInvalid ''lease must be within 1s..3600s'')
     else case find_row (\<lambda>t. tr_episode t = eid \<and> tr_state t = TaskLeased \<and> tr_active t = attemptID \<and> tr_fence t = fence) (tasks d) of
       None \<Rightarrow> Inl ErrStaleAttempt
     | Some t \<Rightarrow>
         (case active_attempt d t of
            None \<Rightarrow> Inl ErrStaleAttempt
          | Some a \<Rightarrow>
              if at_state a \<noteq> AttemptLeased \<or> \<not> lease_alive now (at_lease a) then Inl ErrStaleAttempt
              else
                let nxt = format_nano (now + lease) in
                bindE (requireOneRow ErrStaleAttempt (casAttempt
                    (\<lambda>r. at_id r = attemptID \<and> at_fence r = fence \<and> at_state r = AttemptLeased)
                    (\<lambda>r. r\<lparr>at_lease := nxt, at_updated := format_nano now\<rparr>) d)) (\<lambda>d1.
                Inr (\<lparr>hb_lease = nxt, hb_cancel = tr_cancel t\<rparr>, d1))))"

definition validateRemoteEnvelope :: "request \<Rightarrow> envelope \<Rightarrow> ep_error + evidence" where
  "validateRemoteEnvelope rq v =
     (case vp_evidence v of
        None \<Rightarrow> Inl (ErrInvalid ''Episode Evidence envelope identity is invalid'')
      | Some e \<Rightarrow>
          if vp_apiVersion v \<noteq> ''statetwin.dev/v1alpha1'' \<or> vp_kind v \<noteq> ''EpisodeEvidenceEnvelope''
          then Inl (ErrInvalid ''Episode Evidence envelope identity is invalid'')
          else if ev_apiVersion e \<noteq> ''statetwin.dev/v1alpha1'' \<or> ev_doc e \<noteq> ''EpisodeEvidence'' \<or>
                  ev_format e \<noteq> ''statetwin.dev/episode-evidence/v1alpha1'' \<or> ev_episodeID e \<noteq> jr_id rq \<or> ev_bundle e \<noteq> jr_bundle rq \<or>
                  ev_scenario e \<noteq> jr_path rq \<or> ev_version e \<noteq> jr_version rq \<or> ev_revision e \<noteq> jr_revision rq
          then Inl (ErrInvalid ''Episode Evidence does not match remote task identity'')
          else
            let l = ev_lifecycle e; es = lf_events l in
            if lf_current l \<noteq> StatusSucceeded \<and> lf_current l \<noteq> StatusAssertionFailed
            then Inl (ErrInvalid ''remote completion requires successful or assertion-failed Evidence'')
            else if length es \<noteq> 6 \<or> hd es \<noteq> \<lparr>lc_sequence = 0, lc_from = None, lc_to = StatusCreated\<rparr>
            then Inl (ErrInvalid ''remote Episode lifecycle is invalid'')
            else if chain_ok 1 StatusCreated (tl es) \<noteq> Inr ()
            then Inl (ErrInvalid ''remote Episode lifecycle transition chain is invalid'')
            else if evidence_Digest e \<noteq> vp_digest v then Inl (ErrInvalid ''remote Episode Evidence digest mismatch'')
            else Inr e)"

fun insertEvents :: "string \<Rightarrow> event list \<Rightarrow> jdb \<Rightarrow> ep_error + jdb" where
  "insertEvents eid [] d = Inr d"
| "insertEvents eid (e # es) d = bindE (insertEvent eid e d) (insertEvents eid es)"

text \<open>The envelope and whether it was replayed. The clock is read for the lease check and again for the rows.\<close>

definition CompleteClaim ::
  "instant \<Rightarrow> instant \<Rightarrow> string \<Rightarrow> string \<Rightarrow> int \<Rightarrow> envelope option \<Rightarrow> jdb \<Rightarrow> (ep_error + envelope option \<times> bool) \<times> jdb" where
  "CompleteClaim now1 now2 eid attemptID fence envelope = transaction (\<lambda>d.
     case envelope of
       None \<Rightarrow> Inl (ErrInvalid ''Episode Evidence is required'')
     | Some v \<Rightarrow>
         if vp_evidence v = None then Inl (ErrInvalid ''Episode Evidence is required'')
         else case task_where eid d of
           None \<Rightarrow> Inl ErrEpisodeNotFound
         | Some t \<Rightarrow>
             if tr_state t = TaskCompleted then
               (if tr_final t = attemptID \<and> tr_fence t = fence \<and> tr_finalDigest t = vp_digest v then
                  bindE (scanRecord (episode_where eid d)) (\<lambda>r.
                  bindE (loadEvents r d) (\<lambda>record. Inr ((rc_evidence record, True), d)))
                else Inl ErrStaleAttempt)
             else if tr_state t \<noteq> TaskLeased \<or> tr_active t \<noteq> attemptID \<or> tr_fence t \<noteq> fence then Inl ErrStaleAttempt
             else if tr_cancel t then Inl ErrCancelRequested
             else case episode_where eid d of
               None \<Rightarrow> Inl (ErrConstraint ''sql: no rows in result set'')
             | Some row \<Rightarrow>
                 bindE (validateRemoteEnvelope (row_request row) v) (\<lambda>e.
                 case find_row (\<lambda>a. at_id a = attemptID \<and> at_episode a = eid \<and> at_fence a = fence) (attempts d) of
                   None \<Rightarrow> Inl ErrStaleAttempt
                 | Some a \<Rightarrow>
                     if at_state a \<noteq> AttemptLeased \<or> \<not> lease_alive now1 (at_lease a) then Inl ErrStaleAttempt
                     else if length (canonical_JSON (envelope_json v)) > MaxReportBytes then Inl ErrEpisodeLimit
                     else
                       let now = format_nano now2; es = lf_events (ev_lifecycle e) in
                       bindE (insertEvents eid (tl es) d) (\<lambda>d1.
                       bindE (requireOneRow ErrStaleAttempt (casEpisode
                           (\<lambda>r. er_id r = eid \<and> er_status r = StatusCreated \<and> er_sequence r = 0)
                           (\<lambda>r. r\<lparr>er_status := lf_current (ev_lifecycle e), er_sequence := int (length es) - 1, er_outcome := ev_outcome e,
                                  er_evidence := Some v, er_evidenceDigest := vp_digest v, er_updated := now\<rparr>) d1)) (\<lambda>d2.
                       bindE (requireOneRow ErrStaleAttempt (casAttempt
                           (\<lambda>r. at_id r = attemptID \<and> at_state r = AttemptLeased \<and> at_fence r = fence)
                           (\<lambda>r. r\<lparr>at_state := AttemptCompleted, at_commit := CommitCommitted, at_updated := now\<rparr>) d2)) (\<lambda>d3.
                       bindE (requireOneRow ErrStaleAttempt (casTask
                           (\<lambda>r. tr_episode r = eid \<and> tr_active r = attemptID \<and> tr_fence r = fence \<and> tr_state r = TaskLeased)
                           (\<lambda>r. r\<lparr>tr_state := TaskCompleted, tr_active := [], tr_final := attemptID, tr_finalDigest := vp_digest v,
                                  tr_updated := now\<rparr>) d3)) (\<lambda>d4.
                       Inr ((Some v, False), d4)))))))"

definition fail_outcome :: "task_row \<Rightarrow> commit_state \<Rightarrow> attempt_state \<times> task_state" where
  "fail_outcome t commitState =
     (if commitState = CommitUnknown then (AttemptCommitUnknown, TaskCommitUnknown)
      else if tr_cancel t then (AttemptCancelled, TaskCancelled)
      else (AttemptFailed, if tr_attempts t < tr_max t then TaskQueued else TaskFailed))"

definition fail_tx :: "instant \<Rightarrow> string \<Rightarrow> string \<Rightarrow> int \<Rightarrow> commit_state \<Rightarrow> string \<Rightarrow> jdb \<Rightarrow> (ep_error + unit) \<times> jdb" where
  "fail_tx now eid attemptID fence commitState errorClass = transaction (\<lambda>d.
     if commitState \<noteq> CommitNoEffect \<and> commitState \<noteq> CommitUnknown
     then Inl (ErrInvalid ''failed attempts must report NO_EFFECT or UNKNOWN'')
     else if errorClass \<notin> {''WORKER_ERROR'', ''PROVIDER_ERROR'', ''CANCELLED''}
     then Inl (ErrInvalid ''unsupported typed worker error class'')
     else case task_where eid d of
       None \<Rightarrow> Inl ErrEpisodeNotFound
     | Some t \<Rightarrow>
         if tr_state t \<noteq> TaskLeased \<or> tr_active t \<noteq> attemptID \<or> tr_fence t \<noteq> fence then Inl ErrStaleAttempt
         else
           let stamp = format_nano now; (attemptState, taskState) = fail_outcome t commitState in
           bindE (finish_attempt attemptID fence attemptState commitState errorClass stamp d) (\<lambda>d1.
           bindE (release_task eid attemptID fence taskState stamp d1) (\<lambda>d2.
           bindE (if taskState = TaskCancelled then cancelParentTx eid stamp d2 else Inr d2) (\<lambda>d3.
           Inr ((), d3)))))"

definition then_GetTask :: "string \<Rightarrow> (ep_error + unit) \<times> jdb \<Rightarrow> (ep_error + task_record) \<times> jdb" where
  "then_GetTask eid r = (case r of (Inl e, d) \<Rightarrow> (Inl e, d) | (Inr _, d) \<Rightarrow> (GetTask eid d, d))"

definition FailClaim :: "instant \<Rightarrow> string \<Rightarrow> string \<Rightarrow> int \<Rightarrow> commit_state \<Rightarrow> string \<Rightarrow> jdb \<Rightarrow> (ep_error + task_record) \<times> jdb" where
  "FailClaim now eid attemptID fence commitState errorClass d =
     then_GetTask eid (fail_tx now eid attemptID fence commitState errorClass d)"

definition cancel_tx :: "instant \<Rightarrow> string \<Rightarrow> jdb \<Rightarrow> (ep_error + unit) \<times> jdb" where
  "cancel_tx now eid = transaction (\<lambda>d.
     case task_where eid d of
       None \<Rightarrow> Inl ErrEpisodeNotFound
     | Some t \<Rightarrow>
         if tr_state t = TaskCompleted then Inl ErrEpisodeConflict
         else if tr_state t \<in> {TaskCancelled, TaskFailed, TaskCommitUnknown} then Inr ((), d)
         else
           let stamp = format_nano now; state = tr_state t; nxt = (if state = TaskQueued then TaskCancelled else state) in
           bindE (if state = TaskQueued then cancelParentTx eid stamp d else Inr d) (\<lambda>d1.
           bindE (requireOneRow ErrEpisodeConflict (casTask
               (\<lambda>r. tr_episode r = eid \<and> tr_state r = state)
               (\<lambda>r. r\<lparr>tr_cancel := True, tr_state := nxt, tr_updated := stamp\<rparr>) d1)) (\<lambda>d2.
           Inr ((), d2))))"

definition CancelTask :: "instant \<Rightarrow> string \<Rightarrow> jdb \<Rightarrow> (ep_error + task_record) \<times> jdb" where
  "CancelTask now eid d = then_GetTask eid (cancel_tx now eid d)"

end
