(* ===== verification/Journal_Facts.thy ===== *)
theory Journal_Facts
  imports Journal
begin

text \<open>
  The abstract lifecycle of the journal: an episode is reserved once, and then only moves along
  allowed transitions, each recorded as an event. Every write of the journal is such a move; so
  the chain that \<open>loadEvents\<close> checks never breaks, and a terminal episode never changes.
\<close>

section \<open>Compare-and-swap on a keyed table\<close>

lemma cas_hit:
  assumes "distinct (map key t)" "\<And>r. p r \<Longrightarrow> key r = k" "affected p t = 1"
  obtains r where "find_row (\<lambda>x. key x = k) t = Some r" "p r" "r \<in> set t"
    "update_where p f t = update_where (\<lambda>x. key x = k) (\<lambda>_. f r) t"
proof -
  obtain r where f: "filter p t = [r]"
    using assms(3) by (auto simp: affected_def length_Suc_conv)
  then have r: "r \<in> set t" "p r" using filter_eq_ConsD [of p t r "[]"] by auto
  have only: "p x \<longleftrightarrow> key x = k" "key x = k \<Longrightarrow> x = r" if "x \<in> set t" for x
  proof -
    show eq: "x = r" if "key x = k"
      using assms(1,2) r \<open>x \<in> set t\<close> that by (metis distinct_map inj_on_eq_iff)
    show "p x \<longleftrightarrow> key x = k" using assms(2) r(2) eq by blast
  qed
  have "find_row (\<lambda>x. key x = k) t = Some r"
    using find_row_distinct [OF assms(1) r(1)] assms(2) [OF r(2)] by simp
  moreover have "update_where p f t = update_where (\<lambda>x. key x = k) (\<lambda>_. f r) t"
    unfolding update_where_def using only by (intro map_cong) auto
  ultimately show thesis using that r by blast
qed

lemma cas_one:
  assumes "distinct (map key t)" "find_row (\<lambda>x. key x = k) t = Some r" "p r" "\<And>x. p x \<Longrightarrow> key x = k"
  shows "affected p t = 1" "update_where p f t = update_where (\<lambda>x. key x = k) (\<lambda>_. f r) t"
proof -
  have r: "r \<in> set t" "key r = k" using find_row_Some [OF assms(2)] by auto
  have only: "p x \<longleftrightarrow> key x = k" "key x = k \<Longrightarrow> x = r" if "x \<in> set t" for x
  proof -
    show eq: "x = r" if "key x = k"
      using assms(1) r \<open>x \<in> set t\<close> that by (metis distinct_map inj_on_eq_iff)
    show "p x \<longleftrightarrow> key x = k" using assms(3,4) eq by blast
  qed
  show "update_where p f t = update_where (\<lambda>x. key x = k) (\<lambda>_. f r) t"
    unfolding update_where_def using only by (intro map_cong) auto
  have "filter p t = filter (\<lambda>x. key x = k) t" using only by (intro filter_cong) auto
  then show "affected p t = 1"
    using affected_unique [OF assms(1,2)] by (simp add: affected_def)
qed

lemma find_row_put:
  assumes "find_row (\<lambda>x. key x = k) t = Some r" "key r' = k"
  shows "find_row (\<lambda>x. key x = j) (update_where (\<lambda>x. key x = k) (\<lambda>_. r') t) =
    (if j = k then Some r' else find_row (\<lambda>x. key x = j) t)"
proof (cases "j = k")
  case True
  with assms show ?thesis by (induction t) (auto simp: update_where_def split: if_splits)
next
  case False
  with assms(2) show ?thesis by (auto intro!: find_row_update_other)
qed

lemma keys_put: "key r' = k \<Longrightarrow> map key (update_where (\<lambda>x. key x = k) (\<lambda>_. r') t) = map key t"
  by (induction t) (auto simp: update_where_def)

section \<open>Chains of events\<close>

definition raw_events :: "string \<Rightarrow> jdb \<Rightarrow> event list" where
  "raw_events eid d = map lr_event (filter (\<lambda>r. lr_episode r = eid) (ep_events d))"

lemma chain_ok_append:
  "chain_ok n s (xs @ ys) = Inr () \<longleftrightarrow>
     chain_ok n s xs = Inr () \<and> chain_ok (n + int (length xs)) (if xs = [] then s else lc_to (last xs)) ys = Inr ()"
  by (induction n s xs rule: chain_ok.induct) (auto simp: algebra_simps)

lemma check_chain_append:
  assumes "xs \<noteq> []"
  shows "check_chain (xs @ ys) = Inr () \<longleftrightarrow>
    check_chain xs = Inr () \<and> chain_ok (int (length xs)) (lc_to (last xs)) ys = Inr ()"
  using assms by (cases xs) (auto simp: check_chain_def chain_ok_append)

lemma chain_ok_sequences: "chain_ok n s es = Inr () \<Longrightarrow> map lc_sequence es = map (\<lambda>i. n + int i) [0..<length es]"
proof (induction es arbitrary: n s rule: list.induct)
  case (Cons e es)
  then have "map lc_sequence es = map (\<lambda>i. n + 1 + int i) [0..<length es]" "lc_sequence e = n"
    by (auto split: if_splits)
  moreover have "[0..<length (e # es)] = 0 # map Suc [0..<length es]"
    by (simp add: map_Suc_upt upt_conv_Cons del: upt_Suc)
  ultimately show ?case by (simp add: comp_def del: upt_Suc)
qed simp

lemma check_chain_sequences: "check_chain es = Inr () \<Longrightarrow> map lc_sequence es = map int [0..<length es]"
proof (cases es)
  case (Cons e rest)
  assume "check_chain es = Inr ()"
  with Cons have "lc_sequence e = 0" "chain_ok 1 (lc_to e) rest = Inr ()"
    by (auto simp: check_chain_def split: if_splits)
  with chain_ok_sequences [OF this(2)] have "map lc_sequence rest = map (\<lambda>i. 1 + int i) [0..<length rest]" "lc_sequence e = 0"
    by auto
  moreover have "[0..<length (e # rest)] = 0 # map Suc [0..<length rest]"
    by (simp add: map_Suc_upt upt_conv_Cons del: upt_Suc)
  ultimately show ?thesis by (simp add: Cons comp_def del: upt_Suc)
qed simp

lemma check_chain_sorted:
  assumes "check_chain es = Inr ()"
  shows "sort_key lc_sequence es = es"
proof (rule sort_key_id_if_sorted)
  show "sorted (map lc_sequence es)"
    unfolding check_chain_sequences [OF assms] by (simp add: sorted_iff_nth_mono)
qed

lemma terminal_final: "IsTerminal s \<Longrightarrow> es \<noteq> [] \<Longrightarrow> chain_ok n s es \<noteq> Inr ()"
  by (cases es; cases s) (auto simp: IsTerminal_def)

text \<open>A chain that ends in evidence is the chain of a run.\<close>

lemma chain_to_evidence:
  assumes "chain_ok n s es = Inr ()" "es \<noteq> []" "lc_to (last es) = t" "t = StatusSucceeded \<or> t = StatusAssertionFailed"
  shows "if s = StatusEvaluating then es = [event_at_seq n s t]
    else (\<exists>s' es'. es = event_at_seq n s s' # es' \<and> es' \<noteq> [] \<and> chain_ok (n + 1) s' es' = Inr () \<and> lc_to (last es') = t \<and>
      (s, s') \<in> {(StatusCreated, StatusProvisioning), (StatusProvisioning, StatusReady), (StatusReady, StatusRunning), (StatusRunning, StatusEvaluating)})"
proof (cases es)
  case (Cons e es')
  then have e: "e = event_at_seq n s (lc_to e)" and tr: "allowedTransition s (lc_to e)" and rest: "chain_ok (n + 1) (lc_to e) es' = Inr ()"
    using assms(1) by (cases e; auto simp: event_at_seq_def split: if_splits)+
  have last: "es' = [] \<Longrightarrow> lc_to e = t" "es' \<noteq> [] \<Longrightarrow> lc_to (last es') = t" using assms(3) Cons by auto
  have stop: "IsTerminal (lc_to e) \<Longrightarrow> es' = []" using rest terminal_final by blast
  show ?thesis
  proof (cases "es' = []")
    case True
    then show ?thesis using Cons e last(1) tr assms(4) by (cases s) auto
  next
    case False
    then have "\<not> IsTerminal (lc_to e)" using stop by blast
    then have "(s, lc_to e) \<in> {(StatusCreated, StatusProvisioning), (StatusProvisioning, StatusReady), (StatusReady, StatusRunning), (StatusRunning, StatusEvaluating)}"
      using tr by (cases s) (auto simp: IsTerminal_def)
    moreover from this have "s \<noteq> StatusEvaluating" by auto
    ultimately show ?thesis using Cons e rest False last(2) by auto
  qed
qed (use assms(2) in simp)

lemma run_events_unique:
  assumes "check_chain es = Inr ()" "es \<noteq> []" "lc_to (last es) = t" "t = StatusSucceeded \<or> t = StatusAssertionFailed"
  shows "es = run_events t"
proof -
  obtain rest where es: "es = \<lparr>lc_sequence = 0, lc_from = None, lc_to = StatusCreated\<rparr> # rest" and c: "chain_ok 1 StatusCreated rest = Inr ()"
    using assms(1,2) by (cases es; cases "hd es"; auto simp: check_chain_def split: if_splits)
  have "rest \<noteq> []" using es assms(3,4) by auto
  then have l: "lc_to (last rest) = t" using es assms(3) by simp
  obtain r1 where 1: "rest = event_at_seq 1 StatusCreated StatusProvisioning # r1" "r1 \<noteq> []" "chain_ok 2 StatusProvisioning r1 = Inr ()" "lc_to (last r1) = t"
    using chain_to_evidence [OF c \<open>rest \<noteq> []\<close> l assms(4)] by auto
  obtain r2 where 2: "r1 = event_at_seq 2 StatusProvisioning StatusReady # r2" "r2 \<noteq> []" "chain_ok 3 StatusReady r2 = Inr ()" "lc_to (last r2) = t"
    using chain_to_evidence [OF 1(3,2,4) assms(4)] by auto
  obtain r3 where 3: "r2 = event_at_seq 3 StatusReady StatusRunning # r3" "r3 \<noteq> []" "chain_ok 4 StatusRunning r3 = Inr ()" "lc_to (last r3) = t"
    using chain_to_evidence [OF 2(3,2,4) assms(4)] by auto
  obtain r4 where 4: "r3 = event_at_seq 4 StatusRunning StatusEvaluating # r4" "r4 \<noteq> []" "chain_ok 5 StatusEvaluating r4 = Inr ()" "lc_to (last r4) = t"
    using chain_to_evidence [OF 3(3,2,4) assms(4)] by auto
  have "r4 = [event_at_seq 5 StatusEvaluating t]"
    using chain_to_evidence [OF 4(3,2,4) assms(4)] by simp
  then show ?thesis by (simp add: run_events_def es 1(1) 2(1) 3(1) 4(1))
qed

section \<open>The abstract lifecycle\<close>

text \<open>What a row says beyond its status: the evidence, outcome and error class that belong to it.\<close>

definition content_ok :: "episode_row \<Rightarrow> bool" where
  "content_ok r \<longleftrightarrow> (case er_evidence r of
       None \<Rightarrow> check_no_evidence r = Inr ()
     | Some v \<Rightarrow> check_evidence r v = Inr () \<and>
         map_option ev_lifecycle (vp_evidence v) = Some \<lparr>lf_current = er_status r, lf_events = run_events (er_status r)\<rparr>)"

lemma content_ok_open:
  assumes "content_ok r" "\<not> IsTerminal (er_status r)"
  shows "er_evidence r = None" "er_evidenceDigest r = []" "er_outcome r = []" "er_errorClass r = []"
proof -
  show e: "er_evidence r = None"
    using assms by (auto simp: content_ok_def check_evidence_def IsTerminal_def split: option.splits if_splits)
  with assms show "er_evidenceDigest r = []" "er_outcome r = []" "er_errorClass r = []"
    by (auto simp: content_ok_def check_no_evidence_def IsTerminal_def split: if_splits)
qed

lemma allowedTransition_open: "allowedTransition s t \<Longrightarrow> \<not> IsTerminal s"
  by (cases s) (auto simp: IsTerminal_def)

lemma content_ok_move:
  assumes "content_ok r" "\<not> IsTerminal (er_status r)" "\<not> IsTerminal s"
  shows "content_ok (r\<lparr>er_status := s, er_sequence := n, er_updated := u\<rparr>)"
  using content_ok_open [OF assms(1,2)] assms(3) by (auto simp: content_ok_def check_no_evidence_def IsTerminal_def)

lemma content_ok_stop:
  assumes "content_ok r" "\<not> IsTerminal (er_status r)" "(s, c) \<in> {(StatusRuntimeError, ''RUNTIME_ERROR''), (StatusCancelled, ''CANCELLED'')}"
  shows "content_ok (r\<lparr>er_status := s, er_sequence := n, er_errorClass := c, er_updated := u\<rparr>)"
  using content_ok_open [OF assms(1,2)] assms(3) by (auto simp: content_ok_def check_no_evidence_def IsTerminal_def)

text \<open>An envelope that says what a run says: its identity is the request's, its lifecycle is that of its outcome.\<close>

definition run_outcome :: "status \<Rightarrow> string" where
  "run_outcome t = (if t = StatusAssertionFailed then ''assertion_failed'' else ''succeeded'')"

definition faithful :: "request \<Rightarrow> envelope \<Rightarrow> bool" where
  "faithful rq v \<longleftrightarrow> vp_apiVersion v = ''statetwin.dev/v1alpha1'' \<and> vp_kind v = ''EpisodeEvidenceEnvelope'' \<and>
     (case vp_evidence v of
        None \<Rightarrow> False
      | Some e \<Rightarrow>
          ev_apiVersion e = ''statetwin.dev/v1alpha1'' \<and> ev_doc e = ''EpisodeEvidence'' \<and>
          ev_format e = ''statetwin.dev/episode-evidence/v1alpha1'' \<and> ev_episodeID e = jr_id rq \<and> ev_bundle e = jr_bundle rq \<and>
          ev_scenario e = jr_path rq \<and> ev_version e = jr_version rq \<and> ev_revision e = jr_revision rq \<and> evidence_Digest e = vp_digest v \<and>
          lf_current (ev_lifecycle e) \<in> {StatusSucceeded, StatusAssertionFailed} \<and>
          lf_events (ev_lifecycle e) = run_events (lf_current (ev_lifecycle e)) \<and> ev_outcome e = run_outcome (lf_current (ev_lifecycle e)))"

lemma content_ok_commit:
  assumes "content_ok r" "\<not> IsTerminal (er_status r)" "faithful (row_request r) v" "vp_evidence v = Some e"
  shows "content_ok (r\<lparr>er_status := lf_current (ev_lifecycle e), er_sequence := n, er_outcome := ev_outcome e,
    er_evidence := Some v, er_evidenceDigest := vp_digest v, er_updated := u\<rparr>)"
  using content_ok_open [OF assms(1,2)] assms(3,4)
  by (auto simp: content_ok_def check_evidence_def faithful_def row_request_def run_outcome_def)

lemma content_ok_new: "content_ok (new_row rq stamp)"
  by (simp add: content_ok_def check_no_evidence_def new_row_def IsTerminal_def)

inductive lifecycle_step :: "string \<Rightarrow> jdb \<Rightarrow> jdb \<Rightarrow> bool" where
  reserve: "episode_where (jr_id rq) d = None \<Longrightarrow>
     episodes d' = episodes d @ [new_row rq stamp] \<Longrightarrow>
     ep_events d' = ep_events d @ [\<lparr>lr_episode = jr_id rq, lr_event = \<lparr>lc_sequence = 0, lc_from = None, lc_to = StatusCreated\<rparr>\<rparr>] \<Longrightarrow>
     lifecycle_step (jr_id rq) d d'"
| advance: "episode_where eid d = Some r \<Longrightarrow> es \<noteq> [] \<Longrightarrow> chain_ok (er_sequence r + 1) (er_status r) es = Inr () \<Longrightarrow>
     row_request r' = row_request r \<Longrightarrow> er_request r' = er_request r \<Longrightarrow> er_created r' = er_created r \<Longrightarrow>
     content_ok r' \<Longrightarrow> er_status r' = lc_to (last es) \<Longrightarrow> er_sequence r' = er_sequence r + int (length es) \<Longrightarrow>
     episodes d' = update_where (\<lambda>x. er_id x = eid) (\<lambda>_. r') (episodes d) \<Longrightarrow>
     ep_events d' = ep_events d @ map (\<lambda>e. \<lparr>lr_episode = eid, lr_event = e\<rparr>) es \<Longrightarrow>
     lifecycle_step eid d d'"
| stay: "episodes d' = episodes d \<Longrightarrow> ep_events d' = ep_events d \<Longrightarrow> lifecycle_step eid d d'"

definition lifecycle_row :: "episode_row \<Rightarrow> event list \<Rightarrow> bool" where
  "lifecycle_row r es \<longleftrightarrow> es \<noteq> [] \<and> check_chain es = Inr () \<and> int (length es) = er_sequence r + 1 \<and> lc_to (last es) = er_status r \<and>
     er_request r = request_Digest (row_request r) \<and> content_ok r"

definition lifecycle_ok :: "jdb \<Rightarrow> bool" where
  "lifecycle_ok d \<longleftrightarrow> distinct (map er_id (episodes d)) \<and>
     (\<forall>eid. case episode_where eid d of Some r \<Rightarrow> lifecycle_row r (raw_events eid d) | None \<Rightarrow> raw_events eid d = [])"

lemma lifecycle_distinct: "lifecycle_ok d \<Longrightarrow> distinct (map er_id (episodes d))"
  by (simp add: lifecycle_ok_def)

lemma lifecycle_okD:
  assumes "lifecycle_ok d"
  shows "episode_where eid d = None \<Longrightarrow> raw_events eid d = []" "episode_where eid d = Some r \<Longrightarrow> lifecycle_row r (raw_events eid d)"
  using assms unfolding lifecycle_ok_def by (auto dest: spec [of _ eid] split: option.splits)

lemma lifecycle_ok_empty [simp]: "lifecycle_ok empty_jdb"
  by (simp add: lifecycle_ok_def empty_jdb_def episode_where_def raw_events_def)

lemma row_request_id: "row_request r' = row_request r \<Longrightarrow> er_id r' = er_id r"
  by (simp add: row_request_def)

lemma episode_id: "episode_where eid d = Some r \<Longrightarrow> er_id r = eid"
  unfolding episode_where_def by (drule find_row_Some) simp

lemma raw_events_append: "raw_events eid (d\<lparr>ep_events := ep_events d @ rows\<rparr>) = raw_events eid d @ map lr_event (filter (\<lambda>r. lr_episode r = eid) rows)"
  by (simp add: raw_events_def)

lemma row_request_new [simp]: "row_request (new_row rq s) = rq"
  by (cases rq) (simp add: row_request_def new_row_def)

lemma lifecycle_ok_step:
  assumes "lifecycle_step k d d'" "lifecycle_ok d"
  shows "lifecycle_ok d'"
  using assms(1)
proof cases
  case (reserve rq stamp)
  have raw: "raw_events eid d' = raw_events eid d @ (if eid = k then [\<lparr>lc_sequence = 0, lc_from = None, lc_to = StatusCreated\<rparr>] else [])" for eid
    using reserve by (simp add: raw_events_def)
  have none: "raw_events k d = []"
    using assms(2) reserve(1,2) by (auto simp: lifecycle_ok_def dest: spec [of _ k])
  have new: "k \<notin> er_id ` set (episodes d)"
    using reserve(1,2) by (auto simp: episode_where_def find_row_None row_exists_def)
  have ep: "episode_where eid d' = (case episode_where eid d of Some r \<Rightarrow> Some r | None \<Rightarrow> if eid = k then Some (new_row rq stamp) else None)" for eid
    using reserve by (auto simp: episode_where_def find_row_append new_row_def split: option.split)
  have "lifecycle_row (new_row rq stamp) [\<lparr>lc_sequence = 0, lc_from = None, lc_to = StatusCreated\<rparr>]"
    by (simp add: lifecycle_row_def check_chain_def content_ok_new) (simp add: new_row_def)
  then show ?thesis
    using lifecycle_okD [OF assms(2)] none new reserve(1-3) assms(2) unfolding lifecycle_ok_def ep raw
    by (simp add: new_row_def split: option.split)
next
  case (advance r es r')
  have raw: "raw_events eid d' = raw_events eid d @ (if eid = k then es else [])" for eid
    using advance by (simp add: raw_events_def filter_map comp_def)
  have ep: "episode_where eid d' = (if eid = k then Some r' else episode_where eid d)" for eid
    using advance find_row_put [of er_id k "episodes d" r r' eid] row_request_id [of r' r] episode_id [of k d r]
    by (simp add: episode_where_def)
  have old: "lifecycle_row r (raw_events k d)"
    using assms(2) advance(1) by (auto simp: lifecycle_ok_def split: option.splits)
  then have "lifecycle_row r' (raw_events k d @ es)"
    using advance by (auto simp: lifecycle_row_def check_chain_append)
  moreover have "map er_id (episodes d') = map er_id (episodes d)"
    using advance row_request_id [of r' r] episode_id [of k d r] by (simp add: keys_put)
  ultimately show ?thesis
    using lifecycle_okD [OF assms(2)] lifecycle_distinct [OF assms(2)] unfolding lifecycle_ok_def ep raw by (simp split: option.split)
next
  case stay
  then have "raw_events eid d' = raw_events eid d" "episode_where eid d' = episode_where eid d" for eid
    by (simp_all add: raw_events_def episode_where_def)
  with stay assms(2) show ?thesis
    unfolding lifecycle_ok_def by (simp only: simp_thms)
qed

text \<open>A terminal episode is final, and no episode disappears.\<close>

lemma lifecycle_step_final:
  assumes "lifecycle_step k d d'" "episode_where eid d = Some r" "IsTerminal (er_status r)"
  shows "episode_where eid d' = Some r \<and> raw_events eid d' = raw_events eid d"
  using assms(1)
proof cases
  case (reserve rq stamp)
  then have "k \<noteq> eid" using assms(2) by auto
  with reserve assms(2) show ?thesis
    by (simp add: episode_where_def find_row_append raw_events_def)
next
  case (advance r0 es r')
  have "k \<noteq> eid" using advance(1-3) assms(2,3) terminal_final by fastforce
  with advance assms(2) show ?thesis
    using find_row_put [of er_id k "episodes d" r0 r' eid] row_request_id [of r' r0] episode_id [of k d r0]
    by (simp add: episode_where_def raw_events_def filter_map comp_def)
qed (use assms(2) in \<open>simp add: episode_where_def raw_events_def\<close>)

lemma lifecycle_step_keeps:
  assumes "lifecycle_step k d d'" "episode_where eid d = Some r"
  shows "\<exists>r'. episode_where eid d' = Some r' \<and> row_request r' = row_request r \<and> er_sequence r \<le> er_sequence r' \<and>
    er_request r' = er_request r \<and> er_created r' = er_created r"
  using assms(1)
proof cases
  case (advance r0 es r')
  then show ?thesis
    using assms(2) find_row_put [of er_id k "episodes d" r0 r' eid] row_request_id [of r' r0] episode_id [of k d r0]
    by (auto simp: episode_where_def)
qed (use assms(2) in \<open>auto simp: episode_where_def find_row_append\<close>)

section \<open>Every write is a lifecycle step\<close>

lemma insertEvent_Inr: "insertEvent eid e d = Inr d' \<longleftrightarrow>
    \<not> row_exists (\<lambda>r. lr_episode r = eid \<and> lc_sequence (lr_event r) = lc_sequence e) (ep_events d) \<and>
    d' = d\<lparr>ep_events := ep_events d @ [\<lparr>lr_episode = eid, lr_event = e\<rparr>]\<rparr>"
  by (auto simp: insertEvent_def)

text \<open>One compare-and-swap followed by one event.\<close>

lemma cas_step:
  assumes "lifecycle_ok d" "casEpisode p f d = (1, d1)" "insertEvent eid e d1 = Inr d'"
    and "\<And>r. p r \<Longrightarrow> er_id r = eid \<and> Some (er_status r) = lc_from e \<and> allowedTransition (er_status r) (lc_to e) \<and> lc_sequence e = er_sequence r + 1"
    and "\<And>r. p r \<Longrightarrow> row_request (f r) = row_request r \<and> er_request (f r) = er_request r \<and> er_created (f r) = er_created r \<and>
      er_status (f r) = lc_to e \<and> er_sequence (f r) = lc_sequence e"
    and "\<And>r. p r \<Longrightarrow> episode_where eid d = Some r \<Longrightarrow> content_ok r \<Longrightarrow> content_ok (f r)"
  shows "lifecycle_step eid d d' \<and> (\<exists>r. p r \<and> episode_where eid d = Some r \<and> episode_where eid d' = Some (f r)) \<and>
    tasks d' = tasks d \<and> attempts d' = attempts d"
proof -
  have one: "affected p (episodes d) = 1" and d1: "d1 = d\<lparr>episodes := update_where p f (episodes d)\<rparr>"
    using assms(2) by (auto simp: casEpisode_def)
  obtain r where r: "find_row (\<lambda>x. er_id x = eid) (episodes d) = Some r" "p r"
      "update_where p f (episodes d) = update_where (\<lambda>x. er_id x = eid) (\<lambda>_. f r) (episodes d)"
    by (rule cas_hit [OF lifecycle_distinct [OF assms(1)] _ one, of eid]) (use assms(4) in auto)
  have d': "d' = d\<lparr>episodes := update_where (\<lambda>x. er_id x = eid) (\<lambda>_. f r) (episodes d),
      ep_events := ep_events d @ [\<lparr>lr_episode = eid, lr_event = e\<rparr>]\<rparr>"
    using assms(3) r(3) by (simp add: insertEvent_Inr d1)
  have "content_ok r"
    using lifecycle_okD(2) [OF assms(1), of eid r] r(1) by (simp add: episode_where_def lifecycle_row_def)
  then have "lifecycle_step eid d d'"
    using assms(4,5) [OF r(2)] assms(6) [OF r(2)] r(1) episode_where_def [of eid d] by (intro lifecycle_step.advance [of eid d r "[e]" "f r"]) (auto simp: d' episode_where_def)
  moreover have "episode_where eid d' = Some (f r)"
    using find_row_put [OF r(1), of "f r" eid] assms(4,5) [OF r(2)] row_request_id [of "f r" r] by (simp add: d' episode_where_def)
  ultimately show ?thesis
    using r by (auto simp: d' episode_where_def)
qed

lemma scanRecord_not_found: "scanRecord row = Inl ErrEpisodeNotFound \<longleftrightarrow> row = None"
proof (cases row)
  case (Some r)
  have t: "timestamps_ok a b \<noteq> Inl ErrEpisodeNotFound" for a b
    by (simp add: timestamps_ok_def split: option.split prod.split)
  have e: "check_evidence r v \<noteq> Inl ErrEpisodeNotFound" for v
    by (simp add: check_evidence_def split: option.split)
  have n: "check_no_evidence r \<noteq> Inl ErrEpisodeNotFound"
    by (simp add: check_no_evidence_def)
  have b: "bindE x f = Inl y \<longleftrightarrow> x = Inl y \<or> (\<exists>z. x = Inr z \<and> f z = Inl y)" for x :: "ep_error + 'z" and f :: "'z \<Rightarrow> ep_error + 'w" and y
    by (cases x) auto
  show ?thesis
    unfolding scanRecord_def Some option.case using t e n by (simp add: b split: option.split)
qed (simp add: scanRecord_def)

lemma createOrLoad_Inr:
  assumes "createOrLoad now rq d = (Inr (record, created), d')"
  obtains (loaded) r0 where "\<not> created" "d' = d" "scanRecord (episode_where (jr_id rq) d) = Inr r0" "rc_request r0 = request_Digest rq"
      "loadEvents r0 d = Inr record"
  | (created) "created" "episode_where (jr_id rq) d = None" "record = new_record rq (format_nano now)"
      "length (episodes d) < MaxEpisodeRecords"
      "d' = d\<lparr>episodes := episodes d @ [new_row rq (format_nano now)],
        ep_events := ep_events d @ [\<lparr>lr_episode = jr_id rq, lr_event = \<lparr>lc_sequence = 0, lc_from = None, lc_to = StatusCreated\<rparr>\<rparr>]\<rparr>"
proof (cases "scanRecord (episode_where (jr_id rq) d)")
  case (Inr r0)
  then show thesis
    using assms loaded unfolding createOrLoad_def transaction_Inr by (auto split: if_splits)
next
  case (Inl e)
  then have "episode_where (jr_id rq) d = None" "e = ErrEpisodeNotFound"
    using assms unfolding createOrLoad_def transaction_Inr by (auto split: if_splits simp: scanRecord_not_found)
  then show thesis
    using assms Inl created unfolding createOrLoad_def transaction_Inr
    by (auto split: if_splits simp: Let_def insertEvent_Inr)
qed

lemma step_createOrLoad: "createOrLoad now rq d = (Inr (record, created), d') \<Longrightarrow> lifecycle_step (jr_id rq) d d'"
  by (erule createOrLoad_Inr) (auto intro: lifecycle_step.stay lifecycle_step.reserve)

lemma appendTransition_Inr:
  assumes "appendTransition now rq n e d = (Inr u, d')" "lifecycle_ok d"
  shows "lifecycle_step (jr_id rq) d d' \<and> (\<exists>r. episode_where (jr_id rq) d = Some r \<and> er_request r = request_Digest rq \<and> er_sequence r = n \<and>
    episode_where (jr_id rq) d' = Some (r\<lparr>er_status := lc_to e, er_sequence := lc_sequence e, er_updated := format_nano now\<rparr>)) \<and>
    tasks d' = tasks d \<and> attempts d' = attempts d \<and> lc_sequence e = n + 1"
proof -
  let ?p = "\<lambda>r. er_id r = jr_id rq \<and> er_request r = request_Digest rq \<and> Some (er_status r) = lc_from e \<and> er_sequence r = n"
  let ?f = "\<lambda>r. r\<lparr>er_status := lc_to e, er_sequence := lc_sequence e, er_updated := format_nano now\<rparr>"
  obtain s d1 where g: "lc_sequence e = n + 1" "lc_from e = Some s" "allowedTransition s (lc_to e)"
    and cas: "casEpisode ?p ?f d = (1, d1)" and ins: "insertEvent (jr_id rq) e d1 = Inr d'"
    and open_end: "\<not> IsTerminal (lc_to e)"
    using assms(1) unfolding appendTransition_def transaction_Inr by (auto split: if_splits option.splits prod.splits)
  have "lifecycle_step (jr_id rq) d d' \<and> (\<exists>r. ?p r \<and> episode_where (jr_id rq) d = Some r \<and> episode_where (jr_id rq) d' = Some (?f r)) \<and>
    tasks d' = tasks d \<and> attempts d' = attempts d"
    by (rule cas_step [OF assms(2) cas ins]) (use g open_end in \<open>auto simp: row_request_def intro!: content_ok_move dest: allowedTransition_open\<close>)
  with g(1) show ?thesis by blast
qed

lemma check_completion_Inr:
  assumes "check_completion rq n v = Inr (e, ev)"
  shows "vp_evidence v = Some e \<and> lf_current (ev_lifecycle e) \<in> {StatusSucceeded, StatusAssertionFailed} \<and> ev = last (lf_events (ev_lifecycle e)) \<and>
    lc_sequence ev = n + 1 \<and> lc_to ev = lf_current (ev_lifecycle e) \<and> lc_from ev = Some StatusEvaluating \<and> evidence_Digest e = vp_digest v \<and>
    ev_episodeID e = jr_id rq \<and> ev_bundle e = jr_bundle rq \<and> ev_scenario e = jr_path rq"
  using assms unfolding check_completion_def
  by (auto simp: Let_def IsTerminal_def split: option.splits if_splits)

lemma complete_Inr:
  assumes "complete now rq n v d = (Inr u, d')" "lifecycle_ok d" "faithful rq v"
    and own: "\<And>r. episode_where (jr_id rq) d = Some r \<Longrightarrow> row_request r = rq"
  obtains e ev r where "check_completion rq n v = Inr (e, ev)" "lifecycle_step (jr_id rq) d d'" "tasks d' = tasks d" "attempts d' = attempts d"
    "episode_where (jr_id rq) d = Some r" "er_request r = request_Digest rq" "er_status r = StatusEvaluating" "er_sequence r = n"
    "episode_where (jr_id rq) d' = Some (r\<lparr>er_status := lf_current (ev_lifecycle e), er_sequence := lc_sequence ev, er_outcome := ev_outcome e,
       er_evidence := Some v, er_evidenceDigest := vp_digest v, er_updated := format_nano now\<rparr>)"
    "ep_events d' = ep_events d @ [\<lparr>lr_episode = jr_id rq, lr_event = ev\<rparr>]"
proof -
  let ?p = "\<lambda>r. er_id r = jr_id rq \<and> er_request r = request_Digest rq \<and> er_status r = StatusEvaluating \<and> er_sequence r = n"
  obtain e ev where c: "check_completion rq n v = Inr (e, ev)"
    using assms(1) unfolding complete_def transaction_Inr by auto
  let ?f = "\<lambda>r. r\<lparr>er_status := lf_current (ev_lifecycle e), er_sequence := lc_sequence ev, er_outcome := ev_outcome e,
       er_evidence := Some v, er_evidenceDigest := vp_digest v, er_updated := format_nano now\<rparr>"
  obtain d1 where cas: "casEpisode ?p ?f d = (1, d1)" and ins: "insertEvent (jr_id rq) ev d1 = Inr d'"
    using assms(1) c unfolding complete_def transaction_Inr by (auto split: if_splits prod.splits)
  note ce = check_completion_Inr [OF c]
  have commit: "content_ok (?f r)" if "?p r" "episode_where (jr_id rq) d = Some r" "content_ok r" for r
    using content_ok_commit [of r v e] that ce assms(3) own by (simp add: IsTerminal_def)
  have "lifecycle_step (jr_id rq) d d' \<and> (\<exists>r. ?p r \<and> episode_where (jr_id rq) d = Some r \<and> episode_where (jr_id rq) d' = Some (?f r)) \<and>
    tasks d' = tasks d \<and> attempts d' = attempts d"
  proof (rule cas_step [OF assms(2) cas ins])
    fix r assume "?p r" "episode_where (jr_id rq) d = Some r" "content_ok r"
    then show "content_ok (?f r)" by (rule commit)
  qed (use ce in \<open>auto simp: row_request_def\<close>)
  moreover have "ep_events d' = ep_events d @ [\<lparr>lr_episode = jr_id rq, lr_event = ev\<rparr>]"
    using cas ins by (auto simp: casEpisode_def insertEvent_Inr)
  ultimately show thesis using that [OF c] by blast
qed

lemma fail_episode_Inr:
  assumes "fail_episode now rq n ''RUNTIME_ERROR'' d = (Inr u, d')" "lifecycle_ok d"
  shows "lifecycle_step (jr_id rq) d d' \<and> tasks d' = tasks d \<and> attempts d' = attempts d"
proof -
  obtain row where row: "find_row (\<lambda>r. er_id r = jr_id rq \<and> er_request r = request_Digest rq) (episodes d) = Some row"
    using assms(1) unfolding fail_episode_def transaction_Inr by (auto split: option.splits)
  let ?p = "\<lambda>r. er_id r = jr_id rq \<and> er_request r = request_Digest rq \<and> er_status r = er_status row \<and> er_sequence r = er_sequence row"
  let ?f = "\<lambda>r. r\<lparr>er_status := StatusRuntimeError, er_sequence := er_sequence row + 1, er_errorClass := ''RUNTIME_ERROR'', er_updated := format_nano now\<rparr>"
  let ?e = "\<lparr>lc_sequence = er_sequence row + 1, lc_from = Some (er_status row), lc_to = StatusRuntimeError\<rparr>"
  show ?thesis
  proof (cases "er_sequence row \<noteq> n \<or> IsTerminal (er_status row) \<or> \<not> allowedTransition (er_status row) StatusRuntimeError")
    case True
    then have "d' = d" using assms(1) row unfolding fail_episode_def transaction_Inr by auto
    then show ?thesis by (simp add: lifecycle_step.stay)
  next
    case False
    then obtain d1 where cas: "casEpisode ?p ?f d = (1, d1)" and ins: "insertEvent (jr_id rq) ?e d1 = Inr d'"
      using assms(1) row unfolding fail_episode_def transaction_Inr by (auto split: if_splits prod.splits)
    have "lifecycle_step (jr_id rq) d d' \<and> (\<exists>r. ?p r \<and> episode_where (jr_id rq) d = Some r \<and> episode_where (jr_id rq) d' = Some (?f r)) \<and>
      tasks d' = tasks d \<and> attempts d' = attempts d"
      by (rule cas_step [OF assms(2) cas ins]) (use False in \<open>auto simp: row_request_def intro!: content_ok_stop\<close>)
    then show ?thesis by blast
  qed
qed

end
