(* ===== verification/Remote_Facts.thy ===== *)
theory Remote_Facts
  imports Remote Journal_Facts
begin

text \<open>
  The abstract task machine: a task is queued, claimed under the next fencing token, released or
  completed; and the proof that every operation of the coordinator is a run of this machine next
  to a run of the lifecycle machine.
\<close>

section \<open>The task machine\<close>

inductive task_move :: "task_row \<Rightarrow> task_row \<Rightarrow> bool" where
  claim: "tr_state t = TaskQueued \<Longrightarrow> \<not> tr_cancel t \<Longrightarrow>
     task_move t (t\<lparr>tr_state := TaskLeased, tr_attempts := tr_attempts t + 1, tr_fence := tr_fence t + 1, tr_active := aid, tr_updated := s\<rparr>)"
| release: "tr_state t = TaskLeased \<Longrightarrow> ns \<in> {TaskQueued, TaskFailed, TaskCancelled, TaskCommitUnknown} \<Longrightarrow>
     (ns = TaskQueued \<Longrightarrow> tr_attempts t < tr_max t \<and> \<not> tr_cancel t) \<Longrightarrow>
     task_move t (t\<lparr>tr_state := ns, tr_active := [], tr_updated := s\<rparr>)"
| complete: "tr_state t = TaskLeased \<Longrightarrow> \<not> tr_cancel t \<Longrightarrow>
     task_move t (t\<lparr>tr_state := TaskCompleted, tr_active := [], tr_final := tr_active t, tr_finalDigest := dg, tr_updated := s\<rparr>)"
| cancel_queued: "tr_state t = TaskQueued \<Longrightarrow> task_move t (t\<lparr>tr_cancel := True, tr_state := TaskCancelled, tr_updated := s\<rparr>)"
| cancel_leased: "tr_state t = TaskLeased \<Longrightarrow> task_move t (t\<lparr>tr_cancel := True, tr_updated := s\<rparr>)"

definition finished :: "task_row \<Rightarrow> bool" where
  "finished t \<longleftrightarrow> tr_state t \<in> {TaskCompleted, TaskCancelled, TaskFailed, TaskCommitUnknown}"

lemma task_move_facts:
  assumes "task_move t t'"
  shows "\<not> finished t" "tr_episode t' = tr_episode t" "tr_max t' = tr_max t" "tr_profile t' = tr_profile t" "tr_fence t \<le> tr_fence t'"
  using assms by (auto simp: finished_def elim: task_move.cases)

definition task_ok :: "task_row \<Rightarrow> bool" where
  "task_ok t \<longleftrightarrow> 1 \<le> tr_max t \<and> tr_max t \<le> int MaxEpisodeAttempts \<and> 0 \<le> tr_attempts t \<and> tr_attempts t \<le> tr_max t \<and>
     tr_fence t = tr_attempts t \<and>
     (tr_state t = TaskQueued \<longrightarrow> tr_attempts t < tr_max t \<and> \<not> tr_cancel t) \<and> (tr_state t \<noteq> TaskLeased \<longrightarrow> tr_active t = [])"

lemma task_ok_move:
  assumes "task_move t t'" "task_ok t"
  shows "task_ok t'"
  using assms(1) by cases (use assms(2) in \<open>simp_all add: task_ok_def\<close>)

lemma task_ok_new: "1 \<le> m \<Longrightarrow> m \<le> int MaxEpisodeAttempts \<Longrightarrow> task_ok (new_task eid bytes p m s)"
  by (simp add: task_ok_def new_task_def)

inductive tasks_step :: "jdb \<Rightarrow> jdb \<Rightarrow> bool" where
  same: "tasks d' = tasks d \<Longrightarrow> tasks_step d d'"
| new: "task_where eid d = None \<Longrightarrow> 1 \<le> m \<Longrightarrow> m \<le> int MaxEpisodeAttempts \<Longrightarrow>
     tasks d' = tasks d @ [new_task eid bytes p m s] \<Longrightarrow> tasks_step d d'"
| move: "task_where eid d = Some t \<Longrightarrow> task_move t t' \<Longrightarrow>
     tasks d' = update_where (\<lambda>x. tr_episode x = eid) (\<lambda>_. t') (tasks d) \<Longrightarrow> tasks_step d d'"

definition tasks_ok :: "jdb \<Rightarrow> bool" where
  "tasks_ok d \<longleftrightarrow> distinct (map tr_episode (tasks d)) \<and> (\<forall>t \<in> set (tasks d). task_ok t)"

lemma task_where_Some: "task_where eid d = Some t \<Longrightarrow> t \<in> set (tasks d) \<and> tr_episode t = eid"
  unfolding task_where_def by (drule find_row_Some) simp

lemma tasks_ok_task: "tasks_ok d \<Longrightarrow> task_where eid d = Some t \<Longrightarrow> task_ok t"
  by (auto simp: tasks_ok_def dest: task_where_Some)

lemma task_where_move:
  assumes "task_where eid d = Some t" "tr_episode t' = tr_episode t"
    "tasks d' = update_where (\<lambda>x. tr_episode x = eid) (\<lambda>_. t') (tasks d)"
  shows "task_where k d' = (if k = eid then Some t' else task_where k d)"
  using find_row_put [of tr_episode eid "tasks d" t t' k] assms task_where_Some [OF assms(1)] by (simp add: task_where_def)

lemma tasks_ok_step:
  assumes "tasks_step d d'" "tasks_ok d"
  shows "tasks_ok d'"
  using assms(1)
proof cases
  case (new eid m bytes p s)
  then show ?thesis
    using assms(2) task_ok_new [of m eid bytes p s]
    by (auto simp: tasks_ok_def task_where_def find_row_None row_exists_def new_task_def)
next
  case (move eid t t')
  have t: "tr_episode t = eid" "task_ok t" using task_where_Some [OF move(1)] tasks_ok_task [OF assms(2) move(1)] by auto
  have "map tr_episode (tasks d') = map tr_episode (tasks d)"
    using move t(1) task_move_facts(2) [OF move(2)] by (simp add: keys_put)
  moreover have "\<forall>x \<in> set (tasks d'). task_ok x"
    using assms(2) task_ok_move [OF move(2) t(2)] by (auto simp: move tasks_ok_def update_where_def)
  ultimately show ?thesis using assms(2) by (simp add: tasks_ok_def)
qed (use assms(2) in \<open>simp add: tasks_ok_def\<close>)

text \<open>What a later state keeps of a task.\<close>

definition task_later :: "task_row \<Rightarrow> task_row \<Rightarrow> bool" where
  "task_later t t' \<longleftrightarrow> tr_fence t \<le> tr_fence t' \<and> tr_max t' = tr_max t \<and> tr_profile t' = tr_profile t \<and> (finished t \<longrightarrow> t' = t)"

lemma task_later_refl [simp]: "task_later t t"
  by (simp add: task_later_def)

lemma task_later_trans: "task_later t u \<Longrightarrow> task_later u v \<Longrightarrow> task_later t v"
  by (auto simp: task_later_def)

lemma tasks_step_later:
  assumes "tasks_step d d'" "task_where k d = Some t"
  shows "\<exists>t'. task_where k d' = Some t' \<and> task_later t t'"
  using assms(1)
proof cases
  case (new eid m bytes p s)
  then show ?thesis using assms(2) by (auto simp: task_where_def find_row_append)
next
  case (move eid u t')
  then show ?thesis
    using assms(2) task_where_move [OF move(1) task_move_facts(2) [OF move(2)] move(3), of k] task_move_facts [OF move(2)]
    by (auto simp: task_later_def)
qed (use assms(2) in \<open>simp add: task_where_def\<close>)

section \<open>Steps of both machines\<close>

definition jok :: "jdb \<Rightarrow> bool" where
  "jok d \<longleftrightarrow> lifecycle_ok d \<and> tasks_ok d"

definition remote_step :: "jdb \<Rightarrow> jdb \<Rightarrow> bool" where
  "remote_step d d' \<longleftrightarrow> (\<exists>k. lifecycle_step k d d') \<and> tasks_step d d'"

lemma jok_empty [simp]: "jok empty_jdb"
  by (simp add: jok_def tasks_ok_def) (simp add: empty_jdb_def)

lemma jok_remote_step: "remote_step d d' \<Longrightarrow> jok d \<Longrightarrow> jok d'"
  unfolding remote_step_def jok_def using lifecycle_ok_step tasks_ok_step by blast

interpretation journal: run_invariant remote_step jok
  by unfold_locales (rule jok_remote_step)

lemma lifecycle_remote: "lifecycle_step k d d' \<Longrightarrow> tasks d' = tasks d \<Longrightarrow> remote_step d d'"
  unfolding remote_step_def using tasks_step.same by blast

lemma tasks_remote: "tasks_step d d' \<Longrightarrow> episodes d' = episodes d \<Longrightarrow> ep_events d' = ep_events d \<Longrightarrow> remote_step d d'"
  unfolding remote_step_def using lifecycle_step.stay by blast

lemma remote_run_task:
  assumes "remote_step\<^sup>*\<^sup>* d d'" "task_where k d = Some t"
  shows "\<exists>t'. task_where k d' = Some t' \<and> task_later t t'"
  using assms(1)
proof (induction rule: rtranclp_induct)
  case (step y z)
  then obtain u where u: "task_where k y = Some u" "task_later t u" by blast
  have "tasks_step y z" using step(2) by (simp add: remote_step_def)
  then obtain v where "task_where k z = Some v" "task_later u v" using tasks_step_later u(1) by blast
  then show ?case using task_later_trans [OF u(2)] by blast
qed (use assms(2) in auto)

lemma remote_run_final:
  assumes "remote_step\<^sup>*\<^sup>* d d'" "episode_where eid d = Some r" "IsTerminal (er_status r)"
  shows "episode_where eid d' = Some r \<and> raw_events eid d' = raw_events eid d"
  using assms(1)
proof (induction rule: rtranclp_induct)
  case (step y z)
  then obtain k where "lifecycle_step k y z" unfolding remote_step_def by blast
  with step show ?case using lifecycle_step_final [of k y z eid r] assms(3) by simp
qed (use assms(2) in simp)

section \<open>Operations as runs\<close>

lemma casTask_Inr:
  assumes "requireOneRow e (casTask p f d) = Inr d'" "tasks_ok d" "\<And>t. p t \<Longrightarrow> tr_episode t = eid"
  obtains t where "task_where eid d = Some t" "p t" "d' = d\<lparr>tasks := update_where (\<lambda>x. tr_episode x = eid) (\<lambda>_. f t) (tasks d)\<rparr>"
proof -
  have one: "affected p (tasks d) = 1" and d': "d' = d\<lparr>tasks := update_where p f (tasks d)\<rparr>"
    using assms(1) by (auto simp: requireOneRow_def casTask_def split: if_splits)
  obtain t where "find_row (\<lambda>x. tr_episode x = eid) (tasks d) = Some t" "p t"
      "update_where p f (tasks d) = update_where (\<lambda>x. tr_episode x = eid) (\<lambda>_. f t) (tasks d)"
    by (rule cas_hit [of tr_episode "tasks d" p eid f]) (use assms(2,3) one in \<open>auto simp: tasks_ok_def\<close>)
  then show thesis using that d' by (simp add: task_where_def)
qed

lemma finish_attempt_Inr:
  "finish_attempt aid fence ast cst cls stamp d = Inr d' \<Longrightarrow>
     episodes d' = episodes d \<and> ep_events d' = ep_events d \<and> tasks d' = tasks d"
  by (auto simp: finish_attempt_def requireOneRow_def casAttempt_def split: if_splits)

lemma release_task_Inr:
  assumes "release_task eid aid fence ns stamp d = Inr d'" "tasks_ok d"
  obtains t where "task_where eid d = Some t" "tr_active t = aid" "tr_fence t = fence" "tr_state t = TaskLeased"
    "d' = d\<lparr>tasks := update_where (\<lambda>x. tr_episode x = eid) (\<lambda>_. t\<lparr>tr_state := ns, tr_active := [], tr_updated := stamp\<rparr>) (tasks d)\<rparr>"
  using assms(1) unfolding release_task_def by (rule casTask_Inr) (use assms(2) that in auto)

lemma affected_le_one:
  assumes "distinct (map key t)" "\<And>r. p r \<Longrightarrow> key r = k"
  shows "affected p t \<le> 1"
  using assms
proof (induction t)
  case (Cons x t)
  show ?case
  proof (cases "p x")
    case True
    then have "filter p t = []"
      using Cons.prems by (force simp: filter_empty_conv image_iff)
    with True show ?thesis by (simp add: affected_def)
  next
    case False
    with Cons show ?thesis by (simp add: affected_def)
  qed
qed (simp add: affected_def)

lemma cancelParentTx_Inr:
  assumes "cancelParentTx eid now d = Inr d'" "lifecycle_ok d"
  shows "lifecycle_step eid d d' \<and> tasks d' = tasks d \<and> attempts d' = attempts d"
proof -
  let ?p = "\<lambda>r. er_id r = eid \<and> er_status r = StatusCreated \<and> er_sequence r = 0"
  let ?f = "\<lambda>r. r\<lparr>er_status := StatusCancelled, er_sequence := 1, er_errorClass := ''CANCELLED'', er_updated := now\<rparr>"
  let ?e = "\<lparr>lc_sequence = 1, lc_from = Some StatusCreated, lc_to = StatusCancelled\<rparr>"
  have le: "affected ?p (episodes d) \<le> 1"
    by (rule affected_le_one [OF lifecycle_distinct [OF assms(2)]]) simp
  show ?thesis
  proof (cases "affected ?p (episodes d) = 0")
    case True
    then have "update_where ?p ?f (episodes d) = episodes d"
      unfolding update_where_def by (intro map_idI) (auto simp: affected_def filter_empty_conv)
    then have "d' = d"
      using assms(1) True unfolding cancelParentTx_def casEpisode_def by (auto split: option.splits if_splits)
    then show ?thesis by (simp add: lifecycle_step.stay)
  next
    case False
    then have one: "casEpisode ?p ?f d = (1, snd (casEpisode ?p ?f d))"
      using le by (simp add: casEpisode_def)
    have ins: "insertEvent eid ?e (snd (casEpisode ?p ?f d)) = Inr d'"
      using assms(1) False unfolding cancelParentTx_def casEpisode_def by simp
    have "lifecycle_step eid d d' \<and> (\<exists>r. ?p r \<and> episode_where eid d = Some r \<and> episode_where eid d' = Some (?f r)) \<and>
       tasks d' = tasks d \<and> attempts d' = attempts d"
      by (rule cas_step [OF assms(2) one ins]) (auto simp: row_request_def IsTerminal_def intro!: content_ok_stop)
    then show ?thesis by blast
  qed
qed

lemma remote_run_jok: "remote_step\<^sup>*\<^sup>* d d' \<Longrightarrow> jok d \<Longrightarrow> jok d'"
  by (rule journal.inv_run)

lemma tasks_move_step:
  assumes "task_where eid d = Some t" "task_move t t'"
  shows "remote_step d (d\<lparr>tasks := update_where (\<lambda>x. tr_episode x = eid) (\<lambda>_. t') (tasks d)\<rparr>)"
  by (rule tasks_remote, rule tasks_step.move [OF assms]) simp_all

lemma same_tables_step: "episodes d' = episodes d \<Longrightarrow> ep_events d' = ep_events d \<Longrightarrow> tasks d' = tasks d \<Longrightarrow> remote_step d d'"
  by (rule tasks_remote) (auto intro: tasks_step.same)

lemma jok_same: "episodes d' = episodes d \<Longrightarrow> ep_events d' = ep_events d \<Longrightarrow> tasks d' = tasks d \<Longrightarrow> jok d \<Longrightarrow> jok d'"
  using same_tables_step jok_remote_step by blast

text \<open>Ending the active attempt of a leased task, with the cancellation of the parent episode.\<close>

lemma end_attempt_run:
  assumes "finish_attempt aid fence ast cst cls stamp d = Inr d1" "release_task eid aid fence ns stamp d1 = Inr d2"
    and "(if ns = TaskCancelled then cancelParentTx eid stamp d2 else Inr d2) = Inr d3" "jok d"
    and "ns \<in> {TaskQueued, TaskFailed, TaskCancelled, TaskCommitUnknown}"
    and "\<And>t. task_where eid d = Some t \<Longrightarrow> ns = TaskQueued \<Longrightarrow> tr_attempts t < tr_max t \<and> \<not> tr_cancel t"
  shows "remote_step\<^sup>*\<^sup>* d d3 \<and> (\<exists>t. task_where eid d = Some t \<and> tr_fence t = fence \<and> tr_active t = aid \<and> tr_state t = TaskLeased \<and>
    (\<forall>k. task_where k d3 = (if k = eid then Some (t\<lparr>tr_state := ns, tr_active := [], tr_updated := stamp\<rparr>) else task_where k d)))"
proof -
  have same: "episodes d1 = episodes d" "ep_events d1 = ep_events d" "tasks d1 = tasks d"
    using finish_attempt_Inr [OF assms(1)] by simp_all
  have j1: "jok d1" using jok_same [OF same assms(4)] .
  have tw: "task_where k d1 = task_where k d" for k by (simp add: task_where_def same)
  obtain t where t: "task_where eid d1 = Some t" "tr_active t = aid" "tr_fence t = fence" "tr_state t = TaskLeased"
    and d2: "d2 = d1\<lparr>tasks := update_where (\<lambda>x. tr_episode x = eid) (\<lambda>_. t\<lparr>tr_state := ns, tr_active := [], tr_updated := stamp\<rparr>) (tasks d1)\<rparr>"
    using assms(2) j1 by (auto simp: jok_def elim: release_task_Inr)
  have move: "task_move t (t\<lparr>tr_state := ns, tr_active := [], tr_updated := stamp\<rparr>)"
    using t(4) assms(5) assms(6) [of t] t(1) tw by (intro task_move.release) auto
  have s2: "remote_step d1 d2"
    unfolding d2 using t(1) move by (rule tasks_move_step)
  have s3: "remote_step\<^sup>*\<^sup>* d2 d3 \<and> tasks d3 = tasks d2"
  proof (cases "ns = TaskCancelled")
    case True
    then have "cancelParentTx eid stamp d2 = Inr d3" using assms(3) by simp
    moreover have "lifecycle_ok d2" using jok_remote_step [OF s2 j1] by (simp add: jok_def)
    ultimately show ?thesis using cancelParentTx_Inr lifecycle_remote by blast
  qed (use assms(3) in simp)
  have "remote_step\<^sup>*\<^sup>* d d3"
    using same_tables_step [OF same] s2 s3 by (meson converse_rtranclp_into_rtranclp)
  moreover have "task_where k d3 = (if k = eid then Some (t\<lparr>tr_state := ns, tr_active := [], tr_updated := stamp\<rparr>) else task_where k d)" for k
    using task_where_move [OF t(1), of "t\<lparr>tr_state := ns, tr_active := [], tr_updated := stamp\<rparr>" d2 k] s3 tw by (simp add: d2 task_where_def)
  ultimately show ?thesis using t tw by auto
qed

lemma expiry_outcome_ok:
  "snd (snd (expiry_outcome t)) \<in> {TaskQueued, TaskFailed, TaskCancelled, TaskCommitUnknown} \<and>
   (snd (snd (expiry_outcome t)) = TaskQueued \<longrightarrow> tr_attempts t < tr_max t \<and> \<not> tr_cancel t \<and> tr_profile t = EffectHermetic)"
  by (cases "tr_profile t") (auto simp: expiry_outcome_def)

lemma expire_one_run:
  assumes "expire_one stamp t d = Inr d'" "jok d" "task_where (tr_episode t) d = Some t"
  shows "remote_step\<^sup>*\<^sup>* d d' \<and> (\<forall>k. task_where k d' = (if k = tr_episode t
     then Some (t\<lparr>tr_state := snd (snd (expiry_outcome t)), tr_active := [], tr_updated := stamp\<rparr>) else task_where k d))"
proof -
  obtain ast cst ns where o: "expiry_outcome t = (ast, cst, ns)" by (cases "expiry_outcome t")
  then obtain d1 d2 where
    1: "finish_attempt (tr_active t) (tr_fence t) ast cst ''LEASE_EXPIRED'' stamp d = Inr d1"
      "release_task (tr_episode t) (tr_active t) (tr_fence t) ns stamp d1 = Inr d2"
      "(if ns = TaskCancelled then cancelParentTx (tr_episode t) stamp d2 else Inr d2) = Inr d'"
    using assms(1) unfolding expire_one_def by auto
  have "ns \<in> {TaskQueued, TaskFailed, TaskCancelled, TaskCommitUnknown}"
    "ns = TaskQueued \<Longrightarrow> tr_attempts t < tr_max t \<and> \<not> tr_cancel t" using expiry_outcome_ok [of t] o by auto
  then show ?thesis
    using end_attempt_run [OF 1 assms(2)] assms(3) o by auto
qed

lemma expire_all_run:
  assumes "expire_all stamp ts d = Inr d'" "jok d" "distinct (map tr_episode ts)" "\<And>t. t \<in> set ts \<Longrightarrow> task_where (tr_episode t) d = Some t"
  shows "remote_step\<^sup>*\<^sup>* d d' \<and> (\<forall>k. task_where k d' = (case List.find (\<lambda>t. tr_episode t = k) ts of None \<Rightarrow> task_where k d
     | Some t \<Rightarrow> Some (t\<lparr>tr_state := snd (snd (expiry_outcome t)), tr_active := [], tr_updated := stamp\<rparr>)))"
  using assms
proof (induction ts arbitrary: d)
  case (Cons t ts)
  obtain d1 where 1: "expire_one stamp t d = Inr d1" "expire_all stamp ts d1 = Inr d'"
    using Cons.prems(1) by auto
  have one: "remote_step\<^sup>*\<^sup>* d d1" "\<And>k. task_where k d1 = (if k = tr_episode t
     then Some (t\<lparr>tr_state := snd (snd (expiry_outcome t)), tr_active := [], tr_updated := stamp\<rparr>) else task_where k d)"
    using expire_one_run [OF 1(1) Cons.prems(2)] Cons.prems(4) by auto
  have rest: "task_where (tr_episode u) d1 = Some u" if "u \<in> set ts" for u
  proof -
    have "tr_episode u \<noteq> tr_episode t" using Cons.prems(3) that by (metis distinct.simps(2) image_eqI list.set_map list.simps(9))
    then show ?thesis using one(2) Cons.prems(4) that by simp
  qed
  have IH: "remote_step\<^sup>*\<^sup>* d1 d'" "\<And>k. task_where k d' = (case List.find (\<lambda>t. tr_episode t = k) ts of None \<Rightarrow> task_where k d1
     | Some t \<Rightarrow> Some (t\<lparr>tr_state := snd (snd (expiry_outcome t)), tr_active := [], tr_updated := stamp\<rparr>))"
    using Cons.IH [OF 1(2) remote_run_jok [OF one(1) Cons.prems(2)] _ rest] Cons.prems(3) by auto
  have none: "List.find (\<lambda>u. tr_episode u = tr_episode t) ts = None"
    unfolding find_None_iff using Cons.prems(3) by (metis distinct.simps(2) image_eqI list.set_map list.simps(9))
  show ?case
    using one IH none rtranclp_trans [OF one(1) IH(1)] by (auto split: option.splits)
qed simp

lemma expired_task:
  assumes "jok d" "t \<in> set (expired_tasks now d)"
  shows "task_where (tr_episode t) d = Some t \<and> tr_state t = TaskLeased"
  using assms find_row_distinct [of tr_episode "tasks d" t] by (auto simp: expired_tasks_def jok_def tasks_ok_def task_where_def)

lemma recoverExpiredTx_run:
  assumes "recoverExpiredTx now d = Inr (n, d')" "jok d"
  shows "remote_step\<^sup>*\<^sup>* d d' \<and> (\<forall>k. task_where k d' = (case List.find (\<lambda>t. tr_episode t = k) (expired_tasks now d) of None \<Rightarrow> task_where k d
     | Some t \<Rightarrow> Some (t\<lparr>tr_state := snd (snd (expiry_outcome t)), tr_active := [], tr_updated := format_nano now\<rparr>)))"
proof -
  have "expire_all (format_nano now) (expired_tasks now d) d = Inr d'"
    using assms(1) by (auto simp: recoverExpiredTx_def)
  moreover have "distinct (map tr_episode (expired_tasks now d))"
    using assms(2) by (auto simp: expired_tasks_def jok_def tasks_ok_def distinct_map inj_on_def)
  ultimately show ?thesis
    using expire_all_run assms(2) expired_task [OF assms(2)] by blast
qed

lemma RecoverExpired_run: "RecoverExpired now d = (Inr n, d') \<Longrightarrow> jok d \<Longrightarrow> remote_step\<^sup>*\<^sup>* d d'"
  unfolding RecoverExpired_def transaction_Inr using recoverExpiredTx_run by blast

lemma ClaimProfile_Inr:
  assumes "ClaimProfile now aid worker lease profile d = (Inr c, d')" "jok d"
  obtains n d1 t where "recoverExpiredTx now d = Inr (n, d1)" "remote_step\<^sup>*\<^sup>* d d1" "task_where (cl_episode c) d1 = Some t"
    "tr_state t = TaskQueued" "\<not> tr_cancel t" "cl_fence c = tr_fence t + 1" "cl_number c = tr_attempts t + 1" "cl_attempt c = aid"
    "cl_lease c = format_nano (now + lease)" "t = hd (claimable profile d1)"
    "episodes d' = episodes d1" "ep_events d' = ep_events d1"
    "tasks d' = update_where (\<lambda>x. tr_episode x = cl_episode c)
       (\<lambda>_. t\<lparr>tr_state := TaskLeased, tr_attempts := tr_attempts t + 1, tr_fence := tr_fence t + 1, tr_active := aid, tr_updated := format_nano now\<rparr>) (tasks d1)"
    "\<exists>a. attempts d' = attempts d1 @ [a] \<and> at_id a = aid \<and> at_episode a = cl_episode c \<and> at_fence a = cl_fence c \<and> at_state a = AttemptLeased \<and>
       at_lease a = cl_lease c \<and> \<not> row_exists (\<lambda>a. at_id a = aid) (attempts d1)"
proof -
  obtain n d1 t ts where rec: "recoverExpiredTx now d = Inr (n, d1)" and cl: "claimable profile d1 = t # ts"
    using assms(1) unfolding ClaimProfile_def transaction_Inr by (auto split: if_splits list.splits)
  have run: "remote_step\<^sup>*\<^sup>* d d1" using recoverExpiredTx_run [OF rec assms(2)] by simp
  have j1: "jok d1" using remote_run_jok [OF run assms(2)] .
  have "t \<in> set (claimable profile d1)" by (simp add: cl)
  then have t: "t \<in> set (tasks d1)" "tr_state t = TaskQueued" "\<not> tr_cancel t"
    by (simp_all add: claimable_def)
  then have tw: "task_where (tr_episode t) d1 = Some t"
    using j1 find_row_distinct [of tr_episode "tasks d1" t] by (simp add: jok_def tasks_ok_def task_where_def)
  let ?p = "\<lambda>r. tr_episode r = tr_episode t \<and> tr_state r = TaskQueued"
  let ?f = "\<lambda>r. r\<lparr>tr_state := TaskLeased, tr_attempts := tr_attempts t + 1, tr_fence := tr_fence t + 1, tr_active := aid, tr_updated := format_nano now\<rparr>"
  obtain e where e: "episode_where (tr_episode t) d1 = Some e"
    using assms(1) rec cl unfolding ClaimProfile_def transaction_Inr by (auto split: if_splits option.splits)
  obtain d2 where cas: "requireOneRow ErrNoClaimableEpisode (casTask ?p ?f d1) = Inr d2"
    using assms(1) rec cl e unfolding ClaimProfile_def transaction_Inr Let_def by (auto split: if_splits)
  have free: "\<not> row_exists (\<lambda>a. at_id a = aid) (attempts d2)"
    and c: "c = \<lparr>cl_episode = tr_episode t, cl_attempt = aid, cl_number = tr_attempts t + 1, cl_fence = tr_fence t + 1,
              cl_lease = format_nano (now + lease), cl_bundle = tr_bundle t, cl_bundleDigest = er_bundle e,
              cl_scenario = er_scenario e, cl_version = er_version e, cl_revision = er_revision e, cl_profile = tr_profile t\<rparr>"
    and d': "d' = d2\<lparr>attempts := attempts d2 @ [\<lparr>at_id = aid, at_episode = tr_episode t, at_number = tr_attempts t + 1,
        at_worker = worker, at_fence = tr_fence t + 1, at_state = AttemptLeased, at_commit = CommitNotStarted,
        at_lease = format_nano (now + lease), at_errorClass = [], at_created = format_nano now, at_updated = format_nano now\<rparr>]\<rparr>"
    using assms(1) rec cl e cas unfolding ClaimProfile_def transaction_Inr Let_def by (auto split: if_splits)
  obtain u where "task_where (tr_episode t) d1 = Some u"
    and d2: "d2 = d1\<lparr>tasks := update_where (\<lambda>x. tr_episode x = tr_episode t) (\<lambda>_. ?f u) (tasks d1)\<rparr>"
    by (rule casTask_Inr [OF cas, of "tr_episode t"]) (use j1 in \<open>auto simp: jok_def\<close>)
  then have [simp]: "u = t" using tw by simp
  show thesis
    by (rule that [of n d1 t]) (use rec run tw t(2,3) c d' free cl in \<open>simp_all add: d2\<close>)
qed

lemma ClaimProfile_run:
  assumes "ClaimProfile now aid worker lease profile d = (Inr c, d')" "jok d"
  shows "remote_step\<^sup>*\<^sup>* d d' \<and> (\<exists>t. task_where (cl_episode c) d' = Some t \<and> tr_state t = TaskLeased \<and> tr_fence t = cl_fence c \<and> tr_active t = aid \<and>
     \<not> tr_cancel t)"
  using assms
proof (rule ClaimProfile_Inr)
  fix n d1 t
  assume run: "remote_step\<^sup>*\<^sup>* d d1" and t: "task_where (cl_episode c) d1 = Some t" "tr_state t = TaskQueued" "\<not> tr_cancel t"
    and fence: "cl_fence c = tr_fence t + 1" and ep: "episodes d' = episodes d1" "ep_events d' = ep_events d1"
    and tasks: "tasks d' = update_where (\<lambda>x. tr_episode x = cl_episode c)
       (\<lambda>_. t\<lparr>tr_state := TaskLeased, tr_attempts := tr_attempts t + 1, tr_fence := tr_fence t + 1, tr_active := aid, tr_updated := format_nano now\<rparr>) (tasks d1)"
  have "remote_step d1 d'"
    by (rule tasks_remote [OF _ ep]) (rule tasks_step.move [OF t(1) task_move.claim [OF t(2,3)] tasks])
  with run have "remote_step\<^sup>*\<^sup>* d d'" by simp
  moreover have "task_where (cl_episode c) d' = Some (t\<lparr>tr_state := TaskLeased, tr_attempts := tr_attempts t + 1, tr_fence := tr_fence t + 1,
     tr_active := aid, tr_updated := format_nano now\<rparr>)"
    using task_where_move [OF t(1) _ tasks, of "cl_episode c"] by simp
  ultimately show ?thesis using fence t(3) by simp
qed

lemma Heartbeat_Inr:
  assumes "Heartbeat now eid aid fence lease d = (Inr h, d')"
  shows "remote_step d d' \<and> (\<exists>t. find_row (\<lambda>t. tr_episode t = eid \<and> tr_state t = TaskLeased \<and> tr_active t = aid \<and> tr_fence t = fence) (tasks d) = Some t \<and>
    hb_cancel h = tr_cancel t)"
proof -
  have same: "episodes d' = episodes d \<and> ep_events d' = ep_events d \<and> tasks d' = tasks d"
    using assms unfolding Heartbeat_def transaction_Inr Let_def
    by (auto simp: requireOneRow_def casAttempt_def split: if_splits option.splits)
  moreover have "\<exists>t. find_row (\<lambda>t. tr_episode t = eid \<and> tr_state t = TaskLeased \<and> tr_active t = aid \<and> tr_fence t = fence) (tasks d) = Some t \<and>
    hb_cancel h = tr_cancel t"
    using assms unfolding Heartbeat_def transaction_Inr Let_def by (auto split: if_splits option.splits)
  ultimately show ?thesis using same_tables_step by blast
qed

lemma insertEvents_Inr:
  "insertEvents eid es d = Inr d' \<Longrightarrow> d' = d\<lparr>ep_events := ep_events d @ map (\<lambda>e. \<lparr>lr_episode = eid, lr_event = e\<rparr>) es\<rparr>"
proof (induction es arbitrary: d)
  case (Cons e es)
  then obtain d1 where "d1 = d\<lparr>ep_events := ep_events d @ [\<lparr>lr_episode = eid, lr_event = e\<rparr>]\<rparr>" "insertEvents eid es d1 = Inr d'"
    by (auto simp: insertEvent_Inr)
  then show ?case using Cons.IH [of d1] by simp
qed simp

lemma validateRemoteEnvelope_Inr:
  assumes "validateRemoteEnvelope rq v = Inr e"
  shows "vp_evidence v = Some e \<and> lf_current (ev_lifecycle e) \<in> {StatusSucceeded, StatusAssertionFailed} \<and>
    length (lf_events (ev_lifecycle e)) = 6 \<and> chain_ok 1 StatusCreated (tl (lf_events (ev_lifecycle e))) = Inr () \<and>
    evidence_Digest e = vp_digest v \<and> ev_episodeID e = jr_id rq \<and> ev_bundle e = jr_bundle rq"
  using assms unfolding validateRemoteEnvelope_def by (auto simp: Let_def split: option.splits if_splits)

text \<open>A completion that is not a replay: the checks it has passed and the rows it has written.\<close>

lemma CompleteClaim_commit:
  assumes "CompleteClaim now1 now2 eid aid fence envelope d = (Inr (w, False), d')"
  obtains v e t row a d1 d2 d3 where "envelope = Some v" "w = Some v" "task_where eid d = Some t"
    "tr_state t = TaskLeased" "tr_active t = aid" "tr_fence t = fence" "\<not> tr_cancel t"
    "episode_where eid d = Some row" "validateRemoteEnvelope (row_request row) v = Inr e"
    "find_row (\<lambda>a. at_id a = aid \<and> at_episode a = eid \<and> at_fence a = fence) (attempts d) = Some a"
    "at_state a = AttemptLeased" "lease_alive now1 (at_lease a)"
    "insertEvents eid (tl (lf_events (ev_lifecycle e))) d = Inr d1"
    "requireOneRow ErrStaleAttempt (casEpisode
        (\<lambda>r. er_id r = eid \<and> er_status r = StatusCreated \<and> er_sequence r = 0)
        (\<lambda>r. r\<lparr>er_status := lf_current (ev_lifecycle e), er_sequence := int (length (lf_events (ev_lifecycle e))) - 1, er_outcome := ev_outcome e,
               er_evidence := Some v, er_evidenceDigest := vp_digest v, er_updated := format_nano now2\<rparr>) d1) = Inr d2"
    "requireOneRow ErrStaleAttempt (casAttempt
        (\<lambda>r. at_id r = aid \<and> at_state r = AttemptLeased \<and> at_fence r = fence)
        (\<lambda>r. r\<lparr>at_state := AttemptCompleted, at_commit := CommitCommitted, at_updated := format_nano now2\<rparr>) d2) = Inr d3"
    "requireOneRow ErrStaleAttempt (casTask
        (\<lambda>r. tr_episode r = eid \<and> tr_active r = aid \<and> tr_fence r = fence \<and> tr_state r = TaskLeased)
        (\<lambda>r. r\<lparr>tr_state := TaskCompleted, tr_active := [], tr_final := aid, tr_finalDigest := vp_digest v,
               tr_updated := format_nano now2\<rparr>) d3) = Inr d'"
proof -
  obtain v t where v: "envelope = Some v" "task_where eid d = Some t"
    using assms unfolding CompleteClaim_def transaction_Inr by (auto split: option.splits if_splits)
  have t: "tr_state t = TaskLeased" "tr_active t = aid" "tr_fence t = fence" "\<not> tr_cancel t"
    using assms v unfolding CompleteClaim_def transaction_Inr by (auto split: if_splits)
  obtain row where row: "episode_where eid d = Some row"
    using assms v t unfolding CompleteClaim_def transaction_Inr by (auto split: if_splits option.splits)
  obtain e where e: "validateRemoteEnvelope (row_request row) v = Inr e"
    using assms v t row unfolding CompleteClaim_def transaction_Inr by (auto split: if_splits)
  obtain a where a: "find_row (\<lambda>a. at_id a = aid \<and> at_episode a = eid \<and> at_fence a = fence) (attempts d) = Some a"
    using assms v t row e unfolding CompleteClaim_def transaction_Inr by (auto split: if_splits option.splits)
  have as: "at_state a = AttemptLeased" "lease_alive now1 (at_lease a)"
    using assms v t row e a unfolding CompleteClaim_def transaction_Inr by (auto split: if_splits)
  show thesis
    using assms v t row e a as that [OF v(1) _ v(2) t row e a as] unfolding CompleteClaim_def transaction_Inr Let_def
    by (auto split: if_splits)
qed

end
