(* ===== verification/Remote_Runs.thy ===== *)
theory Remote_Runs
  imports Remote_Facts
begin

text \<open>
  Every operation of the journal and of the coordinator is a run of the abstract machines, for
  workers that hand over faithful envelopes; what a completion has checked; and that the envelope
  of a run is faithful.
\<close>

section \<open>Completion\<close>

text \<open>
  The completion checks the chain of events and the current status of the lifecycle, but neither
  that the last event leads to that status nor that the outcome is the one of the status.
\<close>

definition consistent_outcome :: "envelope \<Rightarrow> bool" where
  "consistent_outcome v \<longleftrightarrow> (case vp_evidence v of
       None \<Rightarrow> False
     | Some e \<Rightarrow> lc_to (last (lf_events (ev_lifecycle e))) = lf_current (ev_lifecycle e) \<and>
         ev_outcome e = run_outcome (lf_current (ev_lifecycle e)))"

lemma validated_faithful:
  assumes "validateRemoteEnvelope rq v = Inr e" "consistent_outcome v"
  shows "faithful rq v \<and> vp_evidence v = Some e \<and> lf_events (ev_lifecycle e) = run_events (lf_current (ev_lifecycle e)) \<and>
    lf_current (ev_lifecycle e) \<in> {StatusSucceeded, StatusAssertionFailed}"
proof -
  let ?es = "lf_events (ev_lifecycle e)"
  have e: "vp_evidence v = Some e" "lf_current (ev_lifecycle e) \<in> {StatusSucceeded, StatusAssertionFailed}" "length ?es = 6"
    using validateRemoteEnvelope_Inr [OF assms(1)] by auto
  have hd: "hd ?es = \<lparr>lc_sequence = 0, lc_from = None, lc_to = StatusCreated\<rparr>" and chain: "chain_ok 1 StatusCreated (tl ?es) = Inr ()"
    using assms(1) e(1) unfolding validateRemoteEnvelope_def by (auto simp: Let_def split: if_splits)
  have "check_chain ?es = Inr ()"
    using hd chain e(3) by (cases ?es) (auto simp: check_chain_def)
  moreover have "?es \<noteq> []" using e(3) by auto
  moreover have "lc_to (last ?es) = lf_current (ev_lifecycle e)" using assms(2) e(1) by (simp add: consistent_outcome_def)
  ultimately have r: "?es = run_events (lf_current (ev_lifecycle e))"
    using run_events_unique e(2) by blast
  moreover have "faithful rq v"
    using assms e(1,2) r unfolding validateRemoteEnvelope_def
    by (auto simp: Let_def faithful_def consistent_outcome_def split: if_splits)
  ultimately show ?thesis using e by blast
qed

lemma faithful_validated:
  assumes "faithful rq v"
  shows "\<exists>e. vp_evidence v = Some e \<and> validateRemoteEnvelope rq v = Inr e"
proof -
  have c: "chain_ok 1 StatusCreated (tl (run_events t)) = Inr () \<and> length (run_events t) = 6 \<and>
      hd (run_events t) = \<lparr>lc_sequence = 0, lc_from = None, lc_to = StatusCreated\<rparr>" if "t \<in> {StatusSucceeded, StatusAssertionFailed}" for t
    using that by (auto simp: run_events_def event_at_seq_def)
  obtain e where e: "vp_evidence v = Some e" using assms by (auto simp: faithful_def split: option.splits)
  with assms have "lf_current (ev_lifecycle e) \<in> {StatusSucceeded, StatusAssertionFailed}"
    "lf_events (ev_lifecycle e) = run_events (lf_current (ev_lifecycle e))" by (auto simp: faithful_def)
  then have "validateRemoteEnvelope rq v = Inr e"
    using assms e c [of "lf_current (ev_lifecycle e)"] unfolding validateRemoteEnvelope_def faithful_def by (auto simp: Let_def)
  with e show ?thesis by blast
qed

lemma row_by_id:
  assumes "distinct (map er_id (episodes d))" "episode_where eid d = Some r"
    "requireOneRow x (casEpisode (\<lambda>r. er_id r = eid \<and> q r) f d) = Inr d'"
  shows "q r \<and> d' = d\<lparr>episodes := update_where (\<lambda>x. er_id x = eid) (\<lambda>_. f r) (episodes d)\<rparr>"
proof -
  have one: "affected (\<lambda>r. er_id r = eid \<and> q r) (episodes d) = 1"
    and d': "d' = d\<lparr>episodes := update_where (\<lambda>r. er_id r = eid \<and> q r) f (episodes d)\<rparr>"
    using assms(3) by (auto simp: requireOneRow_def casEpisode_def split: if_splits)
  obtain r0 where "find_row (\<lambda>x. er_id x = eid) (episodes d) = Some r0" "er_id r0 = eid \<and> q r0"
     "update_where (\<lambda>r. er_id r = eid \<and> q r) f (episodes d) = update_where (\<lambda>x. er_id x = eid) (\<lambda>_. f r0) (episodes d)"
    by (rule cas_hit [OF assms(1) _ one, of eid f]) auto
  then show ?thesis using assms(2) d' by (simp add: episode_where_def)
qed

lemma CompleteClaim_run:
  assumes "CompleteClaim now1 now2 eid aid fence (Some v) d = (Inr (w, False), d')" "jok d" "consistent_outcome v"
  shows "remote_step d d' \<and> w = Some v \<and> (\<exists>t. task_where eid d = Some t \<and> tr_state t = TaskLeased \<and> tr_active t = aid \<and> tr_fence t = fence \<and>
    (\<exists>s. task_where eid d' = Some (t\<lparr>tr_state := TaskCompleted, tr_active := [], tr_final := aid, tr_finalDigest := vp_digest v, tr_updated := s\<rparr>)))"
  using assms(1)
proof (rule CompleteClaim_commit)
  fix v' :: envelope and e :: evidence and t :: task_row and row :: episode_row and a :: attempt_row and d1 d2 d3 :: jdb
  let ?es = "lf_events (ev_lifecycle e)"
  let ?f = "\<lambda>r. r\<lparr>er_status := lf_current (ev_lifecycle e), er_sequence := int (length ?es) - 1, er_outcome := ev_outcome e,
               er_evidence := Some v', er_evidenceDigest := vp_digest v', er_updated := format_nano now2\<rparr>"
  let ?g = "\<lambda>r. r\<lparr>tr_state := TaskCompleted, tr_active := [], tr_final := aid, tr_finalDigest := vp_digest v', tr_updated := format_nano now2\<rparr>"
  assume v: "Some v = Some v'" "w = Some v'" and t: "task_where eid d = Some t" "tr_state t = TaskLeased" "tr_active t = aid" "tr_fence t = fence" "\<not> tr_cancel t"
    and row: "episode_where eid d = Some row" "validateRemoteEnvelope (row_request row) v' = Inr e"
    and ins: "insertEvents eid (tl ?es) d = Inr d1"
    and ep: "requireOneRow ErrStaleAttempt (casEpisode (\<lambda>r. er_id r = eid \<and> er_status r = StatusCreated \<and> er_sequence r = 0) ?f d1) = Inr d2"
    and att: "requireOneRow ErrStaleAttempt (casAttempt
        (\<lambda>r. at_id r = aid \<and> at_state r = AttemptLeased \<and> at_fence r = fence)
        (\<lambda>r. r\<lparr>at_state := AttemptCompleted, at_commit := CommitCommitted, at_updated := format_nano now2\<rparr>) d2) = Inr d3"
    and tsk: "requireOneRow ErrStaleAttempt (casTask
        (\<lambda>r. tr_episode r = eid \<and> tr_active r = aid \<and> tr_fence r = fence \<and> tr_state r = TaskLeased) ?g d3) = Inr d'"
  have d1: "d1 = d\<lparr>ep_events := ep_events d @ map (\<lambda>e. \<lparr>lr_episode = eid, lr_event = e\<rparr>) (tl ?es)\<rparr>"
    using insertEvents_Inr [OF ins] .
  have row1: "er_status row = StatusCreated \<and> er_sequence row = 0 \<and> d2 = d1\<lparr>episodes := update_where (\<lambda>x. er_id x = eid) (\<lambda>_. ?f row) (episodes d1)\<rparr>"
    using row_by_id [OF _ _ ep, of row] assms(2) row(1) by (simp add: d1 jok_def lifecycle_ok_def episode_where_def)
  have d3: "episodes d3 = episodes d2 \<and> ep_events d3 = ep_events d2 \<and> tasks d3 = tasks d2"
    using att by (auto simp: requireOneRow_def casAttempt_def split: if_splits)
  have tasks3: "tasks d3 = tasks d" using d3 row1 d1 by simp
  have ok3: "tasks_ok d3" using assms(2) by (simp add: tasks_ok_def jok_def tasks3)
  obtain t3 where t3: "task_where eid d3 = Some t3" and d': "d' = d3\<lparr>tasks := update_where (\<lambda>x. tr_episode x = eid) (\<lambda>_. ?g t3) (tasks d3)\<rparr>"
    by (rule casTask_Inr [OF tsk ok3, of eid]) auto
  have [simp]: "t3 = t" using t3 t(1) tasks3 by (simp add: task_where_def)
  note f = validated_faithful [OF row(2)]
  have fe: "?es = run_events (lf_current (ev_lifecycle e))" "faithful (row_request row) v'" "vp_evidence v' = Some e"
    using f v(1) assms(3) by auto
  have cont: "content_ok (?f row)"
    using content_ok_commit [OF _ _ fe(2,3)] lifecycle_okD(2) [of d eid row] assms(2) row(1) row1
    by (simp add: jok_def lifecycle_row_def IsTerminal_def)
  have chain: "chain_ok 1 StatusCreated (tl ?es) = Inr ()" and n: "length ?es = 6"
    using validateRemoteEnvelope_Inr [OF row(2)] by auto
  have last: "lc_to (last (tl ?es)) = lf_current (ev_lifecycle e)"
    by (simp add: fe(1)) (simp add: run_events_def event_at_seq_def)
  have life: "lifecycle_step eid d d'"
  proof (rule lifecycle_step.advance [OF row(1), of "tl ?es" "?f row"])
    show "tl ?es \<noteq> []" using n by (cases ?es) auto
    show "episodes d' = update_where (\<lambda>x. er_id x = eid) (\<lambda>_. ?f row) (episodes d)"
      using d' d3 row1 d1 by simp
    show "ep_events d' = ep_events d @ map (\<lambda>e. \<lparr>lr_episode = eid, lr_event = e\<rparr>) (tl ?es)"
      using d' d3 row1 d1 by simp
  qed (use chain row1 cont last n in \<open>simp_all add: row_request_def\<close>)
  have move: "task_move t (?g t)"
    using task_move.complete [OF t(2,5), of "format_nano now2" "vp_digest v'"] t(3) by simp
  have task: "tasks_step d d'"
    by (rule tasks_step.move [OF t(1) move]) (simp add: d' tasks3)
  have "task_where eid d' = Some (?g t)"
    using task_where_move [OF t(1), of "?g t" d' eid] by (simp add: d' tasks3)
  then have "\<exists>s. task_where eid d' = Some (t\<lparr>tr_state := TaskCompleted, tr_active := [], tr_final := aid, tr_finalDigest := vp_digest v, tr_updated := s\<rparr>)"
    using v(1) by blast
  then show ?thesis
    using life task v t(1-4) unfolding remote_step_def by blast
qed

section \<open>Failure and cancellation\<close>

lemma fail_outcome_ok:
  "snd (fail_outcome t c) \<in> {TaskQueued, TaskFailed, TaskCancelled, TaskCommitUnknown} \<and>
   (snd (fail_outcome t c) = TaskQueued \<longrightarrow> tr_attempts t < tr_max t \<and> \<not> tr_cancel t \<and> c \<noteq> CommitUnknown)"
  by (auto simp: fail_outcome_def)

lemma fail_tx_run:
  assumes "fail_tx now eid aid fence c cls d = (Inr (), d')" "jok d"
  shows "remote_step\<^sup>*\<^sup>* d d' \<and> (\<exists>t. task_where eid d = Some t \<and> tr_state t = TaskLeased \<and> tr_active t = aid \<and> tr_fence t = fence \<and>
    task_where eid d' = Some (t\<lparr>tr_state := snd (fail_outcome t c), tr_active := [], tr_updated := format_nano now\<rparr>))"
proof -
  obtain t where t: "task_where eid d = Some t" "tr_state t = TaskLeased" "tr_active t = aid" "tr_fence t = fence"
    using assms(1) unfolding fail_tx_def transaction_Inr by (auto split: if_splits option.splits)
  obtain ast ns where o: "fail_outcome t c = (ast, ns)" by (cases "fail_outcome t c")
  then obtain d1 d2 where 1: "finish_attempt aid fence ast c cls (format_nano now) d = Inr d1"
      "release_task eid aid fence ns (format_nano now) d1 = Inr d2"
      "(if ns = TaskCancelled then cancelParentTx eid (format_nano now) d2 else Inr d2) = Inr d'"
    using assms(1) t unfolding fail_tx_def transaction_Inr Let_def by (auto split: if_splits)
  have "ns \<in> {TaskQueued, TaskFailed, TaskCancelled, TaskCommitUnknown}" "ns = TaskQueued \<Longrightarrow> tr_attempts t < tr_max t \<and> \<not> tr_cancel t"
    using fail_outcome_ok [of t c] o by auto
  then show ?thesis
    using end_attempt_run [OF 1 assms(2)] t o by auto
qed

lemma fst_unit_cases: "(\<exists>e d'. (r :: ('e + unit) \<times> 'd) = (Inl e, d')) \<or> (\<exists>d'. r = (Inr (), d'))"
  by (cases r; cases "fst r") auto

lemma then_GetTask_run:
  assumes "\<And>e d'. tx d = (Inl e, d') \<Longrightarrow> d' = d" "\<And>d'. tx d = (Inr (), d') \<Longrightarrow> R\<^sup>*\<^sup>* d d'"
  shows "R\<^sup>*\<^sup>* d (snd (then_GetTask eid (tx d)))"
  using fst_unit_cases [of "tx d"] assms by (auto simp: then_GetTask_def)

lemma FailClaim_run: "jok d \<Longrightarrow> remote_step\<^sup>*\<^sup>* d (snd (FailClaim now eid aid fence c cls d))"
  unfolding FailClaim_def using fail_tx_run by (intro then_GetTask_run) (auto simp: fail_tx_def transaction_Inl)

lemma cancel_tx_run:
  assumes "cancel_tx now eid d = (Inr (), d')" "jok d"
  shows "remote_step\<^sup>*\<^sup>* d d' \<and> (\<exists>t. task_where eid d = Some t \<and> tr_state t \<noteq> TaskCompleted)"
proof -
  obtain t where t: "task_where eid d = Some t" "tr_state t \<noteq> TaskCompleted"
    using assms(1) unfolding cancel_tx_def transaction_Inr by (auto split: if_splits option.splits)
  show ?thesis
  proof (cases "tr_state t = TaskQueued \<or> tr_state t = TaskLeased")
    case False
    then have "tr_state t \<in> {TaskCancelled, TaskFailed, TaskCommitUnknown}"
      using t(2) by (cases "tr_state t") auto
    then have "d' = d" using assms(1) t unfolding cancel_tx_def transaction_Inr by simp
    then show ?thesis using t by auto
  next
    case True
    let ?nxt = "if tr_state t = TaskQueued then TaskCancelled else tr_state t"
    let ?f = "\<lambda>r. r\<lparr>tr_cancel := True, tr_state := ?nxt, tr_updated := format_nano now\<rparr>"
    obtain d1 where 1: "(if tr_state t = TaskQueued then cancelParentTx eid (format_nano now) d else Inr d) = Inr d1"
      and 2: "requireOneRow ErrEpisodeConflict (casTask (\<lambda>r. tr_episode r = eid \<and> tr_state r = tr_state t) ?f d1) = Inr d'"
      using assms(1) t True unfolding cancel_tx_def transaction_Inr Let_def by (auto split: if_splits)
    have s1: "remote_step\<^sup>*\<^sup>* d d1 \<and> tasks d1 = tasks d"
      using 1 cancelParentTx_Inr [of eid "format_nano now" d d1] assms(2) lifecycle_remote by (auto simp: jok_def split: if_splits)
    then have j1: "jok d1" using remote_run_jok assms(2) by blast
    obtain u where u: "task_where eid d1 = Some u" and d': "d' = d1\<lparr>tasks := update_where (\<lambda>x. tr_episode x = eid) (\<lambda>_. ?f u) (tasks d1)\<rparr>"
      by (rule casTask_Inr [OF 2, of eid]) (use j1 in \<open>auto simp: jok_def\<close>)
    have [simp]: "u = t" using u s1 t(1) by (simp add: task_where_def)
    have "task_move t (?f t)"
      using True task_move.cancel_queued [of t] task_move.cancel_leased [of t] by auto
    then have "remote_step d1 d'"
      unfolding d' using tasks_move_step [OF u] by simp
    then show ?thesis using s1 t by (auto intro: rtranclp.rtrancl_into_rtrancl)
  qed
qed

lemma CancelTask_run: "jok d \<Longrightarrow> remote_step\<^sup>*\<^sup>* d (snd (CancelTask now eid d))"
  unfolding CancelTask_def using cancel_tx_run by (intro then_GetTask_run) (auto simp: cancel_tx_def transaction_Inl)

section \<open>Submission\<close>

lemma submit_tx_run:
  assumes "submit_tx now eid bytes profile m created d = (r, d')" "1 \<le> m" "m \<le> int MaxEpisodeAttempts"
  shows "remote_step\<^sup>*\<^sup>* d d'"
proof (cases r)
  case (Inl e)
  then have "d' = d" using assms(1) by (simp add: submit_tx_def transaction_Inl)
  then show ?thesis by simp
next
  case (Inr b)
  then have body: "(case task_where eid d of
       Some t \<Rightarrow> if tr_profile t \<noteq> profile \<or> tr_max t \<noteq> m then Inl ErrEpisodeConflict else Inr (False, d)
     | None \<Rightarrow>
         bindE (if created then Inr ()
                else Inl ErrConnectionBusy) (\<lambda>_.
         Inr (True, d\<lparr>tasks := tasks d @ [new_task eid bytes profile m (format_nano now)]\<rparr>))) = Inr (b, d')"
    using assms(1) by (simp add: submit_tx_def)
  show ?thesis
  proof (cases "task_where eid d")
    case None
    then have "d' = d\<lparr>tasks := tasks d @ [new_task eid bytes profile m (format_nano now)]\<rparr>"
      using body by auto
    then have "tasks_step d d'" "episodes d' = episodes d" "ep_events d' = ep_events d"
      using tasks_step.new [OF None assms(2,3), of d' bytes profile "format_nano now"] by simp_all
    then show ?thesis using tasks_remote by blast
  next
    case (Some t)
    then show ?thesis using body by (auto split: if_splits)
  qed
qed

lemma createOrLoad_run: "createOrLoad now rq d = (r, d') \<Longrightarrow> remote_step\<^sup>*\<^sup>* d d'"
proof (cases r)
  case (Inl e)
  assume "createOrLoad now rq d = (r, d')"
  then have "d' = d" using Inl by (simp add: createOrLoad_def transaction_Inl)
  then show ?thesis by simp
next
  case (Inr p)
  assume c: "createOrLoad now rq d = (r, d')"
  obtain rec created where p: "p = (rec, created)" by (cases p)
  have "createOrLoad now rq d = (Inr (rec, created), d')" using c Inr p by simp
  then have "lifecycle_step (jr_id rq) d d' \<and> tasks d' = tasks d"
    using step_createOrLoad by (auto elim!: createOrLoad_Inr)
  then show ?thesis using lifecycle_remote by blast
qed

lemma Submit_run: "remote_step\<^sup>*\<^sup>* d (snd (Submit openBytes n1 n2 bytes eid path version revision profile m d))"
  unfolding Submit_def
  by (auto split: option.split sum.split prod.split dest!: createOrLoad_run submit_tx_run intro: rtranclp_trans)

end
