(* ===== verification/Persistent_Runs.thy ===== *)
theory Persistent_Runs
  imports Remote_Runs
begin

text \<open>
  \<open>RunPersistent\<close> as a run of the lifecycle machine, through the observer that journals every
  transition while the episode executes; and the record it leaves.
\<close>

section \<open>What stays of an episode\<close>

lemma remote_run_keeps:
  assumes "remote_step\<^sup>*\<^sup>* d d'" "episode_where eid d = Some r"
  shows "\<exists>r'. episode_where eid d' = Some r' \<and> row_request r' = row_request r \<and> er_request r' = er_request r \<and> er_created r' = er_created r"
  using assms(1)
proof (induction rule: rtranclp_induct)
  case (step y z)
  then obtain k r' where "lifecycle_step k y z" "episode_where eid y = Some r'"
    "row_request r' = row_request r" "er_request r' = er_request r" "er_created r' = er_created r" unfolding remote_step_def by blast
  with lifecycle_step_keeps [of k y z eid r'] show ?case by auto
qed (use assms(2) in auto)

lemma jok_row: "jok d \<Longrightarrow> episode_where eid d = Some r \<Longrightarrow> lifecycle_row r (raw_events eid d)"
  by (simp add: jok_def lifecycle_okD)

section \<open>Journaled operations\<close>

definition journaled :: "(int \<times> jdb, 'a) op \<Rightarrow> bool" where
  "journaled m \<longleftrightarrow> (\<forall>n d. jok d \<longrightarrow> remote_step\<^sup>*\<^sup>* d (snd (snd (m (n, d)))))"

named_theorems journaled

lemma journaled_basic [journaled]: "journaled (returnS x)" "journaled (failS e)" "journaled (liftS r)"
  by (simp_all add: journaled_def returnS_def failS_def liftS_def)

lemma journaled_bind [journaled]:
  assumes "journaled m" "\<And>x. journaled (f x)"
  shows "journaled (bindS m f)"
  unfolding journaled_def
proof (intro allI impI)
  fix n d assume d: "jok d"
  obtain r n1 d1 where m: "m (n, d) = (r, (n1, d1))" by (cases "m (n, d)") auto
  have s: "remote_step\<^sup>*\<^sup>* d d1" using assms(1) d m unfolding journaled_def by (metis snd_conv)
  then have j: "jok d1" using d remote_run_jok by blast
  show "remote_step\<^sup>*\<^sup>* d (snd (snd (bindS m f (n, d))))"
  proof (cases r)
    case (Inl e)
    then show ?thesis using s m by (simp add: bindS_def)
  next
    case (Inr x)
    then have "remote_step\<^sup>*\<^sup>* d1 (snd (snd (f x (n1, d1))))" using assms(2) [of x] j unfolding journaled_def by blast
    then show ?thesis using s m Inr by (simp add: bindS_def rtranclp_trans)
  qed
qed

lemma journaled_ignore [journaled]: "journaled m \<Longrightarrow> journaled (ignoreS m)"
  by (simp add: journaled_def ignoreS_def)

lemma journaled_observer [journaled]: "journaled (journal_observer clock rq e)"
  unfolding journaled_def
proof (intro allI impI)
  fix n d assume d: "jok d"
  obtain r d' where a: "appendTransition (clock (lc_sequence e)) rq n e d = (r, d')" by fastforce
  have "remote_step\<^sup>*\<^sup>* d d'"
  proof (cases r)
    case (Inl x)
    then have "d' = d" using a by (simp add: appendTransition_def transaction_Inl)
    then show ?thesis by simp
  next
    case (Inr u)
    then have "lifecycle_step (jr_id rq) d d' \<and> tasks d' = tasks d"
      using appendTransition_Inr [of "clock (lc_sequence e)" rq n e d u d'] a d by (simp add: jok_def)
    then show ?thesis using lifecycle_remote by blast
  qed
  then show "remote_step\<^sup>*\<^sup>* d (snd (snd (journal_observer clock rq e (n, d))))"
    using a by (auto simp: journal_observer_def split: sum.split)
qed

lemma journaled_transition [journaled]: "journaled (transition (Some (journal_observer clock rq)) s l)"
  unfolding transition_def by (auto split: option.split intro!: journaled)

lemma journaled_if [journaled]: "journaled m \<Longrightarrow> journaled m' \<Longrightarrow> journaled (if b then m else m')"
  by simp

lemma journaled_run: "journaled (episode_run l (Some (journal_observer clock rq)) artifact eid path version revision)"
  unfolding episode_run_def Let_def
  by (auto split: option.split sum.split intro!: journaled)

section \<open>RunPersistent\<close>

lemma selectScenario_idem: "selectScenario ss path = Inr s \<Longrightarrow> selectScenario ss s = Inr s"
  by (auto simp: selectScenario_def split: if_splits list.splits)

lemma resolveRequest_Inr:
  assumes "resolveRequest artifact eid path version revision = Inr rq"
  shows "\<exists>a. artifact = Some a \<and> controlIDPattern eid \<and> version \<noteq> [] \<and> jr_id rq = eid \<and> jr_bundle rq = af_digest a \<and> jr_version rq = version \<and>
    jr_revision rq = revision_or_unknown revision \<and> selectScenario (af_scenarios a) path = Inr (jr_path rq) \<and>
    selectScenario (af_scenarios a) (jr_path rq) = Inr (jr_path rq)"
  using assms unfolding resolveRequest_def by (auto split: option.splits if_splits dest: selectScenario_idem)

lemma revision_idem [simp]: "revision_or_unknown (revision_or_unknown r) = revision_or_unknown r"
  by (simp add: revision_or_unknown_def)

text \<open>The envelope of a run is faithful to the request it was run for.\<close>

lemma run_faithful:
  assumes "resolveRequest artifact eid path version revision = Inr rq"
    "episode_run l obs artifact (jr_id rq) (jr_path rq) (jr_version rq) (jr_revision rq) s = (Inr v, s')"
  shows "faithful rq v"
  using assms(2)
proof (rule episode_run_Inr)
  fix a selected rep t
  assume a: "artifact = Some a" and sel: "selectScenario (af_scenarios a) (jr_path rq) = Inr selected"
    and t: "t = (if rp_passed rep then StatusSucceeded else StatusAssertionFailed)"
    and v: "v = envelope_of (evidence_of a (jr_id rq) selected (jr_version rq) (revision_or_unknown (jr_revision rq))
      \<lparr>lf_current = t, lf_events = run_events t\<rparr> rep)"
  have "jr_bundle rq = af_digest a" "selected = jr_path rq" "revision_or_unknown (jr_revision rq) = jr_revision rq"
    using resolveRequest_Inr [OF assms(1)] a sel by auto
  then show ?thesis
    by (auto simp: v t faithful_def envelope_of_def evidence_of_def run_outcome_def)
qed

lemma fail_episode_run: "jok d \<Longrightarrow> remote_step\<^sup>*\<^sup>* d (snd (fail_episode now rq n ''RUNTIME_ERROR'' d))"
proof -
  assume d: "jok d"
  obtain r d' where f: "fail_episode now rq n ''RUNTIME_ERROR'' d = (r, d')" by fastforce
  show ?thesis
  proof (cases r)
    case (Inl e)
    then have "d' = d" using f by (simp add: fail_episode_def transaction_Inl)
    then show ?thesis using f by simp
  next
    case (Inr u)
    then have "lifecycle_step (jr_id rq) d d' \<and> tasks d' = tasks d"
      using fail_episode_Inr [of now rq n d u d'] f d by (simp add: jok_def)
    then show ?thesis using f lifecycle_remote by auto
  qed
qed

text \<open>A run that is not a replay: it ends in a row that carries its envelope.\<close>

lemma RunPersistent_new:
  assumes "resolveRequest artifact eid path version revision = Inr rq" "createOrLoad (clock 0) rq d = (Inr (record0, True), d1)" "jok d"
    "episode_run l (Some (journal_observer clock rq)) artifact (jr_id rq) (jr_path rq) (jr_version rq) (jr_revision rq) (0, d1) = (Inr v, (n, d2))"
    "complete (clock (n + 1)) rq n v d2 = (Inr u, d')"
  shows "remote_step\<^sup>*\<^sup>* d d' \<and> faithful rq v \<and> (\<exists>r. episode_where (jr_id rq) d' = Some r \<and> row_request r = rq \<and> er_evidence r = Some v \<and>
    IsTerminal (er_status r) \<and> er_created r = format_nano (clock 0) \<and> er_updated r = format_nano (clock (n + 1)))"
proof -
  have s1: "remote_step\<^sup>*\<^sup>* d d1" using createOrLoad_run [OF assms(2)] .
  obtain r1 where r1: "episode_where (jr_id rq) d1 = Some r1" "row_request r1 = rq" "er_created r1 = format_nano (clock 0)"
    using assms(2)
  proof (rule createOrLoad_Inr)
    assume "\<not> True" then show ?thesis by simp
  next
    assume "episode_where (jr_id rq) d = None" "d1 = d\<lparr>episodes := episodes d @ [new_row rq (format_nano (clock 0))],
        ep_events := ep_events d @ [\<lparr>lr_episode = jr_id rq, lr_event = \<lparr>lc_sequence = 0, lc_from = None, lc_to = StatusCreated\<rparr>\<rparr>]\<rparr>"
    then show ?thesis
      using that [of "new_row rq (format_nano (clock 0))"] by (simp add: episode_where_def find_row_append new_row_def row_request_def)
  qed
  have j1: "jok d1" using remote_run_jok [OF s1 assms(3)] .
  have s2: "remote_step\<^sup>*\<^sup>* d1 d2"
    using journaled_run [of l clock rq artifact "jr_id rq" "jr_path rq" "jr_version rq" "jr_revision rq"] j1 assms(4)
    unfolding journaled_def by (metis snd_conv)
  have j2: "jok d2" using remote_run_jok [OF s2 j1] .
  have faith: "faithful rq v" by (rule run_faithful [OF assms(1,4)])
  have own: "row_request r = rq \<and> er_created r = format_nano (clock 0)" if "episode_where (jr_id rq) d2 = Some r" for r
    using remote_run_keeps [OF s2 r1(1)] that r1 by auto
  show ?thesis
  proof (rule complete_Inr [OF assms(5) _ faith])
    show "lifecycle_ok d2" using j2 by (simp add: jok_def)
    show "\<And>r. episode_where (jr_id rq) d2 = Some r \<Longrightarrow> row_request r = rq" using own by blast
  next
    fix e ev r
    assume c: "check_completion rq n v = Inr (e, ev)" and step: "lifecycle_step (jr_id rq) d2 d'" "tasks d' = tasks d2" and r: "episode_where (jr_id rq) d2 = Some r"
      and r': "episode_where (jr_id rq) d' = Some (r\<lparr>er_status := lf_current (ev_lifecycle e), er_sequence := lc_sequence ev, er_outcome := ev_outcome e,
         er_evidence := Some v, er_evidenceDigest := vp_digest v, er_updated := format_nano (clock (n + 1))\<rparr>)"
    have "remote_step d2 d'" using lifecycle_remote [OF step] .
    then have "remote_step\<^sup>*\<^sup>* d d'" using s1 s2 by (meson rtranclp.rtrancl_into_rtrancl rtranclp_trans)
    moreover have "IsTerminal (lf_current (ev_lifecycle e))" using check_completion_Inr [OF c] by (auto simp: IsTerminal_def)
    ultimately show ?thesis using faith r' own [OF r] by (simp add: row_request_def)
  qed
qed

lemma RunPersistent_run:
  assumes "jok d"
  shows "remote_step\<^sup>*\<^sup>* d (snd (RunPersistent l clock artifact eid path version revision d))"
proof (cases "resolveRequest artifact eid path version revision")
  case (Inr rq)
  obtain c d1 where c: "createOrLoad (clock 0) rq d = (c, d1)" by fastforce
  have s1: "remote_step\<^sup>*\<^sup>* d d1" using createOrLoad_run [OF c] .
  show ?thesis
  proof (cases "\<exists>record0. c = Inr (record0, True)")
    case False
    then show ?thesis using Inr c s1 by (auto simp: RunPersistent_def split: sum.split)
  next
    case True
    then obtain record0 where c': "createOrLoad (clock 0) rq d = (Inr (record0, True), d1)" using c by blast
    obtain r n d2 where run: "episode_run l (Some (journal_observer clock rq)) artifact (jr_id rq) (jr_path rq) (jr_version rq) (jr_revision rq) (0, d1) = (r, (n, d2))"
      by (metis prod.collapse)
    have j1: "jok d1" using remote_run_jok [OF s1 assms] .
    have s2: "remote_step\<^sup>*\<^sup>* d1 d2"
      using journaled_run [of l clock rq artifact "jr_id rq" "jr_path rq" "jr_version rq" "jr_revision rq"] j1 run
      unfolding journaled_def by (metis snd_conv)
    have j2: "jok d2" using remote_run_jok [OF s2 j1] .
    have s12: "remote_step\<^sup>*\<^sup>* d d2" using s1 s2 by (rule rtranclp_trans)
    show ?thesis
    proof (cases r)
      case (Inl e)
      then show ?thesis using Inr c' run s12 fail_episode_run [OF j2] by (auto simp: RunPersistent_def intro: rtranclp_trans)
    next
      case r: (Inr v)
      obtain u d3 where f: "complete (clock (n + 1)) rq n v d2 = (u, d3)" by fastforce
      have "remote_step\<^sup>*\<^sup>* d d3"
      proof (cases u)
        case (Inl e)
        then have "d3 = d2" using f by (simp add: complete_def transaction_Inl)
        then show ?thesis using s12 by simp
      next
        case u: (Inr x)
        show ?thesis using RunPersistent_new [OF Inr c' assms run [unfolded r] f [unfolded u]] by simp
      qed
      then show ?thesis using Inr c' run r f by (auto simp: RunPersistent_def split: sum.split)
    qed
  qed
qed (simp add: RunPersistent_def)

section \<open>Reading a record of a sound journal\<close>

definition record_of :: "episode_row \<Rightarrow> event list \<Rightarrow> episode_record" where
  "record_of r es = \<lparr>rc_id = er_id r, rc_request = er_request r, rc_bundle = er_bundle r, rc_scenario = er_scenario r,
     rc_version = er_version r, rc_revision = er_revision r, rc_status = er_status r, rc_sequence = er_sequence r,
     rc_incomplete = (\<not> IsTerminal (er_status r)), rc_outcome = er_outcome r, rc_evidenceDigest = er_evidenceDigest r,
     rc_evidence = er_evidence r, rc_errorClass = er_errorClass r, rc_created = er_created r, rc_updated = er_updated r,
     rc_events = es\<rparr>"

text \<open>What the journal cannot vouch for by itself: the clock that stamped the row, and that evidence reads back as it was.\<close>

definition stamps_sound :: "episode_row \<Rightarrow> bool" where
  "stamps_sound r \<longleftrightarrow> timestamps_ok (er_created r) (er_updated r) = Inr ()"

definition rereads :: "episode_row \<Rightarrow> bool" where
  "rereads r \<longleftrightarrow> map_option reread_envelope (er_evidence r) = er_evidence r"

lemma equalEvents_refl [simp]: "equalEvents es es"
  by (induction es) (auto simp: equalEvents_def)

lemma scanRecord_ok:
  assumes "lifecycle_row r es" "stamps_sound r" "rereads r"
  shows "scanRecord (Some r) = Inr (record_of r [])"
proof -
  have "(case er_evidence r of Some v \<Rightarrow> check_evidence r v | None \<Rightarrow> check_no_evidence r) = Inr ()"
    using assms(1) by (auto simp: lifecycle_row_def content_ok_def split: option.splits)
  moreover have "request_Digest (row_request r) = er_request r" using assms(1) by (simp add: lifecycle_row_def)
  ultimately show ?thesis
    using assms(2) unfolding scanRecord_def option.case assms(3) [unfolded rereads_def] by (simp add: stamps_sound_def record_of_def)
qed

lemma loadEvents_ok:
  assumes "lifecycle_row r (raw_events (er_id r) d)"
  shows "loadEvents (record_of r []) d = Inr (record_of r (raw_events (er_id r) d))"
proof -
  let ?es = "raw_events (er_id r) d"
  have c: "check_chain ?es = Inr ()" "?es \<noteq> []" "int (length ?es) = er_sequence r + 1" "lc_to (last ?es) = er_status r" "content_ok r"
    using assms by (auto simp: lifecycle_row_def)
  have es: "events_where (er_id r) d = ?es"
    using check_chain_sorted [OF c(1)] by (simp add: events_where_def raw_events_def)
  have ev: "map_option ev_lifecycle (vp_evidence v) = Some \<lparr>lf_current = er_status r, lf_events = ?es\<rparr>" if "er_evidence r = Some v" for v
  proof -
    have "er_status r = StatusSucceeded \<or> er_status r = StatusAssertionFailed"
      using that c(5) by (auto simp: content_ok_def check_evidence_def split: option.splits if_splits)
    then have "?es = run_events (er_status r)" using run_events_unique [OF c(1,2,4)] by blast
    then show ?thesis using that c(5) by (simp add: content_ok_def)
  qed
  have fields: "rc_id (record_of r xs) = er_id r" "rc_sequence (record_of r xs) = er_sequence r" "rc_status (record_of r xs) = er_status r"
    "rc_evidence (record_of r xs) = er_evidence r" "record_of r xs\<lparr>rc_events := ys\<rparr> = record_of r ys" for xs ys
    by (simp_all add: record_of_def)
  show ?thesis
    unfolding loadEvents_def Let_def fields es using c ev by (auto split: option.split)
qed

lemma Get_ok:
  assumes "jok d" "controlIDPattern eid" "episode_where eid d = Some r" "stamps_sound r" "rereads r"
  shows "Get eid d = Inr (record_of r (raw_events eid d))"
proof -
  have row: "lifecycle_row r (raw_events eid d)" and [simp]: "er_id r = eid" using jok_row episode_id assms(1,3) by auto
  show ?thesis
    unfolding Get_def using assms(2,3) scanRecord_ok [OF row assms(4,5)] loadEvents_ok [of r d] row by simp
qed

lemma createOrLoad_ok:
  assumes "jok d" "episode_where (jr_id rq) d = Some r" "row_request r = rq" "stamps_sound r" "rereads r"
  shows "createOrLoad now rq d = (Inr (record_of r (raw_events (jr_id rq) d), False), d)"
proof -
  have row: "lifecycle_row r (raw_events (jr_id rq) d)" and [simp]: "er_id r = jr_id rq" using jok_row episode_id assms(1,2) by auto
  have "rc_request (record_of r []) = request_Digest rq" using row assms(3) by (simp add: record_of_def lifecycle_row_def)
  then show ?thesis
    unfolding createOrLoad_def transaction_Inr using assms(2) scanRecord_ok [OF row assms(4,5)] loadEvents_ok [of r d] row by simp
qed

section \<open>Operations\<close>

text \<open>
  A call of an operation of the journal with any arguments and any result. Workers complete with
  envelopes whose outcome belongs to their lifecycle.
\<close>

inductive operation :: "jdb \<Rightarrow> jdb \<Rightarrow> bool" where
  run: "operation d (snd (RunPersistent l clock artifact eid path version revision d))"
| submit: "operation d (snd (Submit openBytes n1 n2 bytes eid path version revision profile m d))"
| claim: "operation d (snd (ClaimProfile now aid worker lease profile d))"
| heartbeat: "operation d (snd (Heartbeat now eid aid fence lease d))"
| complete: "consistent_outcome v \<Longrightarrow> operation d (snd (CompleteClaim n1 n2 eid aid fence (Some v) d))"
| fail: "operation d (snd (FailClaim now eid aid fence c cls d))"
| cancel: "operation d (snd (CancelTask now eid d))"
| recover: "operation d (snd (RecoverExpired now d))"

lemma transaction_run:
  assumes "\<And>x d'. transaction body d = (Inr x, d') \<Longrightarrow> R\<^sup>*\<^sup>* d d'"
  shows "R\<^sup>*\<^sup>* d (snd (transaction body d))"
proof (cases "transaction body d")
  case (Pair r d')
  show ?thesis
  proof (cases r)
    case (Inl e)
    then have "d' = d" using Pair by (simp add: transaction_Inl)
    with Pair show ?thesis by simp
  next
    case (Inr x)
    then have "R\<^sup>*\<^sup>* d d'" using Pair assms by blast
    then show ?thesis unfolding Pair by simp
  qed
qed

lemma CompleteClaim_replay:
  assumes "CompleteClaim n1 n2 eid aid fence env d = (Inr (w, True), d')"
  shows "d' = d \<and> (\<exists>t. task_where eid d = Some t \<and> tr_state t = TaskCompleted \<and> tr_final t = aid \<and> tr_fence t = fence \<and>
    (\<exists>v. env = Some v \<and> tr_finalDigest t = vp_digest v))"
proof -
  obtain v t where v: "env = Some v" "vp_evidence v \<noteq> None" "task_where eid d = Some t"
    using assms unfolding CompleteClaim_def transaction_Inr by (auto split: option.splits if_splits)
  have c: "tr_state t = TaskCompleted"
  proof (rule ccontr)
    assume "tr_state t \<noteq> TaskCompleted"
    then show False using assms v unfolding CompleteClaim_def transaction_Inr Let_def by (auto split: if_splits option.splits)
  qed
  then show ?thesis
    using assms v unfolding CompleteClaim_def transaction_Inr by (auto split: if_splits)
qed

lemma operation_run:
  assumes "operation d d'" "jok d"
  shows "remote_step\<^sup>*\<^sup>* d d'"
  using assms(1)
proof cases
  case (run l clock artifact eid path version revision)
  then show ?thesis using RunPersistent_run assms(2) by simp
next
  case (submit openBytes n1 n2 bytes eid path version revision profile m)
  then show ?thesis using Submit_run by simp
next
  case (claim now aid worker lease profile)
  then show ?thesis
    unfolding ClaimProfile_def using ClaimProfile_run [OF _ assms(2)]
    by (auto intro!: transaction_run simp: ClaimProfile_def)
next
  case (heartbeat now eid aid fence lease)
  then show ?thesis
    unfolding Heartbeat_def using Heartbeat_Inr by (auto intro!: transaction_run simp: Heartbeat_def)
next
  case (complete v n1 n2 eid aid fence)
  have "remote_step\<^sup>*\<^sup>* d d''" if "CompleteClaim n1 n2 eid aid fence (Some v) d = (Inr (w, b), d'')" for w b d''
    using CompleteClaim_replay [of n1 n2 eid aid fence "Some v" d w d''] CompleteClaim_run [of n1 n2 eid aid fence v d w d'']
      that assms(2) complete by (cases b) auto
  then show ?thesis
    using complete unfolding CompleteClaim_def by (auto intro!: transaction_run)
next
  case (fail now eid aid fence c cls)
  then show ?thesis using FailClaim_run assms(2) by simp
next
  case (cancel now eid)
  then show ?thesis using CancelTask_run assms(2) by simp
next
  case (recover now)
  then show ?thesis
    unfolding RecoverExpired_def using RecoverExpired_run [OF _ assms(2)] by (auto intro!: transaction_run simp: RecoverExpired_def)
qed

interpretation operations: run_invariant operation jok
proof unfold_locales
  fix d d' assume "operation d d'" "jok d"
  then show "jok d'" using operation_run remote_run_jok by blast
qed

lemma operations_run: "operation\<^sup>*\<^sup>* d d' \<Longrightarrow> jok d \<Longrightarrow> remote_step\<^sup>*\<^sup>* d d'"
proof (induction rule: rtranclp_induct)
  case (step y z)
  then have "remote_step\<^sup>*\<^sup>* y z" using operation_run operations.inv_run by blast
  with step show ?case by (auto intro: rtranclp_trans)
qed simp

end
