(* ===== verification/Episode_Example.thy ===== *)
theory Episode_Example
  imports Persistent_Runs Scenario_Props
begin

text \<open>
  A concrete episode: the bundle of the example twin and its scenario, run once with a journal
  and once as a task that two workers claim one after the other.
\<close>

section \<open>A persistent run\<close>

definition ex_art :: artifact where
  "ex_art = \<lparr>af_digest = ''bundle'', af_scenarios = [''smoke.yaml''], af_spec = Some ex_twin, af_fixture = Some New,
     af_scenario = (\<lambda>_. Some ex_scenario)\<rparr>"

definition ex_rq :: request where
  "ex_rq = \<lparr>jr_id = ''ep-1'', jr_bundle = ''bundle'', jr_path = ''smoke.yaml'', jr_version = ''1.0'', jr_revision = ''unknown''\<rparr>"

lemma ex_rq_sel [simp]: "jr_id ex_rq = ''ep-1''" "jr_bundle ex_rq = ''bundle''" "jr_path ex_rq = ''smoke.yaml''" "jr_version ex_rq = ''1.0''"
  "jr_revision ex_rq = ''unknown''"
  by (simp_all add: ex_rq_def)

lemma ex_ids [simp]: "controlIDPattern ''ep-1''" "controlIDPattern ''w''"
  by code_simp+

lemma ex_resolved [simp]: "resolveRequest (Some ex_art) ''ep-1'' [] ''1.0'' [] = Inr ex_rq"
  unfolding resolveRequest_def using ex_ids(1) by (simp add: ex_art_def selectScenario_def ex_rq_def revision_or_unknown_def del: controlIDPattern.simps)

definition ex_evidence :: "report \<Rightarrow> evidence" where
  "ex_evidence rep = evidence_of ex_art ''ep-1'' ''smoke.yaml'' ''1.0'' ''unknown'' \<lparr>lf_current = StatusSucceeded, lf_events = run_events StatusSucceeded\<rparr> rep"

definition ex_envelope :: "report \<Rightarrow> envelope" where
  "ex_envelope rep = envelope_of (ex_evidence rep)"

lemma Clone_New: "Clone New = New"
  by code_simp

lemma ex_scenario_run: "\<exists>rep. scenario_Run ex_libs (Some ex_twin) (Some New) (Some ex_scenario) ''1.0'' = Inr rep \<and> rp_passed rep \<and> small_report rep"
proof -
  have "scenario_Run ex_libs (Some ex_twin) (Some New) (Some ex_scenario) ''1.0'' = scenario_Run ex_libs (Some ex_twin) None (Some ex_scenario) ''1.0''"
    unfolding scenario_Run_def option.case Clone_New ..
  then show ?thesis using ex_run_report by metis
qed

lemma ex_dec [simp]: "dec 2 = ''2''" "dec 3 = ''3''" "dec 4 = ''4''" "dec 5 = ''5''"
  by code_simp+

lemma ex_evidence_size:
  assumes "small_report rep" "rp_passed rep"
  shows "json_weight (evidence_json (ex_evidence rep)) \<le> 200000 \<and> json_depth (evidence_json (ex_evidence rep)) \<le> 12 \<and>
    json_members (evidence_json (ex_evidence rep)) \<le> 1000"
  using assms unfolding small_report_def
  by (intro conjI) (simp_all add: evidence_json_def ex_evidence_def evidence_of_def ex_art_def event_doc_def run_events_def event_at_seq_def
      status_text_def dec_int_def)

lemma ex_evidence_valid:
  assumes "small_report rep" "rp_passed rep"
  shows "ValidateJSON (evidence_json (ex_evidence rep)) MaxReportBytes = Inr ()"
    "length (canonical_JSON (envelope_json (ex_envelope rep))) \<le> MaxReportBytes"
proof -
  show "ValidateJSON (evidence_json (ex_evidence rep)) MaxReportBytes = Inr ()"
    unfolding ValidateJSON_iff using ex_evidence_size [OF assms] by (intro conjI weight_le) simp_all
  have "json_weight (envelope_json (ex_envelope rep)) \<le> 300000"
    using ex_evidence_size [OF assms] by (simp add: envelope_json_def ex_envelope_def envelope_of_def evidence_Digest_def)
  then show "length (canonical_JSON (envelope_json (ex_envelope rep))) \<le> MaxReportBytes"
    by (intro weight_le) simp
qed

text \<open>The journal while the episode of the example executes; every clock reading is the origin.\<close>

definition ex_jrow :: "status \<Rightarrow> int \<Rightarrow> episode_row" where
  "ex_jrow s n = (new_row ex_rq (format_nano 0))\<lparr>er_status := s, er_sequence := n\<rparr>"

definition ex_jdb :: "status \<Rightarrow> event list \<Rightarrow> jdb" where
  "ex_jdb s es = empty_jdb\<lparr>episodes := [ex_jrow s (int (length es) - 1)], ep_events := map (\<lambda>e. \<lparr>lr_episode = ''ep-1'', lr_event = e\<rparr>) es\<rparr>"

lemma ex_jrow_sel [simp]: "er_id (ex_jrow s n) = ''ep-1''" "er_request (ex_jrow s n) = request_Digest ex_rq" "er_status (ex_jrow s n) = s"
  "er_sequence (ex_jrow s n) = n" "ex_jrow s n\<lparr>er_status := t, er_sequence := m, er_updated := format_nano 0\<rparr> = ex_jrow t m"
  by (simp_all add: ex_jrow_def new_row_def)

lemma row_exists_map: "row_exists P (map f xs) = list_ex (\<lambda>x. P (f x)) xs"
  by (induction xs) (auto simp: row_exists_def)

lemma ex_append:
  assumes "allowedTransition s t" "\<not> IsTerminal t" "\<forall>e \<in> set es. lc_sequence e < int (length es)"
  shows "appendTransition 0 ex_rq (int (length es) - 1) \<lparr>lc_sequence = int (length es), lc_from = Some s, lc_to = t\<rparr> (ex_jdb s es) =
    (Inr (), ex_jdb t (es @ [\<lparr>lc_sequence = int (length es), lc_from = Some s, lc_to = t\<rparr>]))"
proof -
  have "\<not> list_ex (\<lambda>e. lc_sequence e = int (length es)) es" using assms(3) by (force simp: list_ex_iff)
  then show ?thesis
    using assms(1,2)
    by (simp add: appendTransition_def ex_jdb_def casEpisode_def affected_def update_where_def insertEvent_def row_exists_map Let_def)
qed

lemma ex_transition:
  assumes "allowedTransition s t" "\<not> IsTerminal t" "\<forall>e \<in> set es. lc_sequence e < int (length es)"
  shows "transition (Some (journal_observer (\<lambda>_. 0) ex_rq)) t \<lparr>lf_current = s, lf_events = es\<rparr> (int (length es) - 1, ex_jdb s es) =
    (Inr \<lparr>lf_current = t, lf_events = es @ [event_at_seq (int (length es)) s t]\<rparr>,
     (int (length es), ex_jdb t (es @ [event_at_seq (int (length es)) s t])))"
  using assms ex_append [OF assms]
  by (simp add: transition_def Transition_def bindS_def returnS_def journal_observer_def event_at_seq_def)

lemma ex_transition_end:
  assumes "allowedTransition s t" "IsTerminal t"
  shows "transition (Some (journal_observer clock ex_rq)) t \<lparr>lf_current = s, lf_events = es\<rparr> q =
    (Inr \<lparr>lf_current = t, lf_events = es @ [event_at_seq (int (length es)) s t]\<rparr>, q)"
  using assms by (simp add: transition_def Transition_def bindS_def returnS_def journal_observer_def event_at_seq_def)

lemma ex_episode_run:
  assumes "scenario_Run ex_libs (Some ex_twin) (Some New) (Some ex_scenario) ''1.0'' = Inr rep" "rp_passed rep" "small_report rep"
  shows "episode_run ex_libs (Some (journal_observer (\<lambda>_. 0) ex_rq)) (Some ex_art) ''ep-1'' ''smoke.yaml'' ''1.0'' ''unknown''
      (0, ex_jdb StatusCreated [\<lparr>lc_sequence = 0, lc_from = None, lc_to = StatusCreated\<rparr>]) =
    (Inr (ex_envelope rep), (4, ex_jdb StatusEvaluating (butlast (run_events StatusSucceeded))))"
proof -
  let ?e0 = "\<lparr>lc_sequence = 0, lc_from = None, lc_to = StatusCreated\<rparr>"
  let ?e1 = "event_at_seq 1 StatusCreated StatusProvisioning" and ?e2 = "event_at_seq 2 StatusProvisioning StatusReady"
  let ?e3 = "event_at_seq 3 StatusReady StatusRunning" and ?e4 = "event_at_seq 4 StatusRunning StatusEvaluating"
  let ?e5 = "event_at_seq 5 StatusEvaluating StatusSucceeded"
  let ?tr = "transition (Some (journal_observer (\<lambda>_. 0) ex_rq))"
  have a: "af_scenarios ex_art = [''smoke.yaml'']" "af_spec ex_art = Some ex_twin" "af_fixture ex_art = Some New" "af_scenario ex_art p = Some ex_scenario" for p
    by (simp_all add: ex_art_def)
  have t1: "?tr StatusProvisioning NewLifecycle (0, ex_jdb StatusCreated [?e0]) =
      (Inr \<lparr>lf_current = StatusProvisioning, lf_events = [?e0, ?e1]\<rparr>, (1, ex_jdb StatusProvisioning [?e0, ?e1]))"
    using ex_transition [of StatusCreated StatusProvisioning "[?e0]"] by (simp add: IsTerminal_def NewLifecycle_def)
  have t2: "?tr StatusReady \<lparr>lf_current = StatusProvisioning, lf_events = [?e0, ?e1]\<rparr> (1, ex_jdb StatusProvisioning [?e0, ?e1]) =
      (Inr \<lparr>lf_current = StatusReady, lf_events = [?e0, ?e1, ?e2]\<rparr>, (2, ex_jdb StatusReady [?e0, ?e1, ?e2]))"
    using ex_transition [of StatusProvisioning StatusReady "[?e0, ?e1]"] by (simp add: IsTerminal_def) (simp add: event_at_seq_def)
  have t3: "?tr StatusRunning \<lparr>lf_current = StatusReady, lf_events = [?e0, ?e1, ?e2]\<rparr> (2, ex_jdb StatusReady [?e0, ?e1, ?e2]) =
      (Inr \<lparr>lf_current = StatusRunning, lf_events = [?e0, ?e1, ?e2, ?e3]\<rparr>, (3, ex_jdb StatusRunning [?e0, ?e1, ?e2, ?e3]))"
    using ex_transition [of StatusReady StatusRunning "[?e0, ?e1, ?e2]"] by (simp add: IsTerminal_def) (simp add: event_at_seq_def)
  have t4: "?tr StatusEvaluating \<lparr>lf_current = StatusRunning, lf_events = [?e0, ?e1, ?e2, ?e3]\<rparr> (3, ex_jdb StatusRunning [?e0, ?e1, ?e2, ?e3]) =
      (Inr \<lparr>lf_current = StatusEvaluating, lf_events = [?e0, ?e1, ?e2, ?e3, ?e4]\<rparr>, (4, ex_jdb StatusEvaluating [?e0, ?e1, ?e2, ?e3, ?e4]))"
    using ex_transition [of StatusRunning StatusEvaluating "[?e0, ?e1, ?e2, ?e3]"] by (simp add: IsTerminal_def) (simp add: event_at_seq_def)
  have t5: "?tr StatusSucceeded \<lparr>lf_current = StatusEvaluating, lf_events = [?e0, ?e1, ?e2, ?e3, ?e4]\<rparr> q =
      (Inr \<lparr>lf_current = StatusSucceeded, lf_events = run_events StatusSucceeded\<rparr>, q)" for q
    using ex_transition_end [of StatusEvaluating StatusSucceeded "\<lambda>_. 0" "[?e0, ?e1, ?e2, ?e3, ?e4]" q] by (simp add: IsTerminal_def run_events_def)
  have v: "ValidateJSON (evidence_json (evidence_of ex_art ''ep-1'' ''smoke.yaml'' ''1.0'' ''unknown''
      \<lparr>lf_current = StatusSucceeded, lf_events = run_events StatusSucceeded\<rparr> rep)) MaxReportBytes = Inr ()"
    using ex_evidence_valid(1) [OF assms(3,2)] by (simp add: ex_evidence_def)
  have b: "butlast (run_events StatusSucceeded) = [?e0, ?e1, ?e2, ?e3, ?e4]" by (simp add: run_events_def)
  have u: "revision_or_unknown ''unknown'' = ''unknown''" by (simp add: revision_or_unknown_def)
  show ?thesis
    unfolding episode_run_def option.case
    by (simp add: ex_ids(1) a u selectScenario_def bindS_def liftS_def returnS_def require_decoded_def t1 t2 t3 t4 t5 assms(1,2) v b
       ex_envelope_def ex_evidence_def del: controlIDPattern.simps)
qed

definition ex_done :: "report \<Rightarrow> jdb" where
  "ex_done rep = empty_jdb\<lparr>episodes := [(ex_jrow StatusSucceeded 5)\<lparr>er_outcome := ''succeeded'', er_evidence := Some (ex_envelope rep),
       er_evidenceDigest := vp_digest (ex_envelope rep)\<rparr>],
     ep_events := map (\<lambda>e. \<lparr>lr_episode = ''ep-1'', lr_event = e\<rparr>) (run_events StatusSucceeded)\<rparr>"

lemma ex_envelope_sel [simp]: "vp_evidence (ex_envelope rep) = Some (ex_evidence rep)" "vp_digest (ex_envelope rep) = evidence_Digest (ex_evidence rep)"
  "ev_lifecycle (ex_evidence rep) = \<lparr>lf_current = StatusSucceeded, lf_events = run_events StatusSucceeded\<rparr>"
  "ev_episodeID (ex_evidence rep) = ''ep-1''" "ev_bundle (ex_evidence rep) = ''bundle''" "ev_scenario (ex_evidence rep) = ''smoke.yaml''"
  by (simp_all add: ex_envelope_def envelope_of_def ex_evidence_def evidence_of_def ex_art_def)

lemma ex_outcome: "rp_passed rep \<Longrightarrow> ev_outcome (ex_evidence rep) = ''succeeded''"
  by (simp add: ex_evidence_def evidence_of_def)

lemma ex_complete:
  assumes "small_report rep" "rp_passed rep"
  shows "complete 0 ex_rq 4 (ex_envelope rep) (ex_jdb StatusEvaluating (butlast (run_events StatusSucceeded))) = (Inr (), ex_done rep)"
proof -
  have "check_completion ex_rq 4 (ex_envelope rep) = Inr (ex_evidence rep, event_at_seq 5 StatusEvaluating StatusSucceeded)"
    using ex_evidence_valid(2) [OF assms]
    by (simp add: check_completion_def Let_def IsTerminal_def) (simp add: run_events_def event_at_seq_def)
  moreover have es: "length (butlast (run_events StatusSucceeded)) = 5" "\<not> list_ex (\<lambda>e. lc_sequence e = 5) (butlast (run_events StatusSucceeded))"
    by (simp_all add: run_events_def event_at_seq_def)
  moreover have "ex_jdb StatusEvaluating (butlast (run_events StatusSucceeded)) = empty_jdb\<lparr>episodes := [ex_jrow StatusEvaluating 4],
      ep_events := map (\<lambda>e. \<lparr>lr_episode = ''ep-1'', lr_event = e\<rparr>) (butlast (run_events StatusSucceeded))\<rparr>"
    by (simp add: ex_jdb_def es del: length_butlast)
  moreover have "(ex_jrow StatusEvaluating 4)\<lparr>er_status := StatusSucceeded, er_sequence := 5, er_outcome := ''succeeded'',
      er_evidence := Some (ex_envelope rep), er_evidenceDigest := evidence_Digest (ex_evidence rep), er_updated := format_nano 0\<rparr> =
    (ex_jrow StatusSucceeded 5)\<lparr>er_outcome := ''succeeded'', er_evidence := Some (ex_envelope rep), er_evidenceDigest := evidence_Digest (ex_evidence rep)\<rparr>"
    by (simp add: ex_jrow_def new_row_def)
  moreover have "lc_sequence (event_at_seq 5 a b) = 5" for a b by (simp add: event_at_seq_def)
  moreover have "ex_done rep = empty_jdb\<lparr>episodes := [(ex_jrow StatusSucceeded 5)\<lparr>er_outcome := ''succeeded'', er_evidence := Some (ex_envelope rep),
       er_evidenceDigest := evidence_Digest (ex_evidence rep)\<rparr>],
     ep_events := map (\<lambda>e. \<lparr>lr_episode = ''ep-1'', lr_event = e\<rparr>) (butlast (run_events StatusSucceeded)) @
       [\<lparr>lr_episode = ''ep-1'', lr_event = event_at_seq 5 StatusEvaluating StatusSucceeded\<rparr>]\<rparr>"
    unfolding ex_done_def by (simp add: run_events_def)
  ultimately show ?thesis
    using ex_outcome [OF assms(2)]
    by (simp add: complete_def casEpisode_def affected_def update_where_def insertEvent_def row_exists_map Let_def)
qed

lemma ex_reserve: "createOrLoad now ex_rq empty_jdb = (Inr (new_record ex_rq (format_nano now), True),
   empty_jdb\<lparr>episodes := [new_row ex_rq (format_nano now)],
     ep_events := [\<lparr>lr_episode = ''ep-1'', lr_event = \<lparr>lc_sequence = 0, lc_from = None, lc_to = StatusCreated\<rparr>\<rparr>]\<rparr>)"
  by (simp add: createOrLoad_def scanRecord_def episode_where_def empty_jdb_def Let_def insertEvent_def row_exists_def)

lemma ex_persistent: "\<exists>rep. small_report rep \<and> rp_passed rep \<and>
  RunPersistent ex_libs (\<lambda>_. 0) (Some ex_art) ''ep-1'' [] ''1.0'' [] empty_jdb = (Inr (ex_envelope rep, False), ex_done rep)"
proof -
  obtain rep where rep: "scenario_Run ex_libs (Some ex_twin) (Some New) (Some ex_scenario) ''1.0'' = Inr rep" "rp_passed rep" "small_report rep"
    using ex_scenario_run by blast
  have start: "empty_jdb\<lparr>episodes := [new_row ex_rq (format_nano 0)],
     ep_events := [\<lparr>lr_episode = ''ep-1'', lr_event = \<lparr>lc_sequence = 0, lc_from = None, lc_to = StatusCreated\<rparr>\<rparr>]\<rparr> =
     ex_jdb StatusCreated [\<lparr>lc_sequence = 0, lc_from = None, lc_to = StatusCreated\<rparr>]"
    by (simp add: ex_jdb_def ex_jrow_def) (simp add: new_row_def)
  have "RunPersistent ex_libs (\<lambda>_. 0) (Some ex_art) ''ep-1'' [] ''1.0'' [] empty_jdb = (Inr (ex_envelope rep, False), ex_done rep)"
    unfolding RunPersistent_def ex_resolved sum.case ex_reserve prod.case start
    using ex_episode_run [OF rep] ex_complete [OF rep(3,2)] by simp
  then show ?thesis using rep by blast
qed

lemma ex_rereads:
  assumes "small_report rep"
  shows "reread_envelope (ex_envelope rep) = ex_envelope rep"
proof -
  have e: "reread_value (JObj []) = JObj []" "reread_value JNull = JNull" "reread_value (error_json ''NOT_FOUND'' ''no'') = error_json ''NOT_FOUND'' ''no''"
    by code_simp+
  have "reread_report rep = rep"
    using assms unfolding small_report_def
    by (cases rep) (auto simp: reread_report_def reread_trace_def reread_result_def e)
  then show ?thesis
    by (simp add: reread_envelope_def ex_envelope_def envelope_of_def reread_evidence_def ex_evidence_def evidence_of_def)
qed

section \<open>A task and two claims\<close>

definition ex_task :: task_row where
  "ex_task = new_task ''ep-1'' ''bytes'' EffectHermetic 2 (format_nano 0)"

definition ex_t1 :: jdb where
  "ex_t1 = (ex_jdb StatusCreated [\<lparr>lc_sequence = 0, lc_from = None, lc_to = StatusCreated\<rparr>])\<lparr>tasks := [ex_task]\<rparr>"

definition ex_attempt :: "int \<Rightarrow> string \<Rightarrow> instant \<Rightarrow> attempt_row" where
  "ex_attempt n aid now = \<lparr>at_id = aid, at_episode = ''ep-1'', at_number = n, at_worker = ''w'', at_fence = n,
     at_state = AttemptLeased, at_commit = CommitNotStarted, at_lease = format_nano (now + second), at_errorClass = [],
     at_created = format_nano now, at_updated = format_nano now\<rparr>"

lemma ex_attempt_sel [simp]: "at_id (ex_attempt n aid t) = aid" "at_state (ex_attempt n aid t) = AttemptLeased" "at_fence (ex_attempt n aid t) = n"
  "(ex_attempt n aid t)\<lparr>at_state := x, at_commit := y, at_updated := format_nano t\<rparr> = (ex_attempt n aid t)\<lparr>at_state := x, at_commit := y\<rparr>"
  by (simp_all add: ex_attempt_def)

definition ex_leased :: "int \<Rightarrow> string \<Rightarrow> instant \<Rightarrow> task_row" where
  "ex_leased n aid now = ex_task\<lparr>tr_state := TaskLeased, tr_attempts := n, tr_fence := n, tr_active := aid, tr_updated := format_nano now\<rparr>"

definition ex_t2 :: jdb where
  "ex_t2 = ex_t1\<lparr>tasks := [ex_leased 1 ''a1'' 0], attempts := [ex_attempt 1 ''a1'' 0]\<rparr>"

definition ex_t3 :: jdb where
  "ex_t3 = ex_t1\<lparr>tasks := [ex_leased 2 ''a2'' (2 * second)],
     attempts := [(ex_attempt 1 ''a1'' 0)\<lparr>at_state := AttemptExpired, at_commit := CommitNoEffect, at_errorClass := ''LEASE_EXPIRED'',
                    at_updated := format_nano (2 * second)\<rparr>, ex_attempt 2 ''a2'' (2 * second)]\<rparr>"

definition ex_claim :: "int \<Rightarrow> string \<Rightarrow> instant \<Rightarrow> claim" where
  "ex_claim n aid now = \<lparr>cl_episode = ''ep-1'', cl_attempt = aid, cl_number = n, cl_fence = n, cl_lease = format_nano (now + second),
     cl_bundle = ''bytes'', cl_bundleDigest = ''bundle'', cl_scenario = ''smoke.yaml'', cl_version = ''1.0'', cl_revision = ''unknown'',
     cl_profile = EffectHermetic\<rparr>"

lemma ex_task_sel [simp]: "tr_episode ex_task = ''ep-1''" "tr_state ex_task = TaskQueued" "tr_cancel ex_task = False" "tr_attempts ex_task = 0"
  "tr_fence ex_task = 0" "tr_bundle ex_task = ''bytes''" "tr_profile ex_task = EffectHermetic" "tr_max ex_task = 2" "tr_active ex_task = []"
  "tr_final ex_task = []" "tr_finalDigest ex_task = []" "tr_created ex_task = format_nano 0" "tr_updated ex_task = format_nano 0"
  by (simp_all add: ex_task_def new_task_def)

lemma ex_start: "empty_jdb\<lparr>episodes := [new_row ex_rq (format_nano 0)],
     ep_events := [\<lparr>lr_episode = ''ep-1'', lr_event = \<lparr>lc_sequence = 0, lc_from = None, lc_to = StatusCreated\<rparr>\<rparr>]\<rparr> =
   ex_jdb StatusCreated [\<lparr>lc_sequence = 0, lc_from = None, lc_to = StatusCreated\<rparr>]"
  by (simp add: ex_jdb_def ex_jrow_def) (simp add: new_row_def)

lemma ex_t1_sel [simp]: "tasks ex_t1 = [ex_task]" "attempts ex_t1 = []" "episodes ex_t1 = [ex_jrow StatusCreated 0]"
  "ep_events ex_t1 = [\<lparr>lr_episode = ''ep-1'', lr_event = \<lparr>lc_sequence = 0, lc_from = None, lc_to = StatusCreated\<rparr>\<rparr>]"
  by (simp_all add: ex_t1_def ex_jdb_def empty_jdb_def)

lemma ex_submitted: "snd (Submit (\<lambda>_. Some ex_art) 0 0 ''bytes'' ''ep-1'' [] ''1.0'' [] EffectHermetic 2 empty_jdb) = ex_t1"
proof -
  have "submit_tx 0 ''ep-1'' ''bytes'' EffectHermetic 2 True (ex_jdb StatusCreated [\<lparr>lc_sequence = 0, lc_from = None, lc_to = StatusCreated\<rparr>]) = (Inr True, ex_t1)"
    by (simp add: submit_tx_def task_where_def ex_jdb_def ex_t1_def ex_task_def) (simp add: empty_jdb_def)
  then show ?thesis
    unfolding Submit_def option.case ex_resolved sum.case ex_reserve ex_start prod.case by simp
qed

lemma lease_second [simp]: "lease_ok second"
  by (simp add: lease_ok_def second_def)

lemma jrow_identity [simp]: "er_bundle (ex_jrow s n) = ''bundle''" "er_scenario (ex_jrow s n) = ''smoke.yaml''" "er_version (ex_jrow s n) = ''1.0''"
  "er_revision (ex_jrow s n) = ''unknown''" "er_created (ex_jrow s n) = format_nano 0" "er_updated (ex_jrow s n) = format_nano 0"
  by (simp_all add: ex_jrow_def new_row_def)

lemma ex_claimed1: "ClaimProfile 0 ''a1'' ''w'' second None ex_t1 = (Inr (ex_claim 1 ''a1'' 0), ex_t2)"
proof -
  have r: "recoverExpiredTx 0 ex_t1 = Inr (0, ex_t1)" by (simp add: recoverExpiredTx_def expired_tasks_def)
  have c: "claimable None ex_t1 = [ex_task]" by (simp add: claimable_def episode_where_def)
  have e: "episode_where ''ep-1'' ex_t1 = Some (ex_jrow StatusCreated 0)" by (simp add: episode_where_def)
  show ?thesis
    unfolding ClaimProfile_def transaction_Inr using ex_ids(2)
    by (simp add: r c e requireOneRow_def casTask_def affected_def update_where_def row_exists_def Let_def del: controlIDPattern.simps)
      (simp add: ex_claim_def ex_t2_def ex_leased_def ex_attempt_def)
qed

lemma ex_stamps: "format_nano second = ''0000-01-01T00:00:01Z''" "format_nano (2 * second) = ''0000-01-01T00:00:02Z''"
  "''0000-01-01T00:00:01Z'' \<le> (''0000-01-01T00:00:02Z'' :: string)"
  by code_simp+

lemma ex_claimed2: "ClaimProfile (2 * second) ''a2'' ''w'' second None ex_t2 = (Inr (ex_claim 2 ''a2'' (2 * second)), ex_t3)"
proof -
  let ?stamp = "format_nano (2 * second)"
  let ?a1 = "(ex_attempt 1 ''a1'' 0)\<lparr>at_state := AttemptExpired, at_commit := CommitNoEffect, at_errorClass := ''LEASE_EXPIRED'', at_updated := ?stamp\<rparr>"
  let ?q = "(ex_leased 1 ''a1'' 0)\<lparr>tr_state := TaskQueued, tr_active := [], tr_updated := ?stamp\<rparr>"
  let ?d = "ex_t1\<lparr>tasks := [?q], attempts := [?a1]\<rparr>"
  have l: "at_lease (ex_attempt 1 ''a1'' 0) \<le> ?stamp" using ex_stamps by (simp add: ex_attempt_def)
  have t: "expired_tasks (2 * second) ex_t2 = [ex_leased 1 ''a1'' 0]"
    using l by (simp add: expired_tasks_def ex_t2_def active_attempt_def) (simp add: ex_leased_def ex_attempt_def)
  have o: "expiry_outcome (ex_leased 1 ''a1'' 0) = (AttemptExpired, CommitNoEffect, TaskQueued)"
    by (simp add: expiry_outcome_def ex_leased_def)
  have "expire_one ?stamp (ex_leased 1 ''a1'' 0) ex_t2 = Inr ?d"
    by (simp add: expire_one_def o finish_attempt_def release_task_def requireOneRow_def casAttempt_def casTask_def affected_def update_where_def ex_t2_def)
      (simp add: ex_leased_def ex_attempt_def)
  then have r: "recoverExpiredTx (2 * second) ex_t2 = Inr (1, ?d)" by (simp add: recoverExpiredTx_def t)
  have e: "episode_where ''ep-1'' ?d = Some (ex_jrow StatusCreated 0)" by (simp add: episode_where_def)
  then have c: "claimable None ?d = [?q]" by (simp add: claimable_def) (simp add: ex_leased_def)
  have q: "tr_episode ?q = ''ep-1''" "tr_state ?q = TaskQueued" "tr_attempts ?q = 1" "tr_fence ?q = 1" "tr_bundle ?q = ''bytes''" "tr_profile ?q = EffectHermetic"
    by (simp_all add: ex_leased_def)
  have ids: "at_id ?a1 = ''a1''" "at_episode ?a1 = ''ep-1''" "at_number ?a1 = 1" by (simp_all add: ex_attempt_def)
  show ?thesis
    unfolding ClaimProfile_def transaction_Inr using ex_ids(2)
    by (simp add: r c e q ids requireOneRow_def casTask_def affected_def update_where_def row_exists_def Let_def del: controlIDPattern.simps)
      (simp add: ex_claim_def ex_t3_def ex_leased_def ex_attempt_def)
qed

section \<open>A completion\<close>

text \<open>An envelope that says it succeeded, with the events of a run that ended in \<open>s\<close>.\<close>

definition ex_work :: "status \<Rightarrow> report \<Rightarrow> envelope" where
  "ex_work s rep = envelope_of ((ex_evidence rep)\<lparr>ev_lifecycle := \<lparr>lf_current = StatusSucceeded, lf_events = run_events s\<rparr>\<rparr>)"

lemma ex_work_succeeded: "ex_work StatusSucceeded rep = ex_envelope rep"
  by (simp add: ex_work_def ex_envelope_def ex_evidence_def evidence_of_def)

lemma ex_work_size:
  assumes "small_report rep" "rp_passed rep" "s \<in> {StatusSucceeded, StatusAssertionFailed}"
  shows "length (canonical_JSON (envelope_json (ex_work s rep))) \<le> MaxReportBytes"
proof -
  have "json_weight (report_json rep) \<le> 100000" using assms(1) by (simp add: small_report_def)
  then have "json_weight (envelope_json (ex_work s rep)) \<le> 300000"
    using assms(2,3)
    by (auto simp: envelope_json_def ex_work_def envelope_of_def evidence_Digest_def evidence_json_def ex_evidence_def evidence_of_def
      ex_art_def event_doc_def run_events_def event_at_seq_def status_text_def dec_int_def)
  then show ?thesis by (intro weight_le) simp
qed

lemma ex_work_validated:
  assumes "s \<in> {StatusSucceeded, StatusAssertionFailed}"
  shows "validateRemoteEnvelope ex_rq (ex_work s rep) = Inr ((ex_evidence rep)\<lparr>ev_lifecycle := \<lparr>lf_current = StatusSucceeded, lf_events = run_events s\<rparr>\<rparr>)"
  using assms by (auto simp: validateRemoteEnvelope_def ex_work_def envelope_of_def ex_evidence_def evidence_of_def ex_art_def run_events_def
    event_at_seq_def)

definition ex_t4 :: "status \<Rightarrow> report \<Rightarrow> jdb" where
  "ex_t4 s rep = ex_t3\<lparr>
     ep_events := map (\<lambda>e. \<lparr>lr_episode = ''ep-1'', lr_event = e\<rparr>) (run_events s),
     episodes := [(ex_jrow StatusSucceeded 5)\<lparr>er_outcome := ev_outcome (ex_evidence rep), er_evidence := Some (ex_work s rep),
       er_evidenceDigest := vp_digest (ex_work s rep), er_updated := format_nano (2 * second)\<rparr>],
     attempts := [(ex_attempt 1 ''a1'' 0)\<lparr>at_state := AttemptExpired, at_commit := CommitNoEffect, at_errorClass := ''LEASE_EXPIRED'',
                    at_updated := format_nano (2 * second)\<rparr>,
                  (ex_attempt 2 ''a2'' (2 * second))\<lparr>at_state := AttemptCompleted, at_commit := CommitCommitted\<rparr>],
     tasks := [(ex_leased 2 ''a2'' (2 * second))\<lparr>tr_state := TaskCompleted, tr_active := [], tr_final := ''a2'',
       tr_finalDigest := vp_digest (ex_work s rep)\<rparr>]\<rparr>"

lemma ex_lease_alive [simp]: "lease_alive (2 * second) (format_nano (3 * second))"
proof -
  have "parse_nano (format_nano (3 * second)) = Some (3 * second, True)"
    by (rule parse_format) (simp_all add: max_instant_def year_start_def day_ns_def second_def)
  then show ?thesis by (simp add: lease_alive_def parsed_def second_def)
qed

lemma ex_inserted:
  assumes "s \<in> {StatusSucceeded, StatusAssertionFailed}"
  shows "insertEvents ''ep-1'' (tl (run_events s)) ex_t3 = Inr (ex_t3\<lparr>ep_events := map (\<lambda>e. \<lparr>lr_episode = ''ep-1'', lr_event = e\<rparr>) (run_events s)\<rparr>)"
  by (simp add: run_events_def event_at_seq_def insertEvent_def row_exists_def ex_t3_def)

lemma ex_completed:
  assumes "small_report rep" "rp_passed rep" "s \<in> {StatusSucceeded, StatusAssertionFailed}"
  shows "CompleteClaim (2 * second) (2 * second) ''ep-1'' ''a2'' 2 (Some (ex_work s rep)) ex_t3 = (Inr (Some (ex_work s rep), False), ex_t4 s rep)"
proof -
  let ?e = "(ex_evidence rep)\<lparr>ev_lifecycle := \<lparr>lf_current = StatusSucceeded, lf_events = run_events s\<rparr>\<rparr>"
  let ?t = "ex_leased 2 ''a2'' (2 * second)" and ?a2 = "ex_attempt 2 ''a2'' (2 * second)"
  have ev: "vp_evidence (ex_work s rep) = Some ?e" by (simp add: ex_work_def envelope_of_def)
  have tw: "task_where ''ep-1'' ex_t3 = Some ?t" by (simp add: task_where_def ex_t3_def) (simp add: ex_leased_def)
  have t: "tr_episode ?t = ''ep-1''" "tr_state ?t = TaskLeased" "tr_active ?t = ''a2''" "tr_fence ?t = 2" "\<not> tr_cancel ?t"
    by (simp_all add: ex_leased_def)
  have row: "episode_where ''ep-1'' ex_t3 = Some (ex_jrow StatusCreated 0)" by (simp add: episode_where_def ex_t3_def)
  have rq: "row_request (ex_jrow StatusCreated 0) = ex_rq" by (simp add: row_request_def ex_rq_def)
  have att: "find_row (\<lambda>a. at_id a = ''a2'' \<and> at_episode a = ''ep-1'' \<and> at_fence a = 2) (attempts ex_t3) = Some ?a2"
    by (simp add: ex_t3_def) (simp add: ex_attempt_def)
  have a: "at_state ?a2 = AttemptLeased" "at_lease ?a2 = format_nano (2 * second + second)" by (simp_all add: ex_attempt_def)
  have n: "length (run_events s) = 6" by (simp add: run_events_def)
  have o: "ev_outcome ?e = ev_outcome (ex_evidence rep)" "lf_current (ev_lifecycle ?e) = StatusSucceeded" "lf_events (ev_lifecycle ?e) = run_events s"
    by simp_all
  have cep: "requireOneRow ErrStaleAttempt (casEpisode (\<lambda>r. er_id r = ''ep-1'' \<and> er_status r = StatusCreated \<and> er_sequence r = 0)
      (\<lambda>r. r\<lparr>er_status := StatusSucceeded, er_sequence := 5, er_outcome := ev_outcome (ex_evidence rep), er_evidence := Some (ex_work s rep),
         er_evidenceDigest := vp_digest (ex_work s rep), er_updated := format_nano (2 * second)\<rparr>)
      (ex_t3\<lparr>ep_events := evs\<rparr>)) = Inr (ex_t3\<lparr>ep_events := evs, episodes := episodes (ex_t4 s rep)\<rparr>)" for evs
    by (simp add: requireOneRow_def casEpisode_def affected_def update_where_def ex_t3_def ex_t4_def) (simp add: ex_jrow_def)
  have cat: "requireOneRow ErrStaleAttempt (casAttempt (\<lambda>r. at_id r = ''a2'' \<and> at_state r = AttemptLeased \<and> at_fence r = 2)
      (\<lambda>r. r\<lparr>at_state := AttemptCompleted, at_commit := CommitCommitted, at_updated := format_nano (2 * second)\<rparr>)
      (ex_t3\<lparr>ep_events := evs, episodes := eps\<rparr>)) = Inr (ex_t3\<lparr>ep_events := evs, episodes := eps, attempts := attempts (ex_t4 s rep)\<rparr>)" for evs eps
    by (simp add: requireOneRow_def casAttempt_def affected_def update_where_def ex_t3_def ex_t4_def)
  have cta: "requireOneRow ErrStaleAttempt (casTask (\<lambda>r. tr_episode r = ''ep-1'' \<and> tr_active r = ''a2'' \<and> tr_fence r = 2 \<and> tr_state r = TaskLeased)
      (\<lambda>r. r\<lparr>tr_state := TaskCompleted, tr_active := [], tr_final := ''a2'', tr_finalDigest := vp_digest (ex_work s rep), tr_updated := format_nano (2 * second)\<rparr>)
      (ex_t3\<lparr>ep_events := evs, episodes := eps, attempts := as\<rparr>)) =
      Inr (ex_t3\<lparr>ep_events := evs, episodes := eps, attempts := as, tasks := tasks (ex_t4 s rep)\<rparr>)" for evs eps as
    by (simp add: requireOneRow_def casTask_def affected_def update_where_def ex_t3_def ex_t4_def t) (simp add: ex_leased_def)
  have fin: "ex_t3\<lparr>ep_events := map (\<lambda>e. \<lparr>lr_episode = ''ep-1'', lr_event = e\<rparr>) (run_events s), episodes := episodes (ex_t4 s rep),
      attempts := attempts (ex_t4 s rep), tasks := tasks (ex_t4 s rep)\<rparr> = ex_t4 s rep"
    by (simp add: ex_t4_def)
  have size: "\<not> MaxReportBytes < length (canonical_JSON (envelope_json (ex_work s rep)))" using ex_work_size [OF assms] by simp
  show ?thesis
    unfolding CompleteClaim_def transaction_Inr Let_def
    by (simp add: ev tw t row rq ex_work_validated [OF assms(3)] att a size ex_inserted [OF assms(3)] n cep cat cta fin)
qed

end
