(* ===== verification/Episode_Props.thy ===== *)
theory Episode_Props
  imports Episode_Example
begin

text \<open>
  The properties of durable episodes: the journal is always a consistent lifecycle, a terminal
  episode is final, a persistent run is executed once, and a claim is fenced by the next one.
\<close>

section \<open>Shared steps\<close>

definition reachable_jdb :: "jdb \<Rightarrow> bool" where
  "reachable_jdb d \<longleftrightarrow> operation\<^sup>*\<^sup>* empty_jdb d"

lemma reachable_jok: "reachable_jdb d \<Longrightarrow> jok d"
  unfolding reachable_jdb_def using operations.inv_run jok_empty by blast

lemma reachable_step: "reachable_jdb d \<Longrightarrow> operation d d' \<Longrightarrow> reachable_jdb d'"
  unfolding reachable_jdb_def by simp

lemma reachable_ex: "reachable_jdb ex_t1" "reachable_jdb ex_t2" "reachable_jdb ex_t3"
proof -
  show 1: "reachable_jdb ex_t1"
    using operation.submit [of empty_jdb "\<lambda>_. Some ex_art" 0 0 "''bytes''" "''ep-1''" "[]" "''1.0''" "[]" EffectHermetic 2]
    by (simp add: ex_submitted reachable_jdb_def)
  show 2: "reachable_jdb ex_t2"
    using reachable_step [OF 1] operation.claim [of ex_t1 0 "''a1''" "''w''" second None] by (simp add: ex_claimed1)
  show "reachable_jdb ex_t3"
    using reachable_step [OF 2] operation.claim [of ex_t2 "2 * second" "''a2''" "''w''" second None] by (simp add: ex_claimed2)
qed

lemma reachable_done:
  assumes "RunPersistent ex_libs (\<lambda>_. 0) (Some ex_art) ''ep-1'' [] ''1.0'' [] empty_jdb = (Inr (ex_envelope rep, False), ex_done rep)"
  shows "reachable_jdb (ex_done rep)"
  using operation.run [of empty_jdb ex_libs "\<lambda>_. 0" "Some ex_art" "''ep-1''" "[]" "''1.0''" "[]"] assms by (simp add: reachable_jdb_def)

lemma operations_task:
  assumes "operation\<^sup>*\<^sup>* d d'" "jok d" "task_where k d = Some t"
  shows "\<exists>t'. task_where k d' = Some t' \<and> task_later t t'"
  using remote_run_task [OF operations_run [OF assms(1,2)] assms(3)] .

lemma stale_claim:
  assumes "task_where eid d = Some t" "tr_fence t \<noteq> fence" "jok d"
  shows "\<exists>e. Heartbeat now eid aid fence lease d = (Inl e, d)"
    "\<exists>e. CompleteClaim n1 n2 eid aid fence env d = (Inl e, d)"
    "\<exists>e. FailClaim now eid aid fence c cls d = (Inl e, d)"
proof -
  have "x = t" if "x \<in> set (tasks d)" "tr_episode x = eid" for x
    using find_row_distinct [of tr_episode "tasks d" x] that assms(1,3) by (simp add: jok_def tasks_ok_def task_where_def)
  then have no: "find_row (\<lambda>t. tr_episode t = eid \<and> tr_state t = TaskLeased \<and> tr_active t = aid \<and> tr_fence t = fence) (tasks d) = None"
    using assms(2) by (auto simp: find_row_None row_exists_def)
  show "\<exists>e. Heartbeat now eid aid fence lease d = (Inl e, d)"
    by (simp add: Heartbeat_def transaction_def no)
  show "\<exists>e. CompleteClaim n1 n2 eid aid fence env d = (Inl e, d)"
    using assms(1,2) unfolding CompleteClaim_def transaction_def by (auto split: option.split)
  show "\<exists>e. FailClaim now eid aid fence c cls d = (Inl e, d)"
    using assms(1,2) unfolding FailClaim_def fail_tx_def transaction_def by (auto simp: then_GetTask_def)
qed

section \<open>The journal\<close>




definition status_of :: "string \<Rightarrow> jdb \<Rightarrow> status option" where
  "status_of eid d = map_option er_status (episode_where eid d)"






lemma stamps_ex [simp]: "timestamps_ok (format_nano 0) (format_nano 0) = Inr ()"
  by (simp add: timestamps_ok_def)


text \<open>A terminal episode is final: no later operation changes what the journal says about it.\<close>

theorem terminal_episode_is_final:
  assumes "reachable_jdb d" "episode_where eid d = Some r" "IsTerminal (er_status r)" "operation\<^sup>*\<^sup>* d d'"
  shows "episode_where eid d' = Some r \<and> Get eid d' = Get eid d"
proof -
  have f: "episode_where eid d' = Some r" "raw_events eid d' = raw_events eid d"
    using remote_run_final [OF operations_run [OF assms(4) reachable_jok [OF assms(1)]] assms(2,3)] by auto
  have "events_where eid d' = events_where eid d" using f(2) by (simp add: events_where_def raw_events_def)
  then have "loadEvents rec d' = loadEvents rec d" if "rc_id rec = eid" for rec
    using that by (simp add: loadEvents_def)
  moreover have "rc_id rec = eid" if "scanRecord (Some r) = Inr rec" for rec
    using that episode_id [OF assms(2)] unfolding scanRecord_def by (auto split: if_splits)
  ultimately have "bindE (scanRecord (Some r)) (\<lambda>rec. loadEvents rec d') = bindE (scanRecord (Some r)) (\<lambda>rec. loadEvents rec d)"
    by (intro bindE_cong) simp_all
  then show ?thesis using f(1) assms(2) by (simp add: Get_def)
qed

theorem terminal_episode_is_final_witness:
  "\<exists>rep. status_of ''ep-1'' (ex_done rep) = Some StatusSucceeded \<and>
     Get ''ep-1'' (snd (RecoverExpired 0 (ex_done rep))) = Get ''ep-1'' (ex_done rep)"
proof -
  obtain rep where run: "RunPersistent ex_libs (\<lambda>_. 0) (Some ex_art) ''ep-1'' [] ''1.0'' [] empty_jdb = (Inr (ex_envelope rep, False), ex_done rep)"
    using ex_persistent by blast
  let ?r = "(ex_jrow StatusSucceeded 5)\<lparr>er_outcome := ''succeeded'', er_evidence := Some (ex_envelope rep), er_evidenceDigest := vp_digest (ex_envelope rep)\<rparr>"
  have r: "episode_where ''ep-1'' (ex_done rep) = Some ?r" by (simp add: episode_where_def ex_done_def)
  have "operation\<^sup>*\<^sup>* (ex_done rep) (snd (RecoverExpired 0 (ex_done rep)))" using operation.recover by blast
  moreover have "IsTerminal (er_status ?r)" by (simp add: IsTerminal_def)
  ultimately have "Get ''ep-1'' (snd (RecoverExpired 0 (ex_done rep))) = Get ''ep-1'' (ex_done rep)"
    using terminal_episode_is_final [OF reachable_done [OF run] r] by blast
  moreover have "status_of ''ep-1'' (ex_done rep) = Some StatusSucceeded" by (simp add: status_of_def r)
  ultimately show ?thesis by blast
qed

section \<open>Persistent runs\<close>

lemma not_replay [simp]: "map_sum id (\<lambda>v. (v, True)) x \<noteq> Inr (v, False)"
  by (cases x) auto

lemma RunPersistent_Inr:
  assumes "RunPersistent l clock artifact eid path version revision d = (Inr (v, False), d')"
  obtains rq record0 d1 n d2 where "resolveRequest artifact eid path version revision = Inr rq"
    "createOrLoad (clock 0) rq d = (Inr (record0, True), d1)"
    "episode_run l (Some (journal_observer clock rq)) artifact (jr_id rq) (jr_path rq) (jr_version rq) (jr_revision rq) (0, d1) = (Inr v, (n, d2))"
    "complete (clock (n + 1)) rq n v d2 = (Inr (), d')"
proof -
  obtain rq where rq: "resolveRequest artifact eid path version revision = Inr rq"
    using assms unfolding RunPersistent_def by (auto split: sum.splits)
  obtain c d1 where c: "createOrLoad (clock 0) rq d = (c, d1)" by fastforce
  obtain record0 where c': "c = Inr (record0, True)"
    using assms rq c unfolding RunPersistent_def by (auto split: sum.splits prod.splits if_splits)
  obtain r n d2 where run: "episode_run l (Some (journal_observer clock rq)) artifact (jr_id rq) (jr_path rq) (jr_version rq) (jr_revision rq) (0, d1) = (r, (n, d2))"
    by (metis prod.collapse)
  have "r = Inr v \<and> complete (clock (n + 1)) rq n v d2 = (Inr (), d')"
    using assms rq c c' run unfolding RunPersistent_def by (auto split: sum.splits prod.splits if_splits)
  with that rq c c' run show thesis by blast
qed

text \<open>C15 A persistent run executes once: after it has succeeded, the same call on any later state of
  the journal returns the stored evidence as a replay and writes nothing, if the clock readings of the
  run were in order and the evidence survives being encoded and decoded.\<close>

theorem persistent_run_replays:
  assumes "RunPersistent l clock artifact eid path version revision d = (Inr (v, False), d1)" "reachable_jdb d" "operation\<^sup>*\<^sup>* d1 d2"
    and "\<And>k. 0 \<le> clock k \<and> clock k < max_instant \<and> clock 0 \<le> clock k" "reread_envelope v = v"
  shows "RunPersistent l' clock' artifact eid path version revision d2 = (Inr (v, True), d2)"
  using assms(1)
proof (rule RunPersistent_Inr)
  fix rq record0 dc n de
  assume rq: "resolveRequest artifact eid path version revision = Inr rq" and c: "createOrLoad (clock 0) rq d = (Inr (record0, True), dc)"
    and run: "episode_run l (Some (journal_observer clock rq)) artifact (jr_id rq) (jr_path rq) (jr_version rq) (jr_revision rq) (0, dc) = (Inr v, (n, de))"
    and fin: "complete (clock (n + 1)) rq n v de = (Inr (), d1)"
  have jd: "jok d" by (rule reachable_jok [OF assms(2)])
  obtain r where s1: "remote_step\<^sup>*\<^sup>* d d1" and r: "episode_where (jr_id rq) d1 = Some r" "row_request r = rq" "er_evidence r = Some v"
      "IsTerminal (er_status r)" "er_created r = format_nano (clock 0)" "er_updated r = format_nano (clock (n + 1))"
    using RunPersistent_new [OF rq c jd run fin] by blast
  have j1: "jok d1" by (rule remote_run_jok [OF s1 jd])
  have s2: "remote_step\<^sup>*\<^sup>* d1 d2" by (rule operations_run [OF assms(3) j1])
  have r2: "episode_where (jr_id rq) d2 = Some r" using remote_run_final [OF s2 r(1,4)] by simp
  have j2: "jok d2" by (rule remote_run_jok [OF s2 j1])
  have sound: "stamps_sound r" "rereads r"
    using assms(4) [of 0] assms(4) [of "n + 1"] assms(5) r(3,5,6) parse_format by (auto simp: stamps_sound_def timestamps_ok_def rereads_def)
  have load: "createOrLoad (clock' 0) rq d2 = (Inr (record_of r (raw_events (jr_id rq) d2), False), d2)"
    by (rule createOrLoad_ok [OF j2 r2 r(2) sound])
  have "er_status r = StatusSucceeded \<or> er_status r = StatusAssertionFailed"
    using jok_row [OF j2 r2] r(3) by (auto simp: lifecycle_row_def content_ok_def check_evidence_def split: option.splits if_splits)
  then have "replay (record_of r es) = Inr v" for es
    using r(3) by (simp add: replay_def record_of_def)
  then show ?thesis
    by (simp add: RunPersistent_def rq load)
qed

theorem persistent_run_replays_witness:
  "\<exists>rep. RunPersistent ex_libs (\<lambda>_. 7) (Some ex_art) ''ep-1'' [] ''1.0'' [] (ex_done rep) = (Inr (ex_envelope rep, True), ex_done rep)"
proof -
  obtain rep where rep: "small_report rep"
    and run: "RunPersistent ex_libs (\<lambda>_. 0) (Some ex_art) ''ep-1'' [] ''1.0'' [] empty_jdb = (Inr (ex_envelope rep, False), ex_done rep)"
    using ex_persistent by blast
  have "reachable_jdb empty_jdb" by (simp add: reachable_jdb_def)
  moreover have "0 < max_instant" by (simp add: max_instant_def year_start_def day_ns_def second_def)
  ultimately show ?thesis
    using persistent_run_replays [OF run _ rtranclp.rtrancl_refl _ ex_rereads [OF rep]] by (intro exI [of _ rep]) simp
qed

section \<open>Claims\<close>

text \<open>C13 A claim is fenced off by the next claim of the same task: once another worker has claimed the
  episode, no heartbeat, completion or failure report of the earlier attempt is accepted in any later
  state, and none of them changes the journal.\<close>

theorem superseded_claim_is_fenced:
  assumes "reachable_jdb d0" "ClaimProfile n1 a1 w1 l1 p1 d0 = (Inr c, d1)" "operation\<^sup>*\<^sup>* d1 d2"
    and "ClaimProfile n2 a2 w2 l2 p2 d2 = (Inr c', d3)" "cl_episode c' = cl_episode c" "operation\<^sup>*\<^sup>* d3 d4"
  shows "(\<exists>e. Heartbeat now (cl_episode c) (cl_attempt c) (cl_fence c) lease d4 = (Inl e, d4)) \<and>
    (\<exists>e. CompleteClaim now now' (cl_episode c) (cl_attempt c) (cl_fence c) env d4 = (Inl e, d4)) \<and>
    (\<exists>e. FailClaim now (cl_episode c) (cl_attempt c) (cl_fence c) cs cls d4 = (Inl e, d4))"
proof -
  have j0: "jok d0" by (rule reachable_jok [OF assms(1)])
  obtain t1 where s1: "remote_step\<^sup>*\<^sup>* d0 d1" and t1: "task_where (cl_episode c) d1 = Some t1" "tr_fence t1 = cl_fence c"
    using ClaimProfile_run [OF assms(2) j0] by blast
  have j1: "jok d1" by (rule remote_run_jok [OF s1 j0])
  have j2: "jok d2" by (rule remote_run_jok [OF operations_run [OF assms(3) j1] j1])
  obtain t2 where t2: "task_where (cl_episode c) d2 = Some t2" "cl_fence c \<le> tr_fence t2"
    using operations_task [OF assms(3) j1 t1(1)] t1(2) by (auto simp: task_later_def)
  obtain d2' u where u: "remote_step\<^sup>*\<^sup>* d2 d2'" "task_where (cl_episode c') d2' = Some u" "cl_fence c' = tr_fence u + 1"
    by (rule ClaimProfile_Inr [OF assms(4) j2]) blast
  have "cl_fence c < cl_fence c'"
    using remote_run_task [OF u(1) t2(1)] t2(2) u(2,3) assms(5) by (auto simp: task_later_def)
  moreover obtain t3 where s3: "remote_step\<^sup>*\<^sup>* d2 d3" and t3: "task_where (cl_episode c) d3 = Some t3" "tr_fence t3 = cl_fence c'"
    using ClaimProfile_run [OF assms(4) j2] assms(5) by auto
  have j3: "jok d3" by (rule remote_run_jok [OF s3 j2])
  moreover obtain t4 where t4: "task_where (cl_episode c) d4 = Some t4" "tr_fence t3 \<le> tr_fence t4"
    using operations_task [OF assms(6) j3 t3(1)] by (auto simp: task_later_def)
  ultimately have "tr_fence t4 \<noteq> cl_fence c" using t3(2) by simp
  moreover have "jok d4" by (rule remote_run_jok [OF operations_run [OF assms(6) j3] j3])
  ultimately show ?thesis using stale_claim [OF t4(1)] by blast
qed

theorem superseded_claim_is_fenced_witness:
  "\<exists>e. CompleteClaim (2 * second) (2 * second) ''ep-1'' ''a1'' 1 None ex_t3 = (Inl e, ex_t3)"
  using superseded_claim_is_fenced [OF reachable_ex(1) ex_claimed1 rtranclp.rtrancl_refl ex_claimed2 _ rtranclp.rtrancl_refl,
      of "2 * second" second "2 * second" None CommitNoEffect "''WORKER_ERROR''"]
  by (simp add: ex_claim_def)


lemma ex_consistent: "rp_passed rep \<Longrightarrow> consistent_outcome (ex_envelope rep)"
  using ex_outcome by (simp add: consistent_outcome_def run_outcome_def) (simp add: run_events_def event_at_seq_def)

lemma ex_completed_done:
  assumes "small_report rep" "rp_passed rep"
  shows "CompleteClaim (2 * second) (2 * second) ''ep-1'' ''a2'' 2 (Some (ex_envelope rep)) ex_t3 = (Inr (Some (ex_envelope rep), False), ex_t4 StatusSucceeded rep)"
  using ex_completed [OF assms, of StatusSucceeded] by (simp add: ex_work_succeeded)



text \<open>A task makes at most as many attempts as it was submitted with, and never more than sixteen;
  its fencing token counts them; and only a leased task has an active attempt.\<close>

theorem task_attempts_bounded:
  assumes "reachable_jdb d" "task_where eid d = Some t"
  shows "0 \<le> tr_attempts t \<and> tr_attempts t \<le> tr_max t \<and> tr_max t \<le> 16 \<and> tr_fence t = tr_attempts t \<and>
    (tr_state t \<noteq> TaskLeased \<longrightarrow> tr_active t = []) \<and> (tr_state t = TaskQueued \<longrightarrow> tr_attempts t < tr_max t)"
  using tasks_ok_task [of d eid t] reachable_jok [OF assms(1)] assms(2) by (simp add: jok_def task_ok_def)

theorem task_attempts_bounded_witness:
  "task_where ''ep-1'' ex_t3 = Some (ex_leased 2 ''a2'' (2 * second)) \<and> tr_attempts (ex_leased 2 ''a2'' (2 * second)) \<le> 2"
proof -
  have t: "task_where ''ep-1'' ex_t3 = Some (ex_leased 2 ''a2'' (2 * second))" by (simp add: task_where_def ex_t3_def) (simp add: ex_leased_def)
  have "tr_max (ex_leased 2 ''a2'' (2 * second)) = 2" by (simp add: ex_leased_def)
  then show ?thesis using task_attempts_bounded [OF reachable_ex(3) t] t by simp
qed

text \<open>A completed, cancelled or failed task, or one whose commit is unknown, is final: no later
  operation changes its row.\<close>

theorem finished_task_is_final:
  assumes "reachable_jdb d" "task_where eid d = Some t" "tr_state t \<notin> {TaskQueued, TaskLeased}" "operation\<^sup>*\<^sup>* d d'"
  shows "task_where eid d' = Some t"
proof -
  have "finished t" using assms(3) by (cases "tr_state t") (auto simp: finished_def)
  then show ?thesis
    using operations_task [OF assms(4) reachable_jok [OF assms(1)] assms(2)] by (auto simp: task_later_def)
qed

theorem finished_task_is_final_witness:
  "\<exists>rep t. task_where ''ep-1'' (ex_t4 StatusSucceeded rep) = Some t \<and> task_where ''ep-1'' (snd (CancelTask 0 ''ep-1'' (ex_t4 StatusSucceeded rep))) = Some t"
proof -
  obtain rep where rep: "small_report rep" "rp_passed rep" using ex_scenario_run by blast
  let ?d = "ex_t4 StatusSucceeded rep"
  have op: "operation ex_t3 ?d"
    using operation.complete [OF ex_consistent [OF rep(2)], of ex_t3 "2 * second" "2 * second" "''ep-1''" "''a2''" 2] ex_completed_done [OF rep] by simp
  let ?t = "(ex_leased 2 ''a2'' (2 * second))\<lparr>tr_state := TaskCompleted, tr_active := [], tr_final := ''a2'',
       tr_finalDigest := vp_digest (ex_work StatusSucceeded rep)\<rparr>"
  have t: "task_where ''ep-1'' ?d = Some ?t"
    by (simp add: task_where_def ex_t4_def) (simp add: ex_leased_def)
  have "operation\<^sup>*\<^sup>* ?d (snd (CancelTask 0 ''ep-1'' ?d))" using operation.cancel by blast
  from finished_task_is_final [OF reachable_step [OF reachable_ex(3) op] t _ this]
  show ?thesis using t by (intro exI [of _ rep] exI [of _ ?t]) simp
qed

text \<open>C17 An expired lease gives a hermetic task back to the queue while attempts are left, but never a
  task with external effects: its commit is unknown, and it stays so in every later state.\<close>

theorem expired_external_attempt_never_requeued:
  assumes "reachable_jdb d" "RecoverExpired now d = (Inr n, d1)" "t \<in> set (expired_tasks now d)" "operation\<^sup>*\<^sup>* d1 d2"
  shows "n = length (expired_tasks now d) \<and> (\<exists>t1 t2. task_where (tr_episode t) d1 = Some t1 \<and> task_where (tr_episode t) d2 = Some t2 \<and>
    (tr_profile t = EffectHermetic \<and> \<not> tr_cancel t \<longrightarrow> tr_state t1 = (if tr_attempts t < tr_max t then TaskQueued else TaskFailed)) \<and>
    (tr_profile t = EffectExternal \<longrightarrow> tr_state t1 = TaskCommitUnknown \<and> t2 = t1))"
proof -
  have j: "jok d" by (rule reachable_jok [OF assms(1)])
  have rec: "recoverExpiredTx now d = Inr (n, d1)" using assms(2) by (simp add: RecoverExpired_def)
  then have n: "n = length (expired_tasks now d)" by (auto simp: recoverExpiredTx_def)
  let ?t1 = "t\<lparr>tr_state := snd (snd (expiry_outcome t)), tr_active := [], tr_updated := format_nano now\<rparr>"
  have run: "remote_step\<^sup>*\<^sup>* d d1" by (rule recoverExpiredTx_run [OF rec j, THEN conjunct1])
  have where1: "\<And>k. task_where k d1 = (case List.find (\<lambda>t. tr_episode t = k) (expired_tasks now d) of
      None \<Rightarrow> task_where k d
    | Some t \<Rightarrow> Some (t\<lparr>tr_state := snd (snd (expiry_outcome t)), tr_active := [], tr_updated := format_nano now\<rparr>))"
    by (rule recoverExpiredTx_run [OF rec j, THEN conjunct2, rule_format])
  have only: "u = t" if "u \<in> set (expired_tasks now d)" "tr_episode u = tr_episode t" for u
  proof -
    have "task_where (tr_episode u) d = Some u" "task_where (tr_episode t) d = Some t"
      using expired_task [OF j that(1)] expired_task [OF j assms(3)] by blast+
    then show "u = t" unfolding that(2) by simp
  qed
  have "List.find (\<lambda>u. tr_episode u = tr_episode t) (expired_tasks now d) = Some t"
  proof (cases "List.find (\<lambda>u. tr_episode u = tr_episode t) (expired_tasks now d)")
    case None
    then show ?thesis using assms(3) by (auto simp: find_None_iff)
  next
    case (Some u)
    then have "u \<in> set (expired_tasks now d)" "tr_episode u = tr_episode t" by (auto simp: find_Some_iff)
    then show ?thesis using Some only by simp
  qed
  then have t1: "task_where (tr_episode t) d1 = Some ?t1" using where1 by simp
  obtain t2 where t2: "task_where (tr_episode t) d2 = Some t2" "task_later ?t1 t2"
    using operations_task [OF assms(4) remote_run_jok [OF run j] t1] by blast
  have ext: "tr_profile t = EffectExternal \<Longrightarrow> tr_state ?t1 = TaskCommitUnknown \<and> t2 = ?t1"
    using t2(2) by (simp add: expiry_outcome_def task_later_def finished_def)
  have herm: "tr_profile t = EffectHermetic \<and> \<not> tr_cancel t \<Longrightarrow> tr_state ?t1 = (if tr_attempts t < tr_max t then TaskQueued else TaskFailed)"
    by (simp add: expiry_outcome_def)
  show ?thesis
    using n t1 t2(1) ext herm by (intro conjI exI [of _ ?t1] exI [of _ t2] impI) (simp_all only: simp_thms)
qed

theorem expired_external_attempt_never_requeued_witness:
  "\<exists>d1 t1. RecoverExpired (2 * second) ex_t2 = (Inr 1, d1) \<and> task_where ''ep-1'' d1 = Some t1 \<and> tr_state t1 = TaskQueued"
proof -
  obtain n d1 where "recoverExpiredTx (2 * second) ex_t2 = Inr (n, d1)"
    using ex_claimed2 unfolding ClaimProfile_def transaction_Inr by (auto split: if_splits)
  then have r: "RecoverExpired (2 * second) ex_t2 = (Inr n, d1)" by (simp add: RecoverExpired_def)
  have l: "at_lease (ex_attempt 1 ''a1'' 0) \<le> format_nano (2 * second)" using ex_stamps by (simp add: ex_attempt_def)
  have t: "expired_tasks (2 * second) ex_t2 = [ex_leased 1 ''a1'' 0]"
    using l by (simp add: expired_tasks_def ex_t2_def active_attempt_def) (simp add: ex_leased_def ex_attempt_def)
  have s: "tr_episode (ex_leased 1 ''a1'' 0) = ''ep-1''" "tr_profile (ex_leased 1 ''a1'' 0) = EffectHermetic" "\<not> tr_cancel (ex_leased 1 ''a1'' 0)"
    "tr_attempts (ex_leased 1 ''a1'' 0) < tr_max (ex_leased 1 ''a1'' 0)"
    by (simp_all add: ex_leased_def)
  show ?thesis
    using expired_external_attempt_never_requeued [OF reachable_ex(2) r, of "ex_leased 1 ''a1'' 0" d1] r s by (auto simp: t)
qed

text \<open>Leases are recovered in the order of their texts, not of their instants: a worker that claimed for
  one and a half seconds loses its claim after one second, while its lease is still alive.\<close>

theorem live_lease_is_recovered:
  "\<exists>c d d'. ClaimProfile 0 ''a1'' ''w'' (second + 500000000) None ex_t1 = (Inr c, d) \<and> lease_alive second (cl_lease c) \<and>
     RecoverExpired second d = (Inr 1, d') \<and> map tr_state (tasks d) = [TaskLeased] \<and> map tr_state (tasks d') = [TaskQueued]"
proof -
  let ?lease = "format_nano (second + 500000000)"
  let ?a = "(ex_attempt 1 ''a1'' 0)\<lparr>at_lease := ?lease\<rparr>"
  let ?t = "ex_leased 1 ''a1'' 0"
  let ?c = "(ex_claim 1 ''a1'' 0)\<lparr>cl_lease := ?lease\<rparr>"
  let ?d = "ex_t1\<lparr>tasks := [?t], attempts := [?a]\<rparr>"
  have r: "recoverExpiredTx 0 ex_t1 = Inr (0, ex_t1)" by (simp add: recoverExpiredTx_def expired_tasks_def)
  have c: "claimable None ex_t1 = [ex_task]" by (simp add: claimable_def episode_where_def)
  have e: "episode_where ''ep-1'' ex_t1 = Some (ex_jrow StatusCreated 0)" by (simp add: episode_where_def)
  have "lease_ok (second + 500000000)" by (simp add: lease_ok_def second_def)
  then have claim: "ClaimProfile 0 ''a1'' ''w'' (second + 500000000) None ex_t1 = (Inr ?c, ?d)"
    unfolding ClaimProfile_def transaction_Inr using ex_ids(2)
    by (simp add: r c e requireOneRow_def casTask_def affected_def update_where_def row_exists_def Let_def del: controlIDPattern.simps)
      (simp add: ex_claim_def ex_leased_def ex_attempt_def)
  have "parse_nano ?lease = Some (second + 500000000, True)"
    by (rule parse_format) (simp_all add: max_instant_def year_start_def day_ns_def second_def)
  then have alive: "lease_alive second (cl_lease ?c)" by (simp add: lease_alive_def parsed_def)
  have "?lease = ''0000-01-01T00:00:01.5Z''" "''0000-01-01T00:00:01.5Z'' \<le> (''0000-01-01T00:00:01Z'' :: string)"
    by code_simp+
  then have "at_lease ?a \<le> format_nano second" using ex_stamps by simp
  then have t: "expired_tasks second ?d = [?t]"
    by (simp add: expired_tasks_def active_attempt_def) (simp add: ex_leased_def ex_attempt_def)
  have o: "expiry_outcome ?t = (AttemptExpired, CommitNoEffect, TaskQueued)"
    by (simp add: expiry_outcome_def ex_leased_def)
  have s: "tr_episode ?t = ''ep-1''" "tr_active ?t = ''a1''" "tr_fence ?t = 1" "tr_state ?t = TaskLeased"
    by (simp_all add: ex_leased_def)
  have "\<exists>d'. expire_one (format_nano second) ?t ?d = Inr d' \<and> map tr_state (tasks d') = [TaskQueued]"
    by (simp add: expire_one_def o s finish_attempt_def release_task_def requireOneRow_def casAttempt_def casTask_def affected_def update_where_def)
  then obtain d' where d': "expire_one (format_nano second) ?t ?d = Inr d'" "map tr_state (tasks d') = [TaskQueued]" by (elim exE conjE)
  then have "RecoverExpired second ?d = (Inr 1, d')" by (simp add: RecoverExpired_def recoverExpiredTx_def t)
  moreover have "map tr_state (tasks ?d) = [TaskLeased]" by (simp add: s)
  ultimately show ?thesis using claim alive d'(2) by (intro exI [of _ ?c] exI [of _ ?d] exI [of _ d'] conjI)
qed

section \<open>Evidence\<close>

text \<open>The evidence that a worker obtains by running the claimed bundle is accepted by the coordinator:
  its envelope passes the validation of the completion for the request of the task, and its outcome
  belongs to its lifecycle.\<close>

theorem run_evidence_is_accepted:
  assumes "resolveRequest artifact eid path version revision = Inr rq" "Run l artifact eid path version revision = Inr v"
  shows "\<exists>e. vp_evidence v = Some e \<and> validateRemoteEnvelope rq v = Inr e \<and> consistent_outcome v"
proof -
  obtain s' where run: "episode_run l None artifact eid path version revision () = (Inr v, s')"
    using assms(2) unfolding Run_def by (metis prod.collapse)
  have "faithful rq v"
    using run
  proof (rule episode_run_Inr)
    fix a selected rep t
    assume a: "artifact = Some a" and sel: "selectScenario (af_scenarios a) path = Inr selected"
      and t: "t = (if rp_passed rep then StatusSucceeded else StatusAssertionFailed)"
      and v: "v = envelope_of (evidence_of a eid selected version (revision_or_unknown revision)
        \<lparr>lf_current = t, lf_events = run_events t\<rparr> rep)"
    have "jr_bundle rq = af_digest a" "selected = jr_path rq" "revision_or_unknown revision = jr_revision rq" "jr_id rq = eid" "jr_version rq = version"
      using resolveRequest_Inr [OF assms(1)] a sel by auto
    then show ?thesis
      by (auto simp: v t faithful_def envelope_of_def evidence_of_def run_outcome_def)
  qed
  moreover have "consistent_outcome v"
    using calculation by (auto simp: faithful_def consistent_outcome_def run_events_def event_at_seq_def split: option.splits)
  ultimately show ?thesis using faithful_validated by blast
qed

theorem run_evidence_is_accepted_witness:
  "\<exists>v e. Run ex_libs (Some ex_art) ''ep-1'' [] ''1.0'' [] = Inr v \<and> validateRemoteEnvelope ex_rq v = Inr e"
proof -
  obtain rep where rep: "scenario_Run ex_libs (Some ex_twin) (Some New) (Some ex_scenario) ''1.0'' = Inr rep" "rp_passed rep" "small_report rep"
    using ex_scenario_run by blast
  have a: "af_scenarios ex_art = [''smoke.yaml'']" "af_spec ex_art = Some ex_twin" "af_fixture ex_art = Some New" "af_scenario ex_art p = Some ex_scenario" for p
    by (simp_all add: ex_art_def)
  have e: "evidence_of ex_art ''ep-1'' ''smoke.yaml'' ''1.0'' ''unknown''
      \<lparr>lf_current = StatusSucceeded, lf_events = run_events StatusSucceeded\<rparr> rep = ex_evidence rep" by (simp add: ex_evidence_def)
  have "Run ex_libs (Some ex_art) ''ep-1'' [] ''1.0'' [] = Inr (ex_envelope rep)"
    unfolding Run_def episode_run_def option.case using ex_ids(1) ex_evidence_valid(1) [OF rep(3,2)]
    by (simp add: a selectScenario_def bindS_def liftS_def returnS_def require_decoded_def transition_def Transition_def NewLifecycle_def rep(1,2)
      revision_or_unknown_def Let_def e [unfolded run_events_def event_at_seq_def] ex_envelope_def del: controlIDPattern.simps)
  then show ?thesis using run_evidence_is_accepted [OF ex_resolved, of ex_libs] by blast
qed

text \<open>C18 The completion does not compare the last event of the evidence with its current status, nor the
  outcome with it: an envelope where they differ is committed when its digest is right, and from then on
  the episode cannot be read.\<close>

theorem inconsistent_completion_corrupts_record:
  assumes "reachable_jdb d" "CompleteClaim n1 n2 eid aid fence (Some v) d = (Inr (w, False), d1)" "\<not> consistent_outcome v"
  shows "\<exists>e. Get eid d1 = Inl e"
proof (rule ccontr)
  assume "\<nexists>e. Get eid d1 = Inl e"
  then obtain rec where get: "Get eid d1 = Inr rec" by (cases "Get eid d1") auto
  show False
    using assms(2)
  proof (rule CompleteClaim_commit)
    fix v' :: envelope and e :: evidence and t :: task_row and row :: episode_row and a :: attempt_row and dx d2 d3 :: jdb
    let ?es = "lf_events (ev_lifecycle e)"
    let ?f = "\<lambda>r. r\<lparr>er_status := lf_current (ev_lifecycle e), er_sequence := int (length ?es) - 1, er_outcome := ev_outcome e,
                 er_evidence := Some v', er_evidenceDigest := vp_digest v', er_updated := format_nano n2\<rparr>"
    assume v: "Some v = Some v'" and row: "episode_where eid d = Some row" "validateRemoteEnvelope (row_request row) v' = Inr e"
      and ins: "insertEvents eid (tl ?es) d = Inr dx"
      and ep: "requireOneRow ErrStaleAttempt (casEpisode (\<lambda>r. er_id r = eid \<and> er_status r = StatusCreated \<and> er_sequence r = 0) ?f dx) = Inr d2"
      and att: "requireOneRow ErrStaleAttempt (casAttempt
          (\<lambda>r. at_id r = aid \<and> at_state r = AttemptLeased \<and> at_fence r = fence)
          (\<lambda>r. r\<lparr>at_state := AttemptCompleted, at_commit := CommitCommitted, at_updated := format_nano n2\<rparr>) d2) = Inr d3"
      and tsk: "requireOneRow ErrStaleAttempt (casTask
          (\<lambda>r. tr_episode r = eid \<and> tr_active r = aid \<and> tr_fence r = fence \<and> tr_state r = TaskLeased)
          (\<lambda>r. r\<lparr>tr_state := TaskCompleted, tr_active := [], tr_final := aid, tr_finalDigest := vp_digest v', tr_updated := format_nano n2\<rparr>) d3) = Inr d1"
    note ok = reachable_jok [OF assms(1)]
    have dx: "dx = d\<lparr>ep_events := ep_events d @ map (\<lambda>e. \<lparr>lr_episode = eid, lr_event = e\<rparr>) (tl ?es)\<rparr>"
      using insertEvents_Inr [OF ins] .
    have 2: "er_status row = StatusCreated \<and> er_sequence row = 0 \<and> d2 = dx\<lparr>episodes := update_where (\<lambda>x. er_id x = eid) (\<lambda>_. ?f row) (episodes dx)\<rparr>"
      using row_by_id [OF _ _ ep, of row] ok row(1) by (simp add: dx jok_def lifecycle_ok_def episode_where_def)
    have same: "episodes d1 = episodes d2" "ep_events d1 = ep_events d2"
      using att tsk by (auto simp: requireOneRow_def casAttempt_def casTask_def split: if_splits)
    have ev: "vp_evidence v' = Some e" "length ?es = 6" "chain_ok 1 StatusCreated (tl ?es) = Inr ()"
      using validateRemoteEnvelope_Inr [OF row(2)] by auto
    have r: "episode_where eid d1 = Some (?f row)"
      using find_row_put [of er_id eid "episodes d" row "?f row" eid] row(1) episode_id [OF row(1)] 2 same dx by (simp add: episode_where_def)
    have old: "lifecycle_row row (raw_events eid d)" using jok_row [OF ok row(1)] .
    then obtain e0 where e0: "raw_events eid d = [e0]" "check_chain [e0] = Inr ()"
      using 2 by (auto simp: lifecycle_row_def length_Suc_conv)
    then have raw: "raw_events eid d1 = e0 # tl ?es"
      using 2 same dx by (simp add: raw_events_def filter_map comp_def)
    have "check_chain (e0 # tl ?es) = Inr ()"
      using e0(2) ev(3) by (auto simp: check_chain_def split: if_splits)
    then have sorted: "events_where eid d1 = e0 # tl ?es"
      using check_chain_sorted raw by (metis events_where_def raw_events_def)
    obtain r0 where scan: "scanRecord (Some (?f row)) = Inr r0" and load: "loadEvents r0 d1 = Inr rec"
      using get r by (auto simp: Get_def split: if_splits)
    have r0: "rc_id r0 = eid" "rc_status r0 = lf_current (ev_lifecycle e)" "check_evidence (?f row) (reread_envelope v') = Inr ()"
      using scan episode_id [OF row(1)] unfolding scanRecord_def by (auto split: if_splits)
    have "lc_to (last (e0 # tl ?es)) = lf_current (ev_lifecycle e)"
      using load r0(1,2) sorted by (auto simp: loadEvents_def Let_def split: if_splits)
    moreover have "last (e0 # tl ?es) = last ?es" using ev(2) by (cases ?es) auto
    moreover have "ev_outcome e = run_outcome (lf_current (ev_lifecycle e))"
      using r0(3) ev(1) by (auto simp: check_evidence_def run_outcome_def split: option.splits if_splits)
    ultimately show False using assms(3) ev(1) v by (simp add: consistent_outcome_def)
  qed
qed

theorem inconsistent_completion_corrupts_record_witness:
  "\<exists>rep w e. CompleteClaim (2 * second) (2 * second) ''ep-1'' ''a2'' 2 (Some (ex_work StatusAssertionFailed rep)) ex_t3 =
      (Inr (w, False), ex_t4 StatusAssertionFailed rep) \<and> Get ''ep-1'' (ex_t4 StatusAssertionFailed rep) = Inl e"
proof -
  obtain rep where rep: "small_report rep" "rp_passed rep" using ex_scenario_run by blast
  have c: "CompleteClaim (2 * second) (2 * second) ''ep-1'' ''a2'' 2 (Some (ex_work StatusAssertionFailed rep)) ex_t3 =
      (Inr (Some (ex_work StatusAssertionFailed rep), False), ex_t4 StatusAssertionFailed rep)"
    using ex_completed [OF rep, of StatusAssertionFailed] by simp
  have "\<not> consistent_outcome (ex_work StatusAssertionFailed rep)"
    by (simp add: consistent_outcome_def ex_work_def envelope_of_def run_events_def event_at_seq_def)
  from inconsistent_completion_corrupts_record [OF reachable_ex(3) c this] c show ?thesis by blast
qed

section \<open>Submission\<close>

text \<open>An episode that is in the journal without a task cannot be submitted: the submission waits for
  the connection that it holds itself, fails when its context ends, and creates no task.\<close>

theorem submission_blocks_on_reserved_episode:
  assumes "resolveRequest (openBytes bytes) eid path version revision = Inr rq" "1 \<le> m" "m \<le> int MaxEpisodeAttempts"
    and "createOrLoad n1 rq d = (Inr (r, False), d)" "task_where eid d = None"
  shows "Submit openBytes n1 n2 bytes eid path version revision profile m d = (Inl ErrConnectionBusy, d)"
proof -
  obtain a where "openBytes bytes = Some a" using assms(1) by (auto simp: resolveRequest_def split: option.splits)
  then show ?thesis
    using assms by (simp add: Submit_def submit_tx_def transaction_def)
qed

theorem submission_blocks_on_reserved_episode_witness:
  "\<exists>rep. Submit (\<lambda>_. Some ex_art) 0 0 ''bytes'' ''ep-1'' [] ''1.0'' [] EffectHermetic 2 (ex_done rep) = (Inl ErrConnectionBusy, ex_done rep)"
proof -
  obtain rep where rep: "small_report rep"
    and run: "RunPersistent ex_libs (\<lambda>_. 0) (Some ex_art) ''ep-1'' [] ''1.0'' [] empty_jdb = (Inr (ex_envelope rep, False), ex_done rep)"
    using ex_persistent by blast
  let ?r = "(ex_jrow StatusSucceeded 5)\<lparr>er_outcome := ''succeeded'', er_evidence := Some (ex_envelope rep), er_evidenceDigest := vp_digest (ex_envelope rep)\<rparr>"
  have r: "episode_where (jr_id ex_rq) (ex_done rep) = Some ?r" by (simp add: episode_where_def ex_done_def)
  have rq: "row_request ?r = ex_rq" by (simp add: row_request_def ex_rq_def)
  have s: "stamps_sound ?r" "rereads ?r" using ex_rereads [OF rep] by (simp_all add: stamps_sound_def rereads_def)
  have "task_where ''ep-1'' (ex_done rep) = None" by (simp add: task_where_def ex_done_def empty_jdb_def)
  with submission_blocks_on_reserved_episode [OF _ _ _ createOrLoad_ok [OF reachable_jok [OF reachable_done [OF run]] r rq s]]
  show ?thesis by (intro exI [of _ rep]) simp
qed

section \<open>Opening a journal\<close>

text \<open>Opening a journal file is atomic: a refused migration leaves the file as it was; an accepted one
  leaves a file with the journal's identity and all its tables, keeps the tables that were there, and
  is the identity the second time.\<close>

theorem journal_migration_is_atomic:
  "case journal_migrate hook f of
     (Inl _, f') \<Rightarrow> f' = f
   | (Inr _, f') \<Rightarrow> jf_application f' = journalApplicationID \<and> jf_version f' = journalSchemaVersion \<and> set journal_tables \<subseteq> set (jf_tables f') \<and>
       set (jf_tables f) \<subseteq> set (jf_tables f') \<and> snd (journal_migrate hook' f') = f'"
proof (cases "journal_migrate hook f")
  case (Pair r f')
  show ?thesis
  proof (cases r)
    case (Inl e)
    then have "f' = f" using Pair by (simp add: journal_migrate_def transaction_Inl)
    then show ?thesis unfolding Pair Inl by simp
  next
    case (Inr u)
    let ?f = "\<lparr>jf_application = journalApplicationID, jf_version = journalSchemaVersion,
                 jf_tables = jf_tables f @ filter (\<lambda>t. t \<notin> set (jf_tables f)) journal_tables\<rparr>"
    have f': "f' = ?f"
      using Pair Inr unfolding journal_migrate_def by (auto split: if_splits)
    have all: "filter (\<lambda>t. t \<notin> set (jf_tables ?f)) journal_tables = []" by (auto simp: filter_empty_conv)
    have "snd (journal_migrate hook' ?f) = ?f"
      using all by (cases "hook' SchemaApplied"; cases "hook' MetadataSet")
        (simp_all add: journal_migrate_def transaction_def journalApplicationID_def)
    then show ?thesis unfolding Pair Inr prod.case sum.case f' by auto
  qed
qed

end
