(* ===== verification/Go_Float.thy ===== *)
theory Go_Float
  imports Complex_Main Canonical
begin

text \<open>
  Go's \<open>float64\<close>: a finite value is the rational it stands for, and the arithmetic rounds the
  exact result to the nearest value with 53 significant bits, ties to even, subnormals included.
  The two zeros are one value: no code modelled here distinguishes them.
\<close>

section \<open>Rounding\<close>

text \<open>The largest \<open>k\<close> with \<open>2 ^ k \<le> x\<close>, for a positive \<open>x\<close>.\<close>

definition ilog2 :: "rat \<Rightarrow> int" where
  "ilog2 x =
     (let (p, q) = quotient_of x; k = int (bitlen p) - int (bitlen q)
      in if 2 powi k \<le> x then k else k - 1)"

definition round_even :: "rat \<Rightarrow> int" where
  "round_even y =
     (let f = \<lfloor>y\<rfloor>; d = y - of_int f in if d > 1 / 2 \<or> (d = 1 / 2 \<and> odd f) then f + 1 else f)"

text \<open>The exponent of the last bit; below the normal range it is fixed.\<close>

definition ulp_exp :: "rat \<Rightarrow> int" where
  "ulp_exp x = max (- 1074) (ilog2 \<bar>x\<bar> - 52)"

datatype float64 = Finite rat | PosInf | NegInf | NaN

text \<open>The nearest value with an unbounded exponent; beyond the largest one it is an infinity.\<close>

definition rnd :: "rat \<Rightarrow> rat" where
  "rnd x = (if x = 0 then 0 else of_int (round_even (x / 2 powi ulp_exp x)) * 2 powi ulp_exp x)"

definition round64 :: "rat \<Rightarrow> float64" where
  "round64 x = (let r = rnd x in if r \<ge> 2 ^ 1024 then PosInf else if r \<le> - (2 ^ 1024) then NegInf else Finite r)"

section \<open>Arithmetic and comparison\<close>

fun fadd :: "float64 \<Rightarrow> float64 \<Rightarrow> float64" where
  "fadd (Finite a) (Finite b) = round64 (a + b)"
| "fadd NaN _ = NaN"
| "fadd _ NaN = NaN"
| "fadd PosInf NegInf = NaN"
| "fadd NegInf PosInf = NaN"
| "fadd PosInf _ = PosInf"
| "fadd _ PosInf = PosInf"
| "fadd NegInf _ = NegInf"
| "fadd _ NegInf = NegInf"

fun fneg :: "float64 \<Rightarrow> float64" where
  "fneg (Finite a) = Finite (- a)"
| "fneg PosInf = NegInf"
| "fneg NegInf = PosInf"
| "fneg NaN = NaN"

definition fsub :: "float64 \<Rightarrow> float64 \<Rightarrow> float64" where
  "fsub x y = fadd x (fneg y)"

fun fmul_fin :: "float64 \<Rightarrow> float64 \<Rightarrow> float64" where
  "fmul_fin (Finite a) (Finite b) = round64 (a * b)"
| "fmul_fin _ _ = NaN"

text \<open>\<open>float64(n)\<close> of an integer, and division by a positive one (the only divisors of the code).\<close>

definition of_int64 :: "int \<Rightarrow> float64" where
  "of_int64 n = round64 (of_int n)"

fun fdiv_pos :: "float64 \<Rightarrow> float64 \<Rightarrow> float64" where
  "fdiv_pos (Finite a) (Finite b) = round64 (a / b)"
| "fdiv_pos PosInf (Finite b) = PosInf"
| "fdiv_pos NegInf (Finite b) = NegInf"
| "fdiv_pos (Finite a) PosInf = Finite 0"
| "fdiv_pos _ _ = NaN"

fun fle :: "float64 \<Rightarrow> float64 \<Rightarrow> bool" where
  "fle (Finite a) (Finite b) = (a \<le> b)"
| "fle NaN _ = False"
| "fle _ NaN = False"
| "fle NegInf _ = True"
| "fle _ PosInf = True"
| "fle _ _ = False"

definition flt :: "float64 \<Rightarrow> float64 \<Rightarrow> bool" where
  "flt x y = (fle x y \<and> \<not> fle y x)"

definition is_NaN :: "float64 \<Rightarrow> bool" where "is_NaN x = (x = NaN)"

definition is_Inf :: "float64 \<Rightarrow> bool" where "is_Inf x = (x = PosInf \<or> x = NegInf)"

definition float_eq :: "float64 \<Rightarrow> float64 \<Rightarrow> bool" where
  "float_eq x y = (x = y \<and> \<not> is_NaN x)"

lemma fle_linear: "x \<noteq> NaN \<Longrightarrow> y \<noteq> NaN \<Longrightarrow> fle x y \<or> fle y x"
  by (cases x; cases y) auto

lemma fle_trans: "fle x y \<Longrightarrow> fle y z \<Longrightarrow> fle x z"
  by (cases x; cases y; cases z) auto

lemma fle_antisym: "fle x y \<Longrightarrow> fle y x \<Longrightarrow> x = y"
  by (cases x; cases y) auto

section \<open>Signed 64-bit integers\<close>

text \<open>The sum of two \<open>int\<close> values wraps around.\<close>

definition add64 :: "int \<Rightarrow> int \<Rightarrow> int" where
  "add64 a b = (a + b + 9223372036854775808) mod 18446744073709551616 - 9223372036854775808"

lemma add64_exact: "- (2 ^ 63) \<le> a + b \<Longrightarrow> a + b < 2 ^ 63 \<Longrightarrow> add64 a b = a + b"
  by (simp add: add64_def)

section \<open>The rounding is nearest\<close>

lemma bitlen_bounds: "0 < n \<Longrightarrow> n < 2 ^ bitlen n \<and> 2 ^ bitlen n \<le> 2 * n"
proof (induction n rule: bitlen.induct)
  case (1 n)
  show ?case
  proof (cases "n = 1")
    case True
    then show ?thesis by (simp add: bitlen.simps)
  next
    case False
    then have "n div 2 < 2 ^ bitlen (n div 2) \<and> 2 ^ bitlen (n div 2) \<le> 2 * (n div 2)" using 1 by simp
    moreover have "bitlen n = Suc (bitlen (n div 2))" using 1 by (simp add: bitlen.simps [of n])
    moreover define m where "m = (2::int) ^ bitlen (n div 2)"
    ultimately have "n div 2 < m" "m \<le> 2 * (n div 2)" "2 ^ bitlen n = 2 * m" by simp_all
    then show ?thesis by linarith
  qed
qed

lemma bitlen_powi:
  assumes "0 < n"
  shows "(2::rat) powi (int (bitlen n) - 1) \<le> of_int n" "of_int n < (2::rat) powi int (bitlen n)"
proof -
  have b: "n < 2 ^ bitlen n" "2 ^ bitlen n \<le> 2 * n" using bitlen_bounds [OF assms] by auto
  from b(1) show "of_int n < (2::rat) powi int (bitlen n)" by (simp add: power_int_def)
  from b(2) have "(2::rat) ^ bitlen n \<le> 2 * of_int n" by (metis of_int_le_iff of_int_mult of_int_numeral of_int_power)
  then show "(2::rat) powi (int (bitlen n) - 1) \<le> of_int n" by (simp add: power_int_diff)
qed

lemma powi_le: "a \<le> b \<Longrightarrow> (2::rat) powi a \<le> 2 powi b"
  by (rule power_int_increasing) auto

lemma powi_less: "a < b \<Longrightarrow> (2::rat) powi a < 2 powi b"
  by (rule power_int_strict_increasing) auto

lemma powi_Suc: "(2::rat) powi (a + 1) = 2 * 2 powi a"
  by (simp add: power_int_add)

lemma ilog2_spec:
  assumes "0 < x"
  shows "2 powi ilog2 x \<le> x" "x < 2 powi (ilog2 x + 1)"
proof -
  obtain p q where pq: "quotient_of x = (p, q)" by (cases "quotient_of x")
  have q: "0 < q" and x: "x = of_int p / of_int q"
    using quotient_of_denom_pos [OF pq] quotient_of_div [OF pq] by auto
  have p: "0 < p" using assms x q by (simp add: zero_less_divide_iff)
  let ?a = "int (bitlen p)" and ?b = "int (bitlen q)"
  have A: "(2::rat) powi (?a - 1) \<le> of_int p" "of_int p < (2::rat) powi ?a"
    using bitlen_powi [OF p] by auto
 have B: "(2::rat) powi (?b - 1) \<le> of_int q" "of_int q < (2::rat) powi ?b"
    using bitlen_powi [OF q] by auto
  have "x < 2 powi ?a / 2 powi (?b - 1)"
    unfolding x using A B q p by (intro frac_less) (auto simp: less_imp_le)
  also have "\<dots> = 2 powi (?a - ?b + 1)" by (simp add: power_int_diff power_int_add)
  finally have up: "x < 2 powi (?a - ?b + 1)" .
  have "2 powi (?a - 1) / 2 powi ?b \<le> x"
    unfolding x using A B q p by (intro frac_le) (auto simp: less_imp_le)
  moreover have "2 powi (?a - 1) / 2 powi ?b = (2::rat) powi (?a - ?b - 1)" by (simp add: power_int_diff)
  ultimately have low: "2 powi (?a - ?b - 1) \<le> x" by simp
  show "2 powi ilog2 x \<le> x" "x < 2 powi (ilog2 x + 1)"
    using up low by (auto simp: ilog2_def pq Let_def)
qed

lemma round_even_int [simp]: "round_even (of_int n) = n"
  by (simp add: round_even_def)

lemma round_even_mono_int: "y \<le> of_int n \<Longrightarrow> round_even y \<le> n"
proof -
  assume y: "y \<le> of_int n"
  have f: "\<lfloor>y\<rfloor> \<le> n" using y by (simp add: floor_le_iff)
  show ?thesis
  proof (cases "\<lfloor>y\<rfloor> = n")
    case True
    then have "y = of_int n" using y by linarith
    then show ?thesis by simp
  next
    case False
    with f show ?thesis by (auto simp: round_even_def Let_def)
  qed
qed

lemma round_even_nonneg: "0 \<le> y \<Longrightarrow> 0 \<le> round_even y"
proof -
  assume "0 \<le> y"
  then have "0 \<le> \<lfloor>y\<rfloor>" by simp
  then show ?thesis unfolding round_even_def Let_def by (auto split: if_split)
qed

lemma round_even_minus: "round_even (- y) = - round_even y"
proof (cases "y = of_int \<lfloor>y\<rfloor>")
  case True
  then obtain n where "y = of_int n" by blast
  then have "- y = of_int (- n)" by simp
  then show ?thesis using \<open>y = of_int n\<close> by (metis round_even_int)
next
  case False
  then have f: "\<lfloor>- y\<rfloor> = - \<lfloor>y\<rfloor> - 1" by linarith
  then show ?thesis unfolding round_even_def Let_def f by (auto simp: field_simps)
qed

lemma round_even_near: "\<bar>y - of_int (round_even y)\<bar> \<le> 1 / 2"
proof -
  define f where "f = \<lfloor>y\<rfloor>"
  have f: "of_int f \<le> y" "y < of_int f + 1" unfolding f_def by linarith+
  then show ?thesis unfolding round_even_def Let_def f_def [symmetric] by (auto split: if_split simp: abs_le_iff)
qed

lemma ulp_exp_minus [simp]: "ulp_exp (- x) = ulp_exp x"
  by (simp add: ulp_exp_def)

lemma rnd_minus: "rnd (- x) = - rnd x"
  by (simp add: rnd_def round_even_minus)

lemma round64_minus: "round64 (- x) = fneg (round64 x)"
  by (auto simp: round64_def rnd_minus Let_def)

lemma round_even_ge_int: "of_int n \<le> y \<Longrightarrow> n \<le> round_even y"
  using round_even_mono_int [of "- y" "- n"] by (simp add: round_even_minus)

lemma round_even_mono:
  assumes "x \<le> y"
  shows "round_even x \<le> round_even y"
proof (cases "\<lfloor>x\<rfloor> = \<lfloor>y\<rfloor>")
  case True
  then show ?thesis using assms by (auto simp: round_even_def Let_def)
next
  case False
  then have "\<lfloor>x\<rfloor> + 1 \<le> \<lfloor>y\<rfloor>" using floor_mono [OF assms] by linarith
  moreover have "round_even x \<le> \<lfloor>x\<rfloor> + 1" by (rule round_even_mono_int) linarith
  moreover have "\<lfloor>y\<rfloor> \<le> round_even y" by (rule round_even_ge_int) linarith
  ultimately show ?thesis by linarith
qed

lemma ilog2_mono:
  assumes "0 < x" "x \<le> y"
  shows "ilog2 x \<le> ilog2 y"
proof (rule ccontr)
  assume "\<not> ilog2 x \<le> ilog2 y"
  then have "(2::rat) powi (ilog2 y + 1) \<le> 2 powi ilog2 x" by (intro powi_le) simp
  then show False using ilog2_spec(1) [of x] ilog2_spec(2) [of y] assms by linarith
qed

lemma scaled_nat: "0 \<le> k \<Longrightarrow> (2::rat) powi (e + k) = of_int (2 ^ nat k) * 2 powi e"
  by (simp add: power_int_add power_int_def [of _ k])

lemma rnd_pos: "0 < x \<Longrightarrow> rnd x = of_int (round_even (x / 2 powi ulp_exp x)) * 2 powi ulp_exp x"
  by (simp add: rnd_def)

lemma rnd_mono_pos:
  assumes "0 < x" "x \<le> y"
  shows "rnd x \<le> rnd y"
proof -
  have y: "0 < y" using assms by simp
  have l: "ilog2 x \<le> ilog2 y" by (rule ilog2_mono [OF assms])
  show ?thesis
  proof (cases "ulp_exp x = ulp_exp y")
    case True
    have "x / 2 powi ulp_exp y \<le> y / 2 powi ulp_exp y" using assms by (simp add: divide_right_mono)
    then show ?thesis using round_even_mono True by (simp add: rnd_pos assms y mult_right_mono)
  next
    case False
    then have e: "ulp_exp y = ilog2 y - 52" "ulp_exp x \<le> ilog2 y" "ilog2 x + 1 \<le> ilog2 y"
      using l assms y by (auto simp: ulp_exp_def)
    define k where "k = ilog2 y - ulp_exp x"
    have k: "0 \<le> k" "(2::rat) powi ilog2 y = of_int (2 ^ nat k) * 2 powi ulp_exp x"
      using scaled_nat [of k "ulp_exp x"] e by (simp_all add: k_def)
    have "x < 2 powi ilog2 y" using ilog2_spec(2) [OF assms(1)] powi_le [OF e(3)] by simp
    then have "x / 2 powi ulp_exp x \<le> of_int (2 ^ nat k)" using k(2) by (simp add: divide_le_eq)
    then have "round_even (x / 2 powi ulp_exp x) \<le> 2 ^ nat k" by (rule round_even_mono_int)
    then have "rnd x \<le> of_int (2 ^ nat k) * 2 powi ulp_exp x"
      unfolding rnd_pos [OF assms(1)] by (intro mult_right_mono) (auto simp only: of_int_le_iff zero_le_power_int zero_le_numeral)
    also have "\<dots> = 2 powi ilog2 y" using k(2) by simp
    also have s: "(2::rat) powi ilog2 y = of_int (2 ^ 52) * 2 powi ulp_exp y"
      using scaled_nat [of 52 "ulp_exp y"] e(1) by simp
    also have "\<dots> \<le> rnd y"
    proof -
      have "of_int (2 ^ 52) \<le> y / 2 powi ulp_exp y" using ilog2_spec(1) [OF y] s by (simp add: le_divide_eq)
      then have "2 ^ 52 \<le> round_even (y / 2 powi ulp_exp y)" by (rule round_even_ge_int)
      then show ?thesis
        unfolding rnd_pos [OF y] by (intro mult_right_mono) (auto simp only: of_int_le_iff zero_le_power_int zero_le_numeral)
    qed
    finally show ?thesis .
  qed
qed

lemma rnd_nonneg: "0 \<le> x \<Longrightarrow> 0 \<le> rnd x"
  using round_even_ge_int [of 0 "x / 2 powi ulp_exp x"] by (simp add: rnd_def)

text \<open>Rounding is monotone and exact on integers of up to 53 bits, so it keeps integer bounds.\<close>

lemma rnd_mono:
  assumes "x \<le> y"
  shows "rnd x \<le> rnd y"
proof -
  consider "0 < x" | "x \<le> 0" "0 \<le> y" | "y < 0" by linarith
  then show ?thesis
  proof cases
    case 1
    then show ?thesis by (rule rnd_mono_pos [OF _ assms])
  next
    case 2
    then have "0 \<le> rnd (- x)" "0 \<le> rnd y" by (simp_all add: rnd_nonneg)
    then show ?thesis by (simp add: rnd_minus)
  next
    case 3
    then show ?thesis using rnd_mono_pos [of "- y" "- x"] assms by (simp add: rnd_minus)
  qed
qed

lemma rnd_int:
  assumes "\<bar>n\<bar> < 2 ^ 53"
  shows "rnd (of_int n) = of_int n"
proof (cases "n = 0")
  case False
  let ?x = "of_int n :: rat"
  have pos: "0 < \<bar>?x\<bar>" using False by simp
  have "ilog2 \<bar>?x\<bar> < 53"
  proof (rule ccontr)
    assume "\<not> ?thesis"
    then have "(2::rat) powi 53 \<le> 2 powi ilog2 \<bar>?x\<bar>" by (intro powi_le) simp
    also have "\<dots> \<le> \<bar>?x\<bar>" by (rule ilog2_spec(1) [OF pos])
    finally have "(2::rat) ^ 53 \<le> of_int \<bar>n\<bar>" by (simp add: power_int_def)
    then have "2 ^ 53 \<le> \<bar>n\<bar>" by (metis of_int_le_iff of_int_numeral of_int_power)
    with assms show False by simp
  qed
  then have e: "ulp_exp ?x \<le> 0" by (simp add: ulp_exp_def)
  let ?m = "n * 2 ^ nat (- ulp_exp ?x)"
  have "?x / 2 powi ulp_exp ?x = of_int ?m"
    using e by (cases "ulp_exp ?x = 0") (simp_all add: power_int_def field_simps)
  then have "of_int (round_even (?x / 2 powi ulp_exp ?x)) * 2 powi ulp_exp ?x = ?x"
    using round_even_int [of ?m] by (metis div_by_0 nonzero_eq_divide_eq power_int_eq_0_iff zero_neq_numeral)
  then show ?thesis using False by (simp add: rnd_def)
qed (simp add: rnd_def)

lemma round64_bound:
  assumes "\<bar>x\<bar> \<le> of_int n" "n < 2 ^ 53"
  shows "\<exists>r. round64 x = Finite r \<and> \<bar>r\<bar> \<le> of_int n"
proof -
  have n: "0 \<le> n" using order_trans [OF abs_ge_zero assms(1)] by simp
  have "rnd (- of_int n) \<le> rnd x" "rnd x \<le> rnd (of_int n)" using assms(1) by (auto intro!: rnd_mono simp: abs_le_iff)
  then have b: "\<bar>rnd x\<bar> \<le> of_int n" using rnd_int [of n] n assms(2) by (simp add: rnd_minus abs_le_iff)
  have "of_int n < (2::rat) ^ 1024"
  proof -
    have "n < 2 ^ 1024" by (rule less_le_trans [OF assms(2)]) simp
    then show ?thesis by (metis of_int_less_iff of_int_numeral of_int_power)
  qed
  then have "\<not> rnd x \<ge> 2 ^ 1024" "\<not> rnd x \<le> - (2 ^ 1024)" using b by linarith+
  then have "round64 x = Finite (rnd x)" by (simp add: round64_def Let_def)
  with b show ?thesis by blast
qed

lemma of_int64_exact:
  assumes "\<bar>n\<bar> < 2 ^ 53"
  shows "of_int64 n = Finite (of_int n)"
proof -
  obtain r where r: "round64 (of_int n) = Finite r" using round64_bound [of "of_int n" "\<bar>n\<bar>"] assms by auto
  then have "r = of_int n" using rnd_int [OF assms] by (auto simp: round64_def Let_def split: if_splits)
  with r show ?thesis by (simp add: of_int64_def)
qed

end
