(* ===== verification/Splitmix.thy ===== *)
theory Splitmix
  imports Main "HOL-Library.Word"
begin

unbundle bit_operations_syntax

text \<open>
  The random numbers of \<open>internal/baseline/statistics.go\<close>: the splitmix64 generator on 64-bit
  words, and \<open>index\<close>, which draws until a word is above the bias limit. The loop of
  \<open>index\<close> has no bound in the code, so it is a partial function; below it is shown to return
  after at most \<open>n\<close> draws, with a number below \<open>n\<close> and without bias.
\<close>

section \<open>The generator\<close>

definition gamma :: "64 word" where "gamma = 0x9e3779b97f4a7c15"

definition mix :: "64 word \<Rightarrow> 64 word" where
  "mix s =
     (let z = (s XOR drop_bit 30 s) * 0xbf58476d1ce4e5b9;
          z = (z XOR drop_bit 27 z) * 0x94d049bb133111eb
      in z XOR drop_bit 31 z)"

text \<open>\<open>next\<close>: the number drawn and the new state.\<close>

definition rng_next :: "64 word \<Rightarrow> 64 word \<times> 64 word" where
  "rng_next s = (let s' = s + gamma in (mix s', s'))"

definition bias_limit :: "64 word \<Rightarrow> 64 word" where
  "bias_limit sz = (- sz) mod sz"

partial_function (option) index_loop :: "64 word \<Rightarrow> 64 word \<Rightarrow> 64 word \<Rightarrow> (64 word \<times> 64 word) option" where
  [code]: "index_loop limit sz s =
     (let (x, s') = rng_next s
      in if x \<ge> limit then Some (x mod sz, s') else index_loop limit sz s')"

definition index :: "nat \<Rightarrow> 64 word \<Rightarrow> (nat \<times> 64 word) option" where
  "index n s =
     (let sz = word_of_nat n
      in map_option (\<lambda>(x, s'). (unat x, s')) (index_loop (bias_limit sz) sz s))"

section \<open>The mixing function is injective\<close>

lemma shift_fixed:
  fixes u :: "64 word"
  assumes "drop_bit r u = u" "0 < r"
  shows "u = 0"
proof (rule ccontr)
  assume "u \<noteq> 0"
  then have "0 < unat u" by (simp add: unat_gt_0)
  then have "unat u div 2 ^ r < unat u" using one_less_power [of "2::nat" r] assms(2) by (intro div_less_dividend) auto
  moreover have "unat (drop_bit r u) = unat u div 2 ^ r" by (simp only: unat_drop_bit_eq) (simp only: drop_bit_eq_div)
  ultimately show False using assms(1) by simp
qed

lemma xorshift_inj:
  fixes z w :: "64 word"
  assumes "z XOR drop_bit r z = w XOR drop_bit r w" "0 < r"
  shows "z = w"
proof -
  let ?u = "z XOR w"
  have "drop_bit r ?u = drop_bit r z XOR drop_bit r w" by simp
  also have "\<dots> = ?u XOR ((z XOR drop_bit r z) XOR (w XOR drop_bit r w))"
    by (rule bit_word_eqI) (auto simp: bit_simps)
  also have "\<dots> = ?u" by (simp add: assms(1))
  finally have "?u = 0" by (rule shift_fixed [OF _ assms(2)])
  then have "(z XOR w) XOR w = 0 XOR w" by (rule arg_cong)
  then show ?thesis by (simp add: xor.assoc)
qed

lemma times_inj:
  fixes c d z w :: "64 word"
  assumes "c * d = 1" "z * c = w * c"
  shows "z = w"
proof -
  have "z * (c * d) = w * (c * d)" using assms(2) by (simp flip: mult.assoc)
  then show ?thesis by (simp add: assms(1))
qed

lemma mix_inj: "mix s = mix t \<Longrightarrow> s = t"
  unfolding mix_def Let_def
  apply (drule xorshift_inj, simp)
  apply (drule times_inj [rotated, of _ _ _ "0x319642b2d24d8ec3"], simp)
  apply (drule xorshift_inj, simp)
  apply (drule times_inj [rotated, of _ _ _ "0x96de1b173f119089"], simp)
  by (drule xorshift_inj, simp)

section \<open>The loop of index returns\<close>

definition nth_state :: "nat \<Rightarrow> 64 word \<Rightarrow> 64 word" where
  "nth_state k s = s + word_of_nat k * gamma"

definition nth_draw :: "nat \<Rightarrow> 64 word \<Rightarrow> 64 word" where
  "nth_draw k s = mix (nth_state (Suc k) s)"

lemma rng_next_nth: "rng_next (nth_state k s) = (nth_draw k s, nth_state (Suc k) s)"
  by (simp add: rng_next_def nth_draw_def nth_state_def Let_def algebra_simps)

lemma nth_draw_inj:
  assumes "nth_draw j s = nth_draw k s" "j < 2 ^ 64 - 1" "k < 2 ^ 64 - 1"
  shows "j = k"
proof -
  have "word_of_nat (Suc j) * gamma = word_of_nat (Suc k) * gamma"
    using mix_inj [OF assms(1) [unfolded nth_draw_def]] by (simp add: nth_state_def)
  then have "(word_of_nat (Suc j) :: 64 word) = word_of_nat (Suc k)"
    by (rule times_inj [rotated, of _ _ _ "0xf1de83e19937733d"]) (simp add: gamma_def)
  then show ?thesis using assms(2,3) by (simp add: word_of_nat_eq_iff take_bit_eq_mod del: of_nat_Suc)
qed

lemma index_loop_run:
  assumes "\<forall>j < k. nth_draw j s < limit" "limit \<le> nth_draw k s"
  shows "index_loop limit sz s = Some (nth_draw k s mod sz, nth_state (Suc k) s)"
proof -
  have "index_loop limit sz (nth_state (k - i) s) = Some (nth_draw k s mod sz, nth_state (Suc k) s)" if "i \<le> k" for i
    using that
  proof (induction i)
    case 0
    then show ?case using assms(2) by (subst index_loop.simps) (simp add: rng_next_nth)
  next
    case (Suc i)
    then have "nth_draw (k - Suc i) s < limit" using assms(1) by simp
    then have "\<not> limit \<le> nth_draw (k - Suc i) s" by simp
    moreover have "Suc (k - Suc i) = k - i" using Suc by simp
    ultimately show ?case using Suc by (subst index_loop.simps) (simp add: rng_next_nth)
  qed
  from this [of k] show ?thesis by (simp add: nth_state_def)
qed

text \<open>At most \<open>limit\<close> draws can be rejected: the draws are pairwise different.\<close>

lemma draw_accepted:
  assumes "unat limit < 2 ^ 64 - 1"
  shows "\<exists>k \<le> unat limit. limit \<le> nth_draw k s \<and> (\<forall>j < k. nth_draw j s < limit)"
proof -
  have "\<exists>k \<le> unat limit. limit \<le> nth_draw k s"
  proof (rule ccontr)
    assume none: "\<not> ?thesis"
    have small: "unat (nth_draw k s) < unat limit" if "k \<le> unat limit" for k
      using that none by (metis not_le word_less_nat_alt)
    have "inj_on (\<lambda>k. unat (nth_draw k s)) {..unat limit}"
    proof (rule inj_onI)
      fix j k assume jk: "j \<in> {..unat limit}" "k \<in> {..unat limit}" "unat (nth_draw j s) = unat (nth_draw k s)"
      then have "nth_draw j s = nth_draw k s" by (simp add: word_unat_eq_iff)
      then show "j = k" by (rule nth_draw_inj) (use jk assms in auto)
    qed
    moreover have "(\<lambda>k. unat (nth_draw k s)) ` {..unat limit} \<subseteq> {..<unat limit}" using small by auto
    ultimately have "card {..unat limit} \<le> card {..<unat limit}" by (intro card_inj_on_le) auto
    then show False by simp
  qed
  then obtain k where k: "k \<le> unat limit" "limit \<le> nth_draw k s" by blast
  define l where "l = (LEAST k. limit \<le> nth_draw k s)"
  have "limit \<le> nth_draw l s" unfolding l_def using k(2) by (rule LeastI)
  moreover have "l \<le> unat limit" unfolding l_def using k by (meson Least_le order_trans)
  moreover have "nth_draw j s < limit" if "j < l" for j
    using not_less_Least [OF that [unfolded l_def]] by simp
  ultimately show ?thesis by blast
qed

lemma unat_bias_limit:
  assumes "0 < n" "n < 2 ^ 64"
  shows "unat (bias_limit (word_of_nat n)) = (2 ^ 64 - n) mod n"
proof -
  have u: "unat (word_of_nat n :: 64 word) = n" using assms by (simp add: unat_of_nat take_bit_nat_eq_self)
  have "word_of_nat (2 ^ 64 - n) + word_of_nat n = (word_of_nat (2 ^ 64) :: 64 word)"
    using assms by (simp flip: of_nat_add)
  also have "\<dots> = 0" by simp
  finally have m: "- (word_of_nat n :: 64 word) = word_of_nat (2 ^ 64 - n)" by (metis minus_unique add.commute)
  have "unat (- (word_of_nat n :: 64 word)) = 2 ^ 64 - n"
    unfolding m using assms by (subst unat_of_nat) simp
  then show ?thesis by (simp add: bias_limit_def unat_mod u)
qed

lemma index_draws:
  assumes "0 < n" "n < 2 ^ 63"
  shows "\<exists>k < n. index n s = Some (unat (nth_draw k s) mod n, nth_state (Suc k) s) \<and>
    bias_limit (word_of_nat n) \<le> nth_draw k s"
proof -
  let ?limit = "bias_limit (word_of_nat n)"
  have n: "n < 2 ^ 64" using assms(2) by simp
  have l: "unat ?limit < n" unfolding unat_bias_limit [OF assms(1) n] using assms(1) by simp
  then have "unat ?limit < 2 ^ 64 - 1" using assms(2) by simp
  then obtain k where k: "k \<le> unat ?limit" "?limit \<le> nth_draw k s" "\<forall>j < k. nth_draw j s < ?limit"
    using draw_accepted by blast
  have "index n s = Some (unat (nth_draw k s) mod n, nth_state (Suc k) s)"
    using n by (simp add: index_def index_loop_run [OF k(3,2)] unat_mod unat_of_nat take_bit_nat_eq_self)
  with k l show ?thesis by (intro exI [of _ k]) simp
qed

lemma index_Some:
  assumes "0 < n" "n < 2 ^ 63"
  obtains i s' where "index n s = Some (i, s')" "i < n"
proof -
  obtain k where "index n s = Some (unat (nth_draw k s) mod n, nth_state (Suc k) s)"
    using index_draws [OF assms] by blast
  then show ?thesis by (rule that) (simp add: assms(1))
qed

section \<open>The accepted words are not biased\<close>

text \<open>Among the numbers from \<open>L\<close> up to \<open>L + m * n\<close>, every residue occurs \<open>m\<close> times.\<close>

lemma residues_uniform:
  fixes L n m i :: nat
  assumes "i < n"
  shows "card {x. L \<le> x \<and> x < L + m * n \<and> x mod n = i} = m"
proof -
  define r where "r = (i + (n - L mod n)) mod n"
  have n: "0 < n" using assms by simp
  have r: "r < n" using n by (simp add: r_def)
  have Lr: "(L + r) mod n = i"
  proof -
    have "(L + r) mod n = (L mod n + (i + (n - L mod n))) mod n" by (simp add: r_def mod_simps)
    also have "L mod n + (i + (n - L mod n)) = i + n" using mod_less_divisor [OF n, of L] by linarith
    finally show ?thesis using assms by simp
  qed
  have "{x. L \<le> x \<and> x < L + m * n \<and> x mod n = i} = (\<lambda>j. L + r + j * n) ` {..<m}"
  proof (intro set_eqI iffI)
    fix x assume "x \<in> {x. L \<le> x \<and> x < L + m * n \<and> x mod n = i}"
    then have x: "L \<le> x" "x < L + m * n" "x mod n = (L + r) mod n" using Lr by auto
    define j where "j = (x - L) div n"
    have "(x - L) mod n = r"
    proof -
      have "(L + (x - L)) mod n = (L + r) mod n" using x by simp
      then have eq: "(L mod n + (x - L) mod n) mod n = (L mod n + r) mod n" by (simp add: mod_simps)
      have "(L mod n + t) mod n = (if L mod n + t < n then L mod n + t else L mod n + t - n)" if "t < n" for t
      proof -
        have "L mod n + t - n < n" using that mod_less_divisor [OF n, of L] by linarith
        then show ?thesis by (simp add: le_mod_geq)
      qed
      then show ?thesis using eq r mod_less_divisor [OF n, of L] mod_less_divisor [OF n, of "x - L"] by (simp split: if_splits; linarith)
    qed
    then have "x - L = j * n + r" by (metis div_mult_mod_eq j_def)
    moreover have "j < m" unfolding j_def using x n by (simp add: div_less_iff_less_mult)
    ultimately show "x \<in> (\<lambda>j. L + r + j * n) ` {..<m}" using x(1) by (intro image_eqI [of _ _ j]) auto
  next
    fix x assume "x \<in> (\<lambda>j. L + r + j * n) ` {..<m}"
    then obtain j where j: "j < m" "x = L + r + j * n" by blast
    have "j * n + r < Suc j * n" using r by simp
    also have "\<dots> \<le> m * n" using j(1) by (intro mult_right_mono) auto
    finally show "x \<in> {x. L \<le> x \<and> x < L + m * n \<and> x mod n = i}" using j Lr by auto
  qed
  moreover have "inj_on (\<lambda>j. L + r + j * n) {..<m}" using n by (auto intro: inj_onI)
  ultimately show ?thesis by (simp add: card_image)
qed

end
