(* ===== verification/Statistics.thy ===== *)
theory Statistics
  imports Prelude Go_Float Splitmix
begin

text \<open>
  \<open>internal/baseline/statistics.go\<close>: the stratified bootstrap over task families. The numbers
  are \<open>float64\<close> with rounding; the resampling draws from the splitmix64 generator, so the
  result is an option, \<open>None\<close> standing for a draw that never returns. Below it is shown that
  the bootstrap always returns, does not depend on the order of its input, and reports an ordered
  interval exactly when its status is \<open>estimated\<close>.
\<close>

record cluster =
  ct_family :: string
  ct_domain :: string
  ct_difference :: float64

record interval =
  iv_algorithm :: string
  iv_seed :: "64 word"
  iv_samples :: nat
  iv_families :: nat
  iv_observed :: float64
  iv_lower :: "float64 option"
  iv_upper :: "float64 option"
  iv_status :: string
  iv_population :: string

definition Algorithm :: string where "Algorithm = ''stratified-family-bootstrap-v1''"

definition population :: string where
  "population = ''selected families in the two declared synthetic domains; no AGI inference''"

definition bootstrapSamples :: nat where "bootstrapSamples = 10000"

definition initial_interval :: "nat \<Rightarrow> 64 word \<Rightarrow> interval" where
  "initial_interval families seed =
     \<lparr>iv_algorithm = Algorithm, iv_seed = seed, iv_samples = bootstrapSamples, iv_families = families, iv_observed = Finite 0,
      iv_lower = None, iv_upper = None, iv_status = ''insufficient-sample'', iv_population = population\<rparr>"

section \<open>Grouping the clusters\<close>

definition family_less :: "cluster \<Rightarrow> cluster \<Rightarrow> bool" where
  "family_less x y = (ct_family x < ct_family y)"

definition bad_cluster :: "string list \<Rightarrow> cluster \<Rightarrow> bool" where
  "bad_cluster seen c =
     (ct_family c \<in> set seen \<or> ct_domain c = [] \<or> is_NaN (ct_difference c) \<or> is_Inf (ct_difference c) \<or>
      flt (ct_difference c) (Finite (- 1)) \<or> flt (Finite 1) (ct_difference c))"

text \<open>The groups by domain in the order of their keys, or nothing for an invalid cluster.\<close>

fun group_clusters :: "string list \<Rightarrow> float64 list gomap \<Rightarrow> cluster list \<Rightarrow> float64 list gomap option" where
  "group_clusters seen groups [] = Some groups"
| "group_clusters seen groups (c # cs) =
     (if bad_cluster seen c then None
      else group_clusters (ct_family c # seen)
        (put (ct_domain c) ((case map_of groups (ct_domain c) of None \<Rightarrow> [] | Some vs \<Rightarrow> vs) @ [ct_difference c]) groups) cs)"

text \<open>\<open>2 * float64(len(values))\<close>.\<close>

definition weight_of :: "float64 list \<Rightarrow> float64" where
  "weight_of values = fmul_fin (Finite 2) (of_int64 (int (length values)))"

definition observed :: "float64 list list \<Rightarrow> float64" where
  "observed groups = foldl (\<lambda>acc values. foldl (\<lambda>acc v. fadd acc (fdiv_pos v (weight_of values))) acc values) (Finite 0) groups"

section \<open>Resampling\<close>

fun draw_sum :: "float64 list \<Rightarrow> nat \<Rightarrow> float64 \<Rightarrow> 64 word \<Rightarrow> (float64 \<times> 64 word) option" where
  "draw_sum values 0 acc s = Some (acc, s)"
| "draw_sum values (Suc k) acc s =
     (case index (length values) s of
        None \<Rightarrow> None
      | Some (i, s') \<Rightarrow> draw_sum values k (fadd acc (values ! i)) s')"

fun draw_sample :: "float64 list list \<Rightarrow> float64 \<Rightarrow> 64 word \<Rightarrow> (float64 \<times> 64 word) option" where
  "draw_sample [] acc s = Some (acc, s)"
| "draw_sample (values # groups) acc s =
     (case draw_sum values (length values) (Finite 0) s of
        None \<Rightarrow> None
      | Some (t, s') \<Rightarrow> draw_sample groups (fadd acc (fdiv_pos t (weight_of values))) s')"

fun draw_samples :: "float64 list list \<Rightarrow> nat \<Rightarrow> 64 word \<Rightarrow> (float64 list \<times> 64 word) option" where
  "draw_samples groups 0 s = Some ([], s)"
| "draw_samples groups (Suc k) s =
     (case draw_sample groups (Finite 0) s of
        None \<Rightarrow> None
      | Some (x, s') \<Rightarrow> (case draw_samples groups k s' of None \<Rightarrow> None | Some (xs, s'') \<Rightarrow> Some (x # xs, s'')))"

text \<open>\<open>sort.Float64s\<close>: ascending, NaN first.\<close>

definition float_less :: "float64 \<Rightarrow> float64 \<Rightarrow> bool" where
  "float_less x y = (flt x y \<or> (is_NaN x \<and> \<not> is_NaN y))"

section \<open>The bootstrap\<close>

definition estimate :: "float64 list \<Rightarrow> interval \<Rightarrow> interval" where
  "estimate xs r =
     (if float_eq (xs ! 0) (xs ! (length xs - 1)) then r\<lparr>iv_status := ''degenerate''\<rparr>
      else r\<lparr>iv_lower := Some (xs ! 249), iv_upper := Some (xs ! 9749), iv_status := ''estimated''\<rparr>)"

definition Bootstrap :: "cluster list \<Rightarrow> int \<Rightarrow> 64 word \<Rightarrow> interval option" where
  "Bootstrap input repeats seed =
     (let result = initial_interval (length input) seed; clusters = sort_by family_less input
      in case group_clusters [] [] clusters of
           None \<Rightarrow> Some (result\<lparr>iv_status := ''invalid''\<rparr>)
         | Some m \<Rightarrow>
             let groups = map snd m
             in if length groups \<noteq> 2 then Some result
                else
                  let result = result\<lparr>iv_observed := observed groups\<rparr>
                  in if repeats < 3 \<or> length clusters < 20 \<or> length (groups ! 0) < 8 \<or> length (groups ! 1) < 8 then Some result
                     else (case draw_samples groups bootstrapSamples seed of
                             None \<Rightarrow> None
                           | Some (samples, _) \<Rightarrow> Some (estimate (sort_by float_less samples) result)))"

text \<open>\<open>invalidInterval\<close> of \<open>decision.go\<close>.\<close>

definition invalidInterval :: "nat \<Rightarrow> 64 word \<Rightarrow> interval" where
  "invalidInterval families seed =
     (initial_interval 0 seed)\<lparr>iv_status := ''invalid'', iv_families := families, iv_samples := 0\<rparr>"

lemma Bootstrap_empty: "Bootstrap [] 0 seed = Some (initial_interval 0 seed)"
  by (simp add: Bootstrap_def Let_def)

section \<open>The order of the input does not matter\<close>

text \<open>A duplicate family is found in whatever order the clusters come.\<close>

lemma group_clusters_None:
  "group_clusters seen m cs = None \<longleftrightarrow>
     (\<exists>c \<in> set cs. bad_cluster seen c) \<or> \<not> distinct (map ct_family cs)"
proof (induction cs arbitrary: seen m)
  case (Cons c cs)
  show ?case
  proof (cases "bad_cluster seen c")
    case False
    have "bad_cluster (ct_family c # seen) x \<longleftrightarrow> ct_family c = ct_family x \<or> bad_cluster seen x" for x
      by (auto simp: bad_cluster_def)
    with False Cons show ?thesis by (auto simp: image_iff)
  qed simp
qed simp

lemma cluster_order:
  "strict_order_on family_less (\<lambda>c. c \<in> S)" if "inj_on ct_family S"
proof
  fix x y assume "x \<in> S" "y \<in> S" "x \<noteq> y"
  then have "ct_family x \<noteq> ct_family y" using that by (auto dest: inj_onD)
  then show "family_less x y \<or> family_less y x" by (auto simp: family_less_def)
qed (auto simp: family_less_def)

lemma Bootstrap_perm:
  assumes "mset xs = mset ys"
  shows "Bootstrap xs repeats seed = Bootstrap ys repeats seed"
proof (cases "distinct (map ct_family xs)")
  case True
  have s: "set xs = set ys" by (rule mset_eq_setD [OF assms])
  have "mset (map ct_family xs) = mset (map ct_family ys)" using assms by simp
  then have "distinct (map ct_family ys)" using True mset_eq_imp_distinct_iff by blast
  then have d: "distinct xs" "distinct ys" "inj_on ct_family (set xs)" using True by (auto simp: distinct_map)
  have "sort_by family_less ys = sort_by family_less xs"
    by (rule strict_order_on.sort_by_perm [OF cluster_order [OF d(3)]]) (use s d in auto)
  with mset_eq_length [OF assms] show ?thesis by (simp add: Bootstrap_def)
next
  case False
  have "group_clusters [] [] (sort_by family_less zs) = None" if "mset zs = mset xs" for zs
  proof -
    have "mset (map ct_family (sort_by family_less zs)) = mset (map ct_family xs)" using that by simp
    then have "\<not> distinct (map ct_family (sort_by family_less zs))" using False mset_eq_imp_distinct_iff by blast
    then show ?thesis unfolding group_clusters_None by blast
  qed
  from this [of xs] this [of ys] mset_eq_length [OF assms] assms show ?thesis by (simp add: Bootstrap_def)
qed

section \<open>The bootstrap returns finite samples\<close>

definition unit_value :: "float64 \<Rightarrow> bool" where
  "unit_value v = (\<exists>r. v = Finite r \<and> \<bar>r\<bar> \<le> 1)"

lemma good_cluster: "\<not> bad_cluster seen c \<Longrightarrow> unit_value (ct_difference c)"
  by (cases "ct_difference c") (auto simp: bad_cluster_def unit_value_def is_NaN_def is_Inf_def flt_def)

definition groups_ok :: "nat \<Rightarrow> float64 list list \<Rightarrow> bool" where
  "groups_ok n gs = (\<forall>g \<in> set gs. g \<noteq> [] \<and> length g \<le> n \<and> (\<forall>v \<in> set g. unit_value v))"

lemma group_clusters_ok:
  assumes "group_clusters seen m cs = Some m'" "groups_ok n (map snd m)" "n + length cs \<le> k"
  shows "groups_ok k (map snd m')"
  using assms
proof (induction cs arbitrary: seen m n)
  case Nil
  then show ?case by (force simp: groups_ok_def)
next
  case (Cons c cs)
  define old where "old = (case map_of m (ct_domain c) of None \<Rightarrow> [] | Some vs \<Rightarrow> vs)"
  let ?m = "put (ct_domain c) (old @ [ct_difference c]) m"
  have rest: "\<not> bad_cluster seen c" "group_clusters (ct_family c # seen) ?m cs = Some m'"
    using Cons.prems(1) by (simp_all add: old_def split: if_splits)
  have old: "length old \<le> n \<and> (\<forall>v \<in> set old. unit_value v)"
  proof (cases "map_of m (ct_domain c)")
    case (Some vs)
    then have "vs \<in> set (map snd m)" by (force dest: map_of_SomeD)
    then show ?thesis using Cons.prems(2) Some by (auto simp: groups_ok_def old_def)
  qed (simp add: old_def)
  have "groups_ok (Suc n) (map snd ?m)"
    unfolding groups_ok_def
  proof
    fix g assume "g \<in> set (map snd ?m)"
    then obtain e where "e \<in> set ?m" "g = snd e" by auto
    then have "g = old @ [ct_difference c] \<or> g \<in> set (map snd m)" using set_put by fastforce
    then show "g \<noteq> [] \<and> length g \<le> Suc n \<and> (\<forall>v \<in> set g. unit_value v)"
      using old good_cluster [OF rest(1)] Cons.prems(2) by (auto simp: groups_ok_def)
  qed
  then show ?case by (rule Cons.IH [OF rest(2)]) (use Cons.prems(3) in simp)
qed

lemma fadd_bound:
  assumes "\<bar>a\<bar> \<le> of_nat k" "\<bar>b\<bar> \<le> 1" "Suc k < 2 ^ 53"
  shows "\<exists>r. fadd (Finite a) (Finite b) = Finite r \<and> \<bar>r\<bar> \<le> of_nat (Suc k)"
proof -
  have "\<bar>a + b\<bar> \<le> of_int (int (Suc k))" using assms(1,2) by (simp add: abs_le_iff)
  from round64_bound [OF this] show ?thesis using assms(3) by simp
qed

lemma draw_sum_ok:
  assumes "values \<noteq> []" "length values < 2 ^ 53" "\<forall>v \<in> set values. unit_value v" "\<bar>a\<bar> \<le> of_nat j" "j + k < 2 ^ 53"
  shows "\<exists>r s'. draw_sum values k (Finite a) s = Some (Finite r, s') \<and> \<bar>r\<bar> \<le> of_nat (j + k)"
  using assms(4,5)
proof (induction k arbitrary: a j s)
  case (Suc k)
  obtain i s' where i: "index (length values) s = Some (i, s')" "i < length values"
    by (rule index_Some [of "length values" s]) (use assms(1,2) in auto)
  then have "unit_value (values ! i)" using assms(3) by simp
  then obtain b where b: "values ! i = Finite b" "\<bar>b\<bar> \<le> 1" unfolding unit_value_def by blast
  obtain c where c: "fadd (Finite a) (Finite b) = Finite c" "\<bar>c\<bar> \<le> of_nat (Suc j)"
    using fadd_bound [OF Suc.prems(1) b(2)] Suc.prems(2) by auto
  show ?case using Suc.IH [OF c(2), of s'] Suc.prems(2) i(1) b(1) c(1) by simp
qed auto

lemma weight_value:
  assumes "length values < 2 ^ 52"
  shows "weight_of values = Finite (2 * of_nat (length values))"
proof -
  let ?n = "int (length values)"
  have "of_int64 ?n = Finite (of_int ?n)" by (rule of_int64_exact) (use assms in simp)
  moreover have "of_int64 (2 * ?n) = Finite (of_int (2 * ?n))" by (rule of_int64_exact) (use assms in simp)
  ultimately show ?thesis by (simp add: weight_of_def of_int64_def)
qed

lemma draw_sample_ok:
  assumes "groups_ok n gs" "n < 2 ^ 52" "\<bar>a\<bar> \<le> of_nat j" "j + length gs < 2 ^ 53"
  shows "\<exists>r s'. draw_sample gs (Finite a) s = Some (Finite r, s')"
  using assms(1,3,4)
proof (induction gs arbitrary: a j s)
  case (Cons g gs)
  then have g: "g \<noteq> []" "length g < 2 ^ 52" "\<forall>v \<in> set g. unit_value v" and rest: "groups_ok n gs"
    using assms(2) by (auto simp: groups_ok_def)
  obtain r s' where r: "draw_sum g (length g) (Finite 0) s = Some (Finite r, s')" "\<bar>r\<bar> \<le> of_nat (length g)"
    using draw_sum_ok [of g 0 0 "length g" s] g by auto
  have "\<bar>r / (2 * of_nat (length g))\<bar> \<le> of_int 1" using r(2) g(1) by (simp add: abs_divide divide_le_eq)
  from round64_bound [OF this] obtain q where q: "fdiv_pos (Finite r) (weight_of g) = Finite q" "\<bar>q\<bar> \<le> 1"
    using weight_value [OF g(2)] by auto
  obtain c where c: "fadd (Finite a) (Finite q) = Finite c" "\<bar>c\<bar> \<le> of_nat (Suc j)"
    using fadd_bound [OF Cons.prems(2) q(2)] Cons.prems(3) by auto
  show ?case using Cons.IH [OF rest c(2), of s'] Cons.prems(3) r(1) q(1) c(1) by simp
qed simp

lemma draw_samples_ok:
  assumes "groups_ok n gs" "n < 2 ^ 52" "length gs < 2 ^ 53"
  shows "\<exists>xs s'. draw_samples gs k s = Some (xs, s') \<and> length xs = k \<and> (\<forall>x \<in> set xs. \<exists>r. x = Finite r)"
proof (induction k arbitrary: s)
  case (Suc k)
  obtain r s' where r: "draw_sample gs (Finite 0) s = Some (Finite r, s')"
    using draw_sample_ok [OF assms(1,2), of 0 0 s] assms(3) by auto
  obtain xs s'' where "draw_samples gs k s' = Some (xs, s'')" "length xs = k" "\<forall>x \<in> set xs. \<exists>r. x = Finite r"
    using Suc by blast
  with r show ?case by simp
qed simp

section \<open>The interval is ordered\<close>

lemma sorted_insert_float:
  "\<forall>y \<in> set (x # ys). \<exists>r. y = Finite r \<Longrightarrow> sorted_wrt fle ys \<Longrightarrow> sorted_wrt fle (insert_by float_less x ys)"
proof (induction ys)
  case (Cons y ys)
  then obtain a b where ab: "x = Finite a" "y = Finite b" by auto
  show ?case
  proof (cases "float_less x y")
    case True
    then have "fle x y" by (auto simp: float_less_def flt_def is_NaN_def ab)
    with True Cons.prems show ?thesis by (auto intro: fle_trans)
  next
    case False
    then have "fle y x" by (auto simp: float_less_def flt_def is_NaN_def ab)
    with False Cons show ?thesis by auto
  qed
qed simp

lemma sorted_floats: "\<forall>y \<in> set xs. \<exists>r. y = Finite r \<Longrightarrow> sorted_wrt fle (sort_by float_less xs)"
  by (induction xs) (auto intro!: sorted_insert_float)

lemma estimate_ordered:
  assumes "sorted_wrt fle xs" "length xs = bootstrapSamples" "iv_lower r = None" "iv_upper r = None" "iv_status r \<noteq> ''estimated''"
  shows "rel_option fle (iv_lower (estimate xs r)) (iv_upper (estimate xs r)) \<and>
    (iv_lower (estimate xs r) \<noteq> None) = (iv_status (estimate xs r) = ''estimated'')"
proof -
  have "fle (xs ! 249) (xs ! 9749)" by (rule sorted_wrt_nth_less [OF assms(1)]) (simp_all add: assms(2) bootstrapSamples_def)
  then show ?thesis using assms(3-5) by (simp add: estimate_def)
qed

lemma Bootstrap_result:
  assumes "length input < 2 ^ 52"
  shows "\<exists>r. Bootstrap input repeats seed = Some r \<and> rel_option fle (iv_lower r) (iv_upper r) \<and>
    (iv_lower r \<noteq> None) = (iv_status r = ''estimated'')"
proof (cases "group_clusters [] [] (sort_by family_less input)")
  case None
  then show ?thesis by (simp add: Bootstrap_def initial_interval_def)
next
  case (Some m)
  let ?groups = "map snd m" and ?r = "(initial_interval (length input) seed)\<lparr>iv_observed := observed (map snd m)\<rparr>"
  have plain: "iv_lower ?r = None" "iv_upper ?r = None" "iv_status ?r = ''insufficient-sample''"
    by (simp_all add: initial_interval_def)
  show ?thesis
  proof (cases "length ?groups = 2 \<and> \<not> (repeats < 3 \<or> length (sort_by family_less input) < 20 \<or> length (?groups ! 0) < 8 \<or> length (?groups ! 1) < 8)")
    case False
    then show ?thesis using Some plain by (auto simp: Bootstrap_def Let_def initial_interval_def)
  next
    case True
    have ok: "groups_ok (length input) ?groups"
      by (rule group_clusters_ok [OF Some, of 0]) (simp_all add: groups_ok_def)
    obtain xs s' where xs: "draw_samples ?groups bootstrapSamples seed = Some (xs, s')" "length xs = bootstrapSamples" "\<forall>x \<in> set xs. \<exists>r. x = Finite r"
      using draw_samples_ok [OF ok assms, of bootstrapSamples seed] True by auto
    have "Bootstrap input repeats seed = Some (estimate (sort_by float_less xs) ?r)"
      using Some True xs(1) by (simp add: Bootstrap_def Let_def del: nth_map)
    moreover have "length (sort_by float_less xs) = bootstrapSamples" using xs(2) by simp
    ultimately show ?thesis
      using estimate_ordered [OF sorted_floats [OF xs(3)], of ?r] plain by simp
  qed
qed

end
