(* ===== verification/Task.thy ===== *)
theory Task
  imports Scenario_Facts Go_Float
begin

text \<open>
  \<open>internal/task/task.go\<close>: the agent task document, its admission (\<open>Validate\<close>), the
  portable path rule, the scalar authority rules and the admission of a tool surface. Values
  decoded from YAML or JSON keep their Go type, because \<open>ScalarEqual\<close> looks at it. Reading
  and decoding the file is delegated to the strict YAML decoder and left out.
\<close>

section \<open>Values of type any\<close>

datatype goval =
    GNil
  | GBool bool
  | GInt int
  | GInt64 int
  | GUint64 int
  | GFloat float64
  | GString string
  | GList "goval list"
  | GMap "(string \<times> goval) list"

text \<open>\<open>reflect.DeepEqual\<close>: same type and same value; NaN differs from itself.\<close>

fun deep_equal :: "goval \<Rightarrow> goval \<Rightarrow> bool"
  and deep_equal_list :: "goval list \<Rightarrow> goval list \<Rightarrow> bool"
  and deep_equal_map :: "(string \<times> goval) list \<Rightarrow> (string \<times> goval) list \<Rightarrow> bool" where
  "deep_equal GNil b = (b = GNil)"
| "deep_equal (GBool x) b = (b = GBool x)"
| "deep_equal (GInt x) b = (b = GInt x)"
| "deep_equal (GInt64 x) b = (b = GInt64 x)"
| "deep_equal (GUint64 x) b = (b = GUint64 x)"
| "deep_equal (GFloat x) b = (case b of GFloat y \<Rightarrow> float_eq x y | _ \<Rightarrow> False)"
| "deep_equal (GString x) b = (b = GString x)"
| "deep_equal (GList xs) b = (case b of GList ys \<Rightarrow> deep_equal_list xs ys | _ \<Rightarrow> False)"
| "deep_equal (GMap xs) b = (case b of GMap ys \<Rightarrow> deep_equal_map xs ys | _ \<Rightarrow> False)"
| "deep_equal_list [] ys = (ys = [])"
| "deep_equal_list (x # xs) ys = (case ys of [] \<Rightarrow> False | y # zs \<Rightarrow> deep_equal x y \<and> deep_equal_list xs zs)"
| "deep_equal_map [] ys = (ys = [])"
| "deep_equal_map (x # xs) ys =
     (case ys of [] \<Rightarrow> False | y # zs \<Rightarrow> fst x = fst y \<and> deep_equal (snd x) (snd y) \<and> deep_equal_map xs zs)"

fun scalar :: "goval \<Rightarrow> bool" where
  "scalar (GString _) = True"
| "scalar (GBool _) = True"
| "scalar (GInt _) = True"
| "scalar (GInt64 _) = True"
| "scalar (GFloat _) = True"
| "scalar _ = False"

text \<open>\<open>toInt\<close>: integers, and floats that are exactly representable integers.\<close>

fun toInt :: "goval \<Rightarrow> int option" where
  "toInt (GInt n) = Some n"
| "toInt (GInt64 n) = Some n"
| "toInt (GFloat (Finite q)) =
     (if - 9007199254740991 \<le> q \<and> q \<le> 9007199254740991 \<and> q = of_int \<lfloor>q\<rfloor> then Some \<lfloor>q\<rfloor> else None)"
| "toInt _ = None"

definition ScalarEqual :: "goval \<Rightarrow> goval \<Rightarrow> bool" where
  "ScalarEqual a b =
     (deep_equal a b \<or> (case (toInt a, toInt b) of (Some x, Some y) \<Rightarrow> x = y | _ \<Rightarrow> False))"

section \<open>Portable paths\<close>

fun join_with :: "char \<Rightarrow> string list \<Rightarrow> string" where
  "join_with c [] = []"
| "join_with c [s] = s"
| "join_with c (s # t # ts) = s @ c # join_with c (t # ts)"

text \<open>\<open>path.Clean\<close>: the elements kept so far are on a stack.\<close>

fun clean_elements :: "bool \<Rightarrow> string list \<Rightarrow> string list \<Rightarrow> string list" where
  "clean_elements rooted stack [] = rev stack"
| "clean_elements rooted stack (e # es) =
     (if e = [] \<or> e = ''.'' then clean_elements rooted stack es
      else if e = ''..'' then
        (if stack \<noteq> [] \<and> hd stack \<noteq> ''..'' then clean_elements rooted (tl stack) es
         else if rooted then clean_elements rooted stack es
         else clean_elements rooted (e # stack) es)
      else clean_elements rooted (e # stack) es)"

definition path_IsAbs :: "string \<Rightarrow> bool" where
  "path_IsAbs p = (p \<noteq> [] \<and> hd p = CHR ''/'')"

definition path_Clean :: "string \<Rightarrow> string" where
  "path_Clean p =
     (let body = join_with (CHR ''/'') (clean_elements (path_IsAbs p) [] (split_on (CHR ''/'') p))
      in if path_IsAbs p then CHR ''/'' # body else if body = [] then ''.'' else body)"

text \<open>\<open>strings.TrimRight(s, " .")\<close>.\<close>

definition trim_right_dots :: "string \<Rightarrow> string" where
  "trim_right_dots s = rev (dropWhile (\<lambda>c. c = CHR '' '' \<or> c = CHR ''.'') (rev s))"

definition unsafe_segment :: "string \<Rightarrow> bool" where
  "unsafe_segment s = (s = ''.'' \<or> s = ''..'' \<or> trim_right_dots s \<noteq> s)"

definition PortablePath :: "string \<Rightarrow> string + unit" where
  "PortablePath name =
     (if name = [] \<or> length name > 240 \<or> path_IsAbs name \<or> path_Clean name \<noteq> name \<or>
         (\<exists>c \<in> set name. c = CHR 0x5C \<or> c = CHR '':'' \<or> c = CHR 0x00)
      then Inl ''TASK_INVALID: unsafe bundle path''
      else if \<exists>s \<in> set (split_on (CHR ''/'') name). unsafe_segment s
      then Inl ''TASK_INVALID: unsafe bundle path''
      else Inr ())"

section \<open>The document\<close>

record rule =
  ru_tool :: string
  ru_equals :: "goval gomap"

record task_assertion =
  ta_id :: string
  ta_category :: string
  ta_expr :: string

record budgets =
  bu_modelRequests :: int
  bu_toolAttempts :: int
  bu_requestSeconds :: int
  bu_episodeSeconds :: int
  bu_cleanupSeconds :: int
  bu_responseBytes :: int
  bu_traceBytes :: int

record agent_task =
  tk_apiVersion :: string
  tk_kind :: string
  tk_format :: string
  tk_id :: string
  tk_revision :: string
  tk_domain :: string
  tk_bundle :: string
  tk_objective :: string
  tk_context :: string
  tk_mode :: string
  tk_tools :: "string list"
  tk_authority :: "rule list"
  tk_budgets :: budgets
  tk_oracle :: "task_assertion list"
  tk_expectedOutcome :: string
  tk_faultTool :: string

definition task_APIVersion :: string where "task_APIVersion = ''statetwin.dev/v1alpha1''"
definition task_Kind :: string where "task_Kind = ''AgentTask''"
definition task_Format :: string where "task_Format = ''statetwin.dev/agent-task/v1alpha1''"
definition MaxTaskBytes :: nat where "MaxTaskBytes = 262144"
definition MaxTaskAssertions :: nat where "MaxTaskAssertions = 64"
definition MaxTaskEvents :: nat where "MaxTaskEvents = 512"

text \<open>The pattern \<open>^[a-z][a-z0-9]*(?:[-_][a-z0-9]+)*$\<close> is the one of tool names.\<close>

definition task_id_ok :: "string \<Rightarrow> bool" where
  "task_id_ok s = (toolNamePattern s \<and> length s \<le> 128)"

definition budget_bounds :: "budgets \<Rightarrow> (int \<times> int) list" where
  "budget_bounds b =
     [(bu_modelRequests b, 16), (bu_toolAttempts b, 32), (bu_requestSeconds b, 30), (bu_episodeSeconds b, 180),
      (bu_cleanupSeconds b, 10), (bu_responseBytes b, 2 ^ 20), (bu_traceBytes b, 8 * 2 ^ 20)]"

definition Budgets_Validate :: "budgets \<Rightarrow> string + unit" where
  "Budgets_Validate b =
     (if \<exists>(value, maximum) \<in> set (budget_bounds b). value < 1 \<or> value > maximum
      then Inl ''TASK_INVALID: budget outside supported bounds''
      else if bu_traceBytes b < 64 * 1024 \<or> bu_requestSeconds b > bu_episodeSeconds b
      then Inl ''TASK_INVALID: inconsistent budget''
      else Inr ())"

section \<open>The JSON text of a document with floats\<close>

text \<open>
  \<open>strconv.AppendFloat\<close> with the shortest precision, in the form \<open>encoding/json\<close> uses: the
  fewest digits that read back as the same value, the nearest such decimal.
\<close>

fun lift10 :: "nat \<Rightarrow> rat \<Rightarrow> nat" where
  "lift10 0 x = 0"
| "lift10 (Suc n) x = (if x \<ge> 1 then 0 else Suc (lift10 n (10 * x)))"

definition exp10 :: "rat \<Rightarrow> int" where
  "exp10 x = (if x \<ge> 1 then int (length (dec \<lfloor>x\<rfloor>)) - 1 else - int (lift10 400 x))"

definition digits_at :: "rat \<Rightarrow> nat \<Rightarrow> int option" where
  "digits_at x k =
     (let u = 10 powi (exp10 x - int k + 1); down = \<lfloor>x / u\<rfloor>; up = down + 1;
          ok = (\<lambda>d. round64 (of_int d * u) = Finite x)
      in if ok down \<and> ok up then Some (if of_int up * u - x < x - of_int down * u then up else down)
         else if ok down then Some down
         else if ok up then Some up
         else None)"

fun shortest_from :: "nat \<Rightarrow> nat \<Rightarrow> rat \<Rightarrow> int \<times> int" where
  "shortest_from 0 k x = (0, 0)"
| "shortest_from (Suc n) k x =
     (case digits_at x k of Some d \<Rightarrow> (d, exp10 x - int k + 1) | None \<Rightarrow> shortest_from n (Suc k) x)"

definition zeros :: "nat \<Rightarrow> string" where "zeros n = replicate n (CHR ''0'')"

definition strip_trailing :: "string \<Rightarrow> string" where
  "strip_trailing s = rev (dropWhile (\<lambda>c. c = CHR ''0'') (rev s))"

definition fixed_text :: "string \<Rightarrow> int \<Rightarrow> string" where
  "fixed_text ds point =
     (if point \<le> 0 then ''0.'' @ zeros (nat (- point)) @ ds
      else if int (length ds) \<le> point then ds @ zeros (nat point - length ds)
      else take (nat point) ds @ CHR ''.'' # drop (nat point) ds)"

definition exponent_text :: "string \<Rightarrow> int \<Rightarrow> string" where
  "exponent_text ds point =
     (let e = point - 1
      in hd ds # (if tl ds = [] then [] else CHR ''.'' # tl ds) @ ''e'' @
         (if e < 0 then CHR ''-'' # dec (- e) else CHR ''+'' # dec e))"

definition float_text :: "rat \<Rightarrow> string" where
  "float_text q =
     (if q = 0 then ''0''
      else let x = \<bar>q\<bar>; (d, e) = shortest_from 17 1 x; ds = strip_trailing (dec d);
               point = e + int (length (dec d))
           in (if q < 0 then ''-'' else []) @
              (if x < 1 / 10 ^ 6 \<or> x \<ge> 10 ^ 21 then exponent_text ds point else fixed_text ds point))"

text \<open>A JSON value whose scalars are already encoded, and what \<open>limits.ValidateJSON\<close> measures.\<close>

datatype jtree = Leaf string | Arr "jtree list" | Obj "(string \<times> jtree) list"

primrec tree_text :: "jtree \<Rightarrow> string" where
  "tree_text (Leaf s) = s"
| "tree_text (Arr xs) = ''['' @ commas (map tree_text xs) @ '']''"
| "tree_text (Obj kvs) =
     ''{'' @ commas (map (\<lambda>(k, s). quote k @ '':'' @ s) (map (map_prod id tree_text) kvs)) @ ''}''"

primrec tree_depth :: "jtree \<Rightarrow> nat" where
  "tree_depth (Leaf s) = 0"
| "tree_depth (Arr xs) = foldr max (map (Suc \<circ> tree_depth) xs) 0"
| "tree_depth (Obj kvs) = foldr max (map (Suc \<circ> snd) (map (map_prod id tree_depth) kvs)) 0"

primrec tree_members :: "jtree \<Rightarrow> nat" where
  "tree_members (Leaf s) = 0"
| "tree_members (Arr xs) = length xs + sum_list (map tree_members xs)"
| "tree_members (Obj kvs) = length kvs + sum_list (map snd (map (map_prod id tree_members) kvs))"

definition tree_ok :: "jtree \<Rightarrow> nat \<Rightarrow> bool" where
  "tree_ok t maxBytes \<longleftrightarrow>
     length (tree_text t) \<le> maxBytes \<and> tree_depth t \<le> MaxJSONDepth \<and> tree_members t \<le> MaxJSONMembers"

text \<open>NaN and the infinities have no JSON text.\<close>

fun goval_tree :: "goval \<Rightarrow> jtree option"
  and goval_trees :: "goval list \<Rightarrow> jtree list option"
  and goval_fields :: "(string \<times> goval) list \<Rightarrow> (string \<times> jtree) list option" where
  "goval_tree GNil = Some (Leaf ''null'')"
| "goval_tree (GBool b) = Some (Leaf (if b then ''true'' else ''false''))"
| "goval_tree (GInt n) = Some (Leaf (dec_int n))"
| "goval_tree (GInt64 n) = Some (Leaf (dec_int n))"
| "goval_tree (GUint64 n) = Some (Leaf (dec_int n))"
| "goval_tree (GFloat x) = (case x of Finite q \<Rightarrow> Some (Leaf (float_text q)) | _ \<Rightarrow> None)"
| "goval_tree (GString s) = Some (Leaf (quote s))"
| "goval_tree (GList xs) = map_option Arr (goval_trees xs)"
| "goval_tree (GMap kvs) = map_option Obj (goval_fields kvs)"
| "goval_trees [] = Some []"
| "goval_trees (x # xs) =
     (case goval_tree x of None \<Rightarrow> None | Some t \<Rightarrow> map_option ((#) t) (goval_trees xs))"
| "goval_fields [] = Some []"
| "goval_fields (kv # kvs) =
     (case goval_tree (snd kv) of None \<Rightarrow> None | Some t \<Rightarrow> map_option ((#) (fst kv, t)) (goval_fields kvs))"

definition str_leaf :: "string \<Rightarrow> jtree" where "str_leaf s = Leaf (quote s)"
definition int_leaf :: "int \<Rightarrow> jtree" where "int_leaf n = Leaf (dec_int n)"

definition rule_tree :: "rule \<Rightarrow> jtree option" where
  "rule_tree r = map_option (\<lambda>fs. Obj [(''equals'', Obj fs), (''tool'', str_leaf (ru_tool r))]) (goval_fields (ru_equals r))"

definition budgets_tree :: "budgets \<Rightarrow> jtree" where
  "budgets_tree b = Obj
     [(''cleanupSeconds'', int_leaf (bu_cleanupSeconds b)), (''episodeSeconds'', int_leaf (bu_episodeSeconds b)),
      (''modelRequests'', int_leaf (bu_modelRequests b)), (''requestSeconds'', int_leaf (bu_requestSeconds b)),
      (''responseBytes'', int_leaf (bu_responseBytes b)), (''toolAttempts'', int_leaf (bu_toolAttempts b)),
      (''traceBytes'', int_leaf (bu_traceBytes b))]"

definition assertion_tree :: "task_assertion \<Rightarrow> jtree" where
  "assertion_tree a = Obj
     [(''category'', str_leaf (ta_category a)), (''expr'', str_leaf (ta_expr a)), (''id'', str_leaf (ta_id a))]"

fun all_some :: "'a option list \<Rightarrow> 'a list option" where
  "all_some [] = Some []"
| "all_some (x # xs) = (case x of None \<Rightarrow> None | Some y \<Rightarrow> map_option ((#) y) (all_some xs))"

definition task_tree :: "agent_task \<Rightarrow> jtree option" where
  "task_tree t = map_option (\<lambda>authority. Obj
     ([(''apiVersion'', str_leaf (tk_apiVersion t)), (''authority'', Arr authority), (''budgets'', budgets_tree (tk_budgets t)),
       (''bundle'', str_leaf (tk_bundle t))] @
      (if tk_context t = [] then [] else [(''context'', str_leaf (tk_context t))]) @
      [(''domain'', str_leaf (tk_domain t)), (''expectedOutcome'', str_leaf (tk_expectedOutcome t))] @
      (if tk_faultTool t = [] then [] else [(''faultTool'', str_leaf (tk_faultTool t))]) @
      [(''format'', str_leaf (tk_format t)), (''id'', str_leaf (tk_id t)), (''kind'', str_leaf (tk_kind t)),
       (''mode'', str_leaf (tk_mode t)), (''objective'', str_leaf (tk_objective t)),
       (''oracle'', Arr (map assertion_tree (tk_oracle t))), (''revision'', str_leaf (tk_revision t)),
       (''tools'', Arr (map str_leaf (tk_tools t)))]))
   (all_some (map rule_tree (tk_authority t)))"

section \<open>Admission of a task\<close>

fun bad_tools :: "string list \<Rightarrow> string list \<Rightarrow> bool" where
  "bad_tools seen [] = False"
| "bad_tools seen (t # ts) = (\<not> task_id_ok t \<or> t \<in> set seen \<or> bad_tools (t # seen) ts)"

text \<open>The authority rules; the order in which Go visits the entries of a rule does not matter.\<close>

fun rules_check :: "string list \<Rightarrow> rule list \<Rightarrow> string + unit" where
  "rules_check tools [] = Inr ()"
| "rules_check tools (r # rs) =
     (if ru_tool r \<notin> set tools \<or> ru_equals r = [] \<or> length (ru_equals r) > 32
      then Inl ''TASK_INVALID: authority must constrain a visible tool''
      else if \<exists>(key, value) \<in> set (ru_equals r). \<not> task_id_ok key \<or> \<not> scalar value
      then Inl ''TASK_INVALID: authority requires scalar equalities''
      else rules_check tools rs)"

fun oracle_check :: "string list \<Rightarrow> bool \<Rightarrow> bool \<Rightarrow> task_assertion list \<Rightarrow> string + unit" where
  "oracle_check ids goal policy [] =
     (if \<not> goal \<or> \<not> policy then Inl ''TASK_INVALID: goal and policy assertions required'' else Inr ())"
| "oracle_check ids goal policy (a # as) =
     (if \<not> task_id_ok (ta_id a) \<or> ta_id a \<in> set ids \<or> blank (ta_expr a) \<or> length (ta_expr a) > 4096
      then Inl ''TASK_INVALID: assertion identity or size''
      else if ta_category a = ''goal'' then oracle_check (ta_id a # ids) True policy as
      else if ta_category a = ''policy'' then oracle_check (ta_id a # ids) goal True as
      else Inl ''TASK_INVALID: assertion category'')"

definition Task_Validate :: "agent_task option \<Rightarrow> string + unit" where
  "Task_Validate task =
     (case task of
        None \<Rightarrow> Inl ''TASK_INVALID: task is required''
      | Some t \<Rightarrow>
          if tk_apiVersion t \<noteq> task_APIVersion \<or> tk_kind t \<noteq> task_Kind \<or> tk_format t \<noteq> task_Format
          then Inl ''TASK_INVALID: unsupported task format''
          else if \<not> task_id_ok (tk_id t) \<or> \<not> task_id_ok (tk_domain t) \<or> \<not> task_id_ok (tk_revision t)
          then Inl ''TASK_INVALID: invalid identity''
          else bindE (PortablePath (tk_bundle t)) (\<lambda>_.
            if blank (tk_objective t) \<or> length (tk_objective t) > 8 * 1024 \<or> length (tk_context t) > 32 * 1024 \<or> tk_mode t \<noteq> ''blind''
            then Inl ''TASK_INVALID: unsupported objective or mode''
            else if tk_expectedOutcome t \<noteq> ''success'' \<and> tk_expectedOutcome t \<noteq> ''expected_abstention''
            then Inl ''TASK_INVALID: unsupported expected outcome''
            else bindE (Budgets_Validate (tk_budgets t)) (\<lambda>_.
              if length (tk_tools t) < 1 \<or> length (tk_tools t) > 32 \<or> length (tk_authority t) < 1 \<or> length (tk_authority t) > 64
              then Inl ''TASK_INVALID: tool or authority count''
              else if bad_tools [] (tk_tools t) then Inl ''TASK_INVALID: invalid or duplicate tool''
              else if tk_faultTool t \<noteq> [] \<and> tk_faultTool t \<notin> set (tk_tools t)
              then Inl ''TASK_INVALID: fault requires a visible tool''
              else bindE (rules_check (tk_tools t) (tk_authority t)) (\<lambda>_.
                if length (tk_oracle t) < 2 \<or> length (tk_oracle t) > MaxTaskAssertions then Inl ''TASK_INVALID: oracle count''
                else bindE (oracle_check [] False False (tk_oracle t)) (\<lambda>_.
                  case task_tree t of
                    None \<Rightarrow> Inl ''TASK_INVALID: non-JSON or oversized task''
                  | Some tree \<Rightarrow>
                      if tree_ok tree MaxTaskBytes then Inr () else Inl ''TASK_INVALID: non-JSON or oversized task'')))))"

text \<open>The tools of a twin by name, the last of equal names kept; then the declared tools and the properties of the rules.\<close>

definition twin_tool :: "twin_spec \<Rightarrow> string \<Rightarrow> tool option" where
  "twin_tool twin name = map_of (rev (map (\<lambda>t. (to_name t, t)) (tools_of twin))) name"

definition unavailable :: "twin_spec \<Rightarrow> string \<Rightarrow> bool" where
  "unavailable twin name =
     (case twin_tool twin name of None \<Rightarrow> True | Some t \<Rightarrow> to_modeled t = Some False)"

definition schema_properties :: "tool option \<Rightarrow> json gomap option" where
  "schema_properties t =
     (case t of
        None \<Rightarrow> None
      | Some t \<Rightarrow>
          (case to_inputSchema t of
             None \<Rightarrow> None
           | Some s \<Rightarrow> (case map_of s ''properties'' of Some (JObj m) \<Rightarrow> Some m | _ \<Rightarrow> None)))"

fun surface_rules :: "twin_spec \<Rightarrow> rule list \<Rightarrow> string + unit" where
  "surface_rules twin [] = Inr ()"
| "surface_rules twin (r # rs) =
     (case schema_properties (twin_tool twin (ru_tool r)) of
        None \<Rightarrow> Inl ''TASK_INVALID: authority requires object properties''
      | Some m \<Rightarrow>
          if \<exists>key \<in> fst ` set (ru_equals r). \<not> has m key
          then Inl ''TASK_INVALID: authority names nonexistent input property''
          else surface_rules twin rs)"

definition AdmitSurface :: "agent_task option \<Rightarrow> twin_spec option \<Rightarrow> string + unit" where
  "AdmitSurface task twin =
     bindE (Task_Validate task) (\<lambda>_.
       case task of
         None \<Rightarrow> Inl ''TASK_INVALID: task is required''
       | Some t \<Rightarrow>
           (case twin of
              None \<Rightarrow> Inl ''TASK_INVALID: domain mismatch''
            | Some w \<Rightarrow>
                if tw_name w \<noteq> tk_domain t then Inl ''TASK_INVALID: domain mismatch''
                else case find (unavailable w) (tk_tools t) of
                  Some name \<Rightarrow> Inl (''TASK_INVALID: unavailable declared tool '' @ name)
                | None \<Rightarrow> surface_rules w (tk_authority t)))"

section \<open>Authority\<close>

definition rule_matches :: "rule \<Rightarrow> goval gomap \<Rightarrow> bool" where
  "rule_matches r input \<longleftrightarrow>
     list_all (\<lambda>(key, want). case map_of input key of None \<Rightarrow> False | Some got \<Rightarrow> ScalarEqual got want) (ru_equals r)"

definition Authorized :: "agent_task \<Rightarrow> string \<Rightarrow> goval gomap \<Rightarrow> bool" where
  "Authorized t tool input \<longleftrightarrow> list_ex (\<lambda>r. ru_tool r = tool \<and> rule_matches r input) (tk_authority t)"

definition Visible :: "agent_task \<Rightarrow> string gomap" where
  "Visible t = [(''context'', tk_context t), (''objective'', tk_objective t)]"

section \<open>What an admitted task satisfies\<close>

lemma guard_Inr: "(if c then Inl e else r) = Inr x \<longleftrightarrow> \<not> c \<and> r = Inr x"
  by simp

lemma bindE_unit: "bindE r (\<lambda>_. f) = Inr x \<longleftrightarrow> r = Inr () \<and> f = Inr x"
  by (cases r) auto

lemma Task_Validate_steps:
  assumes "Task_Validate (Some t) = Inr ()"
  shows "\<not> (tk_expectedOutcome t \<noteq> ''success'' \<and> tk_expectedOutcome t \<noteq> ''expected_abstention'') \<and>
    PortablePath (tk_bundle t) = Inr () \<and> Budgets_Validate (tk_budgets t) = Inr () \<and>
    \<not> bad_tools [] (tk_tools t) \<and> rules_check (tk_tools t) (tk_authority t) = Inr () \<and>
    oracle_check [] False False (tk_oracle t) = Inr ()"
  using assms unfolding Task_Validate_def option.case guard_Inr bindE_unit
  by (elim conjE) (intro conjI; assumption)

lemma rules_check_Inr:
  "rules_check tools rs = Inr x \<longleftrightarrow>
     (\<forall>r \<in> set rs. ru_tool r \<in> set tools \<and> ru_equals r \<noteq> [] \<and> length (ru_equals r) \<le> 32 \<and>
        (\<forall>(key, value) \<in> set (ru_equals r). task_id_ok key \<and> scalar value))"
  by (induction rs) auto

text \<open>A task that is admitted authorizes only tools it declares.\<close>

lemma Authorized_declared:
  assumes "Task_Validate (Some t) = Inr ()" "Authorized t tool input"
  shows "tool \<in> set (tk_tools t)"
  using Task_Validate_steps [OF assms(1)] assms(2) by (auto simp: Authorized_def rules_check_Inr list_ex_iff)

section \<open>ScalarEqual on scalars\<close>

lemma deep_equal_scalar:
  "scalar a \<Longrightarrow> deep_equal a b \<longleftrightarrow> a = b \<and> a \<noteq> GFloat NaN"
  by (cases a; cases b) (auto simp: float_eq_def is_NaN_def)

lemma toInt_scalar: "toInt a = Some n \<Longrightarrow> scalar a \<and> a \<noteq> GFloat NaN"
  by (induction a rule: toInt.induct) auto

lemma ScalarEqual_iff:
  assumes "scalar a"
  shows "ScalarEqual a b \<longleftrightarrow> (a = b \<and> a \<noteq> GFloat NaN) \<or> (\<exists>n. toInt a = Some n \<and> toInt b = Some n)"
  using deep_equal_scalar [OF assms, of b] by (auto simp: ScalarEqual_def split: option.splits)

lemma ScalarEqual_sym: "scalar a \<Longrightarrow> scalar b \<Longrightarrow> ScalarEqual a b = ScalarEqual b a"
  by (auto simp: ScalarEqual_iff)

lemma ScalarEqual_trans:
  "scalar a \<Longrightarrow> scalar b \<Longrightarrow> ScalarEqual a b \<Longrightarrow> ScalarEqual b c \<Longrightarrow> ScalarEqual a c"
  by (auto simp: ScalarEqual_iff)

section \<open>Portable paths, by their segments\<close>

lemma split_on_nonempty: "split_on c s \<noteq> []"
  by (induction s) (auto split: list.splits)

lemma join_split: "join_with c (split_on c s) = s"
proof (induction s)
  case (Cons x s)
  obtain p ps where p: "split_on c s = p # ps" using split_on_nonempty by (cases "split_on c s") auto
  then have "join_with c (p # ps) = s" using Cons by simp
  then show ?case by (cases ps) (use p in auto)
qed simp

lemma split_no_sep: "p \<in> set (split_on c s) \<Longrightarrow> c \<notin> set p"
  by (induction s arbitrary: p) (auto split: list.splits if_splits)

lemma split_join: "\<forall>p \<in> set ps. c \<notin> set p \<Longrightarrow> ps \<noteq> [] \<Longrightarrow> split_on c (join_with c ps) = ps"
  by (induction c ps rule: join_with.induct) (auto simp: split_on_none split_on_append)

lemma clean_elements_in:
  "x \<in> set (clean_elements rooted stack es) \<Longrightarrow> x \<in> set stack \<or> (x \<in> set es \<and> x \<noteq> [] \<and> x \<noteq> ''.'')"
proof (induction rooted stack es rule: clean_elements.induct)
  case (2 rooted stack e es)
  show ?case
  proof (cases "e = [] \<or> e = ''.''")
    case True
    with 2 show ?thesis by auto
  next
    case False
    have pop: "x \<in> set (tl stack) \<Longrightarrow> x \<in> set stack" by (cases stack) auto
    show ?thesis
    proof (cases "e = ''..''")
      case up: True
      show ?thesis
      proof (cases "stack \<noteq> [] \<and> hd stack \<noteq> ''..''")
        case True
        with 2 up False pop show ?thesis by auto
      next
        case no: False
        show ?thesis using 2 up False no by (cases rooted) auto
      qed
    next
      case down: False
      show ?thesis using 2 down False by auto
    qed
  qed
qed simp

lemma clean_elements_plain:
  "\<forall>e \<in> set es. e \<noteq> [] \<and> e \<noteq> ''.'' \<and> e \<noteq> ''..'' \<Longrightarrow> clean_elements rooted stack es = rev stack @ es"
  by (induction rooted stack es rule: clean_elements.induct) auto

lemma trim_right_dots_iff: "s \<noteq> [] \<Longrightarrow> trim_right_dots s = s \<longleftrightarrow> last s \<noteq> CHR '' '' \<and> last s \<noteq> CHR ''.''"
proof (induction s rule: rev_induct)
  case (snoc x s)
  have "length (trim_right_dots s') \<le> length s'" for s'
    by (metis trim_right_dots_def length_dropWhile_le length_rev)
  from this [of s] show ?case by (auto simp: trim_right_dots_def dest!: arg_cong [of "rev _" _ length])
qed simp

lemma unsafe_segment_iff: "s \<noteq> [] \<Longrightarrow> unsafe_segment s \<longleftrightarrow> last s = CHR '' '' \<or> last s = CHR ''.''"
  using trim_right_dots_iff [of s] by (auto simp: unsafe_segment_def)

lemma PortablePath_segments:
  "PortablePath name = Inr () \<longleftrightarrow>
     name \<noteq> [] \<and> length name \<le> 240 \<and> (\<forall>c \<in> set name. c \<noteq> CHR 0x5C \<and> c \<noteq> CHR '':'' \<and> c \<noteq> CHR 0x00) \<and>
     (\<forall>s \<in> set (split_on (CHR ''/'') name). s \<noteq> [] \<and> last s \<noteq> CHR '' '' \<and> last s \<noteq> CHR ''.'')"
proof -
  let ?es = "split_on (CHR ''/'') name"
  let ?ok = "\<forall>s \<in> set ?es. s \<noteq> [] \<and> last s \<noteq> CHR '' '' \<and> last s \<noteq> CHR ''.''"
  have clean: "path_Clean name = name" and rel: "\<not> path_IsAbs name" if ok: ?ok and "name \<noteq> []"
  proof -
    have plain: "\<forall>e \<in> set ?es. e \<noteq> [] \<and> e \<noteq> ''.'' \<and> e \<noteq> ''..''" using ok by auto
    show rel: "\<not> path_IsAbs name"
    proof
      assume "path_IsAbs name"
      then obtain r where "name = CHR ''/'' # r" by (cases name) (auto simp: path_IsAbs_def)
      then have "[] \<in> set ?es" by simp
      with plain show False by blast
    qed
    have "clean_elements (path_IsAbs name) [] ?es = ?es" using clean_elements_plain [OF plain] by simp
    then show "path_Clean name = name" using rel join_split \<open>name \<noteq> []\<close> by (simp add: path_Clean_def)
  qed
  have nonempty: "s \<noteq> []" if fixed: "path_Clean name = name" "\<not> path_IsAbs name" "name \<noteq> ''.''" and "s \<in> set ?es" for s
  proof -
    let ?cs = "clean_elements False [] ?es"
    have cs: "join_with (CHR ''/'') ?cs = name" using fixed by (auto simp: path_Clean_def Let_def split: if_splits)
    have sub: "set ?cs \<subseteq> {e \<in> set ?es. e \<noteq> [] \<and> e \<noteq> ''.''}" using clean_elements_in [of _ False "[]" ?es] by auto
    have "?cs \<noteq> []"
    proof
      assume "?cs = []"
      then have "name = []" using cs by simp
      then show False using fixed(1) by (simp add: path_Clean_def path_IsAbs_def)
    qed
    moreover have "\<forall>p \<in> set ?cs. CHR ''/'' \<notin> set p" using sub split_no_sep by blast
    ultimately have "?es = ?cs" using split_join [of ?cs "CHR ''/''"] cs by simp
    with sub \<open>s \<in> set ?es\<close> show ?thesis by auto
  qed
  let ?chars = "\<forall>c \<in> set name. c \<noteq> CHR 0x5C \<and> c \<noteq> CHR '':'' \<and> c \<noteq> CHR 0x00"
  have "PortablePath name = Inr () \<longleftrightarrow>
      \<not> (name = [] \<or> length name > 240 \<or> path_IsAbs name \<or> path_Clean name \<noteq> name \<or>
         (\<exists>c \<in> set name. c = CHR 0x5C \<or> c = CHR '':'' \<or> c = CHR 0x00)) \<and>
      \<not> (\<exists>s \<in> set ?es. unsafe_segment s)"
    unfolding PortablePath_def guard_Inr by simp
  also have "\<dots> \<longleftrightarrow> name \<noteq> [] \<and> length name \<le> 240 \<and> ?chars \<and> ?ok" (is "?l \<longleftrightarrow> ?r")
  proof
    assume l: ?l
    have dot: "name \<noteq> ''.''"
    proof
      assume "name = ''.''"
      moreover have "unsafe_segment ''.''" by (simp add: unsafe_segment_def)
      ultimately show False using l by simp
    qed
    have "s \<noteq> []" if "s \<in> set ?es" for s by (rule nonempty [OF _ _ dot that]) (use l in blast)+
    moreover have "\<not> unsafe_segment s" if "s \<in> set ?es" for s using l that by blast
    ultimately have ?ok using unsafe_segment_iff by blast
    moreover have "name \<noteq> []" "length name \<le> 240" ?chars using l by (blast, metis not_le, blast)
    ultimately show ?r by blast
  next
    assume r: ?r
    then have "\<forall>s \<in> set ?es. \<not> unsafe_segment s" using unsafe_segment_iff by blast
    with r clean rel show ?l by (metis not_le)
  qed
  finally show ?thesis .
qed

end
