(* ===== verification/Baseline.thy ===== *)
theory Baseline
  imports Statistics Task
begin

text \<open>
  The data of \<open>internal/baseline\<close>: configurations, policy, plan, trials and the frozen
  experiment (\<open>plan.go\<close>), and the trial inventory that \<open>Prepare\<close> derives from a plan.
\<close>

record host =
  ho_name :: string
  ho_version :: string
  ho_model :: string
  ho_fresh :: bool
  ho_toolsOnly :: bool
  ho_additional :: int

record config =
  cf_id :: string
  cf_provider :: string
  cf_requestedModel :: string
  cf_host :: host
  cf_adapter :: string
  cf_promptVersion :: string

record policy =
  po_delta :: "float64 option"
  po_floors :: "float64 gomap"
  po_required :: "string list"
  po_algorithm :: string
  po_seed :: "64 word"
  po_samples :: int

record plan =
  pl_format :: string
  pl_id :: string
  pl_revision :: string
  pl_purpose :: string
  pl_mode :: string
  pl_pack :: string
  pl_profile :: string
  pl_entries :: "string list"
  pl_configs :: "config list"
  pl_repeats :: int
  pl_shardSeconds :: int
  pl_perShard :: int
  pl_policy :: policy
  pl_livePlans :: "string gomap"

record trial =
  tl_id :: string
  tl_entry :: string
  tl_family :: string
  tl_domain :: string
  tl_config :: string
  tl_repeat :: int
  tl_shard :: int
  tl_order :: int
  tl_required :: bool

section \<open>The trial inventory\<close>

text \<open>What the schedule needs of an entry of the pack.\<close>

record pack_entry =
  pe_family :: string
  pe_split :: string
  pe_disclosure :: string
  pe_domain :: string

text \<open>\<open>fmt.Sprintf("trial-%03d", n)\<close>.\<close>

definition trial_name :: "nat \<Rightarrow> string" where
  "trial_name n =
     (let d = dec (int n) in ''trial-'' @ replicate (3 - length d) (CHR ''0'') @ d)"

definition mk_trial :: "plan \<Rightarrow> string list \<Rightarrow> string \<Rightarrow> pack_entry \<Rightarrow> nat \<Rightarrow> nat \<Rightarrow> nat \<Rightarrow> trial" where
  "mk_trial p required i e rep c n =
     \<lparr>tl_id = trial_name (n + 1), tl_entry = i, tl_family = pe_family e, tl_domain = pe_domain e,
      tl_config = cf_id (pl_configs p ! c), tl_repeat = int rep + 1, tl_shard = int n div pl_perShard p + 1,
      tl_order = int n + 1, tl_required = (i \<in> set required)\<rparr>"

text \<open>The two configurations of a pair, in alternating order.\<close>

definition pair_order :: "nat \<Rightarrow> nat list" where
  "pair_order n = (if odd (n div 2) then [1, 0] else [0, 1])"

fun add_pair :: "plan \<Rightarrow> string list \<Rightarrow> string \<Rightarrow> pack_entry \<Rightarrow> nat \<Rightarrow> nat list \<Rightarrow> trial list \<Rightarrow> trial list" where
  "add_pair p required i e rep [] ts = ts"
| "add_pair p required i e rep (c # cs) ts = add_pair p required i e rep cs (ts @ [mk_trial p required i e rep c (length ts)])"

fun add_repeats :: "plan \<Rightarrow> string list \<Rightarrow> string \<Rightarrow> pack_entry \<Rightarrow> nat list \<Rightarrow> trial list \<Rightarrow> trial list" where
  "add_repeats p required i e [] ts = ts"
| "add_repeats p required i e (r # rs) ts =
     add_repeats p required i e rs (add_pair p required i e r (pair_order (length ts)) ts)"

definition disclosure_ok :: "plan \<Rightarrow> pack_entry \<Rightarrow> bool" where
  "disclosure_ok p e \<longleftrightarrow>
     \<not> (pl_purpose p = ''pilot'' \<and> pe_split e \<noteq> ''dev'' \<or>
        pl_purpose p = ''release-comparison'' \<and> (pe_split e \<noteq> ''evaluation'' \<or> pe_disclosure e \<noteq> ''public-evaluation-split''))"

definition floor_ok :: "plan \<Rightarrow> string \<Rightarrow> bool" where
  "floor_ok p domain =
     (case map_of (po_floors (pl_policy p)) domain of
        None \<Rightarrow> False
      | Some f \<Rightarrow> \<not> flt f (Finite 0) \<and> \<not> flt (Finite 1) f)"

fun schedule :: "plan \<Rightarrow> (string \<Rightarrow> pack_entry option) \<Rightarrow> string list \<Rightarrow> string list \<Rightarrow> string gomap \<Rightarrow> trial list \<Rightarrow> string list \<Rightarrow> string + trial list" where
  "schedule p find_entry required seen families ts [] = Inr ts"
| "schedule p find_entry required seen families ts (i # ids) =
     (case find_entry i of
        None \<Rightarrow> Inl ''BASELINE_PLAN_INVALID''
      | Some e \<Rightarrow>
          if i \<in> set seen then Inl ''BASELINE_PLAN_INVALID''
          else if \<not> disclosure_ok p e then Inl ''BASELINE_DISCLOSURE_INVALID''
          else if (case map_of families (pe_family e) of None \<Rightarrow> False | Some old \<Rightarrow> old \<noteq> [] \<and> old \<noteq> pe_domain e)
          then Inl ''BASELINE_PLAN_INVALID''
          else if \<not> floor_ok p (pe_domain e) then Inl ''BASELINE_PLAN_INVALID''
          else schedule p find_entry required (i # seen) (put (pe_family e) (pe_domain e) families)
                 (add_repeats p required i e [0..<nat (pl_repeats p)] ts) ids)"

text \<open>The head of a plan, the number of shards and the required entries.\<close>

definition labelPattern :: "string \<Rightarrow> bool" where
  "labelPattern s =
     (case s of
        [] \<Rightarrow> False
      | c # cs \<Rightarrow> is_lower c \<and> length cs \<le> 63 \<and> list_all (\<lambda>x. is_lower x \<or> is_digit x \<or> x = CHR ''-'') cs)"

definition PlanFormat :: string where "PlanFormat = ''statetwin.dev/baseline-plan/v1alpha1''"

definition plan_head_ok :: "plan \<Rightarrow> bool" where
  "plan_head_ok p \<longleftrightarrow>
     pl_format p = PlanFormat \<and> labelPattern (pl_id p) \<and> labelPattern (pl_revision p) \<and>
     (pl_purpose p = ''pilot'' \<or> pl_purpose p = ''release-comparison'') \<and>
     (pl_mode p = ''offline-contract'' \<or> pl_mode p = ''api-bridge-live'') \<and>
     length (pl_configs p) = 2 \<and> 1 \<le> length (pl_entries p) \<and> length (pl_entries p) \<le> 72 \<and>
     1 \<le> pl_repeats p \<and> pl_repeats p \<le> 5 \<and> int (length (pl_entries p)) * pl_repeats p * 2 \<le> 240 \<and>
     1 \<le> pl_perShard p \<and> pl_perShard p \<le> 12 \<and> 1 \<le> pl_shardSeconds p \<and> pl_shardSeconds p \<le> 2700 \<and>
     (case po_delta (pl_policy p) of None \<Rightarrow> False | Some d \<Rightarrow> \<not> flt d (Finite 0) \<and> \<not> flt (Finite 1) d) \<and>
     po_algorithm (pl_policy p) = Algorithm \<and> po_samples (pl_policy p) = 10000 \<and> length (po_floors (pl_policy p)) = 2"

definition trial_total :: "plan \<Rightarrow> int" where
  "trial_total p = int (length (pl_entries p)) * pl_repeats p * 2"

definition too_many_shards :: "plan \<Rightarrow> bool" where
  "too_many_shards p = ((trial_total p + pl_perShard p - 1) div pl_perShard p > 20)"

section \<open>Admission of the configurations\<close>

text \<open>\<open>plugin.Plan\<close> and its \<open>Validate\<close> (\<open>internal/plugin/plan.go\<close>).\<close>

record session_plan =
  sp_format :: string
  sp_id :: string
  sp_pack :: string
  sp_profile :: string
  sp_entry :: string
  sp_host :: host
  sp_output :: string
  sp_mode :: string
  sp_deadline :: int

definition SessionPlanFormat :: string where "SessionPlanFormat = ''statetwin.dev/plugin-session-plan/v1alpha1''"

definition portable :: "string \<Rightarrow> bool" where "portable s = (PortablePath s = Inr ())"

definition session_plan_Validate :: "session_plan \<Rightarrow> string + unit" where
  "session_plan_Validate p =
     (let h = sp_host p
      in if sp_format p \<noteq> SessionPlanFormat \<or> \<not> labelPattern (sp_id p) \<or> \<not> labelPattern (sp_entry p) \<or>
            \<not> portable (sp_pack p) \<or> \<not> portable (sp_profile p) \<or> \<not> portable (sp_output p) \<or>
            sp_deadline p < 1 \<or> sp_deadline p > 180 \<or> sp_mode p \<noteq> ''offline-contract'' \<or>
            \<not> ho_fresh h \<or> \<not> ho_toolsOnly h \<or> ho_additional h \<noteq> 0 \<or> ho_model h \<noteq> ''mock/statetwin''
         then Inl ''PLUGIN_PLAN_INVALID''
         else if \<not> ((ho_name h = ''mcp-client'' \<and> ho_version h = ''go-sdk-1.8.0'') \<or>
                    (ho_name h = ''inspect'' \<and> ho_version h = ''0.3.275''))
         then Inl ''PLUGIN_HOST_UNSUPPORTED''
         else Inr ())"

text \<open>\<open>agentapi.ValidModel\<close>: \<open>^[A-Za-z0-9][A-Za-z0-9._:-]{0,127}$\<close>, not a mock.\<close>

definition modelPattern :: "string \<Rightarrow> bool" where
  "modelPattern s =
     (case s of
        [] \<Rightarrow> False
      | c # cs \<Rightarrow> is_alnum c \<and> length cs \<le> 127 \<and>
          list_all (\<lambda>x. is_alnum x \<or> x = CHR ''.'' \<or> x = CHR ''_'' \<or> x = CHR '':'' \<or> x = CHR ''-'') cs)"

definition ValidModel :: "string \<Rightarrow> bool" where
  "ValidModel s = (modelPattern s \<and> take 5 s \<noteq> ''mock-'')"

definition AgentProfile :: string where "AgentProfile = ''openai-responses-local-bridge-v1alpha1''"

definition live_config_ok :: "config \<Rightarrow> bool" where
  "live_config_ok c =
     (let h = cf_host c
      in cf_provider c = ''openai'' \<and> ValidModel (cf_requestedModel c) \<and> cf_adapter c = AgentProfile \<and>
         ho_name h = ''api-bridge'' \<and> ho_version h = ''v1alpha1'' \<and> ho_model h = cf_requestedModel c \<and>
         ho_fresh h \<and> ho_toolsOnly h \<and> ho_additional h = 0 \<and> cf_promptVersion c = ''blind-objective-v1'')"

definition sample_plan :: "plan \<Rightarrow> config \<Rightarrow> session_plan" where
  "sample_plan p c =
     \<lparr>sp_format = SessionPlanFormat, sp_id = ''admission'', sp_pack = pl_pack p, sp_profile = pl_profile p,
      sp_entry = pl_entries p ! 0, sp_host = cf_host c, sp_output = ''admission-output'', sp_mode = pl_mode p, sp_deadline = 1\<rparr>"

definition offline_config_ok :: "plan \<Rightarrow> config \<Rightarrow> bool" where
  "offline_config_ok p c =
     (cf_provider c = ''mock'' \<and> cf_requestedModel c = ''mock/statetwin'' \<and> session_plan_Validate (sample_plan p c) = Inr () \<and>
      (cf_adapter c = ''go-sdk-1.8.0'' \<or> cf_adapter c = ''inspect-0.3.275'') \<and>
      (ho_name (cf_host c) = ''inspect'') = (cf_adapter c = ''inspect-0.3.275''))"

definition config_ok :: "plan \<Rightarrow> nat \<Rightarrow> config \<Rightarrow> bool" where
  "config_ok p i c =
     (labelPattern (cf_id c) \<and> labelPattern (cf_promptVersion c) \<and> \<not> (i = 1 \<and> cf_id c = cf_id (pl_configs p ! 0)) \<and>
      (if pl_mode p = ''api-bridge-live'' then live_config_ok c else offline_config_ok p c))"

definition configs_ok :: "plan \<Rightarrow> bool" where
  "configs_ok p = list_all (\<lambda>(i, c). config_ok p i c) (enumerate 0 (pl_configs p))"

text \<open>
  \<open>Prepare\<close> on a decoded plan, up to the bindings of the live plans: \<open>find_entry\<close> is the lookup
  in the admitted pack, whose admission is left out.
\<close>

definition prepare_trials :: "(string \<Rightarrow> pack_entry option) \<Rightarrow> plan \<Rightarrow> string + trial list" where
  "prepare_trials find_entry p =
     (if \<not> plan_head_ok p then Inl ''BASELINE_PLAN_INVALID''
      else if too_many_shards p then Inl ''BASELINE_RESOURCE_LIMIT''
      else if \<not> configs_ok p then Inl ''BASELINE_CONFIG_INVALID''
      else if \<not> distinct (po_required (pl_policy p)) then Inl ''BASELINE_PLAN_INVALID''
      else bindE (schedule p find_entry (po_required (pl_policy p)) [] [] [] (pl_entries p)) (\<lambda>ts.
           if \<exists>i \<in> set (po_required (pl_policy p)). i \<notin> set (pl_entries p) then Inl ''BASELINE_PLAN_INVALID''
           else if pl_mode p = ''offline-contract'' \<and> pl_livePlans p \<noteq> [] then Inl ''BASELINE_CONFIG_INVALID''
           else Inr ts))"

section \<open>The inventory in closed form\<close>

text \<open>The trial at a position: its repeat and its configuration follow from the position alone.\<close>

definition trial_at :: "plan \<Rightarrow> string \<Rightarrow> pack_entry \<Rightarrow> nat \<Rightarrow> trial" where
  "trial_at p i e n =
     mk_trial p (po_required (pl_policy p)) i e ((n div 2) mod nat (pl_repeats p)) ((n + n div 2) mod 2) n"

lemma add_pair_at:
  assumes "even (length ts)" "rep = (length ts div 2) mod nat (pl_repeats p)"
  shows "add_pair p (po_required (pl_policy p)) i e rep (pair_order (length ts)) ts =
    ts @ [trial_at p i e (length ts), trial_at p i e (Suc (length ts))]"
proof -
  obtain k where k: "length ts = 2 * k" using assms(1) by blast
  have "(2 * k + k) mod 2 = k mod 2" "(Suc (2 * k) + k) mod 2 = (Suc k) mod 2" by presburger+
  then show ?thesis using assms(2) by (cases "odd k") (auto simp: k pair_order_def trial_at_def odd_iff_mod_2_eq_one even_iff_mod_2_eq_zero mod_Suc)
qed

lemma add_repeats_at:
  assumes "length ts = 2 * nat (pl_repeats p) * m + 2 * r" "r \<le> nat (pl_repeats p)" "0 < pl_repeats p"
  shows "add_repeats p (po_required (pl_policy p)) i e [r..<nat (pl_repeats p)] ts =
    ts @ map (trial_at p i e) [length ts..<2 * nat (pl_repeats p) * Suc m]"
  using assms
proof (induction "nat (pl_repeats p) - r" arbitrary: r ts)
  case 0
  then have "r = nat (pl_repeats p)" by simp
  with 0 show ?case by simp
next
  case (Suc d)
  let ?R = "nat (pl_repeats p)" and ?ts = "ts @ [trial_at p i e (length ts), trial_at p i e (Suc (length ts))]"
  have r: "r < ?R" using Suc.hyps(2) by simp
  then have upt: "[r..<?R] = r # [Suc r..<?R]" by (simp add: upt_conv_Cons)
  have "length ts div 2 = ?R * m + r" using Suc.prems(1) by simp
  then have rep: "r = (length ts div 2) mod ?R" using r by simp
  have "add_pair p (po_required (pl_policy p)) i e r (pair_order (length ts)) ts = ?ts"
    by (rule add_pair_at [OF _ rep]) (simp add: Suc.prems(1))
  moreover have "add_repeats p (po_required (pl_policy p)) i e [Suc r..<?R] ?ts =
      ?ts @ map (trial_at p i e) [length ?ts..<2 * ?R * Suc m]"
    by (rule Suc.hyps(1)) (use Suc r in auto)
  moreover have "length ts < 2 * ?R * Suc m" "Suc (length ts) < 2 * ?R * Suc m" using Suc.prems(1) r by auto
  ultimately show ?case by (simp add: upt upt_conv_Cons)
qed

lemma schedule_at:
  assumes "schedule p find_entry (po_required (pl_policy p)) seen families ts ids = Inr ts'"
    and "length ts = 2 * nat (pl_repeats p) * m" "0 < pl_repeats p"
  shows "length ts' = 2 * nat (pl_repeats p) * (m + length ids) \<and> take (length ts) ts' = ts \<and>
    (\<forall>n. length ts \<le> n \<longrightarrow> n < length ts' \<longrightarrow>
      (\<exists>e. find_entry (ids ! (n div (2 * nat (pl_repeats p)) - m)) = Some e \<and> floor_ok p (pe_domain e) \<and> ts' ! n = trial_at p (ids ! (n div (2 * nat (pl_repeats p)) - m)) e n)) \<and>
    distinct ids \<and> set ids \<inter> set seen = {}"
  using assms
proof (induction ids arbitrary: seen families ts m)
  case (Cons i ids)
  let ?R = "nat (pl_repeats p)"
  obtain e where e: "find_entry i = Some e" using Cons.prems(1) by (cases "find_entry i") auto
  let ?ts = "ts @ map (trial_at p i e) [length ts..<2 * ?R * Suc m]"
  have new: "add_repeats p (po_required (pl_policy p)) i e [0..<?R] ts = ?ts"
    by (rule add_repeats_at [of ts p m 0]) (use Cons.prems in auto)
  have step: "i \<notin> set seen" "floor_ok p (pe_domain e)" "schedule p find_entry (po_required (pl_policy p)) (i # seen) (put (pe_family e) (pe_domain e) families) ?ts ids = Inr ts'"
    using Cons.prems(1) by (simp_all add: e new split: if_splits)
  have len: "length ?ts = 2 * ?R * Suc m" using Cons.prems(2) by simp
  note ih = Cons.IH [OF step(3) len Cons.prems(3)]
  have R: "0 < 2 * ?R" using Cons.prems(3) by simp
  have nth: "\<exists>e. find_entry ((i # ids) ! (n div (2 * ?R) - m)) = Some e \<and> floor_ok p (pe_domain e) \<and> ts' ! n = trial_at p ((i # ids) ! (n div (2 * ?R) - m)) e n"
    if n: "length ts \<le> n" "n < length ts'" for n
  proof (cases "n < length ?ts")
    case True
    have "n div (2 * ?R) = m"
    proof (rule div_nat_eqI)
      show "2 * ?R * m \<le> n" using n(1) Cons.prems(2) by simp
      show "n < 2 * ?R * Suc m" using True len by simp
    qed
    moreover have "ts' ! n = ?ts ! n" using ih True by (metis nth_take)
    moreover have "?ts ! n = trial_at p i e n" using n True len Cons.prems(2) by (simp add: nth_append)
    ultimately show ?thesis using e step(2) by simp
  next
    case False
    then have "Suc m \<le> n div (2 * ?R)" using len R by (simp add: less_eq_div_iff_mult_less_eq mult.commute)
    then have "(i # ids) ! (n div (2 * ?R) - m) = ids ! (n div (2 * ?R) - Suc m)" by (simp add: nth_Cons')
    with ih False n(2) show ?thesis by auto
  qed
  have "take (length ts) ts' = take (length ts) (take (length ?ts) ts')" by (simp only: take_take min.absorb1 length_append le_add1)
  also have "take (length ?ts) ts' = ?ts" using ih by blast
  finally have "take (length ts) ts' = ts" by simp
  with ih nth step(1) show ?case by auto
qed auto

lemma prepare_trials_at:
  assumes "prepare_trials find_entry p = Inr ts"
  shows "length ts = 2 * nat (pl_repeats p) * length (pl_entries p)"
    and "n < length ts \<Longrightarrow> \<exists>e. find_entry (pl_entries p ! (n div (2 * nat (pl_repeats p)))) = Some e \<and> floor_ok p (pe_domain e) \<and> ts ! n = trial_at p (pl_entries p ! (n div (2 * nat (pl_repeats p)))) e n"
    and "distinct (pl_entries p)" "plan_head_ok p" "\<not> too_many_shards p" "configs_ok p"
proof -
  have s: "schedule p find_entry (po_required (pl_policy p)) [] [] [] (pl_entries p) = Inr ts"
    and c: "plan_head_ok p" "\<not> too_many_shards p" "configs_ok p"
    using assms by (auto simp: prepare_trials_def split: if_splits)
  have R: "0 < pl_repeats p" using c(1) by (simp add: plan_head_ok_def)
  note at = schedule_at [OF s _ R, of 0]
  show "length ts = 2 * nat (pl_repeats p) * length (pl_entries p)" "distinct (pl_entries p)" using at by auto
  show "plan_head_ok p" "\<not> too_many_shards p" "configs_ok p" by (rule c)+
  show "\<exists>e. find_entry (pl_entries p ! (n div (2 * nat (pl_repeats p)))) = Some e \<and> floor_ok p (pe_domain e) \<and> ts ! n = trial_at p (pl_entries p ! (n div (2 * nat (pl_repeats p)))) e n" if "n < length ts"
    using at that by auto
qed

end
