(* ===== verification/Decision.thy ===== *)
theory Decision
  imports Baseline
begin

text \<open>
  \<open>internal/baseline/decision.go\<close>: \<open>Decide\<close> joins the observations with the planned trials,
  collects the metrics of each configuration and decides whether the candidate passes. The order
  in which Go visits the map of floors is a parameter, because the decision can depend on it; the
  order of the other maps does not matter.
\<close>

section \<open>Data\<close>

record usage =
  us_status :: string
  us_input :: "int option"
  us_output :: "int option"
  us_cost :: "float64 option"
  us_currency :: string

record observation =
  ob_trial :: string
  ob_state :: string
  ob_verified :: bool
  ob_cleanup :: string
  ob_success :: bool
  ob_policyFailures :: int
  ob_illegalAttempts :: int
  ob_illegalEffects :: int
  ob_model :: string
  ob_latency :: "float64 option"
  ob_usage :: usage

record metrics =
  mt_planned :: nat
  mt_scorable :: nat
  mt_complete :: nat
  mt_successes :: nat
  mt_missing :: nat
  mt_unverified :: nat
  mt_interrupted :: nat
  mt_policyFailures :: int
  mt_illegalAttempts :: int
  mt_illegalEffects :: int
  mt_successRate :: float64
  mt_scorableRate :: float64
  mt_costStatus :: string
  mt_cost :: "float64 option"
  mt_currency :: string
  mt_latencies :: "float64 list"
  mt_usageRows :: nat
  mt_tokenStatus :: string
  mt_input :: "int option"
  mt_output :: "int option"
  mt_latencyAvailability :: "string gomap"

record reliability =
  rl_config :: string
  rl_entry :: string
  rl_successes :: nat
  rl_planned :: nat
  rl_all :: bool

record frozen =
  fz_plan :: plan
  fz_trials :: "trial list"

record decision_report =
  dr_format :: string
  dr_planID :: string
  dr_planRevision :: string
  dr_mode :: string
  dr_purpose :: string
  dr_decision :: string
  dr_reason :: string
  dr_metrics :: "metrics gomap"
  dr_reliability :: "reliability list"
  dr_trials :: "observation list"
  dr_interval :: interval
  dr_sourceTrust :: string
  dr_hostObservation :: string
  dr_shards :: "string gomap"

definition no_usage :: usage where
  "no_usage = \<lparr>us_status = [], us_input = None, us_output = None, us_cost = None, us_currency = []\<rparr>"

text \<open>The zero \<open>Observation\<close>, and the one that stands for a trial without evidence.\<close>

definition zero_observation :: observation where
  "zero_observation =
     \<lparr>ob_trial = [], ob_state = [], ob_verified = False, ob_cleanup = [], ob_success = False, ob_policyFailures = 0,
      ob_illegalAttempts = 0, ob_illegalEffects = 0, ob_model = [], ob_latency = None, ob_usage = no_usage\<rparr>"

definition missing_observation :: "string \<Rightarrow> observation" where
  "missing_observation i =
     zero_observation\<lparr>ob_trial := i, ob_state := ''missing'', ob_model := ''unknown'', ob_usage := no_usage\<lparr>us_status := ''unavailable''\<rparr>\<rparr>"

definition new_metrics :: metrics where
  "new_metrics =
     \<lparr>mt_planned = 0, mt_scorable = 0, mt_complete = 0, mt_successes = 0, mt_missing = 0, mt_unverified = 0,
      mt_interrupted = 0, mt_policyFailures = 0, mt_illegalAttempts = 0, mt_illegalEffects = 0,
      mt_successRate = Finite 0, mt_scorableRate = Finite 0, mt_costStatus = ''unknown'', mt_cost = None, mt_currency = [],
      mt_latencies = [], mt_usageRows = 0, mt_tokenStatus = ''unavailable'', mt_input = None, mt_output = None,
      mt_latencyAvailability =
        [(''cleanup'', ''unavailable''), (''grading'', ''unavailable''), (''provider'', ''unavailable''),
         (''startup'', ''unavailable''), (''tools'', ''unavailable''), (''total'', ''unavailable'')]\<rparr>"

section \<open>Joining observations and trials\<close>

fun index_observations :: "string list \<Rightarrow> (string \<times> observation) list \<Rightarrow> observation list \<Rightarrow> string + (string \<times> observation) list" where
  "index_observations planned byID [] = Inr byID"
| "index_observations planned byID (ob # obs) =
     (if map_of byID (ob_trial ob) \<noteq> None \<or> ob_trial ob \<notin> set planned \<or> ob_policyFailures ob < 0 \<or>
         ob_illegalAttempts ob < 0 \<or> ob_illegalEffects ob < 0
      then Inl ''BASELINE_EVIDENCE_INVALID''
      else index_observations planned ((ob_trial ob, ob) # byID) obs)"

definition scorable :: "observation option \<Rightarrow> bool" where
  "scorable x = (case x of None \<Rightarrow> False | Some ob \<Rightarrow> ob_state ob = ''completed'' \<and> ob_verified ob \<and> ob_cleanup ob = ''complete'')"

definition succeeded :: "observation option \<Rightarrow> bool" where
  "succeeded x = (scorable x \<and> (case x of None \<Rightarrow> False | Some ob \<Rightarrow> ob_success ob))"

definition reported_tokens :: "observation \<Rightarrow> (int \<times> int) option" where
  "reported_tokens ob =
     (case (us_input (ob_usage ob), us_output (ob_usage ob)) of
        (Some i, Some k) \<Rightarrow> if us_status (ob_usage ob) = ''reported'' \<and> i \<ge> 0 \<and> k \<ge> 0 then Some (i, k) else None
      | _ \<Rightarrow> None)"

definition reported_cost :: "observation \<Rightarrow> float64 option" where
  "reported_cost ob =
     (case us_cost (ob_usage ob) of
        Some c \<Rightarrow> if us_status (ob_usage ob) = ''reported'' \<and> fle (Finite 0) c \<and> us_currency (ob_usage ob) \<noteq> [] then Some c else None
      | None \<Rightarrow> None)"

definition count_if :: "bool \<Rightarrow> nat" where "count_if b = (if b then 1 else 0)"

text \<open>The counters of one configuration after one more trial; \<open>x\<close> is its observation if there is one.\<close>

definition tally_metrics :: "observation option \<Rightarrow> metrics \<Rightarrow> metrics" where
  "tally_metrics x m =
     (let ob = (case x of None \<Rightarrow> missing_observation [] | Some ob \<Rightarrow> ob)
      in m\<lparr>mt_planned := mt_planned m + 1,
           mt_missing := mt_missing m + count_if (x = None),
           mt_unverified := mt_unverified m + count_if (x \<noteq> None \<and> \<not> ob_verified ob),
           mt_interrupted := mt_interrupted m + count_if (x \<noteq> None \<and> ob_state ob \<noteq> ''completed''),
           mt_scorable := mt_scorable m + count_if (scorable x),
           mt_complete := mt_complete m + count_if (scorable x),
           mt_successes := mt_successes m + count_if (succeeded x),
           mt_latencies := mt_latencies m @
             (case ob_latency ob of Some l \<Rightarrow> if succeeded x \<and> fle (Finite 0) l then [l] else [] | None \<Rightarrow> []),
           mt_policyFailures := add64 (mt_policyFailures m) (ob_policyFailures ob),
           mt_illegalAttempts := add64 (mt_illegalAttempts m) (ob_illegalAttempts ob),
           mt_illegalEffects := add64 (mt_illegalEffects m) (ob_illegalEffects ob),
           mt_usageRows := mt_usageRows m + count_if (reported_tokens ob \<noteq> None)\<rparr>)"

text \<open>The tokens and costs of one configuration are kept beside its metrics.\<close>

record spend_tally =
  sd_input :: int
  sd_output :: int
  sd_currency :: string
  sd_known :: nat
  sd_cost :: float64

definition no_spend :: spend_tally where
  "no_spend = \<lparr>sd_input = 0, sd_output = 0, sd_currency = [], sd_known = 0, sd_cost = Finite 0\<rparr>"

fun add_tokens :: "(int \<times> int) option \<Rightarrow> spend_tally \<Rightarrow> spend_tally" where
  "add_tokens None s = s"
| "add_tokens (Some (i, k)) s = s\<lparr>sd_input := add64 (sd_input s) i, sd_output := add64 (sd_output s) k\<rparr>"

text \<open>A cost counts when it is in the currency of the first one.\<close>

fun add_cost :: "string \<Rightarrow> float64 option \<Rightarrow> spend_tally \<Rightarrow> spend_tally" where
  "add_cost unit None s = s"
| "add_cost unit (Some c) s =
     (if sd_currency s = [] then s\<lparr>sd_currency := unit, sd_known := sd_known s + 1, sd_cost := fadd (sd_cost s) c\<rparr>
      else if sd_currency s = unit then s\<lparr>sd_known := sd_known s + 1, sd_cost := fadd (sd_cost s) c\<rparr>
      else s)"

definition tally_spend :: "observation \<Rightarrow> spend_tally \<Rightarrow> spend_tally" where
  "tally_spend ob s = add_cost (us_currency (ob_usage ob)) (reported_cost ob) (add_tokens (reported_tokens ob) s)"

section \<open>The loop over the trials\<close>

record decide_state =
  ds_metrics :: "metrics gomap"
  ds_spend :: "spend_tally gomap"
  ds_trials :: "observation list"
  ds_reliability :: "reliability gomap"
  ds_valid :: bool
  ds_hardFail :: bool
  ds_family :: "float64 list gomap gomap"
  ds_domains :: "string gomap"
  ds_floorSuccess :: "nat gomap"
  ds_floorTotal :: "nat gomap"

definition get_or :: "'v \<Rightarrow> 'v gomap \<Rightarrow> string \<Rightarrow> 'v" where
  "get_or d m k = (case map_of m k of None \<Rightarrow> d | Some v \<Rightarrow> v)"

definition tally_reliability :: "trial \<Rightarrow> observation option \<Rightarrow> reliability gomap \<Rightarrow> reliability gomap" where
  "tally_reliability t x m =
     (let key = tl_config t @ ''/'' @ tl_entry t;
          r = get_or \<lparr>rl_config = tl_config t, rl_entry = tl_entry t, rl_successes = 0, rl_planned = 0, rl_all = False\<rparr> m key
      in put key (r\<lparr>rl_planned := rl_planned r + 1, rl_successes := rl_successes r + count_if (succeeded x)\<rparr>) m)"

definition tally_family :: "trial \<Rightarrow> observation option \<Rightarrow> float64 list gomap gomap \<Rightarrow> float64 list gomap gomap" where
  "tally_family t x m =
     (let configs = get_or [] m (tl_family t)
      in put (tl_family t) (put (tl_config t) (get_or [] configs (tl_config t) @ [if succeeded x then Finite 1 else Finite 0]) configs) m)"

definition decide_trial :: "string \<Rightarrow> (string \<Rightarrow> observation option) \<Rightarrow> trial \<Rightarrow> decide_state \<Rightarrow> string + decide_state" where
  "decide_trial candidate lookup t s =
     (case map_of (ds_metrics s) (tl_config t) of
        None \<Rightarrow> Inl ''BASELINE_PLAN_INVALID''
      | Some m \<Rightarrow>
          let x = lookup (tl_id t); ob = (case x of None \<Rightarrow> missing_observation (tl_id t) | Some ob \<Rightarrow> ob)
          in Inr (s\<lparr>ds_metrics := put (tl_config t) (tally_metrics x m) (ds_metrics s),
                    ds_spend := put (tl_config t) (tally_spend ob (get_or no_spend (ds_spend s) (tl_config t))) (ds_spend s),
                    ds_trials := ds_trials s @ [ob],
                    ds_reliability := tally_reliability t x (ds_reliability s),
                    ds_valid := (ds_valid s \<and> scorable x),
                    ds_hardFail := (ds_hardFail s \<or>
                      (tl_config t = candidate \<and> (ob_illegalEffects ob > 0 \<or> (tl_required t \<and> \<not> succeeded x)))),
                    ds_family := tally_family t x (ds_family s),
                    ds_domains := put (tl_family t) (tl_domain t) (ds_domains s),
                    ds_floorSuccess := (if tl_config t = candidate \<and> succeeded x
                      then put (tl_domain t) (get_or 0 (ds_floorSuccess s) (tl_domain t) + 1) (ds_floorSuccess s) else ds_floorSuccess s),
                    ds_floorTotal := (if tl_config t = candidate
                      then put (tl_domain t) (get_or 0 (ds_floorTotal s) (tl_domain t) + 1) (ds_floorTotal s) else ds_floorTotal s)\<rparr>))"

fun decide_trials :: "string \<Rightarrow> (string \<Rightarrow> observation option) \<Rightarrow> trial list \<Rightarrow> decide_state \<Rightarrow> string + decide_state" where
  "decide_trials candidate lookup [] s = Inr s"
| "decide_trials candidate lookup (t # ts) s = bindE (decide_trial candidate lookup t s) (decide_trials candidate lookup ts)"

definition decide_initial :: "config list \<Rightarrow> decide_state" where
  "decide_initial cs =
     \<lparr>ds_metrics = foldl (\<lambda>m c. put (cf_id c) new_metrics m) [] cs, ds_spend = [], ds_trials = [], ds_reliability = [],
      ds_valid = True, ds_hardFail = False, ds_family = [], ds_domains = [], ds_floorSuccess = [], ds_floorTotal = []\<rparr>"

section \<open>The metrics\<close>

definition rate :: "nat \<Rightarrow> nat \<Rightarrow> float64" where
  "rate k n = fdiv_pos (of_int64 (int k)) (of_int64 (int n))"

definition finish_metrics :: "spend_tally \<Rightarrow> metrics \<Rightarrow> metrics" where
  "finish_metrics s m =
     (let m = (if mt_latencies m \<noteq> []
               then m\<lparr>mt_latencyAvailability := put ''total'' ''reported-successful-trials-only'' (mt_latencyAvailability m)\<rparr> else m);
          m = (if mt_usageRows m > 0 then m\<lparr>mt_tokenStatus := ''partial''\<rparr> else m);
          m = (if mt_usageRows m = mt_planned m \<and> mt_planned m > 0
               then m\<lparr>mt_tokenStatus := ''reported'', mt_input := Some (sd_input s), mt_output := Some (sd_output s)\<rparr> else m);
          m = (if mt_planned m > 0
               then m\<lparr>mt_successRate := rate (mt_successes m) (mt_planned m), mt_scorableRate := rate (mt_scorable m) (mt_planned m)\<rparr> else m)
      in if sd_known s = mt_planned m \<and> mt_planned m > 0
         then m\<lparr>mt_cost := Some (sd_cost s), mt_currency := sd_currency s, mt_costStatus := ''reported''\<rparr> else m)"

definition all_metrics :: "decide_state \<Rightarrow> metrics gomap" where
  "all_metrics s = map (\<lambda>(k, m). (k, finish_metrics (get_or no_spend (ds_spend s) k) m)) (ds_metrics s)"

definition all_reliability :: "decide_state \<Rightarrow> reliability list" where
  "all_reliability s = map (\<lambda>(k, r). r\<lparr>rl_all := (rl_successes r = rl_planned r)\<rparr>) (ds_reliability s)"

section \<open>Matched pairs and clusters\<close>

definition pair_key :: "trial \<Rightarrow> string" where
  "pair_key t = tl_entry t @ ''/'' @ utf8_rune ((tl_repeat t + 2147483648) mod 4294967296 - 2147483648)"

definition pair_table :: "(string \<Rightarrow> observation option) \<Rightarrow> trial list \<Rightarrow> observation gomap gomap" where
  "pair_table lookup ts =
     foldl (\<lambda>m t. put (pair_key t)
       (put (tl_config t) (case lookup (tl_id t) of None \<Rightarrow> zero_observation | Some ob \<Rightarrow> ob) (get_or [] m (pair_key t))) m) [] ts"

definition worse_pair :: "string \<Rightarrow> string \<Rightarrow> observation gomap \<Rightarrow> bool" where
  "worse_pair baseline candidate pair =
     (ob_policyFailures (get_or zero_observation pair candidate) > ob_policyFailures (get_or zero_observation pair baseline))"

definition family_sum :: "float64 list \<Rightarrow> float64 list \<Rightarrow> float64" where
  "family_sum a b = foldl (\<lambda>acc (x, y). fadd acc (fsub y x)) (Finite 0) (zip a b)"

text \<open>The cluster of a family, or nothing when its two configurations do not match.\<close>

definition family_cluster :: "string \<Rightarrow> string \<Rightarrow> string gomap \<Rightarrow> string \<times> float64 list gomap \<Rightarrow> cluster option" where
  "family_cluster baseline candidate domains fam =
     (let (k, configs) = fam; a = get_or [] configs baseline; b = get_or [] configs candidate
      in if a = [] \<or> length a \<noteq> length b then None
         else Some \<lparr>ct_family = k, ct_domain = get_or [] domains k, ct_difference = fdiv_pos (family_sum a b) (of_int64 (int (length a)))\<rparr>)"

section \<open>The decision\<close>

definition set_verdict :: "string \<Rightarrow> string \<Rightarrow> decision_report \<Rightarrow> decision_report" where
  "set_verdict decision reason r = r\<lparr>dr_decision := decision, dr_reason := reason\<rparr>"

text \<open>The loop over the floors returns at the first domain that has none or misses its own.\<close>

fun check_floors :: "policy \<Rightarrow> decide_state \<Rightarrow> string list \<Rightarrow> (string \<times> string) option" where
  "check_floors p s [] = None"
| "check_floors p s (d # ds) =
     (case map_of (po_floors p) d of
        None \<Rightarrow> Some (''inconclusive'', ''absolute-floor-unset'')
      | Some minimum \<Rightarrow>
          if flt (rate (get_or 0 (ds_floorSuccess s) d) (get_or 0 (ds_floorTotal s) d)) minimum
          then Some (''fail'', ''absolute-floor'')
          else check_floors p s ds)"

definition interval_verdict :: "float64 \<Rightarrow> interval \<Rightarrow> string \<times> string" where
  "interval_verdict delta iv =
     (case (iv_lower iv, iv_upper iv) of
        (Some lower, Some upper) \<Rightarrow>
          if iv_status iv \<noteq> ''estimated'' then (''inconclusive'', iv_status iv)
          else if fle (fneg delta) lower then (''pass'', ''absolute-and-noninferiority-gates'')
          else if flt upper (fneg delta) then (''fail'', ''inferiority'')
          else (''inconclusive'', ''interval-crosses-margin'')
      | _ \<Rightarrow> (''inconclusive'', iv_status iv))"

definition ReportFormat :: string where "ReportFormat = ''statetwin.dev/baseline-report/v1alpha1''"

definition decision_initial :: "plan \<Rightarrow> decide_state \<Rightarrow> interval \<Rightarrow> decision_report" where
  "decision_initial p s iv =
     \<lparr>dr_format = ReportFormat, dr_planID = pl_id p, dr_planRevision = pl_revision p, dr_mode = pl_mode p, dr_purpose = pl_purpose p,
      dr_decision = ''invalid'', dr_reason = ''missing-or-invalid-evidence'', dr_metrics = all_metrics s,
      dr_reliability = all_reliability s, dr_trials = ds_trials s, dr_interval = iv,
      dr_sourceTrust = ''local-operator-asserted'',
      dr_hostObservation = (if pl_mode p = ''api-bridge-live'' then ''api-bridge-receipts-not-product-evidence'' else ''contract-test''),
      dr_shards = []\<rparr>"

definition verdict :: "(string list \<Rightarrow> string list) \<Rightarrow> plan \<Rightarrow> float64 \<Rightarrow> decide_state \<Rightarrow> bool \<Rightarrow> interval \<Rightarrow> string \<times> string" where
  "verdict order p delta s hardFail iv =
     (if hardFail then (''fail'', ''policy-or-required-task'')
      else case check_floors (pl_policy p) s (order (map fst (ds_floorTotal s))) of
        Some v \<Rightarrow> v
      | None \<Rightarrow> interval_verdict delta iv)"

text \<open>What follows the loop over the trials.\<close>

definition conclude ::
  "(string list \<Rightarrow> string list) \<Rightarrow> frozen \<Rightarrow> float64 \<Rightarrow> (string \<Rightarrow> observation option) \<Rightarrow> decide_state \<Rightarrow> decision_report option" where
  "conclude order f delta lookup s =
     (let p = fz_plan f; baseline = cf_id (pl_configs p ! 0); candidate = cf_id (pl_configs p ! 1);
          hardFail = (ds_hardFail s \<or> (\<exists>pair \<in> set (map snd (pair_table lookup (fz_trials f))). worse_pair baseline candidate pair));
          clusters = map (family_cluster baseline candidate (ds_domains s)) (ds_family s);
          valid = (ds_valid s \<and> None \<notin> set clusters)
      in if \<not> valid then Some (decision_initial p s (invalidInterval (length (ds_family s)) (po_seed (pl_policy p))))
         else map_option (\<lambda>iv.
                let (decision, reason) = verdict order p delta s hardFail iv
                in set_verdict decision reason (decision_initial p s iv))
              (Bootstrap (map the clusters) (pl_repeats p) (po_seed (pl_policy p))))"

definition Decide :: "(string list \<Rightarrow> string list) \<Rightarrow> frozen \<Rightarrow> observation list \<Rightarrow> (string + decision_report) option" where
  "Decide order f observations =
     (case po_delta (pl_policy (fz_plan f)) of
        None \<Rightarrow> Some (Inl ''BASELINE_PLAN_INVALID'')
      | Some delta \<Rightarrow>
          if length (pl_configs (fz_plan f)) \<noteq> 2 then Some (Inl ''BASELINE_PLAN_INVALID'')
          else case index_observations (map tl_id (fz_trials f)) [] observations of
            Inl e \<Rightarrow> Some (Inl e)
          | Inr byID \<Rightarrow>
              (case decide_trials (cf_id (pl_configs (fz_plan f) ! 1)) (map_of byID) (fz_trials f)
                      (decide_initial (pl_configs (fz_plan f))) of
                 Inl e \<Rightarrow> Some (Inl e)
               | Inr s \<Rightarrow> map_option Inr (conclude order f delta (map_of byID) s)))"

end
