(* ===== verification/Decision_Facts.thy ===== *)
theory Decision_Facts
  imports Decision
begin

text \<open>
  What \<open>Decide\<close> computes, in closed form: the joined observations do not depend on their
  order, the flags and counters of the loop are counts over the trials, and the loop over the
  floors is a check of every domain whenever every domain has a floor.
\<close>

section \<open>The joined observations\<close>

definition admissible :: "string list \<Rightarrow> observation \<Rightarrow> bool" where
  "admissible planned ob \<longleftrightarrow>
     ob_trial ob \<in> set planned \<and> 0 \<le> ob_policyFailures ob \<and> 0 \<le> ob_illegalAttempts ob \<and> 0 \<le> ob_illegalEffects ob"

definition by_trial :: "observation list \<Rightarrow> (string \<times> observation) list" where
  "by_trial obs = map (\<lambda>ob. (ob_trial ob, ob)) obs"

lemma index_observations_eq:
  "index_observations planned byID obs =
     (if distinct (map ob_trial obs) \<and> (\<forall>ob \<in> set obs. map_of byID (ob_trial ob) = None \<and> admissible planned ob)
      then Inr (rev (by_trial obs) @ byID) else Inl ''BASELINE_EVIDENCE_INVALID'')"
proof (induction obs arbitrary: byID)
  case (Cons ob obs)
  have ad: "(ob_trial ob \<notin> set planned \<or> ob_policyFailures ob < 0 \<or> ob_illegalAttempts ob < 0 \<or> ob_illegalEffects ob < 0) =
      (\<not> admissible planned ob)"
    by (auto simp: admissible_def)
  show ?case unfolding index_observations.simps ad Cons.IH by (auto simp: by_trial_def intro: image_eqI [OF sym])
qed (simp add: by_trial_def)

lemma index_observations_perm:
  assumes "mset xs = mset ys"
  shows "rel_sum (=) (\<lambda>m m'. map_of m = map_of m') (index_observations planned [] xs) (index_observations planned [] ys)"
proof -
  have s: "set xs = set ys" by (rule mset_eq_setD [OF assms])
  have "mset (map ob_trial xs) = mset (map ob_trial ys)" using assms by simp
  then have d: "distinct (map ob_trial xs) = distinct (map ob_trial ys)" by (rule mset_eq_imp_distinct_iff)
  have "map_of (rev (by_trial xs)) = map_of (rev (by_trial ys))" if "distinct (map ob_trial xs)"
    using that d s by (subst map_of_inject_set) (auto simp: by_trial_def comp_def rev_map [symmetric])
  with d s show ?thesis by (simp add: index_observations_eq)
qed

section \<open>The loop over the trials\<close>

definition hard_failure :: "string \<Rightarrow> (string \<Rightarrow> observation option) \<Rightarrow> trial \<Rightarrow> bool" where
  "hard_failure candidate lookup t \<longleftrightarrow>
     tl_config t = candidate \<and>
     ((case lookup (tl_id t) of None \<Rightarrow> False | Some ob \<Rightarrow> ob_illegalEffects ob > 0) \<or>
      (tl_required t \<and> \<not> succeeded (lookup (tl_id t))))"

definition tries :: "string \<Rightarrow> string \<Rightarrow> trial list \<Rightarrow> nat" where
  "tries candidate d ts = length (filter (\<lambda>t. tl_config t = candidate \<and> tl_domain t = d) ts)"

definition wins :: "string \<Rightarrow> (string \<Rightarrow> observation option) \<Rightarrow> string \<Rightarrow> trial list \<Rightarrow> nat" where
  "wins candidate lookup d ts =
     length (filter (\<lambda>t. tl_config t = candidate \<and> tl_domain t = d \<and> succeeded (lookup (tl_id t))) ts)"

definition outcomes :: "(string \<Rightarrow> observation option) \<Rightarrow> string \<Rightarrow> string \<Rightarrow> trial list \<Rightarrow> float64 list" where
  "outcomes lookup fam c ts =
     map (\<lambda>t. if succeeded (lookup (tl_id t)) then Finite 1 else Finite 0) (filter (\<lambda>t. tl_family t = fam \<and> tl_config t = c) ts)"

lemma decide_trial_Inr:
  assumes "decide_trial candidate lookup t s = Inr s'"
  shows "ds_valid s' = (ds_valid s \<and> scorable (lookup (tl_id t)))"
    and "ds_hardFail s' = (ds_hardFail s \<or> hard_failure candidate lookup t)"
    and "fst ` set (ds_family s') = insert (tl_family t) (fst ` set (ds_family s))"
    and "get_or [] (get_or [] (ds_family s') fam) c = get_or [] (get_or [] (ds_family s) fam) c @ outcomes lookup fam c [t]"
    and "fst ` set (ds_floorTotal s') = (if tl_config t = candidate then {tl_domain t} else {}) \<union> fst ` set (ds_floorTotal s)"
    and "get_or 0 (ds_floorTotal s') d = get_or 0 (ds_floorTotal s) d + tries candidate d [t]"
    and "get_or 0 (ds_floorSuccess s') d = get_or 0 (ds_floorSuccess s) d + wins candidate lookup d [t]"
    and "length (ds_family s') \<le> Suc (length (ds_family s))"
proof -
  obtain m where m: "map_of (ds_metrics s) (tl_config t) = Some m"
    using assms by (cases "map_of (ds_metrics s) (tl_config t)") (auto simp: decide_trial_def)
  note s' = assms [unfolded decide_trial_def m option.case Let_def, THEN sum.inject(2) [THEN iffD1], symmetric]
  have len: "length (put k v q) \<le> Suc (length q)" for k and v :: "float64 list gomap" and q
    by (induction k v q rule: put.induct) auto
  show "ds_valid s' = (ds_valid s \<and> scorable (lookup (tl_id t)))" by (simp add: s')
  show "ds_hardFail s' = (ds_hardFail s \<or> hard_failure candidate lookup t)"
    by (auto simp: s' hard_failure_def missing_observation_def zero_observation_def split: option.splits)
  show "fst ` set (ds_family s') = insert (tl_family t) (fst ` set (ds_family s))"
    by (simp add: s' tally_family_def Let_def set_keys_put)
  show "get_or [] (get_or [] (ds_family s') fam) c = get_or [] (get_or [] (ds_family s) fam) c @ outcomes lookup fam c [t]"
    by (auto simp: s' tally_family_def Let_def get_or_def outcomes_def)
  show "fst ` set (ds_floorTotal s') = (if tl_config t = candidate then {tl_domain t} else {}) \<union> fst ` set (ds_floorTotal s)"
    by (simp add: s' set_keys_put)
  show "get_or 0 (ds_floorTotal s') d = get_or 0 (ds_floorTotal s) d + tries candidate d [t]"
    by (auto simp: s' get_or_def tries_def)
  show "get_or 0 (ds_floorSuccess s') d = get_or 0 (ds_floorSuccess s) d + wins candidate lookup d [t]"
    by (auto simp: s' get_or_def wins_def)
  show "length (ds_family s') \<le> Suc (length (ds_family s))" by (simp add: s' tally_family_def Let_def len)
qed

lemma decide_trials_all:
  assumes "decide_trials candidate lookup ts s = Inr s'"
  shows "(ds_valid s' = (ds_valid s \<and> (\<forall>t \<in> set ts. scorable (lookup (tl_id t))))) \<and>
    (ds_hardFail s' = (ds_hardFail s \<or> (\<exists>t \<in> set ts. hard_failure candidate lookup t))) \<and>
    (fst ` set (ds_family s') = tl_family ` set ts \<union> fst ` set (ds_family s)) \<and>
    (\<forall>fam c. get_or [] (get_or [] (ds_family s') fam) c = get_or [] (get_or [] (ds_family s) fam) c @ outcomes lookup fam c ts) \<and>
    (fst ` set (ds_floorTotal s') = tl_domain ` {t \<in> set ts. tl_config t = candidate} \<union> fst ` set (ds_floorTotal s)) \<and>
    (\<forall>d. get_or 0 (ds_floorTotal s') d = get_or 0 (ds_floorTotal s) d + tries candidate d ts) \<and>
    (\<forall>d. get_or 0 (ds_floorSuccess s') d = get_or 0 (ds_floorSuccess s) d + wins candidate lookup d ts) \<and>
    (length (ds_family s') \<le> length (ds_family s) + length ts)"
  using assms
proof (induction ts arbitrary: s)
  case (Cons t ts)
  obtain s1 where s1: "decide_trial candidate lookup t s = Inr s1" "decide_trials candidate lookup ts s1 = Inr s'"
    using Cons.prems by (auto simp: bindE_eq_Inr)
  note one = decide_trial_Inr [OF s1(1)] and rest = Cons.IH [OF s1(2)]
  have "\<forall>fam c. get_or [] (get_or [] (ds_family s') fam) c = get_or [] (get_or [] (ds_family s) fam) c @ outcomes lookup fam c (t # ts)"
    using one(4) rest by (simp add: outcomes_def)
  moreover have "\<forall>d. get_or 0 (ds_floorTotal s') d = get_or 0 (ds_floorTotal s) d + tries candidate d (t # ts)"
    using one(6) rest by (simp add: tries_def)
  moreover have "\<forall>d. get_or 0 (ds_floorSuccess s') d = get_or 0 (ds_floorSuccess s) d + wins candidate lookup d (t # ts)"
    using one(7) rest by (simp add: wins_def)
  moreover have "fst ` set (ds_floorTotal s') = tl_domain ` {t' \<in> set (t # ts). tl_config t' = candidate} \<union> fst ` set (ds_floorTotal s)"
    using one(5) rest by auto
  ultimately show ?case using one(1,2,3,8) rest by auto
qed (auto simp: outcomes_def tries_def wins_def)

lemmas decide_trials_Inr =
  decide_trials_all [THEN conjunct1]
  decide_trials_all [THEN conjunct2, THEN conjunct1]
  decide_trials_all [THEN conjunct2, THEN conjunct2, THEN conjunct1]
  decide_trials_all [THEN conjunct2, THEN conjunct2, THEN conjunct2, THEN conjunct1, THEN spec, THEN spec]
  decide_trials_all [THEN conjunct2, THEN conjunct2, THEN conjunct2, THEN conjunct2, THEN conjunct1]
  decide_trials_all [THEN conjunct2, THEN conjunct2, THEN conjunct2, THEN conjunct2, THEN conjunct2, THEN conjunct1, THEN spec]
  decide_trials_all [THEN conjunct2, THEN conjunct2, THEN conjunct2, THEN conjunct2, THEN conjunct2, THEN conjunct2, THEN conjunct1, THEN spec]
  decide_trials_all [THEN conjunct2, THEN conjunct2, THEN conjunct2, THEN conjunct2, THEN conjunct2, THEN conjunct2, THEN conjunct2]

section \<open>The floors\<close>

definition floor_met :: "policy \<Rightarrow> decide_state \<Rightarrow> string \<Rightarrow> bool" where
  "floor_met p s d \<longleftrightarrow>
     (case map_of (po_floors p) d of
        None \<Rightarrow> False
      | Some minimum \<Rightarrow> \<not> flt (rate (get_or 0 (ds_floorSuccess s) d) (get_or 0 (ds_floorTotal s) d)) minimum)"

lemma check_floors_None: "check_floors p s ds = None \<longleftrightarrow> (\<forall>d \<in> set ds. floor_met p s d)"
  by (induction ds) (auto simp: floor_met_def split: option.splits)

lemma check_floors_set:
  assumes "\<forall>d \<in> set ds. map_of (po_floors p) d \<noteq> None"
  shows "check_floors p s ds = (if \<forall>d \<in> set ds. floor_met p s d then None else Some (''fail'', ''absolute-floor''))"
  using assms by (induction ds) (auto simp: floor_met_def)

section \<open>The metrics\<close>

definition of_config :: "string \<Rightarrow> (string \<Rightarrow> observation option) \<Rightarrow> (observation option \<Rightarrow> bool) \<Rightarrow> trial list \<Rightarrow> nat" where
  "of_config c lookup P ts = length (filter (\<lambda>t. tl_config t = c \<and> P (lookup (tl_id t))) ts)"

definition counted :: "metrics \<Rightarrow> nat list" where
  "counted m = [mt_planned m, mt_scorable m, mt_complete m, mt_successes m, mt_missing m]"

definition counts :: "string \<Rightarrow> (string \<Rightarrow> observation option) \<Rightarrow> trial list \<Rightarrow> nat list" where
  "counts c lookup ts =
     map (\<lambda>P. of_config c lookup P ts) [\<lambda>_. True, scorable, scorable, succeeded, \<lambda>x. x = None]"

lemma decide_trials_metrics:
  assumes "decide_trials candidate lookup ts s = Inr s'" "map_of (ds_metrics s) c = Some m"
  shows "\<exists>m'. map_of (ds_metrics s') c = Some m' \<and> counted m' = map2 (+) (counted m) (counts c lookup ts)"
  using assms
proof (induction ts arbitrary: s m)
  case (Cons t ts)
  obtain s1 where s1: "decide_trial candidate lookup t s = Inr s1" "decide_trials candidate lookup ts s1 = Inr s'"
    using Cons.prems(1) by (auto simp: bindE_eq_Inr)
  obtain n where n: "map_of (ds_metrics s) (tl_config t) = Some n"
    using s1(1) by (cases "map_of (ds_metrics s) (tl_config t)") (auto simp: decide_trial_def)
  have m1: "map_of (ds_metrics s1) c = Some (if tl_config t = c then tally_metrics (lookup (tl_id t)) m else m)"
    using s1(1) n Cons.prems(2) by (auto simp: decide_trial_def Let_def)
  have step: "counted (if tl_config t = c then tally_metrics (lookup (tl_id t)) m else m) = map2 (+) (counted m) (counts c lookup [t])"
    by (simp add: counted_def counts_def of_config_def tally_metrics_def count_if_def Let_def)
  obtain m' where "map_of (ds_metrics s') c = Some m'"
      "counted m' = map2 (+) (map2 (+) (counted m) (counts c lookup [t])) (counts c lookup ts)"
    using Cons.IH [OF s1(2) m1] unfolding step by blast
  moreover have "map2 (+) (map2 (+) (counted m) (counts c lookup [t])) (counts c lookup ts) = map2 (+) (counted m) (counts c lookup (t # ts))"
    by (simp add: counted_def counts_def of_config_def)
  ultimately show ?case by simp
qed (simp add: counted_def counts_def of_config_def)

lemma decide_trial_metrics:
  assumes "decide_trial candidate lookup t s = Inr s'"
  shows "\<exists>m. map_of (ds_metrics s) (tl_config t) = Some m \<and>
    ds_metrics s' = put (tl_config t) (tally_metrics (lookup (tl_id t)) m) (ds_metrics s)"
  using assms by (cases "map_of (ds_metrics s) (tl_config t)") (auto simp: decide_trial_def Let_def)

lemma decide_trials_metrics_keys:
  "decide_trials candidate lookup ts s = Inr s' \<Longrightarrow> fst ` set (ds_metrics s') = fst ` set (ds_metrics s)"
proof (induction ts arbitrary: s)
  case (Cons t ts)
  obtain s1 where s1: "decide_trial candidate lookup t s = Inr s1" "decide_trials candidate lookup ts s1 = Inr s'"
    using Cons.prems by (auto simp: bindE_eq_Inr)
  obtain n where n: "map_of (ds_metrics s) (tl_config t) = Some n"
      "ds_metrics s1 = put (tl_config t) (tally_metrics (lookup (tl_id t)) n) (ds_metrics s)"
    using decide_trial_metrics [OF s1(1)] by blast
  have "tl_config t \<in> fst ` set (ds_metrics s)" using map_of_SomeD [OF n(1)] by force
  then have "fst ` set (ds_metrics s1) = fst ` set (ds_metrics s)" unfolding n(2) set_keys_put by (rule insert_absorb)
  with Cons.IH [OF s1(2)] show ?case by simp
qed simp

lemma new_metrics_only:
  "map_of (foldl (\<lambda>m c. put (cf_id c) new_metrics m) m0 cs) k = (if k \<in> cf_id ` set cs then Some new_metrics else map_of m0 k)"
  by (induction cs arbitrary: m0) auto

lemma map_of_mapped: "map_of (map (\<lambda>(k, v). (k, f k v)) m) k = map_option (f k) (map_of m k)"
  by (induction m) auto

lemma finish_metrics_counted [simp]: "counted (finish_metrics s m) = counted m"
  by (simp add: finish_metrics_def counted_def Let_def)

lemma finish_metrics_rates:
  "mt_successRate (finish_metrics s m) = (if mt_planned m > 0 then rate (mt_successes m) (mt_planned m) else mt_successRate m)"
  "mt_scorableRate (finish_metrics s m) = (if mt_planned m > 0 then rate (mt_scorable m) (mt_planned m) else mt_scorableRate m)"
  by (auto simp: finish_metrics_def Let_def)

lemma rate_value:
  assumes "k \<le> n" "0 < n" "n < 2 ^ 53"
  shows "rate k n = Finite (rnd (of_nat k / of_nat n))"
proof -
  have "of_int64 (int k) = Finite (of_int (int k))" by (rule of_int64_exact) (use assms in simp)
  moreover have "of_int64 (int n) = Finite (of_int (int n))" by (rule of_int64_exact) (use assms in simp)
  moreover have "\<bar>(of_nat k :: rat) / of_nat n\<bar> \<le> of_int 1" using assms by (simp add: divide_le_eq)
  then obtain r where "round64 (of_nat k / of_nat n) = Finite r" using round64_bound [of "of_nat k / of_nat n" 1] by auto
  ultimately show ?thesis by (auto simp: rate_def round64_def Let_def split: if_splits)
qed

lemma rate_mono:
  assumes "j \<le> k" "k \<le> n" "0 < n" "n < 2 ^ 53"
  shows "fle (rate j n) (rate k n)"
  using assms by (simp add: rate_value) (intro rnd_mono divide_right_mono; simp)

lemma rate_bounds:
  assumes "k \<le> n" "0 < n" "n < 2 ^ 53"
  shows "fle (Finite 0) (rate k n)" "fle (rate k n) (Finite 1)"
proof -
  have "rate 0 n = Finite 0" "rate n n = Finite 1"
    using assms rnd_int [of 1] by (simp_all add: rate_value rnd_def [of 0])
  then show "fle (Finite 0) (rate k n)" "fle (rate k n) (Finite 1)"
    using rate_mono [of 0 k n] rate_mono [of k n n] assms by auto
qed

section \<open>The whole decision\<close>

definition observation_of :: "observation list \<Rightarrow> trial \<Rightarrow> observation option" where
  "observation_of obs t = map_of (rev (by_trial obs)) (tl_id t)"

definition pairs_worse :: "frozen \<Rightarrow> observation list \<Rightarrow> bool" where
  "pairs_worse f obs \<longleftrightarrow>
     (\<exists>pair \<in> set (map snd (pair_table (map_of (rev (by_trial obs))) (fz_trials f))).
        worse_pair (cf_id (pl_configs (fz_plan f) ! 0)) (cf_id (pl_configs (fz_plan f) ! 1)) pair)"

definition clusters_of :: "frozen \<Rightarrow> decide_state \<Rightarrow> cluster option list" where
  "clusters_of f s =
     map (family_cluster (cf_id (pl_configs (fz_plan f) ! 0)) (cf_id (pl_configs (fz_plan f) ! 1)) (ds_domains s)) (ds_family s)"

definition decided ::
  "(string list \<Rightarrow> string list) \<Rightarrow> frozen \<Rightarrow> observation list \<Rightarrow> float64 \<Rightarrow> decide_state \<Rightarrow> decision_report \<Rightarrow> bool" where
  "decided order f obs delta s r \<longleftrightarrow>
     (if ds_valid s \<and> None \<notin> set (clusters_of f s)
      then \<exists>iv. Bootstrap (map the (clusters_of f s)) (pl_repeats (fz_plan f)) (po_seed (pl_policy (fz_plan f))) = Some iv \<and>
        r = (case verdict order (fz_plan f) delta s (ds_hardFail s \<or> pairs_worse f obs) iv of
          (d, reason) \<Rightarrow> set_verdict d reason (decision_initial (fz_plan f) s iv))
      else r = decision_initial (fz_plan f) s (invalidInterval (length (ds_family s)) (po_seed (pl_policy (fz_plan f)))))"

lemma Decide_cases:
  assumes "Decide order f obs = Some (Inr r)"
  obtains delta s where "po_delta (pl_policy (fz_plan f)) = Some delta" "length (pl_configs (fz_plan f)) = 2"
    "distinct (map ob_trial obs)" "\<forall>ob \<in> set obs. admissible (map tl_id (fz_trials f)) ob"
    "decide_trials (cf_id (pl_configs (fz_plan f) ! 1)) (map_of (rev (by_trial obs))) (fz_trials f)
       (decide_initial (pl_configs (fz_plan f))) = Inr s"
    "decided order f obs delta s r"
proof -
  obtain delta where delta: "po_delta (pl_policy (fz_plan f)) = Some delta" "length (pl_configs (fz_plan f)) = 2"
    using assms by (auto simp: Decide_def Let_def split: option.splits if_splits)
  then have two: "(length (pl_configs (fz_plan f)) \<noteq> 2) = False" by simp
  note D = assms [unfolded Decide_def delta(1) option.case two if_False index_observations_eq append_Nil2]
  have obs: "distinct (map ob_trial obs) \<and>
      (\<forall>ob \<in> set obs. map_of [] (ob_trial ob) = None \<and> admissible (map tl_id (fz_trials f)) ob)"
    using D by (auto split: if_splits)
  note D = D [unfolded if_P [OF obs] sum.case]
  obtain s where s: "decide_trials (cf_id (pl_configs (fz_plan f) ! 1)) (map_of (rev (by_trial obs))) (fz_trials f)
       (decide_initial (pl_configs (fz_plan f))) = Inr s"
    using D by (auto split: sum.splits)
  have "conclude order f delta (map_of (rev (by_trial obs))) s = Some r" using D [unfolded s sum.case] by auto
  note D = this [unfolded conclude_def Let_def, folded clusters_of_def pairs_worse_def]
  have "decided order f obs delta s r"
    unfolding decided_def using D by (auto split: if_splits prod.splits)
  with delta obs s show ?thesis by (intro that) auto
qed

lemma decide_trials_wf:
  assumes "decide_trials candidate lookup ts s = Inr s'" "wf_map (ds_family s)"
  shows "wf_map (ds_family s')"
  using assms
proof (induction ts arbitrary: s)
  case (Cons t ts)
  obtain s1 where s1: "decide_trial candidate lookup t s = Inr s1" "decide_trials candidate lookup ts s1 = Inr s'"
    using Cons.prems(1) by (auto simp: bindE_eq_Inr)
  have "ds_family s1 = tally_family t (lookup (tl_id t)) (ds_family s)"
    using s1(1) by (cases "map_of (ds_metrics s) (tl_config t)") (auto simp: decide_trial_def Let_def)
  then have "wf_map (ds_family s1)" using Cons.prems(2) by (simp add: tally_family_def Let_def wf_map_put)
  then show ?case by (rule Cons.IH [OF s1(2)])
qed simp

lemma decide_initial_fields [simp]:
  "ds_valid (decide_initial cs)" "\<not> ds_hardFail (decide_initial cs)" "ds_family (decide_initial cs) = []"
  "ds_floorTotal (decide_initial cs) = []" "ds_floorSuccess (decide_initial cs) = []"
  by (simp_all add: decide_initial_def)

lemma get_or_empty [simp]: "get_or d [] k = d"
  by (simp add: get_or_def)

text \<open>Both configurations tried a family, equally often.\<close>

definition matched :: "frozen \<Rightarrow> string \<Rightarrow> bool" where
  "matched f fam \<longleftrightarrow>
     (let n = (\<lambda>i. length (filter (\<lambda>t. tl_family t = fam \<and> tl_config t = cf_id (pl_configs (fz_plan f) ! i)) (fz_trials f)))
      in n 0 \<noteq> 0 \<and> n 0 = n 1)"

lemma clusters_matched:
  assumes "decide_trials candidate lookup (fz_trials f) (decide_initial cs) = Inr s"
  shows "None \<notin> set (clusters_of f s) \<longleftrightarrow> (\<forall>t \<in> set (fz_trials f). matched f (tl_family t))"
proof -
  have wf: "wf_map (ds_family s)" by (rule decide_trials_wf [OF assms]) simp
  let ?c = "\<lambda>i. cf_id (pl_configs (fz_plan f) ! i)"
  have out: "get_or [] (get_or [] (ds_family s) fam) c = outcomes lookup fam c (fz_trials f)" for fam c
    using decide_trials_Inr(4) [OF assms, of fam c] by simp
  have one: "family_cluster (?c 0) (?c 1) (ds_domains s) (fam, get_or [] (ds_family s) fam) \<noteq> None \<longleftrightarrow> matched f fam" for fam
    unfolding family_cluster_def matched_def prod.case Let_def out by (simp add: outcomes_def)
  have entry: "get_or [] (ds_family s) k = configs" if "(k, configs) \<in> set (ds_family s)" for k configs
    using map_of_is_SomeI [OF wf_map_distinct [OF wf] that] by (simp add: get_or_def)
  have pt: "(\<exists>y. family_cluster (?c 0) (?c 1) (ds_domains s) (k, configs) = Some y) = matched f k" if "(k, configs) \<in> set (ds_family s)" for k configs
    using one [of k] entry [OF that] by (simp only: not_None_eq)
  have "None \<notin> set (clusters_of f s) \<longleftrightarrow> (\<forall>(k, configs) \<in> set (ds_family s). family_cluster (?c 0) (?c 1) (ds_domains s) (k, configs) \<noteq> None)"
    unfolding clusters_of_def set_map image_iff split_beta prod.collapse Bex_def Ball_def by (simp only: One_nat_def) (metis)
  also have "\<dots> \<longleftrightarrow> (\<forall>(k, configs) \<in> set (ds_family s). matched f k)" using pt by (intro ball_cong refl) (simp only: split_beta not_None_eq, metis prod.collapse pt)
  also have "\<dots> \<longleftrightarrow> (\<forall>k \<in> fst ` set (ds_family s). matched f k)" by auto
  also have "fst ` set (ds_family s) = tl_family ` set (fz_trials f)" using decide_trials_Inr(3) [OF assms] by simp
  finally show ?thesis by simp
qed

lemma clusters_length:
  assumes "decide_trials candidate lookup (fz_trials f) (decide_initial cs) = Inr s"
  shows "length (map the (clusters_of f s)) \<le> length (fz_trials f)"
  using decide_trials_Inr(8) [OF assms] by (simp add: clusters_of_def)

lemma floor_met_counts:
  assumes "decide_trials candidate lookup ts (decide_initial cs) = Inr s"
  shows "floor_met p s d \<longleftrightarrow>
    (\<exists>minimum. map_of (po_floors p) d = Some minimum \<and> \<not> flt (rate (wins candidate lookup d ts) (tries candidate d ts)) minimum)"
  using decide_trials_Inr(6,7) [OF assms, of d] by (auto simp: floor_met_def split: option.splits)

lemma decide_domains:
  assumes "decide_trials candidate lookup ts (decide_initial cs) = Inr s" "\<forall>xs. set (order xs) = set xs"
  shows "set (order (map fst (ds_floorTotal s))) = tl_domain ` {t \<in> set ts. tl_config t = candidate}"
  using decide_trials_Inr(5) [OF assms(1)] assms(2) by simp

lemma interval_verdict_pass:
  assumes "rel_option fle (iv_lower iv) (iv_upper iv)" "(iv_lower iv \<noteq> None) = (iv_status iv = ''estimated'')"
  shows "fst (interval_verdict delta iv) = ''pass'' \<longleftrightarrow> (\<exists>lower. iv_lower iv = Some lower \<and> fle (fneg delta) lower)"
  using assms by (auto simp: interval_verdict_def split: option.splits)

text \<open>On complete evidence the decision is the verdict on some interval.\<close>

lemma Decide_valid:
  assumes "po_delta (pl_policy (fz_plan f)) = Some delta" "length (pl_configs (fz_plan f)) = 2" "length (fz_trials f) < 2 ^ 52"
    and "distinct (map ob_trial obs)" "\<forall>ob \<in> set obs. admissible (map tl_id (fz_trials f)) ob"
    and s: "decide_trials (cf_id (pl_configs (fz_plan f) ! 1)) (map_of (rev (by_trial obs))) (fz_trials f)
       (decide_initial (pl_configs (fz_plan f))) = Inr s"
    and "ds_valid s" "\<forall>t \<in> set (fz_trials f). matched f (tl_family t)"
  shows "\<exists>iv. \<forall>order. Decide order f obs =
    Some (Inr (case verdict order (fz_plan f) delta s (ds_hardFail s \<or> pairs_worse f obs) iv of
      (d, reason) \<Rightarrow> set_verdict d reason (decision_initial (fz_plan f) s iv)))"
proof -
  have cl: "None \<notin> set (clusters_of f s)" using clusters_matched [OF s] assms(8) by blast
  have "length (map the (clusters_of f s)) < 2 ^ 52" using clusters_length [OF s] assms(3) by linarith
  from Bootstrap_result [OF this] obtain iv where
    iv: "Bootstrap (map the (clusters_of f s)) (pl_repeats (fz_plan f)) (po_seed (pl_policy (fz_plan f))) = Some iv" by blast
  have two: "(length (pl_configs (fz_plan f)) \<noteq> 2) = False" using assms(2) by simp
  have adm: "distinct (map ob_trial obs) \<and>
      (\<forall>ob \<in> set obs. map_of [] (ob_trial ob) = None \<and> admissible (map tl_id (fz_trials f)) ob)"
    using assms(4,5) by simp
  have "\<not> \<not> (ds_valid s \<and> None \<notin> set (clusters_of f s))" using assms(7) cl by simp
  note valid = if_not_P [OF this]
  show ?thesis
    unfolding Decide_def assms(1) option.case two if_False index_observations_eq append_Nil2 if_P [OF adm] sum.case s conclude_def Let_def
      clusters_of_def [symmetric] pairs_worse_def [symmetric] valid iv option.map
    by (intro exI [of _ iv]) (simp add: split_beta)
qed

end
