(* ===== verification/Baseline_Props.thy ===== *)
theory Baseline_Props
  imports Decision_Facts
begin

text \<open>
  The properties of the baseline experiments: the generator returns and is not biased, a frozen
  experiment is a set of matched pairs, and the decision is reached from complete evidence only,
  whatever the order of the evidence.
\<close>

section \<open>An experiment\<close>

definition example_host :: host where
  "example_host = \<lparr>ho_name = ''mcp-client'', ho_version = ''go-sdk-1.8.0'', ho_model = ''mock/statetwin'', ho_fresh = True,
     ho_toolsOnly = True, ho_additional = 0\<rparr>"

definition example_config :: "string \<Rightarrow> config" where
  "example_config c = \<lparr>cf_id = c, cf_provider = ''mock'', cf_requestedModel = ''mock/statetwin'', cf_host = example_host,
     cf_adapter = ''go-sdk-1.8.0'', cf_promptVersion = ''v1''\<rparr>"

definition example_plan :: plan where
  "example_plan = \<lparr>pl_format = PlanFormat, pl_id = ''demo'', pl_revision = ''r1'', pl_purpose = ''pilot'', pl_mode = ''offline-contract'',
     pl_pack = ''pack.yaml'', pl_profile = ''profile.yaml'', pl_entries = [''e1'', ''e2''],
     pl_configs = [example_config ''base'', example_config ''cand''], pl_repeats = 1, pl_shardSeconds = 60, pl_perShard = 4,
     pl_policy = \<lparr>po_delta = Some (Finite 0), po_floors = [(''files'', Finite 1), (''web'', Finite 1)], po_required = [''e1''],
       po_algorithm = Algorithm, po_seed = 1, po_samples = 10000\<rparr>, pl_livePlans = []\<rparr>"

definition example_entry :: "string \<Rightarrow> pack_entry option" where
  "example_entry i =
     (if i = ''e1'' then Some \<lparr>pe_family = ''f1'', pe_split = ''dev'', pe_disclosure = [], pe_domain = ''files''\<rparr>
      else if i = ''e2'' then Some \<lparr>pe_family = ''f2'', pe_split = ''dev'', pe_disclosure = [], pe_domain = ''web''\<rparr> else None)"

definition example_trials :: "trial list" where
  "example_trials = (case prepare_trials example_entry example_plan of Inl _ \<Rightarrow> [] | Inr ts \<Rightarrow> ts)"

definition example_frozen :: frozen where
  "example_frozen = \<lparr>fz_plan = example_plan, fz_trials = example_trials\<rparr>"

definition example_observation :: "bool \<Rightarrow> string \<Rightarrow> observation" where
  "example_observation success i =
     zero_observation\<lparr>ob_trial := i, ob_state := ''completed'', ob_verified := True, ob_cleanup := ''complete'', ob_success := success\<rparr>"

text \<open>Every trial succeeds, except those named.\<close>

definition example_observations :: "string list \<Rightarrow> observation list" where
  "example_observations failed = map (\<lambda>t. example_observation (tl_id t \<notin> set failed) (tl_id t)) example_trials"

lemma example_prepared: "prepare_trials example_entry example_plan = Inr example_trials"
  by code_simp

lemma example_length: "length (fz_trials example_frozen) = 4"
  by code_simp

definition example_run :: "string list \<Rightarrow> string + decide_state" where
  "example_run failed =
     decide_trials ''cand'' (map_of (rev (by_trial (example_observations failed)))) example_trials (decide_initial (pl_configs example_plan))"

lemma example_evidence:
  "length (pl_configs (fz_plan example_frozen)) = 2" "length (pl_configs example_plan) = 2" "po_delta (pl_policy (fz_plan example_frozen)) = Some (Finite 0)"
  "cf_id (pl_configs (fz_plan example_frozen) ! 1) = ''cand''" "pl_configs (fz_plan example_frozen) = pl_configs example_plan"
  "cf_id (pl_configs example_plan ! Suc 0) = ''cand''" "fz_trials example_frozen = example_trials" "fz_plan example_frozen = example_plan"
  by (simp_all add: example_frozen_def example_plan_def example_config_def)

lemma example_matched: "\<forall>t \<in> set example_trials. matched example_frozen (tl_family t)"
  by code_simp

lemma example_observations_ok:
  "distinct (map ob_trial (example_observations failed))"
  "\<forall>ob \<in> set (example_observations failed). admissible (map tl_id example_trials) ob"
proof -
  have "distinct (map tl_id example_trials)" by code_simp
  then show "distinct (map ob_trial (example_observations failed))"
    by (simp add: example_observations_def comp_def example_observation_def zero_observation_def)
  show "\<forall>ob \<in> set (example_observations failed). admissible (map tl_id example_trials) ob"
    by (auto simp: example_observations_def admissible_def example_observation_def zero_observation_def)
qed

lemma example_decides_run:
  assumes "example_run failed = Inr s" "ds_valid s"
  shows "\<exists>iv. \<forall>order. Decide order example_frozen (example_observations failed) =
    Some (Inr (case verdict order example_plan (Finite 0) s (ds_hardFail s \<or> pairs_worse example_frozen (example_observations failed)) iv of
      (d, reason) \<Rightarrow> set_verdict d reason (decision_initial example_plan s iv)))"
  using Decide_valid [OF example_evidence(3,1), of "example_observations failed" s] example_observations_ok [of failed]
    assms example_matched example_length by (simp add: example_evidence example_run_def)

lemma example_decides: "\<exists>r. Decide order example_frozen (example_observations []) = Some (Inr r)"
proof -
  have "case example_run [] of Inr s \<Rightarrow> ds_valid s | Inl _ \<Rightarrow> False" by code_simp
  then obtain s where "example_run [] = Inr s" "ds_valid s" by (auto split: sum.splits)
  from example_decides_run [OF this] show ?thesis by blast
qed

section \<open>The generator\<close>

text \<open>The loop of \<open>index\<close>, which has no bound in the code, returns a number below \<open>n\<close> after at most \<open>n\<close> draws from any state.\<close>
theorem index_terminates:
  assumes "0 < n" "n < 2 ^ 63"
  shows "\<exists>k < n. \<exists>i < n. index n s = Some (i, s + word_of_nat (Suc k) * gamma)"
proof -
  obtain k where "k < n" "index n s = Some (unat (nth_draw k s) mod n, nth_state (Suc k) s)"
    using index_draws [OF assms] by blast
  then show ?thesis using assms(1) by (intro exI [of _ k] conjI exI [of _ "unat (nth_draw k s) mod n"]) (auto simp: nth_state_def)
qed

theorem index_terminates_witness: "\<exists>k < (3::nat). \<exists>i < 3. index 3 7 = Some (i, 7 + word_of_nat (Suc k) * gamma)"
  by (rule index_terminates) simp_all

text \<open>Among the words that the loop accepts every index has the same number of words: the index is drawn without modulo bias.\<close>
theorem index_unbiased:
  assumes "i < n" "n < 2 ^ 64"
  shows "card {x :: 64 word. bias_limit (word_of_nat n) \<le> x \<and> unat (x mod word_of_nat n) = i} = 2 ^ 64 div n"
proof -
  define L m where "L = (2 ^ 64 - n) mod n" and "m = 2 ^ 64 div n"
  have n: "0 < n" using assms(1) by simp
  have lim: "unat (bias_limit (word_of_nat n)) = L" using unat_bias_limit [OF n assms(2)] by (simp add: L_def)
  have un: "unat (word_of_nat n :: 64 word) = n" using assms(2) by (simp add: unat_of_nat take_bit_nat_eq_self)
  have "L = 2 ^ 64 mod n" using assms(2) by (simp add: L_def mod_if [of "2 ^ 64" n] le_mod_geq)
  then have top: "L + m * n = 2 ^ 64" unfolding m_def by (metis mod_div_mult_eq)
  have "unat ` {x :: 64 word. bias_limit (word_of_nat n) \<le> x \<and> unat (x mod word_of_nat n) = i} =
      {x. L \<le> x \<and> x < L + m * n \<and> x mod n = i}"
  proof (intro set_eqI iffI)
    fix y assume "y \<in> unat ` {x :: 64 word. bias_limit (word_of_nat n) \<le> x \<and> unat (x mod word_of_nat n) = i}"
    then obtain x :: "64 word" where x: "y = unat x" "bias_limit (word_of_nat n) \<le> x" "unat (x mod word_of_nat n) = i" by blast
    have "unat x < 2 ^ LENGTH(64)" by (rule unsigned_less)
    then show "y \<in> {x. L \<le> x \<and> x < L + m * n \<and> x mod n = i}" using x un lim top by (simp add: word_le_nat_alt unat_mod)
  next
    fix y assume y: "y \<in> {x. L \<le> x \<and> x < L + m * n \<and> x mod n = i}"
    then have "unat (word_of_nat y :: 64 word) = y" using top by (simp add: unat_of_nat take_bit_nat_eq_self)
    with y show "y \<in> unat ` {x :: 64 word. bias_limit (word_of_nat n) \<le> x \<and> unat (x mod word_of_nat n) = i}"
      using un lim by (intro image_eqI [of _ _ "word_of_nat y"]) (simp_all add: word_le_nat_alt unat_mod)
  qed
  then have "card (unat ` {x :: 64 word. bias_limit (word_of_nat n) \<le> x \<and> unat (x mod word_of_nat n) = i}) = m"
    using residues_uniform [OF assms(1), of L m] by simp
  then show ?thesis unfolding m_def by (subst (asm) card_image) (auto intro!: inj_onI dest: unsigned_word_eqI)
qed

theorem index_unbiased_witness:
  "card {x :: 64 word. bias_limit (word_of_nat 3) \<le> x \<and> unat (x mod word_of_nat 3) = 2} = 2 ^ 64 div 3"
  by (rule index_unbiased) simp_all

section \<open>The frozen experiment\<close>

text \<open>The inventory of an accepted plan runs every entry under both configurations in every
  repeat exactly once, and the two trials of a pair are adjacent.
\<close>
theorem prepared_trials_matched:
  assumes "prepare_trials find_entry p = Inr ts" "i \<in> set (pl_entries p)" "1 \<le> rep" "rep \<le> pl_repeats p"
  shows "\<exists>k. {n. n < length ts \<and> tl_entry (ts ! n) = i \<and> tl_repeat (ts ! n) = rep} = {2 * k, 2 * k + 1} \<and>
    {tl_config (ts ! (2 * k)), tl_config (ts ! (2 * k + 1))} = {cf_id (pl_configs p ! 0), cf_id (pl_configs p ! 1)} \<and>
    cf_id (pl_configs p ! 0) \<noteq> cf_id (pl_configs p ! 1)"
proof -
  note at = prepare_trials_at [OF assms(1)]
  let ?R = "nat (pl_repeats p)"
  have R: "0 < ?R" using assms(3,4) by simp
  obtain j where j: "j < length (pl_entries p)" "pl_entries p ! j = i" using assms(2) by (auto simp: in_set_conv_nth)
  define k where "k = ?R * j + nat (rep - 1)"
  have r: "nat (rep - 1) < ?R" using assms(3,4) by simp
  have "k < ?R * Suc j" using r by (simp add: k_def)
  also have "\<dots> \<le> ?R * length (pl_entries p)" using j(1) by (intro mult_le_mono2) simp
  finally have k: "2 * k + 1 < length ts" using at(1) by simp
  have fields: "tl_entry (ts ! n) = pl_entries p ! (n div 2 div ?R) \<and> tl_repeat (ts ! n) = int ((n div 2) mod ?R) + 1 \<and>
      tl_config (ts ! n) = cf_id (pl_configs p ! ((n + n div 2) mod 2))" if "n < length ts" for n
    using at(2) [OF that] by (auto simp: trial_at_def mk_trial_def div_mult2_eq)
  have kdiv: "k div ?R = j" "k mod ?R = nat (rep - 1)" using r R by (simp_all add: k_def)
  have same: "(tl_entry (ts ! n) = i \<and> tl_repeat (ts ! n) = rep) = (n div 2 = k)" if "n < length ts" for n
  proof
    assume a: "tl_entry (ts ! n) = i \<and> tl_repeat (ts ! n) = rep"
    have "n div 2 < ?R * length (pl_entries p)" using that at(1) by simp
    then have "n div 2 div ?R < length (pl_entries p)" by (simp add: less_mult_imp_div_less mult.commute)
    then have "n div 2 div ?R = j" using a fields [OF that] j at(3) nth_eq_iff_index_eq by metis
    moreover have "(n div 2) mod ?R = nat (rep - 1)" using a fields [OF that] by (metis add_diff_cancel_right' nat_int)
    ultimately show "n div 2 = k" by (metis k_def mult_div_mod_eq)
  next
    assume "n div 2 = k"
    then show "tl_entry (ts ! n) = i \<and> tl_repeat (ts ! n) = rep" using fields [OF that] kdiv j(2) assms(3) by simp
  qed
  have "{n. n < length ts \<and> tl_entry (ts ! n) = i \<and> tl_repeat (ts ! n) = rep} = {n. n < length ts \<and> n div 2 = k}"
    using same by blast
  also have "\<dots> = {2 * k, 2 * k + 1}" using k by auto
  finally have set: "{n. n < length ts \<and> tl_entry (ts ! n) = i \<and> tl_repeat (ts ! n) = rep} = {2 * k, 2 * k + 1}" .
  have two: "length (pl_configs p) = 2" using at(4) by (simp add: plan_head_ok_def)
  then have "enumerate 0 (pl_configs p) ! 1 = (1, pl_configs p ! 1)" "1 < length (enumerate 0 (pl_configs p))"
    by (simp_all add: nth_enumerate_eq)
  then have "config_ok p 1 (pl_configs p ! 1)" using at(6) by (auto simp: configs_ok_def list_all_length)
  then have distinct: "cf_id (pl_configs p ! 0) \<noteq> cf_id (pl_configs p ! 1)" by (auto simp: config_ok_def)
  have "(2 * k + k) mod 2 = k mod 2" "(2 * k + 1 + k) mod 2 = Suc k mod 2" by presburger+
  then have "{tl_config (ts ! (2 * k)), tl_config (ts ! (2 * k + 1))} = {cf_id (pl_configs p ! 0), cf_id (pl_configs p ! 1)}"
    using fields [of "2 * k"] fields [of "2 * k + 1"] k by (cases "even k") (auto simp: even_iff_mod_2_eq_zero odd_iff_mod_2_eq_one mod_Suc)
  with set distinct show ?thesis by blast
qed

theorem prepared_trials_matched_witness:
  "\<exists>k. {n. n < length example_trials \<and> tl_entry (example_trials ! n) = ''e2'' \<and> tl_repeat (example_trials ! n) = 1} = {2 * k, 2 * k + 1} \<and>
    {tl_config (example_trials ! (2 * k)), tl_config (example_trials ! (2 * k + 1))} =
      {cf_id (pl_configs example_plan ! 0), cf_id (pl_configs example_plan ! 1)} \<and>
    cf_id (pl_configs example_plan ! 0) \<noteq> cf_id (pl_configs example_plan ! 1)"
  by (rule prepared_trials_matched [OF example_prepared]) (simp_all add: example_plan_def)

section \<open>The decision\<close>

text \<open>C20 \<open>Decide\<close> always returns: the unbounded loop of the generator inside the bootstrap ends on every input.\<close>
theorem Decide_returns:
  assumes "length (fz_trials f) < 2 ^ 52"
  shows "Decide order f obs \<noteq> None"
proof (rule ccontr)
  assume none: "\<not> Decide order f obs \<noteq> None"
  obtain delta where delta: "po_delta (pl_policy (fz_plan f)) = Some delta" "length (pl_configs (fz_plan f)) = 2"
    using none by (auto simp: Decide_def Let_def split: option.splits if_splits)
  then have two: "(length (pl_configs (fz_plan f)) \<noteq> 2) = False" by simp
  have D: "Decide order f obs = None" using none by simp
  note D = D [unfolded Decide_def delta(1) option.case two if_False index_observations_eq append_Nil2]
  have obs: "distinct (map ob_trial obs) \<and>
      (\<forall>ob \<in> set obs. map_of [] (ob_trial ob) = None \<and> admissible (map tl_id (fz_trials f)) ob)"
    using D by (auto split: if_splits)
  note D = D [unfolded if_P [OF obs] sum.case]
  obtain s where s: "decide_trials (cf_id (pl_configs (fz_plan f) ! 1)) (map_of (rev (by_trial obs))) (fz_trials f)
       (decide_initial (pl_configs (fz_plan f))) = Inr s"
    using D by (auto split: sum.splits)
  have "conclude order f delta (map_of (rev (by_trial obs))) s = None" using D [unfolded s sum.case] by auto
  note D = this [unfolded conclude_def Let_def, folded clusters_of_def]
  have "length (map the (clusters_of f s)) < 2 ^ 52" using clusters_length [OF s] assms by linarith
  from Bootstrap_result [OF this] obtain iv where
    "Bootstrap (map the (clusters_of f s)) (pl_repeats (fz_plan f)) (po_seed (pl_policy (fz_plan f))) = Some iv" by blast
  with D show False by (auto split: if_splits)
qed

theorem Decide_returns_witness: "Decide id example_frozen [] \<noteq> None"
  by (rule Decide_returns) (simp add: example_length)

text \<open>What a pass promises.\<close>

definition gate :: "frozen \<Rightarrow> observation list \<Rightarrow> interval \<Rightarrow> bool" where
  "gate f obs iv \<longleftrightarrow>
    (let c = cf_id (pl_configs (fz_plan f) ! 1); look = map_of (rev (by_trial obs)); ts = fz_trials f
     in (\<forall>t \<in> set ts. scorable (look (tl_id t)) \<and> matched f (tl_family t) \<and> \<not> hard_failure c look t) \<and> \<not> pairs_worse f obs \<and>
        (\<forall>t \<in> set ts. tl_config t = c \<longrightarrow>
          (\<exists>minimum. map_of (po_floors (pl_policy (fz_plan f))) (tl_domain t) = Some minimum \<and>
            \<not> flt (rate (wins c look (tl_domain t) ts) (tries c (tl_domain t) ts)) minimum)) \<and>
        (\<exists>lower. iv_lower iv = Some lower \<and> fle (fneg (the (po_delta (pl_policy (fz_plan f))))) lower))"

text \<open>C19 The candidate passes exactly when every trial has verified and complete evidence, every
  family is matched, no trial is a hard failure, no pair has more policy failures, every domain
  reaches its floor and the lower end of the interval is within the margin.
\<close>
theorem Decide_pass_iff:
  assumes "Decide order f obs = Some (Inr r)" "length (fz_trials f) < 2 ^ 52" "\<forall>xs. set (order xs) = set xs"
  shows "dr_decision r = ''pass'' \<longleftrightarrow> gate f obs (dr_interval r)"
proof -
  let ?c = "cf_id (pl_configs (fz_plan f) ! 1)" and ?look = "map_of (rev (by_trial obs))" and ?ts = "fz_trials f"
  obtain delta s where delta: "po_delta (pl_policy (fz_plan f)) = Some delta"
    and s: "decide_trials ?c ?look ?ts (decide_initial (pl_configs (fz_plan f))) = Inr s"
    and dec: "decided order f obs delta s r"
    by (rule Decide_cases [OF assms(1)])
  have valid: "ds_valid s \<longleftrightarrow> (\<forall>t \<in> set ?ts. scorable (?look (tl_id t)))"
    and hard: "ds_hardFail s \<longleftrightarrow> (\<exists>t \<in> set ?ts. hard_failure ?c ?look t)"
    using decide_trials_Inr(1,2) [OF s] by simp_all
  note cl = clusters_matched [OF s] and dom = decide_domains [OF s assms(3)]
  show ?thesis
  proof (cases "ds_valid s \<and> None \<notin> set (clusters_of f s)")
    case False
    then have "dr_decision r = ''invalid''" using dec by (simp add: decided_def decision_initial_def)
    then show ?thesis using False valid cl by (auto simp: gate_def Let_def)
  next
    case True
    then obtain iv where iv: "Bootstrap (map the (clusters_of f s)) (pl_repeats (fz_plan f)) (po_seed (pl_policy (fz_plan f))) = Some iv"
      and r: "r = (case verdict order (fz_plan f) delta s (ds_hardFail s \<or> pairs_worse f obs) iv of
          (d, reason) \<Rightarrow> set_verdict d reason (decision_initial (fz_plan f) s iv))"
      using dec by (auto simp: decided_def)
    have d: "dr_decision r = fst (verdict order (fz_plan f) delta s (ds_hardFail s \<or> pairs_worse f obs) iv)" "dr_interval r = iv"
      using r by (simp_all add: split_beta set_verdict_def decision_initial_def)
    have "length (map the (clusters_of f s)) < 2 ^ 52" using clusters_length [OF s] assms(2) by linarith
    then have pass: "fst (interval_verdict delta iv) = ''pass'' \<longleftrightarrow> (\<exists>lower. iv_lower iv = Some lower \<and> fle (fneg delta) lower)"
      using Bootstrap_result [of "map the (clusters_of f s)" "pl_repeats (fz_plan f)" "po_seed (pl_policy (fz_plan f))"] iv
      by (intro interval_verdict_pass) auto
    have floors: "check_floors (pl_policy (fz_plan f)) s (order (map fst (ds_floorTotal s))) = None \<longleftrightarrow>
        (\<forall>t \<in> set ?ts. tl_config t = ?c \<longrightarrow>
          (\<exists>minimum. map_of (po_floors (pl_policy (fz_plan f))) (tl_domain t) = Some minimum \<and>
            \<not> flt (rate (wins ?c ?look (tl_domain t) ?ts) (tries ?c (tl_domain t) ?ts)) minimum))"
      unfolding check_floors_None dom floor_met_counts [OF s] by blast
    have "fst v \<noteq> ''pass''" if "check_floors p s' ds = Some v" for p s' ds v
      using that by (induction ds) (auto split: option.splits if_splits)
    then have "dr_decision r = ''pass'' \<longleftrightarrow> \<not> (ds_hardFail s \<or> pairs_worse f obs) \<and>
        check_floors (pl_policy (fz_plan f)) s (order (map fst (ds_floorTotal s))) = None \<and> fst (interval_verdict delta iv) = ''pass''"
      unfolding d(1) verdict_def by (auto split: option.splits)
    then show ?thesis unfolding gate_def floors pass d(2) hard Let_def delta option.sel using True valid cl by blast
  qed
qed

theorem Decide_pass_iff_witness:
  "\<exists>r. Decide id example_frozen (example_observations []) = Some (Inr r) \<and>
    (dr_decision r = ''pass'' \<longleftrightarrow> gate example_frozen (example_observations []) (dr_interval r))"
proof -
  obtain r where r: "Decide id example_frozen (example_observations []) = Some (Inr r)"
    using example_decides [of id] by blast
  then show ?thesis using Decide_pass_iff [OF r] by (simp add: example_length)
qed

text \<open>The decision does not depend on the order in which the observations arrive.\<close>
theorem Decide_observation_order:
  assumes "mset xs = mset ys"
  shows "Decide order f xs = Decide order f ys"
proof -
  have rel: "rel_sum (=) (\<lambda>m m'. map_of m = map_of m') (index_observations (map tl_id (fz_trials f)) [] xs)
      (index_observations (map tl_id (fz_trials f)) [] ys)"
    by (rule index_observations_perm [OF assms])
  show ?thesis
    using rel unfolding Decide_def
    by (cases "po_delta (pl_policy (fz_plan f))"; cases "index_observations (map tl_id (fz_trials f)) [] xs"; cases "index_observations (map tl_id (fz_trials f)) [] ys")
      (simp_all split: sum.split)
qed

theorem Decide_observation_order_witness:
  "Decide id example_frozen (example_observations []) = Decide id example_frozen (rev (example_observations []))"
  by (rule Decide_observation_order) simp

text \<open>For an inventory that \<open>Prepare\<close> accepted, the decision does not depend on the order in
  which the loop over the map of domains visits its keys.
\<close>
theorem prepared_decision_deterministic:
  assumes "prepare_trials find_entry p = Inr ts" "\<forall>xs. set (order xs) = set xs" "\<forall>xs. set (order' xs) = set xs"
  shows "Decide order \<lparr>fz_plan = p, fz_trials = ts\<rparr> obs = Decide order' \<lparr>fz_plan = p, fz_trials = ts\<rparr> obs"
proof -
  have floors: "map_of (po_floors (pl_policy p)) (tl_domain t) \<noteq> None" if t: "t \<in> set ts" for t
  proof -
    obtain n where n: "n < length ts" "ts ! n = t" using t unfolding in_set_conv_nth by blast
    obtain e where e: "floor_ok p (pe_domain e)" "ts ! n = trial_at p (pl_entries p ! (n div (2 * nat (pl_repeats p)))) e n"
      using prepare_trials_at(2) [OF assms(1) n(1)] by (elim exE conjE)
    then have "tl_domain t = pe_domain e" unfolding n(2) by (simp add: trial_at_def mk_trial_def)
    then show ?thesis using e(1) by (cases "map_of (po_floors (pl_policy p)) (pe_domain e)") (simp_all add: floor_ok_def)
  qed
  have same: "conclude order \<lparr>fz_plan = p, fz_trials = ts\<rparr> delta look s = conclude order' \<lparr>fz_plan = p, fz_trials = ts\<rparr> delta look s"
    if "decide_trials c look ts (decide_initial cs) = Inr s" for c look cs s delta
  proof -
    have "check_floors (pl_policy p) s (o' (map fst (ds_floorTotal s))) =
        (if \<forall>d \<in> tl_domain ` {t \<in> set ts. tl_config t = c}. floor_met (pl_policy p) s d then None else Some (''fail'', ''absolute-floor''))"
      if "\<forall>xs. set (o' xs) = set xs" for o'
    proof -
      note dom = decide_domains [OF \<open>decide_trials c look ts (decide_initial cs) = Inr s\<close> that]
      have "\<forall>d \<in> set (o' (map fst (ds_floorTotal s))). map_of (po_floors (pl_policy p)) d \<noteq> None"
        unfolding dom using floors by blast
      from check_floors_set [OF this, of s] show ?thesis unfolding dom .
    qed
    from this [OF assms(2)] this [OF assms(3)]
    have "verdict order p delta s h iv = verdict order' p delta s h iv" for h iv by (simp only: verdict_def)
    then show ?thesis by (simp only: conclude_def Let_def frozen.select_convs)
  qed
  show ?thesis
  proof (cases "po_delta (pl_policy p)")
    case (Some delta)
    show ?thesis
    proof (cases "index_observations (map tl_id ts) [] obs")
      case (Inr byID)
      show ?thesis
      proof (cases "decide_trials (cf_id (pl_configs p ! 1)) (map_of byID) ts (decide_initial (pl_configs p))")
        case run: (Inr s)
        from same [OF run] Some Inr run show ?thesis by (simp add: Decide_def)
      qed (simp add: Decide_def Some Inr)
    qed (simp add: Decide_def Some)
  qed (simp add: Decide_def)
qed

theorem prepared_decision_deterministic_witness:
  "Decide id \<lparr>fz_plan = example_plan, fz_trials = example_trials\<rparr> (example_observations [''trial-004'']) =
   Decide rev \<lparr>fz_plan = example_plan, fz_trials = example_trials\<rparr> (example_observations [''trial-004''])"
  by (rule prepared_decision_deterministic [OF example_prepared]) simp_all

lemma of_config_mono:
  "(\<And>x. P x \<Longrightarrow> Q x) \<Longrightarrow> of_config c look P ts \<le> of_config c look Q ts"
  by (induction ts) (auto simp: of_config_def intro: le_SucI)

text \<open>The metrics of a configuration count its trials, and the rates of the report are fractions
  of the planned trials: a success is a scorable trial, and both rates lie between 0 and 1.
\<close>
theorem report_metrics_sound:
  assumes "Decide order f obs = Some (Inr r)" "length (fz_trials f) < 2 ^ 52" "map_of (dr_metrics r) c = Some m" "0 < mt_planned m"
  shows "counted m = counts c (map_of (rev (by_trial obs))) (fz_trials f) \<and>
    fle (Finite 0) (mt_successRate m) \<and> fle (mt_successRate m) (mt_scorableRate m) \<and> fle (mt_scorableRate m) (Finite 1)"
proof -
  let ?look = "map_of (rev (by_trial obs))" and ?ts = "fz_trials f"
  obtain delta s where
    s: "decide_trials (cf_id (pl_configs (fz_plan f) ! 1)) ?look ?ts (decide_initial (pl_configs (fz_plan f))) = Inr s"
    and dec: "decided order f obs delta s r"
    by (rule Decide_cases [OF assms(1)])
  have "dr_metrics r = all_metrics s"
    using dec by (auto simp: decided_def set_verdict_def decision_initial_def split_beta split: if_splits)
  then obtain n where n: "map_of (ds_metrics s) c = Some n" "m = finish_metrics (get_or no_spend (ds_spend s) c) n"
    using assms(3) by (auto simp: all_metrics_def map_of_mapped)
  have "c \<in> fst ` set (ds_metrics s)" using map_of_SomeD [OF n(1)] by force
  then obtain n0 where n0: "map_of (ds_metrics (decide_initial (pl_configs (fz_plan f)))) c = Some n0"
    using decide_trials_metrics_keys [OF s] by (metis map_of_eq_None_iff not_None_eq)
  then have "n0 = new_metrics" by (simp add: decide_initial_def new_metrics_only split: if_splits)
  then have "counted n = counts c ?look ?ts"
    using decide_trials_metrics [OF s n0] n(1) by (simp add: counted_def counts_def new_metrics_def)
  then have count: "counted m = counts c ?look ?ts" using n(2) by simp
  have le: "of_config c ?look P ?ts \<le> of_config c ?look Q ?ts" if "\<And>x. P x \<Longrightarrow> Q x" for P Q
    by (rule of_config_mono) (rule that)
  have rates: "mt_successRate m = rate (mt_successes m) (mt_planned m)" "mt_scorableRate m = rate (mt_scorable m) (mt_planned m)"
  proof -
    have "counted m = counted n" using n(2) by simp
    then have "mt_planned m = mt_planned n" "mt_successes m = mt_successes n" "mt_scorable m = mt_scorable n"
      by (simp_all add: counted_def)
    then show "mt_successRate m = rate (mt_successes m) (mt_planned m)" "mt_scorableRate m = rate (mt_scorable m) (mt_planned m)"
      using n(2) assms(4) by (simp_all add: finish_metrics_rates)
  qed
  have "mt_planned m = of_config c ?look (\<lambda>_. True) ?ts" "mt_scorable m = of_config c ?look scorable ?ts"
      "mt_successes m = of_config c ?look succeeded ?ts"
    using count by (simp_all add: counted_def counts_def)
  then have "mt_successes m \<le> mt_scorable m" "mt_scorable m \<le> mt_planned m"
    using le [of succeeded scorable] le [of scorable "\<lambda>_. True"] by (simp_all add: succeeded_def)
  moreover have "mt_planned m \<le> length ?ts"
    using \<open>mt_planned m = of_config c ?look (\<lambda>_. True) ?ts\<close> by (simp add: of_config_def)
  then have "mt_planned m < 2 ^ 53" using assms(2) by simp
  ultimately show ?thesis
    unfolding rates using count rate_bounds rate_mono assms(4) by (meson order_trans)
qed

theorem report_metrics_sound_witness:
  "\<exists>r m. Decide id example_frozen (example_observations []) = Some (Inr r) \<and> map_of (dr_metrics r) ''cand'' = Some m \<and>
    counted m = counts ''cand'' (map_of (rev (by_trial (example_observations [])))) (fz_trials example_frozen) \<and>
    fle (Finite 0) (mt_successRate m) \<and> fle (mt_successRate m) (mt_scorableRate m) \<and> fle (mt_scorableRate m) (Finite 1)"
proof -
  have "case example_run [] of Inl _ \<Rightarrow> False | Inr s \<Rightarrow>
      ds_valid s \<and> (case map_of (ds_metrics s) ''cand'' of None \<Rightarrow> False | Some n \<Rightarrow> mt_planned n = 2)" by code_simp
  then obtain s n where s: "example_run [] = Inr s" "ds_valid s" "map_of (ds_metrics s) ''cand'' = Some n" "mt_planned n = 2"
    by (auto split: sum.splits option.splits)
  obtain r where r: "Decide id example_frozen (example_observations []) = Some (Inr r)" "dr_metrics r = all_metrics s"
    using example_decides_run [OF s(1,2)] by (auto simp: split_beta set_verdict_def decision_initial_def)
  define m where "m = finish_metrics (get_or no_spend (ds_spend s) ''cand'') n"
  have m: "map_of (dr_metrics r) ''cand'' = Some m" by (simp add: r(2) all_metrics_def map_of_mapped s(3) m_def)
  have "counted m = counted n" by (simp add: m_def)
  then have "0 < mt_planned m" using s(4) by (simp add: counted_def)
  with report_metrics_sound [OF r(1) _ m] r(1) m show ?thesis by (simp add: example_length)
qed

text \<open>C21 Without the check of \<open>Prepare\<close> the decision depends on the iteration order of a Go map:
  when one domain has no floor and another misses its own, the same evidence is inconclusive in
  one order and fails in the other.
\<close>
theorem decision_depends_on_map_order:
  "\<exists>f obs r r'. Decide id f obs = Some (Inr r) \<and> Decide rev f obs = Some (Inr r') \<and>
     dr_decision r = ''inconclusive'' \<and> dr_decision r' = ''fail''"
proof -
  let ?p = "example_plan\<lparr>pl_policy := (pl_policy example_plan)\<lparr>po_floors := [(''web'', Finite 1)]\<rparr>\<rparr>"
  let ?f = "\<lparr>fz_plan = ?p, fz_trials = example_trials\<rparr>" and ?obs = "example_observations [''trial-003'']"
  have "case example_run [''trial-003''] of Inl _ \<Rightarrow> False | Inr s \<Rightarrow>
      ds_valid s \<and> \<not> ds_hardFail s \<and> map fst (ds_floorTotal s) = [''files'', ''web''] \<and>
      get_or 0 (ds_floorSuccess s) ''web'' = 0 \<and> get_or 0 (ds_floorTotal s) ''web'' = 1"
    by code_simp
  then obtain s where s: "example_run [''trial-003''] = Inr s" "ds_valid s" "\<not> ds_hardFail s"
      "map fst (ds_floorTotal s) = [''files'', ''web'']" "get_or 0 (ds_floorSuccess s) ''web'' = 0" "get_or 0 (ds_floorTotal s) ''web'' = 1"
    by (auto split: sum.splits)
  have plan: "pl_configs ?p = pl_configs example_plan" "po_delta (pl_policy ?p) = Some (Finite 0)"
      "map_of (po_floors (pl_policy ?p)) = [''web'' \<mapsto> Finite 1]"
    by (simp_all add: example_plan_def)
  have matched: "\<forall>t \<in> set example_trials. matched ?f (tl_family t)" by code_simp
  have same: "\<not> pairs_worse ?f ?obs" by code_simp
  have "\<exists>iv. \<forall>order. Decide order ?f ?obs =
      Some (Inr (case verdict order (fz_plan ?f) (Finite 0) s (ds_hardFail s \<or> pairs_worse ?f ?obs) iv of
        (d, reason) \<Rightarrow> set_verdict d reason (decision_initial (fz_plan ?f) s iv)))"
    by (rule Decide_valid)
      (use plan s(1,2) matched example_observations_ok [of "[''trial-003'']"] example_length in
        \<open>simp_all add: example_run_def example_evidence\<close>)
  then obtain iv where iv: "\<And>order. Decide order ?f ?obs =
      Some (Inr (case verdict order ?p (Finite 0) s (ds_hardFail s \<or> pairs_worse ?f ?obs) iv of
        (d, reason) \<Rightarrow> set_verdict d reason (decision_initial ?p s iv)))"
    by (simp only: frozen.select_convs) blast
  have low: "flt (rate 0 1) (Finite 1)" by (simp add: rate_value rnd_def flt_def)
  have "verdict id ?p (Finite 0) s False iv = (''inconclusive'', ''absolute-floor-unset'')"
      "verdict rev ?p (Finite 0) s False iv = (''fail'', ''absolute-floor'')"
    using plan(3) s(4-6) low by (simp_all add: verdict_def)
  then have "Decide id ?f ?obs = Some (Inr (set_verdict ''inconclusive'' ''absolute-floor-unset'' (decision_initial ?p s iv)))"
      "Decide rev ?f ?obs = Some (Inr (set_verdict ''fail'' ''absolute-floor'' (decision_initial ?p s iv)))"
    unfolding iv using s(3) same by simp_all
  then show ?thesis by (intro exI conjI) (assumption | simp add: set_verdict_def)+
qed

end
