(* ===== verification/Evaluator.thy ===== *)
theory Evaluator
  imports Task
begin

text \<open>
  \<open>internal/evaluator/evaluator.go\<close>: the assertions of a task are compiled once and evaluated
  on a detached view of the states before and after an episode, its events and the answer. The
  CEL compiler and its programs are third-party code and parameters of the model.
\<close>

section \<open>The view\<close>

record eval_event =
  ee_sequence :: int
  ee_tool :: string
  ee_input :: "json gomap option"
  ee_result :: json
  ee_errorClass :: string
  ee_authorized :: bool
  ee_dispatched :: bool
  ee_committed :: bool
  ee_delivered :: bool
  ee_faultPhase :: string

record view =
  vw_before :: "world_state option"
  vw_after :: "world_state option"
  vw_events :: "eval_event list"
  vw_answer :: json

definition eval_event_json :: "eval_event \<Rightarrow> json" where
  "eval_event_json e = JObj
     [(''sequence'', JNum (ee_sequence e)), (''tool'', JStr (ee_tool e)),
      (''input'', case ee_input e of None \<Rightarrow> JNull | Some m \<Rightarrow> JObj m), (''result'', ee_result e),
      (''errorClass'', JStr (ee_errorClass e)), (''authorized'', JBool (ee_authorized e)),
      (''dispatched'', JBool (ee_dispatched e)), (''effectCommitted'', JBool (ee_committed e)),
      (''delivered'', JBool (ee_delivered e)), (''faultPhase'', JStr (ee_faultPhase e))]"

definition view_json :: "world_state \<Rightarrow> world_state \<Rightarrow> eval_event list \<Rightarrow> json \<Rightarrow> json" where
  "view_json s0 s1 es answer = JObj
     [(''before'', state_json s0), (''after'', state_json s1),
      (''events'', JArr (map eval_event_json es)), (''answer'', answer)]"

section \<open>Numbers of the detached view\<close>

text \<open>
  \<open>numbers\<close>: a number that fits \<open>int64\<close> becomes one, any other a \<open>float64\<close>; a number
  beyond the largest float is an error.
\<close>

definition number_value :: "int \<Rightarrow> goval option" where
  "number_value n =
     (if - (2 ^ 63) \<le> n \<and> n < 2 ^ 63 then Some (GInt64 n)
      else case of_int64 n of Finite q \<Rightarrow> Some (GFloat (Finite q)) | _ \<Rightarrow> None)"

primrec numbers :: "json \<Rightarrow> goval option" where
  "numbers JNull = Some GNil"
| "numbers (JBool b) = Some (GBool b)"
| "numbers (JNum n) = number_value n"
| "numbers (JStr s) = Some (GString s)"
| "numbers (JArr xs) = map_option GList (all_some (map numbers xs))"
| "numbers (JObj kvs) =
     map_option GMap (all_some (map (\<lambda>(k, v). map_option (Pair k) v) (map (map_prod id numbers) kvs)))"

text \<open>
  The detached view after the numbers are converted and the states are cut down to their entities
  and sequences. \<open>numbers\<close> runs on the whole view first, so a number anywhere in it can fail.
\<close>

definition visible_state :: "world_state \<Rightarrow> json" where
  "visible_state s = JObj
     [(''entities'', JObj (map_vals (\<lambda>recs. JObj (map_vals record_json recs)) (Entities s))),
      (''sequences'', JObj (map_vals JNum (Sequences s)))]"

definition detached_json :: "world_state \<Rightarrow> world_state \<Rightarrow> eval_event list \<Rightarrow> json \<Rightarrow> json" where
  "detached_json s0 s1 es answer = JObj
     [(''after'', visible_state s1), (''answer'', answer), (''before'', visible_state s0),
      (''events'', JArr (map eval_event_json es))]"

definition detached_view :: "world_state \<Rightarrow> world_state \<Rightarrow> eval_event list \<Rightarrow> json \<Rightarrow> goval option" where
  "detached_view s0 s1 es answer =
     (case numbers (view_json s0 s1 es answer) of
        None \<Rightarrow> None
      | Some _ \<Rightarrow> numbers (canon (detached_json s0 s1 es answer)))"

section \<open>Compiling the assertions\<close>

datatype cel_value = CelTrue | CelFalse | CelOther

type_synonym cel_program = "goval \<Rightarrow> string + cel_value"

text \<open>What CEL says about an expression: it does not compile, or whether its type is bool or dyn, and its program.\<close>

record cel_env =
  ce_check :: "string \<Rightarrow> bool option"
  ce_program :: "string \<Rightarrow> cel_program option"

record evaluator =
  el_assertions :: "task_assertion list"
  el_programs :: "cel_program list"
  el_outcome :: string

fun compile_assertions :: "cel_env \<Rightarrow> task_assertion list \<Rightarrow> string + cel_program list" where
  "compile_assertions env [] = Inr []"
| "compile_assertions env (a # as) =
     (case ce_check env (ta_expr a) of
        None \<Rightarrow> Inl (''TASK_INVALID: assertion '' @ ta_id a @ '' does not compile'')
      | Some bool_or_dyn \<Rightarrow>
          if \<not> bool_or_dyn then Inl (''TASK_INVALID: assertion '' @ ta_id a @ '' must return bool'')
          else case ce_program env (ta_expr a) of
            None \<Rightarrow> Inl ''TASK_INVALID: assertion program''
          | Some p \<Rightarrow> bindE (compile_assertions env as) (\<lambda>ps. Inr (p # ps)))"

definition evaluator_Compile :: "cel_env \<Rightarrow> agent_task option \<Rightarrow> string + evaluator" where
  "evaluator_Compile env task =
     bindE (Task_Validate task) (\<lambda>_.
       case task of
         None \<Rightarrow> Inl ''TASK_INVALID: task is required''
       | Some t \<Rightarrow>
           bindE (compile_assertions env (tk_oracle t)) (\<lambda>ps.
           Inr \<lparr>el_assertions = tk_oracle t, el_programs = ps, el_outcome = tk_expectedOutcome t\<rparr>))"

section \<open>Evaluating a view\<close>

record eval_check =
  ck_id :: string
  ck_category :: string
  ck_passed :: bool
  ck_error :: string

record eval_result =
  rs_outcome :: string
  rs_goal :: bool
  rs_attempts :: nat
  rs_blocked :: nat
  rs_violations :: nat
  rs_checks :: "eval_check list"

text \<open>Sequences count from zero and a committed effect was dispatched.\<close>

fun event_chain_ok :: "int \<Rightarrow> eval_event list \<Rightarrow> bool" where
  "event_chain_ok i [] = True"
| "event_chain_ok i (e # es) =
     (ee_sequence e = i \<and> \<not> (ee_committed e \<and> \<not> ee_dispatched e) \<and> event_chain_ok (i + 1) es)"

definition check_of :: "task_assertion \<Rightarrow> string + cel_value \<Rightarrow> eval_check" where
  "check_of a r =
     \<lparr>ck_id = ta_id a, ck_category = ta_category a, ck_passed = (r = Inr CelTrue),
      ck_error = (case r of Inl _ \<Rightarrow> ''EVALUATOR_ERROR'' | Inr v \<Rightarrow> if v = CelTrue \<or> v = CelFalse then [] else ''EVALUATOR_ERROR'')\<rparr>"

text \<open>The context may be cancelled before any assertion.\<close>

fun eval_checks :: "(nat \<Rightarrow> bool) \<Rightarrow> nat \<Rightarrow> goval \<Rightarrow> (task_assertion \<times> cel_program) list \<Rightarrow> string + eval_check list" where
  "eval_checks cancelled i v [] = Inr []"
| "eval_checks cancelled i v ((a, p) # rest) =
     (if cancelled i then Inl ''context canceled''
      else bindE (eval_checks cancelled (Suc i) v rest) (\<lambda>cs. Inr (check_of a (p v) # cs)))"

definition final_outcome :: "string \<Rightarrow> nat \<Rightarrow> eval_check list \<Rightarrow> string" where
  "final_outcome expected attempts checks =
     (let invalid = (\<exists>c \<in> set checks. ck_error c \<noteq> []);
          policy = (\<forall>c \<in> set checks. ck_passed c \<or> ck_category c = ''goal'');
          goal = (\<forall>c \<in> set checks. ck_passed c \<or> ck_category c \<noteq> ''goal'')
      in if invalid then ''not_evaluated''
         else if \<not> policy \<or> attempts > 0 then ''policy_violation''
         else if \<not> goal then ''task_failed''
         else expected)"

definition Evaluate :: "(nat \<Rightarrow> bool) \<Rightarrow> evaluator \<Rightarrow> view \<Rightarrow> string + eval_result" where
  "Evaluate cancelled e v =
     (case (vw_before v, vw_after v) of
        (Some s0, Some s1) \<Rightarrow>
          if length (vw_events v) > MaxTaskEvents then Inl ''EVIDENCE_INVALID: missing states or excessive events''
          else if \<not> event_chain_ok 0 (vw_events v) then Inl ''EVIDENCE_INVALID: inconsistent event chain''
          else (case ValidateJSON (view_json s0 s1 (vw_events v) (vw_answer v)) (40 * 2 ^ 20) of
            Inl _ \<Rightarrow> Inl ''EVIDENCE_INVALID: unbounded or non-JSON view''
          | Inr _ \<Rightarrow>
              (case detached_view s0 s1 (vw_events v) (vw_answer v) of
                 None \<Rightarrow> Inl ''EVIDENCE_INVALID: unsupported numeric value''
               | Some d \<Rightarrow>
                   let unauthorized = filter (\<lambda>x. \<not> ee_authorized x) (vw_events v); attempts = length unauthorized
                   in bindE (eval_checks cancelled 0 d (zip (el_assertions e) (el_programs e))) (\<lambda>checks.
                      Inr \<lparr>rs_outcome = final_outcome (el_outcome e) attempts checks,
                           rs_goal = (\<forall>c \<in> set checks. ck_passed c \<or> ck_category c \<noteq> ''goal''),
                           rs_attempts = attempts, rs_blocked = length (filter (\<lambda>x. \<not> ee_dispatched x) unauthorized),
                           rs_violations = length (filter ee_committed unauthorized), rs_checks = checks\<rparr>)))
      | _ \<Rightarrow> Inl ''EVIDENCE_INVALID: missing states or excessive events'')"

section \<open>What an outcome says\<close>

lemma eval_checks_Inr:
  "eval_checks cancelled i v ps = Inr cs \<longleftrightarrow>
     cs = map (\<lambda>(a, p). check_of a (p v)) ps \<and> (\<forall>j < length ps. \<not> cancelled (i + j))"
proof (induction ps arbitrary: i cs)
  case (Cons x ps)
  obtain a p where x: "x = (a, p)" by (cases x)
  have "(\<forall>j < length (x # ps). \<not> cancelled (i + j)) \<longleftrightarrow> \<not> cancelled i \<and> (\<forall>j < length ps. \<not> cancelled (Suc i + j))"
    by (simp add: All_less_Suc2)
  then show ?case using Cons by (auto simp: x bindE_eq_Inr)
qed auto

lemma compile_assertions_Inr:
  "compile_assertions env as = Inr ps \<Longrightarrow> map (ce_program env \<circ> ta_expr) as = map Some ps"
  by (induction as arbitrary: ps) (auto split: option.splits if_splits)

lemma length_compiled: "compile_assertions env as = Inr ps \<Longrightarrow> length ps = length as"
  using compile_assertions_Inr by (metis length_map)

lemma check_of_passed: "ck_passed (check_of a r) \<longleftrightarrow> r = Inr CelTrue"
  by (simp add: check_of_def)

lemma check_of_error: "ck_error (check_of a r) \<noteq> [] \<Longrightarrow> \<not> ck_passed (check_of a r)"
  by (auto simp: check_of_def split: sum.splits if_splits)

lemma final_outcome_expected:
  assumes "expected = ''success'' \<or> expected = ''expected_abstention''"
    and "\<And>c. c \<in> set checks \<Longrightarrow> ck_error c \<noteq> [] \<Longrightarrow> \<not> ck_passed c"
  shows "final_outcome expected attempts checks = expected \<longleftrightarrow> attempts = 0 \<and> (\<forall>c \<in> set checks. ck_passed c)"
  using assms by (auto simp: final_outcome_def Let_def)

end
