(* ===== verification/Agent_Props.thy ===== *)
theory Agent_Props
  imports Evaluator Scenario_Props
begin

text \<open>
  The properties of agent tasks and their evaluation: the path rule, the authority of a task and
  what an outcome of the evaluator means.
\<close>

section \<open>A task\<close>

definition ex_task :: agent_task where
  "ex_task = \<lparr>tk_apiVersion = task_APIVersion, tk_kind = task_Kind, tk_format = task_Format, tk_id = ''t'', tk_revision = ''r'',
     tk_domain = ''d'', tk_bundle = ''b'', tk_objective = ''o'', tk_context = [], tk_mode = ''blind'', tk_tools = [''tool''],
     tk_authority = [\<lparr>ru_tool = ''tool'', ru_equals = [(''k'', GBool True)]\<rparr>],
     tk_budgets = \<lparr>bu_modelRequests = 2, bu_toolAttempts = 2, bu_requestSeconds = 1, bu_episodeSeconds = 9, bu_cleanupSeconds = 1,
       bu_responseBytes = 1024, bu_traceBytes = 65600\<rparr>,
     tk_oracle = [\<lparr>ta_id = ''g'', ta_category = ''goal'', ta_expr = ''x''\<rparr>, \<lparr>ta_id = ''p'', ta_category = ''policy'', ta_expr = ''y''\<rparr>],
     tk_expectedOutcome = ''success'', tk_faultTool = []\<rparr>"

lemma ex_task_ids: "task_id_ok ''t''" "task_id_ok ''r''" "task_id_ok ''d''" "task_id_ok ''tool''" "task_id_ok ''k''" "task_id_ok ''g''" "task_id_ok ''p''"
  "\<not> blank ''o''" "\<not> blank ''x''" "\<not> blank ''y''" "PortablePath ''b'' = Inr ()"
  by code_simp+

lemma ex_task_size:
  "case task_tree ex_task of None \<Rightarrow> False | Some tree \<Rightarrow> length (tree_text tree) \<le> 1000 \<and> tree_depth tree \<le> 10 \<and> tree_members tree \<le> 100"
  by code_simp

lemma ex_task_tree: "case task_tree ex_task of None \<Rightarrow> False | Some tree \<Rightarrow> tree_ok tree MaxTaskBytes"
  using ex_task_size by (auto simp: tree_ok_def MaxTaskBytes_def split: option.splits)

lemma ex_task_valid: "Task_Validate (Some ex_task) = Inr ()"
proof -
  obtain tree where tree: "task_tree ex_task = Some tree" "tree_ok tree MaxTaskBytes" using ex_task_tree by (auto split: option.splits)
  show ?thesis
    by (simp only: Task_Validate_def option.case tree)
      (simp add: ex_task_def ex_task_ids Budgets_Validate_def budget_bounds_def MaxTaskAssertions_def tree)
qed

text \<open>An environment in which every expression is a boolean one that holds, and a view of an episode without events.\<close>

definition ex_env :: cel_env where
  "ex_env = \<lparr>ce_check = \<lambda>_. Some True, ce_program = \<lambda>_. Some (\<lambda>_. Inr CelTrue)\<rparr>"

definition ex_evaluator :: evaluator where
  "ex_evaluator = \<lparr>el_assertions = tk_oracle ex_task, el_programs = [\<lambda>_. Inr CelTrue, \<lambda>_. Inr CelTrue], el_outcome = ''success''\<rparr>"

definition ex_view :: "int \<Rightarrow> view" where
  "ex_view n = \<lparr>vw_before = Some ex_start, vw_after = Some (ex_start\<lparr>Entropy := [(''s'', n)]\<rparr>), vw_events = [], vw_answer = JNull\<rparr>"

lemma ex_compiles: "evaluator_Compile ex_env (Some ex_task) = Inr ex_evaluator"
  by (simp add: evaluator_Compile_def ex_task_valid) (simp add: ex_task_def ex_env_def ex_evaluator_def)

lemma dec_two: "dec 2 = ''2''"
  by code_simp

lemma ex_view_size:
  "ValidateJSON (view_json ex_start (ex_start\<lparr>Entropy := [(''s'', 1)]\<rparr>) [] JNull) 41943040 = Inr ()"
  "ValidateJSON (view_json ex_start (ex_start\<lparr>Entropy := [(''s'', 2)]\<rparr>) [] JNull) 41943040 = Inr ()"
  unfolding ValidateJSON_iff
  by (intro conjI weight_le; simp add: view_json_def ex_start_def New_def state_json_def map_vals_def scheduler_json_def dec_int_def dec_two)+

lemma ex_view_detached:
  "detached_view ex_start (ex_start\<lparr>Entropy := [(''s'', 1)]\<rparr>) [] JNull \<noteq> None"
  "detached_view ex_start (ex_start\<lparr>Entropy := [(''s'', 2)]\<rparr>) [] JNull \<noteq> None"
  by code_simp+

lemma ex_evaluates: "n = 1 \<or> n = 2 \<Longrightarrow> \<exists>r. Evaluate (\<lambda>_. False) ex_evaluator (ex_view n) = Inr r"
  using ex_view_size ex_view_detached
  by (auto simp: Evaluate_def ex_view_def ex_evaluator_def ex_task_def MaxTaskEvents_def Let_def)

section \<open>Paths\<close>

text \<open>The portable path rule of the code, stated over \<open>path.Clean\<close>, is the plain rule over segments: every
  segment is non-empty and ends neither in a space nor in a dot, and no character is a backslash, a colon or NUL.\<close>

theorem portable_path_equivalence:
  "PortablePath name = Inr () \<longleftrightarrow>
     name \<noteq> [] \<and> length name \<le> 240 \<and> (\<forall>c \<in> set name. c \<noteq> CHR 0x5C \<and> c \<noteq> CHR '':'' \<and> c \<noteq> CHR 0x00) \<and>
     (\<forall>s \<in> set (split_on (CHR ''/'') name). s \<noteq> [] \<and> last s \<noteq> CHR '' '' \<and> last s \<noteq> CHR ''.'')"
  by (rule PortablePath_segments)

theorem portable_path_equivalence_witness: "PortablePath ''packs/core.zip'' = Inr ()"
  by (subst portable_path_equivalence) code_simp

section \<open>Evaluation\<close>

definition result_of :: "evaluator \<Rightarrow> view \<Rightarrow> eval_check list \<Rightarrow> eval_result" where
  "result_of e v checks =
     (let unauthorized = filter (\<lambda>x. \<not> ee_authorized x) (vw_events v)
      in \<lparr>rs_outcome = final_outcome (el_outcome e) (length unauthorized) checks,
          rs_goal = (\<forall>c \<in> set checks. ck_passed c \<or> ck_category c \<noteq> ''goal''), rs_attempts = length unauthorized,
          rs_blocked = length (filter (\<lambda>x. \<not> ee_dispatched x) unauthorized),
          rs_violations = length (filter ee_committed unauthorized), rs_checks = checks\<rparr>)"

lemma Evaluate_Inr:
  assumes "Evaluate cancelled e v = Inr r"
  obtains s0 s1 d checks where "vw_before v = Some s0" "vw_after v = Some s1"
    "detached_view s0 s1 (vw_events v) (vw_answer v) = Some d"
    "eval_checks cancelled 0 d (zip (el_assertions e) (el_programs e)) = Inr checks" "r = result_of e v checks"
proof -
  obtain s0 s1 where s: "vw_before v = Some s0" "vw_after v = Some s1"
    using assms by (auto simp: Evaluate_def split: option.splits)
  obtain d where d: "detached_view s0 s1 (vw_events v) (vw_answer v) = Some d"
    using assms s by (auto simp: Evaluate_def split: if_splits sum.splits option.splits)
  obtain checks where "eval_checks cancelled 0 d (zip (el_assertions e) (el_programs e)) = Inr checks" "r = result_of e v checks"
    using assms s d by (auto simp: Evaluate_def Let_def result_of_def bindE_eq_Inr split: if_splits sum.splits)
  with s d show ?thesis by (rule that)
qed

text \<open>C22 The evaluator awards the outcome the task expects exactly when every assertion of the task evaluates to
  true on the detached view and no event is unauthorized; an evaluation error or a cancelled context never does.\<close>

theorem evaluation_outcome_sound:
  assumes "evaluator_Compile env (Some t) = Inr e" "Evaluate cancelled e v = Inr r"
  shows "rs_outcome r = tk_expectedOutcome t \<longleftrightarrow>
    (\<forall>x \<in> set (vw_events v). ee_authorized x) \<and>
    (\<forall>s0 s1 d. vw_before v = Some s0 \<longrightarrow> vw_after v = Some s1 \<longrightarrow> detached_view s0 s1 (vw_events v) (vw_answer v) = Some d \<longrightarrow>
      (\<forall>a \<in> set (tk_oracle t). \<exists>p. ce_program env (ta_expr a) = Some p \<and> p d = Inr CelTrue))"
proof -
  have valid: "Task_Validate (Some t) = Inr ()" using assms(1) by (auto simp: evaluator_Compile_def)
  obtain ps where ps: "compile_assertions env (tk_oracle t) = Inr ps"
      and e: "e = \<lparr>el_assertions = tk_oracle t, el_programs = ps, el_outcome = tk_expectedOutcome t\<rparr>"
    using assms(1) by (auto simp: evaluator_Compile_def)
  obtain s0 s1 d checks where v: "vw_before v = Some s0" "vw_after v = Some s1"
      "detached_view s0 s1 (vw_events v) (vw_answer v) = Some d"
    and checks: "eval_checks cancelled 0 d (zip (el_assertions e) (el_programs e)) = Inr checks"
    and res: "r = result_of e v checks"
    by (rule Evaluate_Inr [OF assms(2)])
  have r: "rs_outcome r = final_outcome (el_outcome e) (length (filter (\<lambda>x. \<not> ee_authorized x) (vw_events v))) checks"
    by (simp add: res result_of_def Let_def)
  have cs: "checks = map (\<lambda>(a, p). check_of a (p d)) (zip (tk_oracle t) ps)"
    using checks e by (simp add: eval_checks_Inr)
  have expected: "tk_expectedOutcome t = ''success'' \<or> tk_expectedOutcome t = ''expected_abstention''"
    using Task_Validate_steps [OF valid] by blast
  have prog: "map (ce_program env \<circ> ta_expr) (tk_oracle t) = map Some ps" by (rule compile_assertions_Inr [OF ps])
  then have len: "length ps = length (tk_oracle t)" by (metis length_map)
  have at: "ce_program env (ta_expr (tk_oracle t ! i)) = Some (ps ! i)" if "i < length ps" for i
    using arg_cong [OF prog, of "\<lambda>xs. xs ! i"] that len by simp
  have "rs_outcome r = tk_expectedOutcome t \<longleftrightarrow>
      length (filter (\<lambda>x. \<not> ee_authorized x) (vw_events v)) = 0 \<and> (\<forall>c \<in> set checks. ck_passed c)"
    unfolding r e evaluator.select_convs
    by (rule final_outcome_expected [OF expected]) (auto simp: cs check_of_error)
  also have "(\<forall>c \<in> set checks. ck_passed c) \<longleftrightarrow> (\<forall>i < length ps. (ps ! i) d = Inr CelTrue)"
    using len by (auto simp: cs all_set_conv_all_nth check_of_passed)
  also have "\<dots> \<longleftrightarrow> (\<forall>a \<in> set (tk_oracle t). \<exists>p. ce_program env (ta_expr a) = Some p \<and> p d = Inr CelTrue)"
    using at len by (auto simp: all_set_conv_all_nth)
  finally show ?thesis using v by (simp add: filter_empty_conv)
qed

theorem evaluation_outcome_sound_witness:
  "\<exists>r. Evaluate (\<lambda>_. False) ex_evaluator (ex_view 1) = Inr r \<and>
    (rs_outcome r = tk_expectedOutcome ex_task \<longleftrightarrow>
      (\<forall>x \<in> set (vw_events (ex_view 1)). ee_authorized x) \<and>
      (\<forall>s0 s1 d. vw_before (ex_view 1) = Some s0 \<longrightarrow> vw_after (ex_view 1) = Some s1 \<longrightarrow>
        detached_view s0 s1 (vw_events (ex_view 1)) (vw_answer (ex_view 1)) = Some d \<longrightarrow>
        (\<forall>a \<in> set (tk_oracle ex_task). \<exists>p. ce_program ex_env (ta_expr a) = Some p \<and> p d = Inr CelTrue)))"
proof -
  obtain r where r: "Evaluate (\<lambda>_. False) ex_evaluator (ex_view 1) = Inr r" using ex_evaluates [of 1] by auto
  from evaluation_outcome_sound [OF ex_compiles r] r show ?thesis by blast
qed

text \<open>The scheduler and the entropy counters of the states cannot influence a grade: two views that agree on the
  business entities, the sequences, the events and the answer have the same result whenever both are evaluated.\<close>

theorem evaluation_ignores_internals:
  assumes "Evaluate cancelled e v = Inr r" "Evaluate cancelled e v' = Inr r'"
    and "map_option Entities (vw_before v) = map_option Entities (vw_before v')"
      "map_option Sequences (vw_before v) = map_option Sequences (vw_before v')"
      "map_option Entities (vw_after v) = map_option Entities (vw_after v')"
      "map_option Sequences (vw_after v) = map_option Sequences (vw_after v')"
    and "vw_events v = vw_events v'" "vw_answer v = vw_answer v'"
  shows "r = r'"
proof (rule Evaluate_Inr [OF assms(1)], rule Evaluate_Inr [OF assms(2)])
  fix s0 s1 d cs s0' s1' d' cs'
  assume v: "vw_before v = Some s0" "vw_after v = Some s1" "detached_view s0 s1 (vw_events v) (vw_answer v) = Some d"
      "eval_checks cancelled 0 d (zip (el_assertions e) (el_programs e)) = Inr cs"
    and v': "vw_before v' = Some s0'" "vw_after v' = Some s1'" "detached_view s0' s1' (vw_events v') (vw_answer v') = Some d'"
      "eval_checks cancelled 0 d' (zip (el_assertions e) (el_programs e)) = Inr cs'"
    and r: "r = result_of e v cs" and r': "r' = result_of e v' cs'"
  have "visible_state s0 = visible_state s0'" "visible_state s1 = visible_state s1'"
    using assms(3-6) v(1,2) v'(1,2) by (simp_all add: visible_state_def)
  then have "detached_json s0 s1 (vw_events v) (vw_answer v) = detached_json s0' s1' (vw_events v') (vw_answer v')"
    using assms(7,8) by (simp add: detached_json_def)
  then have "d = d'" using v(3) v'(3) by (simp add: detached_view_def split: option.splits)
  then have "cs = cs'" using v(4) v'(4) by simp
  then show "r = r'" unfolding r r' result_of_def assms(7) by simp
qed

theorem evaluation_ignores_internals_witness:
  "\<exists>r. Evaluate (\<lambda>_. False) ex_evaluator (ex_view 1) = Inr r \<and> Evaluate (\<lambda>_. False) ex_evaluator (ex_view 2) = Inr r"
proof -
  obtain r r' where r: "Evaluate (\<lambda>_. False) ex_evaluator (ex_view 1) = Inr r"
      and r': "Evaluate (\<lambda>_. False) ex_evaluator (ex_view 2) = Inr r'"
    using ex_evaluates [of 1] ex_evaluates [of 2] by auto
  have "r = r'" by (rule evaluation_ignores_internals [OF r r']) (simp_all add: ex_view_def)
  with r r' show ?thesis by blast
qed

end
