(* ===== verification/Json_Decode.thy ===== *)
theory Json_Decode
  imports Go_Text
begin

text \<open>
  The decoder of \<open>encoding/json\<close>, as far as the program relies on it: the grammar of JSON texts,
  the decoding of string literals into UTF-8, numbers kept as they are spelled, the members of an
  object in their order with duplicates. On top of it \<open>decodeJSON\<close> of
  \<open>internal/agenthost/json.go\<close>, which admits only texts without duplicate members, and the
  lookup of the fields of a Go struct. Recursion is over a fuel that the length of the text bounds.
\<close>

datatype jdoc =
    DNull
  | DBool bool
  | DNum string
  | DStr string
  | DArr "jdoc list"
  | DObj "(string \<times> jdoc) list"

section \<open>Tokens\<close>

definition is_ws :: "char \<Rightarrow> bool" where
  "is_ws c \<longleftrightarrow> c = CHR '' '' \<or> c = CHR 9 \<or> c = CHR 10 \<or> c = CHR 13"

definition skip_ws :: "string \<Rightarrow> string" where
  "skip_ws s = dropWhile is_ws s"

text \<open>A number: its spelling and the rest.\<close>

definition scan_digits :: "string \<Rightarrow> (string \<times> string) option" where
  "scan_digits s = (let ds = takeWhile is_digit s in if ds = [] then None else Some (ds, dropWhile is_digit s))"

definition scan_int :: "string \<Rightarrow> (string \<times> string) option" where
  "scan_int s =
     (case s of
        [] \<Rightarrow> None
      | c # cs \<Rightarrow> if c = CHR ''0'' then Some ([c], cs) else scan_digits s)"

definition scan_frac :: "string \<Rightarrow> (string \<times> string) option" where
  "scan_frac s =
     (case s of
        [] \<Rightarrow> Some ([], [])
      | c # cs \<Rightarrow> if c = CHR ''.'' then map_option (\<lambda>(ds, r). (c # ds, r)) (scan_digits cs) else Some ([], s))"

definition scan_sign :: "string \<Rightarrow> string \<times> string" where
  "scan_sign s =
     (case s of [] \<Rightarrow> ([], []) | c # cs \<Rightarrow> if c = CHR ''+'' \<or> c = CHR ''-'' then ([c], cs) else ([], s))"

definition scan_exp :: "string \<Rightarrow> (string \<times> string) option" where
  "scan_exp s =
     (case s of
        [] \<Rightarrow> Some ([], [])
      | c # cs \<Rightarrow>
          if c = CHR ''e'' \<or> c = CHR ''E''
          then map_option (\<lambda>(ds, r). (c # fst (scan_sign cs) @ ds, r)) (scan_digits (snd (scan_sign cs)))
          else Some ([], s))"

definition scan_number :: "string \<Rightarrow> (string \<times> string) option" where
  "scan_number s =
     (let (sign, s) = (case s of [] \<Rightarrow> ([], []) | c # cs \<Rightarrow> if c = CHR ''-'' then ([c], cs) else ([], s))
      in case scan_int s of
           None \<Rightarrow> None
         | Some (n, s) \<Rightarrow>
             (case scan_frac s of
                None \<Rightarrow> None
              | Some (f, s) \<Rightarrow> map_option (\<lambda>(e, r). (sign @ n @ f @ e, r)) (scan_exp s)))"

text \<open>The escape \<open>\u\<close> with four hexadecimal digits; a lone surrogate is U+FFFD.\<close>

definition hex_value :: "char \<Rightarrow> int option" where
  "hex_value c =
     (let n = of_char c :: int
      in if 48 \<le> n \<and> n \<le> 57 then Some (n - 48)
         else if 97 \<le> n \<and> n \<le> 102 then Some (n - 87)
         else if 65 \<le> n \<and> n \<le> 70 then Some (n - 55)
         else None)"

definition hex4 :: "string \<Rightarrow> (int \<times> string) option" where
  "hex4 s =
     (case map hex_value (take 4 s) of
        [Some a, Some b, Some c, Some d] \<Rightarrow> Some (a * 4096 + b * 256 + c * 16 + d, drop 4 s)
      | _ \<Rightarrow> None)"

definition low_surrogate :: "string \<Rightarrow> (int \<times> string) option" where
  "low_surrogate s =
     (case s of
        c # d # r \<Rightarrow>
          if c = CHR 0x5C \<and> d = CHR ''u''
          then (case hex4 r of Some (n, r') \<Rightarrow> if 0xDC00 \<le> n \<and> n < 0xE000 then Some (n, r') else None | None \<Rightarrow> None)
          else None
      | _ \<Rightarrow> None)"

definition unicode_escape :: "string \<Rightarrow> (string \<times> string) option" where
  "unicode_escape s =
     (case hex4 s of
        None \<Rightarrow> None
      | Some (n, r) \<Rightarrow>
          if 0xD800 \<le> n \<and> n < 0xDC00
          then (case low_surrogate r of
                  Some (m, r') \<Rightarrow> Some (utf8_rune ((n - 0xD800) * 1024 + (m - 0xDC00) + 0x10000), r')
                | None \<Rightarrow> Some (utf8_rune 0xFFFD, r))
          else Some (utf8_rune n, r))"

definition simple_escape :: "char \<Rightarrow> char option" where
  "simple_escape c =
     (if c = CHR 34 \<or> c = CHR 0x5C \<or> c = CHR ''/'' then Some c
      else if c = CHR ''b'' then Some (CHR 8)
      else if c = CHR ''f'' then Some (CHR 12)
      else if c = CHR ''n'' then Some (CHR 10)
      else if c = CHR ''r'' then Some (CHR 13)
      else if c = CHR ''t'' then Some (CHR 9)
      else None)"

text \<open>The rest of a string literal after its opening quote.\<close>

definition prepend :: "string \<Rightarrow> (string \<times> string) option \<Rightarrow> (string \<times> string) option" where
  "prepend p = map_option (\<lambda>(t, r). (p @ t, r))"

definition chunk_text :: "string \<Rightarrow> string" where
  "chunk_text s = (let (r, n) = decode_rune s in if n = 1 \<and> r \<ge> 0x80 then utf8_rune 0xFFFD else take n s)"

fun scan_string :: "nat \<Rightarrow> string \<Rightarrow> (string \<times> string) option" where
  "scan_string 0 s = None"
| "scan_string (Suc k) s =
     (case s of
        [] \<Rightarrow> None
      | c # cs \<Rightarrow>
          if c = CHR 34 then Some ([], cs)
          else if c = CHR 0x5C
          then (case cs of
                  [] \<Rightarrow> None
                | d # ds \<Rightarrow>
                    if d = CHR ''u'' then (case unicode_escape ds of None \<Rightarrow> None | Some (t, r) \<Rightarrow> prepend t (scan_string k r))
                    else (case simple_escape d of None \<Rightarrow> None | Some e \<Rightarrow> prepend [e] (scan_string k ds)))
          else if of_char c < (0x20 :: int) then None
          else prepend (chunk_text s) (scan_string k (drop (snd (decode_rune s)) s)))"

section \<open>Values\<close>

definition keyword :: "string \<Rightarrow> jdoc \<Rightarrow> string \<Rightarrow> (jdoc \<times> string) option" where
  "keyword w d s = (if take (length w) s = w then Some (d, drop (length w) s) else None)"

text \<open>The nesting of arrays and objects is bounded by the decoder.\<close>

definition maxNestingDepth :: nat where "maxNestingDepth = 10000"

fun parse_value :: "nat \<Rightarrow> nat \<Rightarrow> string \<Rightarrow> (jdoc \<times> string) option"
  and parse_elems :: "nat \<Rightarrow> nat \<Rightarrow> string \<Rightarrow> (jdoc list \<times> string) option"
  and parse_members :: "nat \<Rightarrow> nat \<Rightarrow> string \<Rightarrow> ((string \<times> jdoc) list \<times> string) option" where
  "parse_value 0 depth s = None"
| "parse_value (Suc k) depth s =
     (case s of
        [] \<Rightarrow> None
      | c # cs \<Rightarrow>
          if c = CHR ''n'' then keyword ''null'' DNull s
          else if c = CHR ''t'' then keyword ''true'' (DBool True) s
          else if c = CHR ''f'' then keyword ''false'' (DBool False) s
          else if c = CHR 34 then map_option (\<lambda>(t, r). (DStr t, r)) (scan_string (length s) cs)
          else if c = CHR ''['' then
            (if depth \<ge> maxNestingDepth then None
             else let r = skip_ws cs
                  in if take 1 r = '']'' then Some (DArr [], drop 1 r)
                     else map_option (\<lambda>(xs, r). (DArr xs, r)) (parse_elems k (depth + 1) r))
          else if c = CHR ''{'' then
            (if depth \<ge> maxNestingDepth then None
             else let r = skip_ws cs
                  in if take 1 r = ''}'' then Some (DObj [], drop 1 r)
                     else map_option (\<lambda>(xs, r). (DObj xs, r)) (parse_members k (depth + 1) r))
          else map_option (\<lambda>(n, r). (DNum n, r)) (scan_number s))"
| "parse_elems 0 depth s = None"
| "parse_elems (Suc k) depth s =
     (case parse_value k depth s of
        None \<Rightarrow> None
      | Some (v, r) \<Rightarrow>
          let r = skip_ws r
          in if take 1 r = '']'' then Some ([v], drop 1 r)
             else if take 1 r = '','' then map_option (\<lambda>(vs, r). (v # vs, r)) (parse_elems k depth (skip_ws (drop 1 r)))
             else None)"
| "parse_members 0 depth s = None"
| "parse_members (Suc k) depth s =
     (if take 1 s \<noteq> [CHR 34] then None
      else case scan_string (length s) (drop 1 s) of
        None \<Rightarrow> None
      | Some (name, r) \<Rightarrow>
          let r = skip_ws r
          in if take 1 r \<noteq> '':'' then None
             else case parse_value k depth (skip_ws (drop 1 r)) of
               None \<Rightarrow> None
             | Some (v, r) \<Rightarrow>
                 let r = skip_ws r
                 in if take 1 r = ''}'' then Some ([(name, v)], drop 1 r)
                    else if take 1 r = '','' then map_option (\<lambda>(vs, r). ((name, v) # vs, r)) (parse_members k depth (skip_ws (drop 1 r)))
                    else None)"

text \<open>The first value of a text, and a text that holds exactly one value (\<open>json.Valid\<close>).\<close>

definition json_fuel :: "string \<Rightarrow> nat" where "json_fuel s = 2 * length s + 2"

definition parse_prefix :: "string \<Rightarrow> (jdoc \<times> string) option" where
  "parse_prefix s = (let s = skip_ws s in parse_value (json_fuel s) 0 s)"

definition parse_json :: "string \<Rightarrow> jdoc option" where
  "parse_json s = (case parse_prefix s of None \<Rightarrow> None | Some (d, r) \<Rightarrow> if skip_ws r = [] then Some d else None)"

definition json_Valid :: "string \<Rightarrow> bool" where
  "json_Valid s = (parse_json s \<noteq> None)"

end
