(* ===== verification/Json_Facts.thy ===== *)
theory Json_Facts
  imports Json_Decode
begin

text \<open>
  Facts about the decoder: every scanner consumes text, the fuel of \<open>parse_prefix\<close> is enough
  (more fuel never changes a result), and the canonical text of a value is read back as that value.
\<close>

section \<open>Scanners consume text\<close>

lemma length_skip_ws: "length (skip_ws s) \<le> length s"
  by (simp add: skip_ws_def length_dropWhile_le)

lemma scan_digits_shorter: "scan_digits s = Some (n, r) \<Longrightarrow> length r < length s"
  by (cases s) (auto simp: scan_digits_def Let_def less_Suc_eq_le length_dropWhile_le split: if_splits)

lemma scan_int_shorter: "scan_int s = Some (n, r) \<Longrightarrow> length r < length s"
  by (auto simp: scan_int_def dest: scan_digits_shorter split: list.splits if_splits)

lemma scan_frac_shorter: "scan_frac s = Some (n, r) \<Longrightarrow> length r \<le> length s"
  by (fastforce simp: scan_frac_def dest: scan_digits_shorter split: list.splits if_splits)

lemma length_scan_sign: "length (snd (scan_sign s)) \<le> length s"
  by (simp add: scan_sign_def split: list.split)

lemma scan_exp_shorter:
  assumes "scan_exp s = Some (n, r)"
  shows "length r \<le> length s"
proof (cases s)
  case (Cons c cs)
  have "length r < length (snd (scan_sign cs)) \<or> r = s" using assms Cons
    by (auto simp: scan_exp_def dest: scan_digits_shorter split: if_splits)
  then show ?thesis using length_scan_sign [of cs] Cons by auto
qed (use assms in \<open>simp add: scan_exp_def\<close>)

lemma scan_number_shorter:
  assumes "scan_number s = Some (n, r)"
  shows "length r < length s"
proof -
  define body where "body = (case s of [] \<Rightarrow> [] | c # cs \<Rightarrow> if c = CHR ''-'' then cs else s)"
  obtain i r1 f r2 e where "scan_int body = Some (i, r1)" "scan_frac r1 = Some (f, r2)" "scan_exp r2 = Some (e, r)"
    using assms by (cases s) (auto simp: scan_number_def body_def Let_def split: if_splits option.splits)
  moreover have "length body \<le> length s" by (simp add: body_def split: list.split)
  ultimately show ?thesis
    using scan_int_shorter scan_frac_shorter scan_exp_shorter by (metis le_less_trans less_le_trans)
qed

lemma hex4_shorter: "hex4 s = Some (n, r) \<Longrightarrow> length r \<le> length s"
  by (auto simp: hex4_def split: list.splits option.splits)

lemma low_surrogate_shorter: "low_surrogate s = Some (n, r) \<Longrightarrow> length r \<le> length s"
  by (auto simp: low_surrogate_def dest!: hex4_shorter split: list.splits option.splits if_splits)

lemma unicode_escape_shorter: "unicode_escape s = Some (t, r) \<Longrightarrow> length r \<le> length s"
  by (auto simp: unicode_escape_def dest!: hex4_shorter low_surrogate_shorter split: option.splits if_splits)

lemma prepend_Some [simp]: "prepend p x = Some (t, r) \<longleftrightarrow> (\<exists>u. x = Some (u, r) \<and> t = p @ u)"
  by (auto simp: prepend_def)

lemma decode_size_pos: "0 < snd (decode_rune s)"
  by (simp add: decode_rune_def Let_def)

lemma scan_string_shorter: "scan_string k s = Some (t, r) \<Longrightarrow> length r < length s"
proof (induction k arbitrary: s t)
  case (Suc k)
  obtain c cs where s: "s = c # cs" using Suc.prems by (cases s) auto
  consider "c = CHR 34" | "c = CHR 0x5C" | "c \<noteq> CHR 34" "c \<noteq> CHR 0x5C" by blast
  then show ?case
  proof cases
    case 1
    with Suc.prems s show ?thesis by simp
  next
    case 2
    then obtain d ds where cs: "cs = d # ds" using Suc.prems s by (cases cs) auto
    have "\<exists>r' u. scan_string k r' = Some (u, r) \<and> length r' \<le> length ds"
      using Suc.prems s cs 2 by (fastforce dest: unicode_escape_shorter split: if_splits option.splits)
    with Suc.IH show ?thesis using s cs by fastforce
  next
    case 3
    then obtain u where "scan_string k (drop (snd (decode_rune s)) s) = Some (u, r)"
      using Suc.prems s by (auto split: if_splits)
    from Suc.IH [OF this] show ?thesis using decode_size_pos [of s] by simp
  qed
qed simp

lemma keyword_shorter: "keyword w d s = Some (v, r) \<Longrightarrow> w \<noteq> [] \<Longrightarrow> length r < length s"
  by (cases s; cases w) (auto simp: keyword_def split: if_splits)

lemma value_shorter:
  assumes "parse_value (Suc k) depth s = Some (v, r)"
    and "\<And>t vs. parse_elems k (Suc depth) t = Some (vs, r) \<Longrightarrow> length r < length t"
    and "\<And>t ms. parse_members k (Suc depth) t = Some (ms, r) \<Longrightarrow> length r < length t"
  shows "length r < length s"
proof -
  obtain c cs where s: "s = c # cs" using assms(1) by (cases s) auto
  note ws = length_skip_ws [of cs]
  consider "c = CHR ''n''" | "c = CHR ''t''" | "c = CHR ''f''" | "c = CHR 34" | "c = CHR ''[''" | "c = CHR ''{''"
    | "c \<noteq> CHR ''n''" "c \<noteq> CHR ''t''" "c \<noteq> CHR ''f''" "c \<noteq> CHR 34" "c \<noteq> CHR ''[''" "c \<noteq> CHR ''{''" by blast
  then show ?thesis
  proof cases
    case 4
    then obtain t where "scan_string (length s) cs = Some (t, r)"
      using assms(1) s by (auto simp del: scan_string.simps)
    then show ?thesis using scan_string_shorter s by fastforce
  next
    case 5
    then have "length r < length (skip_ws cs) \<or> length r \<le> length (skip_ws cs)"
      using assms(1,2) s by (auto simp: Let_def simp del: scan_string.simps split: if_splits)
    then show ?thesis using ws s by auto
  next
    case 6
    then have "length r < length (skip_ws cs) \<or> length r \<le> length (skip_ws cs)"
      using assms(1,3) s by (auto simp: Let_def simp del: scan_string.simps split: if_splits)
    then show ?thesis using ws s by auto
  next
    case 7
    then obtain n where "scan_number s = Some (n, r)"
      using assms(1) s by (auto simp del: scan_string.simps)
    then show ?thesis by (rule scan_number_shorter)
  qed (use assms(1) s in \<open>auto dest: keyword_shorter\<close>)
qed

lemma parse_shorter:
  "(\<forall>v r. parse_value k depth s = Some (v, r) \<longrightarrow> length r < length s) \<and>
   (\<forall>vs r. parse_elems k depth s = Some (vs, r) \<longrightarrow> length r < length s) \<and>
   (\<forall>ms r. parse_members k depth s = Some (ms, r) \<longrightarrow> length r < length s)"
proof (induction k arbitrary: depth s)
  case (Suc k)
  have v: "length r < length t" if "parse_value (Suc k) d t = Some (x, r)" for d t x r
    by (rule value_shorter [OF that]) (use Suc in blast)+
  have step: "length (drop 1 (skip_ws t)) \<le> length t" "length (skip_ws (drop 1 (skip_ws t))) \<le> length t" for t
    using length_skip_ws [of t] length_skip_ws [of "drop 1 (skip_ws t)"] by (simp_all add: le_diff_conv)
  have e: "length r < length s" if h: "parse_elems (Suc k) depth s = Some (vs, r)" for vs r
  proof -
    obtain x q where q: "parse_value k depth s = Some (x, q)" using h by (cases "parse_value k depth s") auto
    then have less: "length q < length s" using Suc by blast
    have "r = drop 1 (skip_ws q) \<or> (\<exists>ws. parse_elems k depth (skip_ws (drop 1 (skip_ws q))) = Some (ws, r))"
      using h q by (auto simp: Let_def split: if_splits)
    then show ?thesis
    proof
      assume "r = drop 1 (skip_ws q)"
      then show ?thesis using step(1) [of q] less by simp
    next
      assume "\<exists>ws. parse_elems k depth (skip_ws (drop 1 (skip_ws q))) = Some (ws, r)"
      then have "length r < length (skip_ws (drop 1 (skip_ws q)))" using Suc by blast
      then show ?thesis using step(2) [of q] less by simp
    qed
  qed
  have m: "length r < length s" if h: "parse_members (Suc k) depth s = Some (ms, r)" for ms r
  proof -
    obtain name q where q: "scan_string (length s) (drop 1 s) = Some (name, q)"
      using h by (cases "scan_string (length s) (drop 1 s)") (auto simp del: scan_string.simps split: if_splits)
    then have "length q < length (drop 1 s)" by (rule scan_string_shorter)
    then have q_less: "length q < length s" by simp
    obtain x t where t: "parse_value k depth (skip_ws (drop 1 (skip_ws q))) = Some (x, t)"
      using h q by (auto simp: Let_def simp del: scan_string.simps split: if_splits option.splits)
    then have "length t < length (skip_ws (drop 1 (skip_ws q)))" using Suc by blast
    then have less: "length t < length s" using step(2) [of q] q_less by simp
    have "r = drop 1 (skip_ws t) \<or> (\<exists>ws. parse_members k depth (skip_ws (drop 1 (skip_ws t))) = Some (ws, r))"
      using h q t by (auto simp: Let_def simp del: scan_string.simps split: if_splits)
    then show ?thesis
    proof
      assume "r = drop 1 (skip_ws t)"
      then show ?thesis using step(1) [of t] less by simp
    next
      assume "\<exists>ws. parse_members k depth (skip_ws (drop 1 (skip_ws t))) = Some (ws, r)"
      then have "length r < length (skip_ws (drop 1 (skip_ws t)))" using Suc by blast
      then show ?thesis using step(2) [of t] less by simp
    qed
  qed
  show ?case using v e m by blast
qed simp

section \<open>Fuel\<close>

lemma parse_more_fuel:
  "(2 * length s + 1 \<le> k \<longrightarrow> parse_value (Suc k) d s = parse_value k d s) \<and>
   (2 * length s + 2 \<le> k \<longrightarrow> parse_elems (Suc k) d s = parse_elems k d s) \<and>
   (2 * length s + 2 \<le> k \<longrightarrow> parse_members (Suc k) d s = parse_members k d s)"
proof (induction k arbitrary: d s)
  case (Suc k)
  have v: "2 * length t + 1 \<le> k \<Longrightarrow> parse_value (Suc k) e t = parse_value k e t" for e t using Suc.IH by blast
  have es: "2 * length t + 2 \<le> k \<Longrightarrow> parse_elems (Suc k) e t = parse_elems k e t" for e t using Suc.IH by blast
  have ms: "2 * length t + 2 \<le> k \<Longrightarrow> parse_members (Suc k) e t = parse_members k e t" for e t using Suc.IH by blast
  have ws: "length (skip_ws (drop n t)) \<le> length t - n" for n t using length_skip_ws [of "drop n t"] by simp
  have V: "2 * length s + 1 \<le> Suc k \<Longrightarrow> parse_value (Suc (Suc k)) d s = parse_value (Suc k) d s"
  proof (cases s)
    case (Cons c cs)
    assume "2 * length s + 1 \<le> Suc k"
    then have "2 * length (skip_ws cs) + 2 \<le> k" using Cons length_skip_ws [of cs] by simp
    note f = es [OF this] ms [OF this]
    show ?thesis unfolding Cons parse_value.simps list.case Let_def f ..
  qed simp
  have E: "2 * length s + 2 \<le> Suc k \<Longrightarrow> parse_elems (Suc (Suc k)) d s = parse_elems (Suc k) d s"
  proof -
    assume f: "2 * length s + 2 \<le> Suc k"
    then have "parse_value (Suc k) d s = parse_value k d s" by (intro v) simp
    moreover have "parse_elems (Suc k) d (skip_ws (drop 1 (skip_ws r))) = parse_elems k d (skip_ws (drop 1 (skip_ws r)))"
      if "parse_value k d s = Some (x, r)" for x r
    proof (rule es)
      have "length r < length s" using that parse_shorter by blast
      then show "2 * length (skip_ws (drop 1 (skip_ws r))) + 2 \<le> k" using f ws [of 1 "skip_ws r"] length_skip_ws [of r] by linarith
    qed
    ultimately show ?thesis unfolding parse_elems.simps Let_def
      by (cases "parse_value k d s") (auto split: prod.split)
  qed
  have M: "2 * length s + 2 \<le> Suc k \<Longrightarrow> parse_members (Suc (Suc k)) d s = parse_members (Suc k) d s"
  proof -
    assume f: "2 * length s + 2 \<le> Suc k"
    have q: "length (skip_ws (drop 1 (skip_ws q))) < length s" if "scan_string (length s) (drop 1 s) = Some (name, q)" for name q
      using scan_string_shorter [OF that] ws [of 1 "skip_ws q"] length_skip_ws [of q] by simp
    have a: "parse_value (Suc k) d (skip_ws (drop 1 (skip_ws q))) = parse_value k d (skip_ws (drop 1 (skip_ws q)))"
      if "scan_string (length s) (drop 1 s) = Some (name, q)" for name q
      using q [OF that] f by (intro v) linarith
    have b: "parse_members (Suc k) d (skip_ws (drop 1 (skip_ws r))) = parse_members k d (skip_ws (drop 1 (skip_ws r)))"
      if "scan_string (length s) (drop 1 s) = Some (name, q)" "parse_value k d (skip_ws (drop 1 (skip_ws q))) = Some (x, r)" for name q x r
    proof (rule ms)
      have "length r < length (skip_ws (drop 1 (skip_ws q)))" using that(2) parse_shorter by blast
      then show "2 * length (skip_ws (drop 1 (skip_ws r))) + 2 \<le> k"
        using q [OF that(1)] f ws [of 1 "skip_ws r"] length_skip_ws [of r] by linarith
    qed
    show ?thesis
    proof (cases "scan_string (length s) (drop 1 s)")
      case (Some nq)
      obtain name q where nq: "nq = (name, q)" by fastforce
      note h = Some [unfolded nq]
      show ?thesis
      proof (cases "parse_value k d (skip_ws (drop 1 (skip_ws q)))")
        case None
        show ?thesis unfolding parse_members.simps(2) Let_def h option.case prod.case a [OF h] None ..
      next
        case (Some xr)
        obtain x r where xr: "xr = (x, r)" by fastforce
        note g = Some [unfolded xr]
        show ?thesis unfolding parse_members.simps(2) [of "Suc k"] parse_members.simps(2) [of k d s] Let_def h option.case prod.case a [OF h] g
          b [OF h g] ..
      qed
    qed simp
  qed
  from V E M show ?case by blast
qed simp

text \<open>So the fuel of \<open>parse_prefix\<close> is enough: any more of it gives the same result.\<close>

lemma parse_value_fuel: "2 * length s + 1 \<le> k \<Longrightarrow> parse_value k d s = parse_value (2 * length s + 1) d s"
proof (induction k rule: dec_induct)
  case (step k)
  then show ?case using parse_more_fuel [of s k d] by simp
qed simp

lemma json_fuel_enough: "json_fuel s \<le> k \<Longrightarrow> parse_value k d s = parse_value (json_fuel s) d s"
  using parse_value_fuel [of s k d] parse_value_fuel [of s "json_fuel s" d] by (simp add: json_fuel_def)

section \<open>Evaluation\<close>

text \<open>Equations that evaluate an ASCII character at once.\<close>

definition decode_rune_wide :: "string \<Rightarrow> int \<times> nat" where
  "decode_rune_wide s = decode_rune s"

lemma decode_rune_wide_code [code]:
  "decode_rune_wide s =
     (let b0 = byte_at s 0; b1 = byte_at s 1; b2 = byte_at s 2; b3 = byte_at s 3
      in if b0 < 0x80 then (b0, 1)
         else if 0xC2 \<le> b0 \<and> b0 \<le> 0xDF \<and> continuation b1 then ((b0 mod 32) * 64 + b1 mod 64, 2)
         else if 0xE0 \<le> b0 \<and> b0 \<le> 0xEF \<and> continuation b1 \<and> continuation b2 \<and> (b0 = 0xE0 \<longrightarrow> 0xA0 \<le> b1) \<and> (b0 = 0xED \<longrightarrow> b1 \<le> 0x9F)
         then ((b0 mod 16) * 4096 + (b1 mod 64) * 64 + b2 mod 64, 3)
         else if 0xF0 \<le> b0 \<and> b0 \<le> 0xF4 \<and> continuation b1 \<and> continuation b2 \<and> continuation b3 \<and> (b0 = 0xF0 \<longrightarrow> 0x90 \<le> b1) \<and> (b0 = 0xF4 \<longrightarrow> b1 \<le> 0x8F)
         then ((b0 mod 8) * 262144 + (b1 mod 64) * 4096 + (b2 mod 64) * 64 + b3 mod 64, 4)
         else (0xFFFD, 1))"
  by (simp add: decode_rune_wide_def decode_rune_def)

lemma decode_rune_ascii: "(of_char c :: int) < 0x80 \<Longrightarrow> decode_rune (c # cs) = (of_char c, 1)"
  by (simp add: decode_rune_def byte_at_def Let_def)

lemma decode_rune_Nil: "decode_rune [] = (0, 1)"
  by (simp add: decode_rune_def byte_at_def Let_def)

lemma decode_rune_code [code]:
  "decode_rune [] = (0, 1)"
  "decode_rune (c # cs) = (let n = of_char c in if n < 0x80 then (n, 1) else decode_rune_wide (c # cs))"
  by (simp_all add: decode_rune_Nil decode_rune_ascii decode_rune_wide_def Let_def)

end
