(* ===== verification/Json_Roundtrip.thy ===== *)
theory Json_Roundtrip
  imports Json_Facts
begin

text \<open>
  Writing and reading JSON: \<open>doc_text\<close> is the text \<open>json.Marshal\<close> gives a decoded value, and the
  decoder reads it back. With integers for numbers this covers the canonical text of a value.
\<close>

section \<open>Writing a document\<close>

text \<open>\<open>json.Marshal\<close> of a decoded value of type \<open>any\<close>: numbers as they are spelled, maps by key.\<close>

primrec doc_text :: "jdoc \<Rightarrow> string" where
  "doc_text DNull = ''null''"
| "doc_text (DBool b) = (if b then ''true'' else ''false'')"
| "doc_text (DNum n) = n"
| "doc_text (DStr s) = quote s"
| "doc_text (DArr xs) = ''['' @ commas (map doc_text xs) @ '']''"
| "doc_text (DObj ms) =
     ''{'' @ commas (map (\<lambda>(k, s). quote k @ '':'' @ s) (to_gomap (map (map_prod id doc_text) ms))) @ ''}''"

text \<open>The documents that are read back: UTF-8 texts, numbers of the grammar, sorted members.\<close>

fun doc_ok :: "jdoc \<Rightarrow> bool" where
  "doc_ok (DNum n) = (scan_number n = Some (n, []))"
| "doc_ok (DStr s) = utf8_Valid s"
| "doc_ok (DArr xs) = (\<forall>x \<in> set xs. doc_ok x)"
| "doc_ok (DObj ms) = (wf_map ms \<and> (\<forall>(k, x) \<in> set ms. utf8_Valid k \<and> doc_ok x))"
| "doc_ok _ = True"

primrec doc_depth :: "jdoc \<Rightarrow> nat" where
  "doc_depth DNull = 0"
| "doc_depth (DBool b) = 0"
| "doc_depth (DNum n) = 0"
| "doc_depth (DStr s) = 0"
| "doc_depth (DArr xs) = Suc (foldr max (map doc_depth xs) 0)"
| "doc_depth (DObj ms) = Suc (foldr max (map snd (map (map_prod id doc_depth) ms)) 0)"

section \<open>Strings\<close>

lemma decode_rune_cases:
  obtains (ascii) "byte_at s 0 < 0x80" "decode_rune s = (byte_at s 0, 1)"
  | (two) "0xC2 \<le> byte_at s 0" "byte_at s 0 \<le> 0xDF" "continuation (byte_at s 1)"
      "decode_rune s = ((byte_at s 0 mod 32) * 64 + byte_at s 1 mod 64, 2)"
  | (three) "0xE0 \<le> byte_at s 0" "byte_at s 0 \<le> 0xEF" "continuation (byte_at s 1)" "continuation (byte_at s 2)"
      "byte_at s 0 = 0xE0 \<longrightarrow> 0xA0 \<le> byte_at s 1" "byte_at s 0 = 0xED \<longrightarrow> byte_at s 1 \<le> 0x9F"
      "decode_rune s = ((byte_at s 0 mod 16) * 4096 + (byte_at s 1 mod 64) * 64 + byte_at s 2 mod 64, 3)"
  | (four) "0xF0 \<le> byte_at s 0" "byte_at s 0 \<le> 0xF4" "continuation (byte_at s 1)" "continuation (byte_at s 2)" "continuation (byte_at s 3)"
      "byte_at s 0 = 0xF0 \<longrightarrow> 0x90 \<le> byte_at s 1" "byte_at s 0 = 0xF4 \<longrightarrow> byte_at s 1 \<le> 0x8F"
      "decode_rune s = ((byte_at s 0 mod 8) * 262144 + (byte_at s 1 mod 64) * 4096 + (byte_at s 2 mod 64) * 64 + byte_at s 3 mod 64, 4)"
  | (invalid) "0x80 \<le> byte_at s 0" "decode_rune s = (0xFFFD, 1)"
proof -
  let ?c2 = "0xC2 \<le> byte_at s 0 \<and> byte_at s 0 \<le> 0xDF \<and> continuation (byte_at s 1)"
  let ?c3 = "0xE0 \<le> byte_at s 0 \<and> byte_at s 0 \<le> 0xEF \<and> continuation (byte_at s 1) \<and> continuation (byte_at s 2) \<and>
         (byte_at s 0 = 0xE0 \<longrightarrow> 0xA0 \<le> byte_at s 1) \<and> (byte_at s 0 = 0xED \<longrightarrow> byte_at s 1 \<le> 0x9F)"
  let ?c4 = "0xF0 \<le> byte_at s 0 \<and> byte_at s 0 \<le> 0xF4 \<and> continuation (byte_at s 1) \<and> continuation (byte_at s 2) \<and> continuation (byte_at s 3) \<and>
         (byte_at s 0 = 0xF0 \<longrightarrow> 0x90 \<le> byte_at s 1) \<and> (byte_at s 0 = 0xF4 \<longrightarrow> byte_at s 1 \<le> 0x8F)"
  show thesis
  proof (cases "byte_at s 0 < 0x80")
    case True
    then show ?thesis by (intro ascii) (simp_all add: decode_rune_def Let_def)
  next
    case wide: False
    show ?thesis
    proof (cases ?c2)
      case True
      show ?thesis by (rule two) (use True wide in \<open>simp_all add: decode_rune_def Let_def\<close>)
    next
      case n2: False
      show ?thesis
      proof (cases ?c3)
        case True
        show ?thesis by (rule three) (use True wide n2 in \<open>simp_all add: decode_rune_def Let_def\<close>)
      next
        case n3: False
        show ?thesis
        proof (cases ?c4)
          case True
          have "decode_rune s =
              ((byte_at s 0 mod 8) * 262144 + (byte_at s 1 mod 64) * 4096 + (byte_at s 2 mod 64) * 64 + byte_at s 3 mod 64, 4)"
            unfolding decode_rune_def Let_def if_not_P [OF wide] if_not_P [OF n2] if_not_P [OF n3] if_P [OF True] by (rule refl)
          with True four show ?thesis by blast
        next
          case False
          have "decode_rune s = (0xFFFD, 1)"
            unfolding decode_rune_def Let_def if_not_P [OF wide] if_not_P [OF n2] if_not_P [OF n3] if_not_P [OF False] by (rule refl)
          with wide invalid show ?thesis by simp
        qed
      qed
    qed
  qed
qed

lemma of_char_range: "0 \<le> (of_char c :: int) \<and> (of_char c :: int) < 256"
  using nat_of_char_less_256 [of c] by (metis of_nat_0_le_iff of_nat_less_iff of_nat_numeral of_nat_of_char)

lemma byte_range: "0 \<le> byte_at s i \<and> byte_at s i < 256"
  using of_char_range by (auto simp: byte_at_def)

lemma byte_at_pos: "0 < byte_at s i \<Longrightarrow> i < length s"
  by (simp add: byte_at_def split: if_splits)

lemma byte_at_char: "byte_at s i = n \<Longrightarrow> i < length s \<Longrightarrow> s ! i = char_of n"
  by (auto simp: byte_at_def)

text \<open>A code point beyond ASCII lies within the text and does not depend on what follows it.\<close>

lemma decode_wide:
  assumes "decode_rune s = (r, n)" "n \<noteq> 1"
  shows "n \<le> length s \<and> 1 < n \<and> 0x80 \<le> byte_at s 0 \<and> decode_rune (take n s @ rest) = (r, n)"
proof -
  have same: "byte_at (take n s @ rest) i = byte_at s i" if "i < n" "n \<le> length s" for i
    using that by (simp add: byte_at_def nth_append)
  show ?thesis
  proof (cases s rule: decode_rune_cases)
    case two
    then have "n = 2" "n \<le> length s" using assms byte_at_pos [of s 1] by (auto simp: continuation_def)
    then show ?thesis using two same [of 0] same [of 1] assms(1) by (simp add: decode_rune_def Let_def)
  next
    case three
    then have "n = 3" "n \<le> length s" using assms byte_at_pos [of s 2] by (auto simp: continuation_def)
    then show ?thesis using three same [of 0] same [of 1] same [of 2] assms(1) by (simp add: decode_rune_def Let_def)
  next
    case four
    then have "n = 4" "n \<le> length s" using assms byte_at_pos [of s 3] by (auto simp: continuation_def)
    then show ?thesis using four same [of 0] same [of 1] same [of 2] same [of 3] assms(1) by (simp add: decode_rune_def Let_def)
  qed (use assms in auto)
qed

lemma separator_bytes:
  assumes "decode_rune s = (r, n)" "r = 0x2028 \<or> r = 0x2029"
  shows "take n s = utf8_rune r \<and> n = 3"
proof (cases s rule: decode_rune_cases)
  case ascii
  then show ?thesis using assms by auto
next
  case two
  have "byte_at s 0 mod 32 < 32" "byte_at s 1 mod 64 < 64" by simp_all
  then have "(byte_at s 0 mod 32) * 64 + byte_at s 1 mod 64 < 2048" by linarith
  then show ?thesis using assms two by auto
next
  case three
  define x y z where "x = byte_at s 0 - 0xE0" and "y = byte_at s 1 - 0x80" and "z = byte_at s 2 - 0x80"
  have r: "0 \<le> x" "x < 16" "0 \<le> y" "y < 64" "0 \<le> z" "z < 64" using three by (auto simp: x_def y_def z_def continuation_def)
  have bytes: "byte_at s 0 = x + 14 * 16" "byte_at s 1 = y + 2 * 64" "byte_at s 2 = z + 2 * 64" by (simp_all add: x_def y_def z_def)
  have m: "byte_at s 0 mod 16 = x" "byte_at s 1 mod 64 = y" "byte_at s 2 mod 64 = z"
    unfolding bytes mod_mult_self1 using r by simp_all
  have v: "x * 4096 + y * 64 + z = r" using three(7) assms(1) m by simp
  have "x = 2" using v r assms(2) by (cases "x \<le> 1"; cases "3 \<le> x"; linarith)
  moreover have "y = 0" using v r assms(2) \<open>x = 2\<close> by (cases "1 \<le> y"; linarith)
  ultimately have "x = 2 \<and> y = 0 \<and> z = r - 8192" using v by simp
  then have b: "byte_at s 0 = 0xE2" "byte_at s 1 = 0x80" "byte_at s 2 = 0x80 + (r - 8192)" by (auto simp: x_def y_def z_def)
  have len: "2 < length s" using b(3) assms(2) by (intro byte_at_pos) auto
  then have ne: "s \<noteq> []" by auto
  from len have "take 3 s = [s ! 0, s ! 1, s ! 2]" by (intro nth_equalityI) (auto simp: numeral_3_eq_3 numeral_2_eq_2 less_Suc_eq)
  also have "\<dots> = [char_of (0xE2::int), char_of (0x80::int), char_of (0x80 + (r - 8192))]"
    using len ne b byte_at_char [of s 0] byte_at_char [of s 1] byte_at_char [of s 2] by simp
  also have "\<dots> = utf8_rune r" using assms(2) by (auto simp: utf8_rune_def valid_rune_def utf8_bytes_def)
  finally show ?thesis using three(7) assms(1) by simp
next
  case four
  define x y where "x = byte_at s 0 - 0xF0" and "y = byte_at s 1 - 0x80"
  have r: "0 \<le> x" "x < 5" "0 \<le> y" "y < 64" "x = 0 \<longrightarrow> 16 \<le> y" using four by (auto simp: x_def y_def continuation_def)
  have bytes: "byte_at s 0 = x + 30 * 8" "byte_at s 1 = y + 2 * 64" by (simp_all add: x_def y_def)
  have m: "byte_at s 0 mod 8 = x" "byte_at s 1 mod 64 = y"
    unfolding bytes mod_mult_self1 using r by simp_all
  have "0 \<le> byte_at s 2 mod 64" "0 \<le> byte_at s 3 mod 64" by simp_all
  moreover have "65536 \<le> x * 262144 + y * 4096" using r by (cases "x = 0") auto
  ultimately have "65536 \<le> fst (decode_rune s)" using four(8) m by simp
  then show ?thesis using assms by auto
next
  case invalid
  then show ?thesis using assms by auto
qed

lemma int_of_char_of: "(of_char (char_of (n :: nat)) :: int) = int n mod 256"
proof -
  have "(of_char (char_of n) :: int) = int (of_char (char_of n))" by (rule of_nat_of_char [symmetric])
  then show ?thesis by (simp add: zmod_int)
qed

lemma hex_value_digit: "0 \<le> d \<Longrightarrow> d < 16 \<Longrightarrow> hex_value (hex_digit d) = Some d"
  by (auto simp: hex_value_def hex_digit_def Let_def int_of_char_of)

lemma hex4_u00:
  assumes "n < 256"
  shows "hex4 (''00'' @ [hex_digit (int n div 16), hex_digit (int n mod 16)] @ rest) = Some (int n, rest)"
proof -
  have "hex_value (hex_digit (int n div 16)) = Some (int n div 16)" "hex_value (hex_digit (int n mod 16)) = Some (int n mod 16)"
    using assms by (auto intro!: hex_value_digit)
  moreover have "hex_value (CHR ''0'') = Some 0" by code_simp
  moreover have "int n div 16 * 16 + int n mod 16 = int n" by simp
  ultimately show ?thesis by (simp add: hex4_def)
qed

lemma hex4_line:
  "hex4 (''2028'' @ rest) = Some (0x2028, rest)" "hex4 (''2029'' @ rest) = Some (0x2029, rest)"
  by (simp_all add: hex4_def hex_value_def)

lemma prepend_fun: "prepend p x = (case x of None \<Rightarrow> None | Some (t, r) \<Rightarrow> Some (p @ t, r))"
  by (simp add: prepend_def map_option_case split: option.split)

text \<open>An escaped ASCII character is read back.\<close>

lemma scan_escape_char:
  assumes "of_char c < (0x80 :: int)"
  shows "scan_string (Suc k) (escape_char c @ rest) = prepend [c] (scan_string k rest)"
proof -
  let ?n = "of_char c :: nat"
  have int: "(of_char c :: int) = int ?n" by (rule of_nat_of_char [symmetric])
  have c: "c = char_of ?n" by simp
  consider (esc) "?n \<in> {34, 92, 8, 12, 10, 13, 9}" | (hex) "?n \<notin> {34, 92, 8, 12, 10, 13, 9}" "?n < 32 \<or> ?n \<in> {60, 62, 38}"
    | (plain) "32 \<le> ?n" "?n \<notin> {34, 92, 60, 62, 38}"
    by (cases "?n \<in> {34, 92, 8, 12, 10, 13, 9}"; cases "?n < 32 \<or> ?n \<in> {60, 62, 38}") auto
  then show ?thesis
  proof cases
    case esc
    then have "?n \<in> of_char ` {CHR 34, CHR 92, CHR 8, CHR 12, CHR 10, CHR 13, CHR 9}" by simp
    then have "c \<in> {CHR 34, CHR 92, CHR 8, CHR 12, CHR 10, CHR 13, CHR 9}" by (metis imageE of_char_eqI)
    then show ?thesis by (auto simp: escape_char_def simple_escape_def)
  next
    case hex
    have n: "?n < 256" by simp
    have "escape_char c = u00 ?n" using hex by (auto simp: escape_char_def Let_def)
    moreover have "utf8_rune (of_char c) = [c]" using assms of_char_range [of c] by (simp add: utf8_rune_def valid_rune_def utf8_bytes_def)
    then have "unicode_escape (''00'' @ [hex_digit (int ?n div 16), hex_digit (int ?n mod 16)] @ rest) = Some ([c], rest)"
      unfolding unicode_escape_def hex4_u00 [OF n] option.case prod.case using assms by (simp only: int) simp
    ultimately show ?thesis by (simp add: u00_def)
  next
    case plain
    have "c \<noteq> CHR 34" "c \<noteq> CHR 0x5C" using plain by auto
    moreover have "escape_char c = [c]" using plain by (auto simp: escape_char_def Let_def)
    moreover have "decode_rune (c # rest) = (of_char c, 1)" by (rule decode_rune_ascii) (rule assms)
    ultimately show ?thesis using plain int assms by (simp add: chunk_text_def)
  qed
qed

lemma scan_wide:
  assumes "decode_rune s = (r, n)" "n \<noteq> 1"
  shows "scan_string (Suc k) (take n s @ rest) = prepend (take n s) (scan_string k rest)"
proof -
  have w: "n \<le> length s" "1 < n" "0x80 \<le> byte_at s 0" "decode_rune (take n s @ rest) = (r, n)"
    using decode_wide [OF assms] by auto
  obtain c cs where s: "s = c # cs" using w by (cases s) auto
  obtain m where m: "n = Suc m" using w by (cases n) auto
  have "(0x80 :: int) \<le> of_char c" using w(3) s by (simp add: byte_at_def)
  then have "c \<noteq> CHR 34" "c \<noteq> CHR 0x5C" "\<not> (of_char c :: int) < 0x20" by auto
  then show ?thesis using w s m by (simp add: chunk_text_def)
qed

lemma scan_line:
  assumes "r = 0x2028 \<or> r = 0x2029"
  shows "scan_string (Suc k) ([CHR 0x5C] @ (if r = 0x2028 then ''u2028'' else ''u2029'') @ rest) = prepend (utf8_rune r) (scan_string k rest)"
  using assms hex4_line [of rest] by (auto simp: unicode_escape_def)

text \<open>A text is valid when its first code point and the rest of it are.\<close>

lemma utf8_Valid_Cons:
  assumes "decode_rune (c # cs) = (r, n)"
  shows "utf8_Valid (c # cs) \<longleftrightarrow> (n = 1 \<longrightarrow> of_char c < (0x80 :: int)) \<and> utf8_Valid (drop (n - 1) cs)"
proof -
  have n: "0 < n" using decode_size_pos [of "c # cs"] assms by simp
  have "valid_chunk (take n (c # cs)) \<longleftrightarrow> (n = 1 \<longrightarrow> of_char c < (0x80 :: int))"
  proof (cases "n = 1")
    case True
    then show ?thesis by (simp add: valid_chunk_def byte_at_def)
  next
    case False
    then show ?thesis using decode_wide [OF assms] n by (simp add: valid_chunk_def)
  qed
  then show ?thesis using assms by (simp add: utf8_Valid_def Let_def)
qed

lemma length_escape_text_ge: "length s \<le> length (escape_text s)"
proof (induction s rule: escape_text.induct)
  case (2 c cs)
  obtain r n where rn: "decode_rune (c # cs) = (r, n)" by force
  have char: "1 \<le> length (escape_char c)" by (simp add: escape_char_def u00_def Let_def)
  show ?case
  proof (cases "n = 1")
    case True
    then show ?thesis using 2(1) [OF rn [symmetric] refl True] True rn char by (simp add: Let_def)
  next
    case False
    obtain m where m: "n = Suc m" "m \<le> length cs" using decode_wide [OF rn False] by (cases n) auto
    have "length (drop m cs) \<le> length (escape_text (drop m cs))" using 2(2) [OF rn [symmetric] refl False] m by simp
    moreover have "n = 3" if "r = 0x2028 \<or> r = 0x2029" using separator_bytes [OF rn that] by blast
    ultimately show ?thesis using rn m False by (auto simp: Let_def)
  qed
qed simp

theorem scan_string_escape:
  "utf8_Valid s \<Longrightarrow> length s < k \<Longrightarrow> scan_string k (escape_text s @ CHR 34 # rest) = Some (s, rest)"
proof (induction s arbitrary: k rule: escape_text.induct)
  case 1
  then show ?case by (cases k) simp_all
next
  case (2 c cs)
  obtain j where k: "k = Suc j" using 2(4) by (cases k) auto
  obtain r n where rn: "decode_rune (c # cs) = (r, n)" by force
  show ?case
  proof (cases "n = 1")
    case True
    have ascii: "of_char c < (0x80 :: int)" "utf8_Valid cs" using 2(3) True by (simp_all add: utf8_Valid_Cons [OF rn])
    then have r: "r = of_char c" using rn decode_rune_ascii by simp
    then have "escape_text (c # cs) = escape_char c @ escape_text cs" using rn True ascii by (simp add: Let_def)
    then show ?thesis using 2(1) [OF rn [symmetric] refl True ascii(2), of j] 2(4) k scan_escape_char [OF ascii(1)] by (simp add: prepend_fun del: scan_string.simps)
  next
    case False
    have tail: "utf8_Valid (drop (n - 1) cs)" using 2(3) by (simp add: utf8_Valid_Cons [OF rn])
    have w: "n \<le> length (c # cs)" "1 < n" using decode_wide [OF rn False] by auto
    have IH: "scan_string j (escape_text (drop (n - 1) cs) @ CHR 34 # rest) = Some (drop (n - 1) cs, rest)"
      using 2(2) [OF rn [symmetric] refl False tail] 2(4) k w by simp
    have whole: "take n (c # cs) @ drop (n - 1) cs = c # cs" using w by (cases n) simp_all
    have scan: "scan_string (Suc j) (t @ escape_text (drop (n - 1) cs) @ CHR 34 # rest) = Some (c # cs, rest)"
      if "scan_string (Suc j) (t @ escape_text (drop (n - 1) cs) @ CHR 34 # rest) =
        prepend (take n (c # cs)) (scan_string j (escape_text (drop (n - 1) cs) @ CHR 34 # rest))" for t
      unfolding that IH using whole by (simp add: prepend_fun)
    show ?thesis
    proof (cases "r = 0x2028 \<or> r = 0x2029")
      case True
      let ?t = "[CHR 0x5C] @ (if r = 0x2028 then ''u2028'' else ''u2029'')"
      have e: "escape_text (c # cs) = ?t @ escape_text (drop (n - 1) cs)" using True rn False by (auto simp: Let_def)
      have "take n (c # cs) = utf8_rune r" using separator_bytes [OF rn True] by blast
      then have "scan_string (Suc j) (?t @ escape_text (drop (n - 1) cs) @ CHR 34 # rest) =
          prepend (take n (c # cs)) (scan_string j (escape_text (drop (n - 1) cs) @ CHR 34 # rest))"
        using scan_line [OF True, of j "escape_text (drop (n - 1) cs) @ CHR 34 # rest"] by (simp only: append_assoc)
      from scan [OF this] show ?thesis unfolding e k append_assoc .
    next
      case plain: False
      then have e: "escape_text (c # cs) = take n (c # cs) @ escape_text (drop (n - 1) cs)" using rn False by (auto simp: Let_def)
      from scan [OF scan_wide [OF rn False]] show ?thesis unfolding e k append_assoc .
    qed
  qed
qed

section \<open>Numbers\<close>

text \<open>What may follow a value inside a document.\<close>

definition follow :: "string \<Rightarrow> bool" where
  "follow r \<longleftrightarrow> (case r of [] \<Rightarrow> True | c # _ \<Rightarrow> c = CHR '','' \<or> c = CHR '']'' \<or> c = CHR ''}'')"

definition no_digit :: "string \<Rightarrow> bool" where
  "no_digit r \<longleftrightarrow> (case r of [] \<Rightarrow> True | c # _ \<Rightarrow> \<not> is_digit c)"

lemma follow_no_digit: "follow r \<Longrightarrow> no_digit r"
  by (auto simp: follow_def no_digit_def is_digit_def split: list.splits)

lemma follow_no_ws: "follow r \<Longrightarrow> skip_ws r = r"
  by (auto simp: follow_def skip_ws_def is_ws_def split: list.splits)

lemma digits_append:
  assumes "no_digit t" "r \<noteq> [] \<or> s = s"
  shows "takeWhile is_digit (s @ t) = takeWhile is_digit s \<and> dropWhile is_digit (s @ t) = dropWhile is_digit s @ t"
  using assms(1) by (induction s) (auto simp: no_digit_def split: list.splits)

lemma scan_digits_append: "scan_digits s = Some (d, r) \<Longrightarrow> no_digit t \<Longrightarrow> scan_digits (s @ t) = Some (d, r @ t)"
  using digits_append [of t _ s] by (auto simp: scan_digits_def Let_def split: if_splits)

lemma scan_int_append: "scan_int s = Some (d, r) \<Longrightarrow> no_digit t \<Longrightarrow> scan_int (s @ t) = Some (d, r @ t)"
  using scan_digits_append [of s d r t] by (cases s) (auto simp: scan_int_def split: if_splits)

lemma scan_frac_append: "scan_frac s = Some (f, r) \<Longrightarrow> follow t \<Longrightarrow> scan_frac (s @ t) = Some (f, r @ t)"
proof (cases s)
  case Nil
  assume "scan_frac s = Some (f, r)" "follow t"
  then show ?thesis using Nil by (auto simp: scan_frac_def follow_def split: list.splits)
next
  case (Cons c cs)
  assume "scan_frac s = Some (f, r)" "follow t"
  then show ?thesis using Cons scan_digits_append [OF _ follow_no_digit, of cs _ r t]
    by (auto simp: scan_frac_def split: if_splits)
qed

lemma scan_sign_append: "s \<noteq> [] \<Longrightarrow> scan_sign (s @ t) = (fst (scan_sign s), snd (scan_sign s) @ t)"
  by (cases s) (auto simp: scan_sign_def)

lemma scan_exp_append:
  assumes "scan_exp s = Some (e, r)" "follow t"
  shows "scan_exp (s @ t) = Some (e, r @ t)"
proof (cases s)
  case Nil
  then show ?thesis using assms by (auto simp: scan_exp_def follow_def split: list.splits)
next
  case (Cons c cs)
  show ?thesis
  proof (cases "c = CHR ''e'' \<or> c = CHR ''E''")
    case True
    then obtain ds where ds: "scan_digits (snd (scan_sign cs)) = Some (ds, r)" "e = c # fst (scan_sign cs) @ ds"
      using assms(1) Cons by (auto simp: scan_exp_def)
    then have "cs \<noteq> []" by (auto simp: scan_sign_def scan_digits_def)
    then show ?thesis
      using ds Cons True scan_digits_append [OF ds(1) follow_no_digit [OF assms(2)]] by (auto simp: scan_exp_def scan_sign_append)
  next
    case False
    then show ?thesis using assms Cons by (auto simp: scan_exp_def)
  qed
qed

lemma scan_number_append:
  assumes "scan_number s = Some (n, r)" "follow t"
  shows "scan_number (s @ t) = Some (n, r @ t)"
proof -
  have "s \<noteq> []" using assms(1) by (auto simp: scan_number_def scan_int_def)
  then obtain c cs where s: "s = c # cs" by (cases s) auto
  define sign body where "sign = (if c = CHR ''-'' then [c] else [])" and "body = (if c = CHR ''-'' then cs else s)"
  obtain i r1 f r2 e where p: "scan_int body = Some (i, r1)" "scan_frac r1 = Some (f, r2)" "scan_exp r2 = Some (e, r)" "n = sign @ i @ f @ e"
    using assms(1) s by (auto simp: scan_number_def sign_def body_def Let_def split: if_splits option.splits)
  note scan_int_append [OF p(1) follow_no_digit [OF assms(2)]] scan_frac_append [OF p(2) assms(2)] scan_exp_append [OF p(3) assms(2)]
  then show ?thesis using p(4) s by (simp add: scan_number_def sign_def body_def Let_def split: if_splits)
qed

lemma number_start: "scan_number s = Some (n, r) \<Longrightarrow> \<exists>c cs. s = c # cs \<and> (c = CHR ''-'' \<or> is_digit c)"
  by (cases s) (auto simp: scan_number_def scan_int_def scan_digits_def Let_def is_digit_def split: if_splits option.splits)

section \<open>Documents\<close>

lemma doc_start:
  assumes "doc_ok d"
  shows "\<exists>c cs. doc_text d = c # cs \<and> \<not> is_ws c \<and> c \<noteq> CHR '']''"
proof (cases d)
  case (DNum n)
  then show ?thesis using number_start [of n] assms by (auto simp: is_ws_def is_digit_def)
qed (auto simp: quote_def is_ws_def)

lemma skip_doc: "doc_ok d \<Longrightarrow> skip_ws (doc_text d @ r) = doc_text d @ r"
  using doc_start [of d] by (auto simp: skip_ws_def)

lemma commas_start: "xs \<noteq> [] \<Longrightarrow> x = hd xs \<Longrightarrow> x \<noteq> [] \<Longrightarrow> \<exists>r. commas xs = x @ r"
  by (cases xs rule: commas.cases) auto

lemma scan_keyword: "keyword w v (w @ r) = Some (v, r)"
  by (simp add: keyword_def)

definition reads :: "nat \<Rightarrow> jdoc \<Rightarrow> bool" where
  "reads depth d \<longleftrightarrow>
     (\<forall>k rest. length (doc_text d) \<le> k \<longrightarrow> follow rest \<longrightarrow> parse_value k depth (doc_text d @ rest) = Some (d, rest))"

lemma reads_at:
  "reads depth d \<Longrightarrow> length (doc_text d) \<le> k \<Longrightarrow> follow rest \<Longrightarrow> parse_value k depth (doc_text d @ rest) = Some (d, rest)"
  by (simp add: reads_def)

lemma scalar_reads: "doc_ok d \<Longrightarrow> (\<forall>xs. d \<noteq> DArr xs) \<Longrightarrow> (\<forall>ms. d \<noteq> DObj ms) \<Longrightarrow> reads depth d"
  unfolding reads_def
proof (intro allI impI)
  fix k rest
  assume d: "doc_ok d" "\<forall>xs. d \<noteq> DArr xs" "\<forall>ms. d \<noteq> DObj ms" and k: "length (doc_text d) \<le> k" and rest: "follow rest"
  obtain j where j: "k = Suc j" using k doc_start [OF d(1)] by (cases k) auto
  show "parse_value k depth (doc_text d @ rest) = Some (d, rest)"
  proof (cases d)
    case (DStr s)
    have "scan_string (length (doc_text d @ rest)) (escape_text s @ CHR 34 # rest) = Some (s, rest)"
      using d DStr length_escape_text_ge [of s] by (intro scan_string_escape) (simp_all add: quote_def)
    then show ?thesis using DStr j by (simp add: quote_def del: scan_string.simps)
  next
    case (DNum n)
    have "scan_number (n @ rest) = Some (n, rest)" using scan_number_append [of n n "[]" rest] d DNum rest by simp
    moreover obtain c cs where n: "n = c # cs" "c = CHR ''-'' \<or> is_digit c" using number_start [of n] d DNum by auto
    moreover have "c \<noteq> CHR ''n''" "c \<noteq> CHR ''t''" "c \<noteq> CHR ''f''" "c \<noteq> CHR 34" "c \<noteq> CHR ''[''" "c \<noteq> CHR ''{''"
      using n(2) by (auto simp: is_digit_def)
    ultimately show ?thesis using DNum j by (simp del: scan_string.simps)
  next
    case DNull
    then show ?thesis using j by (simp add: keyword_def del: scan_string.simps)
  next
    case (DBool b)
    then show ?thesis using j by (cases b) (simp_all add: keyword_def del: scan_string.simps)
  qed (use d in blast)+
qed

lemma follow_simps [simp]: "follow (CHR '','' # r)" "follow (CHR '']'' # r)" "follow (CHR ''}'' # r)"
  by (simp_all add: follow_def)

lemma skip_simps [simp]:
  "skip_ws (CHR '','' # r) = CHR '','' # r" "skip_ws (CHR '']'' # r) = CHR '']'' # r" "skip_ws (CHR ''}'' # r) = CHR ''}'' # r"
  "skip_ws (CHR '':'' # r) = CHR '':'' # r" "skip_ws (CHR 34 # r) = CHR 34 # r"
  by (simp_all add: skip_ws_def is_ws_def)

lemma elems_read:
  assumes "xs \<noteq> []" "\<forall>x \<in> set xs. doc_ok x \<and> reads depth x" "length (commas (map doc_text xs)) < k"
  shows "parse_elems k depth (commas (map doc_text xs) @ CHR '']'' # rest) = Some (xs, rest)"
  using assms
proof (induction xs arbitrary: k rule: list_nonempty_induct)
  case (single x)
  then obtain j where k: "k = Suc j" by (cases k) auto
  then have "parse_value j depth (doc_text x @ CHR '']'' # rest) = Some (x, CHR '']'' # rest)"
    using single by (simp add: reads_def)
  then show ?case using k by simp
next
  case (cons x xs)
  then obtain j where k: "k = Suc j" by (cases k) auto
  obtain y ys where xs: "xs = y # ys" using cons(1) by (cases xs) auto
  have c: "commas (map doc_text (x # xs)) = doc_text x @ CHR '','' # commas (map doc_text xs)" by (simp add: xs)
  have "parse_value j depth (doc_text x @ CHR '','' # commas (map doc_text xs) @ CHR '']'' # rest) =
      Some (x, CHR '','' # commas (map doc_text xs) @ CHR '']'' # rest)"
    using cons(3,4) k c by (simp add: reads_def)
  moreover have "parse_elems j depth (commas (map doc_text xs) @ CHR '']'' # rest) = Some (xs, rest)"
    using cons k c by simp
  moreover have "skip_ws (commas (map doc_text xs) @ CHR '']'' # rest) = commas (map doc_text xs) @ CHR '']'' # rest"
    using skip_doc [of y] cons(3) xs by (cases ys) simp_all
  ultimately show ?case using k unfolding c by simp
qed

definition member_text :: "string \<times> jdoc \<Rightarrow> string" where
  "member_text m = quote (fst m) @ '':'' @ doc_text (snd m)"

lemma scan_quoted:
  assumes "utf8_Valid s"
  shows "scan_string (length (quote s @ r)) (drop 1 (quote s @ r)) = Some (s, r)"
  using scan_string_escape [OF assms, of "length (quote s @ r)" r] length_escape_text_ge [of s] by (simp add: quote_def)

lemma members_read:
  assumes "ms \<noteq> []" "\<forall>m \<in> set ms. utf8_Valid (fst m) \<and> doc_ok (snd m) \<and> reads depth (snd m)"
    "length (commas (map member_text ms)) < k"
  shows "parse_members k depth (commas (map member_text ms) @ CHR ''}'' # rest) = Some (ms, rest)"
  using assms
proof (induction ms arbitrary: k rule: list_nonempty_induct)
  case (single m)
  obtain n x where m: "m = (n, x)" by force
  obtain j where k: "k = Suc j" using single by (cases k) auto
  have "parse_value j depth (doc_text x @ CHR ''}'' # rest) = Some (x, CHR ''}'' # rest)"
    using single m k by (simp add: reads_def member_text_def)
  moreover have "skip_ws (doc_text x @ CHR ''}'' # rest) = doc_text x @ CHR ''}'' # rest" using single m by (intro skip_doc) simp
  moreover have "scan_string (length (quote n @ CHR '':'' # doc_text x @ CHR ''}'' # rest)) (drop 1 (quote n @ CHR '':'' # doc_text x @ CHR ''}'' # rest)) =
      Some (n, CHR '':'' # doc_text x @ CHR ''}'' # rest)"
    using single m by (intro scan_quoted) simp
  moreover have "take 1 (quote n @ r) = [CHR 34]" for r by (simp add: quote_def)
  ultimately show ?case using k m by (simp add: member_text_def del: drop_append length_append scan_string.simps)
next
  case (cons m ms)
  obtain n x where m: "m = (n, x)" by force
  obtain j where k: "k = Suc j" using cons by (cases k) auto
  obtain n' y ys where ms: "ms = (n', y) # ys" using cons(1) by (cases ms) auto
  let ?rest = "commas (map member_text ms) @ CHR ''}'' # rest"
  have c: "commas (map member_text (m # ms)) @ CHR ''}'' # rest = quote n @ CHR '':'' # doc_text x @ CHR '','' # ?rest"
    by (simp add: ms m member_text_def)
  have "commas (map member_text (m # ms)) = member_text m @ CHR '','' # commas (map member_text ms)" by (simp add: ms)
  moreover have "length (doc_text x) \<le> length (member_text m)" by (simp add: m member_text_def)
  ultimately have l: "length (doc_text x) \<le> j" "length (commas (map member_text ms)) < j" using cons(4) k by simp_all
  have "parse_value j depth (doc_text x @ CHR '','' # ?rest) = Some (x, CHR '','' # ?rest)"
    using cons(3) m l by (simp add: reads_def)
  moreover have "parse_members j depth ?rest = Some (ms, rest)" using cons l by simp
  moreover have "skip_ws ?rest = ?rest" using ms by (cases ys) (simp_all add: member_text_def quote_def)
  moreover have "skip_ws (doc_text x @ CHR '','' # ?rest) = doc_text x @ CHR '','' # ?rest" using cons(3) m by (intro skip_doc) simp
  moreover have "scan_string (length (quote n @ CHR '':'' # doc_text x @ CHR '','' # ?rest)) (drop 1 (quote n @ CHR '':'' # doc_text x @ CHR '','' # ?rest)) =
      Some (n, CHR '':'' # doc_text x @ CHR '','' # ?rest)"
    using cons(3) m by (intro scan_quoted) simp
  moreover have "take 1 (quote n @ r) = [CHR 34]" for r by (simp add: quote_def)
  ultimately show ?case unfolding c using k m by (simp del: drop_append length_append scan_string.simps)
qed

lemma member_texts:
  assumes "wf_map ms"
  shows "doc_text (DObj ms) = ''{'' @ commas (map member_text ms) @ ''}''"
proof -
  have "wf_map (map (map_prod id doc_text) ms)" using assms by (simp add: wf_map_def map_prod_id_keys)
  moreover have "map (\<lambda>(k, s). quote k @ '':'' @ s) (map (map_prod id doc_text) ms) = map member_text ms"
    by (auto simp: member_text_def)
  ultimately show ?thesis by (simp add: to_gomap_wf del: map_map)
qed

lemma foldr_max_le: "(foldr max ns 0 \<le> (k :: nat)) = (\<forall>n \<in> set ns. n \<le> k)"
  by (induction ns) auto

text \<open>A document of bounded depth is read back from its text, whatever follows it.\<close>

theorem doc_reads: "doc_ok d \<Longrightarrow> depth + doc_depth d \<le> maxNestingDepth \<Longrightarrow> reads depth d"
proof (induction d arbitrary: depth)
  case (DArr xs)
  have depth: "depth < maxNestingDepth" using DArr.prems by simp
  have xs: "\<forall>x \<in> set xs. doc_ok x \<and> reads (depth + 1) x"
  proof
    fix x
    assume x: "x \<in> set xs"
    have "doc_depth x \<le> foldr max (map doc_depth xs) 0"
      using foldr_max_le [of "map doc_depth xs" "foldr max (map doc_depth xs) 0"] x by auto
    then show "doc_ok x \<and> reads (depth + 1) x" using DArr x by simp
  qed
  show ?case unfolding reads_def
  proof (intro allI impI)
    fix k rest
    assume k: "length (doc_text (DArr xs)) \<le> k"
    obtain j where j: "k = Suc j" using k by (cases k) auto
    show "parse_value k depth (doc_text (DArr xs) @ rest) = Some (DArr xs, rest)"
    proof (cases xs)
      case Nil
      then show ?thesis using j depth by simp
    next
      case (Cons y ys)
      have start: "\<exists>c cs. commas (map doc_text xs) = c # cs \<and> \<not> is_ws c \<and> c \<noteq> CHR '']''"
        using doc_start [of y] xs Cons by (cases ys) auto
      then have "skip_ws (commas (map doc_text xs) @ r) = commas (map doc_text xs) @ r" "take 1 (commas (map doc_text xs) @ r) \<noteq> '']''" for r
        by (auto simp: skip_ws_def)
      moreover have "parse_elems j (depth + 1) (commas (map doc_text xs) @ CHR '']'' # rest) = Some (xs, rest)"
        using k j xs Cons by (intro elems_read) simp_all
      ultimately show ?thesis using j depth by (simp del: scan_string.simps)
    qed
  qed
next
  case (DObj ms)
  have depth: "depth < maxNestingDepth" using DObj.prems by simp
  have ms: "\<forall>m \<in> set ms. utf8_Valid (fst m) \<and> doc_ok (snd m) \<and> reads (depth + 1) (snd m)"
  proof
    fix m
    assume m: "m \<in> set ms"
    let ?ns = "map snd (map (map_prod id doc_depth) ms)"
    have "doc_depth (snd m) = snd (map_prod id doc_depth m)" by (cases m) simp
    then have "doc_depth (snd m) \<in> set ?ns" using m by (metis imageI set_map)
    then have "doc_depth (snd m) \<le> foldr max ?ns 0" by (metis foldr_max_le order_refl)
    moreover have "snd m \<in> Basic_BNFs.snds m" by (cases m) simp
    ultimately show "utf8_Valid (fst m) \<and> doc_ok (snd m) \<and> reads (depth + 1) (snd m)"
      using DObj.IH [OF m, of "snd m" "depth + 1"] DObj.prems m by fastforce
  qed
  show ?case unfolding reads_def
  proof (intro allI impI)
    fix k rest
    assume k: "length (doc_text (DObj ms)) \<le> k"
    have spelled: "doc_text (DObj ms) = ''{'' @ commas (map member_text ms) @ ''}''" using DObj.prems(1) by (intro member_texts) simp
    obtain j where j: "k = Suc j" using k by (cases k) auto
    show "parse_value k depth (doc_text (DObj ms) @ rest) = Some (DObj ms, rest)"
    proof (cases ms)
      case Nil
      then show ?thesis using j depth unfolding spelled by simp
    next
      case (Cons y ys)
      have start: "\<exists>cs. commas (map member_text ms) = CHR 34 # cs"
        using Cons by (cases ys) (auto simp: member_text_def quote_def)
      then have "skip_ws (commas (map member_text ms) @ r) = commas (map member_text ms) @ r" "take 1 (commas (map member_text ms) @ r) \<noteq> ''}''" for r
        by auto
      moreover have "parse_members j (depth + 1) (commas (map member_text ms) @ CHR ''}'' # rest) = Some (ms, rest)"
        using k[unfolded spelled] j ms Cons by (intro members_read) simp_all
      ultimately show ?thesis using j depth unfolding spelled by (simp del: scan_string.simps)
    qed
  qed
qed (simp_all add: scalar_reads)

text \<open>The text of a document is one JSON text, and decoding it gives the document.\<close>

theorem doc_roundtrip:
  assumes "doc_ok d" "doc_depth d \<le> maxNestingDepth"
  shows "parse_json (doc_text d) = Some d"
proof -
  have "parse_value (json_fuel (doc_text d)) 0 (doc_text d @ []) = Some (d, [])"
    using doc_reads [of d 0] assms by (intro reads_at) (simp_all add: json_fuel_def follow_def)
  moreover have "skip_ws (doc_text d) = doc_text d" using skip_doc [OF assms(1), of "[]"] by simp
  ultimately show ?thesis by (simp add: parse_json_def parse_prefix_def) (simp add: skip_ws_def)
qed

section \<open>Canonical text\<close>

primrec doc_of :: "json \<Rightarrow> jdoc" where
  "doc_of JNull = DNull"
| "doc_of (JBool b) = DBool b"
| "doc_of (JNum n) = DNum (dec_int n)"
| "doc_of (JStr s) = DStr s"
| "doc_of (JArr xs) = DArr (map doc_of xs)"
| "doc_of (JObj kvs) = DObj (map (map_prod id doc_of) kvs)"

primrec json_utf8 :: "json \<Rightarrow> bool" where
  "json_utf8 JNull = True"
| "json_utf8 (JBool b) = True"
| "json_utf8 (JNum n) = True"
| "json_utf8 (JStr s) = utf8_Valid s"
| "json_utf8 (JArr xs) = list_all id (map json_utf8 xs)"
| "json_utf8 (JObj kvs) = list_all (\<lambda>(k, b). utf8_Valid k \<and> b) (map (map_prod id json_utf8) kvs)"

lemma dec_number: "0 \<le> n \<Longrightarrow> scan_int (dec n) = Some (dec n, [])"
proof (cases "n = 0")
  case True
  moreover have "digit 0 = CHR ''0''" by code_simp
  ultimately show ?thesis by (simp add: dec.simps scan_int_def)
next
  case False
  assume n: "0 \<le> n"
  have digits: "\<forall>c \<in> set (dec n). is_digit c" using digits_dec n by blast
  have "dec n \<noteq> []" by (subst dec.simps) simp
  then have digits_scan: "scan_digits (dec n) = Some (dec n, [])"
  proof -
    have eqs: "takeWhile is_digit (dec n) = dec n" "dropWhile is_digit (dec n) = []" using digits by (auto simp: takeWhile_eq_all_conv)
    show ?thesis using \<open>dec n \<noteq> []\<close> unfolding scan_digits_def Let_def eqs by simp
  qed
  have "hd (dec m) \<noteq> CHR ''0''" if "0 < m" for m
    using that
  proof (induction m rule: dec.induct)
    case (1 m)
    show ?case
    proof (cases "m < 10")
      case True
      then have "digit m \<noteq> CHR ''0''" using 1(2) digit_val_digit [of m] by (auto simp: digit_val_def)
      then show ?thesis using True by (subst dec.simps) simp
    next
      case False
      then have "hd (dec (m div 10)) \<noteq> CHR ''0''" using 1 by simp
      moreover have "dec (m div 10) \<noteq> []" by (subst dec.simps) simp
      ultimately show ?thesis using False by (subst dec.simps) simp
    qed
  qed
  then have "hd (dec n) \<noteq> CHR ''0''" using n False by simp
  then show ?thesis using digits_scan \<open>dec n \<noteq> []\<close> by (cases "dec n") (auto simp: scan_int_def)
qed

lemma dec_int_number: "scan_number (dec_int n) = Some (dec_int n, [])"
proof -
  have end_scan: "scan_frac [] = Some ([], [])" "scan_exp [] = Some ([], [])" by (simp_all add: scan_frac_def scan_exp_def)
  show ?thesis
  proof (cases "n < 0")
    case True
    then show ?thesis using dec_number [of "- n"] end_scan by (simp add: dec_int_def scan_number_def)
  next
    case False
    have "\<forall>c \<in> set (dec n). is_digit c" using digits_dec False by fastforce
    moreover have "dec n \<noteq> []" by (subst dec.simps) simp
    ultimately obtain c cs where "dec n = c # cs" "c \<noteq> CHR ''-''" by (cases "dec n") fastforce+
    then show ?thesis using dec_number [of n] end_scan False by (simp add: dec_int_def scan_number_def)
  qed
qed

lemma doc_text_canon: "doc_text (doc_of (canon v)) = canonical_JSON v"
proof -
  have spelled: "doc_text (doc_of w) = json_text w" if "canon w = w" for w
    using that
  proof (induction w)
    case (JArr xs)
    then have "map (doc_text \<circ> doc_of) xs = map json_text xs" by (simp add: map_idI list_eq_iff_nth_eq)
    then show ?case by (simp only: doc_of.simps doc_text.simps json_text.simps map_map)
  next
    case (JObj kvs)
    let ?m = "map (map_prod id canon) kvs"
    have m: "kvs = to_gomap ?m" using JObj.prems by simp
    have wf: "wf_map kvs" by (subst m) simp
    have fix_canon: "canon w = w" if "(k, w) \<in> set kvs" for k w
    proof -
      have "(k, w) \<in> set ?m" using that m set_to_gomap by metis
      then obtain w' where "w = canon w'" by auto
      then show ?thesis by simp
    qed
    have "map (map_prod id (doc_text \<circ> doc_of)) kvs = map (map_prod id json_text) kvs"
      using JObj.IH fix_canon by (fastforce intro: map_cong)
    then have same: "map (map_prod id doc_text) (map (map_prod id doc_of) kvs) = map (map_prod id json_text) kvs"
      by (simp only: map_map map_prod.comp id_comp)
    have "wf_map (map (map_prod id json_text) kvs)" using wf by (simp add: wf_map_def map_prod_id_keys)
    then show ?case unfolding doc_of.simps doc_text.simps json_text.simps same by (simp only: to_gomap_wf)
  qed simp_all
  show ?thesis unfolding canonical_JSON_def by (rule spelled) simp
qed

lemma doc_ok_canon: "json_utf8 v \<Longrightarrow> doc_ok (doc_of (canon v))"
proof (induction v)
  case (JArr xs)
  then show ?case by (auto simp: list_all_iff)
next
  case (JObj kvs)
  let ?m = "to_gomap (map (map_prod id canon) kvs)"
  have "wf_map (map (map_prod id doc_of) ?m)" 
    using wf_to_gomap [of "map (map_prod id canon) kvs"] unfolding wf_map_def map_prod_id_keys .
  moreover have "utf8_Valid k \<and> doc_ok (doc_of x)" if h: "(k, x) \<in> set ?m" for k x
  proof -
    obtain w where w: "(k, w) \<in> set kvs" "x = canon w" using set_to_gomap [OF h] by auto
    then have "utf8_Valid k" "json_utf8 w" using JObj.prems by (auto simp: list_all_iff)
    then show ?thesis using JObj.IH [of "(k, w)" w] w by simp
  qed
  ultimately show ?case by auto
qed (simp_all add: dec_int_number)

text \<open>The canonical text of a value is decoded to the value.\<close>

theorem canonical_decodes:
  "json_utf8 v \<Longrightarrow> doc_depth (doc_of (canon v)) \<le> maxNestingDepth \<Longrightarrow> parse_json (canonical_JSON v) = Some (doc_of (canon v))"
  using doc_roundtrip doc_ok_canon by (simp flip: doc_text_canon)

lemma ascii_Valid: "\<forall>c \<in> set s. of_char c < (0x80 :: int) \<Longrightarrow> utf8_Valid s"
  by (simp add: utf8_Valid_def chunks_ascii valid_chunk_def byte_at_def list_all_iff)

lemma doc_of_inject: "doc_of v = doc_of w \<Longrightarrow> v = w"
proof (induction v arbitrary: w)
  case (JNum n)
  then show ?case by (cases w) (simp_all add: dec_int_inject)
next
  case (JArr xs)
  then obtain ys where w: "w = JArr ys" "map doc_of xs = map doc_of ys" by (cases w) auto
  have "xs = ys" using w(2) JArr.IH by (intro list.inj_map_strong [of xs ys doc_of doc_of]) auto
  then show ?case using w by simp
next
  case (JObj kvs)
  then obtain kws where w: "w = JObj kws" "map (map_prod id doc_of) kvs = map (map_prod id doc_of) kws" by (cases w) auto
  have "m = n" if h: "m \<in> set kvs" "map_prod id doc_of m = map_prod id doc_of n" for m n
    using JObj.IH [OF h(1), of "snd m" "snd n"] h(2) by (cases m; cases n) simp
  then have "kvs = kws" using w(2) by (intro list.inj_map_strong [of kvs kws "map_prod id doc_of" "map_prod id doc_of"]) auto
  then show ?case using w by simp
next
  case JNull
  then show ?case by (cases w) simp_all
next
  case (JBool b)
  then show ?case by (cases w) simp_all
next
  case (JStr s)
  then show ?case by (cases w) simp_all
qed

text \<open>Two values with the same canonical text are the same value.\<close>

theorem canonical_injective:
  assumes "json_utf8 v" "json_utf8 w" "doc_depth (doc_of (canon v)) \<le> maxNestingDepth" "doc_depth (doc_of (canon w)) \<le> maxNestingDepth"
    and "canonical_JSON v = canonical_JSON w"
  shows "canon v = canon w"
  using canonical_decodes [OF assms(1,3)] canonical_decodes [OF assms(2,4)] assms(5) by (auto intro: doc_of_inject)

end
