(* ===== verification/Host_Json.thy ===== *)
theory Host_Json
  imports Json_Roundtrip Task
begin

text \<open>
  \<open>internal/agenthost/json.go\<close>: texts are admitted only when they are UTF-8, within a size, at
  most 32 levels deep and without duplicate members; numbers keep their spelling until they become
  an exact int64 or a finite float. What \<open>encoding/json\<close> does with the fields of a struct, with
  \<open>json.RawMessage\<close> and with values of type \<open>any\<close> is written out here.
\<close>

abbreviation (input) protocol_error :: string where "protocol_error \<equiv> ''HOST_PROTOCOL_ERROR''"

section \<open>Admission of a text\<close>

definition maxDepth :: nat where "maxDepth = 32"

fun checkValue :: "jdoc \<Rightarrow> nat \<Rightarrow> bool" where
  "checkValue (DArr xs) depth = (depth \<le> maxDepth \<and> (\<forall>x \<in> set xs. checkValue x (depth + 1)))"
| "checkValue (DObj ms) depth =
     (depth \<le> maxDepth \<and> distinct (map fst ms) \<and> (\<forall>(k, x) \<in> set ms. checkValue x (depth + 1)))"
| "checkValue d depth = (depth \<le> maxDepth)"

definition decodeJSON :: "string \<Rightarrow> int \<Rightarrow> string + jdoc" where
  "decodeJSON data maximum =
     (if data = [] \<or> int (length data) > maximum \<or> \<not> utf8_Valid data then Inl protocol_error
      else case parse_json data of
        None \<Rightarrow> Inl protocol_error
      | Some d \<Rightarrow> if checkValue d 0 then Inr d else Inl protocol_error)"

section \<open>Numbers\<close>

text \<open>
  \<open>json.Number.Int64\<close>, and \<open>Float64\<close>: the exact value of the spelling, rounded; the exponent is
  read up to five digits, as \<open>strconv\<close> does.
\<close>

definition number_int :: "string \<Rightarrow> int option" where
  "number_int s =
     (let ds = (if take 1 s = ''-'' then drop 1 s else s); n = (if take 1 s = ''-'' then - num_of ds else num_of ds)
      in if ds \<noteq> [] \<and> list_all is_digit ds \<and> - 9223372036854775808 \<le> n \<and> n \<le> 9223372036854775807 then Some n else None)"

definition capped :: "string \<Rightarrow> int" where
  "capped ds = foldl (\<lambda>e c. if e < 10000 then 10 * e + digit_val c else e) 0 ds"

definition number_exponent :: "string \<Rightarrow> int" where
  "number_exponent s =
     (case s of
        [] \<Rightarrow> 0
      | e # r \<Rightarrow> let (sign, ds) = scan_sign r in if sign = ''-'' then - capped ds else capped ds)"

definition number_rat :: "string \<Rightarrow> rat" where
  "number_rat s =
     (let body = (if take 1 s = ''-'' then drop 1 s else s);
          whole = takeWhile is_digit body; r1 = dropWhile is_digit body;
          frac = (if take 1 r1 = ''.'' then takeWhile is_digit (drop 1 r1) else []);
          r2 = (if take 1 r1 = ''.'' then dropWhile is_digit (drop 1 r1) else r1);
          x = of_int (num_of (whole @ frac)) * 10 powi (number_exponent r2 - int (length frac))
      in if take 1 s = ''-'' then - x else x)"

definition number_goval :: "string \<Rightarrow> string + goval" where
  "number_goval s =
     (case number_int s of
        Some n \<Rightarrow> Inr (GInt64 n)
      | None \<Rightarrow>
          (case round64 (number_rat s) of
             Finite q \<Rightarrow> Inr (GFloat (Finite q))
           | _ \<Rightarrow> Inl protocol_error))"

text \<open>\<open>numbers\<close>: a decoded value of type \<open>any\<close>; the members of an object become a map.\<close>

fun host_numbers :: "jdoc \<Rightarrow> string + goval"
  and host_numbers_list :: "jdoc list \<Rightarrow> string + goval list"
  and host_numbers_members :: "(string \<times> jdoc) list \<Rightarrow> string + (string \<times> goval) list" where
  "host_numbers DNull = Inr GNil"
| "host_numbers (DBool b) = Inr (GBool b)"
| "host_numbers (DStr s) = Inr (GString s)"
| "host_numbers (DNum n) = number_goval n"
| "host_numbers (DArr xs) = bindE (host_numbers_list xs) (\<lambda>vs. Inr (GList vs))"
| "host_numbers (DObj ms) = bindE (host_numbers_members ms) (\<lambda>kvs. Inr (GMap (to_gomap kvs)))"
| "host_numbers_list [] = Inr []"
| "host_numbers_list (x # xs) =
     bindE (host_numbers x) (\<lambda>v. bindE (host_numbers_list xs) (\<lambda>vs. Inr (v # vs)))"
| "host_numbers_members [] = Inr []"
| "host_numbers_members (m # ms) =
     bindE (host_numbers (snd m)) (\<lambda>v. bindE (host_numbers_members ms) (\<lambda>vs. Inr ((fst m, v) # vs)))"

section \<open>The fields of a struct\<close>

text \<open>
  The values decoded into the field \<open>f\<close>, in their order: a member belongs to it when the names
  are equal up to case. \<open>null\<close> leaves a field as it is, any other member replaces its value.
\<close>

definition field_values :: "string \<Rightarrow> (string \<times> 'a) list \<Rightarrow> 'a list" where
  "field_values f ms = map snd (filter (\<lambda>(k, _). foldName k = foldName f) ms)"

fun string_field :: "string \<Rightarrow> jdoc list \<Rightarrow> string + string" where
  "string_field s [] = Inr s"
| "string_field s (d # ds) =
     (case d of
        DNull \<Rightarrow> string_field s ds
      | DStr t \<Rightarrow> string_field t ds
      | _ \<Rightarrow> Inl protocol_error)"

definition struct_string :: "string \<Rightarrow> (string \<times> jdoc) list \<Rightarrow> string + string" where
  "struct_string f ms = string_field [] (field_values f ms)"

text \<open>A field of type \<open>any\<close> holds its last value.\<close>

definition struct_any :: "string \<Rightarrow> (string \<times> jdoc) list \<Rightarrow> jdoc" where
  "struct_any f ms = (if field_values f ms = [] then DNull else last (field_values f ms))"

text \<open>A struct is decoded from an object; \<open>null\<close> leaves it zero.\<close>

definition struct_members :: "jdoc \<Rightarrow> string + (string \<times> jdoc) list" where
  "struct_members d = (case d of DObj ms \<Rightarrow> Inr ms | DNull \<Rightarrow> Inr [] | _ \<Rightarrow> Inl protocol_error)"

section \<open>Raw texts\<close>

text \<open>
  \<open>json.RawMessage\<close> keeps the bytes of a value. The first value of a text and what follows it,
  the elements of an array and the values of the members of an object as they are spelled.
\<close>

definition raw_value :: "string \<Rightarrow> (string \<times> string) option" where
  "raw_value s = map_option (\<lambda>(_, r). (take (length s - length r) s, r)) (parse_value (json_fuel s) 0 s)"

fun raw_elems :: "nat \<Rightarrow> string \<Rightarrow> string list option" where
  "raw_elems 0 s = None"
| "raw_elems (Suc k) s =
     (case raw_value s of
        None \<Rightarrow> None
      | Some (v, r) \<Rightarrow>
          let r = skip_ws r
          in if take 1 r = '']'' then Some [v]
             else if take 1 r = '','' then map_option ((#) v) (raw_elems k (skip_ws (drop 1 r)))
             else None)"

fun raw_members :: "nat \<Rightarrow> string \<Rightarrow> (string \<times> string) list option" where
  "raw_members 0 s = None"
| "raw_members (Suc k) s =
     (if take 1 s \<noteq> [CHR 34] then None
      else case scan_string (length s) (drop 1 s) of
        None \<Rightarrow> None
      | Some (name, r) \<Rightarrow>
          let r = skip_ws r
          in if take 1 r \<noteq> '':'' then None
             else case raw_value (skip_ws (drop 1 r)) of
               None \<Rightarrow> None
             | Some (v, r) \<Rightarrow>
                 let r = skip_ws r
                 in if take 1 r = ''}'' then Some [(name, v)]
                    else if take 1 r = '','' then map_option ((#) (name, v)) (raw_members k (skip_ws (drop 1 r)))
                    else None)"

definition raw_array :: "string \<Rightarrow> string list option" where
  "raw_array s =
     (let s = skip_ws s; r = skip_ws (drop 1 s)
      in if take 1 s \<noteq> ''['' then None else if take 1 r = '']'' then Some [] else raw_elems (length s) r)"

definition raw_object :: "string \<Rightarrow> (string \<times> string) list option" where
  "raw_object s =
     (let s = skip_ws s; r = skip_ws (drop 1 s)
      in if take 1 s \<noteq> ''{'' then None else if take 1 r = ''}'' then Some [] else raw_members (length s) r)"

text \<open>A field of type \<open>[]json.RawMessage\<close>: the texts of the members that belong to it.\<close>

fun raw_list_field :: "string list \<Rightarrow> string list \<Rightarrow> string + string list" where
  "raw_list_field xs [] = Inr xs"
| "raw_list_field xs (t # ts) =
     (case parse_json t of
        Some DNull \<Rightarrow> raw_list_field [] ts
      | Some (DArr _) \<Rightarrow> (case raw_array t of Some ys \<Rightarrow> raw_list_field ys ts | None \<Rightarrow> Inl protocol_error)
      | _ \<Rightarrow> Inl protocol_error)"

section \<open>Writing raw texts\<close>

text \<open>
  \<open>json.Marshal\<close> of a raw message: the text without the white space between tokens, the
  HTML-sensitive characters and the line separators escaped.
\<close>

definition html_escape :: "char \<Rightarrow> string" where
  "html_escape c = (if c = CHR ''<'' \<or> c = CHR ''>'' \<or> c = CHR ''&'' then u00 (of_char c) else [c])"

definition line_separator :: "string \<Rightarrow> bool" where
  "line_separator s = (take 3 s = [CHR 0xE2, CHR 0x80, CHR 0xA8] \<or> take 3 s = [CHR 0xE2, CHR 0x80, CHR 0xA9])"

function compact :: "bool \<Rightarrow> bool \<Rightarrow> string \<Rightarrow> string" where
  "compact inside escaped [] = []"
| "compact inside escaped (c # cs) =
     (if line_separator (c # cs)
      then [CHR 0x5C] @ ''u202'' @ [hex_digit ((of_char (cs ! 1) :: int) mod 16)] @ compact inside False (drop 2 cs)
      else if \<not> inside then (if is_ws c then compact False False cs else html_escape c @ compact (c = CHR 34) False cs)
      else html_escape c @ compact (escaped \<or> c \<noteq> CHR 34) (\<not> escaped \<and> c = CHR 0x5C) cs)"
  by pat_completeness auto

termination by (relation "measure (\<lambda>(_, _, s). length s)") auto

section \<open>Texts written by \<open>json.Marshal\<close>\<close>

lemma decodeJSON_text:
  assumes "doc_ok d" "doc_depth d \<le> maxNestingDepth" "utf8_Valid (doc_text d)" "int (length (doc_text d)) \<le> limit" "checkValue d 0"
  shows "decodeJSON (doc_text d) limit = Inr d"
  using doc_start [OF assms(1)] doc_roundtrip [OF assms(1,2)] assms(3-5) by (auto simp: decodeJSON_def)

text \<open>The raw texts of the parts of a document are the texts of its parts.\<close>

lemma raw_value_text:
  assumes "doc_ok d" "doc_depth d \<le> maxNestingDepth" "follow rest"
  shows "raw_value (doc_text d @ rest) = Some (doc_text d, rest)"
proof -
  have "reads 0 d" using doc_reads assms(1,2) by simp
  then have "parse_value (json_fuel (doc_text d @ rest)) 0 (doc_text d @ rest) = Some (d, rest)"
    using assms(3) by (intro reads_at) (simp_all add: json_fuel_def)
  then show ?thesis by (simp add: raw_value_def)
qed

lemma raw_elems_text:
  assumes "xs \<noteq> []" "\<forall>x \<in> set xs. doc_ok x \<and> doc_depth x \<le> maxNestingDepth" "length (commas (map doc_text xs)) < k"
  shows "raw_elems k (commas (map doc_text xs) @ CHR '']'' # rest) = Some (map doc_text xs)"
  using assms
proof (induction xs arbitrary: k rule: list_nonempty_induct)
  case (single x)
  then obtain j where k: "k = Suc j" by (cases k) auto
  have "raw_value (doc_text x @ CHR '']'' # rest) = Some (doc_text x, CHR '']'' # rest)" using single by (intro raw_value_text) simp_all
  then show ?case using k by simp
next
  case (cons x xs)
  then obtain j where k: "k = Suc j" by (cases k) auto
  obtain y ys where xs: "xs = y # ys" using cons(1) by (cases xs) auto
  have c: "commas (map doc_text (x # xs)) = doc_text x @ CHR '','' # commas (map doc_text xs)" by (simp add: xs)
  have "raw_value (doc_text x @ CHR '','' # commas (map doc_text xs) @ CHR '']'' # rest) =
      Some (doc_text x, CHR '','' # commas (map doc_text xs) @ CHR '']'' # rest)"
    using cons(3) by (intro raw_value_text) simp_all
  moreover have "raw_elems j (commas (map doc_text xs) @ CHR '']'' # rest) = Some (map doc_text xs)"
    using cons k c by simp
  moreover have "skip_ws (commas (map doc_text xs) @ CHR '']'' # rest) = commas (map doc_text xs) @ CHR '']'' # rest"
    using skip_doc [of y] cons(3) xs by (cases ys) simp_all
  ultimately show ?case using k unfolding c by simp
qed

lemma raw_members_text:
  assumes "ms \<noteq> []" "\<forall>m \<in> set ms. utf8_Valid (fst m) \<and> doc_ok (snd m) \<and> doc_depth (snd m) \<le> maxNestingDepth"
    "length (commas (map member_text ms)) < k"
  shows "raw_members k (commas (map member_text ms) @ CHR ''}'' # rest) = Some (map (\<lambda>(k, x). (k, doc_text x)) ms)"
  using assms
proof (induction ms arbitrary: k rule: list_nonempty_induct)
  case (single m)
  obtain n x where m: "m = (n, x)" by force
  obtain j where k: "k = Suc j" using single by (cases k) auto
  have "raw_value (doc_text x @ CHR ''}'' # rest) = Some (doc_text x, CHR ''}'' # rest)"
    using single m by (intro raw_value_text) simp_all
  moreover have "skip_ws (doc_text x @ CHR ''}'' # rest) = doc_text x @ CHR ''}'' # rest" using single m by (intro skip_doc) simp
  moreover have "scan_string (length (quote n @ CHR '':'' # doc_text x @ CHR ''}'' # rest)) (drop 1 (quote n @ CHR '':'' # doc_text x @ CHR ''}'' # rest)) =
      Some (n, CHR '':'' # doc_text x @ CHR ''}'' # rest)"
    using single m by (intro scan_quoted) simp
  moreover have "take 1 (quote n @ r) = [CHR 34]" for r by (simp add: quote_def)
  ultimately show ?case using k m by (simp add: member_text_def del: drop_append length_append scan_string.simps)
next
  case (cons m ms)
  obtain n x where m: "m = (n, x)" by force
  obtain j where k: "k = Suc j" using cons by (cases k) auto
  obtain n' y ys where ms: "ms = (n', y) # ys" using cons(1) by (cases ms) auto
  let ?rest = "commas (map member_text ms) @ CHR ''}'' # rest"
  have c: "commas (map member_text (m # ms)) @ CHR ''}'' # rest = quote n @ CHR '':'' # doc_text x @ CHR '','' # ?rest"
    by (simp add: ms m member_text_def)
  have "commas (map member_text (m # ms)) = member_text m @ CHR '','' # commas (map member_text ms)" by (simp add: ms)
  then have l: "length (commas (map member_text ms)) < j" using cons(4) k by simp
  have "raw_value (doc_text x @ CHR '','' # ?rest) = Some (doc_text x, CHR '','' # ?rest)"
    using cons(3) m by (intro raw_value_text) simp_all
  moreover have "raw_members j ?rest = Some (map (\<lambda>(k, x). (k, doc_text x)) ms)" using cons l by simp
  moreover have "skip_ws ?rest = ?rest" using ms by (cases ys) (simp_all add: member_text_def quote_def)
  moreover have "skip_ws (doc_text x @ CHR '','' # ?rest) = doc_text x @ CHR '','' # ?rest" using cons(3) m by (intro skip_doc) simp
  moreover have "scan_string (length (quote n @ CHR '':'' # doc_text x @ CHR '','' # ?rest)) (drop 1 (quote n @ CHR '':'' # doc_text x @ CHR '','' # ?rest)) =
      Some (n, CHR '':'' # doc_text x @ CHR '','' # ?rest)"
    using cons(3) m by (intro scan_quoted) simp
  moreover have "take 1 (quote n @ r) = [CHR 34]" for r by (simp add: quote_def)
  ultimately show ?case unfolding c using k m by (simp del: drop_append length_append scan_string.simps)
qed

lemma raw_array_text:
  assumes "doc_ok (DArr xs)" "doc_depth (DArr xs) \<le> maxNestingDepth"
  shows "raw_array (doc_text (DArr xs)) = Some (map doc_text xs)"
proof (cases xs)
  case Nil
  then show ?thesis by (simp add: raw_array_def skip_ws_def is_ws_def)
next
  case (Cons y ys)
  have parts: "\<forall>x \<in> set xs. doc_ok x \<and> doc_depth x \<le> maxNestingDepth"
  proof
    fix x assume x: "x \<in> set xs"
    then have "doc_depth x \<le> foldr max (map doc_depth xs) 0" by (metis foldr_max_le imageI order_refl set_map)
    then show "doc_ok x \<and> doc_depth x \<le> maxNestingDepth" using assms x by simp
  qed
  have "\<exists>c cs. commas (map doc_text xs) = c # cs \<and> \<not> is_ws c \<and> c \<noteq> CHR '']''"
    using doc_start [of y] parts Cons by (cases ys) auto
  then have "skip_ws (commas (map doc_text xs) @ '']'') = commas (map doc_text xs) @ '']''" "take 1 (commas (map doc_text xs) @ '']'') \<noteq> '']''"
    by (auto simp: skip_ws_def)
  moreover have "raw_elems (length (doc_text (DArr xs))) (commas (map doc_text xs) @ CHR '']'' # []) = Some (map doc_text xs)"
    using parts Cons by (intro raw_elems_text) simp_all
  moreover have "skip_ws (doc_text (DArr xs)) = doc_text (DArr xs)" by (simp add: skip_ws_def is_ws_def)
  ultimately show ?thesis by (simp add: raw_array_def Let_def)
qed

lemma raw_object_text:
  assumes "doc_ok (DObj ms)" "doc_depth (DObj ms) \<le> maxNestingDepth"
  shows "raw_object (doc_text (DObj ms)) = Some (map (\<lambda>(k, x). (k, doc_text x)) ms)"
proof -
  have spelled: "doc_text (DObj ms) = ''{'' @ commas (map member_text ms) @ ''}''" using assms(1) by (intro member_texts) simp
  show ?thesis
  proof (cases ms)
    case Nil
    then show ?thesis unfolding spelled by (simp add: raw_object_def skip_ws_def is_ws_def)
  next
    case (Cons y ys)
    have parts: "\<forall>m \<in> set ms. utf8_Valid (fst m) \<and> doc_ok (snd m) \<and> doc_depth (snd m) \<le> maxNestingDepth"
    proof
      fix m assume m: "m \<in> set ms"
      have "doc_depth (snd m) = snd (map_prod id doc_depth m)" by (cases m) simp
      then have "doc_depth (snd m) \<le> foldr max (map snd (map (map_prod id doc_depth) ms)) 0"
        using m by (metis foldr_max_le imageI order_refl set_map)
      then show "utf8_Valid (fst m) \<and> doc_ok (snd m) \<and> doc_depth (snd m) \<le> maxNestingDepth" using assms m by (cases m) auto
    qed
    have "\<exists>cs. commas (map member_text ms) = CHR 34 # cs" using Cons by (cases ys) (auto simp: member_text_def quote_def)
    then have "skip_ws (commas (map member_text ms) @ ''}'') = commas (map member_text ms) @ ''}''" "take 1 (commas (map member_text ms) @ ''}'') \<noteq> ''}''"
      by auto
    moreover have "raw_members (length (doc_text (DObj ms))) (commas (map member_text ms) @ CHR ''}'' # []) = Some (map (\<lambda>(k, x). (k, doc_text x)) ms)"
      using parts Cons unfolding spelled by (intro raw_members_text) simp_all
    moreover have "skip_ws (doc_text (DObj ms)) = doc_text (DObj ms)" unfolding spelled by (simp add: skip_ws_def is_ws_def)
    ultimately show ?thesis unfolding spelled by (simp add: raw_object_def Let_def)
  qed
qed

end
