(* ===== verification/Go_Regexp.thy ===== *)
theory Go_Regexp
  imports Go_Text
begin

text \<open>
  Regular expressions of the package \<open>regexp\<close>, as far as a test for a match anywhere in a text
  needs them. A text is matched as the list of its code points (an invalid byte is U+FFFD). The
  matcher maps start positions to end positions; its meaning is given by a relation on positions.
\<close>

datatype rx =
    Eps
  | Cls bool "(int \<times> int) list"
  | Seq rx rx
  | Alt rx rx
  | Star rx
  | WordB

section \<open>Building expressions\<close>

definition opt :: "rx \<Rightarrow> rx" where "opt r = Alt Eps r"

definition plus :: "rx \<Rightarrow> rx" where "plus r = Seq r (Star r)"

definition seqs :: "rx list \<Rightarrow> rx" where "seqs rs = foldr Seq rs Eps"

definition alts :: "rx list \<Rightarrow> rx" where "alts rs = (case rs of [] \<Rightarrow> Cls True [] | r # rs \<Rightarrow> foldl Alt r rs)"

definition at_least :: "nat \<Rightarrow> rx \<Rightarrow> rx" where "at_least n r = Seq (seqs (replicate n r)) (Star r)"

definition one :: "char \<Rightarrow> rx" where "one c = Cls True [(of_char c, of_char c)]"

definition lit :: "string \<Rightarrow> rx" where "lit s = seqs (map one s)"

text \<open>Under \<open>(?i)\<close> a letter stands for its simple foldings, which for k and s lie beyond ASCII too.\<close>

definition folded :: "char \<Rightarrow> (int \<times> int) list" where
  "folded c =
     (let l = of_char (lower_char c); u = of_char (upper_char c)
      in [(l, l), (u, u)] @ (if l = 107 then [(0x212A, 0x212A)] else []) @ (if l = 115 then [(0x17F, 0x17F)] else []))"

definition ione :: "char \<Rightarrow> rx" where "ione c = Cls True (folded c)"

definition ilit :: "string \<Rightarrow> rx" where "ilit s = seqs (map ione s)"

definition iany :: "string \<Rightarrow> rx" where "iany s = Cls True (concat (map folded s))"

definition any_rune :: rx where "any_rune = Cls False []"

text \<open>The class \<open>\s\<close>, the letters and digits.\<close>

definition spaces :: "(int \<times> int) list" where "spaces = [(9, 10), (12, 13), (32, 32)]"
definition letters :: "(int \<times> int) list" where "letters = [(65, 90), (97, 122)]"
definition alnums :: "(int \<times> int) list" where "alnums = [(48, 57), (65, 90), (97, 122)]"
definition foreign :: "(int \<times> int) list" where "foreign = [(0x17F, 0x17F), (0x212A, 0x212A)]"

section \<open>Matching\<close>

text \<open>A set of positions of a text of length \<open>n\<close> is a list of \<open>n + 1\<close> marks.\<close>

definition runes :: "string \<Rightarrow> int list" where
  "runes s = map (\<lambda>c. fst (decode_rune c)) (chunks s)"

definition in_class :: "bool \<Rightarrow> (int \<times> int) list \<Rightarrow> int \<Rightarrow> bool" where
  "in_class pos rs x = (list_ex (\<lambda>(a, b). a \<le> x \<and> x \<le> b) rs = pos)"

definition word_rune :: "int \<Rightarrow> bool" where
  "word_rune x = in_class True ((95, 95) # alnums) x"

text \<open>The positions between a word character and something else.\<close>

fun boundaries :: "bool \<Rightarrow> int list \<Rightarrow> bool list" where
  "boundaries prev [] = [prev]"
| "boundaries prev (x # xs) = (prev \<noteq> word_rune x) # boundaries (word_rune x) xs"

definition shift :: "(int \<Rightarrow> bool) \<Rightarrow> int list \<Rightarrow> bool list \<Rightarrow> bool list" where
  "shift f xs ps = False # map2 (\<lambda>p x. if p then f x else False) ps xs"

definition both :: "bool list \<Rightarrow> bool list \<Rightarrow> bool list" where
  "both ps qs = map2 (\<lambda>p q. if p then q else False) ps qs"

definition either :: "bool list \<Rightarrow> bool list \<Rightarrow> bool list" where
  "either ps qs = map2 (\<lambda>p q. if p then True else q) ps qs"

primrec close :: "nat \<Rightarrow> (bool list \<Rightarrow> bool list) \<Rightarrow> bool list \<Rightarrow> bool list" where
  "close 0 f ps = ps"
| "close (Suc n) f ps = (let qs = either ps (f ps) in if qs = ps then ps else close n f qs)"

primrec ends :: "rx \<Rightarrow> int list \<Rightarrow> bool list \<Rightarrow> bool list" where
  "ends Eps xs ps = ps"
| "ends (Cls pos rs) xs ps = shift (in_class pos rs) xs ps"
| "ends (Seq r s) xs ps = (let qs = ends r xs ps in if list_ex id qs then ends s xs qs else qs)"
| "ends (Alt r s) xs ps = either (ends r xs ps) (ends s xs ps)"
| "ends (Star r) xs ps = close (length xs + 1) (ends r xs) ps"
| "ends WordB xs ps = both ps (boundaries False xs)"

definition MatchString :: "rx \<Rightarrow> string \<Rightarrow> bool" where
  "MatchString r s = (let xs = runes s in list_ex id (ends r xs (True # map (\<lambda>_. True) xs)))"

section \<open>What a match is\<close>

definition word_at :: "int list \<Rightarrow> nat \<Rightarrow> bool" where
  "word_at xs i = (i < length xs \<and> word_rune (xs ! i))"

definition boundary :: "int list \<Rightarrow> nat \<Rightarrow> bool" where
  "boundary xs i = (i \<le> length xs \<and> (0 < i \<and> word_at xs (i - 1)) \<noteq> word_at xs i)"

primrec spans :: "int list \<Rightarrow> rx \<Rightarrow> (nat \<times> nat) set" where
  "spans xs Eps = Id"
| "spans xs (Cls pos rs) = {(i, Suc i) | i. i < length xs \<and> in_class pos rs (xs ! i)}"
| "spans xs (Seq r s) = spans xs r O spans xs s"
| "spans xs (Alt r s) = spans xs r \<union> spans xs s"
| "spans xs (Star r) = (spans xs r)\<^sup>*"
| "spans xs WordB = {(i, i) | i. boundary xs i}"

definition marked :: "bool list \<Rightarrow> nat set" where
  "marked ps = {i. i < length ps \<and> ps ! i}"

lemma marked_bound: "marked ps \<subseteq> {..<length ps}"
  by (auto simp: marked_def)

lemma length_either [simp]: "length qs = length ps \<Longrightarrow> length (either ps qs) = length ps"
  by (simp add: either_def)

lemma marked_either: "length qs = length ps \<Longrightarrow> marked (either ps qs) = marked ps \<union> marked qs"
  by (auto simp: marked_def either_def split: if_splits)

lemma marked_inj: "length qs = length ps \<Longrightarrow> marked qs = marked ps \<Longrightarrow> qs = ps"
  by (auto simp: marked_def set_eq_iff list_eq_iff_nth_eq)

lemma marked_shift:
  assumes "length ps = length xs + 1"
  shows "marked (shift f xs ps) = {Suc i | i. i \<in> marked ps \<and> i < length xs \<and> f (xs ! i)}"
  using assms by (auto simp: marked_def shift_def nth_Cons' gr0_conv_Suc)

lemma length_boundaries [simp]: "length (boundaries prev xs) = length xs + 1"
  by (induction xs arbitrary: prev) auto

lemma nth_boundaries:
  "i \<le> length xs \<Longrightarrow> boundaries prev xs ! i = ((if i = 0 then prev else word_at xs (i - 1)) \<noteq> word_at xs i)"
proof (induction xs arbitrary: prev i)
  case (Cons x xs)
  show ?case
  proof (cases i)
    case (Suc j)
    then have "boundaries (word_rune x) xs ! j = ((if j = 0 then word_rune x else word_at xs (j - 1)) \<noteq> word_at xs j)"
      using Cons by simp
    then show ?thesis using Suc by (cases j) (simp_all add: word_at_def)
  qed (simp add: word_at_def)
qed (simp add: word_at_def)

lemma marked_both: "length ps = length xs + 1 \<Longrightarrow> marked (both ps (boundaries False xs)) = {i \<in> marked ps. boundary xs i}"
  by (auto simp: marked_def both_def nth_boundaries boundary_def split: if_splits)

section \<open>The closure of a starred expression\<close>

text \<open>A step on marks that computes the image under a relation.\<close>

definition computes :: "nat \<Rightarrow> (bool list \<Rightarrow> bool list) \<Rightarrow> (nat \<times> nat) set \<Rightarrow> bool" where
  "computes n f R \<longleftrightarrow> (\<forall>ps. length ps = n \<longrightarrow> length (f ps) = n \<and> marked (f ps) = R `` marked ps)"

lemma close_progress:
  assumes "computes n f R" "length ps = n"
  shows "length (close k f ps) = n \<and> marked ps \<subseteq> marked (close k f ps) \<and> marked (close k f ps) \<subseteq> R\<^sup>* `` marked ps \<and>
    (R `` marked (close k f ps) \<subseteq> marked (close k f ps) \<or> card (marked ps) + k \<le> card (marked (close k f ps)))"
  using assms(2)
proof (induction k arbitrary: ps)
  case (Suc k)
  let ?qs = "either ps (f ps)"
  have f: "length (f ps) = n" "marked (f ps) = R `` marked ps" using assms(1) Suc.prems by (auto simp: computes_def)
  have qs: "marked ?qs = marked ps \<union> R `` marked ps" "length ?qs = n" using f Suc.prems by (simp_all add: marked_either)
  show ?case
  proof (cases "?qs = ps")
    case True
    then show ?thesis using qs Suc.prems by auto
  next
    case False
    then have "marked ps \<subset> marked ?qs" using marked_inj [of ?qs ps] qs Suc.prems by auto
    moreover have "finite (marked ?qs)" by (rule finite_subset [OF marked_bound]) simp
    ultimately have less: "card (marked ps) < card (marked ?qs)" by (simp add: psubset_card_mono)
    have reach: "R\<^sup>* `` marked ?qs \<subseteq> R\<^sup>* `` marked ps"
      unfolding qs by (auto intro: converse_rtrancl_into_rtrancl)
    have "close (Suc k) f ps = close k f ?qs" using False by (simp add: Let_def)
    then show ?thesis using Suc.IH [OF qs(2)] less reach qs(1) by auto
  qed
qed auto

lemma close_star:
  assumes "computes n f R" "length ps = n"
  shows "length (close n f ps) = n \<and> marked (close n f ps) = R\<^sup>* `` marked ps"
proof -
  let ?c = "marked (close n f ps)"
  note c = close_progress [OF assms, of n]
  have bound: "?c \<subseteq> {..<n}" using marked_bound [of "close n f ps"] c by simp
  have "R `` ?c \<subseteq> ?c"
  proof (rule ccontr)
    assume not_closed: "\<not> R `` ?c \<subseteq> ?c"
    then have "n \<le> card ?c" using c by auto
    then have "?c = {..<n}" using bound by (intro card_seteq) auto
    moreover have "R `` ?c \<subseteq> {..<n}"
    proof -
      have "marked (f (close n f ps)) = R `` ?c" "length (f (close n f ps)) = n" using assms(1) c by (auto simp: computes_def)
      then show ?thesis using marked_bound [of "f (close n f ps)"] by simp
    qed
    ultimately show False using not_closed by simp
  qed
  then have "R\<^sup>* `` ?c \<subseteq> ?c" by (simp add: Image_closed_trancl)
  moreover have "R\<^sup>* `` marked ps \<subseteq> R\<^sup>* `` ?c" using c by (intro Image_mono) auto
  ultimately show ?thesis using c by blast
qed

lemma ends_spans: "computes (length xs + 1) (ends r xs) (spans xs r)"
proof (induction r)
  case (Cls pos rs)
  show ?case by (auto simp: computes_def marked_shift) (simp add: shift_def)
next
  case (Seq r s)
  have none: "marked qs = {}" if "\<not> list_ex id qs" for qs using that by (auto simp: marked_def list_ex_length)
  show ?case unfolding computes_def
  proof (intro allI impI)
    fix ps :: "bool list"
    assume ps: "length ps = length xs + 1"
    let ?qs = "ends r xs ps"
    have r: "length ?qs = length xs + 1" "marked ?qs = spans xs r `` marked ps" using Seq.IH(1) ps by (simp_all add: computes_def)
    have s: "length (ends s xs ?qs) = length xs + 1" "marked (ends s xs ?qs) = spans xs s `` marked ?qs"
      using Seq.IH(2) r(1) by (simp_all add: computes_def)
    show "length (ends (Seq r s) xs ps) = length xs + 1 \<and> marked (ends (Seq r s) xs ps) = spans xs (Seq r s) `` marked ps"
      using r s none [of ?qs] by (cases "list_ex id ?qs") (simp_all add: Let_def relcomp_Image)
  qed
next
  case (Alt r s)
  then show ?case by (auto simp: computes_def marked_either)
next
  case (Star r)
  show ?case using close_star [OF Star] by (simp add: computes_def)
next
  case WordB
  show ?case by (auto simp: computes_def marked_both) (simp add: both_def)
qed (simp add: computes_def)

text \<open>A match: some part of the text belongs to the expression.\<close>

lemma MatchString_iff:
  "MatchString r s \<longleftrightarrow> (\<exists>i j. i \<le> length (runes s) \<and> (i, j) \<in> spans (runes s) r)"
proof -
  let ?xs = "runes s" let ?ps = "True # map (\<lambda>_. True) ?xs"
  have "marked ?ps = {..length ?xs}" by (auto simp: marked_def nth_Cons')
  moreover have "marked (ends r ?xs ?ps) = spans ?xs r `` marked ?ps" using ends_spans [of ?xs r] by (simp add: computes_def)
  moreover have "MatchString r s \<longleftrightarrow> marked (ends r ?xs ?ps) \<noteq> {}"
    by (auto simp: MatchString_def Let_def marked_def list_ex_length)
  ultimately show ?thesis by auto
qed

end
