(* ===== verification/Sanitize.thy ===== *)
theory Sanitize
  imports Go_Regexp Json_Decode
begin

text \<open>
  \<open>internal/logging/sanitize.go\<close>: the admission of text that may carry credentials. The patterns
  are expressions of \<open>Go_Regexp\<close>, the walk over the tokens of a JSON text is the loop of the
  source with its stack of frames (the top frame first). \<open>Redact\<close>, which rewrites a message for
  the operational log, is not modelled.
\<close>

section \<open>The patterns\<close>

definition separator :: rx where
  "separator = seqs [Star (Cls True spaces), Cls True [(58, 58), (61, 61)], Star (Cls True spaces)]"

definition token_text :: rx where
  "token_text = plus (Cls False (spaces @ [(44, 44), (59, 59)]))"

definition dashed :: "string \<Rightarrow> string \<Rightarrow> rx" where
  "dashed a b = seqs [ilit a, opt (iany ''_-''), ilit b]"

definition authorizationPattern :: rx where
  "authorizationPattern =
     seqs [ilit ''authorization'', separator, Alt (ilit ''bearer'') (ilit ''basic''), plus (Cls True spaces), token_text]"

definition keyValuePattern :: rx where
  "keyValuePattern =
     seqs [alts [dashed ''api'' ''key'', ilit ''token'', ilit ''secret'', ilit ''password''], separator, token_text]"

definition knownTokenPattern :: rx where
  "knownTokenPattern =
     alts
      [seqs [WordB, Alt (ilit ''sk'') (ilit ''rk''), one (CHR ''-''), at_least 16 (Cls True (alnums @ [(95, 95), (45, 45)] @ foreign)), WordB],
       seqs [WordB, ilit ''gh'', iany ''pousr'', one (CHR ''_''), at_least 20 (Cls True (alnums @ foreign)), WordB],
       seqs [WordB, ilit ''aiza'', at_least 30 (Cls True (alnums @ [(95, 95), (45, 45)] @ foreign)), WordB]]"

definition key_marker :: "string \<Rightarrow> rx" where
  "key_marker word =
     seqs [lit ''-----'', lit word, one (CHR '' ''), Star (Cls True [(65, 90), (48, 57), (32, 32)]), lit ''PRIVATE KEY-----'']"

definition privateKeyPattern :: rx where
  "privateKeyPattern = seqs [key_marker ''BEGIN'', Star any_rune, key_marker ''END'']"

definition emailPattern :: rx where
  "emailPattern =
     seqs [WordB, plus (Cls True (alnums @ [(46, 46), (95, 95), (37, 37), (43, 43), (45, 45)])), one (CHR ''@''),
           plus (Cls True (alnums @ [(46, 46), (45, 45)])), one (CHR ''.''), at_least 2 (Cls True letters), WordB]"

definition jsonCredentialPattern :: rx where
  "jsonCredentialPattern =
     (let q = one (CHR 34)
      in seqs
          [q,
           alts [ilit ''authorization'', dashed ''api'' ''key'', dashed ''access'' ''token'', dashed ''refresh'' ''token'',
                 dashed ''client'' ''secret'', dashed ''private'' ''key'', ilit ''token'', ilit ''secret'', ilit ''password''],
           q, Star (Cls True spaces), one (CHR '':''), Star (Cls True spaces), q,
           Star (Alt (Cls False [(34, 34), (92, 92)]) (Seq (one (CHR 0x5C)) (Cls False [(10, 10)]))), q])"

definition plainSensitive :: "string \<Rightarrow> bool" where
  "plainSensitive message =
     (MatchString authorizationPattern message \<or> MatchString keyValuePattern message \<or> MatchString knownTokenPattern message \<or>
      MatchString privateKeyPattern message \<or> MatchString emailPattern message \<or> MatchString jsonCredentialPattern message)"

definition credentialField :: "string \<Rightarrow> bool" where
  "credentialField key =
     (ToLower (filter (\<lambda>c. c \<noteq> CHR ''_'' \<and> c \<noteq> CHR ''-'') key) \<in>
      {''authorization'', ''apikey'', ''accesstoken'', ''refreshtoken'', ''clientsecret'', ''privatekey'', ''token'', ''secret'', ''password''})"

section \<open>The tokens of a JSON text\<close>

datatype token =
    TDelim char
  | TText string
  | TNumber string
  | TBool bool
  | TNull

fun tokens :: "jdoc \<Rightarrow> token list" where
  "tokens DNull = [TNull]"
| "tokens (DBool b) = [TBool b]"
| "tokens (DNum n) = [TNumber n]"
| "tokens (DStr s) = [TText s]"
| "tokens (DArr xs) = TDelim (CHR ''['') # concat (map tokens xs) @ [TDelim (CHR '']'')]"
| "tokens (DObj ms) = TDelim (CHR ''{'') # concat (map (\<lambda>(k, v). TText k # tokens v) ms) @ [TDelim (CHR ''}'')]"

record frame =
  fr_object :: bool
  fr_key :: bool
  fr_name :: string
  fr_authArray :: bool

definition consume :: "frame list \<Rightarrow> frame list" where
  "consume st =
     (case st of
        [] \<Rightarrow> []
      | f # fs \<Rightarrow> if fr_object f then f\<lparr>fr_key := True, fr_name := []\<rparr> # fs else st)"

definition is_text :: "token \<Rightarrow> bool" where
  "is_text t = (case t of TText _ \<Rightarrow> True | _ \<Rightarrow> False)"

text \<open>A token where the key of an object is expected: the frame remembers the name.\<close>

definition key_token :: "frame list \<Rightarrow> token \<Rightarrow> (string \<times> frame \<times> frame list) option" where
  "key_token st t =
     (case st of
        [] \<Rightarrow> None
      | f # fs \<Rightarrow> (case t of TText k \<Rightarrow> if fr_object f \<and> fr_key f then Some (k, f, fs) else None | _ \<Rightarrow> None))"

definition credential_value :: "string \<Rightarrow> token \<Rightarrow> bool" where
  "credential_value name t =
     (credentialField name \<and> (ToLower name \<noteq> ''authorization'' \<or> is_text t) \<and> t \<noteq> TNull \<and> t \<noteq> TText [])"

definition flagged :: "frame list \<Rightarrow> token \<Rightarrow> bool" where
  "flagged st t =
     (case st of
        [] \<Rightarrow> False
      | f # _ \<Rightarrow>
          (fr_authArray f \<and> is_text t \<and> t \<noteq> TText []) \<or> (fr_object f \<and> \<not> fr_key f \<and> credential_value (fr_name f) t))"

text \<open>\<open>strings.EqualFold\<close> with an ASCII word.\<close>

definition EqualFold :: "string \<Rightarrow> string \<Rightarrow> bool" where
  "EqualFold s w = (foldName s = foldName w)"

definition opens_authArray :: "frame list \<Rightarrow> char \<Rightarrow> bool" where
  "opens_authArray st c =
     (c = CHR ''['' \<and> (case st of [] \<Rightarrow> False | f # _ \<Rightarrow> fr_authArray f \<or> EqualFold (fr_name f) ''authorization''))"

definition maxFrames :: nat where "maxFrames = 128"

text \<open>The loop; \<open>hit\<close> judges the text of a string.\<close>

fun scan_tokens :: "(string \<Rightarrow> bool) \<Rightarrow> frame list \<Rightarrow> token list \<Rightarrow> bool" where
  "scan_tokens hit st [] = False"
| "scan_tokens hit st (t # ts) =
     (case key_token st t of
        Some (k, f, fs) \<Rightarrow> scan_tokens hit (f\<lparr>fr_name := k, fr_key := False\<rparr> # fs) ts
      | None \<Rightarrow>
          if flagged st t then True
          else case t of
            TDelim c \<Rightarrow>
              if c = CHR ''{'' \<or> c = CHR ''[''
              then (let st' = \<lparr>fr_object = (c = CHR ''{''), fr_key = (c = CHR ''{''), fr_name = [], fr_authArray = opens_authArray st c\<rparr> # consume st
                    in if length st' > maxFrames then True else scan_tokens hit st' ts)
              else (case st of [] \<Rightarrow> False | _ # fs \<Rightarrow> scan_tokens hit fs ts)
          | TText text \<Rightarrow> if hit text then True else scan_tokens hit (consume st) ts
          | _ \<Rightarrow> scan_tokens hit (consume st) ts)"

text \<open>JSON inside a string is read too, four levels deep.\<close>

definition maxEmbedded :: nat where "maxEmbedded = 4"

function sensitiveJSON :: "string \<Rightarrow> nat \<Rightarrow> bool" where
  "sensitiveJSON message embedded =
     (case parse_json message of
        None \<Rightarrow> False
      | Some d \<Rightarrow>
          scan_tokens
           (\<lambda>text. plainSensitive text \<or>
                   (json_Valid text \<and> (if embedded \<ge> maxEmbedded then True else sensitiveJSON text (embedded + 1))))
           [] (tokens d))"
  by auto

termination by (relation "measure (\<lambda>(_, embedded). maxEmbedded - embedded)") auto

definition ContainsSensitive :: "string \<Rightarrow> bool" where
  "ContainsSensitive message = (plainSensitive message \<or> (json_Valid message \<and> sensitiveJSON message 0))"

section \<open>The loop reads the structure of the document\<close>

text \<open>
  What the loop looks for, by recursion on the document: a value under the name of a credential,
  a text inside an authorization array, a text that is judged, or too deep a nesting. The
  context of a value is the member or array that holds it.
\<close>

datatype place = Top | Member string | Element bool

definition exposed :: "place \<Rightarrow> jdoc \<Rightarrow> bool" where
  "exposed c d =
     (case c of
        Top \<Rightarrow> False
      | Member name \<Rightarrow>
          credentialField name \<and> (ToLower name \<noteq> ''authorization'' \<or> (\<exists>s. d = DStr s)) \<and> d \<noteq> DNull \<and> d \<noteq> DStr []
      | Element auth \<Rightarrow> auth \<and> (\<exists>s. d = DStr s \<and> s \<noteq> []))"

definition authorizes :: "place \<Rightarrow> bool" where
  "authorizes c = (case c of Top \<Rightarrow> False | Member name \<Rightarrow> EqualFold name ''authorization'' | Element auth \<Rightarrow> auth)"

fun leaks :: "(string \<Rightarrow> bool) \<Rightarrow> nat \<Rightarrow> place \<Rightarrow> jdoc \<Rightarrow> bool" where
  "leaks hit depth c (DArr xs) =
     (exposed c (DArr xs) \<or> depth \<ge> maxFrames \<or> (\<exists>x \<in> set xs. leaks hit (depth + 1) (Element (authorizes c)) x))"
| "leaks hit depth c (DObj ms) =
     (exposed c (DObj ms) \<or> depth \<ge> maxFrames \<or> (\<exists>(k, x) \<in> set ms. leaks hit (depth + 1) (Member k) x))"
| "leaks hit depth c (DStr s) = (exposed c (DStr s) \<or> hit s)"
| "leaks hit depth c d = exposed c d"

definition wf_frame :: "frame \<Rightarrow> bool" where
  "wf_frame f = (if fr_object f then \<not> fr_authArray f else fr_name f = [] \<and> \<not> fr_key f)"

definition ready :: "frame list \<Rightarrow> bool" where
  "ready st = (list_all wf_frame st \<and> (case st of [] \<Rightarrow> True | f # _ \<Rightarrow> \<not> fr_key f))"

definition place_of :: "frame list \<Rightarrow> place" where
  "place_of st = (case st of [] \<Rightarrow> Top | f # _ \<Rightarrow> if fr_object f then Member (fr_name f) else Element (fr_authArray f))"

lemma length_consume [simp]: "length (consume st) = length st"
  by (simp add: consume_def split: list.split)

lemma wf_consume: "list_all wf_frame st \<Longrightarrow> list_all wf_frame (consume st)"
  by (auto simp: consume_def wf_frame_def split: list.split)

lemma key_token_ready: "ready st \<Longrightarrow> key_token st t = None"
  by (auto simp: key_token_def ready_def split: list.split token.split)

lemma key_token_delim [simp]: "key_token st (TDelim c) = None"
  by (simp add: key_token_def split: list.split)

lemma EqualFold_Nil [simp]: "\<not> EqualFold [] ''authorization''"
  by code_simp

lemma flagged_exposed:
  assumes "ready st" "tokens d = t # ts"
  shows "flagged st t = exposed (place_of st) d"
  using assms
  by (cases d; cases st)
    (auto simp: flagged_def exposed_def place_of_def ready_def wf_frame_def credential_value_def is_text_def)

lemma opens_authorizes: "ready st \<Longrightarrow> opens_authArray st (CHR ''['') = authorizes (place_of st)"
  by (auto simp: opens_authArray_def authorizes_def place_of_def ready_def wf_frame_def split: list.split)

lemma scan_elements:
  assumes IH: "\<And>x st ts. x \<in> set xs \<Longrightarrow> ready st \<Longrightarrow>
      scan_tokens hit st (tokens x @ ts) = (leaks hit (length st) (place_of st) x \<or> scan_tokens hit (consume st) ts)"
    and st: "list_all wf_frame fs" "f = \<lparr>fr_object = False, fr_key = False, fr_name = [], fr_authArray = a\<rparr>"
  shows "scan_tokens hit (f # fs) (concat (map tokens xs) @ ts) =
    ((\<exists>x \<in> set xs. leaks hit (Suc (length fs)) (Element a) x) \<or> scan_tokens hit (f # fs) ts)"
  using IH
proof (induction xs)
  case (Cons x xs)
  have "ready (f # fs)" "place_of (f # fs) = Element a" "consume (f # fs) = f # fs"
    using st by (simp_all add: ready_def wf_frame_def place_of_def consume_def)
  with Cons.prems [of x "f # fs" "concat (map tokens xs) @ ts"] Cons show ?case by auto
qed simp

lemma scan_members:
  assumes IH: "\<And>k x st ts. (k, x) \<in> set ms \<Longrightarrow> ready st \<Longrightarrow>
      scan_tokens hit st (tokens x @ ts) = (leaks hit (length st) (place_of st) x \<or> scan_tokens hit (consume st) ts)"
    and st: "list_all wf_frame fs" "f = \<lparr>fr_object = True, fr_key = True, fr_name = [], fr_authArray = False\<rparr>"
  shows "scan_tokens hit (f # fs) (concat (map (\<lambda>(k, v). TText k # tokens v) ms) @ ts) =
    ((\<exists>(k, x) \<in> set ms. leaks hit (Suc (length fs)) (Member k) x) \<or> scan_tokens hit (f # fs) ts)"
  using IH
proof (induction ms)
  case (Cons m ms)
  obtain k x where m: "m = (k, x)" by force
  let ?g = "f\<lparr>fr_name := k, fr_key := False\<rparr>"
  have "ready (?g # fs)" "place_of (?g # fs) = Member k" "consume (?g # fs) = f # fs"
    using st by (simp_all add: ready_def wf_frame_def place_of_def consume_def)
  moreover have "key_token (f # fs) (TText k) = Some (k, f, fs)" using st by (simp add: key_token_def)
  moreover have "scan_tokens hit (?g # fs) (tokens x @ concat (map (\<lambda>(k, v). TText k # tokens v) ms) @ ts) =
      (leaks hit (length (?g # fs)) (place_of (?g # fs)) x \<or>
       scan_tokens hit (consume (?g # fs)) (concat (map (\<lambda>(k, v). TText k # tokens v) ms) @ ts))"
    using m calculation(1) by (intro Cons.prems) auto
  moreover have "scan_tokens hit (f # fs) (concat (map (\<lambda>(k, v). TText k # tokens v) ms) @ ts) =
      ((\<exists>(k, x) \<in> set ms. leaks hit (Suc (length fs)) (Member k) x) \<or> scan_tokens hit (f # fs) ts)"
    by (rule Cons.IH) (rule Cons.prems, auto)
  ultimately show ?case using m by simp
qed simp

theorem scan_tokens_leaks:
  "ready st \<Longrightarrow> scan_tokens hit st (tokens d @ ts) = (leaks hit (length st) (place_of st) d \<or> scan_tokens hit (consume st) ts)"
proof (induction d arbitrary: st ts rule: tokens.induct)
  case (5 xs)
  let ?f = "\<lparr>fr_object = False, fr_key = False, fr_name = [], fr_authArray = authorizes (place_of st)\<rparr>"
  have wf: "list_all wf_frame (consume st)" using 5 by (intro wf_consume) (simp add: ready_def)
  have "scan_tokens hit (?f # consume st) (concat (map tokens xs) @ TDelim (CHR '']'') # ts) =
    ((\<exists>x \<in> set xs. leaks hit (Suc (length st)) (Element (authorizes (place_of st))) x) \<or> scan_tokens hit (consume st) ts)"
    by (subst scan_elements [OF 5(1) wf refl]) (simp_all add: flagged_def is_text_def)
  then show ?case
    using 5(2) by (simp add: flagged_exposed [of st "DArr xs"] opens_authorizes not_less not_le Suc_le_eq)
next
  case (6 ms)
  let ?f = "\<lparr>fr_object = True, fr_key = True, fr_name = [], fr_authArray = False\<rparr>"
  have wf: "list_all wf_frame (consume st)" using 6 by (intro wf_consume) (simp add: ready_def)
  have "scan_tokens hit (?f # consume st) (concat (map (\<lambda>(k, v). TText k # tokens v) ms) @ TDelim (CHR ''}'') # ts) =
    ((\<exists>(k, x) \<in> set ms. leaks hit (Suc (length st)) (Member k) x) \<or> scan_tokens hit (consume st) ts)"
    by (subst scan_members [OF 6(1) wf refl]) (simp_all add: flagged_def is_text_def)
  then show ?case
    using 6(2) by (simp add: flagged_exposed [of st "DObj ms"] opens_authArray_def not_less not_le Suc_le_eq)
qed (simp_all add: key_token_ready flagged_exposed [OF _ tokens.simps(1)] flagged_exposed [OF _ tokens.simps(2)]
      flagged_exposed [OF _ tokens.simps(3)] flagged_exposed [OF _ tokens.simps(4)])

end
