(* ===== verification/Host_Facts.thy ===== *)
theory Host_Facts
  imports Host_Session "HOL-Library.Sublist"
begin

text \<open>
  Runs of the session protocol: the operations as steps with an observable outcome, the invariant
  of a session together with what has been observed, and the bound on the length of a run.
\<close>

section \<open>The governor\<close>

definition usage_ok :: "governor \<Rightarrow> bool" where
  "usage_ok g \<longleftrightarrow>
     (let u = go_usage g; b = go_limits g
      in 0 \<le> uc_modelRequests u \<and> uc_modelRequests u \<le> bu_modelRequests b \<and>
         0 \<le> uc_toolAttempts u \<and> uc_toolAttempts u \<le> bu_toolAttempts b \<and>
         0 \<le> uc_contentBytes u \<and> uc_contentBytes u \<le> max 0 (bu_traceBytes b - 65536))"

lemma Admit_cases:
  assumes "Admit now ctx kind n g = (r, g')"
  obtains (refused) e where "r = Inl e" "g' = (if go_stopped g then g else stop_governor g)"
  | (admitted) u where "r = Inr ()" "\<not> go_stopped g" "ctx = None" "now < go_deadline g" "0 \<le> n" "n \<le> content_left g"
      "admit_kind kind (go_limits g) (go_usage g) = Inr u" "g' = g\<lparr>go_usage := u\<lparr>uc_contentBytes := uc_contentBytes u + n\<rparr>\<rparr>"
  using assms by (auto simp: Admit_def split: if_splits option.splits sum.splits)

lemma admit_kind_Inr:
  assumes "admit_kind kind b u = Inr u'"
  shows "kind = ''model'' \<and> uc_modelRequests u < bu_modelRequests b \<and> u' = u\<lparr>uc_modelRequests := uc_modelRequests u + 1\<rparr> \<or>
    kind = ''tool'' \<and> uc_toolAttempts u < bu_toolAttempts b \<and> u' = u\<lparr>uc_toolAttempts := uc_toolAttempts u + 1\<rparr> \<or>
    kind = ''content'' \<and> u' = u"
  using assms by (auto simp: admit_kind_def split: if_splits)

lemma stop_governor_simps [simp]:
  "go_stopped (stop_governor g)" "go_usage (stop_governor g) = go_usage g" "go_limits (stop_governor g) = go_limits g"
  "usage_ok (stop_governor g) = usage_ok g"
  by (simp_all add: stop_governor_def usage_ok_def)

lemma Admit_frame:
  assumes "Admit now ctx kind n g = (r, g')"
  shows "go_limits g' = go_limits g \<and> (usage_ok g \<longrightarrow> usage_ok g') \<and> (\<forall>e. r = Inl e \<longrightarrow> go_usage g' = go_usage g \<and> go_stopped g')"
  using assms
proof (cases rule: Admit_cases)
  case admitted
  then show ?thesis using admit_kind_Inr [OF admitted(7)] by (auto simp: usage_ok_def content_left_def Let_def)
qed auto

section \<open>Runs\<close>

datatype host_op =
    ORequest
  | OAccept string
  | OAdmit string
  | ODeliver string goval
  | OStop

datatype host_out =
    Requested string
  | Accepted nat turn
  | Admitted string
  | Delivered string nat
  | Refused string
  | Halted

definition host_step :: "int \<times> string option \<times> host_op \<Rightarrow> session \<Rightarrow> host_out \<times> session" where
  "host_step x s =
     (case x of (now, ctx, opn) \<Rightarrow>
        (case opn of
           ORequest \<Rightarrow> map_prod (case_sum Refused Requested) id (session_Request now ctx s)
         | OAccept raw \<Rightarrow> map_prod (case_sum Refused (Accepted (length raw))) id (session_Accept now ctx raw s)
         | OAdmit ref \<Rightarrow> map_prod (case_sum Refused (\<lambda>_. Admitted ref)) id (AdmitTool now ctx ref s)
         | ODeliver ref v \<Rightarrow>
             map_prod
              (case_sum Refused (\<lambda>_. Delivered ref (case goval_tree v of None \<Rightarrow> 0 | Some t \<Rightarrow> length (tree_text t)))) id
              (Deliver now ctx ref v s)
         | OStop \<Rightarrow> (Halted, session_Stop s)))"

fun host_run :: "(int \<times> string option \<times> host_op) list \<Rightarrow> session \<Rightarrow> host_out list \<times> session" where
  "host_run [] s = ([], s)"
| "host_run (x # xs) s = (let (out, s') = host_step x s; (outs, t) = host_run xs s' in (out # outs, t))"

text \<open>What a run has shown: requests, calls, tool attempts, deliveries and content bytes.\<close>

fun out_calls :: "host_out \<Rightarrow> string list" where
  "out_calls (Accepted n t) = map rc_reference (tn_calls t)"
| "out_calls _ = []"

fun out_admitted :: "host_out \<Rightarrow> string list" where
  "out_admitted (Admitted ref) = [ref]"
| "out_admitted _ = []"

fun out_delivered :: "host_out \<Rightarrow> string list" where
  "out_delivered (Delivered ref n) = [ref]"
| "out_delivered _ = []"

fun out_requests :: "host_out \<Rightarrow> nat" where
  "out_requests (Requested raw) = 1"
| "out_requests _ = 0"

fun out_bytes :: "host_out \<Rightarrow> nat" where
  "out_bytes (Accepted n t) = n"
| "out_bytes (Delivered ref n) = n"
| "out_bytes _ = 0"

section \<open>The invariant of a session and its trace\<close>

definition live_inv :: "session \<Rightarrow> bool" where
  "live_inv s \<longleftrightarrow>
     \<not> go_stopped (se_governor s) \<and> (se_waiting s \<longrightarrow> se_pending s = []) \<and> (se_admitted s \<longrightarrow> se_pending s \<noteq> []) \<and>
     set (map rc_reference (se_pending s)) \<subseteq> set (se_seen s)"

definition stopped_inv :: "session \<Rightarrow> bool" where
  "stopped_inv s \<longleftrightarrow>
     go_stopped (se_governor s) \<and> se_history s = [] \<and> se_pending s = [] \<and> se_seen s = [] \<and> \<not> se_waiting s"

definition session_inv :: "session \<Rightarrow> bool" where
  "session_inv s \<longleftrightarrow>
     go_limits (se_governor s) = se_budgets s \<and> usage_ok (se_governor s) \<and> (if se_stopped s then stopped_inv s else live_inv s)"

text \<open>How the state accounts for the calls, attempts and deliveries seen so far.\<close>

definition trace_inv :: "string list \<Rightarrow> string list \<Rightarrow> string list \<Rightarrow> session \<Rightarrow> bool" where
  "trace_inv calls admitted delivered s \<longleftrightarrow>
     distinct calls \<and> prefix admitted calls \<and> prefix delivered admitted \<and> length admitted \<le> length delivered + 1 \<and>
     (\<not> se_stopped s \<longrightarrow>
        set calls \<subseteq> set (se_seen s) \<and> calls = delivered @ map rc_reference (se_pending s) \<and>
        admitted = delivered @ (if se_admitted s then [rc_reference (hd (se_pending s))] else []))"

lemma session_Stop_simps [simp]:
  "se_stopped (session_Stop s)" "se_budgets (session_Stop s) = se_budgets s" "se_governor (session_Stop s) = stop_governor (se_governor s)"
  "stopped_inv (session_Stop s)"
  by (simp_all add: session_Stop_def stopped_inv_def)

lemma session_inv_Stop: "session_inv s \<Longrightarrow> session_inv (session_Stop s)"
  by (simp add: session_inv_def)

lemma trace_inv_Stop: "trace_inv c a d s \<Longrightarrow> trace_inv c a d (session_Stop s)"
  by (simp add: trace_inv_def)

section \<open>The steps\<close>

lemma Stop_after_refusal: "Admit now ctx kind n (se_governor s) = (Inl e, g) \<Longrightarrow> session_Stop (s\<lparr>se_governor := g\<rparr>) = session_Stop s"
  by (erule Admit_cases) (auto simp: session_Stop_def stop_governor_def)

text \<open>A successful admission, in the terms of the state it leaves.\<close>

definition admits :: "session \<Rightarrow> string \<Rightarrow> int \<Rightarrow> governor \<Rightarrow> bool" where
  "admits s kind n g \<longleftrightarrow> (\<exists>now ctx. Admit now ctx kind n (se_governor s) = (Inr (), g))"

lemma admitsI: "Admit now ctx kind n (se_governor s) = (Inr (), g) \<Longrightarrow> admits s kind n g"
  by (auto simp: admits_def)

lemma admits_simps:
  assumes "admits s kind n g" "session_inv s"
  shows "go_limits g = se_budgets s \<and> usage_ok g \<and> \<not> go_stopped g \<and> \<not> se_stopped s \<and> live_inv s"
proof -
  obtain now ctx where a: "Admit now ctx kind n (se_governor s) = (Inr (), g)" using assms(1) by (auto simp: admits_def)
  from a have "\<not> go_stopped (se_governor s) \<and> \<not> go_stopped g" by (cases rule: Admit_cases) auto
  then show ?thesis using assms(2) Admit_frame [OF a] by (auto simp: session_inv_def stopped_inv_def split: if_splits)
qed

lemma Request_cases:
  assumes "session_Request now ctx s = (r, s')"
  obtains (same) e where "r = Inl e" "s' = s" "se_stopped s \<or> se_waiting s \<or> se_pending s \<noteq> []"
  | (failed) e where "r = Inl e" "s' = session_Stop s"
  | (requested) raw g where "r = Inr raw" "\<not> se_waiting s" "se_pending s = []" "admits s ''model'' 0 g"
      "s' = s\<lparr>se_governor := g, se_waiting := True\<rparr>" "raw = request_text s" "\<not> ContainsSensitive raw"
proof (cases "se_stopped s \<or> se_waiting s \<or> se_pending s \<noteq> []")
  case True
  then show ?thesis using assms same by (auto simp: session_Request_def)
next
  case False
  note idle = False
  show ?thesis
  proof (cases "int (length (request_text s)) > bu_traceBytes (se_budgets s) \<or> ContainsSensitive (request_text s)")
    case True
    then show ?thesis using assms idle failed by (auto simp: session_Request_def Let_def)
  next
    case False
    obtain q g where g: "Admit now ctx ''model'' 0 (se_governor s) = (q, g)" by force
    have s': "(r, s') = (case q of Inl e \<Rightarrow> (Inl e, session_Stop (s\<lparr>se_governor := g\<rparr>))
        | Inr _ \<Rightarrow> (Inr (request_text s), s\<lparr>se_governor := g, se_waiting := True\<rparr>))"
      using assms idle False g by (simp add: session_Request_def Let_def split: sum.split)
    show ?thesis
    proof (cases q)
      case (Inl e)
      then show ?thesis using s' failed Stop_after_refusal g by auto
    next
      case (Inr u)
      then show ?thesis using s' requested [of "request_text s" g] admitsI g idle False by simp
    qed
  qed
qed

lemma Accept_cases:
  assumes "session_Accept now ctx raw s = (r, s')"
  obtains (failed) e where "r = Inl e" "s' = session_Stop s"
  | (accepted) h n t g where "r = Inr t" "check_response s raw = Inr (h, n, t)" "admits s ''content'' (int (length raw)) g"
      "s' = (if tn_final t then session_Stop else id)
         (s\<lparr>se_governor := g, se_seen := se_seen s @ sn_batch n, se_history := se_history s @ rh_output h,
            se_pending := tn_calls t, se_waiting := False\<rparr>)"
proof (cases "check_response s raw")
  case (Inl e)
  then show ?thesis using assms failed by (auto simp: session_Accept_def)
next
  case (Inr x)
  obtain h n t where x: "x = (h, n, t)" by (cases x) auto
  obtain q g where g: "Admit now ctx ''content'' (int (length raw)) (se_governor s) = (q, g)" by force
  show ?thesis
  proof (cases q)
    case (Inl e)
    then show ?thesis using assms Inr x g failed Stop_after_refusal by (auto simp: session_Accept_def)
  next
    case q: (Inr u)
    show ?thesis
      by (rule accepted [of t h n g]) (use assms Inr x g q admitsI in \<open>auto simp: session_Accept_def Let_def\<close>)
  qed
qed

lemma AdmitTool_cases:
  assumes "AdmitTool now ctx ref s = (r, s')"
  obtains (same) e where "r = Inl e" "s' = s" "se_stopped s \<or> se_admitted s \<or> \<not> head_is ref s"
  | (failed) e where "r = Inl e" "s' = session_Stop s"
  | (admitted) g where "r = Inr ()" "head_is ref s" "\<not> se_admitted s" "admits s ''tool'' 0 g"
      "s' = s\<lparr>se_governor := g, se_admitted := True\<rparr>"
proof (cases "se_stopped s \<or> se_admitted s \<or> \<not> head_is ref s")
  case True
  then show ?thesis using assms same by (auto simp: AdmitTool_def)
next
  case False
  obtain q g where g: "Admit now ctx ''tool'' 0 (se_governor s) = (q, g)" by force
  show ?thesis
  proof (cases q)
    case (Inl e)
    then show ?thesis using assms False g failed Stop_after_refusal by (auto simp: AdmitTool_def)
  next
    case (Inr u)
    show ?thesis by (rule admitted [of g]) (use assms False g Inr admitsI in \<open>simp_all add: AdmitTool_def\<close>)
  qed
qed

lemma Deliver_cases:
  assumes "Deliver now ctx ref v s = (r, s')"
  obtains (same) e where "r = Inl e" "s' = s" "se_stopped s \<or> \<not> se_admitted s \<or> \<not> head_is ref s"
  | (failed) e where "r = Inl e" "s' = session_Stop s"
  | (delivered) t g where "r = Inr ()" "head_is ref s" "se_admitted s" "goval_tree v = Some t"
      "admits s ''content'' (int (length (tree_text t))) g"
      "s' = s\<lparr>se_governor := g, se_history := se_history s @ [call_output ref (tree_text t)], se_pending := tl (se_pending s),
               se_admitted := False\<rparr>"
proof (cases "se_stopped s \<or> \<not> se_admitted s \<or> \<not> head_is ref s")
  case True
  then show ?thesis using assms same by (auto simp: Deliver_def)
next
  case False
  show ?thesis
  proof (cases "goval_tree v")
    case None
    then show ?thesis using assms False failed by (auto simp: Deliver_def)
  next
    case (Some t)
    show ?thesis
    proof (cases "int (length (tree_text t)) > bu_responseBytes (se_budgets s) \<or> ContainsSensitive (tree_text t)")
      case True
      then show ?thesis using assms False Some failed by (auto simp: Deliver_def split: if_splits)
    next
      case small: False
      obtain q g where g: "Admit now ctx ''content'' (int (length (tree_text t))) (se_governor s) = (q, g)" by force
      show ?thesis
      proof (cases q)
        case (Inl e)
        then show ?thesis using assms False Some small g failed Stop_after_refusal by (auto simp: Deliver_def)
      next
        case (Inr u)
        show ?thesis
          by (rule delivered [of t g]) (use assms False Some small g Inr admitsI in \<open>simp_all add: Deliver_def\<close>)
      qed
    qed
  qed
qed

text \<open>The calls of a scanned response carry the identities of its batch, all of them new.\<close>

definition scanned_ok :: "string list \<Rightarrow> scanned \<Rightarrow> bool" where
  "scanned_ok seen n \<longleftrightarrow>
     map rc_reference (sn_calls n) = rev (sn_batch n) \<and> distinct (sn_batch n) \<and> set (sn_batch n) \<inter> set seen = {} \<and>
     (\<forall>c \<in> set (sn_calls n). privateID (rc_reference c) \<and> functionName (rc_tool c))"

lemma accept_call_ok: "accept_call limit seen d n = Inr n' \<Longrightarrow> scanned_ok seen n \<Longrightarrow> scanned_ok seen n'"
  unfolding accept_call_def bindE_eq_Inr guard_Inr
  by (elim exE conjE) (auto simp: scanned_ok_def bindE_eq_Inr)

lemma accept_item_ok:
  assumes "accept_item limit seen item n = Inr n'" "scanned_ok seen n"
  shows "scanned_ok seen n'"
proof -
  have texts: "scanned_ok seen (n\<lparr>sn_texts := ts\<rparr>)" for ts using assms(2) by (simp add: scanned_ok_def)
  have "accept_message d n = Inr n' \<Longrightarrow> scanned_ok seen n'" for d
    using texts by (auto simp: accept_message_def split: if_splits)
  then show ?thesis using assms accept_call_ok by (auto simp: accept_item_def split: if_splits)
qed

lemma accept_items_ok: "accept_items limit seen items n = Inr n' \<Longrightarrow> scanned_ok seen n \<Longrightarrow> scanned_ok seen n'"
  by (induction items arbitrary: n) (auto dest: accept_item_ok)

lemma check_response_ok:
  assumes "check_response s raw = Inr (h, n, t)"
  shows "scanned_ok (se_seen s) n \<and> tn_calls t = sn_calls n \<and> se_waiting s \<and> \<not> se_stopped s \<and> (tn_final t \<longleftrightarrow> tn_calls t = []) \<and>
    int (length (tn_calls t)) \<le> bu_toolAttempts (se_budgets s) \<and> int (length raw) \<le> bu_responseBytes (se_budgets s)"
proof -
  have start: "scanned_ok seen \<lparr>sn_batch = [], sn_calls = [], sn_texts = []\<rparr>" for seen by (simp add: scanned_ok_def)
  show ?thesis using assms
    unfolding check_response_def Let_def guard_Inr bindE_eq_Inr
    by (auto simp: not_less split: if_splits dest: accept_items_ok [OF _ start])
qed

section \<open>One step keeps the invariant\<close>

lemma admits_count:
  assumes "admits s kind n g"
  shows "(kind = ''model'' \<longrightarrow> go_usage g = (go_usage (se_governor s))
            \<lparr>uc_modelRequests := uc_modelRequests (go_usage (se_governor s)) + 1,
             uc_contentBytes := uc_contentBytes (go_usage (se_governor s)) + n\<rparr>) \<and>
    (kind = ''tool'' \<longrightarrow> go_usage g = (go_usage (se_governor s))
            \<lparr>uc_toolAttempts := uc_toolAttempts (go_usage (se_governor s)) + 1,
             uc_contentBytes := uc_contentBytes (go_usage (se_governor s)) + n\<rparr>) \<and>
    (kind = ''content'' \<longrightarrow> go_usage g = (go_usage (se_governor s))
            \<lparr>uc_contentBytes := uc_contentBytes (go_usage (se_governor s)) + n\<rparr>)"
proof -
  obtain now ctx where "Admit now ctx kind n (se_governor s) = (Inr (), g)" using assms by (auto simp: admits_def)
  then show ?thesis
  proof (cases rule: Admit_cases)
    case (admitted u)
    then show ?thesis using admit_kind_Inr [OF admitted(7)] by auto
  qed simp
qed

text \<open>What a step adds to the counters and to the lists of a trace.\<close>

definition step_account :: "host_out \<Rightarrow> session \<Rightarrow> session \<Rightarrow> bool" where
  "step_account out s s' \<longleftrightarrow>
     (let u = go_usage (se_governor s); u' = go_usage (se_governor s')
      in uc_modelRequests u' = uc_modelRequests u + int (out_requests out) \<and>
         uc_toolAttempts u' = uc_toolAttempts u + int (length (out_admitted out)) \<and>
         uc_contentBytes u' = uc_contentBytes u + int (out_bytes out))"

definition step_ok :: "host_out \<Rightarrow> session \<Rightarrow> session \<Rightarrow> bool" where
  "step_ok out s s' \<longleftrightarrow>
     se_budgets s' = se_budgets s \<and> session_inv s' \<and> step_account out s s' \<and>
     (\<forall>c a d. trace_inv c a d s \<longrightarrow> trace_inv (c @ out_calls out) (a @ out_admitted out) (d @ out_delivered out) s')"

lemma step_ok_same: "session_inv s \<Longrightarrow> step_ok (Refused e) s s"
  by (simp add: step_ok_def step_account_def Let_def)

lemma step_ok_Stop: "session_inv s \<Longrightarrow> out = Refused e \<or> out = Halted \<Longrightarrow> step_ok out s (session_Stop s)"
  by (auto simp: step_ok_def step_account_def Let_def session_inv_Stop trace_inv_Stop)

lemma request_step:
  assumes "session_inv s" "admits s ''model'' 0 g" "se_pending s = []" "s' = s\<lparr>se_governor := g, se_waiting := True\<rparr>"
  shows "step_ok (Requested raw) s s'"
  using admits_simps [OF assms(2,1)] admits_count [OF assms(2)] assms(1,3,4)
  by (simp add: step_ok_def step_account_def Let_def session_inv_def live_inv_def trace_inv_def)

lemma admit_step:
  assumes "session_inv s" "admits s ''tool'' 0 g" "head_is ref s" "\<not> se_admitted s" "s' = s\<lparr>se_governor := g, se_admitted := True\<rparr>"
  shows "step_ok (Admitted ref) s s'"
proof -
  obtain c cs where p: "se_pending s = c # cs" "rc_reference c = ref" using assms(3) by (auto simp: head_is_def split: list.splits)
  show ?thesis
    using admits_simps [OF assms(2,1)] admits_count [OF assms(2)] assms(1,4,5) p
    by (auto simp: step_ok_def step_account_def Let_def session_inv_def live_inv_def trace_inv_def)
qed

lemma deliver_step:
  assumes "session_inv s" "admits s ''content'' (int n) g" "head_is ref s" "se_admitted s"
    "s' = s\<lparr>se_governor := g, se_history := h, se_pending := tl (se_pending s), se_admitted := False\<rparr>"
  shows "step_ok (Delivered ref n) s s'"
proof -
  obtain c cs where p: "se_pending s = c # cs" "rc_reference c = ref" using assms(3) by (auto simp: head_is_def split: list.splits)
  show ?thesis
    using admits_simps [OF assms(2,1)] admits_count [OF assms(2)] assms(1,4,5) p
    by (auto simp: step_ok_def step_account_def Let_def session_inv_def live_inv_def trace_inv_def)
qed

lemma accept_step:
  assumes "session_inv s" "admits s ''content'' (int (length raw)) g" "check_response s raw = Inr (h, n, t)"
    "s1 = s\<lparr>se_governor := g, se_seen := se_seen s @ sn_batch n, se_history := hs, se_pending := tn_calls t, se_waiting := False\<rparr>"
  shows "step_ok (Accepted (length raw) t) s (if tn_final t then session_Stop s1 else s1)"
proof -
  note ok = check_response_ok [OF assms(3)] and a = admits_simps [OF assms(2,1)] and count = admits_count [OF assms(2)]
  have pending: "se_pending s = []" "\<not> se_admitted s" using ok a by (auto simp: live_inv_def)
  have calls: "map rc_reference (tn_calls t) = rev (sn_batch n)" "distinct (sn_batch n)" "set (sn_batch n) \<inter> set (se_seen s) = {}"
    using ok by (auto simp: scanned_ok_def)
  have inv: "session_inv s1" using a assms(1,4) pending calls by (simp add: session_inv_def live_inv_def)
  have account: "step_account (Accepted (length raw) t) s s1" using count assms(4) by (simp add: step_account_def Let_def)
  have refs: "set (map rc_reference (tn_calls t)) = set (sn_batch n)" "distinct (map rc_reference (tn_calls t))"
    using calls by simp_all
  have trace: "trace_inv (c @ map rc_reference (tn_calls t)) a' d s1" if "trace_inv c a' d s" for c a' d
    using that a assms(4) pending calls refs by (auto simp: trace_inv_def live_inv_def prefix_append)
  show ?thesis
    using inv account trace assms(4)
    by (auto simp: step_ok_def session_inv_Stop trace_inv_Stop) (simp_all add: step_account_def)
qed

theorem host_step_ok:
  assumes "session_inv s" "host_step x s = (out, s')"
  shows "step_ok out s s'"
proof -
  obtain now ctx opn where x: "x = (now, ctx, opn)" by (cases x) auto
  show ?thesis
  proof (cases opn)
    case ORequest
    obtain r where r: "session_Request now ctx s = (r, s')" "out = case_sum Refused Requested r"
      using assms(2) x ORequest by (cases "session_Request now ctx s") (auto simp: host_step_def)
    from r(1) show ?thesis
      by (cases rule: Request_cases) (use assms(1) r(2) in \<open>auto intro: step_ok_same step_ok_Stop request_step\<close>)
  next
    case (OAccept raw)
    obtain r where r: "session_Accept now ctx raw s = (r, s')" "out = case_sum Refused (Accepted (length raw)) r"
      using assms(2) x OAccept by (cases "session_Accept now ctx raw s") (auto simp: host_step_def)
    from r(1) show ?thesis
    proof (cases rule: Accept_cases)
      case (accepted h n t g)
      then show ?thesis using accept_step [OF assms(1) accepted(3,2) refl] r(2) by (simp split: if_splits)
    qed (use assms(1) r(2) in \<open>auto intro: step_ok_Stop\<close>)
  next
    case (OAdmit ref)
    obtain r where r: "AdmitTool now ctx ref s = (r, s')" "out = case_sum Refused (\<lambda>_. Admitted ref) r"
      using assms(2) x OAdmit by (cases "AdmitTool now ctx ref s") (auto simp: host_step_def)
    from r(1) show ?thesis
      by (cases rule: AdmitTool_cases) (use assms(1) r(2) in \<open>auto intro: step_ok_same step_ok_Stop admit_step\<close>)
  next
    case (ODeliver ref v)
    obtain r where r: "Deliver now ctx ref v s = (r, s')"
      "out = case_sum Refused (\<lambda>_. Delivered ref (case goval_tree v of None \<Rightarrow> 0 | Some t \<Rightarrow> length (tree_text t))) r"
      using assms(2) x ODeliver by (cases "Deliver now ctx ref v s") (auto simp: host_step_def)
    from r(1) show ?thesis
      by (cases rule: Deliver_cases) (use assms(1) r(2) in \<open>auto intro: step_ok_same step_ok_Stop deliver_step\<close>)
  next
    case OStop
    then show ?thesis using assms x by (auto simp: host_step_def intro: step_ok_Stop)
  qed
qed

section \<open>Runs keep the invariant\<close>

theorem host_run_ok:
  assumes "host_run xs s = (outs, s')" "session_inv s" "trace_inv c a d s"
  shows "session_inv s' \<and> se_budgets s' = se_budgets s \<and>
    trace_inv (c @ concat (map out_calls outs)) (a @ concat (map out_admitted outs)) (d @ concat (map out_delivered outs)) s' \<and>
    uc_modelRequests (go_usage (se_governor s')) = uc_modelRequests (go_usage (se_governor s)) + int (sum_list (map out_requests outs)) \<and>
    uc_toolAttempts (go_usage (se_governor s')) =
      uc_toolAttempts (go_usage (se_governor s)) + int (length (concat (map out_admitted outs))) \<and>
    uc_contentBytes (go_usage (se_governor s')) = uc_contentBytes (go_usage (se_governor s)) + int (sum_list (map out_bytes outs))"
  using assms
proof (induction xs arbitrary: s c a d outs)
  case (Cons x xs)
  obtain out t where t: "host_step x s = (out, t)" by force
  obtain rest where rest: "host_run xs t = (rest, s')" "outs = out # rest" using Cons.prems(1) t by (auto split: prod.splits)
  have ok: "step_ok out s t" using host_step_ok [OF Cons.prems(2) t] .
  then have "session_inv t" "trace_inv (c @ out_calls out) (a @ out_admitted out) (d @ out_delivered out) t"
    using Cons.prems(3) by (auto simp: step_ok_def)
  from Cons.IH [OF rest(1) this] ok show ?case by (auto simp: rest(2) step_ok_def step_account_def Let_def)
qed simp

lemma Budgets_positive:
  assumes "Budgets_Validate b = Inr ()"
  shows "1 \<le> bu_modelRequests b \<and> 1 \<le> bu_toolAttempts b \<and> 65536 \<le> bu_traceBytes b"
  using assms by (auto simp: Budgets_Validate_def budget_bounds_def split: if_splits)

lemma newSession_inv:
  assumes "newSession now model n t listed = Inr s"
  shows "session_inv s \<and> trace_inv [] [] [] s \<and> go_usage (se_governor s) = no_usage_count \<and> se_budgets s = tk_budgets t \<and>
    \<not> se_stopped s \<and> \<not> se_waiting s \<and> \<not> se_admitted s \<and> Budgets_Validate (tk_budgets t) = Inr ()"
proof -
  obtain tools user g where *: "user_content t = Some user" "NewGovernor now (tk_budgets t) = Inr g"
    "s = \<lparr>se_model = model, se_maxTokens = n, se_budgets = tk_budgets t, se_tools = tools, se_history = [user_message user],
       se_pending = [], se_seen = [], se_waiting = False, se_admitted = False, se_stopped = False, se_governor = g\<rparr>"
    using assms unfolding newSession_def bindE_eq_Inr guard_Inr by (auto split: option.splits)
  have b: "Budgets_Validate (tk_budgets t) = Inr ()" and
    g: "g = \<lparr>go_limits = tk_budgets t, go_usage = no_usage_count, go_stopped = False, go_deadline = now + bu_episodeSeconds (tk_budgets t) * 1000000000\<rparr>"
    using *(2) by (auto simp: NewGovernor_def bindE_eq_Inr)
  show ?thesis using Budgets_positive [OF b] b
    by (simp add: * g session_inv_def live_inv_def usage_ok_def trace_inv_def no_usage_count_def)
qed

section \<open>A stopped session\<close>

lemma session_Stop_stopped: "session_inv s \<Longrightarrow> se_stopped s \<Longrightarrow> session_Stop s = s"
  by (simp add: session_inv_def stopped_inv_def session_Stop_def stop_governor_def)

lemma stopped_step:
  assumes "session_inv s" "se_stopped s" "host_step x s = (out, s')"
  shows "s' = s \<and> (out = Halted \<or> out = Refused protocol_error)"
proof -
  obtain now ctx opn where x: "x = (now, ctx, opn)" by (cases x) auto
  show ?thesis
    using assms x session_Stop_stopped [OF assms(1,2)]
    by (cases opn)
      (auto simp: host_step_def session_Request_def session_Accept_def check_response_def Let_def AdmitTool_def Deliver_def)
qed

lemma stopped_run: "session_inv s \<Longrightarrow> se_stopped s \<Longrightarrow> snd (host_run xs s) = s"
proof (induction xs)
  case (Cons x xs)
  obtain out t where t: "host_step x s = (out, t)" by force
  have "t = s" using stopped_step [OF Cons.prems t] by simp
  then show ?case using Cons t by (cases "host_run xs s") simp
qed simp

section \<open>A run that always does what comes next\<close>

text \<open>The operation the protocol allows, given the next response and the next tool result.\<close>

definition next_op :: "string \<Rightarrow> goval \<Rightarrow> session \<Rightarrow> host_op" where
  "next_op raw v s =
     (if se_waiting s then OAccept raw
      else case se_pending s of
        [] \<Rightarrow> ORequest
      | c # _ \<Rightarrow> if se_admitted s then ODeliver (rc_reference c) v else OAdmit (rc_reference c))"

fun drive :: "(int \<times> string option \<times> string \<times> goval) list \<Rightarrow> session \<Rightarrow> session" where
  "drive [] s = s"
| "drive ((now, ctx, raw, v) # xs) s = drive xs (snd (host_step (now, ctx, next_op raw v s) s))"

definition steps_left :: "session \<Rightarrow> int" where
  "steps_left s =
     (if se_stopped s then 0
      else let u = go_usage (se_governor s); b = se_budgets s
        in 1 + 2 * (bu_modelRequests b - uc_modelRequests u) + 2 * (bu_toolAttempts b - uc_toolAttempts u) +
           (if se_waiting s then 1 else 0) + (if se_admitted s then 1 else 0))"

lemma steps_left_nonneg: "session_inv s \<Longrightarrow> 0 \<le> steps_left s \<and> (steps_left s = 0 \<longrightarrow> se_stopped s)"
  by (auto simp: session_inv_def usage_ok_def steps_left_def Let_def)

lemma steps_left_Stop [simp]: "steps_left (session_Stop s) = 0"
  by (simp add: steps_left_def)

lemma snd_map_prod_eq: "map_prod f id p = (out, s') \<Longrightarrow> snd p = s'"
  by (cases p) simp

lemma drive_step:
  assumes "session_inv s" "\<not> se_stopped s" "host_step (now, ctx, next_op raw v s) s = (out, s')"
  shows "session_inv s' \<and> (se_stopped s' \<or> steps_left s' = steps_left s - 1)"
proof -
  have inv: "session_inv s'" using host_step_ok [OF assms(1,3)] by (simp add: step_ok_def)
  have live: "live_inv s" using assms(1,2) by (simp add: session_inv_def)
  have "se_stopped s' \<or> steps_left s' = steps_left s - 1"
  proof (cases "se_waiting s")
    case True
    then have "s' = snd (session_Accept now ctx raw s)" using assms(3) by (auto simp: host_step_def next_op_def dest!: snd_map_prod_eq)
    then obtain r where "session_Accept now ctx raw s = (r, s')" by (cases "session_Accept now ctx raw s") simp
    then show ?thesis
    proof (cases rule: Accept_cases)
      case (accepted h n t g)
      then show ?thesis using True assms(2) admits_count [OF accepted(3)] by (auto simp: steps_left_def Let_def)
    qed simp
  next
    case waiting: False
    show ?thesis
    proof (cases "se_pending s")
      case Nil
      then have "s' = snd (session_Request now ctx s)" using assms(3) waiting by (auto simp: host_step_def next_op_def dest!: snd_map_prod_eq)
      then obtain r where "session_Request now ctx s = (r, s')" by (cases "session_Request now ctx s") simp
      then show ?thesis
      proof (cases rule: Request_cases)
        case (requested raw g)
        then show ?thesis using waiting assms(2) admits_count [OF requested(4)] by (auto simp: steps_left_def Let_def)
      qed (use Nil waiting assms(2) in auto)
    next
      case (Cons c cs)
      show ?thesis
      proof (cases "se_admitted s")
        case True
        then have "s' = snd (Deliver now ctx (rc_reference c) v s)" using assms(3) waiting Cons by (auto simp: host_step_def next_op_def dest!: snd_map_prod_eq)
        then obtain r where "Deliver now ctx (rc_reference c) v s = (r, s')" by (cases "Deliver now ctx (rc_reference c) v s") simp
        then show ?thesis
        proof (cases rule: Deliver_cases)
          case (delivered t g)
          then show ?thesis using True waiting assms(2) admits_count [OF delivered(5)] by (auto simp: steps_left_def Let_def)
        qed (use True Cons assms(2) in \<open>auto simp: head_is_def\<close>)
      next
        case False
        then have "s' = snd (AdmitTool now ctx (rc_reference c) s)" using assms(3) waiting Cons by (auto simp: host_step_def next_op_def dest!: snd_map_prod_eq)
        then obtain r where "AdmitTool now ctx (rc_reference c) s = (r, s')" by (cases "AdmitTool now ctx (rc_reference c) s") simp
        then show ?thesis
        proof (cases rule: AdmitTool_cases)
          case (admitted g)
          then show ?thesis using False waiting assms(2) admits_count [OF admitted(4)] by (auto simp: steps_left_def Let_def)
        qed (use False Cons assms(2) in \<open>auto simp: head_is_def\<close>)
      qed
    qed
  qed
  with inv show ?thesis by blast
qed

theorem drive_stops: "session_inv s \<Longrightarrow> steps_left s \<le> int (length xs) \<Longrightarrow> se_stopped (drive xs s)"
proof (induction xs arbitrary: s)
  case Nil
  then show ?case using steps_left_nonneg [of s] by simp
next
  case (Cons x xs)
  obtain now ctx raw v where x: "x = (now, ctx, raw, v)" by (cases x) auto
  obtain out t where t: "host_step (now, ctx, next_op raw v s) s = (out, t)" by force
  have "session_inv t" using host_step_ok [OF Cons.prems(1) t] by (simp add: step_ok_def)
  moreover have "steps_left t \<le> int (length xs)"
  proof (cases "se_stopped s")
    case True
    then have "t = s" using stopped_step [OF Cons.prems(1) True t] by simp
    then show ?thesis using True by (simp add: steps_left_def)
  next
    case False
    then have "se_stopped t \<or> steps_left t = steps_left s - 1" using drive_step [OF Cons.prems(1) _ t] by blast
    then show ?thesis using Cons.prems(2) by (auto simp: steps_left_def)
  qed
  ultimately show ?case using Cons.IH t by (simp add: x)
qed

end
