(* ===== verification/Host_Props.thy ===== *)
theory Host_Props
  imports Host_Facts Agent_Props
begin

text \<open>
  The properties of the agent host: the budgets of a session, the order of its calls, its end, the
  type of what it hands out, and the admission of text that may carry credentials.
\<close>

section \<open>The type of a turn\<close>

text \<open>The Go values a tool input may hold: int64 numbers in range, finite floats, sorted maps.\<close>

fun host_typed :: "goval \<Rightarrow> bool" where
  "host_typed (GInt n) = False"
| "host_typed (GUint64 n) = False"
| "host_typed (GInt64 n) = (- 9223372036854775808 \<le> n \<and> n \<le> 9223372036854775807)"
| "host_typed (GFloat x) = (\<exists>q. x = Finite q)"
| "host_typed (GList xs) = (\<forall>x \<in> set xs. host_typed x)"
| "host_typed (GMap m) = (wf_map m \<and> (\<forall>kv \<in> set m. host_typed (snd kv)))"
| "host_typed _ = True"

lemma number_goval_typed: "number_goval s = Inr v \<Longrightarrow> host_typed v"
  by (auto simp: number_goval_def number_int_def Let_def split: option.splits float64.splits if_splits)

lemma host_numbers_typed:
  "host_numbers d = Inr v \<Longrightarrow> host_typed v"
  "host_numbers_list ds = Inr vs \<Longrightarrow> \<forall>v \<in> set vs. host_typed v"
  "host_numbers_members ms = Inr kvs \<Longrightarrow> \<forall>kv \<in> set kvs. host_typed (snd kv)"
proof (induction d and ds and ms arbitrary: v and vs and kvs rule: host_numbers_host_numbers_list_host_numbers_members.induct)
  case (5 xs)
  then show ?case by (cases "host_numbers_list xs") auto
next
  case (6 ms)
  then show ?case by (cases "host_numbers_members ms") (fastforce dest: set_to_gomap)+
next
  case (8 x xs)
  then show ?case by (cases "host_numbers x"; cases "host_numbers_list xs") auto
next
  case (10 m ms)
  obtain b ba where h: "host_numbers (snd m) = Inr b" "host_numbers_members ms = Inr ba" "kvs = (fst m, b) # ba"
    using 10(3) by (cases "host_numbers (snd m)"; cases "host_numbers_members ms") auto
  show ?case using 10(1) [OF h(1)] 10(2) [OF h(1,2)] h(3) by simp
qed (auto simp: number_goval_typed)

definition typed_call :: "requested_call \<Rightarrow> bool" where
  "typed_call c \<longleftrightarrow>
     privateID (rc_reference c) \<and> functionName (rc_tool c) \<and> host_typed (GMap (rc_input c))"

definition typed_turn :: "session \<Rightarrow> turn \<Rightarrow> bool" where
  "typed_turn s t \<longleftrightarrow>
     list_all typed_call (tn_calls t) \<and> distinct (map rc_reference (tn_calls t)) \<and>
     int (length (tn_calls t)) \<le> bu_toolAttempts (se_budgets s) \<and> tn_final t = (tn_calls t = []) \<and> host_typed (tn_answer t)"

lemma call_input_typed: "call_input limit arguments = Inr m \<Longrightarrow> host_typed (GMap m)"
  using host_numbers_typed(3)
  by (fastforce simp: call_input_def bindE_eq_Inr split: sum.splits jdoc.splits dest: set_to_gomap)

lemma accept_call_typed:
  assumes "accept_call limit seen d n = Inr n'" "list_all typed_call (sn_calls n)"
  shows "list_all typed_call (sn_calls n')"
  using assms unfolding accept_call_def bindE_eq_Inr guard_Inr
  by (elim exE conjE) (auto simp: bindE_eq_Inr typed_call_def simp del: host_typed.simps dest: call_input_typed)

lemma accept_item_typed:
  assumes "accept_item limit seen item n = Inr n'" "list_all typed_call (sn_calls n)"
  shows "list_all typed_call (sn_calls n')"
proof -
  have "accept_message d n = Inr n' \<Longrightarrow> sn_calls n' = sn_calls n" for d
    by (auto simp: accept_message_def split: if_splits)
  then show ?thesis using assms accept_call_typed by (auto simp: accept_item_def split: if_splits)
qed

lemma accept_items_typed:
  "accept_items limit seen items n = Inr n' \<Longrightarrow> list_all typed_call (sn_calls n) \<Longrightarrow> list_all typed_call (sn_calls n')"
  by (induction items arbitrary: n) (auto dest: accept_item_typed)

lemma final_answer_typed: "final_answer limit texts = Inr v \<Longrightarrow> host_typed v"
  by (auto simp: final_answer_def Let_def split: if_splits dest: host_numbers_typed(1))

lemma check_response_typed:
  assumes "check_response s raw = Inr (h, n, t)"
  shows "typed_turn s t"
proof -
  note ok = check_response_ok [OF assms]
  have refs: "distinct (map rc_reference (tn_calls t))" using ok by (simp add: scanned_ok_def)
  have "list_all typed_call (tn_calls t) \<and> host_typed (tn_answer t)"
    using assms unfolding check_response_def Let_def guard_Inr bindE_eq_Inr
    by (auto split: if_splits dest: accept_items_typed final_answer_typed)
  moreover have "int (length (tn_calls t)) \<le> bu_toolAttempts (se_budgets s)" "tn_final t = (tn_calls t = [])" using ok by blast+
  ultimately show ?thesis using refs by (simp only: typed_turn_def simp_thms)
qed

text \<open>C25 A response is taken as a whole or not at all: an accepted one yields a turn whose calls have
  well-formed and distinct identities, at most as many as the tool budget, with inputs and answers
  made of exact int64 numbers, finite floats and maps; any refused one stops the session for good
  and clears what it held.
\<close>
theorem accepted_turn_is_typed:
  "case session_Accept now ctx raw s of
     (Inr t, s') \<Rightarrow> typed_turn s t \<and> se_pending s' = tn_calls t
   | (Inl e, s') \<Rightarrow> se_stopped s' \<and> stopped_inv s'"
proof -
  obtain r s' where r: "session_Accept now ctx raw s = (r, s')" by force
  then show ?thesis
  proof (cases rule: Accept_cases)
    case (accepted h n t g)
    have "se_pending s' = tn_calls t" using accepted(4) check_response_ok [OF accepted(2)] by (auto simp: session_Stop_def)
    then show ?thesis using r accepted check_response_typed by simp
  qed (use r in simp)
qed

section \<open>An example session\<close>

definition ex_host_task :: agent_task where
  "ex_host_task = ex_task\<lparr>tk_budgets := (tk_budgets ex_task)\<lparr>bu_traceBytes := 131072\<rparr>\<rparr>"

definition ex_schema :: jdoc where "ex_schema = DObj [(''type'', DStr ''object'')]"

definition ex_listed :: "listed_tool option list" where
  "ex_listed = [Some \<lparr>li_name = ''tool'', li_description = ''d'', li_schema = Some (doc_text ex_schema)\<rparr>]"

definition ex_session :: session where
  "ex_session =
     \<lparr>se_model = ''mock-a'', se_maxTokens = 100, se_budgets = tk_budgets ex_host_task,
      se_tools = [\<lparr>fn_type = ''function'', fn_name = ''tool'', fn_description = ''d'', fn_parameters = ex_schema, fn_strict = False\<rparr>],
      se_history = [user_message (the (user_content ex_host_task))], se_pending = [], se_seen = [], se_waiting = False,
      se_admitted = False, se_stopped = False,
      se_governor = \<lparr>go_limits = tk_budgets ex_host_task, go_usage = no_usage_count, go_stopped = False, go_deadline = 9000000000\<rparr>\<rparr>"

lemma ex_host_task_size:
  "case task_tree ex_host_task of None \<Rightarrow> False | Some tree \<Rightarrow> length (tree_text tree) \<le> 1000 \<and> tree_depth tree \<le> 10 \<and> tree_members tree \<le> 100"
  by code_simp

lemma ex_host_task_valid: "Task_Validate (Some ex_host_task) = Inr ()"
proof -
  have "case task_tree ex_host_task of None \<Rightarrow> False | Some tree \<Rightarrow> tree_ok tree MaxTaskBytes"
    using ex_host_task_size by (auto simp: tree_ok_def MaxTaskBytes_def split: option.splits)
  then obtain tree where tree: "task_tree ex_host_task = Some tree" "tree_ok tree MaxTaskBytes" by (auto split: option.splits)
  show ?thesis
    by (simp only: Task_Validate_def option.case tree)
      (simp add: ex_host_task_def ex_task_def ex_task_ids Budgets_Validate_def budget_bounds_def MaxTaskAssertions_def tree)
qed

lemma ex_schema_ok: "doc_ok ex_schema" "checkValue ex_schema 0" "length (doc_text ex_schema) = 17" "utf8_Valid (doc_text ex_schema)"
  by code_simp+

lemma ex_new: "newSession 0 ''mock-a'' 100 ex_host_task ex_listed = Inr ex_session"
proof -
  have b: "tk_budgets ex_host_task = \<lparr>bu_modelRequests = 2, bu_toolAttempts = 2, bu_requestSeconds = 1, bu_episodeSeconds = 9,
      bu_cleanupSeconds = 1, bu_responseBytes = 1024, bu_traceBytes = 131072\<rparr>"
    by (simp add: ex_host_task_def ex_task_def)
  have "decodeJSON (doc_text ex_schema) 1024 = Inr ex_schema"
    using ex_schema_ok by (intro decodeJSON_text) (simp_all add: ex_schema_def maxNestingDepth_def)
  then have "function_schema (tk_budgets ex_host_task) (Some (doc_text ex_schema)) = Some ex_schema"
    using ex_schema_ok(3) by (simp add: function_schema_def b) (simp add: ex_schema_def)
  moreover have "functionName ''tool''" by code_simp
  ultimately have tools: "session_tools (tk_budgets ex_host_task) ex_listed [''tool''] =
      Inr [\<lparr>fn_type = ''function'', fn_name = ''tool'', fn_description = ''d'', fn_parameters = ex_schema, fn_strict = False\<rparr>]"
    by (simp add: ex_listed_def listed_tool_named_def List.map_filter_def)
  have "case user_content ex_host_task of None \<Rightarrow> False | Some _ \<Rightarrow> True" by code_simp
  then obtain user where user: "user_content ex_host_task = Some user" by (auto split: option.splits)
  have g: "NewGovernor 0 (tk_budgets ex_host_task) =
      Inr \<lparr>go_limits = tk_budgets ex_host_task, go_usage = no_usage_count, go_stopped = False, go_deadline = 9000000000\<rparr>"
    by (simp add: NewGovernor_def b Budgets_Validate_def budget_bounds_def)
  have t: "tk_tools ex_host_task = [''tool'']" and listed: "listed_ok [] ex_listed" by (simp_all add: ex_host_task_def ex_task_def ex_listed_def)
  have "newSession 0 ''mock-a'' 100 ex_host_task ex_listed = Inr (ex_session\<lparr>se_history := [user_message user]\<rparr>)"
    unfolding newSession_def ex_host_task_valid bindE_simps t tools user g option.case using listed by (simp add: ex_session_def)
  then show ?thesis using user by (simp add: ex_session_def)
qed

lemma ex_stop: "host_run [(0, None, OStop)] ex_session = ([Halted], session_Stop ex_session)"
  by (simp add: host_step_def)

section \<open>An example response\<close>

text \<open>A response with one call, accepted by the waiting example session.\<close>

definition ex_call :: jdoc where
  "ex_call = DObj [(''arguments'', DStr ''{}''), (''call_id'', DStr ''a''), (''name'', DStr ''t''), (''type'', DStr ''function_call'')]"

definition ex_response :: jdoc where
  "ex_response = DObj [(''output'', DArr [ex_call]), (''status'', DStr ''completed'')]"

lemma ex_call_facts: "doc_ok ex_call" "checkValue ex_call 0" "utf8_Valid (doc_text ex_call)" "length (doc_text ex_call) \<le> 100" "doc_depth ex_call = 1"
  by code_simp+

lemma ex_response_facts: "doc_ok ex_response" "checkValue ex_response 0" "utf8_Valid (doc_text ex_response)" "length (doc_text ex_response) = 100"
  "doc_depth ex_response = 3"
  by code_simp+

lemma ex_plain: "\<not> plainSensitive (doc_text ex_response)"
  by code_simp

lemma ex_words: "\<not> plainSensitive ''{}''" "\<not> plainSensitive ''a''" "\<not> plainSensitive ''t''" "\<not> plainSensitive ''function_call''" "\<not> plainSensitive ''completed''"
 "\<not> sensitiveJSON ''{}'' 1" "\<not> json_Valid ''a''" "\<not> json_Valid ''t''" "\<not> json_Valid ''function_call''" "\<not> json_Valid ''completed''"
  by code_simp+

definition ex_scanned :: scanned where
  "ex_scanned = \<lparr>sn_batch = [''a''], sn_calls = [\<lparr>rc_reference = ''a'', rc_tool = ''t'', rc_input = []\<rparr>], sn_texts = []\<rparr>"

definition ex_turn :: turn where
  "ex_turn = \<lparr>tn_calls = [\<lparr>rc_reference = ''a'', rc_tool = ''t'', rc_input = []\<rparr>], tn_final = False, tn_answer = GNil\<rparr>"

lemma ex_accept_call:
  "accept_call 1024 [] ex_call \<lparr>sn_batch = [], sn_calls = [], sn_texts = []\<rparr> = Inr ex_scanned"
  "bindE (struct_members ex_call) (struct_string ''type'') = Inr ''function_call''"
  by code_simp+

lemma ex_accept_items: "accept_items 1024 [] [doc_text ex_call] \<lparr>sn_batch = [], sn_calls = [], sn_texts = []\<rparr> = Inr ex_scanned"
proof -
  have "decodeJSON (doc_text ex_call) 1024 = Inr ex_call"
    using ex_call_facts by (intro decodeJSON_text) (simp_all add: maxNestingDepth_def)
  moreover obtain ms where "struct_members ex_call = Inr ms" "struct_string ''type'' ms = Inr ''function_call''"
    using ex_accept_call(2) by (auto simp: bindE_eq_Inr)
  ultimately show ?thesis by (simp add: accept_item_def ex_accept_call(1))
qed

lemma ex_fields:
  "struct_members ex_response = Inr [(''output'', DArr [ex_call]), (''status'', DStr ''completed'')]"
  "struct_string ''status'' [(''output'', DArr [ex_call]), (''status'', DStr ''completed'')] = Inr ''completed''"
  "struct_any ''error'' [(''output'', DArr [ex_call]), (''status'', DStr ''completed'')] = DNull"
  "foldName ''status'' \<noteq> foldName ''output''"
  by code_simp+

lemma ex_decode: "decode_response 1024 (doc_text ex_response) =
    Inr \<lparr>rh_status = ''completed'', rh_output = [doc_text ex_call], rh_error = DNull\<rparr>"
proof -
  have d: "decodeJSON (doc_text ex_response) 1024 = Inr ex_response"
    using ex_response_facts by (intro decodeJSON_text) (simp_all add: maxNestingDepth_def)
  have o: "raw_object (doc_text ex_response) = Some [(''output'', doc_text (DArr [ex_call])), (''status'', doc_text (DStr ''completed''))]"
    using raw_object_text [of "[(''output'', DArr [ex_call]), (''status'', DStr ''completed'')]"] ex_response_facts
    by (simp add: ex_response_def maxNestingDepth_def)
  have a: "parse_json (doc_text (DArr [ex_call])) = Some (DArr [ex_call])" "raw_array (doc_text (DArr [ex_call])) = Some [doc_text ex_call]"
    using doc_roundtrip [of "DArr [ex_call]"] raw_array_text [of "[ex_call]"] ex_call_facts by (simp_all add: maxNestingDepth_def)
  have f: "field_values ''output'' [(''output'', x), (''status'', y)] = [x]" for x y :: string
    using ex_fields(4) by (simp add: field_values_def)
  show ?thesis
    by (simp only: decode_response_def d bindE_simps ex_fields o option.case f raw_list_field.simps a jdoc.case)
qed

lemma ex_names:
  "\<not> credentialField ''output''" "\<not> credentialField ''status''" "\<not> credentialField ''arguments''" "\<not> credentialField ''call_id''"
  "\<not> credentialField ''name''" "\<not> credentialField ''type''" "\<not> EqualFold ''output'' ''authorization''"
  by code_simp+

lemma ex_not_sensitive: "\<not> ContainsSensitive (doc_text ex_response)"
proof -
  let ?hit = "\<lambda>text. plainSensitive text \<or> (json_Valid text \<and> (if 0 \<ge> maxEmbedded then True else sensitiveJSON text (0 + 1)))"
  have parse: "parse_json (doc_text ex_response) = Some ex_response"
    using ex_response_facts by (intro doc_roundtrip) (simp_all add: maxNestingDepth_def)
  have "\<not> ?hit w" if "w \<in> {''{}'', ''a'', ''t'', ''function_call'', ''completed''}" for w
    using that ex_words by (auto simp: maxEmbedded_def simp del: sensitiveJSON.simps)
  then have "\<not> leaks ?hit 0 Top ex_response"
    by (simp add: ex_response_def ex_call_def exposed_def authorizes_def maxFrames_def ex_names del: sensitiveJSON.simps)
  then have "\<not> scan_tokens ?hit [] (tokens ex_response)"
    using scan_tokens_leaks [of "[]" ?hit ex_response "[]"] by (simp add: ready_def place_of_def del: sensitiveJSON.simps)
  then have "\<not> sensitiveJSON (doc_text ex_response) 0" by (subst sensitiveJSON.simps) (simp only: parse option.case not_False_eq_True)
  then show ?thesis using ex_plain by (simp only: ContainsSensitive_def simp_thms)
qed

definition ex_waiting :: session where "ex_waiting = ex_session\<lparr>se_waiting := True\<rparr>"

lemma ex_accepts: "fst (session_Accept 1 None (doc_text ex_response) ex_waiting) = Inr ex_turn"
proof -
  have w: "se_stopped ex_waiting = False" "se_waiting ex_waiting = True" "se_seen ex_waiting = []" "bu_responseBytes (se_budgets ex_waiting) = 1024"
    "bu_toolAttempts (se_budgets ex_waiting) = 2"
    by (simp_all add: ex_waiting_def ex_session_def ex_host_task_def ex_task_def)
  have "check_response ex_waiting (doc_text ex_response) =
      Inr (\<lparr>rh_status = ''completed'', rh_output = [doc_text ex_call], rh_error = DNull\<rparr>, ex_scanned, ex_turn)"
    by (simp add: check_response_def w ex_decode ex_not_sensitive ex_accept_items ex_response_facts(4) del: accept_items.simps)
      (simp add: ex_scanned_def ex_turn_def)
  moreover have "fst (Admit 1 None ''content'' (int (length (doc_text ex_response))) (se_governor ex_waiting)) = Inr ()"
    by (simp add: Admit_def admit_kind_def content_left_def ex_response_facts(4) ex_waiting_def ex_session_def no_usage_count_def
      ex_host_task_def ex_task_def)
  ultimately show ?thesis by (cases "Admit 1 None ''content'' (int (length (doc_text ex_response))) (se_governor ex_waiting)")
    (simp add: session_Accept_def Let_def)
qed

section \<open>Runs of a session\<close>

text \<open>In every run of a new session the host makes at most the budgeted model requests and tool
  attempts, and takes in at most the budgeted bytes of responses and tool results.
\<close>
theorem session_run_is_accounted:
  assumes "newSession now model n t listed = Inr s" and "host_run xs s = (outs, s')"
  shows "int (sum_list (map out_requests outs)) \<le> bu_modelRequests (tk_budgets t) \<and>
    int (length (concat (map out_admitted outs))) \<le> bu_toolAttempts (tk_budgets t) \<and>
    int (sum_list (map out_bytes outs)) \<le> bu_traceBytes (tk_budgets t) - 65536"
proof -
  note new = newSession_inv [OF assms(1)]
  note run = host_run_ok [OF assms(2), of "[]" "[]" "[]"]
  have "65536 \<le> bu_traceBytes (tk_budgets t)" using new Budgets_positive by blast
  then show ?thesis using new run by (auto simp: session_inv_def usage_ok_def Let_def no_usage_count_def)
qed

theorem session_run_is_accounted_witness:
  "int (sum_list (map out_requests [Halted])) \<le> bu_modelRequests (tk_budgets ex_host_task)"
  using session_run_is_accounted [OF ex_new ex_stop] by simp

text \<open>C23 The calls a session hands out all have different identities; tool attempts are admitted in the
  order of the calls, results are delivered in that order, each at most once, and at most one
  admitted attempt is without a result.
\<close>
theorem calls_run_once_in_order:
  assumes "newSession now model n t listed = Inr s" and "host_run xs s = (outs, s')"
  shows "distinct (concat (map out_calls outs)) \<and>
    prefix (concat (map out_admitted outs)) (concat (map out_calls outs)) \<and>
    prefix (concat (map out_delivered outs)) (concat (map out_admitted outs)) \<and>
    length (concat (map out_admitted outs)) \<le> length (concat (map out_delivered outs)) + 1"
  using host_run_ok [OF assms(2), of "[]" "[]" "[]"] newSession_inv [OF assms(1)] by (auto simp: trace_inv_def)

theorem calls_run_once_in_order_witness:
  "distinct (concat (map out_calls [Halted])) \<and> prefix (concat (map out_admitted [Halted])) (concat (map out_calls [Halted]))"
  using calls_run_once_in_order [OF ex_new ex_stop] by blast

text \<open>C24 A session always ends: whatever the model answers and the tools return, doing what the
  protocol calls for next stops the session within twice its budget of requests and attempts.
\<close>
theorem session_always_ends:
  assumes "newSession now model n t listed = Inr s"
    and "2 * (bu_modelRequests (tk_budgets t) + bu_toolAttempts (tk_budgets t)) < int (length inputs)"
  shows "se_stopped (drive inputs s)"
proof (rule drive_stops)
  show "session_inv s" using newSession_inv [OF assms(1)] by blast
  show "steps_left s \<le> int (length inputs)"
    using newSession_inv [OF assms(1)] assms(2) by (simp add: steps_left_def no_usage_count_def Let_def)
qed

theorem session_always_ends_witness:
  "se_stopped (drive (replicate 9 (1, None, ''no response'', GNil)) ex_session)"
  by (rule session_always_ends [OF ex_new]) (simp add: ex_host_task_def ex_task_def)

text \<open>A stopped session is final: no operation changes it, and each one is refused as a protocol
  error (stopping it again apart).
\<close>
theorem stopped_session_is_final:
  assumes "newSession now model n t listed = Inr s" and "host_run xs s = (outs, s')" and "se_stopped s'"
    and "host_step x s' = (out, s'')"
  shows "s'' = s' \<and> (out = Halted \<or> out = Refused ''HOST_PROTOCOL_ERROR'')"
proof -
  have "session_inv s'" using host_run_ok [OF assms(2), of "[]" "[]" "[]"] newSession_inv [OF assms(1)] by blast
  from stopped_step [OF this assms(3,4)] show ?thesis by simp
qed

theorem stopped_session_is_final_witness:
  "host_step (0, None, ORequest) (session_Stop ex_session) = (Refused ''HOST_PROTOCOL_ERROR'', session_Stop ex_session)"
proof -
  obtain out s'' where h: "host_step (0, None, ORequest) (session_Stop ex_session) = (out, s'')" by force
  have "out \<noteq> Halted" using h by (auto simp: host_step_def session_Request_def)
  then show ?thesis using stopped_session_is_final [OF ex_new ex_stop _ h] h by simp
qed

section \<open>Text that may carry credentials\<close>





text \<open>What the admission looks for, by recursion on the document and on the levels of embedded JSON.\<close>

primrec secret :: "nat \<Rightarrow> string \<Rightarrow> bool" where
  "secret 0 message = (case parse_json message of None \<Rightarrow> False | Some d \<Rightarrow> leaks (\<lambda>s. plainSensitive s \<or> json_Valid s) 0 Top d)"
| "secret (Suc n) message =
     (case parse_json message of None \<Rightarrow> False | Some d \<Rightarrow> leaks (\<lambda>s. plainSensitive s \<or> secret n s) 0 Top d)"

lemma scan_leaks_Top: "scan_tokens hit [] (tokens d) = leaks hit 0 Top d"
  using scan_tokens_leaks [of "[]" hit d "[]"] by (simp add: ready_def place_of_def)

lemma secret_Valid: "secret n s \<Longrightarrow> json_Valid s"
  by (cases n) (auto simp: json_Valid_def split: option.splits)

lemma sensitiveJSON_secret: "n + embedded = maxEmbedded \<Longrightarrow> sensitiveJSON message embedded = secret n message"
proof (induction n arbitrary: message embedded)
  case 0
  then show ?case by (subst sensitiveJSON.simps) (simp add: scan_leaks_Top del: sensitiveJSON.simps split: option.split)
next
  case (Suc n)
  have "(json_Valid s \<and> (if embedded \<ge> maxEmbedded then True else sensitiveJSON s (embedded + 1))) = secret n s" for s
    using Suc.IH [of "embedded + 1" s] Suc.prems secret_Valid [of n s] by auto
  then show ?case by (subst sensitiveJSON.simps) (simp only: scan_leaks_Top secret.simps)
qed


text \<open>The loop over JSON tokens with its stack of frames is a structural search of the document: a
  text is rejected exactly when a pattern occurs in it or the document, read at most four levels
  into JSON carried inside strings, shows a credential.
\<close>
theorem sensitive_walk_is_structural:
  "ContainsSensitive message \<longleftrightarrow> plainSensitive message \<or> secret 4 message"
  using sensitiveJSON_secret [of 4 0 message] secret_Valid [of 4 message]
  by (auto simp: ContainsSensitive_def maxEmbedded_def simp del: sensitiveJSON.simps)




text \<open>
  The names of members are compared with the names of credentials only: an address in a name,
  spelled with an escape, is admitted, although the same address in a text is not.
\<close>

definition escaped_address :: string where
  "escaped_address = ''{'' @ [CHR 34] @ ''a'' @ [CHR 0x5C] @ ''u0040b.co'' @ [CHR 34] @ '':1}''"

lemma address_in_name_is_admitted:
  "parse_json escaped_address = Some (DObj [(''a@b.co'', DNum ''1'')])" "plainSensitive ''a@b.co''" "\<not> ContainsSensitive escaped_address"
  by code_simp+

end
