(* ===== verification/Exec_Profile.thy ===== *)
theory Exec_Profile
  imports Scenario
begin

text \<open>
  \<open>internal/governor/profile.go\<close>: the host-local execution profile. \<open>Resolve\<close> builds it from
  command-line and environment values, \<open>Apply\<close> admits it and sets the Go runtime. Integers are
  \<open>int\<close> of 64 bits: the only sum that can leave the range is written with its wrap-around. The
  texts of the errors are kept, the numbers formatted into them are left out.
\<close>

definition wrap64 :: "int \<Rightarrow> int" where
  "wrap64 n = (n + 9223372036854775808) mod 18446744073709551616 - 9223372036854775808"

text \<open>\<open>strconv.Atoi\<close> with its range.\<close>

definition Atoi64 :: "string \<Rightarrow> int option" where
  "Atoi64 s =
     (case Atoi s of
        None \<Rightarrow> None
      | Some n \<Rightarrow> if - 9223372036854775808 \<le> n \<and> n \<le> 9223372036854775807 then Some n else None)"

text \<open>Go's division by a constant rounds toward zero.\<close>

definition quot2 :: "int \<Rightarrow> int" where
  "quot2 n = (if n < 0 then - ((- n) div 2) else n div 2)"

record options =
  op_cliMode :: string
  op_cliMaxProcs :: string
  op_cliMemory :: string
  op_cliInFlight :: string
  op_envMode :: string
  op_envMaxProcs :: string
  op_envMemory :: string
  op_envInFlight :: string
  op_logicalCPUs :: int

record sources =
  so_mode :: string
  so_maxProcs :: string
  so_memory :: string
  so_inFlight :: string

record exec_profile =
  ep_format :: string
  ep_version :: string
  ep_mode :: string
  ep_logicalCPUs :: int
  ep_maxProcs :: int
  ep_workers :: int
  ep_memoryBytes :: int
  ep_inFlight :: int
  ep_hardCPU :: bool
  ep_hardMemory :: bool
  ep_goRuntime :: bool
  ep_childProcs :: bool
  ep_source :: string
  ep_sources :: sources

definition ProfileFormat :: string where "ProfileFormat = ''statetwin.dev/execution-profile/v1alpha1''"
definition ProfileVersion :: string where "ProfileVersion = ''local-v2''"
definition minMemoryLimitMiB :: int where "minMemoryLimitMiB = 64"
definition maxMemoryLimitMiB :: int where "maxMemoryLimitMiB = 1048576"
definition maxInFlightLimit :: int where "maxInFlightLimit = 1024"

definition first_source :: "string \<Rightarrow> string \<Rightarrow> string \<times> string" where
  "first_source cli environment =
     (if TrimSpace cli \<noteq> [] then (cli, ''command-line'')
      else if TrimSpace environment \<noteq> [] then (environment, ''environment'')
      else ([], []))"

definition mergeSource :: "string \<Rightarrow> string \<Rightarrow> string" where
  "mergeSource current following =
     (if current = [] then following else if following = [] \<or> current = following then current else ''mixed'')"

definition parseBounded :: "string \<Rightarrow> int \<Rightarrow> int \<Rightarrow> string \<Rightarrow> string + int" where
  "parseBounded value minimum maximum label =
     (case Atoi64 (TrimSpace value) of
        None \<Rightarrow> Inl (label @ '' must be an integer within bounds'')
      | Some n \<Rightarrow> if n < minimum \<or> n > maximum then Inl (label @ '' must be an integer within bounds'') else Inr n)"

text \<open>The limits of a mode: processors, memory and requests in flight.\<close>

definition mode_limits :: "string \<Rightarrow> int \<Rightarrow> (int \<times> int \<times> int) option" where
  "mode_limits mode logical =
     (if mode = ''quiet'' then Some (1, 512, 4)
      else if mode = ''balanced'' then (let procs = quot2 (wrap64 (logical + 1)) in Some (if procs > 4 then 4 else procs, 1024, 16))
      else if mode = ''throughput'' then Some (logical, 2048, 64)
      else None)"

definition override :: "string \<Rightarrow> string \<Rightarrow> int \<Rightarrow> string \<Rightarrow> int \<Rightarrow> int \<Rightarrow> string \<Rightarrow> string + int \<times> string" where
  "override cli environment n source minimum maximum label =
     (let (text, text_source) = first_source cli environment
      in if text = [] then Inr (n, source)
         else bindE (parseBounded text minimum maximum label) (\<lambda>m. Inr (m, text_source)))"

text \<open>\<open>numCPU\<close> is what \<open>runtime.NumCPU\<close> returns.\<close>

definition logical_cpus :: "int \<Rightarrow> options \<Rightarrow> int" where
  "logical_cpus numCPU opts =
     (let n = (if op_logicalCPUs opts \<le> 0 then numCPU else op_logicalCPUs opts) in if n \<le> 0 then 1 else n)"

definition mode_text :: "options \<Rightarrow> string \<times> string" where
  "mode_text opts =
     (let (text, source) = first_source (op_cliMode opts) (op_envMode opts)
      in if text = [] then (''quiet'', ''default'') else (text, source))"

definition exec_Resolve :: "int \<Rightarrow> options \<Rightarrow> string + exec_profile" where
  "exec_Resolve numCPU opts =
     (let logical = logical_cpus numCPU opts; (text, source) = mode_text opts; mode = ToLower (TrimSpace text)
      in case mode_limits mode logical of
           None \<Rightarrow> Inl ''execution mode must be quiet, balanced, or throughput''
         | Some (procs, memory, inFlight) \<Rightarrow>
             bindE (override (op_cliMaxProcs opts) (op_envMaxProcs opts) procs source 1 logical ''max procs'') (\<lambda>(procs, procsSource).
             bindE (override (op_cliMemory opts) (op_envMemory opts) memory source minMemoryLimitMiB maxMemoryLimitMiB ''memory limit MiB'') (\<lambda>(memory, memorySource).
             bindE (override (op_cliInFlight opts) (op_envInFlight opts) inFlight source 1 maxInFlightLimit ''max in-flight requests'') (\<lambda>(inFlight, inFlightSource).
             Inr \<lparr>ep_format = ProfileFormat, ep_version = ProfileVersion, ep_mode = mode, ep_logicalCPUs = logical, ep_maxProcs = procs,
                  ep_workers = 1, ep_memoryBytes = wrap64 (memory * 1048576), ep_inFlight = inFlight, ep_hardCPU = False,
                  ep_hardMemory = False, ep_goRuntime = True, ep_childProcs = False,
                  ep_source = mergeSource (mergeSource source procsSource) (mergeSource memorySource inFlightSource),
                  ep_sources = \<lparr>so_mode = source, so_maxProcs = procsSource, so_memory = memorySource, so_inFlight = inFlightSource\<rparr>\<rparr>))))"

text \<open>The two settings of the Go runtime that \<open>Apply\<close> replaces; it returns the previous ones.\<close>

record runtime_settings =
  ru_maxProcs :: int
  ru_memoryLimit :: int

definition exec_Apply :: "exec_profile \<Rightarrow> runtime_settings \<Rightarrow> string + runtime_settings \<times> runtime_settings" where
  "exec_Apply p r =
     (if ep_format p \<noteq> ProfileFormat \<or> ep_version p \<noteq> ProfileVersion then Inl ''unsupported execution profile''
      else if ep_maxProcs p < 1 \<or> ep_maxProcs p > ep_logicalCPUs p then Inl ''max procs must be within 1..logical CPUs''
      else if ep_memoryBytes p < minMemoryLimitMiB * 1048576 then Inl ''soft memory limit is below supported minimum''
      else if ep_inFlight p < 1 \<or> ep_inFlight p > maxInFlightLimit then Inl ''max in-flight requests is outside supported range''
      else Inr (r, \<lparr>ru_maxProcs = ep_maxProcs p, ru_memoryLimit = ep_memoryBytes p\<rparr>))"

section \<open>What a resolved profile satisfies\<close>

lemma wrap64_id: "- 9223372036854775808 \<le> n \<Longrightarrow> n < 9223372036854775808 \<Longrightarrow> wrap64 n = n"
  by (simp add: wrap64_def)

lemma parseBounded_Inr: "parseBounded value minimum maximum label = Inr n \<Longrightarrow> minimum \<le> n \<and> n \<le> maximum"
  by (auto simp: parseBounded_def split: option.splits if_splits)

lemma override_Inr:
  assumes "override cli environment n source minimum maximum label = Inr (m, s)" "minimum \<le> n" "n \<le> maximum"
  shows "minimum \<le> m \<and> m \<le> maximum"
  using assms by (auto simp: override_def bindE_eq_Inr split: prod.splits if_splits dest: parseBounded_Inr)

lemma mode_limits_Some:
  assumes "mode_limits mode logical = Some (procs, memory, inFlight)" "1 \<le> logical" "logical < 9223372036854775807"
  shows "1 \<le> procs \<and> procs \<le> logical \<and> minMemoryLimitMiB \<le> memory \<and> memory \<le> maxMemoryLimitMiB \<and> 1 \<le> inFlight \<and> inFlight \<le> maxInFlightLimit"
  using assms by (auto simp: mode_limits_def Let_def wrap64_id quot2_def minMemoryLimitMiB_def maxMemoryLimitMiB_def maxInFlightLimit_def split: if_splits)

lemma exec_Resolve_Inr:
  assumes "exec_Resolve numCPU opts = Inr p"
  obtains mode procs0 memory0 inFlight0 source procs s1 memory s2 inFlight s3 where
    "mode_limits mode (logical_cpus numCPU opts) = Some (procs0, memory0, inFlight0)"
    "override (op_cliMaxProcs opts) (op_envMaxProcs opts) procs0 source 1 (logical_cpus numCPU opts) ''max procs'' = Inr (procs, s1)"
    "override (op_cliMemory opts) (op_envMemory opts) memory0 source minMemoryLimitMiB maxMemoryLimitMiB ''memory limit MiB'' = Inr (memory, s2)"
    "override (op_cliInFlight opts) (op_envInFlight opts) inFlight0 source 1 maxInFlightLimit ''max in-flight requests'' = Inr (inFlight, s3)"
    "ep_format p = ProfileFormat" "ep_version p = ProfileVersion" "ep_logicalCPUs p = logical_cpus numCPU opts" "ep_maxProcs p = procs"
    "ep_memoryBytes p = wrap64 (memory * 1048576)" "ep_inFlight p = inFlight"
  using assms by (auto simp: exec_Resolve_def Let_def bindE_eq_Inr split: prod.splits option.splits)

lemma logical_cpus_pos: "1 \<le> logical_cpus numCPU opts"
  by (simp add: logical_cpus_def Let_def)

text \<open>A resolved profile is one that \<open>Apply\<close> accepts.\<close>

lemma exec_Resolve_applies:
  assumes "exec_Resolve numCPU opts = Inr p" "logical_cpus numCPU opts < 9223372036854775807"
  shows "exec_Apply p r = Inr (r, \<lparr>ru_maxProcs = ep_maxProcs p, ru_memoryLimit = ep_memoryBytes p\<rparr>)"
    and "1 \<le> ep_maxProcs p \<and> ep_maxProcs p \<le> logical_cpus numCPU opts \<and> 67108864 \<le> ep_memoryBytes p \<and> ep_memoryBytes p \<le> 1099511627776"
proof -
  obtain mode procs0 memory0 inFlight0 source procs s1 memory s2 inFlight s3 where p:
    "mode_limits mode (logical_cpus numCPU opts) = Some (procs0, memory0, inFlight0)"
    "override (op_cliMaxProcs opts) (op_envMaxProcs opts) procs0 source 1 (logical_cpus numCPU opts) ''max procs'' = Inr (procs, s1)"
    "override (op_cliMemory opts) (op_envMemory opts) memory0 source minMemoryLimitMiB maxMemoryLimitMiB ''memory limit MiB'' = Inr (memory, s2)"
    "override (op_cliInFlight opts) (op_envInFlight opts) inFlight0 source 1 maxInFlightLimit ''max in-flight requests'' = Inr (inFlight, s3)"
    "ep_format p = ProfileFormat" "ep_version p = ProfileVersion" "ep_logicalCPUs p = logical_cpus numCPU opts" "ep_maxProcs p = procs"
    "ep_memoryBytes p = wrap64 (memory * 1048576)" "ep_inFlight p = inFlight"
    by (rule exec_Resolve_Inr [OF assms(1)])
  note m = mode_limits_Some [OF p(1) logical_cpus_pos assms(2)]
  have procs: "1 \<le> procs \<and> procs \<le> logical_cpus numCPU opts" using override_Inr [OF p(2)] m by simp
  have memory: "64 \<le> memory \<and> memory \<le> 1048576"
    using override_Inr [OF p(3)] m by (simp add: minMemoryLimitMiB_def maxMemoryLimitMiB_def)
  have inFlight: "1 \<le> inFlight \<and> inFlight \<le> 1024" using override_Inr [OF p(4)] m by (simp add: maxInFlightLimit_def)
  have bytes: "ep_memoryBytes p = memory * 1048576" using p(9) memory by (simp add: wrap64_id)
  show "exec_Apply p r = Inr (r, \<lparr>ru_maxProcs = ep_maxProcs p, ru_memoryLimit = ep_memoryBytes p\<rparr>)"
    using p(5-8,10) procs memory inFlight bytes by (simp add: exec_Apply_def minMemoryLimitMiB_def maxInFlightLimit_def)
  show "1 \<le> ep_maxProcs p \<and> ep_maxProcs p \<le> logical_cpus numCPU opts \<and> 67108864 \<le> ep_memoryBytes p \<and> ep_memoryBytes p \<le> 1099511627776"
    using p(8) procs bytes memory by simp
qed

end
