(* ===== verification/Go_Duration.thy ===== *)
theory Go_Duration
  imports Go_Float Go_Time
begin

text \<open>
  \<open>time.ParseDuration\<close> of the standard library, as \<open>internal/server/control.go\<close> uses it: a
  signed sequence of decimal numbers with units. Sums are kept in 64 bits; the fraction of a unit
  is computed in floating point.
\<close>

definition unit_ns :: "string \<Rightarrow> int option" where
  "unit_ns u =
     (if u = ''ns'' then Some 1
      else if u = ''us'' \<or> u = [CHR 0xC2, CHR 0xB5, CHR ''s''] \<or> u = [CHR 0xCE, CHR 0xBC, CHR ''s''] then Some 1000
      else if u = ''ms'' then Some 1000000
      else if u = ''s'' then Some second
      else if u = ''m'' then Some (60 * second)
      else if u = ''h'' then Some hour_ns
      else None)"

text \<open>The whole part of a number, up to \<open>2 ^ 63\<close>.\<close>

fun leadingInt :: "int \<Rightarrow> string \<Rightarrow> (int \<times> string) option" where
  "leadingInt x [] = Some (x, [])"
| "leadingInt x (c # cs) =
     (if \<not> is_digit c then Some (x, c # cs)
      else if x > 2 ^ 63 div 10 then None
      else let x' = x * 10 + digit_val c in if x' > 2 ^ 63 then None else leadingInt x' cs)"

text \<open>The digits after the point and their scale; digits that no longer fit are skipped.\<close>

fun leadingFraction :: "int \<Rightarrow> float64 \<Rightarrow> bool \<Rightarrow> string \<Rightarrow> int \<times> float64 \<times> string" where
  "leadingFraction x scale overflow [] = (x, scale, [])"
| "leadingFraction x scale overflow (c # cs) =
     (if \<not> is_digit c then (x, scale, c # cs)
      else if overflow \<or> x > (2 ^ 63 - 1) div 10 then leadingFraction x scale True cs
      else
        let y = x * 10 + digit_val c in
        if y > 2 ^ 63 then leadingFraction x scale True cs
        else leadingFraction y (fmul_fin scale (Finite 10)) False cs)"

definition fraction_part :: "string \<Rightarrow> int \<times> float64 \<times> bool \<times> string" where
  "fraction_part s =
     (if take 1 s = ''.'' then
        (case leadingFraction 0 (Finite 1) False (drop 1 s) of
           (f, scale, r) \<Rightarrow> (f, scale, length r \<noteq> length (drop 1 s), r))
      else (0, Finite 1, False, s))"

definition unit_char :: "char \<Rightarrow> bool" where
  "unit_char c \<longleftrightarrow> c \<noteq> CHR ''.'' \<and> \<not> is_digit c"

definition scaled :: "int \<Rightarrow> int \<Rightarrow> float64 \<Rightarrow> int" where
  "scaled f unit scale =
     (case fmul_fin (of_int64 f) (fdiv_pos (of_int64 unit) scale) of Finite q \<Rightarrow> \<lfloor>q\<rfloor> | _ \<Rightarrow> 0)"

text \<open>One number with its unit: its nanoseconds and the rest.\<close>

definition parse_unit :: "string \<Rightarrow> (int \<times> string) option" where
  "parse_unit s =
     (if \<not> (case s of [] \<Rightarrow> False | c # _ \<Rightarrow> c = CHR ''.'' \<or> is_digit c) then None
      else case leadingInt 0 s of
        None \<Rightarrow> None
      | Some (v, s1) \<Rightarrow>
          (case fraction_part s1 of
             (f, scale, post, s2) \<Rightarrow>
               if length s1 = length s \<and> \<not> post then None
               else
                 let u = takeWhile unit_char s2; rest = dropWhile unit_char s2 in
                 if u = [] then None
                 else case unit_ns u of
                   None \<Rightarrow> None
                 | Some unit \<Rightarrow>
                     if v > 2 ^ 63 div unit then None
                     else
                       let v' = v * unit + (if f > 0 then scaled f unit scale else 0) in
                       if v' > 2 ^ 63 then None else Some (v', rest)))"

lemma leadingInt_rest: "leadingInt x s = Some (v, r) \<Longrightarrow> length r \<le> length s"
  by (induction x s rule: leadingInt.induct) (auto simp: Let_def split: if_splits)

lemma leadingFraction_rest: "length (snd (snd (leadingFraction x scale ov s))) \<le> length s"
  by (induction x scale ov s rule: leadingFraction.induct) (auto simp: Let_def)

lemma length_dropWhile_less: "takeWhile P s \<noteq> [] \<Longrightarrow> length (dropWhile P s) < length s"
  by (cases s) (auto simp: length_dropWhile_le less_Suc_eq_le split: if_splits)

lemma parse_unit_rest:
  assumes "parse_unit s = Some (v, r)"
  shows "length r < length s"
proof -
  obtain v1 s1 f scale post s2 where s1: "leadingInt 0 s = Some (v1, s1)" and s2: "fraction_part s1 = (f, scale, post, s2)"
    and u: "takeWhile unit_char s2 \<noteq> []" and r: "r = dropWhile unit_char s2"
    using assms by (auto simp: parse_unit_def Let_def split: if_splits option.splits prod.splits)
  have "length s2 \<le> length s1"
    using s2 leadingFraction_rest [of 0 "Finite 1" False "drop 1 s1"]
    by (auto simp: fraction_part_def split: if_splits prod.splits)
  with leadingInt_rest [OF s1] length_dropWhile_less [OF u] show ?thesis unfolding r by linarith
qed

function parse_units :: "int \<Rightarrow> string \<Rightarrow> int option" where
  "parse_units d s =
     (if s = [] then Some d
      else case parse_unit s of
        None \<Rightarrow> None
      | Some (v, r) \<Rightarrow>
          let d' = (d + v) mod 2 ^ 64 in
          if d' > 2 ^ 63 then None else parse_units d' r)"
  by pat_completeness auto

termination
  by (relation "measure (\<lambda>(_, s). length s)") (auto dest: parse_unit_rest)

definition ParseDuration :: "string \<Rightarrow> int option" where
  "ParseDuration s0 =
     (let neg = (take 1 s0 = ''-''); s = (if take 1 s0 = ''-'' \<or> take 1 s0 = ''+'' then drop 1 s0 else s0)
      in if s = ''0'' then Some 0
         else if s = [] then None
         else case parse_units 0 s of
           None \<Rightarrow> None
         | Some d \<Rightarrow> if neg then Some (- d) else if d > 2 ^ 63 - 1 then None else Some d)"

declare parse_units.simps [simp del]

lemma parse_units_range:
  "parse_units d s = Some e \<Longrightarrow> 0 \<le> d \<Longrightarrow> d \<le> 2 ^ 63 \<Longrightarrow> 0 \<le> e \<and> e \<le> 2 ^ 63"
proof (induction "length s" arbitrary: d s rule: less_induct)
  case less
  show ?case
  proof (cases "s = []")
    case True
    with less.prems show ?thesis by (simp add: parse_units.simps)
  next
    case False
    with less.prems(1) obtain v r where v: "parse_unit s = Some (v, r)" "(d + v) mod 2 ^ 64 \<le> 2 ^ 63"
      "parse_units ((d + v) mod 2 ^ 64) r = Some e"
      by (subst (asm) parse_units.simps) (auto simp: Let_def split: option.splits prod.splits if_splits)
    show ?thesis by (rule less.hyps [OF parse_unit_rest [OF v(1)] v(3) _ v(2)]) simp
  qed
qed

lemma ParseDuration_range: "ParseDuration s = Some d \<Longrightarrow> - (2 ^ 63) \<le> d \<and> d < 2 ^ 63"
  using parse_units_range [of 0]
  unfolding ParseDuration_def Let_def by (auto split: if_split_asm option.split_asm) fastforce+

end
