(* ===== verification/Control_Plane.thy ===== *)
theory Control_Plane
  imports Host_Json Sanitize Exec_Profile Engine Diff Go_Duration
begin

text \<open>
  \<open>internal/server/control.go\<close>: the HTTP control plane over the store, the scheduler, the diff and
  the engine. A request holds what \<open>net/http\<close> hands to the handler: the method, the unescaped
  segments of a clean path, the header \<open>Authorization\<close>, the first value of every query parameter
  and the body. A response is a status with a typed body; the texts of error messages are not kept.
\<close>

section \<open>Requests and responses\<close>

record http_request =
  hr_method :: string
  hr_path :: "string list"
  hr_authorization :: string
  hr_query :: "string \<Rightarrow> string"
  hr_body :: string

datatype reply =
    RError string
  | RHealth string
  | RBranch branch
  | RSnapshot snapshot
  | RForked string string
  | RReset string string
  | RClock clock_advance_result
  | RStep scheduler_step_result
  | REvent scheduled_event
  | RPage event_page
  | RBatch next_due_batch
  | RPlan fault_plan
  | RPlans string "fault_plan list"
  | RRemoved string string
  | RFaultEvents "fault_event list"
  | RChanges "change list"

text \<open>A handler that panics aborts the connection; the mux answers without a handler.\<close>

datatype response = Aborted | Unrouted int | Response int reply

fun response_status :: "response \<Rightarrow> int option" where
  "response_status Aborted = None"
| "response_status (Unrouted n) = Some n"
| "response_status (Response n _) = Some n"

text \<open>
  The plane: its token, the tools of the loaded twin and, where it has one, the runtime. What code
  outside the repository decides is a parameter: whether the database answers a ping, what a
  fractional number becomes as a value of type \<open>any\<close>, and the decoding of a page cursor.
\<close>

record control_plane =
  cp_token :: string
  cp_tools :: "string list"
  cp_runtime :: "(libs \<times> runtime) option"
  cp_ping :: bool
  cp_fraction :: "string \<Rightarrow> json option"
  cp_cursor :: "string \<Rightarrow> scheduler_cursor option"

definition newControlPlane ::
  "string \<Rightarrow> (libs \<times> runtime) option \<Rightarrow> string list \<Rightarrow> bool \<Rightarrow> (string \<Rightarrow> json option) \<Rightarrow> (string \<Rightarrow> scheduler_cursor option) \<Rightarrow> control_plane" where
  "newControlPlane token rt allowed ping fraction cursor =
     \<lparr>cp_token = token, cp_tools = allowed, cp_runtime = rt, cp_ping = ping, cp_fraction = fraction, cp_cursor = cursor\<rparr>"

definition writeError :: "int \<Rightarrow> string \<Rightarrow> response" where
  "writeError status code = Response status (RError code)"

text \<open>\<open>errors.Is\<close> against the sentinels of the store, in the order of the switch.\<close>

definition writeStoreError :: "error \<Rightarrow> response" where
  "writeStoreError e =
     (case e of
        ErrBranchNotFound \<Rightarrow> writeError 404 ''NOT_FOUND''
      | ErrSnapshotNotFound \<Rightarrow> writeError 404 ''NOT_FOUND''
      | ErrBranchConflict \<Rightarrow> writeError 409 ''BRANCH_CONFLICT''
      | ErrClockRegression \<Rightarrow> writeError 400 ''CLOCK_INVALID''
      | ErrClockLimit \<Rightarrow> writeError 400 ''CLOCK_INVALID''
      | ErrFaultNotFound \<Rightarrow> writeError 404 ''FAULT_NOT_FOUND''
      | ErrFaultInvalid \<Rightarrow> writeError 400 ''FAULT_INVALID''
      | ErrSchedulerNotFound \<Rightarrow> writeError 404 ''SCHEDULE_NOT_FOUND''
      | ErrSchedulerEmpty \<Rightarrow> writeError 404 ''SCHEDULER_EMPTY''
      | ErrSchedulerCursor \<Rightarrow> writeError 400 ''SCHEDULER_CURSOR_INVALID''
      | ErrSchedulerConflict \<Rightarrow> writeError 409 ''SCHEDULE_CONFLICT''
      | ErrSchedulerInvalid \<Rightarrow> writeError 400 ''SCHEDULE_INVALID''
      | ErrSchedulerAction \<Rightarrow> writeError 409 ''SCHEDULE_ACTION_REQUIRED''
      | ErrResourceLimit \<Rightarrow> writeError 413 ''RESOURCE_LIMIT''
      | ErrPanic _ \<Rightarrow> Aborted
      | _ \<Rightarrow> writeError 400 ''CONTROL_ERROR'')"

text \<open>The end of a handler: the error of the store, or its value.\<close>

definition answer :: "int \<Rightarrow> ('a \<Rightarrow> reply) \<Rightarrow> error + 'a \<Rightarrow> response" where
  "answer status f r = (case r of Inl e \<Rightarrow> writeStoreError e | Inr x \<Rightarrow> Response status (f x))"

definition commit :: "int \<Rightarrow> ('a \<Rightarrow> reply) \<Rightarrow> (error + 'a) \<times> db \<Rightarrow> response \<times> db" where
  "commit status f = map_prod (answer status f) id"

section \<open>Decoding a body\<close>

text \<open>
  \<open>decodeJSON\<close>: one JSON value of at most a mebibyte, decoded into a struct without unknown
  members; \<open>null\<close> leaves the struct zero. \<open>None\<close> is the answer \<open>INVALID_INPUT\<close>.
\<close>

definition known_members :: "string list \<Rightarrow> (string \<times> jdoc) list \<Rightarrow> bool" where
  "known_members names ms = list_all (\<lambda>(k, _). \<exists>f \<in> set names. foldName k = foldName f) ms"

definition control_decodeJSON :: "string list \<Rightarrow> string \<Rightarrow> (string \<times> jdoc) list option" where
  "control_decodeJSON names body =
     (if length body > 1048576 then None
      else case parse_json body of
        Some (DObj ms) \<Rightarrow> if known_members names ms then Some ms else None
      | Some DNull \<Rightarrow> Some []
      | _ \<Rightarrow> None)"

definition text_field :: "string \<Rightarrow> (string \<times> jdoc) list \<Rightarrow> string option" where
  "text_field f ms = (case struct_string f ms of Inl _ \<Rightarrow> None | Inr s \<Rightarrow> Some s)"

text \<open>Fields of type \<open>int64\<close> and \<open>*int64\<close>.\<close>

fun int_values :: "int \<Rightarrow> jdoc list \<Rightarrow> int option" where
  "int_values n [] = Some n"
| "int_values n (d # ds) =
     (case d of
        DNull \<Rightarrow> int_values n ds
      | DNum s \<Rightarrow> (case number_int s of None \<Rightarrow> None | Some m \<Rightarrow> int_values m ds)
      | _ \<Rightarrow> None)"

fun int_pointer :: "int option \<Rightarrow> jdoc list \<Rightarrow> int option option" where
  "int_pointer p [] = Some p"
| "int_pointer p (d # ds) =
     (case d of
        DNull \<Rightarrow> int_pointer None ds
      | DNum s \<Rightarrow> (case number_int s of None \<Rightarrow> None | Some m \<Rightarrow> int_pointer (Some m) ds)
      | _ \<Rightarrow> None)"

definition int_field :: "string \<Rightarrow> (string \<times> jdoc) list \<Rightarrow> int option" where
  "int_field f ms = int_values 0 (field_values f ms)"

definition pointer_field :: "string \<Rightarrow> (string \<times> jdoc) list \<Rightarrow> int option option" where
  "pointer_field f ms = int_pointer None (field_values f ms)"

text \<open>
  A value of type \<open>any\<close>: numbers become \<open>float64\<close>. The ones that are whole are kept as the
  shortest decimal that the float is written as.
\<close>

definition any_number :: "(string \<Rightarrow> json option) \<Rightarrow> string \<Rightarrow> json option" where
  "any_number fraction s =
     (case round64 (number_rat s) of
        Finite q \<Rightarrow>
          if q = of_int \<lfloor>q\<rfloor> \<and> \<bar>\<lfloor>q\<rfloor>\<bar> < 1000000000000000000000 then Some (JNum (renum \<lfloor>q\<rfloor>)) else fraction s
      | _ \<Rightarrow> None)"

fun any_json :: "(string \<Rightarrow> json option) \<Rightarrow> jdoc \<Rightarrow> json option"
  and any_list :: "(string \<Rightarrow> json option) \<Rightarrow> jdoc list \<Rightarrow> json list option"
  and any_members :: "(string \<Rightarrow> json option) \<Rightarrow> (string \<times> jdoc) list \<Rightarrow> (string \<times> json) list option" where
  "any_json fr DNull = Some JNull"
| "any_json fr (DBool b) = Some (JBool b)"
| "any_json fr (DStr s) = Some (JStr s)"
| "any_json fr (DNum s) = any_number fr s"
| "any_json fr (DArr xs) = map_option JArr (any_list fr xs)"
| "any_json fr (DObj ms) = map_option (\<lambda>kvs. JObj (to_gomap kvs)) (any_members fr ms)"
| "any_list fr [] = Some []"
| "any_list fr (x # xs) = do { v \<leftarrow> any_json fr x; vs \<leftarrow> any_list fr xs; Some (v # vs) }"
| "any_members fr [] = Some []"
| "any_members fr (m # ms) = do { v \<leftarrow> any_json fr (snd m); vs \<leftarrow> any_members fr ms; Some ((fst m, v) # vs) }"

definition any_field :: "(string \<Rightarrow> json option) \<Rightarrow> string \<Rightarrow> (string \<times> jdoc) list \<Rightarrow> json option" where
  "any_field fr f ms = map_option (\<lambda>vs. if vs = [] then JNull else last vs) (any_list fr (field_values f ms))"

text \<open>A field of type \<open>map[string]any\<close>: objects are merged into the map, \<open>null\<close> clears it.\<close>

fun input_values :: "(string \<Rightarrow> json option) \<Rightarrow> json gomap option \<Rightarrow> jdoc list \<Rightarrow> json gomap option option" where
  "input_values fr m [] = Some m"
| "input_values fr m (d # ds) =
     (case d of
        DNull \<Rightarrow> input_values fr None ds
      | DObj ms \<Rightarrow>
          (case any_members fr ms of
             None \<Rightarrow> None
           | Some kvs \<Rightarrow> input_values fr (Some (foldl (\<lambda>m (k, v). put k v m) (case m of None \<Rightarrow> [] | Some m \<Rightarrow> m) kvs)) ds)
      | _ \<Rightarrow> None)"

text \<open>The field \<open>action\<close> of type \<open>*actionRequest\<close>: a tool and its input.\<close>

type_synonym action_request = "string \<times> json gomap option"

fun action_values :: "(string \<Rightarrow> json option) \<Rightarrow> action_request option \<Rightarrow> jdoc list \<Rightarrow> action_request option option" where
  "action_values fr a [] = Some a"
| "action_values fr a (d # ds) =
     (case d of
        DNull \<Rightarrow> action_values fr None ds
      | DObj ms \<Rightarrow>
          let (tool, input) = (case a of None \<Rightarrow> ([], None) | Some a \<Rightarrow> a) in
          if \<not> known_members [''tool'', ''input''] ms then None
          else (case string_field tool (field_values ''tool'' ms) of
            Inl _ \<Rightarrow> None
          | Inr tool' \<Rightarrow>
              (case input_values fr input (field_values ''input'' ms) of
                 None \<Rightarrow> None
               | Some input' \<Rightarrow> action_values fr (Some (tool', input')) ds))
      | _ \<Rightarrow> None)"

definition action_field :: "(string \<Rightarrow> json option) \<Rightarrow> (string \<times> jdoc) list \<Rightarrow> action_request option option" where
  "action_field fr ms = action_values fr None (field_values ''action'' ms)"

text \<open>A handler that decodes its body first.\<close>

definition decoded :: "'a option \<Rightarrow> db \<Rightarrow> ('a \<Rightarrow> response \<times> db) \<Rightarrow> response \<times> db" where
  "decoded x d k = (case x of None \<Rightarrow> (writeError 400 ''INVALID_INPUT'', d) | Some a \<Rightarrow> k a)"


section \<open>Handlers\<close>

definition installFault :: "control_plane \<Rightarrow> http_request \<Rightarrow> db \<Rightarrow> response \<times> db" where
  "installFault c r d = decoded (do {
       ms \<leftarrow> control_decodeJSON [''id'', ''branch'', ''tool'', ''phase'', ''errorClass'', ''message'', ''repeatCount'', ''expectedHeadVersion''] (hr_body r);
       i \<leftarrow> text_field ''id'' ms; b \<leftarrow> text_field ''branch'' ms; t \<leftarrow> text_field ''tool'' ms; p \<leftarrow> text_field ''phase'' ms;
       e \<leftarrow> text_field ''errorClass'' ms; m \<leftarrow> text_field ''message'' ms; n \<leftarrow> int_field ''repeatCount'' ms;
       h \<leftarrow> pointer_field ''expectedHeadVersion'' ms;
       Some (\<lparr>fp_id = i, fp_branch = b, fp_tool = t, fp_phase = p, fp_errorClass = e, fp_message = m, fp_remaining = n, fp_fired = 0\<rparr>, h)
     }) d (\<lambda>(plan, head).
     if fp_tool plan \<notin> set (cp_tools c) then (writeError 400 ''FAULT_INVALID'', d)
     else commit 201 RPlan (InstallFault plan head d))"

definition listFaults :: "http_request \<Rightarrow> db \<Rightarrow> response" where
  "listFaults r d =
     (let branch = hr_query r ''branch'' in
      answer 200 (\<lambda>(plans, digest). RPlans digest plans)
        (bindE (FaultPlans branch d) (\<lambda>plans. bindE (FaultPlanDigest branch d) (\<lambda>digest. Inr (plans, digest)))))"

definition removeFault :: "http_request \<Rightarrow> db \<Rightarrow> response \<times> db" where
  "removeFault r d = decoded (do {
       ms \<leftarrow> control_decodeJSON [''id'', ''branch'', ''expectedHeadVersion''] (hr_body r);
       i \<leftarrow> text_field ''id'' ms; b \<leftarrow> text_field ''branch'' ms; h \<leftarrow> pointer_field ''expectedHeadVersion'' ms;
       Some (i, b, h)
     }) d (\<lambda>(i, b, h). commit 200 (\<lambda>_. RRemoved b i) (RemoveFault b i h d))"

definition listFaultEvents :: "http_request \<Rightarrow> db \<Rightarrow> response" where
  "listFaultEvents r d = answer 200 RFaultEvents (FaultEvents (hr_query r ''branch'') d)"

definition getBranch :: "string \<Rightarrow> db \<Rightarrow> response" where
  "getBranch branch d = answer 200 RBranch (Branch branch d)"

definition createSnapshot :: "http_request \<Rightarrow> db \<Rightarrow> response \<times> db" where
  "createSnapshot r d = decoded (do {
       ms \<leftarrow> control_decodeJSON [''name'', ''branch''] (hr_body r);
       n \<leftarrow> text_field ''name'' ms; b \<leftarrow> text_field ''branch'' ms; Some (n, b)
     }) d (\<lambda>(n, b). commit 201 RSnapshot (CreateSnapshot n b d))"

definition snapshot_branch :: "http_request \<Rightarrow> (string \<times> string) option" where
  "snapshot_branch r = do {
     ms \<leftarrow> control_decodeJSON [''snapshot'', ''branch''] (hr_body r);
     s \<leftarrow> text_field ''snapshot'' ms; b \<leftarrow> text_field ''branch'' ms; Some (s, b) }"

definition control_fork :: "http_request \<Rightarrow> db \<Rightarrow> response \<times> db" where
  "control_fork r d = decoded (snapshot_branch r) d (\<lambda>(s, b). commit 201 (\<lambda>_. RForked b s) (Fork s b d))"

definition control_reset :: "http_request \<Rightarrow> db \<Rightarrow> response \<times> db" where
  "control_reset r d = decoded (snapshot_branch r) d (\<lambda>(s, b). commit 200 (\<lambda>_. RReset b s) (Reset s b d))"

text \<open>The body of \<open>advanceClock\<close>, and the instant it asks for, or the answer that refuses it.\<close>

definition clock_body :: "http_request \<Rightarrow> (string \<times> string \<times> string \<times> int option) option" where
  "clock_body r = do {
     ms \<leftarrow> control_decodeJSON [''branch'', ''by'', ''to'', ''expectedHeadVersion''] (hr_body r);
     b \<leftarrow> text_field ''branch'' ms; dur \<leftarrow> text_field ''by'' ms; to \<leftarrow> text_field ''to'' ms;
     h \<leftarrow> pointer_field ''expectedHeadVersion'' ms; Some (b, dur, to, h) }"

definition clock_target :: "string \<Rightarrow> string \<Rightarrow> string \<Rightarrow> db \<Rightarrow> response + instant" where
  "clock_target branch dur to d =
     (if (dur = []) = (to = []) then Inl (writeError 400 ''CLOCK_INVALID'')
      else case Branch branch d of
        Inl e \<Rightarrow> Inl (writeStoreError e)
      | Inr b \<Rightarrow>
          if dur \<noteq> [] then
            (case ParseDuration dur of
               None \<Rightarrow> Inl (writeError 400 ''CLOCK_INVALID'')
             | Some n \<Rightarrow> if n \<le> 0 then Inl (writeError 400 ''CLOCK_INVALID'') else Inr (b_clock b + n))
          else (case parse_nano to of None \<Rightarrow> Inl (writeError 400 ''CLOCK_INVALID'') | Some (t, _) \<Rightarrow> Inr t))"

definition control_advanceClock :: "http_request \<Rightarrow> db \<Rightarrow> response \<times> db" where
  "control_advanceClock r d = decoded (clock_body r) d (\<lambda>(b, dur, to, h).
     case clock_target b dur to d of
       Inl e \<Rightarrow> (e, d)
     | Inr target \<Rightarrow> commit 200 RClock (AdvanceClock b target h d))"

text \<open>The action of a scheduled call: checked by the runtime and bound to its digest.\<close>

definition schedule_action :: "control_plane \<Rightarrow> string \<Rightarrow> action_request option \<Rightarrow> response + scheduled_action option" where
  "schedule_action c kind action =
     (if kind = KindAction then
        (case (cp_runtime c, action) of
           (Some (l, rt), Some (tool, input)) \<Rightarrow>
             (case ValidateScheduledAction l rt tool input of
                Inl _ \<Rightarrow> Inl (writeError 400 ''SCHEDULE_INVALID'')
              | Inr _ \<Rightarrow> Inr (Some \<lparr>act_tool = tool, act_input = input, act_specDigest = rt_digest rt\<rparr>))
         | _ \<Rightarrow> Inl (writeError 400 ''SCHEDULE_ACTION_UNAVAILABLE''))
      else if action \<noteq> None then Inl (writeError 400 ''SCHEDULE_INVALID'')
      else Inr None)"

definition control_scheduleEvent :: "control_plane \<Rightarrow> http_request \<Rightarrow> db \<Rightarrow> response \<times> db" where
  "control_scheduleEvent c r d = decoded (do {
       ms \<leftarrow> control_decodeJSON [''id'', ''branch'', ''dueAt'', ''priority'', ''kind'', ''payload'', ''action'', ''expectedHeadVersion''] (hr_body r);
       i \<leftarrow> text_field ''id'' ms; b \<leftarrow> text_field ''branch'' ms; t \<leftarrow> text_field ''dueAt'' ms; p \<leftarrow> int_field ''priority'' ms;
       k \<leftarrow> text_field ''kind'' ms; v \<leftarrow> any_field (cp_fraction c) ''payload'' ms; a \<leftarrow> action_field (cp_fraction c) ms;
       h \<leftarrow> pointer_field ''expectedHeadVersion'' ms;
       Some (\<lparr>rq_id = i, rq_branch = b, rq_dueAt = t, rq_priority = p, rq_kind = k, rq_payload = v, rq_action = None\<rparr>, a, h)
     }) d (\<lambda>(rq, a, h).
     case schedule_action c (rq_kind rq) a of
       Inl e \<Rightarrow> (e, d)
     | Inr action \<Rightarrow> commit 201 REvent (ScheduleEvent (rq\<lparr>rq_action := action\<rparr>) h d))"

definition control_advanceClockToNext :: "control_plane \<Rightarrow> http_request \<Rightarrow> db \<Rightarrow> response \<times> db" where
  "control_advanceClockToNext c r d = decoded (do {
       ms \<leftarrow> control_decodeJSON [''branch'', ''expectedHeadVersion''] (hr_body r);
       b \<leftarrow> text_field ''branch'' ms; h \<leftarrow> pointer_field ''expectedHeadVersion'' ms; Some (b, h)
     }) d (\<lambda>(b, h). commit 200 RStep
       (case cp_runtime c of
          Some (l, rt) \<Rightarrow> engine_AdvanceClockToNext l rt b h d
        | None \<Rightarrow> AdvanceClockToNext b h d))"

text \<open>
  \<open>ScheduledEventPage\<close> with the text of a cursor: its length is checked after the other
  parameters, it is decoded after the branch is read.
\<close>

definition page_at_cursor :: "control_plane \<Rightarrow> event_query \<Rightarrow> string \<Rightarrow> db \<Rightarrow> error + event_page" where
  "page_at_cursor c q cursor d =
     (if cursor = [] then ScheduledEventPage q d
      else if length cursor > 2048 then
        bindE (wrapE ErrSchedulerInvalid (validateID ''branch id'' (q_branch q))) (\<lambda>_.
          if \<not> validSchedulerStatusFilter (q_status q) \<or> q_limit q < 1 \<or> q_limit q > int MaxSchedulerPageSize
          then Inl ErrSchedulerInvalid else Inl ErrSchedulerCursor)
      else case cp_cursor c cursor of
        None \<Rightarrow> bindE (ScheduledEventPage q d) (\<lambda>_. Inl ErrSchedulerCursor)
      | Some cu \<Rightarrow> ScheduledEventPage (q\<lparr>q_cursor := Some cu\<rparr>) d)"

definition listScheduledEvents :: "control_plane \<Rightarrow> http_request \<Rightarrow> db \<Rightarrow> response" where
  "listScheduledEvents c r d =
     (let value = hr_query r ''limit'' in
      case (if value = [] then Some 100 else Atoi64 value) of
        None \<Rightarrow> writeError 400 ''SCHEDULE_INVALID''
      | Some limit \<Rightarrow>
          answer 200 RPage (page_at_cursor c
            \<lparr>q_branch = hr_query r ''branch'', q_status = hr_query r ''status'', q_limit = limit, q_cursor = None\<rparr>
            (hr_query r ''cursor'') d))"

definition nextScheduledBatch :: "http_request \<Rightarrow> db \<Rightarrow> response" where
  "nextScheduledBatch r d = answer 200 RBatch (NextDueBatch (hr_query r ''branch'') d)"

definition control_cancelEvent :: "http_request \<Rightarrow> db \<Rightarrow> response \<times> db" where
  "control_cancelEvent r d = decoded (do {
       ms \<leftarrow> control_decodeJSON [''id'', ''branch'', ''expectedHeadVersion''] (hr_body r);
       i \<leftarrow> text_field ''id'' ms; b \<leftarrow> text_field ''branch'' ms; h \<leftarrow> pointer_field ''expectedHeadVersion'' ms;
       Some (i, b, h)
     }) d (\<lambda>(i, b, h). commit 200 REvent (CancelScheduledEvent b i h d))"

definition control_diff :: "http_request \<Rightarrow> db \<Rightarrow> response" where
  "control_diff r d = answer 200 RChanges (DiffBranches (hr_query r ''before'') (hr_query r ''after'') d)"

definition control_ready :: "control_plane \<Rightarrow> response" where
  "control_ready c = (if cp_ping c then Response 200 (RHealth ''ready'') else writeError 503 ''NOT_READY'')"

section \<open>Routes\<close>

text \<open>
  The patterns given to the mux. \<open>GET\<close> also serves \<open>HEAD\<close>; the wildcard of a branch takes one
  segment that is not empty. A path that only other methods serve is answered with 405, any other
  path with 404.
\<close>

datatype route =
    GetBranch string | CreateSnap | ForkSnap | ResetBranch | ClockAdvance | ClockNext | SchedulerAdd | SchedulerList
  | SchedulerNext | SchedulerCancel | FaultAdd | FaultList | FaultRemove | FaultEventList | DiffGet | Live | Ready

fun routes :: "string list \<Rightarrow> (bool \<times> route) list" where
  "routes [v, a] =
     (if v \<noteq> ''v1'' then []
      else if a = ''snapshots'' then [(False, CreateSnap)]
      else if a = ''forks'' then [(False, ForkSnap)]
      else if a = ''resets'' then [(False, ResetBranch)]
      else if a = ''faults'' then [(False, FaultAdd), (True, FaultList)]
      else if a = ''fault-events'' then [(True, FaultEventList)]
      else if a = ''diff'' then [(True, DiffGet)]
      else [])"
| "routes [v, a, b] =
     (if v \<noteq> ''v1'' then []
      else if a = ''branches'' \<and> b \<noteq> [] then [(True, GetBranch b)]
      else if a = ''clock'' \<and> b = ''advance'' then [(False, ClockAdvance)]
      else if a = ''clock'' \<and> b = ''advance-next'' then [(False, ClockNext)]
      else if a = ''scheduler'' \<and> b = ''events'' then [(False, SchedulerAdd), (True, SchedulerList)]
      else if a = ''scheduler'' \<and> b = ''next'' then [(True, SchedulerNext)]
      else if a = ''faults'' \<and> b = ''remove'' then [(False, FaultRemove)]
      else if a = ''health'' \<and> b = ''live'' then [(True, Live)]
      else if a = ''health'' \<and> b = ''ready'' then [(True, Ready)]
      else [])"
| "routes [v, a, b, e] =
     (if v = ''v1'' \<and> a = ''scheduler'' \<and> b = ''events'' \<and> e = ''cancel'' then [(False, SchedulerCancel)] else [])"
| "routes _ = []"

definition serves :: "string \<Rightarrow> bool \<Rightarrow> bool" where
  "serves verb read = (if read then verb = ''GET'' \<or> verb = ''HEAD'' else verb = ''POST'')"

definition handle :: "control_plane \<Rightarrow> http_request \<Rightarrow> route \<Rightarrow> db \<Rightarrow> response \<times> db" where
  "handle c r t d =
     (case t of
        GetBranch b \<Rightarrow> (getBranch b d, d)
      | CreateSnap \<Rightarrow> createSnapshot r d
      | ForkSnap \<Rightarrow> control_fork r d
      | ResetBranch \<Rightarrow> control_reset r d
      | ClockAdvance \<Rightarrow> control_advanceClock r d
      | ClockNext \<Rightarrow> control_advanceClockToNext c r d
      | SchedulerAdd \<Rightarrow> control_scheduleEvent c r d
      | SchedulerList \<Rightarrow> (listScheduledEvents c r d, d)
      | SchedulerNext \<Rightarrow> (nextScheduledBatch r d, d)
      | SchedulerCancel \<Rightarrow> control_cancelEvent r d
      | FaultAdd \<Rightarrow> installFault c r d
      | FaultList \<Rightarrow> (listFaults r d, d)
      | FaultRemove \<Rightarrow> removeFault r d
      | FaultEventList \<Rightarrow> (listFaultEvents r d, d)
      | DiffGet \<Rightarrow> (control_diff r d, d)
      | Live \<Rightarrow> (Response 200 (RHealth ''live''), d)
      | Ready \<Rightarrow> (control_ready c, d))"

definition mux :: "control_plane \<Rightarrow> http_request \<Rightarrow> db \<Rightarrow> response \<times> db" where
  "mux c r d =
     (case find (\<lambda>(read, _). serves (hr_method r) read) (routes (hr_path r)) of
        Some (_, t) \<Rightarrow> handle c r t d
      | None \<Rightarrow> (Unrouted (if routes (hr_path r) = [] then 404 else 405), d))"

section \<open>Authorization\<close>

text \<open>\<open>strings.Cut\<close> at the first space.\<close>

definition cut_space :: "string \<Rightarrow> (string \<times> string) option" where
  "cut_space s = (if CHR '' '' \<in> set s then Some (takeWhile (\<lambda>c. c \<noteq> CHR '' '') s, drop 1 (dropWhile (\<lambda>c. c \<noteq> CHR '' '') s)) else None)"

definition white :: "char \<Rightarrow> bool" where
  "white c \<longleftrightarrow> c \<in> {CHR '' '', CHR 9, CHR 13, CHR 10}"

definition bearer :: "string \<Rightarrow> string option" where
  "bearer header =
     (case cut_space header of
        None \<Rightarrow> None
      | Some (scheme, provided) \<Rightarrow>
          if \<not> EqualFold scheme ''Bearer'' \<or> TrimSpace provided \<noteq> provided \<or> list_ex white provided then None
          else Some provided)"

definition ServeHTTP :: "control_plane \<Rightarrow> http_request \<Rightarrow> db \<Rightarrow> response \<times> db" where
  "ServeHTTP c r d =
     (if cp_token c = [] then (writeError 503 ''CONTROL_AUTH_REQUIRED'', d)
      else case bearer (hr_authorization r) of
        None \<Rightarrow> (writeError 401 ''AUTH_DENIED'', d)
      | Some provided \<Rightarrow> if provided \<noteq> cp_token c then (writeError 401 ''AUTH_DENIED'', d) else mux c r d)"

end
