(* ===== verification/Data_Plane.thy ===== *)
theory Data_Plane
  imports Control_Plane
begin

text \<open>
  \<open>internal/server/data.go\<close> and \<open>internal/server/admission.go\<close>: the data plane, which runs tool
  calls on the branch that the path names, and the admission of concurrent requests. The protocol
  between client and tool is a third-party package: which tools a request body calls, and with
  which arguments, is a parameter.
\<close>

section \<open>The branch of a path\<close>

definition slash :: "char \<Rightarrow> bool" where "slash c \<longleftrightarrow> c = CHR ''/''"

definition trim_slashes :: "string \<Rightarrow> string" where
  "trim_slashes s = rev (dropWhile slash (rev (dropWhile slash s)))"

definition branchFromPath :: "string \<Rightarrow> string option" where
  "branchFromPath path =
     (if \<not> HasPrefix path ''/mcp/'' then None
      else let branch = trim_slashes (drop 5 path) in if controlIDPattern branch then Some branch else None)"

section \<open>A tool call\<close>

text \<open>
  A failed handler, or a structured result, whose canonical text is the content of the answer, and
  whether it is an error of the domain.
\<close>

datatype tool_result = ToolFailure error | ToolResult json bool

definition toolError :: "string \<Rightarrow> string \<Rightarrow> tool_result" where
  "toolError code message = ToolResult (JObj [(''error'', JObj [(''code'', JStr code), (''message'', JStr message)])]) True"

definition tool_input :: "(string \<Rightarrow> json option) \<Rightarrow> string \<Rightarrow> json gomap option" where
  "tool_input fraction arguments =
     (if arguments = [] then Some []
      else case parse_json arguments of
        Some DNull \<Rightarrow> Some []
      | Some (DObj ms) \<Rightarrow> map_option to_gomap (any_members fraction ms)
      | _ \<Rightarrow> None)"

definition run_tool :: "libs \<Rightarrow> runtime \<Rightarrow> string \<Rightarrow> string \<Rightarrow> json gomap \<Rightarrow> db \<Rightarrow> tool_result \<times> db" where
  "run_tool l rt branch tool input d =
     (case engine_Call l rt branch tool (Some input) d of
        (Inl e, d') \<Rightarrow> (ToolFailure e, d')
      | (Inr res, d') \<Rightarrow> (ToolResult (ar_result res) (IsDomainError (Some res)), d'))"

definition call_tool ::
  "(string \<Rightarrow> json option) \<Rightarrow> libs \<Rightarrow> runtime \<Rightarrow> string \<Rightarrow> string \<times> string \<Rightarrow> db \<Rightarrow> tool_result \<times> db" where
  "call_tool fraction l rt branch call d =
     (case tool_input fraction (snd call) of
        None \<Rightarrow> (toolError ''INVALID_INPUT'' ''arguments are not a JSON object'', d)
      | Some input \<Rightarrow> run_tool l rt branch (fst call) input d)"

text \<open>
  The plane: \<open>dispatch\<close> lists the calls that the protocol handler makes for a body, or for a body
  that fails to be read because it exceeds a mebibyte. A path without a branch is not found.
\<close>

fun call_tools ::
  "(string \<Rightarrow> json option) \<Rightarrow> libs \<Rightarrow> runtime \<Rightarrow> string \<Rightarrow> (string \<times> string) list \<Rightarrow> db \<Rightarrow> tool_result list \<times> db" where
  "call_tools fraction l rt branch [] d = ([], d)"
| "call_tools fraction l rt branch (call # calls) d =
     (let (r, d1) = call_tool fraction l rt branch call d; (rs, d2) = call_tools fraction l rt branch calls d1
      in (r # rs, d2))"

definition data_ServeHTTP ::
  "(string \<Rightarrow> json option) \<Rightarrow> (string option \<Rightarrow> (string \<times> string) list) \<Rightarrow> libs \<Rightarrow> runtime \<Rightarrow> string \<Rightarrow> string \<Rightarrow> db \<Rightarrow>
     tool_result list option \<times> db" where
  "data_ServeHTTP fraction dispatch l rt path body d =
     (case branchFromPath path of
        None \<Rightarrow> (None, d)
      | Some branch \<Rightarrow>
          apfst Some (call_tools fraction l rt branch (dispatch (if length body > 1048576 then None else Some body)) d))"

section \<open>Admission of concurrent requests\<close>

text \<open>
  Every request is a sequence of steps that interleave with those of the others: it takes a permit
  without waiting or is rejected, counts itself as active, is served, counts itself out and gives
  the permit back. The channel holds as many permits as requests stand between the first and the
  last step; the counters are atomic and of 64 bits.
\<close>

datatype request_phase = Arrived | Admitted | Serving | Leaving | Served | Rejected

record admission =
  ad_limit :: nat
  ad_permits :: nat
  ad_active :: int
  ad_rejected :: nat
  ad_requests :: "request_phase list"

definition NewAdmissionHandler :: "bool \<Rightarrow> int \<Rightarrow> string + admission" where
  "NewAdmissionHandler present limit =
     (if \<not> present then Inl ''admission handler is required''
      else if limit < 1 \<or> limit > 1024 then Inl ''admission limit must be within 1..1024''
      else Inr \<lparr>ad_limit = nat limit, ad_permits = 0, ad_active = 0, ad_rejected = 0, ad_requests = []\<rparr>)"

text \<open>The next step of request \<open>i\<close>.\<close>

definition admission_ServeHTTP :: "nat \<Rightarrow> admission \<Rightarrow> admission" where
  "admission_ServeHTTP i a =
     (case ad_requests a ! i of
        Arrived \<Rightarrow>
          if ad_permits a < ad_limit a
          then a\<lparr>ad_permits := ad_permits a + 1, ad_requests := (ad_requests a)[i := Admitted]\<rparr>
          else a\<lparr>ad_rejected := (ad_rejected a + 1) mod 2 ^ 64, ad_requests := (ad_requests a)[i := Rejected]\<rparr>
      | Admitted \<Rightarrow> a\<lparr>ad_active := ad_active a + 1, ad_requests := (ad_requests a)[i := Serving]\<rparr>
      | Serving \<Rightarrow> a\<lparr>ad_active := ad_active a - 1, ad_requests := (ad_requests a)[i := Leaving]\<rparr>
      | Leaving \<Rightarrow> a\<lparr>ad_permits := ad_permits a - 1, ad_requests := (ad_requests a)[i := Served]\<rparr>
      | Served \<Rightarrow> a
      | Rejected \<Rightarrow> a)"

inductive admission_step :: "admission \<Rightarrow> admission \<Rightarrow> bool" where
  arrive: "admission_step a (a\<lparr>ad_requests := ad_requests a @ [Arrived]\<rparr>)"
| advance: "i < length (ad_requests a) \<Longrightarrow> admission_step a (admission_ServeHTTP i a)"

definition Stats :: "admission \<Rightarrow> nat \<times> int \<times> nat" where
  "Stats a = (ad_limit a, ad_active a, ad_rejected a)"

end
