(* ===== verification/Agent_World.thy ===== *)
theory Agent_World
  imports Data_Plane Host_Session Evaluator
begin

text \<open>
  \<open>internal/agenteval/environment.go\<close> and the admission of \<open>witness.go\<close>: a fresh world is
  provisioned from a bundle, and a call is checked against the authority of the task and the schema
  of the tool before it runs on the data plane.

  The clock, the errors of the context and the replies of the model are given by a run
  environment; a counter numbers the readings. The protocol library carries a call to the tool
  handler of the data plane and its result back; whether the answer arrives is a parameter, too.
\<close>

section \<open>The run environment\<close>

record run_env =
  rn_now :: "nat \<Rightarrow> int"
  rn_ctx :: "nat \<Rightarrow> string option"
  rn_next :: "string \<Rightarrow> nat \<Rightarrow> string + string"
  rn_arrives :: "nat \<Rightarrow> bool"
  rn_libs :: libs
  rn_cel :: cel_env
  rn_fraction :: "float64 \<Rightarrow> json"
  rn_listed :: "string + listed_tool option list"
  rn_freeze :: "agent_task \<Rightarrow> string + agent_task"
  rn_inspects :: bool
  rn_cancelled :: "nat \<Rightarrow> bool"
  rn_closes :: bool

text \<open>
  A Go value as a JSON value; a float that is not whole is left to the parameter. A JSON value read
  back into \<open>any\<close> has \<open>float64\<close> numbers.
\<close>

fun goval_json :: "(float64 \<Rightarrow> json) \<Rightarrow> goval \<Rightarrow> json" where
  "goval_json fr GNil = JNull"
| "goval_json fr (GBool b) = JBool b"
| "goval_json fr (GInt n) = JNum n"
| "goval_json fr (GInt64 n) = JNum n"
| "goval_json fr (GUint64 n) = JNum n"
| "goval_json fr (GFloat x) =
     (case x of
        Finite q \<Rightarrow> if q = of_int \<lfloor>q\<rfloor> \<and> \<bar>\<lfloor>q\<rfloor>\<bar> < 1000000000000000000000 then JNum (renum \<lfloor>q\<rfloor>) else fr x
      | _ \<Rightarrow> fr x)"
| "goval_json fr (GString s) = JStr s"
| "goval_json fr (GList xs) = JArr (map (goval_json fr) xs)"
| "goval_json fr (GMap kvs) = JObj (map (\<lambda>(k, v). (k, goval_json fr v)) kvs)"

fun json_goval :: "json \<Rightarrow> goval" where
  "json_goval JNull = GNil"
| "json_goval (JBool b) = GBool b"
| "json_goval (JNum n) = GFloat (round64 (of_int n))"
| "json_goval (JStr s) = GString s"
| "json_goval (JArr xs) = GList (map json_goval xs)"
| "json_goval (JObj kvs) = GMap (map (\<lambda>(k, v). (k, json_goval v)) kvs)"

definition input_json :: "run_env \<Rightarrow> goval gomap option \<Rightarrow> json gomap option" where
  "input_json e input = map_option (map_vals (goval_json (rn_fraction e))) input"

text \<open>A map read through a nil pointer is empty.\<close>

definition or_empty :: "'a gomap option \<Rightarrow> 'a gomap" where
  "or_empty m = (case m of None \<Rightarrow> [] | Some kvs \<Rightarrow> kvs)"

text \<open>\<open>safe\<close>: bounded JSON without a credential in its text.\<close>

definition safe_tree :: "jtree option \<Rightarrow> nat \<Rightarrow> string + unit" where
  "safe_tree t maximum =
     (case t of
        None \<Rightarrow> Inl ''RESOURCE_LIMIT: task witness content''
      | Some tree \<Rightarrow>
          if \<not> tree_ok tree maximum then Inl ''RESOURCE_LIMIT: task witness content''
          else if ContainsSensitive (tree_text tree) then Inl ''DATA_POLICY_REJECTED''
          else Inr ())"

section \<open>Documents\<close>

text \<open>A task and a state as they are marshalled, members in the order of the struct.\<close>

definition rule_document :: "rule \<Rightarrow> jtree option" where
  "rule_document r = map_option (\<lambda>fs. Obj [(''tool'', str_leaf (ru_tool r)), (''equals'', Obj fs)]) (goval_fields (ru_equals r))"

definition assertion_document :: "task_assertion \<Rightarrow> jtree" where
  "assertion_document a = Obj [(''id'', str_leaf (ta_id a)), (''category'', str_leaf (ta_category a)), (''expr'', str_leaf (ta_expr a))]"

definition budgets_document :: "budgets \<Rightarrow> jtree" where
  "budgets_document b = Obj
     [(''modelRequests'', int_leaf (bu_modelRequests b)), (''toolAttempts'', int_leaf (bu_toolAttempts b)),
      (''requestSeconds'', int_leaf (bu_requestSeconds b)), (''episodeSeconds'', int_leaf (bu_episodeSeconds b)),
      (''cleanupSeconds'', int_leaf (bu_cleanupSeconds b)), (''responseBytes'', int_leaf (bu_responseBytes b)),
      (''traceBytes'', int_leaf (bu_traceBytes b))]"

definition optional_leaf :: "string \<Rightarrow> string \<Rightarrow> (string \<times> jtree) list" where
  "optional_leaf k s = (if s = [] then [] else [(k, str_leaf s)])"

definition task_document :: "agent_task \<Rightarrow> jtree option" where
  "task_document t = map_option (\<lambda>authority. Obj
     ([(''apiVersion'', str_leaf (tk_apiVersion t)), (''kind'', str_leaf (tk_kind t)), (''format'', str_leaf (tk_format t)),
       (''id'', str_leaf (tk_id t)), (''revision'', str_leaf (tk_revision t)), (''domain'', str_leaf (tk_domain t)),
       (''bundle'', str_leaf (tk_bundle t)), (''objective'', str_leaf (tk_objective t))] @
      optional_leaf ''context'' (tk_context t) @
      [(''mode'', str_leaf (tk_mode t)), (''tools'', Arr (map str_leaf (tk_tools t))), (''authority'', Arr authority),
       (''budgets'', budgets_document (tk_budgets t)), (''oracle'', Arr (map assertion_document (tk_oracle t))),
       (''expectedOutcome'', str_leaf (tk_expectedOutcome t))] @
      optional_leaf ''faultTool'' (tk_faultTool t)))
   (all_some (map rule_document (tk_authority t)))"

primrec json_tree :: "json \<Rightarrow> jtree" where
  "json_tree JNull = Leaf ''null''"
| "json_tree (JBool b) = Leaf (if b then ''true'' else ''false'')"
| "json_tree (JNum n) = int_leaf n"
| "json_tree (JStr s) = str_leaf s"
| "json_tree (JArr xs) = Arr (map json_tree xs)"
| "json_tree (JObj kvs) = Obj (map (map_prod id json_tree) kvs)"

section \<open>Admission of a task\<close>

text \<open>What the bundle holds: the decoded twin and fixture, and their texts.\<close>

record task_bundle =
  tb_twin :: "string + twin_spec"
  tb_fixture :: "string + world_state"
  tb_specText :: string
  tb_fixtureText :: string

definition admitTask :: "cel_env \<Rightarrow> agent_task option \<Rightarrow> task_bundle option \<Rightarrow> string + twin_spec \<times> evaluator" where
  "admitTask cel task b =
     (case b of
        None \<Rightarrow> Inl ''TASK_INVALID: bundle required''
      | Some b \<Rightarrow>
          bindE (tb_twin b) (\<lambda>twin.
          bindE (AdmitSurface task (Some twin)) (\<lambda>_.
          bindE (evaluator_Compile cel task) (\<lambda>oracle.
          bindE (safe_tree (Option.bind task task_document) MaxTaskBytes) (\<lambda>_.
          if ContainsSensitive (tb_specText b) \<or> ContainsSensitive (tb_fixtureText b) then Inl ''DATA_POLICY_REJECTED''
          else Inr (twin, oracle))))))"

definition prepareTask :: "cel_env \<Rightarrow> agent_task option \<Rightarrow> task_bundle option \<Rightarrow> string + twin_spec \<times> evaluator" where
  "prepareTask cel task b = (if task = None then Inl ''TASK_INVALID: task is required'' else admitTask cel task b)"

section \<open>The environment\<close>

record tool_world =
  tw_task :: agent_task
  tw_runtime :: runtime
  tw_db :: db
  tw_before :: world_state
  tw_effectful :: "string list"
  tw_sequence :: int

text \<open>
  \<open>provisionAdmitted\<close>: a fresh database with the branch \<open>witness\<close> and, where the task asks for
  one, a fault after commit. The tools that the protocol session lists are a parameter.
\<close>

definition task_fault :: "agent_task \<Rightarrow> fault_plan" where
  "task_fault t =
     \<lparr>fp_id = ''task-after-commit'', fp_branch = ''witness'', fp_tool = tk_faultTool t, fp_phase = PhaseAfter,
      fp_errorClass = ''TIMEOUT_AFTER_EFFECT'', fp_message = ''synthetic response failure'', fp_remaining = 1, fp_fired = 0\<rparr>"

definition provision_world :: "libs \<Rightarrow> agent_task \<Rightarrow> twin_spec \<Rightarrow> task_bundle \<Rightarrow> string + runtime \<times> db \<times> world_state" where
  "provision_world l t twin b =
     bindE (tb_fixture b) (\<lambda>initial.
     case engine_New l (Some twin) of
       Inl _ \<Rightarrow> Inl ''engine''
     | Inr rt \<Rightarrow>
         (case Initialize rt ''witness'' initial empty_db of
            (Inl _, _) \<Rightarrow> Inl ''initialize''
          | (Inr _, d1) \<Rightarrow>
              (case (if tk_faultTool t = [] then (Inr (), d1)
                     else map_prod (map_sum id (\<lambda>_. ())) id (InstallFault (task_fault t) None d1)) of
                 (Inl _, _) \<Rightarrow> Inl ''fault''
               | (Inr _, d2) \<Rightarrow>
                   (case Branch ''witness'' d2 of Inl _ \<Rightarrow> Inl ''branch'' | Inr base \<Rightarrow> Inr (rt, d2, b_state base)))))"

definition provisionAdmitted ::
  "libs \<Rightarrow> agent_task \<Rightarrow> twin_spec \<Rightarrow> task_bundle \<Rightarrow> string + listed_tool option list \<Rightarrow> string + tool_world \<times> listed_tool option list" where
  "provisionAdmitted l t twin b listed =
     bindE (provision_world l t twin b) (\<lambda>(rt, d, before).
     bindE listed (\<lambda>tools.
     if list_ex (\<lambda>name. listed_tool_named name tools = None) (tk_tools t) then Inl ''HOST_NOT_READY''
     else Inr (\<lparr>tw_task = t, tw_runtime = rt, tw_db = d, tw_before = before,
                tw_effectful = map to_name (filter (\<lambda>x. to_effects x \<noteq> []) (tools_of twin)), tw_sequence = 0\<rparr>, tools)))"

text \<open>\<open>environment.state\<close>.\<close>

definition world_now :: "tool_world \<Rightarrow> string + world_state" where
  "world_now w = (case Branch ''witness'' (tw_db w) of Inl _ \<Rightarrow> Inl ''branch'' | Inr b \<Rightarrow> Inr (b_state b))"

section \<open>One call\<close>

definition error_code :: "json \<Rightarrow> string" where
  "error_code result =
     (case result of
        JObj kvs \<Rightarrow>
          (case map_of kvs ''error'' of
             Some (JObj detail) \<Rightarrow> (case map_of detail ''code'' of Some (JStr s) \<Rightarrow> s | _ \<Rightarrow> [])
           | _ \<Rightarrow> [])
      | _ \<Rightarrow> [])"

text \<open>The phase of the last fault event of the current call.\<close>

definition fault_phase_of :: "int \<Rightarrow> fault_event list \<Rightarrow> string" where
  "fault_phase_of calls fs = foldl (\<lambda>p f. if fe_callIndex f = calls then fe_phase f else p) [] fs"

text \<open>What the session made of the call, after it was dispatched.\<close>

definition finish_call :: "eval_event \<Rightarrow> json \<Rightarrow> bool \<Rightarrow> tool_world \<Rightarrow> string + eval_event" where
  "finish_call x result is_error w =
     (let result = canon (renum_json result) in
      case result of
        JObj _ \<Rightarrow>
          if is_error \<and> error_code result = [] then Inl ''INFRASTRUCTURE_ERROR''
          else
            (case (Branch ''witness'' (tw_db w), FaultEvents ''witness'' (tw_db w)) of
               (Inr b, Inr faults) \<Rightarrow>
                 let class = (if is_error then error_code result else []);
                     phase = fault_phase_of (b_calls b) faults;
                     x' = x\<lparr>ee_dispatched := True, ee_delivered := True, ee_result := result, ee_errorClass := class, ee_faultPhase := phase,
                            ee_committed := (ee_tool x \<in> set (tw_effectful w) \<and> (class = [] \<or> phase = PhaseAfter))\<rparr>
                 in bindE (safe_tree (Some (json_tree (eval_event_json x'))) (nat (bu_responseBytes (tk_budgets (tw_task w))))) (\<lambda>_. Inr x')
             | _ \<Rightarrow> Inl ''branch'')
      | _ \<Rightarrow> Inl ''INFRASTRUCTURE_ERROR'')"

text \<open>
  \<open>environment.step\<close>: the event of a call, or the error that ends the episode, and the world. A
  call that the task does not authorize or whose input is invalid is answered without being
  dispatched.
\<close>

definition world_step :: "run_env \<Rightarrow> nat \<Rightarrow> string \<Rightarrow> goval gomap option \<Rightarrow> tool_world \<Rightarrow> (string + eval_event) \<times> tool_world" where
  "world_step e tick tool input w =
     (let w1 = w\<lparr>tw_sequence := tw_sequence w + 1\<rparr>;
          args = input_json e input;
          x = \<lparr>ee_sequence = tw_sequence w, ee_tool = tool, ee_input = args, ee_result = JNull, ee_errorClass = [],
               ee_authorized = Authorized (tw_task w) tool (or_empty input), ee_dispatched = False, ee_committed = False, ee_delivered = False,
               ee_faultPhase = []\<rparr>
      in case rn_ctx e tick of
           Some err \<Rightarrow> (Inl err, w1)
         | None \<Rightarrow>
             let class = (if \<not> ee_authorized x then ''AUTHORITY_DENIED''
                          else if ValidateScheduledAction (rn_libs e) (tw_runtime w) tool args \<noteq> Inr () then ''INVALID_INPUT''
                          else [])
             in if class \<noteq> [] then
                  let x' = x\<lparr>ee_errorClass := class, ee_result := JObj [(''error'', JObj [(''code'', JStr class)])], ee_delivered := True\<rparr>
                  in (bindE (safe_tree (Some (json_tree (eval_event_json x'))) (nat (bu_responseBytes (tk_budgets (tw_task w))))) (\<lambda>_. Inr x'), w1)
                else
                  (case run_tool (rn_libs e) (tw_runtime w) ''witness'' tool (map_vals renum_json (or_empty args)) (tw_db w) of
                     (ToolFailure _, d) \<Rightarrow> (Inl ''INFRASTRUCTURE_ERROR'', w1\<lparr>tw_db := d\<rparr>)
                   | (ToolResult result is_error, d) \<Rightarrow>
                       if \<not> rn_arrives e tick then (Inl ''INFRASTRUCTURE_ERROR'', w1\<lparr>tw_db := d\<rparr>)
                       else (finish_call x result is_error (w1\<lparr>tw_db := d\<rparr>), w1\<lparr>tw_db := d\<rparr>)))"

end
