(* ===== verification/Agent_Loop.thy ===== *)
theory Agent_Loop
  imports Agent_World
begin

text \<open>
  \<open>internal/agenteval/episode.go\<close> and \<open>RunWitness\<close> of \<open>witness.go\<close>: the loop of an agent
  episode between the host session, the model and the world, its failure codes, the end of an
  episode and the report; and the playback of a scripted witness.
\<close>

section \<open>The loop\<close>

record loop_driver =
  ld_live :: bool
  ld_steps :: nat
  ld_source :: string
  ld_exhausted :: string

record loop_state =
  ls_host :: session
  ls_world :: tool_world
  ls_tick :: nat
  ls_events :: "eval_event list"
  ls_frontiers :: "nat list"
  ls_answer :: json
  ls_completed :: bool

definition loop_start :: "session \<Rightarrow> tool_world \<Rightarrow> nat \<Rightarrow> loop_state" where
  "loop_start host w tick =
     \<lparr>ls_host = host, ls_world = w, ls_tick = tick, ls_events = [], ls_frontiers = [], ls_answer = JNull, ls_completed = False\<rparr>"

text \<open>
  The calls of a turn: each is admitted by the host, run, recorded and its result delivered to the
  host. The first failure ends the episode.
\<close>

definition call_step :: "run_env \<Rightarrow> requested_call \<Rightarrow> loop_state \<Rightarrow> string option \<times> loop_state" where
  "call_step e c st =
     (let k = ls_tick st; st1 = st\<lparr>ls_tick := k + 3\<rparr> in
      case AdmitTool (rn_now e k) (rn_ctx e k) (rc_reference c) (ls_host st) of
        (Inl x, h) \<Rightarrow> (Some x, st1\<lparr>ls_host := h\<rparr>)
      | (Inr _, h) \<Rightarrow>
          (case world_step e (k + 1) (rc_tool c) (Some (rc_input c)) (ls_world st) of
             (Inl x, w) \<Rightarrow> (Some x, st1\<lparr>ls_host := h, ls_world := w\<rparr>)
           | (Inr ev, w) \<Rightarrow>
               let st2 = st1\<lparr>ls_world := w, ls_events := ls_events st @ [ev\<lparr>ee_delivered := False\<rparr>]\<rparr> in
               (case Deliver (rn_now e (k + 2)) (rn_ctx e (k + 2)) (rc_reference c) (json_goval (ee_result ev)) h of
                  (Inl x, h') \<Rightarrow> (Some x, st2\<lparr>ls_host := h'\<rparr>)
                | (Inr _, h') \<Rightarrow> (None, st2\<lparr>ls_host := h'\<rparr>))))"

fun run_calls :: "run_env \<Rightarrow> requested_call list \<Rightarrow> loop_state \<Rightarrow> string option \<times> loop_state" where
  "run_calls e [] st = (None, st)"
| "run_calls e (c # cs) st =
     (case call_step e c st of (Some x, st') \<Rightarrow> (Some x, st') | (None, st') \<Rightarrow> run_calls e cs st')"

text \<open>One turn: a request, the reply of the model, and the calls it makes or the final answer.\<close>

definition mark_delivered :: "eval_event list \<Rightarrow> eval_event list" where
  "mark_delivered es = map (\<lambda>x. x\<lparr>ee_delivered := True\<rparr>) es"

definition ask :: "run_env \<Rightarrow> nat \<Rightarrow> loop_state \<Rightarrow> (string + turn) \<times> loop_state" where
  "ask e i st =
     (let k = ls_tick st; st0 = st\<lparr>ls_tick := k + 2\<rparr> in
      case session_Request (rn_now e k) (rn_ctx e k) (ls_host st) of
        (Inl x, h) \<Rightarrow> (Inl x, st0\<lparr>ls_host := h\<rparr>)
      | (Inr request, h) \<Rightarrow>
          let st1 = st0\<lparr>ls_host := h, ls_frontiers := ls_frontiers st @ [length (ls_events st)]\<rparr> in
          (case rn_next e request i of
             Inl x \<Rightarrow> (Inl x, st1)
           | Inr raw \<Rightarrow>
               (case session_Accept (rn_now e (k + 1)) (rn_ctx e (k + 1)) raw h of
                  (r, h') \<Rightarrow> (r, st1\<lparr>ls_host := h', ls_events := mark_delivered (ls_events st)\<rparr>))))"

definition turn_step :: "run_env \<Rightarrow> nat \<Rightarrow> loop_state \<Rightarrow> string option \<times> loop_state" where
  "turn_step e i st =
     (case ask e i st of
        (Inl x, st1) \<Rightarrow> (Some x, st1)
      | (Inr t, st1) \<Rightarrow>
          if tn_final t
          then (None, st1\<lparr>ls_answer := goval_json (rn_fraction e) (tn_answer t), ls_completed := True\<rparr>)
          else (case run_calls e (tn_calls t) st1 of
                  (Some x, st2) \<Rightarrow> (Some x, st2)
                | (None, st2) \<Rightarrow>
                    if int (length (ls_events st2)) > bu_toolAttempts (tk_budgets (tw_task (ls_world st2)))
                    then (Some ''BUDGET_EXHAUSTED'', st2) else (None, st2)))"

fun loop_steps :: "run_env \<Rightarrow> nat \<Rightarrow> nat \<Rightarrow> loop_state \<Rightarrow> string option \<times> loop_state" where
  "loop_steps e 0 i st = (None, st)"
| "loop_steps e (Suc n) i st =
     (case turn_step e i st of
        (Some x, st') \<Rightarrow> (Some x, st')
      | (None, st') \<Rightarrow> if ls_completed st' then (None, st') else loop_steps e n (Suc i) st')"

section \<open>Failure codes\<close>

text \<open>The errors of a context have the texts \<open>context canceled\<close> and \<open>context deadline exceeded\<close>.\<close>

definition known_codes :: "string list" where
  "known_codes =
     [''BUDGET_EXHAUSTED'', ''HOST_PROTOCOL_ERROR'', ''HOST_PROFILE_UNSUPPORTED'', ''DATA_POLICY_REJECTED'', ''INFRASTRUCTURE_ERROR'',
      ''EPISODE_TIMEOUT'', ''EPISODE_STOPPED'', ''LIVE_APPROVAL_EXPIRED_OR_NOT_YET_VALID'', ''LIVE_NOT_AUTHORIZED'', ''PROVIDER_STOPPED'',
      ''PROVIDER_REQUEST_REFUSED'', ''PROVIDER_ACCEPTANCE_UNKNOWN'', ''PROVIDER_HTTP_ERROR'', ''PROVIDER_RESPONSE_INVALID'',
      ''PROVIDER_RESPONSE_LIMIT'', ''PROVIDER_USAGE_INVALID'']"

definition failure_code :: "string \<Rightarrow> string" where
  "failure_code err =
     (if err = ''context canceled'' then ''CANCELED''
      else if err = ''context deadline exceeded'' then ''EPISODE_TIMEOUT''
      else if err \<in> set known_codes then err
      else ''INFRASTRUCTURE_ERROR'')"

definition failure_status :: "string \<Rightarrow> string" where
  "failure_status err =
     (let c = failure_code err in
      if c = ''CANCELED'' then ''canceled''
      else if c = ''EPISODE_TIMEOUT'' then ''timed_out''
      else if c = ''BUDGET_EXHAUSTED'' then ''budget_exhausted''
      else ''host_error'')"

section \<open>The report\<close>

record run_config =
  rf_format :: string
  rf_trialID :: string
  rf_profile :: string
  rf_model :: string
  rf_maxTokens :: int
  rf_synthetic :: bool

record run_definition =
  df_config :: run_config
  df_task :: agent_task
  df_bundleDigest :: string
  df_version :: string
  df_revision :: string
  df_isolation :: string
  df_projection :: string
  df_snapshot :: string

record agent_episode =
  ae_format :: string
  ae_source :: string
  ae_definition :: run_definition
  ae_status :: string
  ae_failure :: string
  ae_terminal :: string
  ae_cleanupFailure :: string
  ae_evidence :: string
  ae_cleanup :: string
  ae_usage :: usage_count
  ae_frontiers :: "nat list"
  ae_evaluation :: "eval_result option"
  ae_view :: view
  ae_replayable :: bool

definition offline_profile :: string where "offline_profile = ''responses-functions-offline-v1''"
definition live_profile :: string where "live_profile = ''openai-responses-local-bridge-v1alpha1''"
definition config_format :: string where "config_format = ''statetwin.dev/agent-run-offline/v1alpha1''"

definition run_id :: "string \<Rightarrow> bool" where
  "run_id s =
     (case s of
        [] \<Rightarrow> False
      | c # cs \<Rightarrow> in_class True [(97, 122)] (of_char c) \<and> length cs \<le> 63 \<and>
          list_all (\<lambda>c. in_class True [(97, 122), (48, 57), (45, 45)] (of_char c)) cs)"

definition config_Validate :: "run_config option \<Rightarrow> string + unit" where
  "config_Validate c =
     (case c of
        None \<Rightarrow> Inl ''HOST_PROFILE_UNSUPPORTED''
      | Some c \<Rightarrow>
          if rf_format c \<noteq> config_format \<or> \<not> run_id (rf_trialID c) \<or> rf_profile c \<noteq> offline_profile \<or> \<not> rf_synthetic c \<or>
             \<not> HasPrefix (rf_model c) ''mock-'' \<or> \<not> run_id (rf_model c) \<or> rf_maxTokens c < 1 \<or> rf_maxTokens c > 8192
          then Inl ''HOST_PROFILE_UNSUPPORTED'' else Inr ())"

text \<open>The report as it is marshalled, members in the order of the struct.\<close>

definition bool_leaf :: "bool \<Rightarrow> jtree" where "bool_leaf b = Leaf (bool_text b)"

definition config_document :: "run_config \<Rightarrow> jtree" where
  "config_document c = Obj
     [(''format'', str_leaf (rf_format c)), (''trialId'', str_leaf (rf_trialID c)), (''profile'', str_leaf (rf_profile c)),
      (''model'', str_leaf (rf_model c)), (''maxOutputTokens'', int_leaf (rf_maxTokens c)), (''syntheticOnly'', bool_leaf (rf_synthetic c))]"

definition definition_document :: "run_definition \<Rightarrow> jtree option" where
  "definition_document d = map_option (\<lambda>t. Obj
     [(''config'', config_document (df_config d)), (''task'', t), (''bundleDigest'', str_leaf (df_bundleDigest d)),
      (''runtimeVersion'', str_leaf (df_version d)), (''runtimeRevision'', str_leaf (df_revision d)),
      (''isolation'', str_leaf (df_isolation d)), (''projection'', str_leaf (df_projection d)),
      (''modelSnapshot'', str_leaf (df_snapshot d))]) (task_document (df_task d))"

definition check_document :: "eval_check \<Rightarrow> jtree" where
  "check_document c = Obj
     ([(''id'', str_leaf (ck_id c)), (''category'', str_leaf (ck_category c)), (''passed'', bool_leaf (ck_passed c))] @
      optional_leaf ''error'' (ck_error c))"

definition result_document :: "eval_result \<Rightarrow> jtree" where
  "result_document r = Obj
     [(''outcome'', str_leaf (rs_outcome r)), (''goalSatisfied'', bool_leaf (rs_goal r)), (''policyAttempts'', int_leaf (int (rs_attempts r))),
      (''blockedAttempts'', int_leaf (int (rs_blocked r))), (''committedViolations'', int_leaf (int (rs_violations r))),
      (''checks'', Arr (map check_document (rs_checks r)))]"

definition view_document :: "view \<Rightarrow> jtree" where
  "view_document v =
     (let state = (\<lambda>s. json_tree (case s of None \<Rightarrow> JNull | Some w \<Rightarrow> state_json w)) in
      Obj [(''before'', state (vw_before v)), (''after'', state (vw_after v)),
           (''events'', Arr (map (json_tree \<circ> eval_event_json) (vw_events v))), (''answer'', json_tree (vw_answer v))])"

definition usage_document :: "usage_count \<Rightarrow> jtree" where
  "usage_document u = Obj
     [(''modelRequests'', int_leaf (uc_modelRequests u)), (''toolAttempts'', int_leaf (uc_toolAttempts u)),
      (''contentBytes'', int_leaf (uc_contentBytes u))]"

definition episode_document :: "agent_episode \<Rightarrow> jtree option" where
  "episode_document r = map_option (\<lambda>d. Obj
     ([(''format'', str_leaf (ae_format r)), (''source'', str_leaf (ae_source r)), (''definition'', d),
       (''executionStatus'', str_leaf (ae_status r))] @
      optional_leaf ''failureCode'' (ae_failure r) @ optional_leaf ''terminalFailureCode'' (ae_terminal r) @
      optional_leaf ''cleanupFailureCode'' (ae_cleanupFailure r) @
      [(''evidenceStatus'', str_leaf (ae_evidence r)), (''cleanupStatus'', str_leaf (ae_cleanup r)),
       (''usage'', usage_document (ae_usage r)),
       (''requestFrontiers'', if ae_frontiers r = [] then Leaf ''null'' else Arr (map (int_leaf \<circ> int) (ae_frontiers r)))] @
      (case ae_evaluation r of None \<Rightarrow> [] | Some x \<Rightarrow> [(''evaluation'', result_document x)]) @
      [(''view'', view_document (ae_view r)), (''worldReplayable'', bool_leaf (ae_replayable r))]))
   (definition_document (ae_definition r))"

section \<open>The end of an episode\<close>

text \<open>
  \<open>finishEpisode\<close>: the state after the episode is read and the view graded. A failure of either
  is a code of the report, not an error. The optional stage may change the report.
\<close>

definition inspect :: "run_env \<Rightarrow> tool_world \<Rightarrow> agent_episode \<Rightarrow> agent_episode" where
  "inspect e w r =
     (let after = (if rn_inspects e then world_now w else Inl ''context deadline exceeded'');
          r1 = r\<lparr>ae_view := (ae_view r)\<lparr>vw_after := (case after of Inl _ \<Rightarrow> None | Inr s \<Rightarrow> Some s)\<rparr>\<rparr>
      in case bindE after (\<lambda>_. bindE (evaluator_Compile (rn_cel e) (Some (tw_task w))) (\<lambda>g. Evaluate (rn_cancelled e) g (ae_view r1))) of
           Inr x \<Rightarrow> r1\<lparr>ae_evaluation := Some x\<rparr>
         | Inl _ \<Rightarrow>
             r1\<lparr>ae_evidence := ''partial'', ae_terminal := ''TERMINAL_INSPECTION_FAILED'',
                ae_failure := (if ae_failure r1 = [] then ''TERMINAL_INSPECTION_FAILED'' else ae_failure r1)\<rparr>)"

definition close_world :: "run_env \<Rightarrow> agent_episode \<Rightarrow> agent_episode" where
  "close_world e r =
     (if rn_closes e then r\<lparr>ae_cleanup := ''complete''\<rparr>
      else r\<lparr>ae_cleanup := ''failed'', ae_cleanupFailure := ''CLEANUP_FAILED'',
             ae_failure := (if ae_failure r = [] then ''CLEANUP_FAILED'' else ae_failure r)\<rparr>)"

type_synonym stage_episode = "(agent_episode \<Rightarrow> string + agent_episode) option"

definition finishEpisode :: "run_env \<Rightarrow> stage_episode \<Rightarrow> tool_world \<Rightarrow> agent_episode \<Rightarrow> string + agent_episode" where
  "finishEpisode e stage w r =
     bindE (case stage of None \<Rightarrow> Inr (inspect e w r) | Some f \<Rightarrow> f (inspect e w r)) (\<lambda>r1.
     bindE (safe_tree (episode_document (close_world e r1)) MaxReportBytes) (\<lambda>_. Inr (close_world e r1)))"

section \<open>Running an episode\<close>

record build_info =
  bi_version :: string
  bi_revision :: string

definition new_episode :: "build_info \<Rightarrow> loop_driver \<Rightarrow> run_config \<Rightarrow> string \<Rightarrow> tool_world \<Rightarrow> agent_episode" where
  "new_episode bi drv c digest w =
     \<lparr>ae_format = (if ld_live drv then ''statetwin.dev/agent-episode-live/v1alpha1'' else ''statetwin.dev/agent-episode-offline/v1alpha1''),
      ae_source = (if ld_live drv then ld_source drv else ''mock-responses''),
      ae_definition =
        \<lparr>df_config = c, df_task = tw_task w, df_bundleDigest = digest, df_version = bi_version bi, df_revision = bi_revision bi,
         df_isolation = (if ld_live drv then ''in-process-tools-fixed-provider-egress'' else ''in-process-offline-trusted''),
         df_projection = (if ld_live drv then live_profile else offline_profile),
         df_snapshot = (if ld_live drv then ''unknown'' else ''not-applicable-mock'')\<rparr>,
      ae_status = ''running'', ae_failure = [], ae_terminal = [], ae_cleanupFailure = [], ae_evidence = ''partial'', ae_cleanup = ''pending'',
      ae_usage = no_usage_count, ae_frontiers = [], ae_evaluation = None,
      ae_view = \<lparr>vw_before = Some (tw_before w), vw_after = None, vw_events = [], vw_answer = JNull\<rparr>, ae_replayable = False\<rparr>"

text \<open>What the loop leaves in the report.\<close>

definition loop_report :: "loop_driver \<Rightarrow> agent_episode \<Rightarrow> string option \<Rightarrow> loop_state \<Rightarrow> agent_episode" where
  "loop_report drv r stop st =
     r\<lparr>ae_view := (ae_view r)\<lparr>vw_events := ls_events st, vw_answer := ls_answer st\<rparr>, ae_frontiers := ls_frontiers st,
       ae_usage := go_usage (se_governor (ls_host st)),
       ae_status := (case stop of Some x \<Rightarrow> failure_status x
                     | None \<Rightarrow> if ls_completed st then ''completed'' else failure_status (ld_exhausted drv)),
       ae_failure := (case stop of Some x \<Rightarrow> failure_code x | None \<Rightarrow> if ls_completed st then [] else ld_exhausted drv)\<rparr>"

definition runLoop ::
  "run_env \<Rightarrow> build_info \<Rightarrow> loop_driver \<Rightarrow> stage_episode \<Rightarrow> agent_task option \<Rightarrow> task_bundle option \<Rightarrow> string \<Rightarrow> run_config \<Rightarrow>
     string + agent_episode" where
  "runLoop e bi drv stage task b digest c =
     bindE (admitTask (rn_cel e) task b) (\<lambda>_.
     bindE (case task of None \<Rightarrow> Inl ''TASK_INVALID'' | Some t \<Rightarrow> rn_freeze e t) (\<lambda>t.
     bindE (prepareTask (rn_cel e) (Some t) b) (\<lambda>(twin, _).
     case b of
       None \<Rightarrow> Inl ''TASK_INVALID: bundle required''
     | Some bundle \<Rightarrow>
         bindE (provisionAdmitted (rn_libs e) t twin bundle (rn_listed e)) (\<lambda>(w, tools).
         bindE ((if ld_live drv then NewResponses else host_New) (rn_now e 0) (rf_model c) (rf_maxTokens c) t tools) (\<lambda>host.
         case loop_steps e (ld_steps drv) 0 (loop_start host w 1) of
           (stop, st) \<Rightarrow>
             finishEpisode e stage (ls_world st) (loop_report drv (new_episode bi drv c digest w) stop st))))))"

record mock_script =
  ms_kind :: string
  ms_synthetic :: bool
  ms_responses :: "string list"

definition mock_ok :: "mock_script \<Rightarrow> bool" where
  "mock_ok m \<longleftrightarrow> ms_kind m = ''MockResponses'' \<and> ms_synthetic m \<and> ms_responses m \<noteq> [] \<and> length (ms_responses m) \<le> 16"

definition runMock ::
  "run_env \<Rightarrow> build_info \<Rightarrow> stage_episode \<Rightarrow> agent_task option \<Rightarrow> task_bundle option \<Rightarrow> string \<Rightarrow> run_config option \<Rightarrow> mock_script option \<Rightarrow>
     string + agent_episode" where
  "runMock e bi stage task b digest config mock =
     bindE (config_Validate config) (\<lambda>_.
     case (config, mock) of
       (Some c, Some m) \<Rightarrow>
         if \<not> mock_ok m then Inl ''HOST_PROFILE_UNSUPPORTED''
         else runLoop (e\<lparr>rn_next := \<lambda>_ i. Inr (ms_responses m ! i)\<rparr>) bi
                \<lparr>ld_live = False, ld_steps = length (ms_responses m), ld_source = [], ld_exhausted = ''MOCK_EXHAUSTED''\<rparr> stage task b digest c
     | _ \<Rightarrow> Inl ''HOST_PROFILE_UNSUPPORTED'')"

text \<open>\<open>DecodeMock\<close>.\<close>

fun bool_field :: "bool \<Rightarrow> jdoc list \<Rightarrow> string + bool" where
  "bool_field b [] = Inr b"
| "bool_field b (DNull # ds) = bool_field b ds"
| "bool_field b (DBool c # ds) = bool_field c ds"
| "bool_field b (_ # ds) = Inl protocol_error"

definition DecodeMock :: "string \<Rightarrow> string + mock_script" where
  "DecodeMock data =
     bindE (decodeJSON data (8 * 2 ^ 20)) (\<lambda>d.
     bindE (struct_members d) (\<lambda>ms.
     if \<not> list_all (\<lambda>(k, _). k \<in> {''kind'', ''syntheticOnly'', ''responses''}) ms then Inl ''HOST_PROTOCOL_ERROR''
     else
       bindE (struct_string ''kind'' ms) (\<lambda>kind.
       bindE (bool_field False (field_values ''syntheticOnly'' ms)) (\<lambda>synthetic.
       bindE (raw_list_field [] (case raw_object data of None \<Rightarrow> [] | Some rs \<Rightarrow> field_values ''responses'' rs)) (\<lambda>responses.
       let m = \<lparr>ms_kind = kind, ms_synthetic = synthetic, ms_responses = responses\<rparr> in
       if mock_ok m then Inr m else Inl ''HOST_PROFILE_UNSUPPORTED'')))))"

section \<open>Playback of a witness\<close>

record witness_script =
  wi_kind :: string
  wi_taskID :: string
  wi_synthetic :: bool
  wi_calls :: "(string \<times> goval gomap option) list"
  wi_answer :: goval

definition witness_document :: "witness_script \<Rightarrow> jtree option" where
  "witness_document w =
     (case (all_some (map (\<lambda>(tool, input). map_option (\<lambda>i. Obj [(''tool'', str_leaf tool), (''input'', i)])
              (case input of None \<Rightarrow> Some (Leaf ''null'') | Some m \<Rightarrow> goval_tree (GMap m))) (wi_calls w)),
            goval_tree (wi_answer w)) of
        (Some calls, Some said) \<Rightarrow> Some (Obj
          [(''kind'', str_leaf (wi_kind w)), (''taskId'', str_leaf (wi_taskID w)), (''syntheticOnly'', bool_leaf (wi_synthetic w)),
           (''calls'', if calls = [] then Leaf ''null'' else Arr calls), (''answer'', said)])
      | _ \<Rightarrow> None)"

fun witness_calls ::
  "run_env \<Rightarrow> (string \<times> goval gomap option) list \<Rightarrow> nat \<Rightarrow> eval_event list \<Rightarrow> tool_world \<Rightarrow> (string + eval_event list) \<times> tool_world" where
  "witness_calls e [] k es w = (Inr es, w)"
| "witness_calls e (c # cs) k es w =
     (case world_step e k (fst c) (snd c) w of
        (Inl x, w') \<Rightarrow> (Inl x, w')
      | (Inr ev, w') \<Rightarrow>
          (case safe_tree (Some (Arr (map (json_tree \<circ> eval_event_json) (es @ [ev]))))
                  (nat (bu_traceBytes (tk_budgets (tw_task w')) - 65536)) of
             Inl x \<Rightarrow> (Inl x, w')
           | Inr _ \<Rightarrow> witness_calls e cs (Suc k) (es @ [ev]) w'))"

record witness_report =
  wr_taskID :: string
  wr_evaluation :: eval_result
  wr_view :: view

definition witness_report_document :: "witness_report \<Rightarrow> jtree" where
  "witness_report_document r = Obj
     [(''format'', str_leaf ''statetwin.dev/task-witness-report/v1alpha1''), (''source'', str_leaf ''scripted-witness''),
      (''taskId'', str_leaf (wr_taskID r)), (''executionStatus'', str_leaf ''completed''), (''cleanupStatus'', str_leaf ''complete''),
      (''evaluation'', result_document (wr_evaluation r)), (''view'', view_document (wr_view r))]"

text \<open>A world that fails to close fails the playback.\<close>

definition RunWitness :: "run_env \<Rightarrow> agent_task option \<Rightarrow> task_bundle option \<Rightarrow> witness_script option \<Rightarrow> string + witness_report" where
  "RunWitness e task b script =
     bindE (prepareTask (rn_cel e) task b) (\<lambda>(twin, oracle).
     case (task, b, script) of
       (Some t, Some bundle, Some s) \<Rightarrow>
         if wi_kind s \<noteq> ''TaskWitness'' \<or> \<not> wi_synthetic s \<or> wi_taskID s \<noteq> tk_id t \<or>
            int (length (wi_calls s)) > bu_toolAttempts (tk_budgets t)
         then Inl ''TASK_INVALID: witness identity or budget''
         else
           bindE (safe_tree (witness_document s) MaxTaskBytes) (\<lambda>_.
           bindE (provisionAdmitted (rn_libs e) t twin bundle (rn_listed e)) (\<lambda>(w, _).
             if \<not> rn_closes e then Inl ''CLEANUP_FAILED''
             else (case witness_calls e (wi_calls s) 0 [] w of
               (Inl x, _) \<Rightarrow> Inl x
             | (Inr es, w') \<Rightarrow>
                 bindE (world_now w') (\<lambda>after.
                 let v = \<lparr>vw_before = Some (tw_before w), vw_after = Some after, vw_events = es,
                          vw_answer = goval_json (rn_fraction e) (wi_answer s)\<rparr> in
                 bindE (Evaluate (rn_cancelled e) oracle v) (\<lambda>x.
                 let r = \<lparr>wr_taskID = tk_id t, wr_evaluation = x, wr_view = v\<rparr> in
                 bindE (safe_tree (Some (witness_report_document r)) MaxReportBytes) (\<lambda>_. Inr r))))))
     | _ \<Rightarrow> Inl ''TASK_INVALID: witness identity or budget'')"

end
