(* ===== verification/Agent_Loop_Facts.thy ===== *)
theory Agent_Loop_Facts
  imports Agent_Loop Host_Facts
begin

text \<open>
  Invariants of the loop of an agent episode: the world changes only by calls that the task
  permits, the counters account for requests and events, and events are delivered in order.
\<close>

section \<open>One call\<close>

definition perform :: "run_env \<Rightarrow> runtime \<Rightarrow> db \<Rightarrow> string \<times> goval gomap option \<Rightarrow> db" where
  "perform e rt d call =
     snd (run_tool (rn_libs e) rt ''witness'' (fst call) (map_vals renum_json (or_empty (input_json e (snd call)))) d)"

lemma finish_call_Inr:
  assumes "finish_call x result is_error w = Inr ev"
  shows "ee_sequence ev = ee_sequence x \<and> ee_tool ev = ee_tool x \<and> ee_authorized ev = ee_authorized x \<and> ee_dispatched ev"
  using assms by (auto simp: finish_call_def Let_def bindE_eq_Inr split: json.splits if_splits sum.splits)

text \<open>A call that the task authorizes and whose input fits the schema of the tool.\<close>

definition permitted :: "run_env \<Rightarrow> tool_world \<Rightarrow> string \<times> goval gomap option \<Rightarrow> bool" where
  "permitted e w call \<longleftrightarrow>
     Authorized (tw_task w) (fst call) (or_empty (snd call)) \<and>
     ValidateScheduledAction (rn_libs e) (tw_runtime w) (fst call) (input_json e (snd call)) = Inr ()"

lemma permitted_cong: "tw_task w = tw_task w' \<Longrightarrow> tw_runtime w = tw_runtime w' \<Longrightarrow> permitted e w = permitted e w'"
  by (simp add: permitted_def fun_eq_iff)

text \<open>The world after a call is the one it had, or the one that an authorized call made of it.\<close>

lemma world_step_frame:
  assumes "world_step e k tool input w = (r, w')"
  shows "tw_task w' = tw_task w \<and> tw_runtime w' = tw_runtime w \<and> tw_sequence w' = tw_sequence w + 1"
  using assms by (auto simp: world_step_def Let_def split: option.splits if_splits prod.splits tool_result.splits)

lemma world_step_acts:
  assumes "world_step e k tool input w = (r, w')"
  obtains (kept) "tw_db w' = tw_db w" "\<And>ev. r = Inr ev \<Longrightarrow> \<not> ee_dispatched ev \<and> \<not> ee_committed ev"
  | (acted) "permitted e w (tool, input)" "tw_db w' = perform e (tw_runtime w) (tw_db w) (tool, input)"
      "\<And>ev. r = Inr ev \<Longrightarrow> ee_dispatched ev \<and> ee_authorized ev"
proof (cases "rn_ctx e k = None \<and> Authorized (tw_task w) tool (or_empty input) \<and>
    ValidateScheduledAction (rn_libs e) (tw_runtime w) tool (input_json e input) = Inr ()")
  case True
  obtain res d where r: "run_tool (rn_libs e) (tw_runtime w) ''witness'' tool (map_vals renum_json (or_empty (input_json e input))) (tw_db w) = (res, d)"
    by fastforce
  then have d: "perform e (tw_runtime w) (tw_db w) (tool, input) = d" by (simp add: perform_def)
  have "tw_db w' = d \<and> (\<forall>ev. r = Inr ev \<longrightarrow> ee_dispatched ev \<and> ee_authorized ev)"
    using assms True r by (auto simp: world_step_def Let_def dest!: finish_call_Inr split: tool_result.splits if_splits)
  then show ?thesis using True d acted by (auto simp: permitted_def)
next
  case False
  then have "tw_db w' = tw_db w \<and> (\<forall>ev. r = Inr ev \<longrightarrow> \<not> ee_dispatched ev \<and> \<not> ee_committed ev)"
    using assms by (auto simp: world_step_def Let_def bindE_eq_Inr split: option.splits if_splits)
  then show ?thesis using kept by blast
qed

lemma world_step_event:
  assumes "world_step e k tool input w = (Inr ev, w')"
  shows "ee_sequence ev = tw_sequence w \<and> ee_tool ev = tool"
  using assms by (auto simp: world_step_def Let_def bindE_eq_Inr dest!: finish_call_Inr split: option.splits if_splits prod.splits tool_result.splits)

lemma world_step_event_ok:
  assumes "world_step e k tool input w = (Inr ev, w')"
  shows "ee_committed ev \<longrightarrow> ee_dispatched ev" "ee_dispatched ev \<longrightarrow> ee_authorized ev"
  using world_step_acts [OF assms] by (metis)+

section \<open>The loop\<close>

lemma call_step_completed: "call_step e c st = (stop, st') \<Longrightarrow> ls_completed st' = ls_completed st"
  by (auto simp: call_step_def Let_def split: prod.splits sum.splits)

lemma ask_completed: "ask e i st = (r, st') \<Longrightarrow> ls_completed st' = ls_completed st"
  by (auto simp: ask_def Let_def split: prod.splits sum.splits)

text \<open>
  What holds of the loop state before a turn, or with the reason that ended the loop, is an
  invariant as soon as every call and every exchange with the model keeps it.
\<close>

locale loop_invariant =
  fixes e :: run_env and I :: "string option \<Rightarrow> loop_state \<Rightarrow> bool"
  assumes weaken: "I None st \<Longrightarrow> I (Some x) st"
    and call: "I None st \<Longrightarrow> \<not> ls_completed st \<Longrightarrow> call_step e c st = (stop, st') \<Longrightarrow> I stop st'"
    and refused: "I None st \<Longrightarrow> \<not> ls_completed st \<Longrightarrow> ask e i st = (Inl x, st') \<Longrightarrow> I (Some x) st'"
    and replied: "I None st \<Longrightarrow> \<not> ls_completed st \<Longrightarrow> ask e i st = (Inr t, st') \<Longrightarrow> I None st'"
    and answered: "I None st \<Longrightarrow> \<not> ls_completed st \<Longrightarrow> ask e i st = (Inr t, st') \<Longrightarrow>
      I None (st'\<lparr>ls_answer := a, ls_completed := True\<rparr>)"
begin

lemma calls: "I None st \<Longrightarrow> \<not> ls_completed st \<Longrightarrow> run_calls e cs st = (stop, st') \<Longrightarrow> I stop st' \<and> \<not> ls_completed st'"
proof (induction cs arbitrary: st)
  case (Cons c cs)
  obtain x st1 where c: "call_step e c st = (x, st1)" by fastforce
  show ?case using Cons.IH [of st1] Cons.prems call [OF Cons.prems(1,2) c] call_step_completed [OF c] c by (cases x) auto
qed simp

lemma turn:
  assumes "I None st" "\<not> ls_completed st" "turn_step e i st = (stop, st')"
  shows "I stop st'"
proof -
  obtain r st1 where a: "ask e i st = (r, st1)" by fastforce
  show ?thesis
  proof (cases r)
    case (Inl x)
    then show ?thesis using assms a refused [OF assms(1,2)] by (auto simp: turn_step_def)
  next
    case (Inr t)
    obtain x st2 where c: "run_calls e (tn_calls t) st1 = (x, st2)" by fastforce
    have "I x st2" using calls [OF replied _ c] ask_completed [OF a] assms(1,2) a Inr by blast
    then show ?thesis using assms a Inr c answered [OF assms(1,2)] weaken
      by (cases x) (auto simp: turn_step_def split: if_splits)
  qed
qed

theorem steps: "I None st \<Longrightarrow> \<not> ls_completed st \<Longrightarrow> loop_steps e n i st = (stop, st') \<Longrightarrow> I stop st'"
proof (induction n arbitrary: i st)
  case (Suc n)
  obtain x st1 where t: "turn_step e i st = (x, st1)" by fastforce
  show ?case using Suc.IH [of st1] Suc.prems turn [OF Suc.prems(1,2) t] t by (cases x) (auto split: if_splits)
qed simp

end

section \<open>The world and the events\<close>

lemma event_chain_snoc:
  "event_chain_ok i (es @ [x]) \<longleftrightarrow>
     event_chain_ok i es \<and> ee_sequence x = i + int (length es) \<and> (ee_committed x \<longrightarrow> ee_dispatched x)"
proof (induction es arbitrary: i)
  case (Cons y es)
  have "i + 1 + int (length es) = i + int (length (y # es))" by simp
  then show ?case unfolding append_Cons event_chain_ok.simps Cons.IH by (simp only: conj_assoc)
qed simp

lemma mark_delivered_Cons: "mark_delivered (x # xs) = x\<lparr>ee_delivered := True\<rparr> # mark_delivered xs"
  by (simp add: mark_delivered_def)

lemma mark_delivered_Nil: "mark_delivered [] = []"
  by (simp add: mark_delivered_def)

lemmas mark_delivered_simps = mark_delivered_Nil mark_delivered_Cons

lemma event_chain_mark: "event_chain_ok i (mark_delivered es) = event_chain_ok i es"
  by (induction es arbitrary: i) (simp_all add: mark_delivered_simps)

lemma length_mark [simp]: "length (mark_delivered es) = length es"
  by (simp add: mark_delivered_def)

lemma dispatched_mark [simp]: "map ee_tool (filter ee_dispatched (mark_delivered es)) = map ee_tool (filter ee_dispatched es)"
  by (induction es) (simp_all add: mark_delivered_simps)

lemma authorized_mark [simp]:
  "list_all (\<lambda>x. ee_dispatched x \<longrightarrow> ee_authorized x) (mark_delivered es) = list_all (\<lambda>x. ee_dispatched x \<longrightarrow> ee_authorized x) es"
  by (induction es) (simp_all add: mark_delivered_simps)

lemma delivered_mark [simp]: "map ee_delivered (mark_delivered es) = replicate (length es) True"
  by (induction es) (simp_all add: mark_delivered_simps)

text \<open>
  The calls that reached the world: authorized ones, in the order of the dispatched events, the last
  one without an event when its failure ended the loop.
\<close>

definition acts_ok :: "run_env \<Rightarrow> tool_world \<Rightarrow> nat \<Rightarrow> eval_event list \<Rightarrow> db \<Rightarrow> (string \<times> goval gomap option) list \<Rightarrow> bool" where
  "acts_ok e w0 slack es d acts \<longleftrightarrow>
     list_all (permitted e w0) acts \<and>
     d = foldl (perform e (tw_runtime w0)) (tw_db w0) acts \<and>
     (\<exists>extra. map fst acts = map ee_tool (filter ee_dispatched es) @ extra \<and> length extra \<le> slack)"

definition world_inv :: "run_env \<Rightarrow> tool_world \<Rightarrow> string option \<Rightarrow> loop_state \<Rightarrow> bool" where
  "world_inv e w0 stop st \<longleftrightarrow>
     tw_task (ls_world st) = tw_task w0 \<and> tw_runtime (ls_world st) = tw_runtime w0 \<and>
     event_chain_ok 0 (ls_events st) \<and> list_all (\<lambda>x. ee_dispatched x \<longrightarrow> ee_authorized x) (ls_events st) \<and>
     (stop = None \<longrightarrow> tw_sequence (ls_world st) = int (length (ls_events st))) \<and>
     (\<exists>acts. acts_ok e w0 (if stop = None then 0 else 1) (ls_events st) (tw_db (ls_world st)) acts)"

lemma acts_ok_mono: "acts_ok e w0 n es d acts \<Longrightarrow> n \<le> m \<Longrightarrow> acts_ok e w0 m es d acts"
  unfolding acts_ok_def by (metis le_trans)

lemma ex_mono_slack: "\<exists>acts. acts_ok e w0 0 es d acts \<Longrightarrow> \<exists>acts. acts_ok e w0 (if stop = None then 0 else 1) es d acts"
  using acts_ok_mono by (metis le0)

lemma acts_ok_same:
  "acts_ok e w0 0 es d acts \<Longrightarrow> \<not> ee_dispatched x \<Longrightarrow> acts_ok e w0 0 (es @ [x]) d acts"
  by (simp add: acts_ok_def)

lemma acts_ok_act:
  assumes "acts_ok e w0 0 es d acts" "permitted e w0 (tool, input)" "ee_dispatched x" "ee_tool x = tool"
  shows "acts_ok e w0 0 (es @ [x]) (perform e (tw_runtime w0) d (tool, input)) (acts @ [(tool, input)])"
    and "acts_ok e w0 1 es (perform e (tw_runtime w0) d (tool, input)) (acts @ [(tool, input)])"
  using assms by (auto simp: acts_ok_def)

lemma call_step_cases:
  assumes "call_step e c st = (stop, st')"
  obtains (refused) x h where "stop = Some x" "st' = st\<lparr>ls_tick := ls_tick st + 3, ls_host := h\<rparr>"
      "AdmitTool (rn_now e (ls_tick st)) (rn_ctx e (ls_tick st)) (rc_reference c) (ls_host st) = (Inl x, h)"
  | (failed) x h w where "stop = Some x" "st' = st\<lparr>ls_tick := ls_tick st + 3, ls_host := h, ls_world := w\<rparr>"
      "AdmitTool (rn_now e (ls_tick st)) (rn_ctx e (ls_tick st)) (rc_reference c) (ls_host st) = (Inr (), h)"
      "world_step e (ls_tick st + 1) (rc_tool c) (Some (rc_input c)) (ls_world st) = (Inl x, w)"
  | (ran) h ev w r h' where
      "AdmitTool (rn_now e (ls_tick st)) (rn_ctx e (ls_tick st)) (rc_reference c) (ls_host st) = (Inr (), h)"
      "world_step e (ls_tick st + 1) (rc_tool c) (Some (rc_input c)) (ls_world st) = (Inr ev, w)"
      "Deliver (rn_now e (ls_tick st + 2)) (rn_ctx e (ls_tick st + 2)) (rc_reference c) (json_goval (ee_result ev)) h = (r, h')"
      "stop = (case r of Inl x \<Rightarrow> Some x | Inr _ \<Rightarrow> None)"
      "st' = st\<lparr>ls_tick := ls_tick st + 3, ls_world := w, ls_events := ls_events st @ [ev\<lparr>ee_delivered := False\<rparr>], ls_host := h'\<rparr>"
  using assms by (auto simp: call_step_def Let_def split: prod.splits sum.splits)

lemma ask_cases:
  assumes "ask e i st = (r, st')"
  obtains (refused) x h where "r = Inl x" "st' = st\<lparr>ls_tick := ls_tick st + 2, ls_host := h\<rparr>"
      "session_Request (rn_now e (ls_tick st)) (rn_ctx e (ls_tick st)) (ls_host st) = (Inl x, h)"
  | (silent) x h raw where "r = Inl x"
      "st' = st\<lparr>ls_tick := ls_tick st + 2, ls_host := h, ls_frontiers := ls_frontiers st @ [length (ls_events st)]\<rparr>"
      "session_Request (rn_now e (ls_tick st)) (rn_ctx e (ls_tick st)) (ls_host st) = (Inr raw, h)"
  | (reply) raw request h h' where
      "session_Request (rn_now e (ls_tick st)) (rn_ctx e (ls_tick st)) (ls_host st) = (Inr request, h)"
      "session_Accept (rn_now e (ls_tick st + 1)) (rn_ctx e (ls_tick st + 1)) raw h = (r, h')"
      "st' = st\<lparr>ls_tick := ls_tick st + 2, ls_host := h', ls_frontiers := ls_frontiers st @ [length (ls_events st)],
                ls_events := mark_delivered (ls_events st)\<rparr>"
  using assms by (auto simp: ask_def Let_def split: prod.splits sum.splits)

lemma world_inv_call:
  assumes "world_inv e w0 None st" "call_step e c st = (stop, st')"
  shows "world_inv e w0 stop st'"
  using assms(2)
proof (cases rule: call_step_cases)
  case (refused x h)
  then show ?thesis using assms(1) acts_ok_mono [where n = 0 and m = 1] by (fastforce simp: world_inv_def)
next
  case (failed x h w)
  obtain acts where acts: "acts_ok e w0 0 (ls_events st) (tw_db (ls_world st)) acts" using assms(1) by (auto simp: world_inv_def)
  have task: "tw_task (ls_world st) = tw_task w0" "tw_runtime (ls_world st) = tw_runtime w0" using assms(1) by (simp_all add: world_inv_def)
  have "\<exists>acts. acts_ok e w0 1 (ls_events st) (tw_db w) acts"
    using failed(4)
  proof (cases rule: world_step_acts)
    case kept
    then show ?thesis using acts acts_ok_mono by fastforce
  next
    case acted
    have "permitted e w0 (rc_tool c, Some (rc_input c))" using acted(1) permitted_cong task by metis
    then have "acts_ok e w0 1 (ls_events st) (perform e (tw_runtime w0) (tw_db (ls_world st)) (rc_tool c, Some (rc_input c)))
        (acts @ [(rc_tool c, Some (rc_input c))])"
      using acts by (auto simp: acts_ok_def)
    then show ?thesis using acted(2) task by auto
  qed
  then show ?thesis using assms(1) failed(1,2) world_step_frame [OF failed(4)] by (simp add: world_inv_def)
next
  case (ran h ev w r h')
  let ?x = "ev\<lparr>ee_delivered := False\<rparr>"
  obtain acts where acts: "acts_ok e w0 0 (ls_events st) (tw_db (ls_world st)) acts" using assms(1) by (auto simp: world_inv_def)
  have task: "tw_task (ls_world st) = tw_task w0" "tw_runtime (ls_world st) = tw_runtime w0" using assms(1) by (simp_all add: world_inv_def)
  note ev = world_step_event [OF ran(2)] world_step_event_ok [OF ran(2)]
  have "\<exists>acts. acts_ok e w0 0 (ls_events st @ [?x]) (tw_db w) acts"
    using ran(2)
  proof (cases rule: world_step_acts)
    case kept
    then show ?thesis using acts_ok_same [OF acts, of ?x] by auto
  next
    case acted
    have "permitted e w0 (rc_tool c, Some (rc_input c))" using acted(1) permitted_cong task by metis
    then show ?thesis using acted acts_ok_act(1) [OF acts, of "rc_tool c" "Some (rc_input c)" ?x] task ev by auto
  qed
  then have "\<exists>acts. acts_ok e w0 (if stop = None then 0 else 1) (ls_events st @ [?x]) (tw_db w) acts"
    by (rule ex_mono_slack)
  moreover have "event_chain_ok 0 (ls_events st @ [?x])" "tw_sequence w = int (length (ls_events st @ [?x]))"
    using assms(1) ev world_step_frame [OF ran(2)] by (simp_all add: world_inv_def event_chain_snoc)
  ultimately show ?thesis using assms(1) ran(5) ev world_step_frame [OF ran(2)] by (simp add: world_inv_def)
qed

lemma acts_ok_mark: "acts_ok e w0 n (mark_delivered es) d acts = acts_ok e w0 n es d acts"
  by (simp add: acts_ok_def)

lemma world_inv_weaken: "world_inv e w0 None st \<Longrightarrow> world_inv e w0 (Some x) st"
  using acts_ok_mono [where n = 0 and m = 1] by (fastforce simp: world_inv_def)

lemma world_inv_ask:
  assumes "world_inv e w0 None st" "ask e i st = (r, st')"
  shows "world_inv e w0 None st'"
  using assms(2)
  by (cases rule: ask_cases) (use assms(1) in \<open>simp_all add: world_inv_def event_chain_mark acts_ok_mark\<close>)

interpretation world_loop: loop_invariant e "world_inv e w0" for e w0
proof unfold_locales
  fix st st' i t a
  assume "world_inv e w0 None st" "ask e i st = (Inr t, st')"
  then have "world_inv e w0 None st'" by (rule world_inv_ask)
  then show "world_inv e w0 None (st'\<lparr>ls_answer := a, ls_completed := True\<rparr>)" by (simp add: world_inv_def)
qed (auto intro: world_inv_weaken world_inv_call dest: world_inv_ask)

section \<open>Budgets, requests and deliveries\<close>

lemma request_account:
  assumes "session_Request now ctx s = (r, s')" "session_inv s"
  shows "session_inv s' \<and> se_budgets s' = se_budgets s \<and>
    uc_modelRequests (go_usage (se_governor s')) = uc_modelRequests (go_usage (se_governor s)) + (case r of Inl _ \<Rightarrow> 0 | Inr _ \<Rightarrow> 1) \<and>
    uc_toolAttempts (go_usage (se_governor s')) = uc_toolAttempts (go_usage (se_governor s))"
  using host_step_ok [OF assms(2), of "(now, ctx, ORequest)"] assms(1)
  by (auto simp: host_step_def step_ok_def step_account_def Let_def split: sum.splits)

lemma accept_account:
  assumes "session_Accept now ctx raw s = (r, s')" "session_inv s"
  shows "session_inv s' \<and> se_budgets s' = se_budgets s \<and>
    uc_modelRequests (go_usage (se_governor s')) = uc_modelRequests (go_usage (se_governor s)) \<and>
    uc_toolAttempts (go_usage (se_governor s')) = uc_toolAttempts (go_usage (se_governor s))"
  using host_step_ok [OF assms(2), of "(now, ctx, OAccept raw)"] assms(1)
  by (auto simp: host_step_def step_ok_def step_account_def Let_def split: sum.splits)

lemma admit_account:
  assumes "AdmitTool now ctx ref s = (r, s')" "session_inv s"
  shows "session_inv s' \<and> se_budgets s' = se_budgets s \<and>
    uc_modelRequests (go_usage (se_governor s')) = uc_modelRequests (go_usage (se_governor s)) \<and>
    uc_toolAttempts (go_usage (se_governor s')) = uc_toolAttempts (go_usage (se_governor s)) + (case r of Inl _ \<Rightarrow> 0 | Inr _ \<Rightarrow> 1)"
  using host_step_ok [OF assms(2), of "(now, ctx, OAdmit ref)"] assms(1)
  by (auto simp: host_step_def step_ok_def step_account_def Let_def split: sum.splits)

lemma deliver_account:
  assumes "Deliver now ctx ref v s = (r, s')" "session_inv s"
  shows "session_inv s' \<and> se_budgets s' = se_budgets s \<and>
    uc_modelRequests (go_usage (se_governor s')) = uc_modelRequests (go_usage (se_governor s)) \<and>
    uc_toolAttempts (go_usage (se_governor s')) = uc_toolAttempts (go_usage (se_governor s))"
  using host_step_ok [OF assms(2), of "(now, ctx, ODeliver ref v)"] assms(1)
  by (auto simp: host_step_def step_ok_def step_account_def Let_def split: sum.splits)

text \<open>
  The usage of the host counts the requests, one per frontier, and the tool attempts, one per event
  and one more when an attempt ended the loop.
\<close>

definition count_inv :: "budgets \<Rightarrow> string option \<Rightarrow> loop_state \<Rightarrow> bool" where
  "count_inv b stop st \<longleftrightarrow>
     (let u = go_usage (se_governor (ls_host st)); n = length (ls_events st) in
      session_inv (ls_host st) \<and> se_budgets (ls_host st) = b \<and> uc_modelRequests u = int (length (ls_frontiers st)) \<and>
      int n \<le> uc_toolAttempts u \<and> uc_toolAttempts u \<le> int n + (if stop = None then 0 else 1) \<and>
      sorted (ls_frontiers st) \<and> list_all (\<lambda>f. f \<le> n) (ls_frontiers st))"

lemma list_all_le_mono: "list_all (\<lambda>f. f \<le> n) fs \<Longrightarrow> n \<le> m \<Longrightarrow> list_all (\<lambda>f. f \<le> (m::nat)) fs"
  by (auto simp: list_all_iff)

lemma sorted_frontier: "sorted fs \<Longrightarrow> list_all (\<lambda>f. f \<le> n) fs \<Longrightarrow> sorted (fs @ [n::nat])"
  by (auto simp: sorted_append list_all_iff)

lemma count_inv_call:
  assumes "count_inv b None st" "call_step e c st = (stop, st')"
  shows "count_inv b stop st'"
  using assms(2)
proof (cases rule: call_step_cases)
  case (refused x h)
  then show ?thesis using assms(1) admit_account [OF refused(3)] by (auto simp: count_inv_def Let_def)
next
  case (failed x h w)
  then show ?thesis using assms(1) admit_account [OF failed(3)] by (auto simp: count_inv_def Let_def)
next
  case (ran h ev w r h')
  have inv: "session_inv (ls_host st)" using assms(1) by (simp add: count_inv_def Let_def)
  note a = admit_account [OF ran(1) inv]
  note d = deliver_account [OF ran(3)]
  show ?thesis using assms(1) a d ran(5) list_all_le_mono [of "length (ls_events st)" "ls_frontiers st" "Suc (length (ls_events st))"]
    by (auto simp: count_inv_def Let_def)
qed

lemma count_inv_ask:
  assumes "count_inv b None st" "ask e i st = (r, st')"
  shows "count_inv b None st'"
  using assms(2)
proof (cases rule: ask_cases)
  case (refused x h)
  then show ?thesis using assms(1) request_account [OF refused(3)] by (auto simp: count_inv_def Let_def)
next
  case (silent x h raw)
  then show ?thesis using assms(1) request_account [OF silent(3)] by (auto simp: count_inv_def Let_def sorted_frontier)
next
  case (reply raw request h h')
  have inv: "session_inv (ls_host st)" using assms(1) by (simp add: count_inv_def Let_def)
  note q = request_account [OF reply(1) inv]
  show ?thesis using assms(1) q accept_account [OF reply(2)] reply(3) by (auto simp: count_inv_def Let_def sorted_frontier)
qed

lemma count_inv_weaken: "count_inv b None st \<Longrightarrow> count_inv b (Some x) st"
  by (simp add: count_inv_def Let_def)

interpretation count_loop: loop_invariant e "count_inv b" for e b
proof unfold_locales
  fix st st' i t a
  assume "count_inv b None st" "ask e i st = (Inr t, st')"
  then have "count_inv b None st'" by (rule count_inv_ask)
  then show "count_inv b None (st'\<lparr>ls_answer := a, ls_completed := True\<rparr>)" by (simp add: count_inv_def)
qed (auto intro: count_inv_weaken count_inv_call dest: count_inv_ask)

text \<open>
  The events that were delivered are those before the frontier of a request that the model answered; when the
  episode completes, all of them.
\<close>

definition delivered_inv :: "string option \<Rightarrow> loop_state \<Rightarrow> bool" where
  "delivered_inv stop st \<longleftrightarrow>
     (\<exists>m \<in> insert 0 (set (ls_frontiers st)). m \<le> length (ls_events st) \<and> (ls_completed st \<longrightarrow> m = length (ls_events st)) \<and>
        map ee_delivered (ls_events st) = replicate m True @ replicate (length (ls_events st) - m) False)"

lemma delivered_inv_call:
  assumes "delivered_inv None st" "\<not> ls_completed st" "call_step e c st = (stop, st')"
  shows "delivered_inv stop st'"
  using assms(3)
proof (cases rule: call_step_cases)
  case (ran h ev w r h')
  obtain m where m: "m \<in> insert 0 (set (ls_frontiers st))" "m \<le> length (ls_events st)"
    "map ee_delivered (ls_events st) = replicate m True @ replicate (length (ls_events st) - m) False"
    using assms(1) unfolding delivered_inv_def by blast
  have "map ee_delivered (ls_events st') = replicate m True @ replicate (length (ls_events st') - m) False"
    using m ran(5) by (simp add: Suc_diff_le replicate_append_same)
  then show ?thesis using m assms(2) ran(5) unfolding delivered_inv_def by (intro bexI [of _ m]) auto
qed (use assms(1) in \<open>auto simp: delivered_inv_def\<close>)

lemma delivered_inv_ask:
  assumes "delivered_inv None st" "\<not> ls_completed st" "ask e i st = (r, st')"
  shows "delivered_inv x st'"
  using assms(3)
proof (cases rule: ask_cases)
  case (reply raw request h h')
  then show ?thesis unfolding delivered_inv_def by (intro bexI [of _ "length (ls_events st)"]) simp_all
qed (use assms(1,2) in \<open>auto simp: delivered_inv_def\<close>)

lemma delivered_inv_answered:
  assumes "delivered_inv None st" "ask e i st = (Inr t, st')"
  shows "delivered_inv None (st'\<lparr>ls_answer := a, ls_completed := True\<rparr>)"
  using assms(2)
proof (cases rule: ask_cases)
  case (reply raw request h h')
  then show ?thesis unfolding delivered_inv_def by (intro bexI [of _ "length (ls_events st)"]) simp_all
qed simp_all

lemma delivered_inv_any: "delivered_inv None st \<Longrightarrow> delivered_inv x st"
  by (simp add: delivered_inv_def)

interpretation delivered_loop: loop_invariant e delivered_inv for e
  by unfold_locales
    (erule delivered_inv_any delivered_inv_call [rotated 1] delivered_inv_ask [rotated 1] delivered_inv_answered; assumption)+

end
