(* ===== verification/Agent_Loop_Props.thy ===== *)
theory Agent_Loop_Props
  imports Agent_Loop_Facts Host_Props Engine_Props
begin

text \<open>
  What an agent episode guarantees: its calls stay within the authority of the task, its events and
  counters account for what happened, and its report is consistent with the grade.
\<close>

section \<open>An example\<close>

definition ex_run_env :: run_env where
  "ex_run_env =
     \<lparr>rn_now = \<lambda>_. 0, rn_ctx = \<lambda>_. None, rn_next = \<lambda>_ _. Inl ''PROVIDER_STOPPED'', rn_arrives = \<lambda>_. True, rn_libs = ex_libs,
      rn_cel = Agent_Props.ex_env, rn_fraction = \<lambda>_. JNull, rn_listed = Inr ex_listed, rn_freeze = Inr, rn_inspects = True,
      rn_cancelled = \<lambda>_. False, rn_closes = True\<rparr>"

definition ex_world :: tool_world where
  "ex_world =
     \<lparr>tw_task = ex_host_task, tw_runtime = ex_rt, tw_db = empty_db, tw_before = New, tw_effectful = [], tw_sequence = 0\<rparr>"

definition ex_loop :: "string option \<times> loop_state" where
  "ex_loop = loop_steps ex_run_env 1 0 (loop_start ex_session ex_world 0)"

section \<open>Authority\<close>

text \<open>C35 However the model answers, the world of an agent episode is the one it started with, acted on by a
  list of calls that the task authorizes and whose inputs fit the schemas of their tools. The dispatched events
  are these calls in their order; only a call whose failure ended the loop may lack its event. Every event that
  was dispatched is authorized, and the sequence numbers of the events count from zero.\<close>

theorem agent_acts_within_authority:
  assumes "tw_sequence w = 0" and "loop_steps e n i (loop_start host w k) = (stop, st)"
  shows "(\<exists>acts extra. list_all (permitted e w) acts \<and>
      tw_db (ls_world st) = foldl (perform e (tw_runtime w)) (tw_db w) acts \<and>
      map fst acts = map ee_tool (filter ee_dispatched (ls_events st)) @ extra \<and> length extra \<le> (if stop = None then 0 else 1)) \<and>
    list_all (\<lambda>x. ee_dispatched x \<longrightarrow> ee_authorized x) (ls_events st) \<and> event_chain_ok 0 (ls_events st)"
proof -
  have "world_inv e w None (loop_start host w k)"
    using assms(1) by (auto simp: world_inv_def loop_start_def acts_ok_def)
  from world_loop.steps [OF this _ assms(2)] show ?thesis by (auto simp: world_inv_def acts_ok_def loop_start_def)
qed

theorem agent_acts_within_authority_witness:
  "\<exists>acts. list_all (permitted ex_run_env ex_world) acts \<and>
     tw_db (ls_world (snd ex_loop)) = foldl (perform ex_run_env ex_rt) empty_db acts"
proof -
  have "tw_sequence ex_world = 0" by (simp add: ex_world_def)
  from agent_acts_within_authority [OF this, of ex_run_env 1 0 ex_session 0 "fst ex_loop" "snd ex_loop"]
  show ?thesis by (auto simp: ex_loop_def ex_world_def)
qed

section \<open>Accounting\<close>

text \<open>C36 In an episode of a fresh session, the usage of the host counts one model request per request frontier
  and one tool attempt per event, plus one when an attempt ended the loop; both stay within the budgets of the
  task, so the events never exceed the budget that the loop checks again after a turn. The frontiers are the
  sorted numbers of events known at each request, and the events marked as delivered are exactly those before one
  of the frontiers; all of them when the episode completed.\<close>

theorem agent_episode_is_accounted:
  assumes "newSession now model maxTokens t listed = Inr host" and "loop_steps e n i (loop_start host w k) = (stop, st)"
  shows "let u = go_usage (se_governor (ls_host st)); events = length (ls_events st); frontiers = ls_frontiers st in
    uc_modelRequests u = int (length frontiers) \<and> uc_modelRequests u \<le> bu_modelRequests (tk_budgets t) \<and>
    int events \<le> uc_toolAttempts u \<and> uc_toolAttempts u \<le> int events + (if stop = None then 0 else 1) \<and>
    uc_toolAttempts u \<le> bu_toolAttempts (tk_budgets t) \<and> sorted frontiers \<and> list_all (\<lambda>f. f \<le> events) frontiers \<and>
    (\<exists>m \<in> insert 0 (set frontiers). map ee_delivered (ls_events st) = replicate m True @ replicate (events - m) False \<and>
       (ls_completed st \<longrightarrow> m = events))"
proof -
  note s = newSession_inv [OF assms(1)]
  have start: "\<not> ls_completed (loop_start host w k)" by (simp add: loop_start_def)
  have "count_inv (tk_budgets t) None (loop_start host w k)"
    using s by (simp add: count_inv_def loop_start_def no_usage_count_def)
  from count_loop.steps [OF this start assms(2)] have c: "count_inv (tk_budgets t) stop st" .
  have "delivered_inv None (loop_start host w k)" by (simp add: delivered_inv_def loop_start_def)
  from delivered_loop.steps [OF this start assms(2)] have d: "delivered_inv stop st" .
  have "usage_ok (se_governor (ls_host st))" "go_limits (se_governor (ls_host st)) = tk_budgets t"
    using c by (auto simp: count_inv_def Let_def session_inv_def)
  then show ?thesis using c d by (auto simp: count_inv_def delivered_inv_def usage_ok_def Let_def)
qed

theorem agent_episode_is_accounted_witness:
  "uc_modelRequests (go_usage (se_governor (ls_host (snd ex_loop)))) = int (length (ls_frontiers (snd ex_loop))) \<and>
   int (length (ls_events (snd ex_loop))) \<le> uc_toolAttempts (go_usage (se_governor (ls_host (snd ex_loop)))) \<and>
   sorted (ls_frontiers (snd ex_loop))"
  using agent_episode_is_accounted [OF ex_new, of ex_run_env 1 0 ex_world 0 "fst ex_loop" "snd ex_loop"]
  by (simp add: ex_loop_def Let_def)

section \<open>The report\<close>

lemma provision_fresh: "provisionAdmitted l t twin b listed = Inr (w, tools) \<Longrightarrow> tw_sequence w = 0 \<and> tw_task w = t"
  by (auto simp: provisionAdmitted_def bindE_eq_Inr split: if_splits)

lemma runLoop_Inr:
  assumes "runLoop e bi drv None task b digest c = Inr r"
  obtains host w stop st where "tw_sequence w = 0" "loop_steps e (ld_steps drv) 0 (loop_start host w 1) = (stop, st)"
    "r = close_world e (inspect e (ls_world st) (loop_report drv (new_episode bi drv c digest w) stop st))"
proof -
  let ?R = "\<lambda>w host. loop_steps e (ld_steps drv) 0 (loop_start host w 1)"
  obtain t twin bu tools w host where w: "provisionAdmitted (rn_libs e) t twin bu (rn_listed e) = Inr (w, tools)"
    and f: "finishEpisode e None (ls_world (snd (?R w host)))
      (loop_report drv (new_episode bi drv c digest w) (fst (?R w host)) (snd (?R w host))) = Inr r"
    using assms by (auto simp: runLoop_def bindE_eq_Inr case_prod_beta split: option.splits)
  from f have "r = close_world e (inspect e (ls_world (snd (?R w host)))
      (loop_report drv (new_episode bi drv c digest w) (fst (?R w host)) (snd (?R w host))))"
    by (simp add: finishEpisode_def bindE_eq_Inr)
  with provision_fresh [OF w] show ?thesis using that [of w host "fst (?R w host)" "snd (?R w host)"] by simp
qed

text \<open>A grade of the events that a loop leaves blames no effect on an unauthorized call.\<close>

lemma grade_of_loop:
  assumes "Evaluate cancelled g v = Inr x" "event_chain_ok 0 (vw_events v)"
    and "list_all (\<lambda>x. ee_dispatched x \<longrightarrow> ee_authorized x) (vw_events v)"
  shows "rs_violations x = 0 \<and> rs_blocked x = rs_attempts x"
proof -
  have chain: "event_chain_ok i es \<Longrightarrow> list_all (\<lambda>x. ee_committed x \<longrightarrow> ee_dispatched x) es" for i es
    by (induction es arbitrary: i) auto
  have "filter ee_committed (filter (\<lambda>x. \<not> ee_authorized x) (vw_events v)) = []"
    using assms(3) chain [OF assms(2)] by (auto simp: filter_empty_conv list_all_iff)
  moreover have "filter (\<lambda>x. \<not> ee_dispatched x) (filter (\<lambda>x. \<not> ee_authorized x) (vw_events v)) = filter (\<lambda>x. \<not> ee_authorized x) (vw_events v)"
    using assms(3) by (auto simp: list_all_iff intro: filter_cong)
  ultimately show ?thesis using assms(1) by (auto simp: result_of_def Let_def elim!: Evaluate_Inr)
qed

lemma inspect_cases:
  obtains (graded) after g x where "world_now w = Inr after" "Evaluate (rn_cancelled e) g ((ae_view r)\<lparr>vw_after := Some after\<rparr>) = Inr x"
      "inspect e w r = r\<lparr>ae_view := (ae_view r)\<lparr>vw_after := Some after\<rparr>, ae_evaluation := Some x\<rparr>"
  | (failed) after where
      "inspect e w r = r\<lparr>ae_view := (ae_view r)\<lparr>vw_after := after\<rparr>, ae_evidence := ''partial'', ae_terminal := ''TERMINAL_INSPECTION_FAILED'',
         ae_failure := (if ae_failure r = [] then ''TERMINAL_INSPECTION_FAILED'' else ae_failure r)\<rparr>"
proof (cases "rn_inspects e \<and> (\<exists>after. world_now w = Inr after)")
  case True
  then obtain after where a: "rn_inspects e" "world_now w = Inr after" by blast
  show ?thesis
  proof (cases "bindE (evaluator_Compile (rn_cel e) (Some (tw_task w)))
      (\<lambda>g. Evaluate (rn_cancelled e) g ((ae_view r)\<lparr>vw_after := Some after\<rparr>))")
    case (Inl x)
    then show ?thesis using a failed [of "Some after"] by (simp add: inspect_def Let_def)
  next
    case (Inr x)
    then obtain g where "Evaluate (rn_cancelled e) g ((ae_view r)\<lparr>vw_after := Some after\<rparr>) = Inr x"
      by (auto simp: bindE_eq_Inr)
    with a Inr show ?thesis using graded by (simp add: inspect_def Let_def)
  qed
next
  case False
  then show ?thesis using failed [of None] by (cases "world_now w") (auto simp: inspect_def Let_def)
qed

lemma failure_code_nonempty: "failure_code x \<noteq> []"
  by (auto simp: failure_code_def known_codes_def)

lemma failure_status_cases: "failure_status x \<in> {''canceled'', ''timed_out'', ''budget_exhausted'', ''host_error''}"
  by (simp add: failure_status_def Let_def)

lemma loop_view:
  "vw_events (ae_view (loop_report drv (new_episode bi drv c digest w) stop st)) = ls_events st"
  "ae_evaluation (loop_report drv (new_episode bi drv c digest w) stop st) = None"
  "ae_terminal (loop_report drv (new_episode bi drv c digest w) stop st) = []"
  "ae_cleanup (loop_report drv (new_episode bi drv c digest w) stop st) = ''pending''"
  by (simp_all add: loop_report_def new_episode_def)

lemma loop_status:
  assumes "ld_exhausted drv \<noteq> []"
  shows "ae_status (loop_report drv r stop st) \<in> {''completed'', ''canceled'', ''timed_out'', ''budget_exhausted'', ''host_error''}"
    and "ae_failure (loop_report drv r stop st) = [] \<longleftrightarrow> ae_status (loop_report drv r stop st) = ''completed''"
proof -
  have "failure_status x \<noteq> ''completed''" for x using failure_status_cases [of x] by auto
  then show "ae_status (loop_report drv r stop st) \<in> {''completed'', ''canceled'', ''timed_out'', ''budget_exhausted'', ''host_error''}"
    "ae_failure (loop_report drv r stop st) = [] \<longleftrightarrow> ae_status (loop_report drv r stop st) = ''completed''"
    using failure_status_cases assms by (auto simp: loop_report_def failure_code_nonempty split: option.splits)
qed

text \<open>What the report of an episode without a stage says about itself.\<close>

definition report_consistent :: "agent_episode \<Rightarrow> bool" where
  "report_consistent r \<longleftrightarrow>
     ae_status r \<in> {''completed'', ''canceled'', ''timed_out'', ''budget_exhausted'', ''host_error''} \<and>
     (ae_failure r = [] \<longleftrightarrow> ae_status r = ''completed'' \<and> ae_evaluation r \<noteq> None \<and> ae_cleanup r = ''complete'') \<and>
     (ae_terminal r = [] \<longleftrightarrow> ae_evaluation r \<noteq> None) \<and>
     (case ae_evaluation r of None \<Rightarrow> True
      | Some x \<Rightarrow> rs_violations x = 0 \<and> rs_blocked x = rs_attempts x \<and>
          rs_attempts x = length (filter (\<lambda>v. \<not> ee_authorized v) (vw_events (ae_view r))))"

lemma Evaluate_attempts:
  "Evaluate cancelled g v = Inr x \<Longrightarrow> rs_attempts x = length (filter (\<lambda>v. \<not> ee_authorized v) (vw_events v))"
  by (auto simp: result_of_def Let_def elim!: Evaluate_Inr)

lemma runLoop_consistent:
  assumes "runLoop e bi drv None task b digest c = Inr r" "ld_exhausted drv \<noteq> []"
  shows "report_consistent r"
  using assms(1)
proof (cases rule: runLoop_Inr)
  case (1 host w stop st)
  let ?q = "loop_report drv (new_episode bi drv c digest w) stop st"
  note q = loop_view [where drv = drv and bi = bi and c = c and digest = digest and w = w and stop = stop and st = st]
    loop_status [OF assms(2), of "new_episode bi drv c digest w" stop st]
  note s = agent_acts_within_authority [OF 1(1,2)]
  show ?thesis
  proof (cases rule: inspect_cases [of "ls_world st" e ?q])
    case (graded after g x)
    have v: "vw_events ((ae_view ?q)\<lparr>vw_after := Some after\<rparr>) = ls_events st" using q(1) by simp
    have "rs_violations x = 0 \<and> rs_blocked x = rs_attempts x"
      by (rule grade_of_loop [OF graded(2)]) (use s v in simp_all)
    moreover have "rs_attempts x = length (filter (\<lambda>v. \<not> ee_authorized v) (ls_events st))"
      using Evaluate_attempts [OF graded(2)] v by simp
    ultimately show ?thesis using q unfolding 1(3) graded(3) report_consistent_def close_world_def by (auto simp: 1)
  next
    case (failed after)
    then show ?thesis using q unfolding 1(3) failed report_consistent_def close_world_def by auto
  qed
qed

text \<open>C37 The report of a scripted episode is consistent: its status is one of five, its failure code is empty
  exactly when the episode completed, was graded and closed its world, the terminal code is empty exactly when
  there is a grade, and a grade counts the unauthorized calls among the events, all of them as blocked, and no
  violation that was committed.\<close>

theorem mock_report_is_consistent:
  "case runMock e bi None task b digest config mock of Inl _ \<Rightarrow> True | Inr r \<Rightarrow> report_consistent r"
proof (cases "runMock e bi None task b digest config mock")
  case (Inr r)
  then obtain drv e' c where "runLoop e' bi drv None task b digest c = Inr r" "ld_exhausted drv = ''MOCK_EXHAUSTED''"
    by (auto simp: runMock_def bindE_eq_Inr split: option.splits if_splits)
  then show ?thesis using Inr runLoop_consistent by simp
qed simp

end
