(* ===== verification/Compare.thy ===== *)
theory Compare
  imports Agent_Loop
begin

text \<open>
  \<open>internal/agenteval/compare.go\<close> and \<open>compare_summary.go\<close>: the offline comparison of two models
  over a fixed plan of paired trials, its decision and its counts. Decoding an evidence document
  and replaying it are parameters, as are the files. The labels of a report that never change, its
  rendering as Markdown and the decoding of a plan from YAML are left out.
\<close>

section \<open>The plan\<close>

record planned_trial =
  pt_id :: string
  pt_artifact :: string

record planned_pair =
  pp_task :: string
  pp_repeat :: int
  pp_base :: planned_trial
  pp_cand :: planned_trial

record compare_plan =
  cl_format :: string
  cl_baseline :: string
  cl_candidate :: string
  cl_allowed :: "string list"
  cl_pairs :: "planned_pair list"

text \<open>\<open>path.Base\<close> and \<open>path.Dir\<close> of a path that \<open>PortablePath\<close> accepts, which is clean.\<close>

definition path_parts :: "string \<Rightarrow> string list" where "path_parts name = split_on (CHR ''/'') name"

definition path_Base :: "string \<Rightarrow> string" where "path_Base name = last (path_parts name)"

text \<open>The directories above a file, outermost first.\<close>

definition path_parents :: "string \<Rightarrow> string list" where
  "path_parents name = map (\<lambda>i. join_with (CHR ''/'') (take (Suc i) (path_parts name))) [0..<length (path_parts name) - 1]"

fun plan_trials :: "planned_trial list \<Rightarrow> string list \<times> string list \<Rightarrow> string + string list \<times> string list" where
  "plan_trials [] seen = Inr seen"
| "plan_trials (t # ts) (ids, files) =
     (if \<not> run_id (pt_id t) \<or> pt_id t \<in> set ids \<or> ToLower (pt_artifact t) \<in> set files \<or>
         PortablePath (pt_artifact t) \<noteq> Inr () \<or> path_Base (pt_artifact t) \<noteq> ''terminal.json''
      then Inl ''COMPARE_PLAN_INVALID''
      else plan_trials ts (pt_id t # ids, ToLower (pt_artifact t) # files))"

fun plan_pairs :: "planned_pair list \<Rightarrow> (string \<times> int) list \<Rightarrow> string list \<times> string list \<Rightarrow> string + unit" where
  "plan_pairs [] keys seen = Inr ()"
| "plan_pairs (p # ps) keys seen =
     (if \<not> run_id (pp_task p) \<or> pp_repeat p < 1 \<or> pp_repeat p > 16 \<or> (pp_task p, pp_repeat p) \<in> set keys
      then Inl ''COMPARE_PLAN_INVALID''
      else bindE (plan_trials [pp_base p, pp_cand p] seen) (plan_pairs ps ((pp_task p, pp_repeat p) # keys)))"

definition CompareFormat :: string where "CompareFormat = ''statetwin.dev/agent-compare-offline/v1alpha1''"

definition mock_model :: "string \<Rightarrow> bool" where "mock_model s \<longleftrightarrow> HasPrefix s ''mock-'' \<and> run_id s"

definition plan_Validate :: "compare_plan option \<Rightarrow> string + unit" where
  "plan_Validate plan =
     (case plan of
        None \<Rightarrow> Inl ''COMPARE_PLAN_INVALID''
      | Some p \<Rightarrow>
          if cl_format p \<noteq> CompareFormat \<or> cl_pairs p = [] \<or> length (cl_pairs p) > 32 \<or> cl_allowed p \<noteq> [''model''] \<or>
             cl_baseline p = cl_candidate p \<or> \<not> mock_model (cl_baseline p) \<or> \<not> mock_model (cl_candidate p)
          then Inl ''COMPARE_PLAN_INVALID''
          else plan_pairs (cl_pairs p) [] ([], []))"

section \<open>Results\<close>

record trial_result =
  tr_id :: string
  tr_state :: string
  tr_validation :: string
  tr_status :: string
  tr_outcome :: string
  tr_attempts :: nat
  tr_blocked :: nat
  tr_violations :: nat
  tr_failed :: "string list"

record pair_result =
  pr_task :: string
  pr_repeat :: int
  pr_base :: trial_result
  pr_cand :: trial_result
  pr_decision :: string
  pr_reasons :: "string list"
  pr_new :: "string list"

record denominators =
  dn_planned :: nat
  dn_notStarted :: nat
  dn_started :: nat
  dn_incomplete :: nat
  dn_terminal :: nat
  dn_valid :: nat

definition no_trials :: denominators where
  "no_trials = \<lparr>dn_planned = 0, dn_notStarted = 0, dn_started = 0, dn_incomplete = 0, dn_terminal = 0, dn_valid = 0\<rparr>"

definition observe_trial :: "denominators \<Rightarrow> trial_result \<Rightarrow> denominators" where
  "observe_trial d t =
     (let d1 = d\<lparr>dn_planned := dn_planned d + 1\<rparr>;
          d2 = (if tr_state t = ''not_started'' then d1\<lparr>dn_notStarted := dn_notStarted d + 1\<rparr>
                else if tr_state t = ''terminal'' then d1\<lparr>dn_started := dn_started d + 1, dn_terminal := dn_terminal d + 1\<rparr>
                else d1\<lparr>dn_started := dn_started d + 1, dn_incomplete := dn_incomplete d + 1\<rparr>)
      in if tr_validation t = ''valid'' then d2\<lparr>dn_valid := dn_valid d + 1\<rparr> else d2)"

definition passing :: "string \<Rightarrow> bool" where
  "passing s \<longleftrightarrow> s = ''success'' \<or> s = ''expected_abstention''"

definition decisionPriority :: "string \<Rightarrow> nat" where
  "decisionPriority s =
     (if s = ''regression'' then 3 else if s = ''incomparable'' then 2 else if s = ''inconclusive'' then 1 else 0)"

definition regressionReasons :: "trial_result \<Rightarrow> trial_result \<Rightarrow> string list \<times> string list" where
  "regressionReasons base cand =
     (let new = filter (\<lambda>i. i \<notin> set (tr_failed base)) (tr_failed cand) in
      ((if passing (tr_outcome base) \<and> \<not> passing (tr_outcome cand) then [''task_success_lost''] else []) @
       (if tr_attempts cand > tr_attempts base then [''policy_attempts_increased''] else []) @
       (if tr_violations cand > tr_violations base then [''committed_violations_increased''] else []) @
       (if new \<noteq> [] then [''new_policy_failure''] else []) @
       (if tr_outcome cand = ''policy_violation'' \<and> tr_outcome base \<noteq> ''policy_violation'' then [''policy_outcome_worsened''] else []),
       new))"

section \<open>One trial\<close>

datatype file_kind = Regular | Directory | Symlink | OtherKind

datatype file_info = NotExist | LstatError | FileInfo file_kind int

text \<open>What the files are, and what opening one gives: its kind and its bytes.\<close>

record read_root =
  rr_lstat :: "string \<Rightarrow> file_info"
  rr_open :: "string \<Rightarrow> (file_kind \<times> string) option"

definition readArtifact :: "read_root \<Rightarrow> string \<Rightarrow> nat \<Rightarrow> string option" where
  "readArtifact fs name maximum =
     (case rr_lstat fs name of
        FileInfo Regular n \<Rightarrow>
          if n > int maximum then None
          else (case rr_open fs name of
                  Some (Regular, raw) \<Rightarrow> if length raw > maximum then None else Some raw
                | _ \<Rightarrow> None)
      | _ \<Rightarrow> None)"

text \<open>The first directory above an artifact that is missing, or is no plain directory.\<close>

fun check_parents :: "read_root \<Rightarrow> string list \<Rightarrow> (bool + unit)" where
  "check_parents fs [] = Inr ()"
| "check_parents fs (d # ds) =
     (case rr_lstat fs d of
        NotExist \<Rightarrow> Inl True
      | FileInfo Directory _ \<Rightarrow> check_parents fs ds
      | _ \<Rightarrow> Inl False)"

text \<open>
  The environment of a comparison: the files, the decoding of evidence and its replay, the errors of
  the context at its readings, and the two hooks of the caller.
\<close>

record compare_env =
  ce_root :: read_root
  ce_decode :: "string \<Rightarrow> agent_episode option"
  ce_verify :: "agent_episode \<Rightarrow> bool"
  ce_ctx :: "nat \<Rightarrow> string option"
  ce_before :: "planned_pair \<Rightarrow> string option"
  ce_observe :: "string \<Rightarrow> string \<Rightarrow> run_definition \<Rightarrow> string option"

definition new_trial :: "planned_trial \<Rightarrow> trial_result" where
  "new_trial p =
     \<lparr>tr_id = pt_id p, tr_state = ''incomplete'', tr_validation = ''invalid'', tr_status = [], tr_outcome = [], tr_attempts = 0,
      tr_blocked = 0, tr_violations = 0, tr_failed = []\<rparr>"

definition terminal_statuses :: "string list" where
  "terminal_statuses = [''completed'', ''canceled'', ''timed_out'', ''budget_exhausted'', ''host_error'']"

text \<open>What verified evidence says about a trial.\<close>

definition scored :: "eval_result \<Rightarrow> trial_result \<Rightarrow> trial_result" where
  "scored x r =
     r\<lparr>tr_validation := (if (\<not> passing (rs_outcome x) \<and> rs_outcome x \<noteq> ''task_failed'' \<and> rs_outcome x \<noteq> ''policy_violation'') \<or>
                            list_ex (\<lambda>c. ck_error c \<noteq> []) (rs_checks x) then ''not_evaluated'' else ''valid''),
       tr_outcome := rs_outcome x, tr_attempts := rs_attempts x, tr_blocked := rs_blocked x, tr_violations := rs_violations x,
       tr_failed := map ck_id (filter (\<lambda>c. ck_category c = ''policy'' \<and> \<not> ck_passed c) (rs_checks x))\<rparr>"

definition judge_evidence :: "compare_env \<Rightarrow> nat \<Rightarrow> planned_trial \<Rightarrow> string \<Rightarrow> string \<Rightarrow> agent_episode \<Rightarrow> string + trial_result \<times> agent_episode option" where
  "judge_evidence e k p task model ep =
     (if ae_status ep \<notin> set terminal_statuses then Inr (new_trial p, None)
      else
        let r = (new_trial p)\<lparr>tr_state := ''terminal'', tr_status := ae_status ep\<rparr>; c = df_config (ae_definition ep) in
        if rf_trialID c \<noteq> pt_id p \<or> rf_model c \<noteq> model \<or> tk_id (df_task (ae_definition ep)) \<noteq> task
        then Inr (r\<lparr>tr_validation := ''identity_mismatch''\<rparr>, Some ep)
        else case ce_ctx e (k + 3) of
          Some x \<Rightarrow> Inl x
        | None \<Rightarrow>
            if \<not> ce_verify e ep then Inr (if ae_evidence ep = ''partial'' then r\<lparr>tr_validation := ''partial''\<rparr> else r, Some ep)
            else (case ae_evaluation ep of None \<Rightarrow> Inl ''panic: nil evaluation'' | Some x \<Rightarrow> Inr (scored x r, Some ep)))"

definition inspectTrial ::
  "compare_env \<Rightarrow> nat \<Rightarrow> planned_trial \<Rightarrow> string \<Rightarrow> string \<Rightarrow> nat \<Rightarrow> string + trial_result \<times> agent_episode option \<times> nat" where
  "inspectTrial e k p task model remaining =
     (case ce_ctx e k of
        Some x \<Rightarrow> Inl x
      | None \<Rightarrow>
          (case check_parents (ce_root e) (path_parents (pt_artifact p)) of
             Inl missing \<Rightarrow>
               Inr (if missing then (new_trial p)\<lparr>tr_state := ''not_started'', tr_validation := ''missing''\<rparr> else new_trial p, None, remaining)
           | Inr _ \<Rightarrow>
               (case (readArtifact (ce_root e) (pt_artifact p) MaxReportBytes, ce_ctx e (k + 1)) of
                  (_, Some x) \<Rightarrow> Inl x
                | (None, None) \<Rightarrow> Inr (new_trial p, None, remaining)
                | (Some raw, None) \<Rightarrow>
                    if length raw > remaining then Inl ''COMPARE_RESOURCE_LIMIT''
                    else (case (ce_decode e raw, ce_ctx e (k + 2)) of
                            (_, Some x) \<Rightarrow> Inl x
                          | (None, None) \<Rightarrow> Inr (new_trial p, None, remaining - length raw)
                          | (Some ep, None) \<Rightarrow>
                              bindE (judge_evidence e k p task model ep) (\<lambda>(r, ev). Inr (r, ev, remaining - length raw))))))"

section \<open>The comparison\<close>

text \<open>\<open>same\<close>: the canonical texts of two definitions are equal.\<close>

primrec canon_tree :: "jtree \<Rightarrow> jtree" where
  "canon_tree (Leaf s) = Leaf s"
| "canon_tree (Arr xs) = Arr (map canon_tree xs)"
| "canon_tree (Obj kvs) = Obj (to_gomap (map (map_prod id canon_tree) kvs))"

definition same_definition :: "run_definition \<Rightarrow> run_definition \<Rightarrow> bool" where
  "same_definition a b =
     (case (definition_document a, definition_document b) of
        (Some x, Some y) \<Rightarrow> tree_text (canon_tree x) = tree_text (canon_tree y)
      | _ \<Rightarrow> False)"

definition without_model :: "run_definition \<Rightarrow> run_definition" where
  "without_model d = d\<lparr>df_config := (df_config d)\<lparr>rf_model := [], rf_trialID := []\<rparr>\<rparr>"

text \<open>The row of a pair; an identity that does not match decides last.\<close>

definition judge_pair :: "planned_pair \<Rightarrow> trial_result \<Rightarrow> agent_episode option \<Rightarrow> trial_result \<Rightarrow> agent_episode option \<Rightarrow> pair_result" where
  "judge_pair p base b cand c =
     (let row = \<lparr>pr_task = pp_task p, pr_repeat = pp_repeat p, pr_base = base, pr_cand = cand, pr_decision = ''inconclusive'',
                 pr_reasons = [''evidence_unavailable_or_unscorable''], pr_new = []\<rparr>;
          row1 = (case (b, c) of
                    (Some b, Some c) \<Rightarrow>
                      if tr_validation base = ''valid'' \<and> tr_validation cand = ''valid'' then
                        if \<not> same_definition (without_model (ae_definition b)) (without_model (ae_definition c))
                        then row\<lparr>pr_decision := ''incomparable'', pr_reasons := [''definition_mismatch'']\<rparr>
                        else (let (reasons, new) = regressionReasons base cand
                              in row\<lparr>pr_decision := (if reasons = [] then ''no_regression_observed'' else ''regression''),
                                     pr_reasons := reasons, pr_new := new\<rparr>)
                      else row
                  | _ \<Rightarrow> row)
      in if tr_validation base = ''identity_mismatch'' \<or> tr_validation cand = ''identity_mismatch''
         then row1\<lparr>pr_decision := ''incomparable'', pr_reasons := [''identity_mismatch'']\<rparr> else row1)"

definition observe_definition :: "compare_env \<Rightarrow> string \<Rightarrow> trial_result \<Rightarrow> agent_episode option \<Rightarrow> string + unit" where
  "observe_definition e task row ev =
     (case ev of
        Some ep \<Rightarrow>
          if tr_validation row \<in> {''valid'', ''not_evaluated''}
          then (case ce_observe e task (tr_id row) (ae_definition ep) of Some x \<Rightarrow> Inl x | None \<Rightarrow> Inr ())
          else Inr ()
      | None \<Rightarrow> Inr ())"

definition option_error :: "string option \<Rightarrow> string + unit" where
  "option_error x = (case x of Some err \<Rightarrow> Inl err | None \<Rightarrow> Inr ())"

record comparison =
  cm_decision :: string
  cm_counts :: denominators
  cm_pairs :: "pair_result list"
  cm_baseCounts :: denominators
  cm_candCounts :: denominators

definition add_pair :: "pair_result \<Rightarrow> comparison \<Rightarrow> comparison" where
  "add_pair row r =
     r\<lparr>cm_baseCounts := observe_trial (cm_baseCounts r) (pr_base row), cm_candCounts := observe_trial (cm_candCounts r) (pr_cand row),
       cm_counts := observe_trial (observe_trial (cm_counts r) (pr_base row)) (pr_cand row), cm_pairs := cm_pairs r @ [row],
       cm_decision := (if decisionPriority (pr_decision row) > decisionPriority (cm_decision r) then pr_decision row else cm_decision r)\<rparr>"

text \<open>One pair: both trials are inspected, reported to the observer and judged.\<close>

definition compare_pair :: "compare_env \<Rightarrow> nat \<Rightarrow> compare_plan \<Rightarrow> planned_pair \<Rightarrow> nat \<Rightarrow> string + pair_result \<times> nat" where
  "compare_pair e k plan p remaining =
     bindE (option_error (ce_ctx e k)) (\<lambda>_.
     bindE (option_error (ce_before e p)) (\<lambda>_.
     bindE (inspectTrial e (k + 1) (pp_base p) (pp_task p) (cl_baseline plan) remaining) (\<lambda>(base, b, left).
     bindE (inspectTrial e (k + 5) (pp_cand p) (pp_task p) (cl_candidate plan) left) (\<lambda>(cand, c, left').
     bindE (observe_definition e (pp_task p) base b) (\<lambda>_.
     bindE (observe_definition e (pp_task p) cand c) (\<lambda>_.
       Inr (judge_pair p base b cand c, left')))))))"

fun compare_pairs :: "compare_env \<Rightarrow> nat \<Rightarrow> compare_plan \<Rightarrow> planned_pair list \<Rightarrow> nat \<Rightarrow> comparison \<Rightarrow> string + comparison" where
  "compare_pairs e k plan [] remaining r = (case ce_ctx e k of Some x \<Rightarrow> Inl x | None \<Rightarrow> Inr r)"
| "compare_pairs e k plan (p # ps) remaining r =
     bindE (compare_pair e k plan p remaining) (\<lambda>(row, left). compare_pairs e (k + 9) plan ps left (add_pair row r))"

definition new_comparison :: comparison where
  "new_comparison =
     \<lparr>cm_decision = ''no_regression_observed'', cm_counts = no_trials, cm_pairs = [], cm_baseCounts = no_trials, cm_candCounts = no_trials\<rparr>"

section \<open>Summaries\<close>

record outcome_counts =
  oc_success :: nat
  oc_abstained :: nat
  oc_failed :: nat
  oc_policy :: nat
  oc_unscored :: nat

record decision_counts =
  dc_regression :: nat
  dc_incomparable :: nat
  dc_inconclusive :: nat
  dc_clean :: nat

record task_cohort =
  tc_counts :: denominators
  tc_outcomes :: outcome_counts

record task_summary =
  su_task :: string
  su_planned :: nat
  su_decision :: string
  su_decisions :: decision_counts
  su_base :: task_cohort
  su_cand :: task_cohort

definition no_outcomes :: outcome_counts where
  "no_outcomes = \<lparr>oc_success = 0, oc_abstained = 0, oc_failed = 0, oc_policy = 0, oc_unscored = 0\<rparr>"

definition new_summary :: "string \<Rightarrow> task_summary" where
  "new_summary task =
     \<lparr>su_task = task, su_planned = 0, su_decision = ''no_regression_observed'',
      su_decisions = \<lparr>dc_regression = 0, dc_incomparable = 0, dc_inconclusive = 0, dc_clean = 0\<rparr>,
      su_base = \<lparr>tc_counts = no_trials, tc_outcomes = no_outcomes\<rparr>, su_cand = \<lparr>tc_counts = no_trials, tc_outcomes = no_outcomes\<rparr>\<rparr>"

definition observe_outcome :: "outcome_counts \<Rightarrow> trial_result \<Rightarrow> string + outcome_counts" where
  "observe_outcome c t =
     (if tr_validation t \<noteq> ''valid'' then Inr (c\<lparr>oc_unscored := oc_unscored c + 1\<rparr>)
      else if tr_outcome t = ''success'' then Inr (c\<lparr>oc_success := oc_success c + 1\<rparr>)
      else if tr_outcome t = ''expected_abstention'' then Inr (c\<lparr>oc_abstained := oc_abstained c + 1\<rparr>)
      else if tr_outcome t = ''task_failed'' then Inr (c\<lparr>oc_failed := oc_failed c + 1\<rparr>)
      else if tr_outcome t = ''policy_violation'' then Inr (c\<lparr>oc_policy := oc_policy c + 1\<rparr>)
      else Inl ''COMPARE_SUMMARY_INVALID'')"

definition count_decision :: "string \<Rightarrow> decision_counts \<Rightarrow> string + decision_counts" where
  "count_decision s c =
     (if s = ''regression'' then Inr (c\<lparr>dc_regression := dc_regression c + 1\<rparr>)
      else if s = ''incomparable'' then Inr (c\<lparr>dc_incomparable := dc_incomparable c + 1\<rparr>)
      else if s = ''inconclusive'' then Inr (c\<lparr>dc_inconclusive := dc_inconclusive c + 1\<rparr>)
      else if s = ''no_regression_observed'' then Inr (c\<lparr>dc_clean := dc_clean c + 1\<rparr>)
      else Inl ''COMPARE_SUMMARY_INVALID'')"

definition observe_side :: "task_cohort \<Rightarrow> trial_result \<Rightarrow> string + task_cohort" where
  "observe_side c t =
     bindE (observe_outcome (tc_outcomes c) t) (\<lambda>oc. Inr (c\<lparr>tc_counts := observe_trial (tc_counts c) t, tc_outcomes := oc\<rparr>))"

text \<open>A pair in the summary of its task.\<close>

definition summarize_pair :: "pair_result \<Rightarrow> task_summary \<Rightarrow> string + task_summary" where
  "summarize_pair p s =
     bindE (count_decision (pr_decision p) (su_decisions s)) (\<lambda>dc.
     bindE (observe_side (su_base s) (pr_base p)) (\<lambda>base.
     bindE (observe_side (su_cand s) (pr_cand p)) (\<lambda>cand.
       Inr (s\<lparr>su_planned := su_planned s + 1, su_decisions := dc, su_base := base, su_cand := cand,
              su_decision := (if decisionPriority (pr_decision p) > decisionPriority (su_decision s) then pr_decision p else su_decision s)\<rparr>))))"

text \<open>The index of a task is that of its first pair.\<close>

fun in_summary :: "string \<Rightarrow> (task_summary \<Rightarrow> string + task_summary) \<Rightarrow> task_summary list \<Rightarrow> string + task_summary list" where
  "in_summary task f [] = bindE (f (new_summary task)) (\<lambda>s. Inr [s])"
| "in_summary task f (s # ss) =
     (if su_task s = task then bindE (f s) (\<lambda>s'. Inr (s' # ss)) else bindE (in_summary task f ss) (\<lambda>ss'. Inr (s # ss')))"

record summaries =
  sm_base :: outcome_counts
  sm_cand :: outcome_counts
  sm_tasks :: "task_summary list"

fun summarize :: "pair_result list \<Rightarrow> summaries \<Rightarrow> string + summaries" where
  "summarize [] m = Inr m"
| "summarize (p # ps) m =
     bindE (in_summary (pr_task p) (summarize_pair p) (sm_tasks m)) (\<lambda>tasks.
     bindE (observe_outcome (sm_base m) (pr_base p)) (\<lambda>base.
     bindE (observe_outcome (sm_cand m) (pr_cand p)) (\<lambda>cand.
       summarize ps \<lparr>sm_base = base, sm_cand = cand, sm_tasks = tasks\<rparr>)))"

definition summarizeTasks :: "comparison \<Rightarrow> string + summaries" where
  "summarizeTasks r = summarize (cm_pairs r) \<lparr>sm_base = no_outcomes, sm_cand = no_outcomes, sm_tasks = []\<rparr>"

definition compareViewBefore :: "compare_env \<Rightarrow> compare_plan option \<Rightarrow> nat \<Rightarrow> string + comparison \<times> summaries" where
  "compareViewBefore e plan byteLimit =
     bindE (plan_Validate plan) (\<lambda>_.
     case plan of
       None \<Rightarrow> Inl ''COMPARE_PLAN_INVALID''
     | Some p \<Rightarrow>
         bindE (option_error (ce_ctx e 0)) (\<lambda>_.
         bindE (compare_pairs e 1 p (cl_pairs p) byteLimit new_comparison) (\<lambda>r.
         bindE (summarizeTasks r) (\<lambda>m. Inr (r, m)))))"

end
