(* ===== verification/Compare_Props.thy ===== *)
theory Compare_Props
  imports Compare
begin

text \<open>
  The decision of a comparison and its counts, against plain specifications over the rows of the
  pairs.
\<close>

section \<open>Rows\<close>

definition trial_ok :: "trial_result \<Rightarrow> bool" where
  "trial_ok t \<longleftrightarrow>
     (tr_validation t = ''valid'' \<longrightarrow>
        tr_state t = ''terminal'' \<and> tr_outcome t \<in> {''success'', ''expected_abstention'', ''task_failed'', ''policy_violation''})"

text \<open>What the candidate may not lose: passing, attempts, violations, policy checks and the outcome.\<close>

definition unharmed :: "trial_result \<Rightarrow> trial_result \<Rightarrow> bool" where
  "unharmed base cand \<longleftrightarrow>
     (passing (tr_outcome base) \<longrightarrow> passing (tr_outcome cand)) \<and> tr_attempts cand \<le> tr_attempts base \<and>
     tr_violations cand \<le> tr_violations base \<and> set (tr_failed cand) \<subseteq> set (tr_failed base) \<and>
     (tr_outcome cand = ''policy_violation'' \<longrightarrow> tr_outcome base = ''policy_violation'')"

lemma regressionReasons_Nil: "fst (regressionReasons base cand) = [] \<longleftrightarrow> unharmed base cand"
  by (auto simp: regressionReasons_def unharmed_def Let_def filter_empty_conv not_less)

definition pair_ok :: "pair_result \<Rightarrow> bool" where
  "pair_ok p \<longleftrightarrow>
     trial_ok (pr_base p) \<and> trial_ok (pr_cand p) \<and>
     pr_decision p \<in> {''regression'', ''incomparable'', ''inconclusive'', ''no_regression_observed''} \<and>
     (pr_decision p \<in> {''regression'', ''no_regression_observed''} \<longrightarrow>
        tr_validation (pr_base p) = ''valid'' \<and> tr_validation (pr_cand p) = ''valid'' \<and>
        (pr_decision p = ''no_regression_observed'' \<longleftrightarrow> unharmed (pr_base p) (pr_cand p)))"

lemma new_trial_ok: "trial_ok (new_trial p)" "trial_ok ((new_trial p)\<lparr>tr_state := s, tr_validation := ''missing''\<rparr>)"
  "trial_ok ((new_trial p)\<lparr>tr_state := s, tr_status := x\<rparr>)"
  "trial_ok ((new_trial p)\<lparr>tr_state := s, tr_status := x, tr_validation := ''partial''\<rparr>)"
  "trial_ok ((new_trial p)\<lparr>tr_state := s, tr_status := x, tr_validation := ''identity_mismatch''\<rparr>)"
  by (simp_all add: trial_ok_def new_trial_def)

lemma scored_ok: "tr_state r = ''terminal'' \<Longrightarrow> trial_ok (scored x r)"
  by (auto simp: trial_ok_def scored_def passing_def)

lemma judge_evidence_ok: "judge_evidence e k p task model ep = Inr (r, ev) \<Longrightarrow> trial_ok r"
  by (auto simp: judge_evidence_def Let_def new_trial_ok scored_ok split: if_splits option.splits)

lemma inspectTrial_ok: "inspectTrial e k p task model n = Inr (r, ev, left) \<Longrightarrow> trial_ok r"
  by (auto simp: inspectTrial_def bindE_eq_Inr new_trial_ok judge_evidence_ok split: option.splits sum.splits if_splits)

lemma judge_pair_ok:
  assumes "trial_ok base" "trial_ok cand"
  shows "pair_ok (judge_pair p base b cand c)"
proof -
  have "pr_base (judge_pair p base b cand c) = base" "pr_cand (judge_pair p base b cand c) = cand"
    by (simp_all add: judge_pair_def Let_def case_prod_beta split: option.split)
  then show ?thesis using assms regressionReasons_Nil [of base cand]
    by (auto simp: pair_ok_def judge_pair_def Let_def case_prod_beta split: option.split)
qed

lemma compare_pair_ok:
  assumes "compare_pair e k plan p n = Inr (row, left)"
  shows "pair_ok row \<and> pr_task row = pp_task p"
proof -
  have "pr_task (judge_pair p base b cand c) = pp_task p" for base b cand c
    by (simp add: judge_pair_def Let_def case_prod_beta split: option.split)
  then show ?thesis using assms by (auto simp: compare_pair_def bindE_eq_Inr intro!: judge_pair_ok dest: inspectTrial_ok)
qed

lemma compare_pairs_rows:
  "compare_pairs e k plan ps n r = Inr r' \<Longrightarrow>
     \<exists>rows. list_all pair_ok rows \<and> map pr_task rows = map pp_task ps \<and> r' = foldl (\<lambda>r row. add_pair row r) r rows"
proof (induction ps arbitrary: k n r)
  case Nil
  then show ?case by (auto split: option.splits)
next
  case (Cons p ps)
  then obtain row left where c: "compare_pair e k plan p n = Inr (row, left)"
    "compare_pairs e (k + 9) plan ps left (add_pair row r) = Inr r'" by (auto simp: bindE_eq_Inr)
  from Cons.IH [OF c(2)] obtain rows where
    "list_all pair_ok rows" "map pr_task rows = map pp_task ps" "r' = foldl (\<lambda>r row. add_pair row r) (add_pair row r) rows" by blast
  then show ?case using compare_pair_ok [OF c(1)] by (intro exI [of _ "row # rows"]) simp
qed

section \<open>The decision\<close>

definition top_decision :: "string \<Rightarrow> string \<Rightarrow> string" where
  "top_decision d x = (if decisionPriority x > decisionPriority d then x else d)"

definition known_decision :: "string \<Rightarrow> bool" where
  "known_decision x \<longleftrightarrow> x \<in> {''regression'', ''incomparable'', ''inconclusive'', ''no_regression_observed''}"





lemma fold_pairs:
  "cm_pairs (foldl (\<lambda>r row. add_pair row r) r rows) = cm_pairs r @ rows"
  "cm_decision (foldl (\<lambda>r row. add_pair row r) r rows) = foldl top_decision (cm_decision r) (map pr_decision rows)"
  by (induction rows arbitrary: r) (simp_all add: add_pair_def top_decision_def)

section \<open>Counts\<close>

definition has_state :: "string \<Rightarrow> trial_result \<Rightarrow> bool" where "has_state x t \<longleftrightarrow> tr_state t = x"
definition is_valid :: "trial_result \<Rightarrow> bool" where "is_valid t \<longleftrightarrow> tr_validation t = ''valid''"
definition has_outcome :: "string \<Rightarrow> trial_result \<Rightarrow> bool" where
  "has_outcome x t \<longleftrightarrow> is_valid t \<and> tr_outcome t = x"

definition number_of :: "('a \<Rightarrow> bool) \<Rightarrow> 'a list \<Rightarrow> nat" where "number_of P xs = length (filter P xs)"

lemma number_of_simps [simp]:
  "number_of P [] = 0" "number_of P (xs @ [x]) = number_of P xs + (if P x then 1 else 0)"
  by (simp_all add: number_of_def)

text \<open>The denominators of a list of trials.\<close>

definition tally :: "trial_result list \<Rightarrow> denominators" where
  "tally ts =
     \<lparr>dn_planned = length ts, dn_notStarted = number_of (has_state ''not_started'') ts,
      dn_started = number_of (\<lambda>t. \<not> has_state ''not_started'' t) ts,
      dn_incomplete = number_of (\<lambda>t. \<not> has_state ''not_started'' t \<and> \<not> has_state ''terminal'' t) ts,
      dn_terminal = number_of (has_state ''terminal'') ts, dn_valid = number_of is_valid ts\<rparr>"

lemma tally_Nil: "tally [] = no_trials"
  by (simp add: tally_def no_trials_def)

lemma tally_snoc: "observe_trial (tally ts) t = tally (ts @ [t])"
  by (simp add: tally_def observe_trial_def Let_def has_state_def is_valid_def)

lemma tally_adds:
  "dn_planned (tally ts) = dn_notStarted (tally ts) + dn_started (tally ts) \<and>
   dn_started (tally ts) = dn_incomplete (tally ts) + dn_terminal (tally ts)"
  by (induction ts rule: rev_induct) (auto simp: tally_def has_state_def)

lemma tally_valid: "list_all trial_ok ts \<Longrightarrow> dn_valid (tally ts) \<le> dn_terminal (tally ts)"
  by (induction ts rule: rev_induct) (auto simp: tally_def has_state_def is_valid_def trial_ok_def)

text \<open>The outcomes of a list of trials.\<close>

definition outcomes :: "trial_result list \<Rightarrow> outcome_counts" where
  "outcomes ts =
     \<lparr>oc_success = number_of (has_outcome ''success'') ts, oc_abstained = number_of (has_outcome ''expected_abstention'') ts,
      oc_failed = number_of (has_outcome ''task_failed'') ts, oc_policy = number_of (has_outcome ''policy_violation'') ts,
      oc_unscored = number_of (\<lambda>t. \<not> is_valid t) ts\<rparr>"

lemma outcomes_Nil: "outcomes [] = no_outcomes"
  by (simp add: outcomes_def no_outcomes_def)

lemma outcomes_snoc: "trial_ok t \<Longrightarrow> observe_outcome (outcomes ts) t = Inr (outcomes (ts @ [t]))"
  unfolding trial_ok_def observe_outcome_def
  by (cases "tr_validation t = ''valid''") (auto simp: outcomes_def has_outcome_def is_valid_def)

definition cohort :: "trial_result list \<Rightarrow> task_cohort" where
  "cohort ts = \<lparr>tc_counts = tally ts, tc_outcomes = outcomes ts\<rparr>"

lemma cohort_snoc: "trial_ok t \<Longrightarrow> observe_side (cohort ts) t = Inr (cohort (ts @ [t]))"
  by (simp add: observe_side_def cohort_def tally_snoc outcomes_snoc)

definition decisions :: "string list \<Rightarrow> decision_counts" where
  "decisions ds =
     \<lparr>dc_regression = number_of (\<lambda>d. d = ''regression'') ds, dc_incomparable = number_of (\<lambda>d. d = ''incomparable'') ds,
      dc_inconclusive = number_of (\<lambda>d. d = ''inconclusive'') ds, dc_clean = number_of (\<lambda>d. d = ''no_regression_observed'') ds\<rparr>"

lemma decisions_snoc: "known_decision d \<Longrightarrow> count_decision d (decisions ds) = Inr (decisions (ds @ [d]))"
  unfolding known_decision_def insert_iff empty_iff by (elim disjE) (simp_all add: count_decision_def decisions_def)

section \<open>Summaries\<close>

text \<open>The summary of a task is a function of its rows.\<close>

definition rows_of :: "string \<Rightarrow> pair_result list \<Rightarrow> pair_result list" where
  "rows_of task rows = filter (\<lambda>p. pr_task p = task) rows"

definition summary_of :: "pair_result list \<Rightarrow> string \<Rightarrow> task_summary" where
  "summary_of rows task =
     (let ps = rows_of task rows in
      \<lparr>su_task = task, su_planned = length ps, su_decision = foldl top_decision ''no_regression_observed'' (map pr_decision ps),
       su_decisions = decisions (map pr_decision ps), su_base = cohort (map pr_base ps), su_cand = cohort (map pr_cand ps)\<rparr>)"

definition first_seen :: "'a list \<Rightarrow> 'a list" where "first_seen xs = rev (remdups (rev xs))"

lemma first_seen_simps:
  "first_seen [] = []" "first_seen (xs @ [x]) = (if x \<in> set xs then first_seen xs else first_seen xs @ [x])"
  "set (first_seen xs) = set xs" "distinct (first_seen xs)"
  by (simp_all add: first_seen_def)

lemma summary_new: "task \<notin> set (map pr_task rows) \<Longrightarrow> new_summary task = summary_of rows task"
proof -
  assume "task \<notin> set (map pr_task rows)"
  then have "rows_of task rows = []" by (auto simp: rows_of_def filter_empty_conv)
  then show ?thesis
    by (simp add: new_summary_def summary_of_def Let_def cohort_def decisions_def tally_Nil outcomes_Nil)
qed

lemma summary_other: "pr_task p \<noteq> task \<Longrightarrow> summary_of (rows @ [p]) task = summary_of rows task"
  by (simp add: summary_of_def rows_of_def)

lemma summary_same:
  assumes "pair_ok p"
  shows "summarize_pair p (summary_of rows (pr_task p)) = Inr (summary_of (rows @ [p]) (pr_task p))"
proof -
  have "known_decision (pr_decision p)" "trial_ok (pr_base p)" "trial_ok (pr_cand p)"
    using assms by (simp_all add: pair_ok_def known_decision_def)
  then show ?thesis
    by (simp add: summarize_pair_def summary_of_def rows_of_def Let_def decisions_snoc cohort_snoc top_decision_def)
qed

lemma in_summary_map:
  assumes "distinct ks" "\<And>k. su_task (g k) = k"
  shows "in_summary task f (map g ks) =
    (if task \<in> set ks then bindE (f (g task)) (\<lambda>s. Inr (map (g(task := s)) ks))
     else bindE (f (new_summary task)) (\<lambda>s. Inr (map g ks @ [s])))"
  using assms(1)
proof (induction ks)
  case (Cons k ks)
  have "map (g(k := s)) ks = map g ks" for s using Cons.prems by auto
  then show ?case using Cons assms(2) by (cases "f (g task)"; cases "f (new_summary task)") auto
qed simp

lemma in_summary_spec:
  assumes "pair_ok p"
  shows "in_summary (pr_task p) (summarize_pair p) (map (summary_of rows) (first_seen (map pr_task rows))) =
    Inr (map (summary_of (rows @ [p])) (first_seen (map pr_task (rows @ [p]))))"
proof -
  let ?t = "pr_task p"
  have su: "su_task (summary_of rows k) = k" for k by (simp add: summary_of_def Let_def)
  have other: "k \<noteq> ?t \<Longrightarrow> summary_of (rows @ [p]) k = summary_of rows k" for k using summary_other [of p k] by auto
  have upd: "(summary_of rows)(?t := summary_of (rows @ [p]) ?t) = summary_of (rows @ [p])"
    using other by (auto simp: fun_eq_iff)
  show ?thesis
  proof (cases "?t \<in> set (map pr_task rows)")
    case True
    then show ?thesis
      unfolding in_summary_map [OF first_seen_simps(4) su] by (simp add: first_seen_simps summary_same [OF assms] upd)
  next
    case False
    then have "map (summary_of rows) (first_seen (map pr_task rows)) = map (summary_of (rows @ [p])) (first_seen (map pr_task rows))"
      using other by (intro map_cong refl) (metis first_seen_simps(3))
    then show ?thesis using False
      unfolding in_summary_map [OF first_seen_simps(4) su]
      by (simp add: first_seen_simps summary_new summary_same [OF assms])
  qed
qed

definition summaries_of :: "pair_result list \<Rightarrow> summaries" where
  "summaries_of rows =
     \<lparr>sm_base = outcomes (map pr_base rows), sm_cand = outcomes (map pr_cand rows),
      sm_tasks = map (summary_of rows) (first_seen (map pr_task rows))\<rparr>"

lemma summarize_append:
  "list_all pair_ok ps \<Longrightarrow> summarize ps (summaries_of rows) = Inr (summaries_of (rows @ ps))"
proof (induction ps arbitrary: rows)
  case (Cons p ps)
  have ok: "pair_ok p" "trial_ok (pr_base p)" "trial_ok (pr_cand p)" using Cons.prems by (simp_all add: pair_ok_def)
  have "summarize (p # ps) (summaries_of rows) = summarize ps (summaries_of (rows @ [p]))"
    using in_summary_spec [OF ok(1), of rows] outcomes_snoc [OF ok(2)] outcomes_snoc [OF ok(3)]
    by (simp add: summaries_of_def)
  then show ?case using Cons.IH [of "rows @ [p]"] Cons.prems by simp
qed simp

lemma summarizeTasks_rows:
  assumes "list_all pair_ok (cm_pairs r)"
  shows "summarizeTasks r = Inr (summaries_of (cm_pairs r))"
proof -
  have "\<lparr>sm_base = no_outcomes, sm_cand = no_outcomes, sm_tasks = []\<rparr> = summaries_of []"
    by (simp add: summaries_of_def outcomes_Nil first_seen_simps)
  then show ?thesis using summarize_append [OF assms, of "[]"] by (simp add: summarizeTasks_def)
qed

section \<open>An example\<close>

definition ex_compare_env :: compare_env where
  "ex_compare_env =
     \<lparr>ce_root = \<lparr>rr_lstat = \<lambda>_. NotExist, rr_open = \<lambda>_. None\<rparr>, ce_decode = \<lambda>_. None, ce_verify = \<lambda>_. True, ce_ctx = \<lambda>_. None,
      ce_before = \<lambda>_. None, ce_observe = \<lambda>_ _ _. None\<rparr>"

definition ex_pair :: planned_pair where
  "ex_pair =
     \<lparr>pp_task = ''t'', pp_repeat = 1, pp_base = \<lparr>pt_id = ''a'', pt_artifact = ''a/terminal.json''\<rparr>,
      pp_cand = \<lparr>pt_id = ''b'', pt_artifact = ''b/terminal.json''\<rparr>\<rparr>"

definition ex_plan :: compare_plan where
  "ex_plan =
     \<lparr>cl_format = CompareFormat, cl_baseline = ''mock-a'', cl_candidate = ''mock-b'', cl_allowed = [''model''], cl_pairs = [ex_pair]\<rparr>"


definition ex_missing :: "string \<Rightarrow> trial_result" where
  "ex_missing i =
     \<lparr>tr_id = i, tr_state = ''not_started'', tr_validation = ''missing'', tr_status = [], tr_outcome = [], tr_attempts = 0, tr_blocked = 0,
      tr_violations = 0, tr_failed = []\<rparr>"

definition ex_pair_row :: pair_result where
  "ex_pair_row =
     \<lparr>pr_task = ''t'', pr_repeat = 1, pr_base = ex_missing ''a'', pr_cand = ex_missing ''b'', pr_decision = ''inconclusive'',
      pr_reasons = [''evidence_unavailable_or_unscorable''], pr_new = []\<rparr>"

lemma ex_pairs: "compare_pairs ex_compare_env 1 ex_plan [ex_pair] 100 new_comparison = Inr (add_pair ex_pair_row new_comparison)"
proof -
  have "path_parents ''a/terminal.json'' = [''a'']" "path_parents ''b/terminal.json'' = [''b'']" by code_simp+
  then show ?thesis
    by (simp add: compare_pair_def inspectTrial_def ex_compare_env_def ex_pair_def new_trial_def judge_pair_def observe_definition_def
        option_error_def ex_pair_row_def ex_missing_def Let_def)
qed

section \<open>Properties\<close>



text \<open>C39 The summaries of a comparison never fail and are exactly the projections of its rows: one summary per task,
  in the order of the first pairs, with the decision, the decision counts and the cohorts of the rows of that task;
  the totals count every row. Planned trials are the ones not started and the ones started, started trials are the
  incomplete and the terminal ones, and only terminal trials are scored.\<close>

theorem compare_summaries_are_projections:
  assumes "compare_pairs e k plan ps limit new_comparison = Inr r"
  shows "summarizeTasks r = Inr (summaries_of (cm_pairs r)) \<and> map pr_task (cm_pairs r) = map pp_task ps \<and>
    cm_baseCounts r = tally (map pr_base (cm_pairs r)) \<and> cm_candCounts r = tally (map pr_cand (cm_pairs r)) \<and>
    cm_counts r = tally (concat (map (\<lambda>p. [pr_base p, pr_cand p]) (cm_pairs r))) \<and>
    dn_planned (cm_counts r) = 2 * length ps \<and>
    dn_planned (cm_counts r) = dn_notStarted (cm_counts r) + dn_started (cm_counts r) \<and>
    dn_started (cm_counts r) = dn_incomplete (cm_counts r) + dn_terminal (cm_counts r) \<and>
    dn_valid (cm_counts r) \<le> dn_terminal (cm_counts r)"
proof -
  from compare_pairs_rows [OF assms] obtain rows where rows: "list_all pair_ok rows" "map pr_task rows = map pp_task ps"
    "r = foldl (\<lambda>r row. add_pair row r) new_comparison rows" by blast
  have r: "cm_pairs r = rows" unfolding rows(3) fold_pairs by (simp add: new_comparison_def)
  let ?all = "concat (map (\<lambda>p. [pr_base p, pr_cand p]) rows)"
  have counts: "cm_baseCounts (foldl (\<lambda>r row. add_pair row r) new_comparison rs) = tally (map pr_base rs) \<and>
      cm_candCounts (foldl (\<lambda>r row. add_pair row r) new_comparison rs) = tally (map pr_cand rs) \<and>
      cm_counts (foldl (\<lambda>r row. add_pair row r) new_comparison rs) = tally (concat (map (\<lambda>p. [pr_base p, pr_cand p]) rs))" for rs
    by (induction rs rule: rev_induct) (simp_all add: new_comparison_def tally_Nil add_pair_def tally_snoc)
  have "list_all trial_ok ?all" using rows(1) by (auto simp: list_all_iff pair_ok_def)
  moreover have "length ?all = 2 * length rows" by (induction rows) simp_all
  moreover have "length rows = length ps" using rows(2) map_eq_imp_length_eq by blast
  ultimately show ?thesis
    using counts [of rows] tally_adds [of ?all] tally_valid [of ?all] summarizeTasks_rows [of r] rows r
    by (simp add: tally_def)
qed

theorem compare_summaries_are_projections_witness:
  "summarizeTasks (add_pair ex_pair_row new_comparison) = Inr (summaries_of [ex_pair_row]) \<and>
   dn_planned (cm_counts (add_pair ex_pair_row new_comparison)) = 2"
proof -
  have "cm_pairs (add_pair ex_pair_row new_comparison) = [ex_pair_row]" by (simp add: add_pair_def new_comparison_def)
  with compare_summaries_are_projections [OF ex_pairs]
  have "summarizeTasks (add_pair ex_pair_row new_comparison) = Inr (summaries_of [ex_pair_row])"
    "dn_planned (cm_counts (add_pair ex_pair_row new_comparison)) = 2 * length [ex_pair]" by metis+
  then show ?thesis by simp
qed

end
