(* ===== verification/Live_Client.thy ===== *)
theory Live_Client
  imports Host_Session Baseline
begin

text \<open>
  \<open>internal/agentapi\<close>: the approved plan of a live run (\<open>plan.go\<close>) and the client that sends its
  requests to the model provider (\<open>client.go\<close>). The provider's answer is an argument of an exchange:
  nothing, or a status, whether its header names uncompressed JSON, and the bytes that could be read.
  The clock is read when an exchange starts and again right before the request is sent. Decoding a
  plan from its JSON text is a parameter.
\<close>

section \<open>The plan\<close>

record live_plan =
  lp_format :: string
  lp_id :: string
  lp_provider :: string
  lp_profile :: string
  lp_model :: string
  lp_task :: agent_task
  lp_bundle :: string
  lp_issued :: string
  lp_expires :: string
  lp_maxRequests :: int
  lp_maxTokens :: int
  lp_costPolicy :: string
  lp_approved :: bool
  lp_synthetic :: bool
  lp_unknownCost :: bool

definition plan_id :: "string \<Rightarrow> bool" where
  "plan_id s =
     (case s of
        [] \<Rightarrow> False
      | c # cs \<Rightarrow> in_class True [(97, 122)] (of_char c) \<and> length cs \<le> 63 \<and>
          list_all (\<lambda>c. in_class True [(97, 122), (48, 57), (45, 45)] (of_char c)) cs)"

definition live_instant :: "string \<Rightarrow> instant option" where "live_instant s = map_option fst (parse_nano s)"

definition live_Validate :: "live_plan option \<Rightarrow> string + unit" where
  "live_Validate plan =
     (case plan of
        None \<Rightarrow> Inl ''LIVE_PLAN_INVALID''
      | Some p \<Rightarrow>
          if lp_format p \<noteq> ''statetwin.dev/agent-live-plan/v1alpha1'' \<or> \<not> plan_id (lp_id p) \<or> lp_provider p \<noteq> ''openai'' \<or>
             lp_profile p \<noteq> ''openai-responses-local-bridge-v1alpha1'' \<or> \<not> ValidModel (lp_model p) \<or> \<not> digestPattern (lp_bundle p) \<or>
             lp_costPolicy p \<noteq> ''request-capped-cost-unknown''
          then Inl ''LIVE_PLAN_INVALID''
          else if Task_Validate (Some (lp_task p)) \<noteq> Inr () \<or> lp_maxRequests p < 1 \<or>
             lp_maxRequests p > bu_modelRequests (tk_budgets (lp_task p)) \<or> lp_maxTokens p < 1 \<or> lp_maxTokens p > 8192
          then Inl ''LIVE_PLAN_INVALID''
          else (case (live_instant (lp_issued p), live_instant (lp_expires p)) of
                  (Some issued, Some expires) \<Rightarrow>
                    if \<not> issued < expires \<or> expires - issued > 24 * hour_ns then Inl ''LIVE_PLAN_INVALID'' else Inr ()
                | _ \<Rightarrow> Inl ''LIVE_PLAN_INVALID''))"

definition Authorize :: "live_plan option \<Rightarrow> int \<Rightarrow> bool \<Rightarrow> string + unit" where
  "Authorize plan now allow =
     bindE (live_Validate plan) (\<lambda>_.
     case plan of
       None \<Rightarrow> Inl ''LIVE_PLAN_INVALID''
     | Some p \<Rightarrow>
         if \<not> allow \<or> \<not> lp_approved p \<or> \<not> lp_synthetic p \<or> \<not> lp_unknownCost p then Inl ''LIVE_NOT_AUTHORIZED''
         else if now < the (live_instant (lp_issued p)) \<or> \<not> now < the (live_instant (lp_expires p))
         then Inl ''LIVE_APPROVAL_EXPIRED_OR_NOT_YET_VALID''
         else Inr ())"

definition OutputDirectory :: "live_plan \<Rightarrow> string" where "OutputDirectory p = ''.statetwin/live/'' @ lp_id p"

section \<open>Decoding a request\<close>

text \<open>
  Closed-field admission decodes a document twice into the same value; the elements of a slice are
  decoded over what its backing array held before.
\<close>

definition known_members :: "string list \<Rightarrow> (string \<times> 'a) list \<Rightarrow> bool" where
  "known_members names ms = list_all (\<lambda>(k, _). list_ex (\<lambda>n. foldName k = foldName n) names) ms"

fun slice_elems :: "('a \<Rightarrow> jdoc \<Rightarrow> string + 'a) \<Rightarrow> 'a \<Rightarrow> 'a list \<Rightarrow> jdoc list \<Rightarrow> string + 'a list" where
  "slice_elems elem zero backing [] = Inr []"
| "slice_elems elem zero backing (d # ds) =
     bindE (elem (case backing of [] \<Rightarrow> zero | p # _ \<Rightarrow> p) d) (\<lambda>p.
     bindE (slice_elems elem zero (drop 1 backing) ds) (\<lambda>ps. Inr (p # ps)))"

fun slice_field :: "('a \<Rightarrow> jdoc \<Rightarrow> string + 'a) \<Rightarrow> 'a \<Rightarrow> 'a list \<Rightarrow> 'a list \<Rightarrow> jdoc list \<Rightarrow> string + 'a list" where
  "slice_field elem zero backing xs [] = Inr xs"
| "slice_field elem zero backing xs (DNull # ds) = slice_field elem zero [] [] ds"
| "slice_field elem zero backing xs (DArr es # ds) =
     bindE (slice_elems elem zero backing es) (\<lambda>ys. slice_field elem zero (if ys = [] then [] else ys @ drop (length ys) backing) ys ds)"
| "slice_field elem zero backing xs (_ # ds) = Inl protocol_error"

fun pointer_bool :: "bool option \<Rightarrow> jdoc list \<Rightarrow> string + bool option" where
  "pointer_bool b [] = Inr b"
| "pointer_bool b (DNull # ds) = pointer_bool None ds"
| "pointer_bool b (DBool c # ds) = pointer_bool (Some c) ds"
| "pointer_bool b (_ # ds) = Inl protocol_error"

fun plain_bool :: "bool \<Rightarrow> jdoc list \<Rightarrow> string + bool" where
  "plain_bool b [] = Inr b"
| "plain_bool b (DNull # ds) = plain_bool b ds"
| "plain_bool b (DBool c # ds) = plain_bool c ds"
| "plain_bool b (_ # ds) = Inl protocol_error"

fun plain_int :: "int \<Rightarrow> jdoc list \<Rightarrow> string + int" where
  "plain_int n [] = Inr n"
| "plain_int n (DNull # ds) = plain_int n ds"
| "plain_int n (DNum s # ds) = (case number_int s of Some m \<Rightarrow> plain_int m ds | None \<Rightarrow> Inl protocol_error)"
| "plain_int n (_ # ds) = Inl protocol_error"

record fn_head =
  fh_type :: string
  fh_name :: string
  fh_strict :: bool

definition decode_fn :: "fn_head \<Rightarrow> jdoc \<Rightarrow> string + fn_head" where
  "decode_fn p d =
     bindE (struct_members d) (\<lambda>ms.
     if \<not> known_members [''type'', ''name'', ''description'', ''parameters'', ''strict''] ms then Inl protocol_error
     else
       bindE (string_field (fh_type p) (field_values ''type'' ms)) (\<lambda>t.
       bindE (string_field (fh_name p) (field_values ''name'' ms)) (\<lambda>n.
       bindE (struct_string ''description'' ms) (\<lambda>_.
       bindE (plain_bool (fh_strict p) (field_values ''strict'' ms)) (\<lambda>s.
         Inr \<lparr>fh_type = t, fh_name = n, fh_strict = s\<rparr>)))))"

record live_request =
  lq_model :: string
  lq_instructions :: string
  lq_input :: "string list"
  lq_tools :: "fn_head list"
  lq_store :: "bool option"
  lq_stream :: "bool option"
  lq_parallel :: "bool option"
  lq_maxTokens :: int

definition request_fields :: "string list" where
  "request_fields =
     [''model'', ''instructions'', ''input'', ''tools'', ''store'', ''stream'', ''parallel_tool_calls'', ''max_output_tokens'']"

definition decode_request :: "int \<Rightarrow> string \<Rightarrow> string + live_request" where
  "decode_request maximum body =
     bindE (decodeJSON body maximum) (\<lambda>d.
     bindE (struct_members d) (\<lambda>ms.
     if \<not> known_members request_fields ms then Inl protocol_error
     else
       bindE (struct_string ''model'' ms) (\<lambda>model.
       bindE (struct_string ''instructions'' ms) (\<lambda>instructions.
       bindE (raw_list_field [] (case raw_object body of None \<Rightarrow> [] | Some rs \<Rightarrow> field_values ''input'' rs)) (\<lambda>input.
       bindE (slice_field decode_fn \<lparr>fh_type = [], fh_name = [], fh_strict = False\<rparr> [] []
                (field_values ''tools'' ms @ field_values ''tools'' ms)) (\<lambda>tools.
       bindE (pointer_bool None (field_values ''store'' ms)) (\<lambda>store.
       bindE (pointer_bool None (field_values ''stream'' ms)) (\<lambda>stream.
       bindE (pointer_bool None (field_values ''parallel_tool_calls'' ms)) (\<lambda>parallel.
       bindE (plain_int 0 (field_values ''max_output_tokens'' ms)) (\<lambda>tokens.
         Inr \<lparr>lq_model = model, lq_instructions = instructions, lq_input = input, lq_tools = tools, lq_store = store,
              lq_stream = stream, lq_parallel = parallel, lq_maxTokens = tokens\<rparr>))))))))))"

section \<open>The client\<close>

record receipt =
  rc_sequence :: int
  rc_admittedAt :: string
  rc_outcome :: string
  rc_status :: int
  rc_model :: string
  rc_tokens :: "(int \<times> int \<times> int) option"

record live_client =
  lc_plan :: live_plan
  lc_key :: string
  lc_sent :: int
  lc_stopped :: bool

definition empty_receipt :: receipt where
  "empty_receipt = \<lparr>rc_sequence = 0, rc_admittedAt = [], rc_outcome = [], rc_status = 0, rc_model = [], rc_tokens = None\<rparr>"

text \<open>\<open>New\<close>: the key is printable ASCII without blanks; the plan is detached by encoding and decoding it.\<close>

definition live_key :: "string \<Rightarrow> bool" where
  "live_key key \<longleftrightarrow> 1 \<le> length key \<and> length key \<le> 1024 \<and> list_all (\<lambda>c. 33 \<le> (of_char c :: int) \<and> (of_char c :: int) \<le> 126) key"

definition live_New :: "(live_plan \<Rightarrow> string + live_plan) \<Rightarrow> int \<Rightarrow> live_plan option \<Rightarrow> string \<Rightarrow> bool \<Rightarrow> string + live_client" where
  "live_New detach now plan key allow =
     bindE (Authorize plan now allow) (\<lambda>_.
     if \<not> live_key key then Inl ''PROVIDER_CREDENTIAL_MISSING_OR_INVALID''
     else
       (case plan of
          None \<Rightarrow> Inl ''LIVE_PLAN_INVALID''
        | Some p \<Rightarrow> bindE (detach p) (\<lambda>q. Inr \<lparr>lc_plan = q, lc_key = key, lc_sent = 0, lc_stopped = False\<rparr>)))"

definition live_Close :: "live_client \<Rightarrow> live_client" where
  "live_Close c = c\<lparr>lc_stopped := True, lc_key := []\<rparr>"

subsection \<open>Admission of a request\<close>

fun tools_match :: "fn_head list \<Rightarrow> string list \<Rightarrow> bool" where
  "tools_match [] [] = True"
| "tools_match (f # fs) (t # ts) = (fh_type f = ''function'' \<and> fh_name f = t \<and> \<not> fh_strict f \<and> tools_match fs ts)"
| "tools_match _ _ = False"

text \<open>A body that may be sent: what the approved plan says and nothing kept, streamed or in parallel.\<close>

definition admit_request :: "live_plan \<Rightarrow> string \<Rightarrow> string + unit" where
  "admit_request p body =
     (case decode_request (bu_traceBytes (tk_budgets (lp_task p))) body of
        Inl _ \<Rightarrow> Inl ''PROVIDER_REQUEST_REFUSED''
      | Inr q \<Rightarrow>
          if lq_model q \<noteq> lp_model p \<or> lq_instructions q \<noteq> host_Instructions \<or> lq_store q \<noteq> Some False \<or> lq_stream q \<noteq> Some False \<or>
             lq_parallel q \<noteq> Some False \<or> lq_maxTokens q \<noteq> lp_maxTokens p \<or> lq_input q = [] \<or>
             \<not> tools_match (lq_tools q) (tk_tools (lp_task p))
          then Inl ''PROVIDER_REQUEST_REFUSED''
          else if ContainsSensitive body then Inl ''DATA_POLICY_REJECTED''
          else Inr ())"

subsection \<open>The answer\<close>

text \<open>A status, whether the header says uncompressed \<open>application/json\<close>, and the bytes, if they could be read.\<close>

datatype live_answer = NoAnswer | Answer int bool "string option"

record usage_head =
  uh_input :: "int option"
  uh_output :: "int option"
  uh_total :: "int option"

fun pointer_int :: "int option \<Rightarrow> jdoc list \<Rightarrow> string + int option" where
  "pointer_int n [] = Inr n"
| "pointer_int n (DNull # ds) = pointer_int None ds"
| "pointer_int n (DNum s # ds) = (case number_int s of Some m \<Rightarrow> pointer_int (Some m) ds | None \<Rightarrow> Inl protocol_error)"
| "pointer_int n (_ # ds) = Inl protocol_error"

fun usage_field :: "usage_head option \<Rightarrow> jdoc list \<Rightarrow> string + usage_head option" where
  "usage_field u [] = Inr u"
| "usage_field u (DNull # ds) = usage_field None ds"
| "usage_field u (DObj ms # ds) =
     (let v = (case u of None \<Rightarrow> \<lparr>uh_input = None, uh_output = None, uh_total = None\<rparr> | Some v \<Rightarrow> v) in
      bindE (pointer_int (uh_input v) (field_values ''input_tokens'' ms)) (\<lambda>i.
      bindE (pointer_int (uh_output v) (field_values ''output_tokens'' ms)) (\<lambda>outp.
      bindE (pointer_int (uh_total v) (field_values ''total_tokens'' ms)) (\<lambda>t.
        usage_field (Some \<lparr>uh_input = i, uh_output = outp, uh_total = t\<rparr>) ds))))"
| "usage_field u (_ # ds) = Inl protocol_error"

definition ValidTokens :: "(int \<times> int \<times> int) option \<Rightarrow> bool" where
  "ValidTokens t =
     (case t of
        None \<Rightarrow> True
      | Some (i, outp, t) \<Rightarrow> i \<ge> 0 \<and> outp \<ge> 0 \<and> i \<le> 2 ^ 40 \<and> outp \<le> 2 ^ 40 \<and> t = i + outp)"

definition answer_tokens :: "usage_head option \<Rightarrow> string + (int \<times> int \<times> int) option" where
  "answer_tokens u =
     (case u of
        None \<Rightarrow> Inr None
      | Some v \<Rightarrow>
          (case (uh_input v, uh_output v, uh_total v) of
             (Some i, Some outp, Some t) \<Rightarrow>
               if ValidTokens (Some (i, outp, t)) then Inr (Some (i, outp, t)) else Inl ''PROVIDER_USAGE_INVALID''
           | _ \<Rightarrow> Inl ''PROVIDER_USAGE_INVALID''))"

text \<open>The model and the usage that a response reports.\<close>

definition decode_answer :: "int \<Rightarrow> string \<Rightarrow> string + string \<times> usage_head option" where
  "decode_answer maximum raw =
     bindE (decodeJSON raw maximum) (\<lambda>d.
     bindE (struct_members d) (\<lambda>ms.
     bindE (struct_string ''model'' ms) (\<lambda>model.
     bindE (usage_field None (field_values ''usage'' ms)) (\<lambda>usage.
     if ValidModel model then Inr (model, usage) else Inl protocol_error))))"

definition accept_answer :: "int \<Rightarrow> live_answer \<Rightarrow> receipt \<Rightarrow> (string + string) \<times> receipt" where
  "accept_answer maximum a r =
     (case a of
        NoAnswer \<Rightarrow> (Inl ''PROVIDER_ACCEPTANCE_UNKNOWN'', r)
      | Answer status is_json body \<Rightarrow>
          let r1 = r\<lparr>rc_status := status\<rparr> in
          if status \<noteq> 200 then (Inl ''PROVIDER_HTTP_ERROR'', r1\<lparr>rc_outcome := ''http_error''\<rparr>)
          else if \<not> is_json then (Inl ''PROVIDER_RESPONSE_INVALID'', r1)
          else (case body of
            None \<Rightarrow> (Inl ''PROVIDER_ACCEPTANCE_UNKNOWN'', r1)
          | Some raw \<Rightarrow>
              if int (length raw) > maximum then (Inl ''PROVIDER_RESPONSE_LIMIT'', r1)
              else (case decode_answer maximum raw of
                Inl _ \<Rightarrow> (Inl ''PROVIDER_RESPONSE_INVALID'', r1)
              | Inr (model, usage) \<Rightarrow>
                  if ContainsSensitive raw then (Inl ''DATA_POLICY_REJECTED'', r1)
                  else (case answer_tokens usage of
                    Inl x \<Rightarrow> (Inl x, r1\<lparr>rc_model := model\<rparr>)
                  | Inr used \<Rightarrow> (Inr raw, r1\<lparr>rc_model := model, rc_tokens := used, rc_outcome := ''response_received''\<rparr>)))))"

subsection \<open>One exchange\<close>

record exchange_env =
  xe_now :: int
  xe_ctx :: "string option"
  xe_sentAt :: int
  xe_requestCtx :: "string option"
  xe_answer :: live_answer

text \<open>The checks before a request is sent, and whether they stop the client.\<close>

definition before_send :: "exchange_env \<Rightarrow> string \<Rightarrow> live_client \<Rightarrow> (string \<times> bool) + unit" where
  "before_send x body c =
     (let p = lc_plan c; refuse = (\<lambda>e. Inl (e, False)) in
      if lc_stopped c then refuse ''PROVIDER_STOPPED''
      else case Authorize (Some p) (xe_now x) True of Inl e \<Rightarrow> refuse e | Inr _ \<Rightarrow>
      case xe_ctx x of Some e \<Rightarrow> refuse e | None \<Rightarrow>
      if lc_sent c \<ge> lp_maxRequests p then Inl (''BUDGET_EXHAUSTED'', True)
      else case admit_request p body of Inl e \<Rightarrow> refuse e | Inr _ \<Rightarrow>
      case Authorize (Some p) (xe_sentAt x) True of Inl e \<Rightarrow> refuse e | Inr _ \<Rightarrow>
      case xe_requestCtx x of Some e \<Rightarrow> refuse e | None \<Rightarrow> Inr ())"

definition Exchange :: "exchange_env \<Rightarrow> string \<Rightarrow> live_client \<Rightarrow> (string + string) \<times> receipt \<times> live_client" where
  "Exchange x body c =
     (case before_send x body c of
        Inl (e, stop) \<Rightarrow> (Inl e, empty_receipt, if stop then c\<lparr>lc_stopped := True\<rparr> else c)
      | Inr _ \<Rightarrow>
          let c1 = c\<lparr>lc_sent := lc_sent c + 1\<rparr>;
              r1 = empty_receipt\<lparr>rc_sequence := lc_sent c1, rc_admittedAt := format_nano (xe_sentAt x), rc_outcome := ''acceptance_unknown''\<rparr>
          in (case accept_answer (bu_responseBytes (tk_budgets (lp_task (lc_plan c)))) (xe_answer x) r1 of
                (Inl e, r) \<Rightarrow> (Inl e, r, c1\<lparr>lc_stopped := True\<rparr>)
              | (Inr raw, r) \<Rightarrow> (Inr raw, r, c1)))"

end
