(* ===== verification/Live_Props.thy ===== *)
theory Live_Props
  imports Live_Client Host_Props
begin

text \<open>
  What the client of the model provider guarantees: how many requests it sends, when, and with which
  content.
\<close>

section \<open>Runs of a client\<close>

datatype live_op = OExchange exchange_env string | OClose

datatype live_out = Exchanged exchange_env string "string + string" receipt | Closed

definition live_step :: "live_op \<Rightarrow> live_client \<Rightarrow> live_out \<times> live_client" where
  "live_step opn c =
     (case opn of
        OExchange x body \<Rightarrow> (case Exchange x body c of (r, rc, c') \<Rightarrow> (Exchanged x body r rc, c'))
      | OClose \<Rightarrow> (Closed, live_Close c))"

fun live_run :: "live_op list \<Rightarrow> live_client \<Rightarrow> live_out list \<times> live_client" where
  "live_run [] c = ([], c)"
| "live_run (x # xs) c = (let (out, c1) = live_step x c; (outs, c2) = live_run xs c1 in (out # outs, c2))"

text \<open>The requests that were sent: those whose receipt has a sequence number.\<close>

record sent_request =
  sq_env :: exchange_env
  sq_body :: string
  sq_result :: "string + string"
  sq_receipt :: receipt

fun sent_of :: "live_out \<Rightarrow> sent_request list" where
  "sent_of (Exchanged x body r rc) =
     (if rc_sequence rc > 0 then [\<lparr>sq_env = x, sq_body = body, sq_result = r, sq_receipt = rc\<rparr>] else [])"
| "sent_of Closed = []"

text \<open>A request that the plan approves: its content, and the time it was sent.\<close>

definition approved :: "live_plan \<Rightarrow> sent_request \<Rightarrow> bool" where
  "approved p q \<longleftrightarrow>
     admit_request p (sq_body q) = Inr () \<and> Authorize (Some p) (xe_sentAt (sq_env q)) True = Inr () \<and>
     rc_admittedAt (sq_receipt q) = format_nano (xe_sentAt (sq_env q))"

definition answered :: "sent_request \<Rightarrow> bool" where
  "answered q \<longleftrightarrow> (\<exists>raw. sq_result q = Inr raw) \<and> rc_outcome (sq_receipt q) = ''response_received'' \<and> ValidTokens (rc_tokens (sq_receipt q))"

lemma accept_answer_receipt:
  assumes "accept_answer m a r = (res, r')"
  shows "rc_sequence r' = rc_sequence r \<and> rc_admittedAt r' = rc_admittedAt r \<and>
    (case res of Inl _ \<Rightarrow> True | Inr _ \<Rightarrow> rc_outcome r' = ''response_received'' \<and> ValidTokens (rc_tokens r'))"
  using assms
  by (auto simp: accept_answer_def answer_tokens_def ValidTokens_def Let_def
      split: live_answer.splits if_splits option.splits sum.splits)

lemma before_send_Inr:
  assumes "before_send x body c = Inr ()"
  shows "\<not> lc_stopped c \<and> lc_sent c < lp_maxRequests (lc_plan c) \<and> admit_request (lc_plan c) body = Inr () \<and>
    Authorize (Some (lc_plan c)) (xe_sentAt x) True = Inr ()"
  using assms by (auto simp: before_send_def Let_def split: if_splits sum.splits option.splits)

lemma Exchange_cases:
  assumes "Exchange x body c = (r, rc, c')"
  obtains (kept) e where "r = Inl e" "rc_sequence rc = 0" "lc_plan c' = lc_plan c" "lc_sent c' = lc_sent c" "lc_stopped c \<longrightarrow> lc_stopped c'"
  | (sent) "\<not> lc_stopped c" "lc_sent c < lp_maxRequests (lc_plan c)" "lc_plan c' = lc_plan c" "lc_sent c' = lc_sent c + 1"
      "rc_sequence rc = lc_sent c + 1" "approved (lc_plan c) \<lparr>sq_env = x, sq_body = body, sq_result = r, sq_receipt = rc\<rparr>"
      "answered \<lparr>sq_env = x, sq_body = body, sq_result = r, sq_receipt = rc\<rparr> \<or> lc_stopped c'"
proof (cases "before_send x body c")
  case (Inl e)
  then show ?thesis using assms kept by (cases e) (auto simp: Exchange_def empty_receipt_def split: if_splits)
next
  case (Inr u)
  let ?r1 = "empty_receipt\<lparr>rc_sequence := lc_sent c + 1, rc_admittedAt := format_nano (xe_sentAt x), rc_outcome := ''acceptance_unknown''\<rparr>"
  obtain res r' where a: "accept_answer (bu_responseBytes (tk_budgets (lp_task (lc_plan c)))) (xe_answer x) ?r1 = (res, r')" by fastforce
  show ?thesis
    using assms Inr a accept_answer_receipt [OF a] before_send_Inr [of x body c] sent
    by (cases res) (auto simp: Exchange_def Let_def approved_def answered_def)
qed

section \<open>The account of a run\<close>

definition live_account :: "live_plan \<Rightarrow> sent_request list \<Rightarrow> live_client \<Rightarrow> bool" where
  "live_account p qs c \<longleftrightarrow>
     lc_plan c = p \<and> lc_sent c = int (length qs) \<and> map (rc_sequence \<circ> sq_receipt) qs = [1..int (length qs)] \<and>
     int (length qs) \<le> max 0 (lp_maxRequests p) \<and> list_all (approved p) qs \<and> list_all answered (butlast qs) \<and>
     (lc_stopped c \<or> list_all answered qs)"

lemma live_account_step:
  assumes "live_account p qs c" "live_step opn c = (out, c')"
  shows "live_account p (qs @ sent_of out) c'"
proof (cases opn)
  case OClose
  then show ?thesis using assms by (auto simp: live_step_def live_Close_def live_account_def)
next
  case (OExchange x body)
  obtain r rc where e: "Exchange x body c = (r, rc, c')" "out = Exchanged x body r rc"
    using assms(2) OExchange by (auto simp: live_step_def split: prod.splits)
  from e(1) show ?thesis
  proof (cases rule: Exchange_cases)
    case (kept err)
    then show ?thesis using assms(1) e(2) by (auto simp: live_account_def)
  next
    case sent
    let ?q = "\<lparr>sq_env = x, sq_body = body, sq_result = r, sq_receipt = rc\<rparr>"
    have pos: "rc_sequence rc > 0" using sent assms(1) by (simp add: live_account_def)
    have "list_all answered qs" using assms(1) sent(1) by (simp add: live_account_def)
    moreover have "[1..1 + int (length qs)] = [1..int (length qs)] @ [int (length qs) + 1]" using upto_rec2 [of 1 "1 + int (length qs)"] by simp
    ultimately show ?thesis using assms(1) e(2) sent pos by (auto simp: live_account_def)
  qed
qed

lemma live_account_run:
  "live_account p qs c \<Longrightarrow> live_run xs c = (outs, c') \<Longrightarrow> live_account p (qs @ concat (map sent_of outs)) c'"
proof (induction xs arbitrary: qs c outs)
  case (Cons x xs)
  obtain out c1 where s: "live_step x c = (out, c1)" by fastforce
  obtain rest where r: "live_run xs c1 = (rest, c')" "outs = out # rest"
    using Cons.prems(2) s by (auto split: prod.splits)
  from Cons.IH [OF live_account_step [OF Cons.prems(1) s] r(1)] show ?case by (simp add: r(2))
qed simp

section \<open>An example\<close>

definition ex_live_plan :: live_plan where
  "ex_live_plan =
     \<lparr>lp_format = ''statetwin.dev/agent-live-plan/v1alpha1'', lp_id = ''p'', lp_provider = ''openai'',
      lp_profile = ''openai-responses-local-bridge-v1alpha1'', lp_model = ''m'', lp_task = ex_host_task,
      lp_bundle = ''sha256:'' @ replicate 64 CHR ''a'', lp_issued = ''2026-01-01T00:00:00Z'', lp_expires = ''2026-01-01T01:00:00Z'',
      lp_maxRequests = 1, lp_maxTokens = 100, lp_costPolicy = ''request-capped-cost-unknown'', lp_approved = True, lp_synthetic = True,
      lp_unknownCost = True\<rparr>"

definition ex_live_now :: int where "ex_live_now = the (live_instant ''2026-01-01T00:00:00Z'')"

definition ex_live_client :: live_client where
  "ex_live_client = \<lparr>lc_plan = ex_live_plan, lc_key = ''k'', lc_sent = 0, lc_stopped = False\<rparr>"

definition ex_live_ops :: "live_op list" where
  "ex_live_ops =
     [OExchange \<lparr>xe_now = ex_live_now, xe_ctx = None, xe_sentAt = ex_live_now, xe_requestCtx = None, xe_answer = NoAnswer\<rparr> ''{}'', OClose]"

lemma ex_live_times: "live_instant ''2026-01-01T01:00:00Z'' = Some (ex_live_now + 3600000000000)"
    "live_instant ''2026-01-01T00:00:00Z'' = Some ex_live_now"
  unfolding ex_live_now_def by code_simp+

lemma ex_live_new: "live_New Inr ex_live_now (Some ex_live_plan) ''k'' True = Inr ex_live_client"
proof -
  have "plan_id ''p''" "ValidModel ''m''" "digestPattern (''sha256:'' @ replicate 64 CHR ''a'')" "live_key ''k''" by code_simp+
  moreover have "bu_modelRequests (tk_budgets ex_host_task) = 2" by (simp add: ex_host_task_def ex_task_def)
  ultimately have "live_Validate (Some ex_live_plan) = Inr ()"
    by (simp add: live_Validate_def ex_live_plan_def ex_host_task_valid ex_live_times hour_ns_def second_def)
  then have "Authorize (Some ex_live_plan) ex_live_now True = Inr ()"
    by (simp add: Authorize_def) (simp add: ex_live_plan_def ex_live_times)
  then show ?thesis using \<open>live_key ''k''\<close> by (simp add: live_New_def ex_live_client_def)
qed

section \<open>Properties\<close>

text \<open>C40 Whatever is asked of a client and whatever the provider answers, the client sends at most the approved
  number of requests, and their receipts are numbered from one without a gap. Each request that it sends fits the
  plan: its model, instructions, tools and token limit, nothing stored, streamed or run in parallel and no
  credential in its text; and it is sent inside the approved window of time. Every request but the last was answered
  completely with valid counts of tokens; after one that was not, the client is stopped.\<close>

theorem live_requests_are_approved:
  assumes "live_New detach now plan key allow = Inr c" and "live_run xs c = (outs, c')"
  shows "let qs = concat (map sent_of outs); p = lc_plan c in
    map (rc_sequence \<circ> sq_receipt) qs = [1..int (length qs)] \<and> int (length qs) \<le> max 0 (lp_maxRequests p) \<and>
    list_all (approved p) qs \<and> list_all answered (butlast qs) \<and> (lc_stopped c' \<or> list_all answered qs)"
proof -
  have "live_account (lc_plan c) [] c"
    using assms(1) by (auto simp: live_New_def bindE_eq_Inr live_account_def split: option.splits if_splits)
  from live_account_run [OF this assms(2)] show ?thesis by (simp add: live_account_def Let_def)
qed

theorem live_requests_are_approved_witness:
  "list_all (approved ex_live_plan) (concat (map sent_of (fst (live_run ex_live_ops ex_live_client)))) \<and>
   int (length (concat (map sent_of (fst (live_run ex_live_ops ex_live_client))))) \<le> 1"
  using live_requests_are_approved [OF ex_live_new, of ex_live_ops "fst (live_run ex_live_ops ex_live_client)" "snd (live_run ex_live_ops ex_live_client)"]
  by (simp add: Let_def ex_live_client_def ex_live_plan_def [THEN arg_cong [where f = lp_maxRequests]])

end
