(* ===== verification/Config_Props.thy ===== *)
theory Config_Props
  imports Exec_Profile Json_Roundtrip
begin

text \<open>
  Properties of the canonical text of a value and of the execution profile of the host.
\<close>

section \<open>Canonical text\<close>

text \<open>C27 The canonical text of a value is a JSON text that decodes to the value in canonical form, so
  two values with the same canonical text, the input of every digest, are the same value up to the
  order of object members.
\<close>
theorem canonical_text_identifies_value:
  assumes "json_utf8 v" "json_utf8 w" "doc_depth (doc_of (canon v)) \<le> maxNestingDepth" "doc_depth (doc_of (canon w)) \<le> maxNestingDepth"
  shows "parse_json (canonical_JSON v) = Some (doc_of (canon v)) \<and> (canonical_JSON v = canonical_JSON w \<longleftrightarrow> canon v = canon w)"
  using canonical_decodes [OF assms(1,3)] canonical_injective [OF assms] by (auto simp: canonical_JSON_def)

definition ex_left :: json where "ex_left = JObj [(''b'', JArr [JNum (- 12), JNull]), (''a'', JStr ''x<y'')]"
definition ex_right :: json where "ex_right = JObj [(''a'', JStr ''x<y''), (''b'', JArr [JNum (- 12), JNull])]"

lemma ex_values: "json_utf8 ex_left" "json_utf8 ex_right" "canon ex_left = ex_right" "canon ex_right = ex_right" "doc_depth (doc_of ex_right) = 2"
  by code_simp+

theorem canonical_text_identifies_value_witness:
  "parse_json (canonical_JSON ex_left) = Some (doc_of ex_right) \<and> canonical_JSON ex_left = canonical_JSON ex_right"
proof -
  have "2 \<le> maxNestingDepth" by (simp add: maxNestingDepth_def)
  with canonical_text_identifies_value [OF ex_values(1,2), unfolded ex_values(3-5)] show ?thesis by blast
qed

section \<open>The execution profile\<close>

text \<open>Whatever the command line and the environment say, a profile that resolves is within its
  bounds (processors within the logical ones, memory between 64 MiB and 1 TiB, at most 1024
  requests in flight) and is accepted by the step that applies it to the runtime.
\<close>
theorem resolved_profile_is_applied:
  assumes "exec_Resolve numCPU opts = Inr p" and "logical_cpus numCPU opts < 9223372036854775807"
  shows "exec_Apply p r = Inr (r, \<lparr>ru_maxProcs = ep_maxProcs p, ru_memoryLimit = ep_memoryBytes p\<rparr>) \<and>
    1 \<le> ep_maxProcs p \<and> ep_maxProcs p \<le> logical_cpus numCPU opts \<and> 67108864 \<le> ep_memoryBytes p \<and>
    ep_memoryBytes p \<le> 1099511627776"
  using exec_Resolve_applies [OF assms] by blast

definition ex_options :: options where
  "ex_options = \<lparr>op_cliMode = '' Balanced'', op_cliMaxProcs = [], op_cliMemory = ''64'', op_cliInFlight = [], op_envMode = [],
     op_envMaxProcs = ''3'', op_envMemory = ''9'', op_envInFlight = [], op_logicalCPUs = 8\<rparr>"

definition ex_profile :: exec_profile where
  "ex_profile = \<lparr>ep_format = ProfileFormat, ep_version = ProfileVersion, ep_mode = ''balanced'', ep_logicalCPUs = 8, ep_maxProcs = 3,
     ep_workers = 1, ep_memoryBytes = 67108864, ep_inFlight = 16, ep_hardCPU = False, ep_hardMemory = False, ep_goRuntime = True,
     ep_childProcs = False, ep_source = ''mixed'',
     ep_sources = \<lparr>so_mode = ''command-line'', so_maxProcs = ''environment'', so_memory = ''command-line'', so_inFlight = ''command-line''\<rparr>\<rparr>"

lemma ex_resolves: "exec_Resolve 8 ex_options = Inr ex_profile"
  by code_simp

theorem resolved_profile_is_applied_witness:
  "exec_Apply ex_profile \<lparr>ru_maxProcs = 8, ru_memoryLimit = 0\<rparr> =
     Inr (\<lparr>ru_maxProcs = 8, ru_memoryLimit = 0\<rparr>, \<lparr>ru_maxProcs = 3, ru_memoryLimit = 67108864\<rparr>)"
  using resolved_profile_is_applied [OF ex_resolves] by (simp add: ex_profile_def logical_cpus_def ex_options_def)

end
