(* ===== verification/Server_Facts.thy ===== *)
theory Server_Facts
  imports Data_Plane Store_Heads Engine_Facts
begin

text \<open>
  What a request can do to the database: nothing, or one committed operation of the store that is
  answered with 200 or 201. Refused requests, reading requests and requests without the token
  change nothing.
\<close>

named_theorems effect_intros

definition effect :: "(db \<Rightarrow> bool) \<Rightarrow> db \<Rightarrow> response \<times> db \<Rightarrow> bool" where
  "effect P d out \<longleftrightarrow> snd out = d \<or> (response_status (fst out) \<in> {Some 200, Some 201} \<and> P (snd out))"

lemma effect_same [simp]: "effect P d (resp, d)"
  by (simp add: effect_def)

lemma effect_mono: "effect P d out \<Longrightarrow> (\<And>d'. P d' \<Longrightarrow> Q d') \<Longrightarrow> effect Q d out"
  by (auto simp: effect_def)

lemma effect_decoded: "(\<And>a. x = Some a \<Longrightarrow> effect P d (k a)) \<Longrightarrow> effect P d (decoded x d k)"
  by (cases x) (auto simp: decoded_def)

text \<open>An operation that keeps the database when it fails.\<close>

definition rolls_back :: "db \<Rightarrow> (error + 'a) \<times> db \<Rightarrow> bool" where
  "rolls_back d x \<longleftrightarrow> (case fst x of Inl _ \<Rightarrow> snd x = d | Inr _ \<Rightarrow> True)"

lemma rolls_back_transaction [simp]: "rolls_back d (transaction body d)"
  by (simp add: rolls_back_def transaction_def split: sum.splits prod.splits)

lemma effect_commit:
  assumes "rolls_back d x" "\<And>v d'. x = (Inr v, d') \<Longrightarrow> P d'" "n = 200 \<or> n = 201"
  shows "effect P d (commit n f x)"
  using assms by (cases x; cases "fst x") (auto simp: effect_def commit_def answer_def rolls_back_def)

lemma rolls_back_store [simp]:
  "rolls_back d (InstallFault plan h d)" "rolls_back d (RemoveFault b i h d)" "rolls_back d (CreateSnapshot n b d)"
  "rolls_back d (Fork n b d)" "rolls_back d (Reset n b d)" "rolls_back d (ScheduleEvent rq h d)"
  "rolls_back d (CancelScheduledEvent b i h d)" "rolls_back d (AdvanceClock b t h d)" "rolls_back d (advanceClockToNext b h sp g d)"
  by (simp_all add: InstallFault_def RemoveFault_def CreateSnapshot_def Fork_def Reset_def ScheduleEvent_def
      CancelScheduledEvent_def AdvanceClock_def advanceClockToNext_def)

lemma rolls_back_next [simp]:
  "rolls_back d (AdvanceClockToNext b h d)" "rolls_back d (engine_AdvanceClockToNext l rt b h d)"
  by (auto simp: AdvanceClockToNext_def engine_AdvanceClockToNext_def AdvanceClockToNextWithActions_def)
     (simp add: rolls_back_def)

section \<open>Steps of the control plane\<close>

text \<open>
  The clock of a branch is written with a year of four digits. A request stays within it when the
  instant it asks for does.
\<close>

definition within_years :: "http_request \<Rightarrow> db \<Rightarrow> bool" where
  "within_years r d \<longleftrightarrow>
     (case clock_body r of
        None \<Rightarrow> True
      | Some (b, dur, to, h) \<Rightarrow> (case clock_target b dur to d of Inl _ \<Rightarrow> True | Inr t \<Rightarrow> t < max_instant))"

lemma num_of_nonneg: "list_all is_digit s \<Longrightarrow> 0 \<le> num_of s"
  by (induction s rule: rev_induct) (auto simp: num_of_snoc is_digit_def digit_val_def)

lemma fixed_nonneg: "fixed n s = Some (x, r) \<Longrightarrow> 0 \<le> x"
  by (auto simp: fixed_def split: if_splits intro: num_of_nonneg)

lemma frac_field_nonneg: "0 \<le> fst (frac_field s)"
  by (auto simp: frac_field_def Let_def split: list.splits intro!: num_of_nonneg mult_nonneg_nonneg simp: list_all_iff dest!: in_set_takeD set_takeWhileD)

lemma zone_field_utc: "zone_field s = Some (off, True, r) \<Longrightarrow> off = 0"
  by (auto simp: zone_field_def split: option.splits list.splits bind_splits if_splits)

lemma year_start_nonneg: "0 \<le> y \<Longrightarrow> 0 \<le> year_start y"
  using year_start_strict_mono [of 0 y] by (cases "y = 0") auto

lemma day_number_nonneg: "0 \<le> y \<Longrightarrow> 1 \<le> d \<Longrightarrow> 0 \<le> day_number y m d"
proof -
  assume a: "0 \<le> y" "1 \<le> d"
  have "0 \<le> sum_list (take (nat (m - 1)) (month_lens (leap y)))"
    using month_lens_pos [of "leap y"] by (intro sum_list_nonneg) (auto dest!: in_set_takeD)
  with a year_start_nonneg [OF a(1)] show ?thesis by (simp add: day_number_def)
qed

lemma hour_field_nonneg: "hour_field s = Some (x, r) \<Longrightarrow> 0 \<le> x"
  by (auto simp: hour_field_def split: option.splits intro: fixed_nonneg)

lemma parse_nano_nonneg:
  assumes "parse_nano s = Some (t, True)"
  shows "0 \<le> t"
proof -
  obtain y m d hh mi ss fs r s1 s2 s3 s4 s5 s6 where f: "fixed 4 s1 = Some (y, s2)" "1 \<le> d"
     "hour_field s3 = Some (hh, s4)" "fixed 2 s5 = Some (mi, s6)" "\<exists>s5 s6. fixed 2 s5 = Some (ss, s6)"
    and t: "t = day_number y m d * day_ns + (hh * 3600 + mi * 60 + ss) * second + fst (frac_field fs)"
    using assms unfolding parse_nano_def
    by (auto split: bind_splits prod.splits if_splits dest!: zone_field_utc) (metis fst_conv not_less)+
  have "0 \<le> y" "0 \<le> hh" "0 \<le> mi" "0 \<le> ss" using f by (auto intro: fixed_nonneg hour_field_nonneg)
  with f(2) day_number_nonneg [of y d m] frac_field_nonneg [of fs] show ?thesis
    unfolding t day_ns_def second_def by simp
qed

lemma branch_clock_nonneg:
  assumes "scanBranch (branch_where bid d) = Inr b" "db_ok d"
  shows "0 \<le> b_clock b"
proof -
  obtain r t u where r: "branch_where bid d = Some r" "parse_nano (br_clock r) = Some (t, u)" "b_clock b = t"
    using assms(1) by (auto elim!: scanBranch_Inr)
  with assms(2) have "row_ok r" by (auto simp: db_ok_def branch_where_def dest: find_row_Some)
  with r canonical_clock_parse [of "br_clock r" t u] have "u" by (auto simp: row_ok_def)
  with r parse_nano_nonneg show ?thesis by simp
qed

lemma advance_target_pos:
  assumes "AdvanceClock b t h d = (Inr cr, d')" "db_ok d"
  shows "0 \<le> t"
  using assms(1) branch_clock_nonneg [OF _ assms(2)] by (elim AdvanceClock_Inr) fastforce

lemma keeps_maps_next:
  "engine_AdvanceClockToNext l rt b h d = (Inr sr, d') \<Longrightarrow> safe_step d d'"
  unfolding engine_AdvanceClockToNext_def AdvanceClockToNextWithActions_def
  by (auto split: if_split_asm intro!: safe_step.intros(11))

lemma safe_next: "AdvanceClockToNext b h d = (Inr sr, d') \<Longrightarrow> safe_step d d'"
  unfolding AdvanceClockToNext_def by (erule safe_step.intros(11)) simp

lemma handle_effect:
  assumes "t = ClockAdvance \<Longrightarrow> within_years r d" "db_ok d"
  shows "effect (safe_step d) d (handle c r t d)"
proof (cases t)
  case ClockAdvance
  have "effect (safe_step d) d (control_advanceClock r d)"
    unfolding control_advanceClock_def
  proof (rule effect_decoded)
    fix a assume body: "clock_body r = Some a"
    obtain b dur to h where a: "a = (b, dur, to, h)" by (cases a) auto
    show "effect (safe_step d) d (case a of (b, dur, to, h) \<Rightarrow> case clock_target b dur to d of Inl e \<Rightarrow> (e, d)
        | Inr target \<Rightarrow> commit 200 RClock (AdvanceClock b target h d))"
    proof (cases "clock_target b dur to d")
      case (Inr target)
      with assms(1) [OF ClockAdvance] body have "target < max_instant" by (simp add: within_years_def a)
      then show ?thesis
        using assms(2) by (auto simp: a Inr intro!: effect_commit safe_step.intros(10) intro: advance_target_pos)
    qed (simp add: a)
  qed
  with ClockAdvance show ?thesis by (simp add: handle_def)
qed (auto simp: handle_def createSnapshot_def control_fork_def control_reset_def control_advanceClockToNext_def
    control_scheduleEvent_def control_cancelEvent_def installFault_def removeFault_def
    intro!: effect_decoded effect_commit split: option.splits sum.splits prod.splits
    intro: safe_step.intros(3-9) safe_next keeps_maps_next)

lemma clock_route: "(read, ClockAdvance) \<in> set (routes path) \<Longrightarrow> path = [''v1'', ''clock'', ''advance'']"
  by (cases path rule: routes.cases) (simp_all split: if_split_asm)

lemma mux_effect:
  assumes "hr_path r = [''v1'', ''clock'', ''advance''] \<Longrightarrow> within_years r d" "db_ok d"
  shows "effect (safe_step d) d (mux c r d)"
proof (cases "find (\<lambda>(read, _). serves (hr_method r) read) (routes (hr_path r))")
  case (Some x)
  then have "x \<in> set (routes (hr_path r))" unfolding find_Some_iff by (metis nth_mem)
  then have "snd x = ClockAdvance \<Longrightarrow> within_years r d"
    using assms(1) clock_route by (metis prod.collapse)
  with handle_effect [of "snd x" r d c] assms(2) Some show ?thesis by (cases x) (simp add: mux_def)
qed (simp add: mux_def)

text \<open>A request that is not a \<open>POST\<close> never reaches a handler that writes.\<close>

lemma reading_routes: "(True, t) \<in> set (routes path) \<Longrightarrow> snd (handle c r t d) = d"
  by (cases path rule: routes.cases) (auto simp: handle_def split: if_split_asm)

lemma mux_reads:
  assumes "hr_method r \<noteq> ''POST''"
  shows "snd (mux c r d) = d"
proof (cases "find (\<lambda>(read, _). serves (hr_method r) read) (routes (hr_path r))")
  case (Some x)
  then have "x \<in> set (routes (hr_path r))" "serves (hr_method r) (fst x)"
    unfolding find_Some_iff by (auto dest: nth_mem)
  with assms have "(True, snd x) \<in> set (routes (hr_path r))" by (cases x) (auto simp: serves_def split: if_split_asm)
  with Some reading_routes show ?thesis by (cases x) (auto simp: mux_def)
qed (simp add: mux_def)

lemma handle_rolls_back: "effect (\<lambda>_. True) d (handle c r t d)"
  by (cases t) (auto simp: handle_def createSnapshot_def control_fork_def control_reset_def control_advanceClockToNext_def
    control_advanceClock_def control_scheduleEvent_def control_cancelEvent_def installFault_def removeFault_def
    intro!: effect_decoded effect_commit split: option.splits sum.splits prod.splits)

lemma mux_rolls_back: "effect (\<lambda>_. True) d (mux c r d)"
  using handle_rolls_back by (auto simp: mux_def split: option.splits prod.splits)

lemma ServeHTTP_cases:
  obtains (refused) e where "ServeHTTP c r d = (writeError e (if e = 503 then ''CONTROL_AUTH_REQUIRED'' else ''AUTH_DENIED''), d)" "e = 401 \<or> e = 503"
  | (admitted) "cp_token c \<noteq> []" "bearer (hr_authorization r) = Some (cp_token c)" "ServeHTTP c r d = mux c r d"
proof -
  consider "cp_token c = []" | "cp_token c \<noteq> []" "bearer (hr_authorization r) = Some (cp_token c)"
    | "cp_token c \<noteq> []" "bearer (hr_authorization r) \<noteq> Some (cp_token c)" by blast
  then show thesis
  proof cases
    case 1
    then show thesis by (intro refused [of 503]) (simp_all add: ServeHTTP_def)
  next
    case 2
    then show thesis by (intro admitted) (simp_all add: ServeHTTP_def)
  next
    case 3
    then show thesis by (intro refused [of 401]) (auto simp: ServeHTTP_def split: option.splits)
  qed
qed

section \<open>The data plane\<close>

lemma run_tool_safe: "safe_step\<^sup>=\<^sup>= d (snd (run_tool l rt branch tool input d))"
proof (cases "engine_Call l rt branch tool (Some input) d")
  case (Pair r d')
  show ?thesis
  proof (cases r)
    case (Inl e)
    then have "d' = d"
      using Pair by (auto simp: engine_Call_def ApplyCall_def transaction_Inl split: option.splits sum.splits)
    with Pair Inl show ?thesis by (simp add: run_tool_def)
  next
    case (Inr res)
    then obtain t where "ApplyCall branch (rt_digest rt) tool (record_json (Some input))
        (engine_callback l rt t (record_json (Some input))) d = (Inr res, d')"
      using Pair by (auto simp: engine_Call_def split: option.splits sum.splits)
    then have "safe_step d d'" by (rule safe_step.intros(2)) simp
    with Pair Inr show ?thesis by (simp add: run_tool_def)
  qed
qed

lemma call_tool_safe: "safe_step\<^sup>=\<^sup>= d (snd (call_tool fr l rt branch call d))"
  using run_tool_safe by (simp add: call_tool_def split: option.split)

lemma call_tools_safe: "safe_step\<^sup>*\<^sup>* d (snd (call_tools fr l rt branch calls d))"
proof (induction calls arbitrary: d)
  case (Cons call calls)
  obtain r d1 where r: "call_tool fr l rt branch call d = (r, d1)" by fastforce
  have "safe_step\<^sup>*\<^sup>* d d1" using call_tool_safe [of d fr l rt branch call] by (auto simp: r)
  moreover have "safe_step\<^sup>*\<^sup>* d1 (snd (call_tools fr l rt branch calls d1))" by (rule Cons.IH)
  ultimately have "safe_step\<^sup>*\<^sup>* d (snd (call_tools fr l rt branch calls d1))" by (rule rtranclp_trans)
  then show ?case by (cases "call_tools fr l rt branch calls d1") (simp add: r)
qed simp

lemma data_safe: "safe_step\<^sup>*\<^sup>* d (snd (data_ServeHTTP fr dispatch l rt path body d))"
  using call_tools_safe by (auto simp: data_ServeHTTP_def apfst_def split: option.splits)

section \<open>Both planes over one database\<close>

text \<open>
  The requests of both planes, one after the other. A request that moves the clock is allowed only
  up to the year 9999: beyond it the model shows that a branch can no longer be read.
\<close>

inductive server_step ::
  "control_plane \<Rightarrow> (string option \<Rightarrow> (string \<times> string) list) \<Rightarrow> libs \<Rightarrow> runtime \<Rightarrow> db \<Rightarrow> db \<Rightarrow> bool"
  for c dispatch l rt where
  control: "(hr_path r = [''v1'', ''clock'', ''advance''] \<Longrightarrow> within_years r d) \<Longrightarrow>
     server_step c dispatch l rt d (snd (ServeHTTP c r d))"
| tools: "server_step c dispatch l rt d (snd (data_ServeHTTP (cp_fraction c) dispatch l rt path body d))"

lemma server_step_safe: "server_step c dispatch l rt d d' \<Longrightarrow> db_ok d \<Longrightarrow> safe_step\<^sup>*\<^sup>* d d'"
proof (induction rule: server_step.induct)
  case (control r d)
  then have "effect (safe_step d) d (ServeHTTP c r d)"
    using mux_effect [of r d c] by (cases rule: ServeHTTP_cases [of c r d]) simp_all
  then show ?case by (auto simp: effect_def)
qed (rule data_safe)

interpretation server: run_invariant "server_step c dispatch l rt" db_ok for c dispatch l rt
  by unfold_locales (blast dest: server_step_safe intro: store.inv_run)

section \<open>The counters of the admission\<close>

definition holding :: "request_phase \<Rightarrow> bool" where
  "holding p \<longleftrightarrow> p \<in> {Admitted, Serving, Leaving}"

definition count :: "(request_phase \<Rightarrow> bool) \<Rightarrow> admission \<Rightarrow> nat" where
  "count P a = length (filter P (ad_requests a))"

definition admission_ok :: "admission \<Rightarrow> bool" where
  "admission_ok a \<longleftrightarrow> ad_permits a = count holding a \<and> ad_permits a \<le> ad_limit a \<and>
     ad_active a = int (count (\<lambda>p. p = Serving) a) \<and> ad_rejected a = count (\<lambda>p. p = Rejected) a mod 2 ^ 64"

lemma count_update:
  assumes "i < length xs"
  shows "length (filter P (xs[i := y])) + (if P (xs ! i) then 1 else 0) = length (filter P xs) + (if P y then 1 else 0)"
proof -
  have xs: "xs = take i xs @ xs ! i # drop (Suc i) xs" by (rule id_take_nth_drop [OF assms])
  have "xs[i := y] = take i xs @ y # drop (Suc i) xs" by (rule upd_conv_take_nth_drop [OF assms])
  then have "length (filter P (xs[i := y])) = length (filter P (take i xs)) + (if P y then 1 else 0) + length (filter P (drop (Suc i) xs))"
    by simp
  moreover have "length (filter P xs) = length (filter P (take i xs)) + (if P (xs ! i) then 1 else 0) + length (filter P (drop (Suc i) xs))"
    by (subst xs) simp
  ultimately show ?thesis by simp
qed

lemma count_set:
  assumes "i < length xs"
  shows "length (filter P (xs[i := y])) = length (filter P xs) + of_bool (P y) - of_bool (P (xs ! i))"
    and "P (xs ! i) \<Longrightarrow> 0 < length (filter P xs)"
  using count_update [OF assms, of P y] nth_mem [OF assms] by (auto simp: filter_empty_conv)

lemma admission_advance:
  assumes i: "i < length (ad_requests a)" and ok: "admission_ok a"
  shows "admission_ok (admission_ServeHTTP i a)"
proof -
  note set = count_set(1) [OF i] count_set(2) [OF i, of holding] count_set(2) [OF i, of "\<lambda>p. p = Serving"]
  show ?thesis
    using ok set(2,3) by (cases "ad_requests a ! i")
      (auto simp: admission_ServeHTTP_def admission_ok_def count_def set(1) holding_def mod_Suc_eq of_nat_diff Suc_le_eq
        simp flip: length_greater_0_conv)
qed

lemma admission_arrive: "admission_ok a \<Longrightarrow> admission_ok (a\<lparr>ad_requests := ad_requests a @ [Arrived]\<rparr>)"
  by (simp add: admission_ok_def count_def holding_def)

interpretation admission: run_invariant admission_step admission_ok
proof
  fix a b assume "admission_step a b" "admission_ok a"
  then show "admission_ok b"
    by (induction rule: admission_step.induct) (auto simp: admission_advance intro: admission_arrive)
qed

lemma ad_limit_step: "ad_limit (admission_ServeHTTP i a) = ad_limit a"
  by (simp add: admission_ServeHTTP_def split: request_phase.splits)

interpretation admission_limit: run_invariant admission_step "\<lambda>a. ad_limit a = n" for n
  by unfold_locales (auto elim!: admission_step.cases simp: ad_limit_step)

end
