(* ===== verification/Server_Props.thy ===== *)
theory Server_Props
  imports Server_Facts Store_Example
begin

text \<open>Properties of the server: both planes, the token of the control plane and the admission of requests.\<close>

section \<open>Requests and the database\<close>

definition ex_plane :: control_plane where
  "ex_plane = newControlPlane ''s3cret'' None [''draw''] True (\<lambda>_. None) (\<lambda>_. None)"

definition ex_post :: "string \<Rightarrow> http_request" where
  "ex_post header = \<lparr>hr_method = ''POST'', hr_path = [''v1'', ''snapshots''], hr_authorization = header,
     hr_query = (\<lambda>_. []), hr_body = ''{''\<rparr>"



text \<open>C29 A request changes the database only when it is a \<open>POST\<close> that is answered with 200 or 201:
  every refusal, every error of the store and every aborted handler leaves it as it was.
\<close>
theorem refused_request_changes_nothing:
  assumes "hr_method r \<noteq> ''POST'' \<or> response_status (fst (ServeHTTP c r d)) \<notin> {Some 200, Some 201}"
  shows "snd (ServeHTTP c r d) = d"
proof (cases rule: ServeHTTP_cases [of c r d])
  case admitted
  with assms mux_reads [of r c d] mux_rolls_back [of d c r] show ?thesis by (auto simp: effect_def)
qed simp

theorem refused_request_changes_nothing_witness:
  "snd (ServeHTTP ex_plane ((ex_post ''Bearer s3cret'')\<lparr>hr_method := ''PUT''\<rparr>) db0) = db0"
  by (rule refused_request_changes_nothing) simp

section \<open>The token\<close>

lemma cut_space_eq: "cut_space s = Some (a, b) \<longleftrightarrow> s = a @ CHR '' '' # b \<and> CHR '' '' \<notin> set a"
proof
  assume cut: "cut_space s = Some (a, b)"
  then have a: "a = takeWhile (\<lambda>c. c \<noteq> CHR '' '') s" and b: "b = drop 1 (dropWhile (\<lambda>c. c \<noteq> CHR '' '') s)" and m: "CHR '' '' \<in> set s"
    by (auto simp: cut_space_def split: if_split_asm)
  have "dropWhile (\<lambda>c. c \<noteq> CHR '' '') s \<noteq> []" using m by (auto simp: dropWhile_eq_Nil_conv)
  then obtain y ys where "dropWhile (\<lambda>c. c \<noteq> CHR '' '') s = y # ys" "y = CHR '' ''"
    by (cases "dropWhile (\<lambda>c. c \<noteq> CHR '' '') s") (auto simp: dropWhile_eq_Cons_conv)
  with a b show "s = a @ CHR '' '' # b \<and> CHR '' '' \<notin> set a"
    using takeWhile_dropWhile_id [of "\<lambda>c. c \<noteq> CHR '' ''" s] by (auto dest: set_takeWhileD)
next
  assume "s = a @ CHR '' '' # b \<and> CHR '' '' \<notin> set a"
  then show "cut_space s = Some (a, b)"
    by (auto simp: cut_space_def takeWhile_append dropWhile_append split: if_splits)
qed

lemma bearer_iff:
  "bearer header = Some token \<longleftrightarrow> TrimSpace token = token \<and> \<not> list_ex white token \<and>
     (\<exists>scheme. EqualFold scheme ''Bearer'' \<and> CHR '' '' \<notin> set scheme \<and> header = scheme @ CHR '' '' # token)"
proof (cases "cut_space header")
  case None
  then have "header \<noteq> scheme @ CHR '' '' # token" for scheme by (auto simp: cut_space_def split: if_split_asm)
  with None show ?thesis by (simp add: bearer_def)
next
  case (Some x)
  obtain a b where x: "x = (a, b)" by (cases x)
  have "header = scheme @ CHR '' '' # rest \<and> CHR '' '' \<notin> set scheme \<longleftrightarrow> scheme = a \<and> rest = b" for scheme rest
    using Some x by (auto simp flip: cut_space_eq)
  then have "(\<exists>scheme. EqualFold scheme ''Bearer'' \<and> CHR '' '' \<notin> set scheme \<and> header = scheme @ CHR '' '' # token) \<longleftrightarrow>
      EqualFold a ''Bearer'' \<and> token = b"
    by blast
  with Some x show ?thesis by (auto simp: bearer_def)
qed

text \<open>C30 The control plane serves a request exactly when its header \<open>Authorization\<close> is the word Bearer, in
  any case, one space and the token, and the token is a word. Every other request is refused with
  401, or with 503 when the plane has no token, without looking at the database.
\<close>
theorem control_plane_serves_its_token:
  "ServeHTTP c r d =
     (if cp_token c = [] then (Response 503 (RError ''CONTROL_AUTH_REQUIRED''), d)
      else if TrimSpace (cp_token c) = cp_token c \<and> \<not> list_ex white (cp_token c) \<and>
        (\<exists>scheme. EqualFold scheme ''Bearer'' \<and> CHR '' '' \<notin> set scheme \<and> hr_authorization r = scheme @ CHR '' '' # cp_token c)
      then mux c r d
      else (Response 401 (RError ''AUTH_DENIED''), d))"
proof -
  have "bearer (hr_authorization r) = Some (cp_token c) \<longleftrightarrow>
      TrimSpace (cp_token c) = cp_token c \<and> \<not> list_ex white (cp_token c) \<and>
      (\<exists>scheme. EqualFold scheme ''Bearer'' \<and> CHR '' '' \<notin> set scheme \<and> hr_authorization r = scheme @ CHR '' '' # cp_token c)"
    by (rule bearer_iff)
  moreover have "ServeHTTP c r d =
     (if cp_token c = [] then (Response 503 (RError ''CONTROL_AUTH_REQUIRED''), d)
      else if bearer (hr_authorization r) = Some (cp_token c) then mux c r d
      else (Response 401 (RError ''AUTH_DENIED''), d))"
    by (simp add: ServeHTTP_def writeError_def split: option.split)
  ultimately show ?thesis by simp
qed

section \<open>The end of the calendar\<close>

lemma dec_long: "10 ^ n \<le> x \<Longrightarrow> n < length (dec x)"
proof (induction n arbitrary: x)
  case 0
  then show ?case using dec_nonempty [of x] by simp
next
  case (Suc n)
  then have "10 ^ n \<le> x div 10" "\<not> x < 10" by (simp_all add: zdiv_mono1 [of "10 ^ Suc n" x 10, simplified]) (smt (verit) one_le_power power_Suc)
  with Suc.IH [of "x div 10"] show ?case by (subst dec.simps) simp
qed

lemma late_year: "max_instant \<le> t \<Longrightarrow> 10000 \<le> year_of (t div day_ns)"
proof -
  assume "max_instant \<le> t"
  then have "year_start 10000 \<le> t div day_ns" using zdiv_mono1 [of max_instant t day_ns] by (simp add: max_instant_def day_ns_def second_def)
  moreover have "t div day_ns < year_start (year_of (t div day_ns) + 1)" using year_of_bounds by blast
  ultimately have "year_start 10000 < year_start (year_of (t div day_ns) + 1)" by linarith
  then have "10000 < year_of (t div day_ns) + 1"
    by (metis less_le_not_le linorder_le_less_linear order.order_iff_strict year_start_strict_mono)
  then show ?thesis by simp
qed

lemma late_clock_unreadable:
  assumes "max_instant \<le> t"
  shows "parse_nano (format_nano t) = None"
proof -
  let ?y = "year_of (t div day_ns)"
  have y: "10000 \<le> ?y" by (rule late_year [OF assms])
  obtain rest where shape: "format_nano t = dec ?y @ rest"
    using y by (cases "month_day (month_lens (leap ?y)) 1 (t div day_ns - year_start ?y)")
      (simp add: format_nano_def date_of_def year_text_def Let_def that)
  have long: "4 < length (dec ?y)" using dec_long [of 4 ?y] y by simp
  then obtain c r where c: "drop 4 (dec ?y) = c # r" by (metis Cons_nth_drop_Suc)
  then have "c \<in> set (dec ?y)" by (metis in_set_dropD list.set_intros(1))
  with y digits_dec have "is_digit c" by force
  then have "c \<noteq> CHR ''-''" by auto
  then have "fixed 4 (format_nano t) = None \<or> (\<exists>x. fixed 4 (format_nano t) = Some (x, c # r @ rest))"
    using long by (auto simp: fixed_def shape c)
  with \<open>c \<noteq> CHR ''-''\<close> show ?thesis by (auto simp: parse_nano_def)
qed

text \<open>C31 The clock of a branch may be moved past the year 9999. The text of such a clock has a year of
  five digits, which no longer parses: from then on the branch cannot be read, so no call, no
  advance, no diff and no snapshot of it succeeds.
\<close>
theorem clock_past_9999_bricks_branch:
  assumes "AdvanceClock b t h d = (Inr cr, d')" "max_instant \<le> t" "db_ok d"
  shows "Branch b d' = Inl ErrClock"
proof -
  obtain br due s d1 where run: "scanBranch (branch_where b d) = Inr br"
    "casBranch b (b_head br) (\<lambda>r. r\<lparr>br_clock := format_nano t, br_state := s, br_digest := state_digest s\<rparr>) d = (1, d1)"
    "d' = appendControlAudit ''clock.advance'' b [] (b_digest br) (state_digest s) d1"
    using assms(1) by (elim AdvanceClock_Inr) blast
  obtain r where "branch_where b d1 = Some (r\<lparr>br_clock := format_nano t, br_state := s, br_digest := state_digest s, br_head := br_head r + 1\<rparr>)"
    by (rule casBranch_row [OF run(2,1) refl]) (use assms(3) in \<open>simp_all add: db_ok_def\<close>)
  with late_clock_unreadable [OF assms(2)] show ?thesis by (simp add: Branch_def scanBranch_def run(3))
qed

definition db_late :: db where
  "db_late = empty_db\<lparr>branches := [(ex_row 1 0 0)\<lparr>br_clock := format_nano (max_instant - 1)\<rparr>]\<rparr>"

lemma max_instant_pos: "0 \<le> max_instant - 1"
  by (simp add: max_instant_def year_start_def day_ns_def second_def)

lemma db_ok_late: "db_ok db_late"
proof -
  have "InitializeBranch ''main'' ex_spec (ex_state 1) (max_instant - 1) empty_db = (Inr (), db_late)"
    by (simp add: InitializeBranch_def transaction_def empty_db_def row_exists_def db_late_def ex_row_def)
  then have "safe_step empty_db db_late" by (rule safe_step.intros(1)) (use max_instant_pos in simp_all)
  then show ?thesis using store.inv_step by simp
qed

lemma scan_late:
  "branches db_late = [(ex_row 1 0 0)\<lparr>br_clock := format_nano (max_instant - 1)\<rparr>]"
  "scanBranch (branch_where ''main'' db_late) = Inr ((ex_branch 1 0 0)\<lparr>b_clock := max_instant - 1\<rparr>)"
  using parse_format [OF max_instant_pos]
  by (simp_all add: db_late_def scanBranch_def branch_where_def ex_row_def ex_branch_def Let_def)

theorem clock_past_9999_bricks_branch_witness:
  "Branch ''main'' (snd (AdvanceClock ''main'' max_instant None db_late)) = Inl ErrClock"
proof -
  have "\<exists>cr d'. AdvanceClock ''main'' max_instant None db_late = (Inr cr, d')"
    unfolding AdvanceClock_def transaction_Inr
    by (simp add: scan_late expectHead_def Let_def scheduledEvents_def vals_def MaxClockAdvance_def hour_ns_def second_def
        casBranch_def affected_def)
  then obtain cr d' where run: "AdvanceClock ''main'' max_instant None db_late = (Inr cr, d')" by blast
  from clock_past_9999_bricks_branch [OF run order_refl db_ok_late] run show ?thesis by simp
qed


section \<open>Admission\<close>

text \<open>C32 However the steps of the requests interleave, at most \<open>limit\<close> of them hold a permit, the
  statistics count the handlers that run and the requests that were rejected, and a request is
  rejected exactly when all permits are taken.
\<close>
theorem admission_counts_and_bounds:
  assumes "NewAdmissionHandler True limit = Inr a0" and "admission_step\<^sup>*\<^sup>* a0 a"
  shows "int (length (filter holding (ad_requests a))) \<le> limit \<and>
    Stats a = (nat limit, int (length (filter (\<lambda>p. p = Serving) (ad_requests a))), length (filter (\<lambda>p. p = Rejected) (ad_requests a)) mod 2 ^ 64) \<and>
    (\<forall>i < length (ad_requests a). ad_requests a ! i = Arrived \<longrightarrow>
       (ad_requests (admission_ServeHTTP i a) ! i = Rejected \<longleftrightarrow> int (length (filter holding (ad_requests a))) = limit))"
proof -
  have a0: "a0 = \<lparr>ad_limit = nat limit, ad_permits = 0, ad_active = 0, ad_rejected = 0, ad_requests = []\<rparr>" "1 \<le> limit"
    using assms(1) by (auto simp: NewAdmissionHandler_def split: if_split_asm)
  have ok: "admission_ok a" by (rule admission.inv_run [OF assms(2)]) (simp add: a0 admission_ok_def count_def)
  have "ad_limit a = nat limit" by (rule admission_limit.inv_run [OF assms(2)]) (simp add: a0)
  with ok a0(2) show ?thesis
    by (auto simp: admission_ok_def count_def Stats_def admission_ServeHTTP_def)
qed

definition busy :: admission where
  "busy = \<lparr>ad_limit = 1, ad_permits = 1, ad_active = 0, ad_rejected = 0, ad_requests = [Admitted]\<rparr>"

theorem admission_counts_and_bounds_witness:
  "length (filter holding (ad_requests busy)) \<le> 1 \<and> Stats busy = (1, 0, 0)"
proof -
  let ?a0 = "\<lparr>ad_limit = 1, ad_permits = 0, ad_active = 0, ad_rejected = 0, ad_requests = []\<rparr>"
  let ?a1 = "?a0\<lparr>ad_requests := [Arrived]\<rparr>"
  have new: "NewAdmissionHandler True 1 = Inr ?a0" by (simp add: NewAdmissionHandler_def)
  have "admission_step ?a0 ?a1" using admission_step.arrive [of ?a0] by simp
  moreover have "admission_step ?a1 busy"
    using admission_step.advance [of 0 ?a1] by (simp add: admission_ServeHTTP_def busy_def)
  ultimately have run: "admission_step\<^sup>*\<^sup>* ?a0 busy" by (meson r_into_rtranclp rtranclp_trans)
  from admission_counts_and_bounds [OF new run] show ?thesis by (simp add: busy_def)
qed

end
