(* ===== verification/Coordinator.thy ===== *)
theory Coordinator
  imports Remote Control_Plane
begin

text \<open>
  \<open>internal/episode/coordinator.go\<close>: the HTTP coordinator over the journal of episodes. Requests are
  those of the control plane with the header \<open>Content-Type\<close>; what the server takes from outside, the
  clock, the attempt identifiers and the readers of bundles and evidence, is given with a request.
\<close>

section \<open>Requests and responses\<close>

record coordinator_request = http_request +
  hr_contentType :: string

record coordinator_env =
  cn_now1 :: instant
  cn_now2 :: instant
  cn_attempt :: string
  cn_open :: "string \<Rightarrow> artifact option"
  cn_evidence :: "jdoc list \<Rightarrow> envelope option option"
  cn_limit :: "string \<Rightarrow> bool"

datatype coordinator_reply =
    CError string
  | CTask task_record
  | CClaim claim
  | CHeartbeat heartbeat_result
  | CEvidence "envelope option" bool
  | CRecovered nat

datatype coordinator_response = CUnrouted int | CResponse int coordinator_reply

fun coordinator_status :: "coordinator_response \<Rightarrow> int" where
  "coordinator_status (CUnrouted n) = n"
| "coordinator_status (CResponse n _) = n"

definition coordinatorError :: "int \<Rightarrow> string \<Rightarrow> coordinator_response" where
  "coordinatorError status code = CResponse status (CError code)"

definition NewCoordinator :: "bool \<Rightarrow> string \<Rightarrow> string + string" where
  "NewCoordinator journal token =
     (if \<not> journal then Inl ''Episode Journal is required''
      else if token = [] \<or> list_ex white token then Inl ''coordinator bearer token is required and must not contain whitespace''
      else Inr token)"

text \<open>
  The errors of the journal by their sentinels. Only the limits of the journal name
  \<open>RESOURCE_LIMIT\<close> in their own text; whether the text of another error does is a parameter.
\<close>

definition writeCoordinatorError :: "coordinator_env \<Rightarrow> ep_error \<Rightarrow> coordinator_response" where
  "writeCoordinatorError n e =
     (case e of
        ErrEpisodeNotFound \<Rightarrow> coordinatorError 404 ''NOT_FOUND''
      | ErrNoClaimableEpisode \<Rightarrow> coordinatorError 404 ''NO_TASK''
      | ErrStaleAttempt \<Rightarrow> coordinatorError 409 ''STALE_ATTEMPT''
      | ErrCancelRequested \<Rightarrow> coordinatorError 409 ''CANCEL_REQUESTED''
      | ErrEpisodeConflict \<Rightarrow> coordinatorError 409 ''EPISODE_CONFLICT''
      | ErrEpisodeLimit \<Rightarrow> coordinatorError 413 ''RESOURCE_LIMIT''
      | ErrInvalid message \<Rightarrow>
          if cn_limit n message then coordinatorError 413 ''RESOURCE_LIMIT'' else coordinatorError 400 ''COORDINATOR_ERROR''
      | _ \<Rightarrow> coordinatorError 400 ''COORDINATOR_ERROR'')"

definition conclude_request :: "coordinator_env \<Rightarrow> ('a \<Rightarrow> coordinator_response) \<Rightarrow> (ep_error + 'a) \<times> jdb \<Rightarrow> coordinator_response \<times> jdb" where
  "conclude_request n f = map_prod (\<lambda>r. case r of Inl e \<Rightarrow> writeCoordinatorError n e | Inr x \<Rightarrow> f x) id"

text \<open>\<open>decodeCoordinatorJSON\<close>; the answer that refuses the body, or its members.\<close>

definition maxCoordinatorBody :: int where
  "maxCoordinatorBody = int MaxBundleCompressed * 2 + int MaxReportBytes"

definition decodeCoordinatorJSON :: "string list \<Rightarrow> 'a coordinator_request_scheme \<Rightarrow> coordinator_response + (string \<times> jdoc) list" where
  "decodeCoordinatorJSON names r =
     (if hr_contentType r \<noteq> ''application/json'' then Inl (coordinatorError 415 ''INVALID_INPUT'')
      else if int (length (hr_body r)) > maxCoordinatorBody then Inl (coordinatorError 400 ''INVALID_INPUT'')
      else case parse_json (hr_body r) of
        Some (DObj ms) \<Rightarrow> if known_members names ms then Inr ms else Inl (coordinatorError 400 ''INVALID_INPUT'')
      | Some DNull \<Rightarrow> Inr []
      | _ \<Rightarrow> Inl (coordinatorError 400 ''INVALID_INPUT''))"


text \<open>
  A field of type \<open>[]byte\<close>: the standard encoding in base 64, line breaks ignored, or an array of
  numbers below 256.
\<close>

definition b64_value :: "char \<Rightarrow> int option" where
  "b64_value c =
     (let n = of_char c :: int
      in if 65 \<le> n \<and> n \<le> 90 then Some (n - 65)
         else if 97 \<le> n \<and> n \<le> 122 then Some (n - 71)
         else if 48 \<le> n \<and> n \<le> 57 then Some (n + 4)
         else if n = 43 then Some 62
         else if n = 47 then Some 63
         else None)"

fun b64_decode :: "string \<Rightarrow> string option" where
  "b64_decode [] = Some []"
| "b64_decode (a # b # c # d # rest) = do {
     x \<leftarrow> b64_value a; y \<leftarrow> b64_value b;
     let first = char_of (x * 4 + y div 16);
     if c = CHR ''='' then (if d = CHR ''='' \<and> rest = [] then Some [first] else None)
     else do {
       z \<leftarrow> b64_value c;
       let next = char_of (y mod 16 * 16 + z div 4);
       if d = CHR ''='' then (if rest = [] then Some [first, next] else None)
       else do { w \<leftarrow> b64_value d; more \<leftarrow> b64_decode rest; Some (first # next # char_of (z mod 4 * 64 + w) # more) } } }"
| "b64_decode _ = None"

fun byte_elements :: "jdoc list \<Rightarrow> string option" where
  "byte_elements [] = Some []"
| "byte_elements (x # xs) =
     (case x of
        DNull \<Rightarrow> map_option ((#) (char_of (0 :: nat))) (byte_elements xs)
      | DNum s \<Rightarrow> (case number_int s of
          None \<Rightarrow> None
        | Some n \<Rightarrow> if 0 \<le> n \<and> n < 256 then map_option ((#) (char_of n)) (byte_elements xs) else None)
      | _ \<Rightarrow> None)"

fun bytes_values :: "string \<Rightarrow> jdoc list \<Rightarrow> string option" where
  "bytes_values s [] = Some s"
| "bytes_values s (d # ds) =
     (case d of
        DNull \<Rightarrow> bytes_values [] ds
      | DStr t \<Rightarrow> Option.bind (b64_decode (filter (\<lambda>c. c \<noteq> CHR 10 \<and> c \<noteq> CHR 13) t)) (\<lambda>b. bytes_values b ds)
      | DArr xs \<Rightarrow> Option.bind (byte_elements xs) (\<lambda>b. bytes_values b ds)
      | _ \<Rightarrow> None)"

definition bytes_field :: "string \<Rightarrow> (string \<times> jdoc) list \<Rightarrow> string option" where
  "bytes_field f ms = bytes_values [] (field_values f ms)"

text \<open>The decoded members of a body, and then the handler.\<close>

definition with_body ::
  "string list \<Rightarrow> 'a coordinator_request_scheme \<Rightarrow> ((string \<times> jdoc) list \<Rightarrow> 'b option) \<Rightarrow> jdb \<Rightarrow>
     ('b \<Rightarrow> coordinator_response \<times> jdb) \<Rightarrow> coordinator_response \<times> jdb" where
  "with_body names r decode d k =
     (case decodeCoordinatorJSON names r of
        Inl e \<Rightarrow> (e, d)
      | Inr ms \<Rightarrow> (case decode ms of None \<Rightarrow> (coordinatorError 400 ''INVALID_INPUT'', d) | Some x \<Rightarrow> k x))"

section \<open>Handlers\<close>

definition profile_named :: "string \<Rightarrow> effect_profile option" where
  "profile_named s = (if s = ''hermetic'' then Some EffectHermetic else if s = ''external'' then Some EffectExternal else None)"

definition coordinator_submit :: "coordinator_env \<Rightarrow> coordinator_request \<Rightarrow> jdb \<Rightarrow> coordinator_response \<times> jdb" where
  "coordinator_submit n r d =
     with_body [''bundle'', ''episodeId'', ''scenarioPath'', ''runtimeVersion'', ''runtimeRevision'', ''effectProfile'', ''maxAttempts''] r
       (\<lambda>ms. do {
          b \<leftarrow> bytes_field ''bundle'' ms; e \<leftarrow> text_field ''episodeId'' ms; s \<leftarrow> text_field ''scenarioPath'' ms;
          v \<leftarrow> text_field ''runtimeVersion'' ms; x \<leftarrow> text_field ''runtimeRevision'' ms; p \<leftarrow> text_field ''effectProfile'' ms;
          m \<leftarrow> int_field ''maxAttempts'' ms; Some (b, e, s, v, x, p, m) }) d
       (\<lambda>(b, e, s, v, x, p, m). conclude_request n (\<lambda>(task, created). CResponse (if created then 201 else 200) (CTask task))
          (case profile_named p of
             None \<Rightarrow> (Inl (ErrInvalid ''effect profile must be hermetic or external''), d)
           | Some profile \<Rightarrow> Submit (cn_open n) (cn_now1 n) (cn_now2 n) b e s v x profile m d))"

definition coordinator_inspect :: "coordinator_env \<Rightarrow> string \<Rightarrow> jdb \<Rightarrow> coordinator_response \<times> jdb" where
  "coordinator_inspect n eid d = conclude_request n (\<lambda>task. CResponse 200 (CTask task)) (GetTask eid d, d)"

text \<open>\<open>time.Duration(seconds) * time.Second\<close> wraps around at 64 bits.\<close>

definition lease_of :: "int \<Rightarrow> int" where
  "lease_of seconds = wrap64 (seconds * second)"

definition coordinator_claim :: "coordinator_env \<Rightarrow> coordinator_request \<Rightarrow> jdb \<Rightarrow> coordinator_response \<times> jdb" where
  "coordinator_claim n r d =
     with_body [''workerId'', ''leaseSeconds'', ''effectProfile''] r
       (\<lambda>ms. do { w \<leftarrow> text_field ''workerId'' ms; l \<leftarrow> int_field ''leaseSeconds'' ms; p \<leftarrow> text_field ''effectProfile'' ms; Some (w, l, p) }) d
       (\<lambda>(w, l, p). conclude_request n (\<lambda>c. CResponse 200 (CClaim c))
          (if p \<noteq> [] \<and> profile_named p = None
           then (Inl (ErrInvalid ''claim effect profile must be hermetic, external, or empty''), d)
           else ClaimProfile (cn_now1 n) (cn_attempt n) w (lease_of l) (profile_named p) d))"

definition coordinator_heartbeat :: "coordinator_env \<Rightarrow> coordinator_request \<Rightarrow> string \<Rightarrow> jdb \<Rightarrow> coordinator_response \<times> jdb" where
  "coordinator_heartbeat n r eid d =
     with_body [''attemptId'', ''fencingToken'', ''leaseSeconds''] r
       (\<lambda>ms. do { a \<leftarrow> text_field ''attemptId'' ms; f \<leftarrow> int_field ''fencingToken'' ms; l \<leftarrow> int_field ''leaseSeconds'' ms; Some (a, f, l) }) d
       (\<lambda>(a, f, l). conclude_request n (\<lambda>h. CResponse 200 (CHeartbeat h)) (Heartbeat (cn_now1 n) eid a f (lease_of l) d))"

definition coordinator_complete :: "coordinator_env \<Rightarrow> coordinator_request \<Rightarrow> string \<Rightarrow> jdb \<Rightarrow> coordinator_response \<times> jdb" where
  "coordinator_complete n r eid d =
     with_body [''attemptId'', ''fencingToken'', ''evidence''] r
       (\<lambda>ms. do { a \<leftarrow> text_field ''attemptId'' ms; f \<leftarrow> int_field ''fencingToken'' ms; v \<leftarrow> cn_evidence n (field_values ''evidence'' ms); Some (a, f, v) }) d
       (\<lambda>(a, f, v). conclude_request n (\<lambda>(evidence, reused). CResponse 200 (CEvidence evidence reused))
          (CompleteClaim (cn_now1 n) (cn_now2 n) eid a f v d))"

definition commit_named :: "string \<Rightarrow> commit_state option" where
  "commit_named s = (if s = ''NO_EFFECT'' then Some CommitNoEffect else if s = ''UNKNOWN'' then Some CommitUnknown else None)"

definition coordinator_fail :: "coordinator_env \<Rightarrow> coordinator_request \<Rightarrow> string \<Rightarrow> jdb \<Rightarrow> coordinator_response \<times> jdb" where
  "coordinator_fail n r eid d =
     with_body [''attemptId'', ''fencingToken'', ''commitState'', ''errorClass''] r
       (\<lambda>ms. do { a \<leftarrow> text_field ''attemptId'' ms; f \<leftarrow> int_field ''fencingToken'' ms; s \<leftarrow> text_field ''commitState'' ms;
                   e \<leftarrow> text_field ''errorClass'' ms; Some (a, f, s, e) }) d
       (\<lambda>(a, f, s, e). conclude_request n (\<lambda>task. CResponse 200 (CTask task))
          (case commit_named s of
             None \<Rightarrow> (Inl (ErrInvalid ''failed attempts must report NO_EFFECT or UNKNOWN''), d)
           | Some state \<Rightarrow> FailClaim (cn_now1 n) eid a f state e d))"

definition coordinator_cancel :: "coordinator_env \<Rightarrow> coordinator_request \<Rightarrow> string \<Rightarrow> jdb \<Rightarrow> coordinator_response \<times> jdb" where
  "coordinator_cancel n r eid d =
     with_body [] r Some d (\<lambda>_. conclude_request n (\<lambda>task. CResponse 200 (CTask task)) (CancelTask (cn_now1 n) eid d))"

definition coordinator_recover :: "coordinator_env \<Rightarrow> coordinator_request \<Rightarrow> jdb \<Rightarrow> coordinator_response \<times> jdb" where
  "coordinator_recover n r d =
     with_body [] r Some d (\<lambda>_. conclude_request n (\<lambda>count. CResponse 200 (CRecovered count)) (RecoverExpired (cn_now1 n) d))"

section \<open>Routes\<close>

datatype coordinator_route =
    SubmitTask | InspectTask string | ClaimTask | HeartbeatTask string | CompleteTask string | FailTask string | CancelTaskRoute string | RecoverTasks

fun coordinator_routes :: "string list \<Rightarrow> (bool \<times> coordinator_route) option" where
  "coordinator_routes [v, a] =
     (if v \<noteq> ''v1'' then None
      else if a = ''episodes'' then Some (False, SubmitTask)
      else if a = ''claims'' then Some (False, ClaimTask)
      else if a = ''recover'' then Some (False, RecoverTasks)
      else None)"
| "coordinator_routes [v, a, i] = (if v = ''v1'' \<and> a = ''episodes'' \<and> i \<noteq> [] then Some (True, InspectTask i) else None)"
| "coordinator_routes [v, a, i, b] =
     (if v \<noteq> ''v1'' \<or> a \<noteq> ''episodes'' \<or> i = [] then None
      else if b = ''heartbeat'' then Some (False, HeartbeatTask i)
      else if b = ''complete'' then Some (False, CompleteTask i)
      else if b = ''fail'' then Some (False, FailTask i)
      else if b = ''cancel'' then Some (False, CancelTaskRoute i)
      else None)"
| "coordinator_routes _ = None"

definition coordinator_handle :: "coordinator_env \<Rightarrow> coordinator_request \<Rightarrow> coordinator_route \<Rightarrow> jdb \<Rightarrow> coordinator_response \<times> jdb" where
  "coordinator_handle n r t d =
     (case t of
        SubmitTask \<Rightarrow> coordinator_submit n r d
      | InspectTask i \<Rightarrow> coordinator_inspect n i d
      | ClaimTask \<Rightarrow> coordinator_claim n r d
      | HeartbeatTask i \<Rightarrow> coordinator_heartbeat n r i d
      | CompleteTask i \<Rightarrow> coordinator_complete n r i d
      | FailTask i \<Rightarrow> coordinator_fail n r i d
      | CancelTaskRoute i \<Rightarrow> coordinator_cancel n r i d
      | RecoverTasks \<Rightarrow> coordinator_recover n r d)"

definition coordinator_mux :: "coordinator_env \<Rightarrow> coordinator_request \<Rightarrow> jdb \<Rightarrow> coordinator_response \<times> jdb" where
  "coordinator_mux n r d =
     (case coordinator_routes (hr_path r) of
        None \<Rightarrow> (CUnrouted 404, d)
      | Some (read, t) \<Rightarrow> if serves (hr_method r) read then coordinator_handle n r t d else (CUnrouted 405, d))"

definition coordinator_ServeHTTP :: "string \<Rightarrow> coordinator_env \<Rightarrow> coordinator_request \<Rightarrow> jdb \<Rightarrow> coordinator_response \<times> jdb" where
  "coordinator_ServeHTTP token n r d =
     (case cut_space (hr_authorization r) of
        None \<Rightarrow> (coordinatorError 401 ''AUTH_DENIED'', d)
      | Some (scheme, provided) \<Rightarrow>
          if \<not> EqualFold scheme ''Bearer'' \<or> TrimSpace provided \<noteq> provided \<or> provided \<noteq> token
          then (coordinatorError 401 ''AUTH_DENIED'', d)
          else coordinator_mux n r d)"

end
