(* ===== verification/Coordinator_Props.thy ===== *)
theory Coordinator_Props
  imports Coordinator Episode_Example
begin

text \<open>
  Properties of the coordinator: every request is at most one operation of the journal, so what is
  proved of the operations holds of a served journal; and what a refused request leaves behind.
\<close>

section \<open>A request and the journal\<close>


definition outcome :: "(jdb \<Rightarrow> jdb \<Rightarrow> bool) \<Rightarrow> jdb \<Rightarrow> coordinator_response \<times> jdb \<Rightarrow> bool" where
  "outcome R d out \<longleftrightarrow> snd out = d \<or> R d (snd out)"

lemma outcome_same [simp]: "outcome R d (x, d)"
  by (simp add: outcome_def)













definition ex_env :: coordinator_env where
  "ex_env = \<lparr>cn_now1 = 0, cn_now2 = 0, cn_attempt = ''a1'', cn_open = (\<lambda>_. None), cn_evidence = (\<lambda>_. Some None), cn_limit = (\<lambda>_. False)\<rparr>"

definition ex_claim_request :: coordinator_request where
  "ex_claim_request = \<lparr>hr_method = ''POST'', hr_path = [''v1'', ''claims''], hr_authorization = ''Bearer t0'', hr_query = (\<lambda>_. []),
     hr_body = ''{}'', hr_contentType = ''application/json''\<rparr>"


section \<open>Refusals\<close>

definition keeps :: "jdb \<Rightarrow> coordinator_response \<times> jdb \<Rightarrow> bool" where
  "keeps d out \<longleftrightarrow> snd out = d \<or> coordinator_status (fst out) = 200"

lemma keeps_same [simp]: "keeps d (x, d)"
  by (simp add: keeps_def)

lemma keeps_body: "(\<And>x. keeps d (k x)) \<Longrightarrow> keeps d (with_body names r decode d k)"
  by (simp add: with_body_def split: sum.split option.split)

lemma keeps_conclude:
  assumes "\<And>e d'. out = (Inl e, d') \<Longrightarrow> d' = d" "\<And>x. coordinator_status (f x) = 200"
  shows "keeps d (conclude_request n f out)"
  using assms by (cases out; cases "fst out") (auto simp: keeps_def conclude_request_def)

lemma transaction_keeps: "transaction body d = (Inl e, d') \<Longrightarrow> d' = d"
  by (simp add: transaction_Inl)

text \<open>
  Submitting a task reserves the episode first, and failing or cancelling one reads it back after
  the commit: these may be answered with an error after they have written.
\<close>

fun commits_first :: "coordinator_route \<Rightarrow> bool" where
  "commits_first SubmitTask = True"
| "commits_first (FailTask _) = True"
| "commits_first (CancelTaskRoute _) = True"
| "commits_first _ = False"

lemma handle_keeps: "\<not> commits_first t \<Longrightarrow> keeps d (coordinator_handle n r t d)"
  by (cases t) (auto simp: coordinator_handle_def coordinator_inspect_def coordinator_claim_def coordinator_heartbeat_def
      coordinator_complete_def coordinator_recover_def ClaimProfile_def Heartbeat_def CompleteClaim_def RecoverExpired_def
      intro!: keeps_body keeps_conclude split: prod.split option.split if_split_asm dest: transaction_keeps)

text \<open>C34 A refused request for a claim, a heartbeat, a completion or a recovery, and every request that
  only reads, leaves the journal as it was. In particular a claim that finds no task also gives up
  the recovery of expired leases that it began with.
\<close>
theorem coordinator_refusal_keeps_journal:
  assumes "case coordinator_routes (hr_path r) of None \<Rightarrow> True | Some (_, t) \<Rightarrow> \<not> commits_first t"
    and "coordinator_status (fst (coordinator_ServeHTTP token n r d)) \<noteq> 200"
  shows "snd (coordinator_ServeHTTP token n r d) = d"
proof -
  have "keeps d (coordinator_mux n r d)"
    using assms(1) handle_keeps by (auto simp: coordinator_mux_def split: option.splits prod.splits)
  then show ?thesis
    using assms(2) by (auto simp: coordinator_ServeHTTP_def keeps_def split: option.splits if_split_asm)
qed

theorem coordinator_refusal_keeps_journal_witness:
  "snd (coordinator_ServeHTTP ''t1'' ex_env ex_claim_request ex_t3) = ex_t3"
proof (rule coordinator_refusal_keeps_journal)
  have "coordinator_ServeHTTP ''t1'' ex_env ex_claim_request d = (coordinatorError 401 ''AUTH_DENIED'', d)" for d
    unfolding coordinator_ServeHTTP_def ex_claim_request_def by (simp add: cut_space_def)
  then show "coordinator_status (fst (coordinator_ServeHTTP ''t1'' ex_env ex_claim_request ex_t3)) \<noteq> 200"
    by (simp add: coordinatorError_def)
qed (simp add: ex_claim_request_def)

section \<open>Leases\<close>

definition wrapped_members :: "(string \<times> jdoc) list" where
  "wrapped_members = [(''leaseSeconds'', DNum ''36028797018963969''), (''workerId'', DStr ''w'')]"

definition wrapped_body :: string where
  "wrapped_body = doc_text (DObj wrapped_members)"

text \<open>A lease in seconds is multiplied by a second in 64 bits before it is checked: within an hour
  the product is exact, but a request for about a billion years is accepted as a lease of one second.
\<close>
theorem lease_seconds_wrap:
  "(list_all (\<lambda>s. lease_of s = s * second \<and> lease_ok (lease_of s)) [1..3600]) \<and> lease_of 36028797018963969 = second \<and>
   coordinator_claim n (r\<lparr>hr_contentType := ''application/json'', hr_body := wrapped_body\<rparr>) d =
     conclude_request n (\<lambda>c. CResponse 200 (CClaim c)) (ClaimProfile (cn_now1 n) (cn_attempt n) ''w'' second None d)"
proof -
  have "lease_of s = s * second" if h: "1 \<le> s" "s \<le> 3600" for s
    using h by (simp add: lease_of_def wrap64_def second_def)
  then have within: "list_all (\<lambda>s. lease_of s = s * second \<and> lease_ok (lease_of s)) [1..3600]"
    by (auto simp: list_all_iff lease_ok_def second_def)
  have wrapped: "lease_of 36028797018963969 = second" by (simp add: lease_of_def wrap64_def second_def)
  have body: "parse_json wrapped_body = Some (DObj wrapped_members)"
    unfolding wrapped_body_def by (rule doc_roundtrip) (code_simp, simp add: wrapped_members_def maxNestingDepth_def)
  have "length wrapped_body < 100" by code_simp
  then have size: "int (length wrapped_body) \<le> maxCoordinatorBody" by (simp add: maxCoordinatorBody_def)
  have known: "known_members [''workerId'', ''leaseSeconds'', ''effectProfile''] wrapped_members" by code_simp
  have fields: "field_values ''workerId'' wrapped_members = [DStr ''w'']" "field_values ''effectProfile'' wrapped_members = []"
    "field_values ''leaseSeconds'' wrapped_members = [DNum ''36028797018963969'']" "number_int ''36028797018963969'' = Some 36028797018963969"
    by code_simp+
  then have fields: "text_field ''workerId'' wrapped_members = Some ''w''" "int_field ''leaseSeconds'' wrapped_members = Some 36028797018963969"
    "text_field ''effectProfile'' wrapped_members = Some []"
    by (simp_all add: text_field_def struct_string_def int_field_def)
  have "decodeCoordinatorJSON [''workerId'', ''leaseSeconds'', ''effectProfile'']
      (r\<lparr>hr_contentType := ''application/json'', hr_body := wrapped_body\<rparr>) = Inr wrapped_members"
    using size known by (simp add: decodeCoordinatorJSON_def body)
  then have "coordinator_claim n (r\<lparr>hr_contentType := ''application/json'', hr_body := wrapped_body\<rparr>) d =
     conclude_request n (\<lambda>c. CResponse 200 (CClaim c)) (ClaimProfile (cn_now1 n) (cn_attempt n) ''w'' second None d)"
    by (simp add: coordinator_claim_def with_body_def fields wrapped profile_named_def)
  with within wrapped show ?thesis by blast
qed

end
