(* ===== verification/Spec2Isabelle.thy ===== *)
theory Spec2Isabelle
  imports Store_Props Engine_Props Scenario_Props Episode_Props Baseline_Props Agent_Props Host_Props Agent_Loop_Props Compare_Props Live_Props Config_Props Server_Props Coordinator_Props
begin

text \<open>
  MCP State Twin: a verification of the Go program under \<open>src/\<close>.

  \<^bold>\<open>The program.\<close> A state twin is a test world behind the tools of the Model Context Protocol. A
  TwinSpec declares tools with preconditions, effects and invariants (\<open>internal/spec\<close>). The engine
  (\<open>internal/engine\<close>) runs a tool call on the state of a branch, and the store (\<open>internal/store\<close>) keeps
  branches, immutable snapshots, a scheduler queue, fault plans and audit ledgers in SQLite. The data
  plane and the control plane (\<open>internal/server\<close>) offer the engine and the store over HTTP. Scenarios
  (\<open>internal/scenario\<close>) script tool calls and assertions; an episode (\<open>internal/episode\<close>) is a durable
  run of a scenario, kept in a journal and handed to remote workers under leases by a coordinator.
  Agent episodes (\<open>internal/agenteval\<close>) let a model act: a host session (\<open>internal/agenthost\<close>) speaks
  the protocol of the model under budgets, the loop runs the calls that a task (\<open>internal/task\<close>)
  authorizes, and the evaluator (\<open>internal/evaluator\<close>) grades the states and events. Comparisons
  and baselines (\<open>internal/agenteval/compare.go\<close>, \<open>internal/baseline\<close>) decide between two
  configurations from many graded trials.

  \<^bold>\<open>How Go is rendered.\<close> A function that returns a value and an error is a function into
  \<open>error + value\<close>; a transaction is a function \<open>db \<Rightarrow> (error + value) \<times> db\<close> that keeps the
  database when it fails (\<open>Prelude.transaction\<close>). Structs are records, tables are lists of rows, maps
  with string keys are association lists sorted by key (\<open>gomap\<close>), so that iterating one is what
  \<open>encoding/json\<close> and sorted loops do; where the program iterates a map in Go's random order, the order is
  an argument and the theorems quantify over it. Integers are \<open>int\<close> where the program checks their range
  and words or explicit wrap-around where it does not (\<open>Splitmix\<close>, the lease of the coordinator). A
  \<open>float64\<close> is the rational it stands for, with rounding to nearest even written out (\<open>Go_Float\<close>).
  Clocks, contexts, random bytes and third-party packages (CEL, JSON Schema, YAML, SQLite drivers, the
  protocol SDK, archives) are arguments of the definitions that use them.

  \<^bold>\<open>Theories, in the order of the layers.\<close>

  Vocabulary: \<open>Prelude\<close> (results, transactions, maps, tables, sorting), \<open>Go_Time\<close> (RFC 3339 instants),
  \<open>Go_Duration\<close> (\<open>time.ParseDuration\<close>), \<open>Go_Text\<close> (UTF-8 and \<open>strings\<close>), \<open>Go_Float\<close>, \<open>Go_Regexp\<close>
  (matching), \<open>Sha256\<close>, \<open>Canonical\<close> (\<open>internal/canonical\<close>: JSON text and digests), \<open>Json_Decode\<close>,
  \<open>Json_Facts\<close>, \<open>Json_Roundtrip\<close> (the decoder of \<open>encoding/json\<close>; writing then reading is the
  identity, canonical text is injective), \<open>Limit_Profile\<close> (\<open>internal/limits\<close>), \<open>Exec_Profile\<close>
  (\<open>internal/governor\<close>) and \<open>Config_Props\<close>.

  World and store: \<open>World\<close> (\<open>internal/world/state.go\<close>), \<open>Store\<close> and \<open>Scheduler\<close> (\<open>store.go\<close>,
  \<open>scheduler.go\<close>, one definition per operation with the name of the Go method), \<open>Diff\<close> (\<open>diff.go\<close>).
  \<open>Store_Facts\<close> inverts the operations; \<open>Store_Run\<close> shows that an operation touches one branch and only
  appends to ledgers; \<open>Store_Inv\<close> shows the database invariant; \<open>Store_Time\<close> snapshots and faults;
  \<open>Queue\<close> the order of the scheduler; \<open>Store_Heads\<close> the head versions; \<open>Store_Props\<close> states the properties
  over reachable databases (\<open>store_step\<close>), with \<open>Store_Example\<close> as their witness.

  Engine and scenarios: \<open>Twin_Spec\<close> (\<open>internal/spec\<close>), \<open>Engine\<close> (\<open>internal/engine\<close>), with the small
  weakest-precondition calculus of \<open>Engine_Facts\<close>, \<open>Engine_Props\<close>; \<open>Scenario\<close>, \<open>Scenario_Facts\<close>,
  \<open>Scenario_Props\<close>.

  Episodes: \<open>Episode\<close> (execution and evidence), \<open>Journal\<close> and \<open>Remote\<close> (the tables and operations of
  \<open>journal.go\<close> and \<open>remote.go\<close>), \<open>Coordinator\<close> (the HTTP server over them). \<open>Journal_Facts\<close> and
  \<open>Remote_Facts\<close> define two abstract machines, the lifecycle of an episode and the life of a task with its
  fencing token; \<open>Remote_Runs\<close> and \<open>Persistent_Runs\<close> show that every operation refines them;
  \<open>Episode_Props\<close> and \<open>Coordinator_Props\<close> state the consequences.

  Servers: \<open>Control_Plane\<close>, \<open>Data_Plane\<close> (with the admission of concurrent requests), \<open>Server_Facts\<close>,
  \<open>Server_Props\<close>.

  Agents: \<open>Task\<close> (documents, authority, path rules), \<open>Evaluator\<close>, \<open>Sanitize\<close> (\<open>internal/logging\<close>: the
  admission of text that may hold credentials), \<open>Host_Json\<close>, \<open>Host_Session\<close>, \<open>Host_Facts\<close>, \<open>Host_Props\<close>
  (the session protocol as a state machine with budgets), \<open>Agent_World\<close>, \<open>Agent_Loop\<close>,
  \<open>Agent_Loop_Facts\<close>, \<open>Agent_Loop_Props\<close> (environment, loop and report of an episode), \<open>Agent_Props\<close>,
  \<open>Compare\<close> and \<open>Compare_Props\<close> (the comparison of two models), \<open>Live_Client\<close> and \<open>Live_Props\<close>
  (\<open>internal/agentapi\<close>: approved plans and the client of the model provider).

  Baselines: \<open>Splitmix\<close>, \<open>Statistics\<close> (the bootstrap), \<open>Baseline\<close> (plans and schedules), \<open>Decision\<close>,
  \<open>Decision_Facts\<close>, \<open>Baseline_Props\<close>.

  \<^bold>\<open>Interfaces.\<close> A contract between components is a locale, interpreted on the definitions of the
  component that provides it. \<open>Prelude\<close> has the contracts of transition systems: \<open>run_invariant\<close>
  (interpreted for the store, the journal, the server, the admission of requests and the coordinator),
  \<open>run_ledger\<close> (the audit tables and snapshots), \<open>run_frame\<close> (the isolation of branches), and
  \<open>strict_order_on\<close> (the queue of the scheduler). \<open>Agent_Loop_Facts.loop_invariant\<close> is the contract of the
  agent loop, interpreted for the world, the counters and the deliveries.

  \<^bold>\<open>Fuel and bounds.\<close> Recursion is structural or has a measure wherever the code terminates by itself.
  The JSON decoder has the fuel \<open>2 * length + 2\<close>, and \<open>Json_Facts\<close> shows that more fuel never
  changes a result (\<open>json_fuel_enough\<close>). The closure of a regular expression with n positions takes n + 1 rounds,
  which \<open>Go_Regexp.close_star\<close> shows to be enough. Embedded JSON is scanned to the four levels of the
  code. The unbiased index draws until it accepts; \<open>Baseline_Props\<close> shows that for the generator this
  ends. The number of steps of a host session is bounded by its budgets (\<open>session_always_ends\<close>).

  \<^bold>\<open>What is not modelled.\<close> Command-line front ends, files and directories of evidence, archives, sockets
  and processes of plugins, the HTTP clients, YAML decoding, and the texts of wrapped errors beyond
  their sentinels. Errors of the SQL driver and the columns \<open>created_at\<close> are left out; a transaction is
  serialized by the single connection of the program. Fractional JSON numbers are exact inside tasks and
  the host and a parameter elsewhere; negative zero, the difference between a nil and an empty slice
  (except where it is encoded), the base64 text of page cursors, and redirects of unclean URL paths are
  not represented. The manifest of the development lists every part with what is and is not covered.
\<close>

end
